(* ===== verification/Prelude.thy ===== *)
theory Prelude
  imports Main "HOL-Library.Word"
begin

text \<open>
  Shared vocabulary of the development: the machine integers of vpu_type.h, the result type of
  code that may leave its function early or run into undefined behaviour, and the generic lemmas
  on words and lists that the component theories use.
\<close>

unbundle bit_operations_syntax

section \<open>Machine integers\<close>

text \<open>RK_U8 and RK_U32 of vpu_type.h; an address of the 32-bit target is an RK_U32.\<close>

type_synonym u8 = "8 word"
type_synonym u32 = "32 word"
type_synonym addr = "32 word"

text \<open>The byte-addressed memory that stream pointers read from.\<close>

type_synonym memory = "addr \<Rightarrow> u8"

named_theorems word_field \<comment> \<open>reading and writing a bit field of a register word\<close>
named_theorems outcome_simps \<comment> \<open>unfolding of the sequencing of outcomes\<close>

section \<open>Bit fields of a word\<close>

text \<open>A field of a word is given by its width and its position.\<close>

lemma field_read_back [word_field]:
  fixes x v :: u32
  assumes "p + w \<le> 32"
  shows "drop_bit p ((x AND NOT (push_bit p (mask w))) OR push_bit p (v AND mask w)) AND mask w
    = v AND mask w"
  by (rule bit_eqI) (use assms in \<open>auto simp: bit_simps dest: bit_imp_le_length\<close>)

lemma field_frame_low [word_field]:
  fixes x v :: u32
  assumes "p + w \<le> p'"
  shows "drop_bit p' ((x AND NOT (push_bit p (mask w))) OR push_bit p (v AND mask w)) AND mask w'
    = drop_bit p' x AND mask w'"
  by (rule bit_eqI) (use assms in \<open>auto simp: bit_simps dest: bit_imp_le_length\<close>)

lemma field_frame_high [word_field]:
  fixes x v :: u32
  assumes "p' + w' \<le> p"
  shows "drop_bit p' ((x AND NOT (push_bit p (mask w))) OR push_bit p (v AND mask w)) AND mask w'
    = drop_bit p' x AND mask w'"
  by (rule bit_eqI) (use assms in \<open>auto simp: bit_simps dest: bit_imp_le_length\<close>)

lemma field_overwrite [word_field]:
  fixes x v :: u32
  shows "((x AND NOT (push_bit p (mask w))) OR push_bit p (v AND mask w)) AND NOT (push_bit p (mask w))
    = x AND NOT (push_bit p (mask w))"
  by (rule bit_eqI) (auto simp: bit_simps)

lemma and_mask_small: "unat (v :: u32) < 2 ^ n \<Longrightarrow> v AND mask n = v"
  by (simp add: take_bit_eq_mask [symmetric] word_unat_eq_iff unsigned_take_bit_eq
      take_bit_nat_eq_self_iff)

section \<open>Arithmetic of 32-bit words\<close>

lemma max_if: "(if x > y then x else y) = max y (x :: u32)"
  by (auto simp: max_def)

lemma u32_lt: "unat (x :: u32) < 4294967296"
  using unsigned_less [of x] by simp

lemma u32_mult: "unat (x :: u32) * unat y < 4294967296 \<Longrightarrow> unat (x * y) = unat x * unat y"
  by (simp add: unat_word_ariths)

lemma u32_add: "unat (x :: u32) + unat y < 4294967296 \<Longrightarrow> unat (x + y) = unat x + unat y"
  by (simp add: unat_word_ariths)

lemma and_not_mask4:
  fixes x :: u32
  shows "unat (x AND - 16) = unat x div 16 * 16"
proof -
  have m: "- 16 = NOT (mask 4 :: u32)" by (simp add: mask_eq_exp_minus_1)
  have "x AND - 16 = push_bit 4 (drop_bit 4 x)"
    unfolding m by (rule bit_word_eqI) (auto simp: bit_simps)
  moreover have "unat (push_bit 4 (drop_bit 4 x)) = unat x div 16 * 16"
  proof -
    have "unat x div 16 * 16 < 2 ^ 32"
      using u32_lt [of x] by (simp add: less_mult_imp_div_less)
    then show ?thesis
      by (simp add: push_bit_eq_mult drop_bit_eq_div unat_word_ariths unat_div)
  qed
  ultimately show ?thesis by simp
qed

section \<open>Results\<close>

text \<open>
  A piece of code either goes on with a value, returns from its function early, or has undefined
  behaviour (an access outside an array). OutOfFuel is the result of a loop that was not given
  enough steps. Both are values of the model, so that their absence is a theorem.
\<close>

datatype ('r, 'a) outcome = Continue 'a | Return 'r | Undefined | OutOfFuel

fun andThen :: "('r, 'a) outcome \<Rightarrow> ('a \<Rightarrow> ('r, 'b) outcome) \<Rightarrow> ('r, 'b) outcome" where
  "andThen (Continue a) f = f a"
| "andThen (Return r) f = Return r"
| "andThen Undefined f = Undefined"
| "andThen OutOfFuel f = OutOfFuel"

lemma andThen_Continue_iff [outcome_simps]:
  "andThen m f = Continue b \<longleftrightarrow> (\<exists>a. m = Continue a \<and> f a = Continue b)"
  by (cases m) auto

lemma andThen_Undefined_iff [outcome_simps]:
  "andThen m f = Undefined \<longleftrightarrow> m = Undefined \<or> (\<exists>a. m = Continue a \<and> f a = Undefined)"
  by (cases m) auto

lemma andThen_Return_iff [outcome_simps]:
  "andThen m f = Return r \<longleftrightarrow> m = Return r \<or> (\<exists>a. m = Continue a \<and> f a = Return r)"
  by (cases m) auto

lemma andThen_OutOfFuel_iff [outcome_simps]:
  "andThen m f = OutOfFuel \<longleftrightarrow> m = OutOfFuel \<or> (\<exists>a. m = Continue a \<and> f a = OutOfFuel)"
  by (cases m) auto

lemma andThen_assoc:
  "andThen (andThen m f) g = andThen m (\<lambda>a. andThen (f a) g)"
  by (cases m) auto

text \<open>for (x in xs) body: the body may return or fail.\<close>

primrec forEach :: "'x list \<Rightarrow> ('x \<Rightarrow> 's \<Rightarrow> ('r, 's) outcome) \<Rightarrow> 's \<Rightarrow> ('r, 's) outcome" where
  "forEach [] body s = Continue s"
| "forEach (x # xs) body s = andThen (body x s) (forEach xs body)"

lemma forEach_append: "forEach (xs @ ys) body s = andThen (forEach xs body s) (forEach ys body)"
proof (induction xs arbitrary: s)
  case (Cons x xs)
  then have "forEach (xs @ ys) body = (\<lambda>s. andThen (forEach xs body s) (forEach ys body))" by (rule ext)
  then show ?case by (simp add: andThen_assoc)
qed simp

text \<open>while (b) body, with at most n passes.\<close>

primrec whileLoop :: "nat \<Rightarrow> ('s \<Rightarrow> bool) \<Rightarrow> ('s \<Rightarrow> ('r, 's) outcome) \<Rightarrow> 's \<Rightarrow> ('r, 's) outcome" where
  "whileLoop 0 b body s = (if b s then OutOfFuel else Continue s)"
| "whileLoop (Suc n) b body s =
     (if b s then andThen (body s) (whileLoop n b body) else Continue s)"

section \<open>Reasoning about results\<close>

text \<open>The code is defined and has fuel, goes on only in P and returns only in Q.\<close>

fun ends_in :: "('r, 'a) outcome \<Rightarrow> ('a \<Rightarrow> bool) \<Rightarrow> ('r \<Rightarrow> bool) \<Rightarrow> bool" where
  "ends_in (Continue a) P Q = P a"
| "ends_in (Return r) P Q = Q r"
| "ends_in Undefined P Q = False"
| "ends_in OutOfFuel P Q = False"

named_theorems ends_in_intros \<comment> \<open>rules for ends_in\<close>

lemma ends_in_mono:
  "ends_in m P Q \<Longrightarrow> (\<And>a. P a \<Longrightarrow> P' a) \<Longrightarrow> (\<And>r. Q r \<Longrightarrow> Q' r) \<Longrightarrow> ends_in m P' Q'"
  by (cases m) auto

lemma ends_in_andThen [ends_in_intros]:
  "ends_in m P Q \<Longrightarrow> (\<And>a. P a \<Longrightarrow> ends_in (f a) P' Q) \<Longrightarrow> ends_in (andThen m f) P' Q"
  by (cases m) auto

lemma ends_in_defined: "ends_in m P Q \<Longrightarrow> m \<noteq> Undefined \<and> m \<noteq> OutOfFuel"
  by (cases m) auto

lemma ends_in_if [ends_in_intros]:
  "(b \<Longrightarrow> ends_in x P Q) \<Longrightarrow> (\<not> b \<Longrightarrow> ends_in y P Q) \<Longrightarrow> ends_in (if b then x else y) P Q"
  by simp

lemma ends_in_conj: "ends_in m P Q \<Longrightarrow> ends_in m P' Q' \<Longrightarrow> ends_in m (\<lambda>a. P a \<and> P' a) (\<lambda>r. Q r \<and> Q' r)"
  by (cases m) auto

lemma ends_in_forEach [ends_in_intros]:
  assumes "P s" "\<And>x s. x \<in> set xs \<Longrightarrow> P s \<Longrightarrow> ends_in (body x s) P Q"
  shows "ends_in (forEach xs body s) P Q"
  using assms by (induction xs arbitrary: s) (auto intro!: ends_in_andThen)

text \<open>Every pass makes the measure smaller, and there are more passes than the measure.\<close>

lemma ends_in_whileLoop:
  assumes "P s" "m s < n"
    and "\<And>s. P s \<Longrightarrow> b s \<Longrightarrow> ends_in (body s) (\<lambda>s'. P s' \<and> m s' < m s) Q"
  shows "ends_in (whileLoop n b body s) (\<lambda>s. P s \<and> \<not> b s) Q"
  using assms(1,2)
proof (induction n arbitrary: s)
  case 0
  then show ?case by simp
next
  case (Suc n)
  show ?case
  proof (cases "b s")
    case True
    have "ends_in (andThen (body s) (whileLoop n b body)) (\<lambda>s. P s \<and> \<not> b s) Q"
    proof (rule ends_in_andThen)
      show "ends_in (body s) (\<lambda>s'. P s' \<and> m s' < m s) Q" using Suc.prems(1) True by (rule assms(3))
    next
      fix s' assume "P s' \<and> m s' < m s"
      then show "ends_in (whileLoop n b body s') (\<lambda>s. P s \<and> \<not> b s) Q"
        using Suc.prems(2) by (intro Suc.IH) auto
    qed
    then show ?thesis using True by simp
  qed (use Suc.prems in simp)
qed

text \<open>The same measure shows that the fuel is enough when passes may be undefined.\<close>

lemma whileLoop_enough:
  assumes "P s" "m s < n"
    and "\<And>s. P s \<Longrightarrow> b s \<Longrightarrow> body s \<noteq> OutOfFuel \<and> (\<forall>s'. body s = Continue s' \<longrightarrow> P s' \<and> m s' < m s)"
  shows "whileLoop n b body s \<noteq> OutOfFuel"
  using assms(1,2)
proof (induction n arbitrary: s)
  case (Suc n)
  show ?case
  proof (cases "b s")
    case True
    with Suc assms(3) [of s] show ?thesis by (cases "body s") auto
  qed simp
qed simp

text \<open>More fuel does not change a result.\<close>

lemma whileLoop_fuel:
  "whileLoop n b body s \<noteq> OutOfFuel \<Longrightarrow> n \<le> m \<Longrightarrow> whileLoop m b body s = whileLoop n b body s"
proof (induction n arbitrary: m s)
  case 0
  then show ?case by (cases m) (auto split: if_splits)
next
  case (Suc n)
  then obtain k where "m = Suc k" "n \<le> k" by (cases m) auto
  then show ?case using Suc.IH [of _ k] Suc.prems(1) by (cases "body s") (simp_all split: if_splits)
qed

lemma ends_in_forEach_upt:
  assumes "P 0 s" "\<And>i s. i < n \<Longrightarrow> P i s \<Longrightarrow> ends_in (body i s) (P (Suc i)) Q"
  shows "ends_in (forEach [0..<n] body s) (P n) Q"
proof -
  have "ends_in (forEach [m..<n] body s) (P n) Q" if "P m s" "m \<le> n" for m s
    using that
  proof (induction "n - m" arbitrary: m s)
    case 0
    then show ?case by simp
  next
    case (Suc k)
    then have "m < n" by simp
    then have "[m..<n] = m # [Suc m..<n]" by (rule upt_conv_Cons)
    then show ?case
      using Suc assms(2) [OF \<open>m < n\<close>] by (auto intro!: ends_in_andThen)
  qed
  then show ?thesis using assms(1) by simp
qed

lemma ends_in_let [ends_in_intros]:
  "(\<And>y. y = x \<Longrightarrow> ends_in (F y) P Q) \<Longrightarrow> ends_in (let y = x in F y) P Q"
  by (simp add: Let_def)

section \<open>Lists\<close>

lemma nth_list_update_if:
  "i < length xs \<Longrightarrow> xs[i := v] ! j = (if i = j then v else xs ! j)"
  by auto

end
