(* ===== verification/RegFile.thy ===== *)
theory RegFile
  imports Prelude
begin

text \<open>
  The register file of the decoder: the array of shadow registers (jpegRegs), the table of bit
  fields hwDecRegSpec (6731table.h, included by reg.cpp), the field identifiers of the enum of
  rkregdrv.h that the JPEG decoder uses, and the two accessors of reg.cpp. The locale
  register_file states what a client may rely on (a field read back after a write, the other
  fields untouched) and derives what a sequence of writes leaves in every field.
\<close>

section \<open>Field identifiers (enum of rkregdrv.h)\<close>

definition HWIF_PP_AXI_WR_ID :: nat where "HWIF_PP_AXI_WR_ID = 0"
definition HWIF_PP_AXI_RD_ID :: nat where "HWIF_PP_AXI_RD_ID = 1"
definition HWIF_PP_SCMD_DIS :: nat where "HWIF_PP_SCMD_DIS = 2"
definition HWIF_PP_MAX_BURST :: nat where "HWIF_PP_MAX_BURST = 3"
definition HWIF_COLOR_COEFFB :: nat where "HWIF_COLOR_COEFFB = 4"
definition HWIF_COLOR_COEFFA2 :: nat where "HWIF_COLOR_COEFFA2 = 5"
definition HWIF_COLOR_COEFFA1 :: nat where "HWIF_COLOR_COEFFA1 = 6"
definition HWIF_COLOR_COEFFE :: nat where "HWIF_COLOR_COEFFE = 7"
definition HWIF_COLOR_COEFFD :: nat where "HWIF_COLOR_COEFFD = 8"
definition HWIF_COLOR_COEFFC :: nat where "HWIF_COLOR_COEFFC = 9"
definition HWIF_COLOR_COEFFF :: nat where "HWIF_COLOR_COEFFF = 10"
definition HWIF_VER_SCALE_MODE :: nat where "HWIF_VER_SCALE_MODE = 11"
definition HWIF_HOR_SCALE_MODE :: nat where "HWIF_HOR_SCALE_MODE = 12"
definition HWIF_SCALE_WRATIO :: nat where "HWIF_SCALE_WRATIO = 13"
definition HWIF_SCALE_HRATIO :: nat where "HWIF_SCALE_HRATIO = 14"
definition HWIF_HSCALE_INVRA :: nat where "HWIF_HSCALE_INVRA = 15"
definition HWIF_WSCALE_INVRA :: nat where "HWIF_WSCALE_INVRA = 16"
definition HWIF_R_MASK :: nat where "HWIF_R_MASK = 21"
definition HWIF_G_MASK :: nat where "HWIF_G_MASK = 22"
definition HWIF_B_MASK :: nat where "HWIF_B_MASK = 23"
definition HWIF_PP_CROP8_R_E :: nat where "HWIF_PP_CROP8_R_E = 26"
definition HWIF_PP_CROP8_D_E :: nat where "HWIF_PP_CROP8_D_E = 27"
definition HWIF_CROP_STARTX_EXT :: nat where "HWIF_CROP_STARTX_EXT = 28"
definition HWIF_CROP_STARTY :: nat where "HWIF_CROP_STARTY = 29"
definition HWIF_CROP_STARTY_EXT :: nat where "HWIF_CROP_STARTY_EXT = 30"
definition HWIF_CROP_STARTX :: nat where "HWIF_CROP_STARTX = 31"
definition HWIF_RANGEMAP_COEF_C :: nat where "HWIF_RANGEMAP_COEF_C = 32"
definition HWIF_YCBCR_RANGE :: nat where "HWIF_YCBCR_RANGE = 33"
definition HWIF_RANGEMAP_COEF_Y :: nat where "HWIF_RANGEMAP_COEF_Y = 34"
definition HWIF_RGB_B_PADD :: nat where "HWIF_RGB_B_PADD = 35"
definition HWIF_RGB_G_PADD :: nat where "HWIF_RGB_G_PADD = 36"
definition HWIF_RGB_R_PADD :: nat where "HWIF_RGB_R_PADD = 37"
definition HWIF_PP_IN_LU_BASE :: nat where "HWIF_PP_IN_LU_BASE = 38"
definition HWIF_PP_OUT_LU_BASE :: nat where "HWIF_PP_OUT_LU_BASE = 41"
definition HWIF_PP_OUT_CH_BASE :: nat where "HWIF_PP_OUT_CH_BASE = 42"
definition HWIF_CONTRAST_THR2 :: nat where "HWIF_CONTRAST_THR2 = 55"
definition HWIF_CONTRAST_THR1 :: nat where "HWIF_CONTRAST_THR1 = 56"
definition HWIF_CONTRAST_OFF2 :: nat where "HWIF_CONTRAST_OFF2 = 57"
definition HWIF_CONTRAST_OFF1 :: nat where "HWIF_CONTRAST_OFF1 = 58"
definition HWIF_PP_IN_H_EXT :: nat where "HWIF_PP_IN_H_EXT = 59"
definition HWIF_PP_IN_HEIGHT :: nat where "HWIF_PP_IN_HEIGHT = 60"
definition HWIF_EXT_ORIG_WIDTH :: nat where "HWIF_EXT_ORIG_WIDTH = 61"
definition HWIF_PP_IN_W_EXT :: nat where "HWIF_PP_IN_W_EXT = 62"
definition HWIF_PP_IN_WIDTH :: nat where "HWIF_PP_IN_WIDTH = 63"
definition HWIF_PP_OUT_HEIGHT :: nat where "HWIF_PP_OUT_HEIGHT = 64"
definition HWIF_PP_OUT_WIDTH :: nat where "HWIF_PP_OUT_WIDTH = 65"
definition HWIF_DITHER_SELECT_B :: nat where "HWIF_DITHER_SELECT_B = 66"
definition HWIF_DITHER_SELECT_G :: nat where "HWIF_DITHER_SELECT_G = 67"
definition HWIF_DITHER_SELECT_R :: nat where "HWIF_DITHER_SELECT_R = 68"
definition HWIF_PP_OUT_SWAP32_E :: nat where "HWIF_PP_OUT_SWAP32_E = 74"
definition HWIF_PP_OUT_SWAP16_E :: nat where "HWIF_PP_OUT_SWAP16_E = 75"
definition HWIF_PP_IN_A1_SWAP32 :: nat where "HWIF_PP_IN_A1_SWAP32 = 76"
definition HWIF_PP_IN_SWAP32_E :: nat where "HWIF_PP_IN_SWAP32_E = 77"
definition HWIF_RGB_PIX_IN32 :: nat where "HWIF_RGB_PIX_IN32 = 78"
definition HWIF_PP_OUT_ENDIAN :: nat where "HWIF_PP_OUT_ENDIAN = 79"
definition HWIF_PP_IN_A2_ENDSEL :: nat where "HWIF_PP_IN_A2_ENDSEL = 80"
definition HWIF_PP_IN_A1_ENDIAN :: nat where "HWIF_PP_IN_A1_ENDIAN = 81"
definition HWIF_PP_IN_ENDIAN :: nat where "HWIF_PP_IN_ENDIAN = 82"
definition HWIF_PP_IN_FORMAT_ES :: nat where "HWIF_PP_IN_FORMAT_ES = 83"
definition HWIF_PP_OUT_FORMAT :: nat where "HWIF_PP_OUT_FORMAT = 84"
definition HWIF_PP_IN_FORMAT :: nat where "HWIF_PP_IN_FORMAT = 85"
definition HWIF_ROTATION_MODE :: nat where "HWIF_ROTATION_MODE = 86"
definition HWIF_DISPLAY_WIDTH :: nat where "HWIF_DISPLAY_WIDTH = 87"
definition HWIF_PP_AHB_HLOCK_E :: nat where "HWIF_PP_AHB_HLOCK_E = 92"
definition HWIF_PP_DATA_DISC_E :: nat where "HWIF_PP_DATA_DISC_E = 101"
definition HWIF_PP_PIPELINE_E :: nat where "HWIF_PP_PIPELINE_E = 104"
definition HWIF_PP_CLK_GATE_E :: nat where "HWIF_PP_CLK_GATE_E = 105"
definition HWIF_PRIORITY_MODE :: nat where "HWIF_PRIORITY_MODE = 111"
definition HWIF_DEC_SCMD_DIS :: nat where "HWIF_DEC_SCMD_DIS = 113"
definition HWIF_FILTERING_DIS :: nat where "HWIF_FILTERING_DIS = 115"
definition HWIF_DEC_LATENCY :: nat where "HWIF_DEC_LATENCY = 117"
definition HWIF_DEC_OUT_TILED_E :: nat where "HWIF_DEC_OUT_TILED_E = 118"
definition HWIF_STREAM_LEN :: nat where "HWIF_STREAM_LEN = 121"
definition HWIF_DEC_MODE :: nat where "HWIF_DEC_MODE = 125"
definition HWIF_DEC_STRENDIAN_E :: nat where "HWIF_DEC_STRENDIAN_E = 126"
definition HWIF_DEC_STRSWAP32_E :: nat where "HWIF_DEC_STRSWAP32_E = 127"
definition HWIF_DEC_OUTSWAP32_E :: nat where "HWIF_DEC_OUTSWAP32_E = 128"
definition HWIF_DEC_INSWAP32_E :: nat where "HWIF_DEC_INSWAP32_E = 129"
definition HWIF_DEC_OUT_ENDIAN :: nat where "HWIF_DEC_OUT_ENDIAN = 130"
definition HWIF_DEC_IN_ENDIAN :: nat where "HWIF_DEC_IN_ENDIAN = 131"
definition HWIF_DEC_SLICE_INT :: nat where "HWIF_DEC_SLICE_INT = 135"
definition HWIF_DEC_BUFFER_INT :: nat where "HWIF_DEC_BUFFER_INT = 137"
definition HWIF_DEC_RDY_INT :: nat where "HWIF_DEC_RDY_INT = 139"
definition HWIF_DEC_IRQ_DIS :: nat where "HWIF_DEC_IRQ_DIS = 140"
definition HWIF_DEC_IRQ :: nat where "HWIF_DEC_IRQ = 141"
definition HWIF_DEC_DATA_DISC_E :: nat where "HWIF_DEC_DATA_DISC_E = 142"
definition HWIF_DEC_MAX_BURST :: nat where "HWIF_DEC_MAX_BURST = 143"
definition HWIF_DEC_AXI_WR_ID :: nat where "HWIF_DEC_AXI_WR_ID = 144"
definition HWIF_DEC_AXI_RD_ID :: nat where "HWIF_DEC_AXI_RD_ID = 145"
definition HWIF_RLC_MODE_E :: nat where "HWIF_RLC_MODE_E = 154"
definition HWIF_PJPEG_E :: nat where "HWIF_PJPEG_E = 156"
definition HWIF_DEC_TIMEOUT_E :: nat where "HWIF_DEC_TIMEOUT_E = 169"
definition HWIF_DEC_CLK_GATE_E :: nat where "HWIF_DEC_CLK_GATE_E = 170"
definition HWIF_DEC_OUT_DIS :: nat where "HWIF_DEC_OUT_DIS = 171"
definition HWIF_DEC_E :: nat where "HWIF_DEC_E = 173"
definition HWIF_QTABLE_BASE :: nat where "HWIF_QTABLE_BASE = 178"
definition HWIF_DIR_MV_BASE :: nat where "HWIF_DIR_MV_BASE = 179"
definition HWIF_DEC_OUT_BASE :: nat where "HWIF_DEC_OUT_BASE = 180"
definition HWIF_RLC_VLC_BASE :: nat where "HWIF_RLC_VLC_BASE = 181"
definition HWIF_PIC_MB_WIDTH :: nat where "HWIF_PIC_MB_WIDTH = 193"
definition HWIF_PIC_MB_HEIGHT_P :: nat where "HWIF_PIC_MB_HEIGHT_P = 195"
definition HWIF_PIC_MB_W_EXT :: nat where "HWIF_PIC_MB_W_EXT = 199"
definition HWIF_PIC_MB_H_EXT :: nat where "HWIF_PIC_MB_H_EXT = 200"
definition HWIF_PJPEG_FILDOWN_E :: nat where "HWIF_PJPEG_FILDOWN_E = 218"
definition HWIF_PJPEG_WDIV8 :: nat where "HWIF_PJPEG_WDIV8 = 219"
definition HWIF_PJPEG_HDIV8 :: nat where "HWIF_PJPEG_HDIV8 = 220"
definition HWIF_PJPEG_AH :: nat where "HWIF_PJPEG_AH = 221"
definition HWIF_PJPEG_AL :: nat where "HWIF_PJPEG_AL = 222"
definition HWIF_PJPEG_SS :: nat where "HWIF_PJPEG_SS = 223"
definition HWIF_PJPEG_SE :: nat where "HWIF_PJPEG_SE = 224"
definition HWIF_STRM_START_BIT :: nat where "HWIF_STRM_START_BIT = 231"
definition HWIF_SYNC_MARKER_E :: nat where "HWIF_SYNC_MARKER_E = 232"
definition HWIF_JPEG_QTABLES :: nat where "HWIF_JPEG_QTABLES = 254"
definition HWIF_JPEG_MODE :: nat where "HWIF_JPEG_MODE = 255"
definition HWIF_JPEG_FILRIGHT_E :: nat where "HWIF_JPEG_FILRIGHT_E = 256"
definition HWIF_JPEG_STREAM_ALL :: nat where "HWIF_JPEG_STREAM_ALL = 257"
definition HWIF_CR_AC_VLCTABLE :: nat where "HWIF_CR_AC_VLCTABLE = 258"
definition HWIF_CB_AC_VLCTABLE :: nat where "HWIF_CB_AC_VLCTABLE = 259"
definition HWIF_CR_DC_VLCTABLE :: nat where "HWIF_CR_DC_VLCTABLE = 260"
definition HWIF_CB_DC_VLCTABLE :: nat where "HWIF_CB_DC_VLCTABLE = 261"
definition HWIF_CR_DC_VLCTABLE3 :: nat where "HWIF_CR_DC_VLCTABLE3 = 262"
definition HWIF_CB_DC_VLCTABLE3 :: nat where "HWIF_CB_DC_VLCTABLE3 = 263"
definition HWIF_PJPEG_REST_FREQ :: nat where "HWIF_PJPEG_REST_FREQ = 280"
definition HWIF_PJPEG_DCCB_BASE :: nat where "HWIF_PJPEG_DCCB_BASE = 297"
definition HWIF_PJPEG_DCCR_BASE :: nat where "HWIF_PJPEG_DCCR_BASE = 301"
definition HWIF_JPG_CH_OUT_BASE :: nat where "HWIF_JPG_CH_OUT_BASE = 334"
definition HWIF_AC1_CODE6_CNT :: nat where "HWIF_AC1_CODE6_CNT = 355"
definition HWIF_AC1_CODE5_CNT :: nat where "HWIF_AC1_CODE5_CNT = 356"
definition HWIF_AC1_CODE4_CNT :: nat where "HWIF_AC1_CODE4_CNT = 357"
definition HWIF_AC1_CODE3_CNT :: nat where "HWIF_AC1_CODE3_CNT = 358"
definition HWIF_AC1_CODE2_CNT :: nat where "HWIF_AC1_CODE2_CNT = 359"
definition HWIF_AC1_CODE1_CNT :: nat where "HWIF_AC1_CODE1_CNT = 360"
definition HWIF_AC1_CODE10_CNT :: nat where "HWIF_AC1_CODE10_CNT = 362"
definition HWIF_AC1_CODE9_CNT :: nat where "HWIF_AC1_CODE9_CNT = 363"
definition HWIF_AC1_CODE8_CNT :: nat where "HWIF_AC1_CODE8_CNT = 364"
definition HWIF_AC1_CODE7_CNT :: nat where "HWIF_AC1_CODE7_CNT = 365"
definition HWIF_AC1_CODE14_CNT :: nat where "HWIF_AC1_CODE14_CNT = 383"
definition HWIF_AC1_CODE13_CNT :: nat where "HWIF_AC1_CODE13_CNT = 384"
definition HWIF_AC1_CODE12_CNT :: nat where "HWIF_AC1_CODE12_CNT = 385"
definition HWIF_AC1_CODE11_CNT :: nat where "HWIF_AC1_CODE11_CNT = 386"
definition HWIF_AC2_CODE4_CNT :: nat where "HWIF_AC2_CODE4_CNT = 393"
definition HWIF_AC2_CODE3_CNT :: nat where "HWIF_AC2_CODE3_CNT = 394"
definition HWIF_AC2_CODE2_CNT :: nat where "HWIF_AC2_CODE2_CNT = 395"
definition HWIF_AC2_CODE1_CNT :: nat where "HWIF_AC2_CODE1_CNT = 396"
definition HWIF_AC1_CODE16_CNT :: nat where "HWIF_AC1_CODE16_CNT = 397"
definition HWIF_AC1_CODE15_CNT :: nat where "HWIF_AC1_CODE15_CNT = 398"
definition HWIF_AC2_CODE8_CNT :: nat where "HWIF_AC2_CODE8_CNT = 409"
definition HWIF_AC2_CODE7_CNT :: nat where "HWIF_AC2_CODE7_CNT = 410"
definition HWIF_AC2_CODE6_CNT :: nat where "HWIF_AC2_CODE6_CNT = 411"
definition HWIF_AC2_CODE5_CNT :: nat where "HWIF_AC2_CODE5_CNT = 412"
definition HWIF_AC2_CODE12_CNT :: nat where "HWIF_AC2_CODE12_CNT = 419"
definition HWIF_AC2_CODE11_CNT :: nat where "HWIF_AC2_CODE11_CNT = 420"
definition HWIF_AC2_CODE10_CNT :: nat where "HWIF_AC2_CODE10_CNT = 421"
definition HWIF_AC2_CODE9_CNT :: nat where "HWIF_AC2_CODE9_CNT = 422"
definition HWIF_AC2_CODE16_CNT :: nat where "HWIF_AC2_CODE16_CNT = 429"
definition HWIF_AC2_CODE15_CNT :: nat where "HWIF_AC2_CODE15_CNT = 430"
definition HWIF_AC2_CODE14_CNT :: nat where "HWIF_AC2_CODE14_CNT = 431"
definition HWIF_AC2_CODE13_CNT :: nat where "HWIF_AC2_CODE13_CNT = 432"
definition HWIF_DC1_CODE8_CNT :: nat where "HWIF_DC1_CODE8_CNT = 439"
definition HWIF_DC1_CODE7_CNT :: nat where "HWIF_DC1_CODE7_CNT = 440"
definition HWIF_DC1_CODE6_CNT :: nat where "HWIF_DC1_CODE6_CNT = 441"
definition HWIF_DC1_CODE5_CNT :: nat where "HWIF_DC1_CODE5_CNT = 442"
definition HWIF_DC1_CODE4_CNT :: nat where "HWIF_DC1_CODE4_CNT = 443"
definition HWIF_DC1_CODE3_CNT :: nat where "HWIF_DC1_CODE3_CNT = 444"
definition HWIF_DC1_CODE2_CNT :: nat where "HWIF_DC1_CODE2_CNT = 445"
definition HWIF_DC1_CODE1_CNT :: nat where "HWIF_DC1_CODE1_CNT = 446"
definition HWIF_DC1_CODE16_CNT :: nat where "HWIF_DC1_CODE16_CNT = 453"
definition HWIF_DC1_CODE15_CNT :: nat where "HWIF_DC1_CODE15_CNT = 454"
definition HWIF_DC1_CODE14_CNT :: nat where "HWIF_DC1_CODE14_CNT = 455"
definition HWIF_DC1_CODE13_CNT :: nat where "HWIF_DC1_CODE13_CNT = 456"
definition HWIF_DC1_CODE12_CNT :: nat where "HWIF_DC1_CODE12_CNT = 457"
definition HWIF_DC1_CODE11_CNT :: nat where "HWIF_DC1_CODE11_CNT = 458"
definition HWIF_DC1_CODE10_CNT :: nat where "HWIF_DC1_CODE10_CNT = 459"
definition HWIF_DC1_CODE9_CNT :: nat where "HWIF_DC1_CODE9_CNT = 460"
definition HWIF_DC2_CODE8_CNT :: nat where "HWIF_DC2_CODE8_CNT = 467"
definition HWIF_DC2_CODE7_CNT :: nat where "HWIF_DC2_CODE7_CNT = 468"
definition HWIF_DC2_CODE6_CNT :: nat where "HWIF_DC2_CODE6_CNT = 469"
definition HWIF_DC2_CODE5_CNT :: nat where "HWIF_DC2_CODE5_CNT = 470"
definition HWIF_DC2_CODE4_CNT :: nat where "HWIF_DC2_CODE4_CNT = 471"
definition HWIF_DC2_CODE3_CNT :: nat where "HWIF_DC2_CODE3_CNT = 472"
definition HWIF_DC2_CODE2_CNT :: nat where "HWIF_DC2_CODE2_CNT = 473"
definition HWIF_DC2_CODE1_CNT :: nat where "HWIF_DC2_CODE1_CNT = 474"
definition HWIF_DC2_CODE16_CNT :: nat where "HWIF_DC2_CODE16_CNT = 481"
definition HWIF_DC2_CODE15_CNT :: nat where "HWIF_DC2_CODE15_CNT = 482"
definition HWIF_DC2_CODE14_CNT :: nat where "HWIF_DC2_CODE14_CNT = 483"
definition HWIF_DC2_CODE13_CNT :: nat where "HWIF_DC2_CODE13_CNT = 484"
definition HWIF_DC2_CODE12_CNT :: nat where "HWIF_DC2_CODE12_CNT = 485"
definition HWIF_DC2_CODE11_CNT :: nat where "HWIF_DC2_CODE11_CNT = 486"
definition HWIF_DC2_CODE10_CNT :: nat where "HWIF_DC2_CODE10_CNT = 487"
definition HWIF_DC2_CODE9_CNT :: nat where "HWIF_DC2_CODE9_CNT = 488"
definition HWIF_REFER13_BASE :: nat where "HWIF_REFER13_BASE = 494"
definition HWIF_DC3_CODE8_CNT :: nat where "HWIF_DC3_CODE8_CNT = 495"
definition HWIF_DC3_CODE7_CNT :: nat where "HWIF_DC3_CODE7_CNT = 496"
definition HWIF_DC3_CODE6_CNT :: nat where "HWIF_DC3_CODE6_CNT = 497"
definition HWIF_DC3_CODE5_CNT :: nat where "HWIF_DC3_CODE5_CNT = 498"
definition HWIF_DC3_CODE4_CNT :: nat where "HWIF_DC3_CODE4_CNT = 499"
definition HWIF_DC3_CODE3_CNT :: nat where "HWIF_DC3_CODE3_CNT = 500"
definition HWIF_DC3_CODE2_CNT :: nat where "HWIF_DC3_CODE2_CNT = 501"
definition HWIF_DC3_CODE1_CNT :: nat where "HWIF_DC3_CODE1_CNT = 502"
definition HWIF_DC3_CODE16_CNT :: nat where "HWIF_DC3_CODE16_CNT = 508"
definition HWIF_DC3_CODE15_CNT :: nat where "HWIF_DC3_CODE15_CNT = 509"
definition HWIF_DC3_CODE14_CNT :: nat where "HWIF_DC3_CODE14_CNT = 510"
definition HWIF_DC3_CODE13_CNT :: nat where "HWIF_DC3_CODE13_CNT = 511"
definition HWIF_DC3_CODE12_CNT :: nat where "HWIF_DC3_CODE12_CNT = 512"
definition HWIF_DC3_CODE11_CNT :: nat where "HWIF_DC3_CODE11_CNT = 513"
definition HWIF_DC3_CODE10_CNT :: nat where "HWIF_DC3_CODE10_CNT = 514"
definition HWIF_DC3_CODE9_CNT :: nat where "HWIF_DC3_CODE9_CNT = 515"
definition HWIF_JPEG_SLICE_H :: nat where "HWIF_JPEG_SLICE_H = 531"
definition HWIF_DEC_IRQ_STAT :: nat where "HWIF_DEC_IRQ_STAT = 573"
definition HWIF_PJPEG_COEFF_BUF :: nat where "HWIF_PJPEG_COEFF_BUF = HWIF_DIR_MV_BASE"

section \<open>The table of fields\<close>

text \<open>A row is the index of the register, the width of the field and its lowest bit.\<close>

type_synonym reg_spec = "nat \<times> nat \<times> nat"
type_synonym regs = "u32 list"

text \<open>The rows of 6731table.h, in the order of the file, 150 lines at a time.\<close>

definition hwDecRegTable1 :: "reg_spec list" where
  "hwDecRegTable1 = [
   (0, 8, 16), (0, 8, 8), (0, 1, 5), (0, 5, 0),
   (1, 10, 20), (1, 10, 10), (1, 10, 0), (2, 10, 20),
   (2, 10, 10), (2, 10, 0), (3, 8, 0), (4, 2, 22),
   (4, 2, 20), (4, 18, 0), (5, 18, 0), (6, 16, 16),
   (6, 16, 0), (7, 11, 16), (7, 11, 0), (8, 11, 16),
   (8, 11, 0), (9, 32, 0), (10, 32, 0), (11, 32, 0),
   (12, 32, 0), (13, 32, 0), (14, 1, 29), (14, 1, 28),
   (14, 3, 24), (14, 8, 16), (14, 3, 9), (14, 9, 0),
   (15, 5, 8), (15, 1, 5), (15, 5, 0), (16, 5, 16),
   (16, 5, 8), (16, 5, 0), (18, 32, 0), (19, 32, 0),
   (20, 32, 0), (21, 32, 0), (22, 32, 0), (23, 32, 0),
   (24, 32, 0), (26, 11, 12), (26, 11, 0), (27, 11, 12),
   (27, 11, 0), (28, 11, 11), (28, 11, 0), (29, 11, 11),
   (29, 11, 0), (30, 15, 16), (30, 14, 0), (31, 8, 8),
   (31, 8, 0), (32, 10, 16), (32, 10, 0), (34, 3, 29),
   (34, 8, 21), (34, 9, 12), (34, 3, 9), (34, 9, 0),
   (35, 11, 16), (35, 11, 0), (36, 2, 4), (36, 2, 2),
   (36, 2, 0), (37, 3, 24), (37, 1, 19), (37, 1, 18),
   (37, 1, 17), (37, 1, 16), (37, 1, 11), (37, 1, 10),
   (37, 1, 9), (37, 1, 8), (37, 1, 4), (37, 1, 3),
   (37, 1, 2), (37, 1, 1), (37, 1, 0), (38, 3, 16),
   (38, 3, 11), (38, 3, 8), (38, 3, 0), (39, 12, 0),
   (40, 1, 3), (40, 1, 2), (40, 1, 1), (40, 1, 0),
   (41, 1, 28), (41, 1, 27), (41, 1, 26), (41, 1, 25),
   (41, 1, 24), (41, 1, 23), (41, 1, 22), (41, 1, 21),
   (41, 1, 20), (41, 1, 16), (41, 1, 9), (41, 1, 8),
   (41, 1, 4), (41, 1, 3), (41, 1, 2), (41, 1, 1),
   (41, 1, 0), (50, 5, 25), (50, 12, 13), (50, 1, 12),
   (50, 1, 11), (50, 1, 10), (50, 1, 9), (50, 1, 8),
   (50, 1, 7), (50, 6, 1), (50, 1, 0), (51, 6, 25),
   (51, 1, 24), (51, 24, 0), (52, 14, 17), (52, 9, 8),
   (52, 8, 0), (53, 4, 0), (54, 1, 5), (54, 1, 4),
   (54, 1, 3), (54, 1, 2), (54, 1, 1), (54, 1, 0),
   (55, 1, 13), (55, 1, 12), (55, 1, 10), (55, 1, 9),
   (55, 1, 8), (55, 1, 6), (55, 1, 5), (55, 1, 4),
   (55, 1, 1), (55, 1, 0), (56, 1, 22), (56, 5, 16),
   (56, 8, 8), (56, 8, 0), (57, 1, 31), (57, 1, 29),
   (57, 1, 28), (57, 1, 27)]"

definition hwDecRegTable2 :: "reg_spec list" where
  "hwDecRegTable2 = [
   (57, 1, 26), (57, 1, 25), (57, 1, 22), (57, 1, 21),
   (57, 1, 20), (57, 1, 19), (57, 1, 18), (57, 1, 17),
   (57, 1, 16), (57, 1, 15), (57, 1, 14), (57, 1, 13),
   (57, 1, 12), (57, 1, 11), (57, 1, 10), (57, 1, 9),
   (57, 1, 8), (57, 1, 7), (57, 1, 6), (57, 1, 5),
   (57, 1, 4), (57, 1, 2), (57, 1, 1), (57, 1, 0),
   (59, 10, 22), (59, 10, 12), (59, 10, 2), (60, 32, 0),
   (61, 32, 0), (62, 32, 0), (63, 32, 0), (64, 32, 0),
   (65, 1, 31), (65, 12, 19), (65, 5, 14), (65, 1, 13),
   (65, 1, 12), (65, 9, 0), (68, 16, 16), (68, 16, 0),
   (69, 16, 16), (69, 16, 0), (70, 22, 0), (120, 9, 23),
   (120, 4, 19), (120, 8, 11), (120, 4, 7), (120, 1, 6),
   (120, 1, 5), (120, 3, 3), (120, 3, 0), (120, 1, 0),
   (120, 5, 0), (121, 1, 30), (121, 1, 31), (121, 1, 30),
   (121, 1, 29), (121, 5, 24), (121, 4, 20), (121, 1, 19),
   (121, 5, 14), (121, 1, 12), (121, 1, 11), (121, 1, 10),
   (121, 2, 8), (121, 1, 7), (121, 1, 6), (121, 1, 5),
   (121, 1, 26), (121, 1, 25), (121, 1, 24), (121, 4, 20),
   (121, 4, 16), (121, 8, 8), (121, 8, 0), (121, 6, 26),
   (121, 6, 20), (121, 1, 13), (121, 3, 9), (121, 3, 6),
   (121, 1, 5), (122, 6, 26), (122, 1, 25), (122, 1, 24),
   (122, 1, 0), (122, 3, 16), (122, 16, 0), (122, 1, 24),
   (122, 1, 23), (122, 1, 22), (122, 1, 20), (122, 1, 17),
   (122, 2, 15), (122, 2, 13), (122, 3, 10), (122, 3, 7),
   (122, 3, 4), (122, 2, 2), (122, 2, 0), (122, 1, 24),
   (122, 1, 4), (122, 2, 2), (122, 1, 1), (122, 1, 0),
   (122, 2, 11), (122, 3, 8), (122, 1, 7), (122, 1, 6),
   (122, 1, 5), (122, 1, 4), (122, 1, 3), (122, 1, 2),
   (122, 1, 1), (122, 1, 0), (122, 6, 18), (122, 1, 17),
   (122, 1, 16), (122, 8, 8), (122, 8, 0), (122, 5, 5),
   (122, 5, 0), (123, 8, 24), (123, 5, 19), (123, 5, 14),
   (123, 4, 14), (123, 1, 13), (123, 3, 10), (123, 10, 0),
   (123, 1, 8), (123, 8, 0), (123, 16, 0), (123, 2, 30),
   (123, 2, 28), (123, 14, 14), (123, 14, 0), (123, 16, 16),
   (123, 16, 0), (124, 1, 24), (124, 8, 16), (124, 16, 0),
   (124, 24, 0), (124, 32, 0), (124, 13, 0), (124, 4, 24),
   (125, 10, 22), (125, 10, 12), (125, 10, 2), (125, 32, 0),
   (126, 10, 22), (126, 10, 12)]"

definition hwDecRegTable3 :: "reg_spec list" where
  "hwDecRegTable3 = [
   (126, 10, 2), (126, 32, 0), (127, 10, 22), (127, 10, 12),
   (127, 10, 2), (128, 10, 22), (128, 10, 12), (128, 2, 10),
   (128, 2, 8), (128, 2, 6), (128, 2, 4), (128, 2, 2),
   (128, 2, 0), (129, 6, 24), (129, 6, 18), (129, 6, 12),
   (129, 6, 6), (129, 6, 0), (129, 16, 16), (129, 16, 0),
   (129, 6, 18), (129, 6, 12), (129, 6, 6), (129, 6, 0),
   (130, 6, 24), (130, 6, 18), (130, 6, 12), (130, 16, 16),
   (130, 16, 0), (130, 5, 27), (130, 5, 22), (130, 11, 11),
   (130, 11, 0), (131, 32, 0), (131, 32, 0), (132, 16, 16),
   (132, 16, 0), (132, 1, 31), (132, 3, 28), (132, 7, 21),
   (132, 7, 14), (132, 7, 7), (132, 7, 0), (133, 6, 24),
   (133, 6, 18), (133, 6, 12), (133, 6, 6), (133, 6, 0),
   (133, 16, 16), (133, 16, 0), (133, 7, 21), (133, 7, 14),
   (133, 7, 7), (133, 7, 0), (134, 32, 0), (134, 7, 24),
   (134, 6, 16), (134, 5, 11), (134, 4, 7), (134, 3, 3),
   (134, 2, 0), (135, 32, 0), (135, 8, 24), (135, 8, 16),
   (135, 8, 8), (135, 8, 0), (136, 32, 0), (136, 16, 16),
   (136, 1, 13), (136, 1, 11), (136, 2, 9), (136, 2, 6),
   (136, 1, 5), (136, 2, 3), (136, 1, 19), (136, 4, 15),
   (136, 4, 11), (136, 4, 7), (136, 4, 3), (136, 1, 2),
   (136, 1, 1), (136, 1, 1), (136, 1, 0), (136, 8, 24),
   (136, 8, 16), (136, 8, 8), (136, 8, 0), (136, 1, 0),
   (137, 32, 0), (137, 27, 0), (137, 1, 24), (137, 8, 16),
   (137, 16, 0), (137, 5, 27), (137, 4, 23), (137, 3, 19),
   (137, 2, 16), (137, 8, 8), (137, 8, 0), (137, 6, 24),
   (137, 6, 18), (137, 6, 12), (137, 6, 6), (137, 6, 0),
   (137, 1, 0), (138, 27, 0), (138, 1, 24), (138, 8, 16),
   (138, 16, 0), (138, 8, 24), (138, 8, 16), (138, 7, 8),
   (138, 6, 0), (138, 6, 24), (138, 6, 18), (138, 6, 12),
   (138, 6, 6), (138, 6, 0), (139, 27, 0), (139, 8, 24),
   (139, 8, 16), (139, 8, 8), (139, 8, 0), (139, 6, 24),
   (139, 6, 18), (139, 6, 12), (139, 6, 6), (139, 6, 0),
   (140, 32, 0), (140, 8, 24), (140, 8, 16), (140, 8, 8),
   (140, 8, 0), (140, 6, 24), (140, 6, 18), (140, 6, 12),
   (140, 6, 6), (140, 6, 0), (141, 32, 0), (141, 4, 28),
   (141, 4, 24), (141, 4, 20), (141, 4, 16), (141, 4, 12),
   (141, 4, 8), (141, 3, 4), (141, 2, 0), (141, 6, 24),
   (141, 6, 18), (141, 6, 12)]"

definition hwDecRegTable4 :: "reg_spec list" where
  "hwDecRegTable4 = [
   (141, 6, 6), (141, 6, 0), (142, 32, 0), (142, 4, 28),
   (142, 4, 24), (142, 4, 20), (142, 4, 16), (142, 4, 12),
   (142, 4, 8), (142, 4, 4), (142, 4, 0), (142, 6, 24),
   (142, 6, 18), (142, 6, 12), (142, 6, 6), (142, 6, 0),
   (143, 32, 0), (143, 4, 28), (143, 4, 24), (143, 4, 20),
   (143, 4, 16), (143, 4, 12), (143, 4, 8), (143, 3, 4),
   (143, 2, 0), (143, 6, 24), (143, 6, 18), (143, 6, 12),
   (143, 6, 6), (143, 6, 0), (144, 32, 0), (144, 4, 28),
   (144, 4, 24), (144, 4, 20), (144, 4, 16), (144, 4, 12),
   (144, 4, 8), (144, 4, 4), (144, 4, 0), (144, 6, 24),
   (144, 6, 18), (144, 6, 12), (144, 6, 6), (144, 6, 0),
   (145, 32, 0), (145, 4, 28), (145, 4, 24), (145, 4, 20),
   (145, 4, 16), (145, 4, 12), (145, 4, 8), (145, 3, 4),
   (145, 2, 0), (145, 32, 0), (146, 32, 0), (146, 32, 0),
   (146, 16, 16), (146, 16, 0), (146, 4, 28), (146, 4, 24),
   (146, 4, 20), (146, 4, 16), (146, 4, 12), (146, 4, 8),
   (146, 4, 4), (146, 4, 0), (146, 6, 24), (146, 6, 18),
   (146, 6, 12), (146, 6, 6), (146, 6, 0), (147, 32, 0),
   (147, 32, 0), (147, 16, 16), (147, 16, 0), (147, 6, 24),
   (147, 6, 18), (147, 6, 12), (147, 6, 6), (147, 6, 0),
   (148, 32, 0), (148, 8, 0), (149, 32, 0), (149, 1, 24),
   (149, 8, 16), (149, 16, 0), (149, 32, 0), (149, 1, 1),
   (149, 1, 0), (150, 32, 0), (150, 1, 24), (150, 8, 16),
   (150, 16, 0), (150, 6, 24), (150, 6, 18), (150, 6, 12),
   (150, 6, 6), (150, 6, 0), (151, 5, 27), (151, 5, 22),
   (151, 11, 11), (151, 11, 0), (152, 5, 27), (152, 11, 11),
   (152, 11, 0), (153, 10, 22), (153, 10, 12), (153, 10, 2),
   (154, 10, 22), (154, 10, 12), (154, 10, 2), (155, 10, 22),
   (155, 10, 12), (155, 10, 2), (156, 10, 22), (156, 10, 12),
   (156, 10, 2), (157, 10, 22), (157, 10, 12), (157, 10, 2),
   (158, 10, 22), (158, 10, 12), (158, 10, 2)]"

definition hwDecRegSpec :: "reg_spec list" where
  "hwDecRegSpec = hwDecRegTable1 @ hwDecRegTable2 @ hwDecRegTable3 @ hwDecRegTable4 @
     [(55, 10, 4), (40, 2, 2), (0, 0, 0)]"

definition DEC_RK70_REGISTERS :: nat where "DEC_RK70_REGISTERS = 159"

definition regMask :: "u32 list" where
  "regMask = [0x00000000,
     0x00000001, 0x00000003, 0x00000007, 0x0000000F,
     0x0000001F, 0x0000003F, 0x0000007F, 0x000000FF,
     0x000001FF, 0x000003FF, 0x000007FF, 0x00000FFF,
     0x00001FFF, 0x00003FFF, 0x00007FFF, 0x0000FFFF,
     0x0001FFFF, 0x0003FFFF, 0x0007FFFF, 0x000FFFFF,
     0x001FFFFF, 0x003FFFFF, 0x007FFFFF, 0x00FFFFFF,
     0x01FFFFFF, 0x03FFFFFF, 0x07FFFFFF, 0x0FFFFFFF,
     0x1FFFFFFF, 0x3FFFFFFF, 0x7FFFFFFF, 0xFFFFFFFF]"

definition swreg :: "nat \<Rightarrow> nat" where "swreg fid = fst (hwDecRegSpec ! fid)"
definition fwidth :: "nat \<Rightarrow> nat" where "fwidth fid = fst (snd (hwDecRegSpec ! fid))"
definition lowbit :: "nat \<Rightarrow> nat" where "lowbit fid = snd (snd (hwDecRegSpec ! fid))"

section \<open>The accessors of reg.cpp\<close>

definition SetRegisterFile :: "regs \<Rightarrow> nat \<Rightarrow> u32 \<Rightarrow> regs" where
  "SetRegisterFile regBase fid value =
     (let tmp = regBase ! swreg fid;
          tmp = tmp AND NOT (push_bit (lowbit fid) (regMask ! fwidth fid));
          tmp = tmp OR push_bit (lowbit fid) (value AND (regMask ! fwidth fid))
      in regBase[swreg fid := tmp])"

definition GetRegisterFile :: "regs \<Rightarrow> nat \<Rightarrow> u32" where
  "GetRegisterFile regBase fid =
     (let tmp = regBase ! swreg fid;
          tmp = drop_bit (lowbit fid) tmp
      in tmp AND (regMask ! fwidth fid))"

text \<open>A run of calls of rk_SetRegisterFile, in the order of the code.\<close>

definition writes :: "regs \<Rightarrow> (nat \<times> u32) list \<Rightarrow> regs" where
  "writes = foldl (\<lambda>r (fid, v). SetRegisterFile r fid v)"

section \<open>The interface: what a write leaves in the fields\<close>

locale register_file =
  fixes ok :: "'r \<Rightarrow> bool"
    and valid :: "nat \<Rightarrow> bool"
    and wr :: "'r \<Rightarrow> nat \<Rightarrow> u32 \<Rightarrow> 'r"
    and rd :: "'r \<Rightarrow> nat \<Rightarrow> u32"
    and cut :: "nat \<Rightarrow> u32 \<Rightarrow> u32"
    and apart :: "nat \<Rightarrow> nat \<Rightarrow> bool"
  assumes wr_ok: "ok r \<Longrightarrow> valid i \<Longrightarrow> ok (wr r i v)"
    and rd_wr_same: "ok r \<Longrightarrow> valid i \<Longrightarrow> rd (wr r i v) i = cut i v"
    and rd_wr_apart: "ok r \<Longrightarrow> valid i \<Longrightarrow> valid j \<Longrightarrow> apart i j \<Longrightarrow> rd (wr r i v) j = rd r j"
    and wr_wr: "ok r \<Longrightarrow> valid i \<Longrightarrow> wr (wr r i v) i w = wr r i w"
begin

definition run :: "'r \<Rightarrow> (nat \<times> u32) list \<Rightarrow> 'r" where
  "run = foldl (\<lambda>r (i, v). wr r i v)"

definition final :: "nat \<Rightarrow> u32 \<Rightarrow> (nat \<times> u32) list \<Rightarrow> u32" where
  "final j = foldl (\<lambda>x (i, v). if i = j then cut j v else x)"

definition clean :: "nat \<Rightarrow> (nat \<times> u32) list \<Rightarrow> bool" where
  "clean j ws \<longleftrightarrow> list_all (\<lambda>(i, v). valid i \<and> (i = j \<or> apart i j)) ws"

lemma run_simps [simp]: "run r [] = r" "run r ((i, v) # ws) = run (wr r i v) ws"
  by (simp_all add: run_def)

lemma final_simps [simp]:
  "final j x [] = x" "final j x ((i, v) # ws) = final j (if i = j then cut j v else x) ws"
  by (simp_all add: final_def)

lemma clean_simps [simp]:
  "clean j []" "clean j ((i, v) # ws) \<longleftrightarrow> valid i \<and> (i = j \<or> apart i j) \<and> clean j ws"
  by (simp_all add: clean_def)

lemma run_ok: "ok r \<Longrightarrow> clean j ws \<Longrightarrow> ok (run r ws)"
  by (induction ws arbitrary: r) (auto simp: wr_ok)

lemma rd_wr: "ok r \<Longrightarrow> valid i \<Longrightarrow> valid j \<Longrightarrow> i = j \<or> apart i j \<Longrightarrow>
    rd (wr r i v) j = (if i = j then cut j v else rd r j)"
  by (auto simp: rd_wr_same rd_wr_apart)

text \<open>What a field holds after a run of writes none of which overlaps it partially.\<close>

lemma rd_run: "ok r \<Longrightarrow> valid j \<Longrightarrow> clean j ws \<Longrightarrow> rd (run r ws) j = final j (rd r j) ws"
proof (induction ws arbitrary: r)
  case Nil
  then show ?case by simp
next
  case (Cons w ws)
  obtain i v where w: "w = (i, v)" by (cases w)
  have c: "valid i" "i = j \<or> apart i j" "clean j ws"
    using Cons.prems by (simp_all add: w)
  have "rd (run (wr r i v) ws) j = final j (rd (wr r i v) j) ws"
    using Cons.prems c by (intro Cons.IH) (auto intro: wr_ok)
  moreover have "rd (wr r i v) j = (if i = j then cut j v else rd r j)"
    by (rule rd_wr [OF Cons.prems(1) c(1) Cons.prems(2) c(2)])
  ultimately show ?case
    by (simp add: w)
qed

text \<open>A field that no write of a run touches keeps its value.\<close>

lemma rd_run_frame:
  "ok r \<Longrightarrow> valid j \<Longrightarrow> list_all (\<lambda>(i, v). valid i \<and> apart i j) ws \<Longrightarrow> rd (run r ws) j = rd r j"
  by (induction ws arbitrary: r) (auto simp: wr_ok rd_wr_apart)

text \<open>After a run of writes to disjoint fields each field holds its value.\<close>

lemma rd_run_in:
  assumes "ok r" "list_all valid (map fst ws)" "sorted_wrt (\<lambda>i j. apart j i) (map fst ws)" "(j, v) \<in> set ws"
  shows "rd (run r ws) j = cut j v"
  using assms
proof (induction ws arbitrary: r)
  case (Cons w ws)
  obtain i u where w: "w = (i, u)" by (cases w)
  have i: "valid i" "ok (wr r i u)" using Cons.prems by (simp_all add: w wr_ok)
  show ?case
  proof (cases "(j, v) \<in> set ws")
    case True
    then show ?thesis using Cons.IH [of "wr r i u"] Cons.prems i by (simp add: w)
  next
    case False
    then have j: "i = j" "u = v" using Cons.prems(4) by (simp_all add: w)
    have "list_all (\<lambda>(i, v). valid i \<and> apart i j) ws"
      using Cons.prems(2,3) j by (auto simp: w list_all_iff)
    then show ?thesis using rd_run_frame [OF i(2), of j ws] rd_wr_same [OF Cons.prems(1) i(1)] i j by (simp add: w)
  qed
qed simp

end

section \<open>reg.cpp provides the interface\<close>

definition row_ok :: "reg_spec \<Rightarrow> bool" where
  "row_ok row \<longleftrightarrow> fst row < DEC_RK70_REGISTERS \<and> fst (snd row) + snd (snd row) \<le> 32"

lemmas hwDecRegTables =
  hwDecRegTable1_def hwDecRegTable2_def hwDecRegTable3_def hwDecRegTable4_def

lemma hwDecRegSpec_ok: "list_all row_ok hwDecRegSpec"
  by (simp add: hwDecRegSpec_def hwDecRegTables row_ok_def DEC_RK70_REGISTERS_def)

lemma hwDecRegSpec_length: "length hwDecRegSpec = 576"
  by (simp add: hwDecRegSpec_def hwDecRegTables)

lemma regMask_mask: "w \<le> 32 \<Longrightarrow> regMask ! w = mask w"
proof -
  have "\<forall>w \<in> set [0..<33]. regMask ! w = mask w"
    by (simp add: regMask_def upt_rec mask_eq_exp_minus_1)
  then show "w \<le> 32 \<Longrightarrow> regMask ! w = mask w" by auto
qed

definition reg_valid :: "nat \<Rightarrow> bool" where
  "reg_valid fid \<longleftrightarrow> fid < length hwDecRegSpec"

definition regs_ok :: "regs \<Rightarrow> bool" where
  "regs_ok r \<longleftrightarrow> length r = DEC_RK70_REGISTERS"

text \<open>Two fields are apart when they are in different registers or in separate bits of one.\<close>

definition reg_apart :: "nat \<Rightarrow> nat \<Rightarrow> bool" where
  "reg_apart i j \<longleftrightarrow> swreg i \<noteq> swreg j \<or> lowbit i + fwidth i \<le> lowbit j \<or> lowbit j + fwidth j \<le> lowbit i"

definition reg_cut :: "nat \<Rightarrow> u32 \<Rightarrow> u32" where
  "reg_cut fid v = v AND mask (fwidth fid)"

lemma reg_row:
  assumes "reg_valid i"
  shows "swreg i < DEC_RK70_REGISTERS" "lowbit i + fwidth i \<le> 32"
    and "regMask ! fwidth i = mask (fwidth i)"
proof -
  have *: "row_ok (hwDecRegSpec ! i)"
    using assms hwDecRegSpec_ok by (simp add: reg_valid_def list_all_length)
  then show "swreg i < DEC_RK70_REGISTERS" and w: "lowbit i + fwidth i \<le> 32"
    by (simp_all add: row_ok_def swreg_def lowbit_def fwidth_def)
  show "regMask ! fwidth i = mask (fwidth i)"
    by (rule regMask_mask) (use w in simp)
qed

interpretation hw: register_file regs_ok reg_valid SetRegisterFile GetRegisterFile reg_cut reg_apart
proof unfold_locales
  fix r :: regs and i j :: nat and v w :: u32
  assume r: "regs_ok r" and i: "reg_valid i"
  note ri = reg_row [OF i]
  show "regs_ok (SetRegisterFile r i v)"
    using r by (simp add: regs_ok_def SetRegisterFile_def Let_def)
  have len: "swreg i < length r" using ri r by (simp add: regs_ok_def)
  show "GetRegisterFile (SetRegisterFile r i v) i = reg_cut i v"
    using len ri field_read_back [OF ri(2)]
    by (simp add: GetRegisterFile_def SetRegisterFile_def Let_def reg_cut_def)
  show "SetRegisterFile (SetRegisterFile r i v) i w = SetRegisterFile r i w"
    using len ri field_overwrite [of "r ! swreg i" "lowbit i" "fwidth i" v]
    by (simp add: SetRegisterFile_def Let_def)
  assume j: "reg_valid j" and a: "reg_apart i j"
  note rj = reg_row [OF j]
  show "GetRegisterFile (SetRegisterFile r i v) j = GetRegisterFile r j"
  proof (cases "swreg i = swreg j")
    case False
    then show ?thesis by (simp add: GetRegisterFile_def SetRegisterFile_def Let_def)
  next
    case True
    with a have "lowbit i + fwidth i \<le> lowbit j \<or> lowbit j + fwidth j \<le> lowbit i"
      by (simp add: reg_apart_def)
    then show ?thesis
      using field_frame_low [of "lowbit i" "fwidth i" "lowbit j" "r ! swreg i" v "fwidth j"]
        field_frame_high [of "lowbit j" "fwidth j" "lowbit i" "r ! swreg i" "fwidth i" v]
        len ri(3) rj(3) True
      by (auto simp: GetRegisterFile_def SetRegisterFile_def Let_def)
  qed
qed

lemma writes_run: "writes = hw.run"
  by (simp add: writes_def hw.run_def)

lemma writes_append: "writes r (xs @ ys) = writes (writes r xs) ys"
  by (simp add: writes_def)

lemma writes_length [simp]: "length (writes r ws) = length r"
  by (induction ws arbitrary: r) (auto simp: writes_def SetRegisterFile_def Let_def)

section \<open>The fields the decoder uses\<close>

lemmas HWIF_defs =
  HWIF_PP_AXI_WR_ID_def HWIF_PP_AXI_RD_ID_def HWIF_PP_SCMD_DIS_def
  HWIF_PP_MAX_BURST_def HWIF_COLOR_COEFFB_def HWIF_COLOR_COEFFA2_def
  HWIF_COLOR_COEFFA1_def HWIF_COLOR_COEFFE_def HWIF_COLOR_COEFFD_def
  HWIF_COLOR_COEFFC_def HWIF_COLOR_COEFFF_def HWIF_VER_SCALE_MODE_def
  HWIF_HOR_SCALE_MODE_def HWIF_SCALE_WRATIO_def HWIF_SCALE_HRATIO_def
  HWIF_HSCALE_INVRA_def HWIF_WSCALE_INVRA_def HWIF_R_MASK_def
  HWIF_G_MASK_def HWIF_B_MASK_def HWIF_PP_CROP8_R_E_def
  HWIF_PP_CROP8_D_E_def HWIF_CROP_STARTX_EXT_def HWIF_CROP_STARTY_def
  HWIF_CROP_STARTY_EXT_def HWIF_CROP_STARTX_def HWIF_RANGEMAP_COEF_C_def
  HWIF_YCBCR_RANGE_def HWIF_RANGEMAP_COEF_Y_def HWIF_RGB_B_PADD_def
  HWIF_RGB_G_PADD_def HWIF_RGB_R_PADD_def HWIF_PP_IN_LU_BASE_def
  HWIF_PP_OUT_LU_BASE_def HWIF_PP_OUT_CH_BASE_def HWIF_CONTRAST_THR2_def
  HWIF_CONTRAST_THR1_def HWIF_CONTRAST_OFF2_def HWIF_CONTRAST_OFF1_def
  HWIF_PP_IN_H_EXT_def HWIF_PP_IN_HEIGHT_def HWIF_EXT_ORIG_WIDTH_def
  HWIF_PP_IN_W_EXT_def HWIF_PP_IN_WIDTH_def HWIF_PP_OUT_HEIGHT_def
  HWIF_PP_OUT_WIDTH_def HWIF_DITHER_SELECT_B_def HWIF_DITHER_SELECT_G_def
  HWIF_DITHER_SELECT_R_def HWIF_PP_OUT_SWAP32_E_def HWIF_PP_OUT_SWAP16_E_def
  HWIF_PP_IN_A1_SWAP32_def HWIF_PP_IN_SWAP32_E_def HWIF_RGB_PIX_IN32_def
  HWIF_PP_OUT_ENDIAN_def HWIF_PP_IN_A2_ENDSEL_def HWIF_PP_IN_A1_ENDIAN_def
  HWIF_PP_IN_ENDIAN_def HWIF_PP_IN_FORMAT_ES_def HWIF_PP_OUT_FORMAT_def
  HWIF_PP_IN_FORMAT_def HWIF_ROTATION_MODE_def HWIF_DISPLAY_WIDTH_def
  HWIF_PP_AHB_HLOCK_E_def HWIF_PP_DATA_DISC_E_def HWIF_PP_PIPELINE_E_def
  HWIF_PP_CLK_GATE_E_def HWIF_PRIORITY_MODE_def HWIF_DEC_SCMD_DIS_def
  HWIF_FILTERING_DIS_def HWIF_DEC_LATENCY_def HWIF_DEC_OUT_TILED_E_def
  HWIF_STREAM_LEN_def HWIF_DEC_MODE_def HWIF_DEC_STRENDIAN_E_def
  HWIF_DEC_STRSWAP32_E_def HWIF_DEC_OUTSWAP32_E_def HWIF_DEC_INSWAP32_E_def
  HWIF_DEC_OUT_ENDIAN_def HWIF_DEC_IN_ENDIAN_def HWIF_DEC_SLICE_INT_def
  HWIF_DEC_BUFFER_INT_def HWIF_DEC_RDY_INT_def HWIF_DEC_IRQ_DIS_def
  HWIF_DEC_IRQ_def HWIF_DEC_DATA_DISC_E_def HWIF_DEC_MAX_BURST_def
  HWIF_DEC_AXI_WR_ID_def HWIF_DEC_AXI_RD_ID_def HWIF_RLC_MODE_E_def
  HWIF_PJPEG_E_def HWIF_DEC_TIMEOUT_E_def HWIF_DEC_CLK_GATE_E_def
  HWIF_DEC_OUT_DIS_def HWIF_DEC_E_def HWIF_QTABLE_BASE_def
  HWIF_DIR_MV_BASE_def HWIF_DEC_OUT_BASE_def HWIF_RLC_VLC_BASE_def
  HWIF_PIC_MB_WIDTH_def HWIF_PIC_MB_HEIGHT_P_def HWIF_PIC_MB_W_EXT_def
  HWIF_PIC_MB_H_EXT_def HWIF_PJPEG_FILDOWN_E_def HWIF_PJPEG_WDIV8_def
  HWIF_PJPEG_HDIV8_def HWIF_PJPEG_AH_def HWIF_PJPEG_AL_def
  HWIF_PJPEG_SS_def HWIF_PJPEG_SE_def HWIF_STRM_START_BIT_def
  HWIF_SYNC_MARKER_E_def HWIF_JPEG_QTABLES_def HWIF_JPEG_MODE_def
  HWIF_JPEG_FILRIGHT_E_def HWIF_JPEG_STREAM_ALL_def HWIF_CR_AC_VLCTABLE_def
  HWIF_CB_AC_VLCTABLE_def HWIF_CR_DC_VLCTABLE_def HWIF_CB_DC_VLCTABLE_def
  HWIF_CR_DC_VLCTABLE3_def HWIF_CB_DC_VLCTABLE3_def HWIF_PJPEG_REST_FREQ_def
  HWIF_PJPEG_DCCB_BASE_def HWIF_PJPEG_DCCR_BASE_def HWIF_JPG_CH_OUT_BASE_def
  HWIF_AC1_CODE6_CNT_def HWIF_AC1_CODE5_CNT_def HWIF_AC1_CODE4_CNT_def
  HWIF_AC1_CODE3_CNT_def HWIF_AC1_CODE2_CNT_def HWIF_AC1_CODE1_CNT_def
  HWIF_AC1_CODE10_CNT_def HWIF_AC1_CODE9_CNT_def HWIF_AC1_CODE8_CNT_def
  HWIF_AC1_CODE7_CNT_def HWIF_AC1_CODE14_CNT_def HWIF_AC1_CODE13_CNT_def
  HWIF_AC1_CODE12_CNT_def HWIF_AC1_CODE11_CNT_def HWIF_AC2_CODE4_CNT_def
  HWIF_AC2_CODE3_CNT_def HWIF_AC2_CODE2_CNT_def HWIF_AC2_CODE1_CNT_def
  HWIF_AC1_CODE16_CNT_def HWIF_AC1_CODE15_CNT_def HWIF_AC2_CODE8_CNT_def
  HWIF_AC2_CODE7_CNT_def HWIF_AC2_CODE6_CNT_def HWIF_AC2_CODE5_CNT_def
  HWIF_AC2_CODE12_CNT_def HWIF_AC2_CODE11_CNT_def HWIF_AC2_CODE10_CNT_def
  HWIF_AC2_CODE9_CNT_def HWIF_AC2_CODE16_CNT_def HWIF_AC2_CODE15_CNT_def
  HWIF_AC2_CODE14_CNT_def HWIF_AC2_CODE13_CNT_def HWIF_DC1_CODE8_CNT_def
  HWIF_DC1_CODE7_CNT_def HWIF_DC1_CODE6_CNT_def HWIF_DC1_CODE5_CNT_def
  HWIF_DC1_CODE4_CNT_def HWIF_DC1_CODE3_CNT_def HWIF_DC1_CODE2_CNT_def
  HWIF_DC1_CODE1_CNT_def HWIF_DC1_CODE16_CNT_def HWIF_DC1_CODE15_CNT_def
  HWIF_DC1_CODE14_CNT_def HWIF_DC1_CODE13_CNT_def HWIF_DC1_CODE12_CNT_def
  HWIF_DC1_CODE11_CNT_def HWIF_DC1_CODE10_CNT_def HWIF_DC1_CODE9_CNT_def
  HWIF_DC2_CODE8_CNT_def HWIF_DC2_CODE7_CNT_def HWIF_DC2_CODE6_CNT_def
  HWIF_DC2_CODE5_CNT_def HWIF_DC2_CODE4_CNT_def HWIF_DC2_CODE3_CNT_def
  HWIF_DC2_CODE2_CNT_def HWIF_DC2_CODE1_CNT_def HWIF_DC2_CODE16_CNT_def
  HWIF_DC2_CODE15_CNT_def HWIF_DC2_CODE14_CNT_def HWIF_DC2_CODE13_CNT_def
  HWIF_DC2_CODE12_CNT_def HWIF_DC2_CODE11_CNT_def HWIF_DC2_CODE10_CNT_def
  HWIF_DC2_CODE9_CNT_def HWIF_REFER13_BASE_def HWIF_DC3_CODE8_CNT_def
  HWIF_DC3_CODE7_CNT_def HWIF_DC3_CODE6_CNT_def HWIF_DC3_CODE5_CNT_def
  HWIF_DC3_CODE4_CNT_def HWIF_DC3_CODE3_CNT_def HWIF_DC3_CODE2_CNT_def
  HWIF_DC3_CODE1_CNT_def HWIF_DC3_CODE16_CNT_def HWIF_DC3_CODE15_CNT_def
  HWIF_DC3_CODE14_CNT_def HWIF_DC3_CODE13_CNT_def HWIF_DC3_CODE12_CNT_def
  HWIF_DC3_CODE11_CNT_def HWIF_DC3_CODE10_CNT_def HWIF_DC3_CODE9_CNT_def
  HWIF_JPEG_SLICE_H_def HWIF_DEC_IRQ_STAT_def HWIF_PJPEG_COEFF_BUF_def

lemma reg_rows:
  "hwDecRegSpec ! 0 = (0, 8, 16)" "hwDecRegSpec ! Suc 0 = (0, 8, 8)"
  "hwDecRegSpec ! 2 = (0, 1, 5)" "hwDecRegSpec ! 3 = (0, 5, 0)"
  "hwDecRegSpec ! 4 = (1, 10, 20)" "hwDecRegSpec ! 5 = (1, 10, 10)"
  "hwDecRegSpec ! 6 = (1, 10, 0)" "hwDecRegSpec ! 7 = (2, 10, 20)"
  "hwDecRegSpec ! 8 = (2, 10, 10)" "hwDecRegSpec ! 9 = (2, 10, 0)"
  "hwDecRegSpec ! 10 = (3, 8, 0)" "hwDecRegSpec ! 11 = (4, 2, 22)"
  "hwDecRegSpec ! 12 = (4, 2, 20)" "hwDecRegSpec ! 13 = (4, 18, 0)"
  "hwDecRegSpec ! 14 = (5, 18, 0)" "hwDecRegSpec ! 15 = (6, 16, 16)"
  "hwDecRegSpec ! 16 = (6, 16, 0)" "hwDecRegSpec ! 21 = (9, 32, 0)"
  "hwDecRegSpec ! 22 = (10, 32, 0)" "hwDecRegSpec ! 23 = (11, 32, 0)"
  "hwDecRegSpec ! 26 = (14, 1, 29)" "hwDecRegSpec ! 27 = (14, 1, 28)"
  "hwDecRegSpec ! 28 = (14, 3, 24)" "hwDecRegSpec ! 29 = (14, 8, 16)"
  "hwDecRegSpec ! 30 = (14, 3, 9)" "hwDecRegSpec ! 31 = (14, 9, 0)"
  "hwDecRegSpec ! 32 = (15, 5, 8)" "hwDecRegSpec ! 33 = (15, 1, 5)"
  "hwDecRegSpec ! 34 = (15, 5, 0)" "hwDecRegSpec ! 35 = (16, 5, 16)"
  "hwDecRegSpec ! 36 = (16, 5, 8)" "hwDecRegSpec ! 37 = (16, 5, 0)"
  "hwDecRegSpec ! 38 = (18, 32, 0)" "hwDecRegSpec ! 41 = (21, 32, 0)"
  "hwDecRegSpec ! 42 = (22, 32, 0)" "hwDecRegSpec ! 55 = (31, 8, 8)"
  "hwDecRegSpec ! 56 = (31, 8, 0)" "hwDecRegSpec ! 57 = (32, 10, 16)"
  "hwDecRegSpec ! 58 = (32, 10, 0)" "hwDecRegSpec ! 59 = (34, 3, 29)"
  "hwDecRegSpec ! 60 = (34, 8, 21)" "hwDecRegSpec ! 61 = (34, 9, 12)"
  "hwDecRegSpec ! 62 = (34, 3, 9)" "hwDecRegSpec ! 63 = (34, 9, 0)"
  "hwDecRegSpec ! 64 = (35, 11, 16)" "hwDecRegSpec ! 65 = (35, 11, 0)"
  "hwDecRegSpec ! 66 = (36, 2, 4)" "hwDecRegSpec ! 67 = (36, 2, 2)"
  "hwDecRegSpec ! 68 = (36, 2, 0)" "hwDecRegSpec ! 74 = (37, 1, 11)"
  "hwDecRegSpec ! 75 = (37, 1, 10)" "hwDecRegSpec ! 76 = (37, 1, 9)"
  "hwDecRegSpec ! 77 = (37, 1, 8)" "hwDecRegSpec ! 78 = (37, 1, 4)"
  "hwDecRegSpec ! 79 = (37, 1, 3)" "hwDecRegSpec ! 80 = (37, 1, 2)"
  "hwDecRegSpec ! 81 = (37, 1, 1)" "hwDecRegSpec ! 82 = (37, 1, 0)"
  "hwDecRegSpec ! 83 = (38, 3, 16)" "hwDecRegSpec ! 84 = (38, 3, 11)"
  "hwDecRegSpec ! 85 = (38, 3, 8)" "hwDecRegSpec ! 86 = (38, 3, 0)"
  "hwDecRegSpec ! 87 = (39, 12, 0)" "hwDecRegSpec ! 92 = (41, 1, 28)"
  "hwDecRegSpec ! 101 = (41, 1, 16)" "hwDecRegSpec ! 104 = (41, 1, 4)"
  "hwDecRegSpec ! 105 = (41, 1, 3)" "hwDecRegSpec ! 111 = (50, 1, 12)"
  "hwDecRegSpec ! 113 = (50, 1, 10)" "hwDecRegSpec ! 115 = (50, 1, 8)"
  "hwDecRegSpec ! 117 = (50, 6, 1)" "hwDecRegSpec ! 118 = (50, 1, 0)"
  "hwDecRegSpec ! 121 = (51, 24, 0)" "hwDecRegSpec ! 125 = (53, 4, 0)"
  "hwDecRegSpec ! 126 = (54, 1, 5)" "hwDecRegSpec ! 127 = (54, 1, 4)"
  "hwDecRegSpec ! 128 = (54, 1, 3)" "hwDecRegSpec ! 129 = (54, 1, 2)"
  "hwDecRegSpec ! 130 = (54, 1, 1)" "hwDecRegSpec ! 131 = (54, 1, 0)"
  "hwDecRegSpec ! 135 = (55, 1, 9)" "hwDecRegSpec ! 137 = (55, 1, 6)"
  "hwDecRegSpec ! 139 = (55, 1, 4)" "hwDecRegSpec ! 140 = (55, 1, 1)"
  "hwDecRegSpec ! 141 = (55, 1, 0)" "hwDecRegSpec ! 142 = (56, 1, 22)"
  "hwDecRegSpec ! 143 = (56, 5, 16)" "hwDecRegSpec ! 144 = (56, 8, 8)"
  "hwDecRegSpec ! 145 = (56, 8, 0)" "hwDecRegSpec ! 154 = (57, 1, 20)"
  "hwDecRegSpec ! 156 = (57, 1, 18)" "hwDecRegSpec ! 169 = (57, 1, 5)"
  "hwDecRegSpec ! 170 = (57, 1, 4)" "hwDecRegSpec ! 171 = (57, 1, 2)"
  "hwDecRegSpec ! 173 = (57, 1, 0)" "hwDecRegSpec ! 178 = (61, 32, 0)"
  "hwDecRegSpec ! 179 = (62, 32, 0)" "hwDecRegSpec ! 180 = (63, 32, 0)"
  "hwDecRegSpec ! 181 = (64, 32, 0)" "hwDecRegSpec ! 193 = (120, 9, 23)"
  "hwDecRegSpec ! 195 = (120, 8, 11)" "hwDecRegSpec ! 199 = (120, 3, 3)"
  "hwDecRegSpec ! 200 = (120, 3, 0)" "hwDecRegSpec ! 218 = (121, 1, 26)"
  "hwDecRegSpec ! 219 = (121, 1, 25)" "hwDecRegSpec ! 220 = (121, 1, 24)"
  "hwDecRegSpec ! 221 = (121, 4, 20)" "hwDecRegSpec ! 222 = (121, 4, 16)"
  "hwDecRegSpec ! 223 = (121, 8, 8)" "hwDecRegSpec ! 224 = (121, 8, 0)"
  "hwDecRegSpec ! 231 = (122, 6, 26)" "hwDecRegSpec ! 232 = (122, 1, 25)"
  "hwDecRegSpec ! 254 = (122, 2, 11)" "hwDecRegSpec ! 255 = (122, 3, 8)"
  "hwDecRegSpec ! 256 = (122, 1, 7)" "hwDecRegSpec ! 257 = (122, 1, 6)"
  "hwDecRegSpec ! 258 = (122, 1, 5)" "hwDecRegSpec ! 259 = (122, 1, 4)"
  "hwDecRegSpec ! 260 = (122, 1, 3)" "hwDecRegSpec ! 261 = (122, 1, 2)"
  "hwDecRegSpec ! 262 = (122, 1, 1)" "hwDecRegSpec ! 263 = (122, 1, 0)"
  "hwDecRegSpec ! 280 = (123, 16, 0)" "hwDecRegSpec ! 297 = (125, 32, 0)"
  "hwDecRegSpec ! 301 = (126, 32, 0)" "hwDecRegSpec ! 334 = (131, 32, 0)"
  "hwDecRegSpec ! 355 = (134, 7, 24)" "hwDecRegSpec ! 356 = (134, 6, 16)"
  "hwDecRegSpec ! 357 = (134, 5, 11)" "hwDecRegSpec ! 358 = (134, 4, 7)"
  "hwDecRegSpec ! 359 = (134, 3, 3)" "hwDecRegSpec ! 360 = (134, 2, 0)"
  "hwDecRegSpec ! 362 = (135, 8, 24)" "hwDecRegSpec ! 363 = (135, 8, 16)"
  "hwDecRegSpec ! 364 = (135, 8, 8)" "hwDecRegSpec ! 365 = (135, 8, 0)"
  "hwDecRegSpec ! 383 = (136, 8, 24)" "hwDecRegSpec ! 384 = (136, 8, 16)"
  "hwDecRegSpec ! 385 = (136, 8, 8)" "hwDecRegSpec ! 386 = (136, 8, 0)"
  "hwDecRegSpec ! 393 = (137, 5, 27)" "hwDecRegSpec ! 394 = (137, 4, 23)"
  "hwDecRegSpec ! 395 = (137, 3, 19)" "hwDecRegSpec ! 396 = (137, 2, 16)"
  "hwDecRegSpec ! 397 = (137, 8, 8)" "hwDecRegSpec ! 398 = (137, 8, 0)"
  "hwDecRegSpec ! 409 = (138, 8, 24)" "hwDecRegSpec ! 410 = (138, 8, 16)"
  "hwDecRegSpec ! 411 = (138, 7, 8)" "hwDecRegSpec ! 412 = (138, 6, 0)"
  "hwDecRegSpec ! 419 = (139, 8, 24)" "hwDecRegSpec ! 420 = (139, 8, 16)"
  "hwDecRegSpec ! 421 = (139, 8, 8)" "hwDecRegSpec ! 422 = (139, 8, 0)"
  "hwDecRegSpec ! 429 = (140, 8, 24)" "hwDecRegSpec ! 430 = (140, 8, 16)"
  "hwDecRegSpec ! 431 = (140, 8, 8)" "hwDecRegSpec ! 432 = (140, 8, 0)"
  "hwDecRegSpec ! 439 = (141, 4, 28)" "hwDecRegSpec ! 440 = (141, 4, 24)"
  "hwDecRegSpec ! 441 = (141, 4, 20)" "hwDecRegSpec ! 442 = (141, 4, 16)"
  "hwDecRegSpec ! 443 = (141, 4, 12)" "hwDecRegSpec ! 444 = (141, 4, 8)"
  "hwDecRegSpec ! 445 = (141, 3, 4)" "hwDecRegSpec ! 446 = (141, 2, 0)"
  "hwDecRegSpec ! 453 = (142, 4, 28)" "hwDecRegSpec ! 454 = (142, 4, 24)"
  "hwDecRegSpec ! 455 = (142, 4, 20)" "hwDecRegSpec ! 456 = (142, 4, 16)"
  "hwDecRegSpec ! 457 = (142, 4, 12)" "hwDecRegSpec ! 458 = (142, 4, 8)"
  "hwDecRegSpec ! 459 = (142, 4, 4)" "hwDecRegSpec ! 460 = (142, 4, 0)"
  "hwDecRegSpec ! 467 = (143, 4, 28)" "hwDecRegSpec ! 468 = (143, 4, 24)"
  "hwDecRegSpec ! 469 = (143, 4, 20)" "hwDecRegSpec ! 470 = (143, 4, 16)"
  "hwDecRegSpec ! 471 = (143, 4, 12)" "hwDecRegSpec ! 472 = (143, 4, 8)"
  "hwDecRegSpec ! 473 = (143, 3, 4)" "hwDecRegSpec ! 474 = (143, 2, 0)"
  "hwDecRegSpec ! 481 = (144, 4, 28)" "hwDecRegSpec ! 482 = (144, 4, 24)"
  "hwDecRegSpec ! 483 = (144, 4, 20)" "hwDecRegSpec ! 484 = (144, 4, 16)"
  "hwDecRegSpec ! 485 = (144, 4, 12)" "hwDecRegSpec ! 486 = (144, 4, 8)"
  "hwDecRegSpec ! 487 = (144, 4, 4)" "hwDecRegSpec ! 488 = (144, 4, 0)"
  "hwDecRegSpec ! 494 = (145, 32, 0)" "hwDecRegSpec ! 495 = (145, 4, 28)"
  "hwDecRegSpec ! 496 = (145, 4, 24)" "hwDecRegSpec ! 497 = (145, 4, 20)"
  "hwDecRegSpec ! 498 = (145, 4, 16)" "hwDecRegSpec ! 499 = (145, 4, 12)"
  "hwDecRegSpec ! 500 = (145, 4, 8)" "hwDecRegSpec ! 501 = (145, 3, 4)"
  "hwDecRegSpec ! 502 = (145, 2, 0)" "hwDecRegSpec ! 508 = (146, 4, 28)"
  "hwDecRegSpec ! 509 = (146, 4, 24)" "hwDecRegSpec ! 510 = (146, 4, 20)"
  "hwDecRegSpec ! 511 = (146, 4, 16)" "hwDecRegSpec ! 512 = (146, 4, 12)"
  "hwDecRegSpec ! 513 = (146, 4, 8)" "hwDecRegSpec ! 514 = (146, 4, 4)"
  "hwDecRegSpec ! 515 = (146, 4, 0)" "hwDecRegSpec ! 531 = (148, 8, 0)"
  "hwDecRegSpec ! 573 = (55, 10, 4)"
  by (simp_all add: hwDecRegSpec_def hwDecRegTables)

text \<open>To read a field after a run of writes of known fields.\<close>

lemmas reg_eval = HWIF_defs reg_rows swreg_def fwidth_def lowbit_def reg_apart_def reg_cut_def
  reg_valid_def hwDecRegSpec_length

section \<open>Properties\<close>

text \<open>
  C9. rk_SetRegisterFile writes one field: reading the field gives the value cut to its width, every
  bit of the register outside of the field and every other register keep their contents, and so does
  every field of the table that does not overlap it.
\<close>

theorem SetRegisterFile_writes_field:
  assumes "regs_ok r" "reg_valid i"
  shows "GetRegisterFile (SetRegisterFile r i v) i = v AND mask (fwidth i) \<and>
    (\<forall>k. k \<noteq> swreg i \<longrightarrow> SetRegisterFile r i v ! k = r ! k) \<and>
    (\<forall>n. n < lowbit i \<or> lowbit i + fwidth i \<le> n \<longrightarrow>
       bit (SetRegisterFile r i v ! swreg i) n = bit (r ! swreg i) n) \<and>
    (\<forall>j. reg_valid j \<and> reg_apart i j \<longrightarrow> GetRegisterFile (SetRegisterFile r i v) j = GetRegisterFile r j)"
proof (intro conjI allI impI)
  note row = reg_row [OF assms(2)]
  show "GetRegisterFile (SetRegisterFile r i v) i = v AND mask (fwidth i)"
    using hw.rd_wr_same [OF assms] by (simp add: reg_cut_def)
  show "SetRegisterFile r i v ! k = r ! k" if "k \<noteq> swreg i" for k
    using that by (simp add: SetRegisterFile_def Let_def)
  show "bit (SetRegisterFile r i v ! swreg i) n = bit (r ! swreg i) n"
    if "n < lowbit i \<or> lowbit i + fwidth i \<le> n" for n
    using that row assms(1) by (auto simp: SetRegisterFile_def Let_def regs_ok_def bit_simps dest: bit_imp_le_length)
  show "GetRegisterFile (SetRegisterFile r i v) j = GetRegisterFile r j" if "reg_valid j \<and> reg_apart i j" for j
    using hw.rd_wr_apart [OF assms] that by blast
qed

lemma SetRegisterFile_writes_field_witness:
  "GetRegisterFile (SetRegisterFile (replicate DEC_RK70_REGISTERS 0) HWIF_JPEG_MODE 11) HWIF_JPEG_MODE = 3"
proof -
  have "regs_ok (replicate DEC_RK70_REGISTERS 0)" "reg_valid HWIF_JPEG_MODE"
    by (simp_all add: regs_ok_def reg_eval)
  from SetRegisterFile_writes_field [OF this, of 11] show ?thesis
    by (simp add: reg_eval mask_eq_exp_minus_1)
qed

text \<open>
  C24. Every row of hwDecRegSpec is usable: the register exists and the field lies within its 32
  bits, so no access of rk_SetRegisterFile or rk_GetRegisterFile with an identifier of the table
  leaves regBase or regMask, whatever value is written, and a write keeps the register file intact.
\<close>

theorem hwDecRegSpec_in_bounds:
  "\<forall>i < length hwDecRegSpec. swreg i < DEC_RK70_REGISTERS \<and> fwidth i < length regMask \<and>
     lowbit i + fwidth i \<le> 32 \<and> (\<forall>r v. length r = DEC_RK70_REGISTERS \<longrightarrow>
       length (SetRegisterFile r i v) = DEC_RK70_REGISTERS)"
proof (intro allI impI)
  fix i assume "i < length hwDecRegSpec"
  then have "reg_valid i" by (simp add: reg_valid_def)
  from reg_row [OF this] show "swreg i < DEC_RK70_REGISTERS \<and> fwidth i < length regMask \<and>
     lowbit i + fwidth i \<le> 32 \<and> (\<forall>r v. length r = DEC_RK70_REGISTERS \<longrightarrow>
       length (SetRegisterFile r i v) = DEC_RK70_REGISTERS)"
    by (simp add: regMask_def SetRegisterFile_def Let_def)
qed

lemma hwDecRegSpec_in_bounds_witness:
  "HWIF_JPEG_SLICE_H < length hwDecRegSpec \<and> swreg HWIF_JPEG_SLICE_H < DEC_RK70_REGISTERS"
  using hwDecRegSpec_in_bounds [rule_format, of HWIF_JPEG_SLICE_H]
  by (simp add: HWIF_JPEG_SLICE_H_def hwDecRegSpec_length)

end
