(* ===== verification/JpegTypes.thy ===== *)
theory JpegTypes
  imports RegFile
begin

text \<open>
  The data of the JPEG decoder: the markers of jpegdecmarkers.h, the limits and the structures of
  jpegdeccontainer.h and the return codes of jpegdecapi.h. Field names carry a prefix for the
  structure they belong to (st_ StreamStorage, fr_ FrameInfo, img_ ImageData, sc_ ScanInfo, inf_
  DecInfo, vt_ VlcTable, vlc_ HuffmanTables, qt_ QuantTables, pp_ DecPpInterface, c_ the
  container). An enumerator is the word it stands for.
\<close>

section \<open>Markers (jpegdecmarkers.h)\<close>

definition SOF0 :: u32 where "SOF0 = 0xC0"
definition SOF1 :: u32 where "SOF1 = 0xC1"
definition SOF2 :: u32 where "SOF2 = 0xC2"
definition SOF3 :: u32 where "SOF3 = 0xC3"
definition SOF5 :: u32 where "SOF5 = 0xC5"
definition SOF6 :: u32 where "SOF6 = 0xC6"
definition SOF7 :: u32 where "SOF7 = 0xC7"
definition SOF9 :: u32 where "SOF9 = 0xC8"
definition SOF10 :: u32 where "SOF10 = 0xCA"
definition SOF11 :: u32 where "SOF11 = 0xCB"
definition SOF13 :: u32 where "SOF13 = 0xCD"
definition SOF14 :: u32 where "SOF14 = 0xCE"
definition SOF15 :: u32 where "SOF15 = 0xCF"
definition JPG :: u32 where "JPG = 0xC8"
definition DHT :: u32 where "DHT = 0xC4"
definition DAC :: u32 where "DAC = 0xCC"
definition SOI :: u32 where "SOI = 0xD8"
definition EOI :: u32 where "EOI = 0xD9"
definition SOS :: u32 where "SOS = 0xDA"
definition DQT :: u32 where "DQT = 0xDB"
definition DNL :: u32 where "DNL = 0xDC"
definition DRI :: u32 where "DRI = 0xDD"
definition DHP :: u32 where "DHP = 0xDE"
definition M_EXP :: u32 where "M_EXP = 0xDF"
definition APP0 :: u32 where "APP0 = 0xE0"
definition APP1 :: u32 where "APP1 = 0xE1"
definition APP2 :: u32 where "APP2 = 0xE2"
definition APP3 :: u32 where "APP3 = 0xE3"
definition APP4 :: u32 where "APP4 = 0xE4"
definition APP5 :: u32 where "APP5 = 0xE5"
definition APP6 :: u32 where "APP6 = 0xE6"
definition APP7 :: u32 where "APP7 = 0xE7"
definition APP8 :: u32 where "APP8 = 0xE8"
definition APP9 :: u32 where "APP9 = 0xE9"
definition APP10 :: u32 where "APP10 = 0xEA"
definition APP11 :: u32 where "APP11 = 0xEB"
definition APP12 :: u32 where "APP12 = 0xEC"
definition APP13 :: u32 where "APP13 = 0xED"
definition APP14 :: u32 where "APP14 = 0xEE"
definition APP15 :: u32 where "APP15 = 0xEF"
definition JPG0 :: u32 where "JPG0 = 0xF0"
definition JPG1 :: u32 where "JPG1 = 0xF1"
definition JPG2 :: u32 where "JPG2 = 0xF2"
definition JPG3 :: u32 where "JPG3 = 0xF3"
definition JPG4 :: u32 where "JPG4 = 0xF4"
definition JPG5 :: u32 where "JPG5 = 0xF5"
definition JPG6 :: u32 where "JPG6 = 0xF6"
definition JPG7 :: u32 where "JPG7 = 0xF7"
definition JPG8 :: u32 where "JPG8 = 0xF8"
definition JPG9 :: u32 where "JPG9 = 0xF9"
definition JPG10 :: u32 where "JPG10 = 0xFA"
definition JPG11 :: u32 where "JPG11 = 0xFB"
definition JPG12 :: u32 where "JPG12 = 0xFC"
definition JPG13 :: u32 where "JPG13 = 0xFD"
definition M_COM :: u32 where "M_COM = 0xFE"
definition M_TEM :: u32 where "M_TEM = 0x01"
definition RST0 :: u32 where "RST0 = 0xD0"
definition RST1 :: u32 where "RST1 = 0xD1"
definition RST2 :: u32 where "RST2 = 0xD2"
definition RST3 :: u32 where "RST3 = 0xD3"
definition RST4 :: u32 where "RST4 = 0xD4"
definition RST5 :: u32 where "RST5 = 0xD5"
definition RST6 :: u32 where "RST6 = 0xD6"
definition RST7 :: u32 where "RST7 = 0xD7"

lemmas marker_defs =
  SOF0_def SOF1_def SOF2_def SOF3_def SOF5_def SOF6_def SOF7_def SOF9_def SOF10_def SOF11_def
  SOF13_def SOF14_def SOF15_def JPG_def DHT_def DAC_def SOI_def EOI_def SOS_def DQT_def DNL_def
  DRI_def DHP_def M_EXP_def APP0_def APP1_def APP2_def APP3_def APP4_def APP5_def APP6_def
  APP7_def APP8_def APP9_def APP10_def APP11_def APP12_def APP13_def APP14_def APP15_def
  JPG0_def JPG1_def JPG2_def JPG3_def JPG4_def JPG5_def JPG6_def JPG7_def JPG8_def JPG9_def
  JPG10_def JPG11_def JPG12_def JPG13_def M_COM_def M_TEM_def RST0_def RST1_def RST2_def
  RST3_def RST4_def RST5_def RST6_def RST7_def

section \<open>Limits and formats (jpegdeccontainer.h, jpegdecapi.h)\<close>

definition MIN_NUMBER_OF_COMPONENTS :: u32 where "MIN_NUMBER_OF_COMPONENTS = 1"
definition MAX_NUMBER_OF_COMPONENTS :: u32 where "MAX_NUMBER_OF_COMPONENTS = 3"
definition JPEGDEC_RK70_MIN_BUFFER :: u32 where "JPEGDEC_RK70_MIN_BUFFER = 256"
definition JPEGDEC_RK70_MAX_BUFFER :: u32 where "JPEGDEC_RK70_MAX_BUFFER = 16776960"
definition JPEGDEC_MAX_SLICE_SIZE :: u32 where "JPEGDEC_MAX_SLICE_SIZE = 4096"
definition JPEGDEC_TABLE_SIZE :: u32 where "JPEGDEC_TABLE_SIZE = 544"
definition JPEGDEC_MIN_WIDTH :: u32 where "JPEGDEC_MIN_WIDTH = 48"
definition JPEGDEC_MIN_HEIGHT :: u32 where "JPEGDEC_MIN_HEIGHT = 48"
definition JPEGDEC_MAX_WIDTH :: u32 where "JPEGDEC_MAX_WIDTH = 4672"
definition JPEGDEC_MAX_HEIGHT :: u32 where "JPEGDEC_MAX_HEIGHT = 4672"
definition JPEGDEC_MAX_PIXEL_AMOUNT :: u32 where "JPEGDEC_MAX_PIXEL_AMOUNT = 16370688"
definition JPEGDEC_MAX_WIDTH_8190 :: u32 where "JPEGDEC_MAX_WIDTH_8190 = 8176"
definition JPEGDEC_MAX_HEIGHT_8190 :: u32 where "JPEGDEC_MAX_HEIGHT_8190 = 8176"
definition JPEGDEC_MAX_PIXEL_AMOUNT_8190 :: u32 where "JPEGDEC_MAX_PIXEL_AMOUNT_8190 = 66846976"
definition JPEGDEC_MAX_SLICE_SIZE_8190 :: u32 where "JPEGDEC_MAX_SLICE_SIZE_8190 = 8100"
definition JPEGDEC_MAX_WIDTH_TN :: u32 where "JPEGDEC_MAX_WIDTH_TN = 256"
definition JPEGDEC_MAX_HEIGHT_TN :: u32 where "JPEGDEC_MAX_HEIGHT_TN = 256"
definition JPEGDEC_YUV400 :: u32 where "JPEGDEC_YUV400 = 0"
definition JPEGDEC_YUV420 :: u32 where "JPEGDEC_YUV420 = 2"
definition JPEGDEC_YUV422 :: u32 where "JPEGDEC_YUV422 = 3"
definition JPEGDEC_YUV444 :: u32 where "JPEGDEC_YUV444 = 4"
definition JPEGDEC_YUV440 :: u32 where "JPEGDEC_YUV440 = 5"
definition JPEGDEC_YUV411 :: u32 where "JPEGDEC_YUV411 = 6"
definition JPEGDEC_BASELINE_TABLE_SIZE :: u32 where "JPEGDEC_BASELINE_TABLE_SIZE = 544"
definition JPEGDEC_PROGRESSIVE_TABLE_SIZE :: u32 where "JPEGDEC_PROGRESSIVE_TABLE_SIZE = 576"
definition JPEGDEC_QP_BASE :: u32 where "JPEGDEC_QP_BASE = 32"
definition JPEGDEC_AC1_BASE :: u32 where "JPEGDEC_AC1_BASE = 48"
definition JPEGDEC_AC2_BASE :: u32 where "JPEGDEC_AC2_BASE = 88"
definition JPEGDEC_DC1_BASE :: u32 where "JPEGDEC_DC1_BASE = 129"
definition JPEGDEC_DC2_BASE :: u32 where "JPEGDEC_DC2_BASE = 132"
definition JPEGDEC_DC3_BASE :: u32 where "JPEGDEC_DC3_BASE = 135"
definition JPEGDEC_COEFF_SIZE :: u32 where "JPEGDEC_COEFF_SIZE = 96"
definition JPEGDEC_YCbCr400 :: u32 where "JPEGDEC_YCbCr400 = 0x080000"
definition JPEGDEC_YCbCr420_SEMIPLANAR :: u32 where "JPEGDEC_YCbCr420_SEMIPLANAR = 0x020001"
definition JPEGDEC_YCbCr422_SEMIPLANAR :: u32 where "JPEGDEC_YCbCr422_SEMIPLANAR = 0x010001"
definition JPEGDEC_YCbCr440 :: u32 where "JPEGDEC_YCbCr440 = 0x010004"
definition JPEGDEC_YCbCr411_SEMIPLANAR :: u32 where "JPEGDEC_YCbCr411_SEMIPLANAR = 0x100000"
definition JPEGDEC_YCbCr444_SEMIPLANAR :: u32 where "JPEGDEC_YCbCr444_SEMIPLANAR = 0x200000"
definition JPEGDEC_BASELINE :: u32 where "JPEGDEC_BASELINE = 0x0"
definition JPEGDEC_PROGRESSIVE :: u32 where "JPEGDEC_PROGRESSIVE = 0x1"
definition JPEGDEC_NONINTERLEAVED :: u32 where "JPEGDEC_NONINTERLEAVED = 0x2"
definition JPEGDEC_THUMBNAIL_JPEG :: u32 where "JPEGDEC_THUMBNAIL_JPEG = 0x10"
definition JPEGDEC_THUMBNAIL_NOT_SUPPORTED_FORMAT :: u32 where "JPEGDEC_THUMBNAIL_NOT_SUPPORTED_FORMAT = 0x11"
definition JPEGDEC_NO_THUMBNAIL :: u32 where "JPEGDEC_NO_THUMBNAIL = 0x12"
definition JPEGDEC_IMAGE :: u32 where "JPEGDEC_IMAGE = 0"
definition JPEGDEC_THUMBNAIL :: u32 where "JPEGDEC_THUMBNAIL = 1"

text \<open>The longest stream the hardware takes (deccfg.h) and the error value of the readers (jpegdecutils.h).\<close>

definition DEC_RK70_MAX_STREAM :: u32 where "DEC_RK70_MAX_STREAM = 0xFFFFFF"
definition STRM_ERROR :: u32 where "STRM_ERROR = 0xFFFFFFFF"

lemmas jpeg_consts =
  MIN_NUMBER_OF_COMPONENTS_def MAX_NUMBER_OF_COMPONENTS_def JPEGDEC_RK70_MIN_BUFFER_def
  JPEGDEC_RK70_MAX_BUFFER_def JPEGDEC_MAX_SLICE_SIZE_def JPEGDEC_TABLE_SIZE_def
  JPEGDEC_MIN_WIDTH_def JPEGDEC_MIN_HEIGHT_def JPEGDEC_MAX_WIDTH_def JPEGDEC_MAX_HEIGHT_def
  JPEGDEC_MAX_PIXEL_AMOUNT_def JPEGDEC_MAX_WIDTH_8190_def JPEGDEC_MAX_HEIGHT_8190_def
  JPEGDEC_MAX_PIXEL_AMOUNT_8190_def JPEGDEC_MAX_SLICE_SIZE_8190_def JPEGDEC_MAX_WIDTH_TN_def
  JPEGDEC_MAX_HEIGHT_TN_def JPEGDEC_YUV400_def JPEGDEC_YUV420_def JPEGDEC_YUV422_def
  JPEGDEC_YUV444_def JPEGDEC_YUV440_def JPEGDEC_YUV411_def JPEGDEC_BASELINE_TABLE_SIZE_def
  JPEGDEC_PROGRESSIVE_TABLE_SIZE_def JPEGDEC_QP_BASE_def JPEGDEC_AC1_BASE_def
  JPEGDEC_AC2_BASE_def JPEGDEC_DC1_BASE_def JPEGDEC_DC2_BASE_def JPEGDEC_DC3_BASE_def
  JPEGDEC_COEFF_SIZE_def JPEGDEC_YCbCr400_def JPEGDEC_YCbCr420_SEMIPLANAR_def
  JPEGDEC_YCbCr422_SEMIPLANAR_def JPEGDEC_YCbCr440_def JPEGDEC_YCbCr411_SEMIPLANAR_def
  JPEGDEC_YCbCr444_SEMIPLANAR_def JPEGDEC_BASELINE_def JPEGDEC_PROGRESSIVE_def
  JPEGDEC_NONINTERLEAVED_def JPEGDEC_THUMBNAIL_JPEG_def
  JPEGDEC_THUMBNAIL_NOT_SUPPORTED_FORMAT_def JPEGDEC_NO_THUMBNAIL_def JPEGDEC_IMAGE_def
  JPEGDEC_THUMBNAIL_def DEC_RK70_MAX_STREAM_def STRM_ERROR_def

section \<open>Return codes (jpegdecapi.h)\<close>

datatype JpegDecRet =
  JPEGDEC_SLICE_READY | JPEGDEC_FRAME_READY | JPEGDEC_STRM_PROCESSED | JPEGDEC_SCAN_PROCESSED |
  JPEGDEC_OK | JPEGDEC_ERROR | JPEGDEC_UNSUPPORTED | JPEGDEC_PARAM_ERROR | JPEGDEC_MEMFAIL |
  JPEGDEC_INITFAIL | JPEGDEC_INVALID_STREAM_LENGTH | JPEGDEC_STRM_ERROR |
  JPEGDEC_INVALID_INPUT_BUFFER_SIZE | JPEGDEC_HW_RESERVED | JPEGDEC_INCREASE_INPUT_BUFFER |
  JPEGDEC_SLICE_MODE_UNSUPPORTED | JPEGDEC_DWL_HW_TIMEOUT | JPEGDEC_DWL_ERROR |
  JPEGDEC_HW_BUS_ERROR | JPEGDEC_SYSTEM_ERROR | JPEGDEC_FORMAT_NOT_SUPPORTED

fun JpegDecRet_value :: "JpegDecRet \<Rightarrow> int" where
  "JpegDecRet_value JPEGDEC_SLICE_READY = 2"
| "JpegDecRet_value JPEGDEC_FRAME_READY = 1"
| "JpegDecRet_value JPEGDEC_STRM_PROCESSED = 3"
| "JpegDecRet_value JPEGDEC_SCAN_PROCESSED = 4"
| "JpegDecRet_value JPEGDEC_OK = 0"
| "JpegDecRet_value JPEGDEC_ERROR = -1"
| "JpegDecRet_value JPEGDEC_UNSUPPORTED = -2"
| "JpegDecRet_value JPEGDEC_PARAM_ERROR = -3"
| "JpegDecRet_value JPEGDEC_MEMFAIL = -4"
| "JpegDecRet_value JPEGDEC_INITFAIL = -5"
| "JpegDecRet_value JPEGDEC_INVALID_STREAM_LENGTH = -6"
| "JpegDecRet_value JPEGDEC_STRM_ERROR = -7"
| "JpegDecRet_value JPEGDEC_INVALID_INPUT_BUFFER_SIZE = -8"
| "JpegDecRet_value JPEGDEC_HW_RESERVED = -9"
| "JpegDecRet_value JPEGDEC_INCREASE_INPUT_BUFFER = -10"
| "JpegDecRet_value JPEGDEC_SLICE_MODE_UNSUPPORTED = -11"
| "JpegDecRet_value JPEGDEC_DWL_HW_TIMEOUT = -253"
| "JpegDecRet_value JPEGDEC_DWL_ERROR = -254"
| "JpegDecRet_value JPEGDEC_HW_BUS_ERROR = -255"
| "JpegDecRet_value JPEGDEC_SYSTEM_ERROR = -256"
| "JpegDecRet_value JPEGDEC_FORMAT_NOT_SUPPORTED = -1000"

section \<open>Buffers\<close>

type_synonym s32 = "32 word"

text \<open>allocator_drm.h: a DRM buffer as the decoder sees it.\<close>

datatype MppBufferType = MPP_BUFFER_TYPE_NORMAL | MPP_BUFFER_TYPE_ION | MPP_BUFFER_TYPE_EXT_DMA
  | MPP_BUFFER_TYPE_DRM | MPP_BUFFER_TYPE_BUTT

record MppBufferInfo =
  mb_type :: MppBufferType
  mb_size :: u32
  mb_vir_addr :: addr
  mb_hnd :: addr
  mb_phy_addr :: u32
  mb_index :: u32
  mb_offset :: u32

definition zero_MppBufferInfo :: MppBufferInfo where
  "zero_MppBufferInfo = \<lparr>mb_type = MPP_BUFFER_TYPE_NORMAL, mb_size = 0, mb_vir_addr = 0, mb_hnd = 0, mb_phy_addr
     = 0, mb_index = 0, mb_offset = 0\<rparr>"

section \<open>The state (jpegdeccontainer.h)\<close>

text \<open>Arrays indexed by the component have MAX_NUMBER_OF_COMPONENTS elements.\<close>

record Components =
  comp_C :: u32
  comp_H :: u32
  comp_V :: u32
  comp_Tq :: u32

definition zero_Components :: Components where
  "zero_Components = \<lparr>comp_C = 0, comp_H = 0, comp_V = 0, comp_Tq = 0\<rparr>"

record StreamStorage =
  st_pStartOfStream :: addr
  st_pCurrPos :: addr
  st_streamBus :: u32
  st_bitPosInByte :: u32
  st_streamLength :: u32
  st_readBits :: u32
  st_appnFlag :: u32
  st_thumbnail :: u32
  st_returnSosMarker :: u32

definition zero_StreamStorage :: StreamStorage where
  "zero_StreamStorage = \<lparr>st_pStartOfStream = 0, st_pCurrPos = 0, st_streamBus = 0, st_bitPosInByte = 0,
     st_streamLength = 0, st_readBits = 0, st_appnFlag = 0, st_thumbnail = 0,
     st_returnSosMarker = 0\<rparr>"

record ImageData =
  img_pStartOfImage :: addr
  img_pLum :: addr
  img_pCr :: addr
  img_pCb :: addr
  img_imageReady :: u32
  img_headerReady :: u32
  img_size :: u32
  img_sizeLuma :: u32
  img_sizeChroma :: u32
  img_ready :: u32
  img_columns :: "u32 list"
  img_pixelsPerRow :: "u32 list"

definition zero_ImageData :: ImageData where
  "zero_ImageData = \<lparr>img_pStartOfImage = 0, img_pLum = 0, img_pCr = 0, img_pCb = 0, img_imageReady = 0,
     img_headerReady = 0, img_size = 0, img_sizeLuma = 0, img_sizeChroma = 0, img_ready = 0,
     img_columns = [0, 0, 0], img_pixelsPerRow = [0, 0, 0]\<rparr>"

record FrameInfo =
  fr_Lf :: u32
  fr_P :: u32
  fr_Y :: u32
  fr_hwY :: u32
  fr_X :: u32
  fr_hwX :: u32
  fr_Nf :: u32
  fr_codingType :: u32
  fr_numMcuInFrame :: u32
  fr_numMcuInRow :: u32
  fr_mcuNumber :: u32
  fr_nextRstNumber :: u32
  fr_Ri :: u32
  fr_driPeriod :: u32
  fr_block :: u32
  fr_row :: u32
  fr_col :: u32
  fr_cIndex :: u32
  fr_pBuffer :: addr
  fr_bufferBus :: u32
  fr_pBufferCb :: addr
  fr_pBufferCr :: addr
  fr_pTableBase :: MppBufferInfo
  fr_numBlocks :: "u32 list"
  fr_blocksPerRow :: "u32 list"
  fr_useAcOffset :: "u32 list"
  fr_component :: "Components list"

definition zero_FrameInfo :: FrameInfo where
  "zero_FrameInfo = \<lparr>fr_Lf = 0, fr_P = 0, fr_Y = 0, fr_hwY = 0, fr_X = 0, fr_hwX = 0, fr_Nf = 0,
     fr_codingType = 0, fr_numMcuInFrame = 0, fr_numMcuInRow = 0, fr_mcuNumber = 0,
     fr_nextRstNumber = 0, fr_Ri = 0, fr_driPeriod = 0, fr_block = 0, fr_row = 0, fr_col =
     0, fr_cIndex = 0, fr_pBuffer = 0, fr_bufferBus = 0, fr_pBufferCb = 0, fr_pBufferCr = 0,
     fr_pTableBase = zero_MppBufferInfo, fr_numBlocks = [0, 0, 0], fr_blocksPerRow = [0, 0,
     0], fr_useAcOffset = [0, 0, 0], fr_component = replicate 3 zero_Components\<rparr>"

record ScanInfo =
  sc_Ls :: u32
  sc_Ns :: u32
  sc_Cs :: "u32 list"
  sc_Td :: "u32 list"
  sc_Ta :: "u32 list"
  sc_Ss :: u32
  sc_Se :: u32
  sc_Ah :: u32
  sc_Al :: u32
  sc_index :: u32
  sc_numIdctRows :: s32
  sc_pred :: "s32 list"

definition zero_ScanInfo :: ScanInfo where
  "zero_ScanInfo = \<lparr>sc_Ls = 0, sc_Ns = 0, sc_Cs = [0, 0, 0], sc_Td = [0, 0, 0], sc_Ta = [0, 0, 0], sc_Ss =
     0, sc_Se = 0, sc_Ah = 0, sc_Al = 0, sc_index = 0, sc_numIdctRows = 0, sc_pred = [0, 0,
     0]\<rparr>"

record DecInfo =
  inf_sliceHeight :: u32
  inf_amountOfQTables :: u32
  inf_yCbCrMode :: u32
  inf_yCbCr422 :: u32
  inf_column :: u32
  inf_X :: u32
  inf_Y :: u32
  inf_memSize :: u32
  inf_SliceCount :: u32
  inf_SliceReadyForPause :: u32
  inf_SliceMBCutValue :: u32
  inf_pipeline :: u32
  inf_userAllocMem :: u32
  inf_sliceMbSetValue :: u32
  inf_timeout :: u32
  inf_rlcMode :: u32
  inf_lumaPos :: u32
  inf_chromaPos :: u32
  inf_sliceStartCount :: u32
  inf_amountOfSlices :: u32
  inf_noSliceIrqForUser :: u32
  inf_sliceLimitReached :: u32
  inf_inputBufferEmpty :: u32
  inf_fillRight :: u32
  inf_fillBottom :: u32
  inf_streamEnd :: u32
  inf_streamEndFlag :: u32
  inf_inputBufferLen :: u32
  inf_inputStreaming :: u32
  inf_decodedStreamLen :: u32
  inf_init :: u32
  inf_initThumb :: u32
  inf_initBufferSize :: u32
  inf_dcRes :: "s32 list"
  inf_outLuma :: MppBufferInfo
  inf_outChroma :: MppBufferInfo
  inf_outChroma2 :: MppBufferInfo
  inf_givenOutLuma :: MppBufferInfo
  inf_givenOutChroma :: MppBufferInfo
  inf_givenOutChroma2 :: MppBufferInfo
  inf_pred :: "s32 list"
  inf_nonInterleaved :: u32
  inf_componentId :: u32
  inf_operationType :: u32
  inf_operationTypeThumb :: u32
  inf_progressiveScanReady :: u32
  inf_nonInterleavedScanReady :: u32
  inf_allocated :: u32
  inf_yCbCrModeOrig :: u32
  inf_getInfoYCbCrMode :: u32
  inf_components :: "u32 list"
  inf_pCoeffBase :: MppBufferInfo
  inf_fillX :: u32
  inf_fillY :: u32
  inf_progressiveFinish :: u32
  inf_pfCompId :: u32
  inf_pfNeeded :: "u32 list"
  inf_tmpStrm :: MppBufferInfo

definition zero_DecInfo :: DecInfo where
  "zero_DecInfo = \<lparr>inf_sliceHeight = 0, inf_amountOfQTables = 0, inf_yCbCrMode = 0, inf_yCbCr422 = 0,
     inf_column = 0, inf_X = 0, inf_Y = 0, inf_memSize = 0, inf_SliceCount = 0,
     inf_SliceReadyForPause = 0, inf_SliceMBCutValue = 0, inf_pipeline = 0, inf_userAllocMem
     = 0, inf_sliceMbSetValue = 0, inf_timeout = 0, inf_rlcMode = 0, inf_lumaPos = 0,
     inf_chromaPos = 0, inf_sliceStartCount = 0, inf_amountOfSlices = 0,
     inf_noSliceIrqForUser = 0, inf_sliceLimitReached = 0, inf_inputBufferEmpty = 0,
     inf_fillRight = 0, inf_fillBottom = 0, inf_streamEnd = 0, inf_streamEndFlag = 0,
     inf_inputBufferLen = 0, inf_inputStreaming = 0, inf_decodedStreamLen = 0, inf_init = 0,
     inf_initThumb = 0, inf_initBufferSize = 0, inf_dcRes = [0, 0, 0], inf_outLuma =
     zero_MppBufferInfo, inf_outChroma = zero_MppBufferInfo, inf_outChroma2 =
     zero_MppBufferInfo, inf_givenOutLuma = zero_MppBufferInfo, inf_givenOutChroma =
     zero_MppBufferInfo, inf_givenOutChroma2 = zero_MppBufferInfo, inf_pred = [0, 0, 0],
     inf_nonInterleaved = 0, inf_componentId = 0, inf_operationType = 0,
     inf_operationTypeThumb = 0, inf_progressiveScanReady = 0, inf_nonInterleavedScanReady =
     0, inf_allocated = 0, inf_yCbCrModeOrig = 0, inf_getInfoYCbCrMode = 0, inf_components =
     [0, 0, 0], inf_pCoeffBase = zero_MppBufferInfo, inf_fillX = 0, inf_fillY = 0,
     inf_progressiveFinish = 0, inf_pfCompId = 0, inf_pfNeeded = [0, 0, 0], inf_tmpStrm =
     zero_MppBufferInfo\<rparr>"

record JpegAsicBuffers =
  ab_outLumaBuffer :: MppBufferInfo
  ab_outChromaBuffer :: MppBufferInfo
  ab_outChromaBuffer2 :: MppBufferInfo

definition zero_JpegAsicBuffers :: JpegAsicBuffers where
  "zero_JpegAsicBuffers = \<lparr>ab_outLumaBuffer = zero_MppBufferInfo, ab_outChromaBuffer = zero_MppBufferInfo,
     ab_outChromaBuffer2 = zero_MppBufferInfo\<rparr>"

text \<open>vals is the allocated table of HUFFVALs, None for NULL.\<close>

record VlcTable =
  vt_bits :: "u32 list"
  vt_vals :: "u32 list option"
  vt_tableLength :: u32
  vt_start :: u32
  vt_last :: u32

definition zero_VlcTable :: VlcTable where
  "zero_VlcTable = \<lparr>vt_bits = replicate 16 0, vt_vals = None, vt_tableLength = 0, vt_start = 0, vt_last = 0\<rparr>"

text \<open>What the pointers vlc.table and quant.table point at.\<close>

datatype vlc_id = AC0 | AC1 | AC2 | AC3 | DC0 | DC1 | DC2 | DC3

datatype quant_id = Q0 | Q1 | Q2 | Q3

record HuffmanTables =
  vlc_Lh :: u32
  vlc_acTable0 :: VlcTable
  vlc_acTable1 :: VlcTable
  vlc_acTable2 :: VlcTable
  vlc_acTable3 :: VlcTable
  vlc_dcTable0 :: VlcTable
  vlc_dcTable1 :: VlcTable
  vlc_dcTable2 :: VlcTable
  vlc_dcTable3 :: VlcTable
  vlc_table :: "vlc_id option"

definition zero_HuffmanTables :: HuffmanTables where
  "zero_HuffmanTables = \<lparr>vlc_Lh = 0, vlc_acTable0 = zero_VlcTable, vlc_acTable1 = zero_VlcTable, vlc_acTable2 =
     zero_VlcTable, vlc_acTable3 = zero_VlcTable, vlc_dcTable0 = zero_VlcTable, vlc_dcTable1
     = zero_VlcTable, vlc_dcTable2 = zero_VlcTable, vlc_dcTable3 = zero_VlcTable, vlc_table
     = None\<rparr>"

record QuantTables =
  qt_Lq :: u32
  qt_table0 :: "u32 list"
  qt_table1 :: "u32 list"
  qt_table2 :: "u32 list"
  qt_table3 :: "u32 list"
  qt_table :: "quant_id option"

definition zero_QuantTables :: QuantTables where
  "zero_QuantTables = \<lparr>qt_Lq = 0, qt_table0 = replicate 64 0, qt_table1 = replicate 64 0, qt_table2 =
     replicate 64 0, qt_table3 = replicate 64 0, qt_table = None\<rparr>"

record DecPpInterface =
  pp_ppStatus :: u32
  pp_multiBufStat :: u32
  pp_inputBusLuma :: u32
  pp_inputBusChroma :: u32
  pp_bottomBusLuma :: u32
  pp_bottomBusChroma :: u32
  pp_picStruct :: u32
  pp_topField :: u32
  pp_inwidth :: u32
  pp_inheight :: u32
  pp_usePipeline :: u32
  pp_littleEndian :: u32
  pp_wordSwap :: u32
  pp_croppedW :: u32
  pp_croppedH :: u32
  pp_bufferIndex :: u32
  pp_displayIndex :: u32
  pp_prevAnchorDisplayIndex :: u32
  pp_rangeRed :: u32
  pp_rangeMapYEnable :: u32
  pp_rangeMapYCoeff :: u32
  pp_rangeMapCEnable :: u32
  pp_rangeMapCCoeff :: u32

definition zero_DecPpInterface :: DecPpInterface where
  "zero_DecPpInterface = \<lparr>pp_ppStatus = 0, pp_multiBufStat = 0, pp_inputBusLuma = 0, pp_inputBusChroma = 0,
     pp_bottomBusLuma = 0, pp_bottomBusChroma = 0, pp_picStruct = 0, pp_topField = 0,
     pp_inwidth = 0, pp_inheight = 0, pp_usePipeline = 0, pp_littleEndian = 0, pp_wordSwap =
     0, pp_croppedW = 0, pp_croppedH = 0, pp_bufferIndex = 0, pp_displayIndex = 0,
     pp_prevAnchorDisplayIndex = 0, pp_rangeRed = 0, pp_rangeMapYEnable = 0,
     pp_rangeMapYCoeff = 0, pp_rangeMapCEnable = 0, pp_rangeMapCCoeff = 0\<rparr>"

record JpegdIocExtInfo =
  ioc_magic :: u32
  ioc_cnt :: u32
  ioc_slots :: "(u32 \<times> u32) list"

definition zero_JpegdIocExtInfo :: JpegdIocExtInfo where
  "zero_JpegdIocExtInfo = \<lparr>ioc_magic = 0, ioc_cnt = 0, ioc_slots = replicate 5 (0, 0)\<rparr>"

record JpegdIocRegInfo =
  ioc_regs :: regs
  ioc_extra_info :: JpegdIocExtInfo

definition zero_JpegdIocRegInfo :: JpegdIocRegInfo where
  "zero_JpegdIocRegInfo = \<lparr>ioc_regs = replicate 184 0, ioc_extra_info = zero_JpegdIocExtInfo\<rparr>"

record JpegDecContainer =
  c_jpegRegs :: regs
  c_ioctl_info :: JpegdIocRegInfo
  c_asicRunning :: u32
  c_stream :: StreamStorage
  c_frame :: FrameInfo
  c_image :: ImageData
  c_scan :: ScanInfo
  c_info :: DecInfo
  c_vlc :: HuffmanTables
  c_quant :: QuantTables
  c_is8190 :: u32
  c_fuseBurned :: u32
  c_minSupportedWidth :: u32
  c_minSupportedHeight :: u32
  c_maxSupportedWidth :: u32
  c_maxSupportedHeight :: u32
  c_maxSupportedPixelAmount :: u32
  c_maxSupportedSliceSize :: u32
  c_extensionsSupported :: u32
  c_asicBuff :: JpegAsicBuffers
  c_ppControl :: DecPpInterface
  c_ppStatus :: u32
  c_socket :: u32
  c_vpumem_ctx :: addr
  c_ppInstance :: addr
  c_ctx :: addr
  c_pictureMem :: "MppBufferInfo option"
  c_dri_en :: u32
  c_reghandle :: addr

definition zero_JpegDecContainer :: JpegDecContainer where
  "zero_JpegDecContainer = \<lparr>c_jpegRegs = replicate DEC_RK70_REGISTERS 0, c_ioctl_info = zero_JpegdIocRegInfo,
     c_asicRunning = 0, c_stream = zero_StreamStorage, c_frame = zero_FrameInfo, c_image =
     zero_ImageData, c_scan = zero_ScanInfo, c_info = zero_DecInfo, c_vlc =
     zero_HuffmanTables, c_quant = zero_QuantTables, c_is8190 = 0, c_fuseBurned = 0,
     c_minSupportedWidth = 0, c_minSupportedHeight = 0, c_maxSupportedWidth = 0,
     c_maxSupportedHeight = 0, c_maxSupportedPixelAmount = 0, c_maxSupportedSliceSize = 0,
     c_extensionsSupported = 0, c_asicBuff = zero_JpegAsicBuffers, c_ppControl =
     zero_DecPpInterface, c_ppStatus = 0, c_socket = 0, c_vpumem_ctx = 0, c_ppInstance = 0,
     c_ctx = 0, c_pictureMem = None, c_dri_en = 0, c_reghandle = 0\<rparr>"

lemmas zero_defs =
  zero_MppBufferInfo_def zero_Components_def zero_StreamStorage_def zero_ImageData_def zero_FrameInfo_def zero_ScanInfo_def zero_DecInfo_def zero_JpegAsicBuffers_def zero_VlcTable_def zero_HuffmanTables_def zero_QuantTables_def zero_DecPpInterface_def zero_JpegdIocExtInfo_def zero_JpegdIocRegInfo_def zero_JpegDecContainer_def

end
