(* ===== verification/BitReader.thy ===== *)
theory BitReader
  imports JpegTypes
begin

text \<open>
  The stream reader of jpegdecutils.c: JpegDecGetByte, JpegDecGet2Bytes, JpegDecShowBits and
  JpegDecFlushBits over StreamStorage and the memory the stream pointers point into. The
  invariant strm_ok ties the read pointer, the bit position and the count of read bits together;
  the locale byte_source is what the header decoders rely on: a source of bytes with a position
  that moves by one per byte and an error value at the end.
\<close>

section \<open>The operations\<close>

definition JpegDecGetByte :: "memory \<Rightarrow> StreamStorage \<Rightarrow> u32 \<times> StreamStorage" where
  "JpegDecGetByte mem s =
     (if st_readBits s + 8 > 8 * st_streamLength s then (STRM_ERROR, s)
      else
        let tmp = ucast (mem (st_pCurrPos s)) :: u32;
            s = s\<lparr>st_pCurrPos := st_pCurrPos s + 1\<rparr>;
            tmp = push_bit 8 tmp OR ucast (mem (st_pCurrPos s));
            tmp = drop_bit (unat (8 - st_bitPosInByte s)) tmp AND 0xFF;
            s = s\<lparr>st_readBits := st_readBits s + 8\<rparr>
        in (tmp, s))"

definition JpegDecGet2Bytes :: "memory \<Rightarrow> StreamStorage \<Rightarrow> u32 \<times> StreamStorage" where
  "JpegDecGet2Bytes mem s =
     (if st_readBits s + 16 > 8 * st_streamLength s then (STRM_ERROR, s)
      else
        let tmp = ucast (mem (st_pCurrPos s)) :: u32;
            s = s\<lparr>st_pCurrPos := st_pCurrPos s + 1\<rparr>;
            tmp = push_bit 8 tmp OR ucast (mem (st_pCurrPos s));
            s = s\<lparr>st_pCurrPos := st_pCurrPos s + 1\<rparr>;
            tmp = push_bit 8 tmp OR ucast (mem (st_pCurrPos s));
            tmp = drop_bit (unat (8 - st_bitPosInByte s)) tmp AND 0xFFFF;
            s = s\<lparr>st_readBits := st_readBits s + 16\<rparr>
        in (tmp, s))"

text \<open>
  The body of the do-while loop of JpegDecShowBits. bits is the RK_S32 of the code; it is the
  measure of the loop. The result is the triple (out, readBits, bits) at the end of the loop.
\<close>

definition showBits_skip :: "memory \<Rightarrow> StreamStorage \<Rightarrow> addr \<times> int \<Rightarrow> addr \<times> int" where
  "showBits_skip mem s = (\<lambda>(pData, bits).
     if pData > st_pStartOfStream s \<and> mem (pData - 1) = 0xFF \<and> mem pData = 0x00
     then (pData + 1, bits - 8) else (pData, bits))"

lemma showBits_skip_le: "snd (showBits_skip mem s (p, bits)) \<le> bits"
  by (simp add: showBits_skip_def)

function (sequential) showBits_loop ::
  "memory \<Rightarrow> StreamStorage \<Rightarrow> int \<Rightarrow> u32 \<Rightarrow> u32 \<Rightarrow> addr \<Rightarrow> u32 \<times> u32 \<times> int" where
  "showBits_loop mem s bits readBits out pData =
     (let (pData, bits') = showBits_skip mem s (pData, bits) in
      if readBits = 32 \<and> st_bitPosInByte s \<noteq> 0 then
        (let out = push_bit (unat (st_bitPosInByte s)) out;
             out = out OR drop_bit (unat (8 - st_bitPosInByte s)) (ucast (mem pData))
         in (out, 0, bits'))
      else
        (let out = push_bit 8 out OR ucast (mem pData);
             pData = pData + 1;
             readBits = readBits + 8;
             bits' = bits' - 8
         in if readBits < 32 + st_bitPosInByte s \<and> bits' > 0
            then showBits_loop mem s bits' readBits out pData
            else (out, readBits, bits')))"
  by pat_completeness auto
termination
proof (relation "measure (\<lambda>(mem, s, bits, readBits, out, pData). nat bits)", goal_cases)
  case 1
  then show ?case by simp
next
  case (2 mem s bits readBits out pData x pd b' out' pd' rb' b'')
  then have "b' \<le> bits" using showBits_skip_le [of mem s pData bits] by (metis snd_conv)
  with 2 show ?case by auto
qed

declare showBits_loop.simps [simp del]

definition JpegDecShowBits :: "memory \<Rightarrow> StreamStorage \<Rightarrow> u32" where
  "JpegDecShowBits mem s =
     (let bits = sint (8 * st_streamLength s - st_readBits s) in
      if bits = 0 then 0
      else
        let (out, readBits, bits) = showBits_loop mem s bits 0 0 (st_pCurrPos s) in
        if bits \<le> 0 \<and> readBits + st_readBits s \<ge> st_streamLength s * 8
        then push_bit (unat (32 - (readBits - st_bitPosInByte s))) out
        else out)"

text \<open>A step over one byte in JpegDecFlushBits that also jumps over the 00 of FF 00.\<close>

definition flush_byte :: "memory \<Rightarrow> StreamStorage \<Rightarrow> u32 \<Rightarrow> StreamStorage \<times> u32" where
  "flush_byte mem s extraBits =
     (if mem (st_pCurrPos s) = 0xFF \<and> mem (st_pCurrPos s + 1) = 0x00
      then (s\<lparr>st_pCurrPos := st_pCurrPos s + 2\<rparr>, extraBits + 8)
      else (s\<lparr>st_pCurrPos := st_pCurrPos s + 1\<rparr>, extraBits))"

lemma flush_measure:
  fixes bits tmp :: u32
  assumes "\<not> bits - tmp < 8"
  shows "unat (bits - (tmp + 8)) < unat (bits - tmp)"
proof -
  have ge: "8 \<le> bits - tmp" using assms by simp
  have "unat (bits - tmp - 8) = unat (bits - tmp) - 8" using unat_sub [OF ge] by simp
  moreover have "8 \<le> unat (bits - tmp)" using ge by (simp add: word_le_nat_alt)
  ultimately show ?thesis by (simp add: diff_diff_eq [symmetric] del: diff_diff_eq)
qed

function (sequential) flush_loop ::
  "memory \<Rightarrow> u32 \<Rightarrow> u32 \<Rightarrow> u32 \<Rightarrow> StreamStorage \<Rightarrow> StreamStorage \<times> u32" where
  "flush_loop mem bits tmp extraBits s =
     (if \<not> tmp < bits then (s, extraBits)
      else if bits - tmp < 8 then
        (if 8 - st_bitPosInByte s > bits - tmp then
           (s\<lparr>st_bitPosInByte := st_bitPosInByte s + (bits - tmp)\<rparr>, extraBits)
         else
           let (s, extraBits) = flush_byte mem s extraBits;
               tmp = tmp + (8 - st_bitPosInByte s)
           in (s\<lparr>st_bitPosInByte := bits - tmp\<rparr>, extraBits))
      else if st_appnFlag s \<noteq> 0 then
        flush_loop mem bits (tmp + 8) extraBits (s\<lparr>st_pCurrPos := st_pCurrPos s + 1\<rparr>)
      else
        (case flush_byte mem s extraBits of (s, extraBits) \<Rightarrow>
           flush_loop mem bits (tmp + 8) extraBits s))"
  by pat_completeness auto
termination
proof (relation "measure (\<lambda>(mem, bits, tmp, extraBits, s). unat (bits - tmp))", goal_cases)
  case 1
  then show ?case by simp
next
  case (2 mem bits tmp extraBits s)
  then show ?case using flush_measure by simp
next
  case (3 mem bits tmp extraBits s x xa)
  then show ?case using flush_measure by simp
qed

declare flush_loop.simps [simp del]

text \<open>JpegDecFlushBits returns OK (0) or STRM_ERROR.\<close>

definition JpegDecFlushBits :: "memory \<Rightarrow> StreamStorage \<Rightarrow> u32 \<Rightarrow> u32 \<times> StreamStorage" where
  "JpegDecFlushBits mem s bits =
     (if st_readBits s + bits > 8 * st_streamLength s then
        (STRM_ERROR, s\<lparr>st_readBits := 8 * st_streamLength s, st_bitPosInByte := 0,
                        st_pCurrPos := st_pStartOfStream s + st_streamLength s\<rparr>)
      else
        let (s, extraBits) = flush_loop mem bits 0 0 s
        in (0, s\<lparr>st_readBits := st_readBits s + (bits + extraBits)\<rparr>))"

lemma unat_times8:
  fixes x :: u32
  shows "unat x < 2 ^ 28 \<Longrightarrow> unat (8 * x) = 8 * unat x"
  by (simp add: unat_mult_lem [THEN iffD1])

section \<open>The invariant of StreamStorage\<close>

text \<open>
  The read pointer and the bit position in its byte are the count of bits read. A stream that is
  ok has a length the hardware takes and has not been read past its end.
\<close>

definition strm_pos :: "StreamStorage \<Rightarrow> bool" where
  "strm_pos s \<longleftrightarrow> st_bitPosInByte s < 8 \<and>
     8 * (st_pCurrPos s - st_pStartOfStream s) + st_bitPosInByte s = st_readBits s"

definition strm_ok :: "StreamStorage \<Rightarrow> bool" where
  "strm_ok s \<longleftrightarrow> strm_pos s \<and> st_streamLength s \<le> DEC_RK70_MAX_STREAM \<and>
     st_pCurrPos s - st_pStartOfStream s \<le> st_streamLength s \<and>
     st_readBits s \<le> 8 * st_streamLength s"

text \<open>Bit k of the stream, the most significant bit of a byte first.\<close>

definition stream_bit :: "memory \<Rightarrow> StreamStorage \<Rightarrow> nat \<Rightarrow> bool" where
  "stream_bit mem s k = bit (mem (st_pStartOfStream s + of_nat (k div 8))) (7 - k mod 8)"

lemma strm_ok_nat:
  assumes "strm_ok s"
  shows "unat (st_readBits s) = 8 * unat (st_pCurrPos s - st_pStartOfStream s) + unat (st_bitPosInByte s)"
    and "unat (st_bitPosInByte s) < 8" 
    and "unat (8 * st_streamLength s) = 8 * unat (st_streamLength s)"
    and "unat (st_readBits s) \<le> 8 * unat (st_streamLength s)"
    and "unat (st_streamLength s) < 2 ^ 24"
proof -
  define q where "q = st_pCurrPos s - st_pStartOfStream s"
  have ok: "st_bitPosInByte s < 8" "8 * q + st_bitPosInByte s = st_readBits s"
    "st_streamLength s \<le> DEC_RK70_MAX_STREAM" "q \<le> st_streamLength s"
    "st_readBits s \<le> 8 * st_streamLength s"
    using assms by (simp_all only: strm_ok_def strm_pos_def q_def)
  show len: "unat (st_streamLength s) < 2 ^ 24"
    using ok(3) by (simp add: DEC_RK70_MAX_STREAM_def word_le_nat_alt)
  show bp: "unat (st_bitPosInByte s) < 8"
    using ok(1) by (simp add: word_less_nat_alt)
  show l8: "unat (8 * st_streamLength s) = 8 * unat (st_streamLength s)"
    using len by (simp add: unat_times8)
  have q: "unat q \<le> unat (st_streamLength s)" using ok(4) by (simp add: word_le_nat_alt)
  have q8: "unat (8 * q) = 8 * unat q" using q len by (simp add: unat_times8)
  have "unat (8 * q + st_bitPosInByte s) = unat (8 * q) + unat (st_bitPosInByte s)"
    using q len bp by (intro unat_add_lem [THEN iffD1]) (simp add: q8)
  then show "unat (st_readBits s) = 8 * unat q + unat (st_bitPosInByte s)"
    unfolding q8 ok(2) .
  show "unat (st_readBits s) \<le> 8 * unat (st_streamLength s)"
    using ok(5) l8 by (simp add: word_le_nat_alt)
qed

section \<open>JpegDecGetByte and JpegDecGet2Bytes\<close>

lemma window8:
  fixes b0 b1 :: u8
  assumes "p < 8" "i < 8"
  shows "bit (drop_bit (8 - p) (push_bit 8 (ucast b0) OR ucast b1 :: u32) AND 0xFF) i
    = (if p \<le> i then bit b0 (i - p) else bit b1 (8 + i - p))"
proof -
  have m: "(0xFF :: u32) = mask 8" by (simp add: mask_eq_exp_minus_1)
  have "\<not> bit b1 (8 + i - p)" if "p \<le> i" using that bit_imp_le_length by force
  then show ?thesis using assms unfolding m by (auto simp: bit_simps)
qed

lemma window16:
  fixes b0 b1 b2 :: u8
  assumes "p < 8" "i < 16"
  shows "bit (drop_bit (8 - p) (push_bit 8 (push_bit 8 (ucast b0) OR ucast b1) OR ucast b2 :: u32) AND 0xFFFF) i
    = (if 8 + p \<le> i then bit b0 (i - (8 + p)) else if p \<le> i then bit b1 (i - p) else bit b2 (8 + i - p))"
proof -
  have m: "(0xFFFF :: u32) = mask 16" by (simp add: mask_eq_exp_minus_1)
  have "\<not> bit b2 (8 + i - p)" if "p \<le> i" using that bit_imp_le_length by force
  moreover have "\<not> bit b1 (i - p)" if "8 + p \<le> i" using that bit_imp_le_length by force
  ultimately show ?thesis using assms unfolding m by (auto simp: bit_simps)
qed


lemma stream_bit_at:
  assumes "strm_ok s" "unat (st_bitPosInByte s) + k = 8 * a + b" "b < 8"
  shows "stream_bit mem s (unat (st_readBits s) + k) = bit (mem (st_pCurrPos s + of_nat a)) (7 - b)"
proof -
  define q where "q = unat (st_pCurrPos s - st_pStartOfStream s)"
  have c: "st_pStartOfStream s + of_nat q = st_pCurrPos s" by (simp add: q_def)
  have e: "unat (st_readBits s) + k = 8 * (q + a) + b"
    using strm_ok_nat(1) [OF assms(1)] assms(2) by (simp add: q_def)
  show ?thesis
    unfolding stream_bit_def e c [symmetric] using assms(3) by (simp add: add.assoc)
qed

lemma GetByte_ok:
  assumes ok: "strm_ok s" and room: "unat (st_readBits s) + 8 \<le> 8 * unat (st_streamLength s)"
    and r: "JpegDecGetByte mem s = (r, s')"
  shows "s' = s\<lparr>st_pCurrPos := st_pCurrPos s + 1, st_readBits := st_readBits s + 8\<rparr>"
    and "strm_ok s'" 
    and "unat (st_readBits s') = unat (st_readBits s) + 8" and "r < 256"
    and "i < 8 \<Longrightarrow> bit r i = stream_bit mem s (unat (st_readBits s) + (7 - i))"
proof -
  note n = strm_ok_nat [OF ok]
  have rb: "unat (st_readBits s + 8) = unat (st_readBits s) + 8"
    using n(5) room by (intro unat_add_lem [THEN iffD1, THEN trans]) simp_all
  have g: "\<not> st_readBits s + 8 > 8 * st_streamLength s"
    using room rb n(3) by (simp add: word_less_nat_alt)
  show s': "s' = s\<lparr>st_pCurrPos := st_pCurrPos s + 1, st_readBits := st_readBits s + 8\<rparr>"
    using r g by (simp add: JpegDecGetByte_def Let_def split: if_splits)
  show "unat (st_readBits s') = unat (st_readBits s) + 8" using rb by (simp add: s')
  have r2: "r = drop_bit (8 - unat (st_bitPosInByte s))
      (push_bit 8 (ucast (mem (st_pCurrPos s))) OR ucast (mem (st_pCurrPos s + 1)) :: u32) AND 0xFF"
    using r g n(2) by (simp add: JpegDecGetByte_def Let_def unat_sub word_le_nat_alt split: if_splits)
  show "r < 256" unfolding r2 
    by (rule order.strict_trans1 [OF word_and_le1]) simp
  show "strm_ok s'"
  proof -
    let ?q = "st_pCurrPos s - st_pStartOfStream s"
    have "8 * unat ?q + 8 \<le> 8 * unat (st_streamLength s)" using n(1) room by linarith
    then have q: "unat ?q + 1 \<le> unat (st_streamLength s)" by linarith
    then have "unat (?q + 1) = unat ?q + 1" using n(5) by (intro unat_add_lem [THEN iffD1, THEN trans]) simp_all
    then have "?q + 1 \<le> st_streamLength s" using q by (simp add: word_le_nat_alt)
    then show ?thesis using ok room rb n(3)
      by (simp add: s' strm_ok_def strm_pos_def algebra_simps word_le_nat_alt)
  qed
  show "bit r i = stream_bit mem s (unat (st_readBits s) + (7 - i))" if "i < 8"
  proof (cases "unat (st_bitPosInByte s) \<le> i")
    case True
    then show ?thesis
      unfolding r2 window8 [OF n(2) that]
      using that by (subst stream_bit_at [OF ok, of _ 0 "7 + unat (st_bitPosInByte s) - i"]) auto
  next
    case False
    then show ?thesis
      unfolding r2 window8 [OF n(2) that]
      using that n(2) by (subst stream_bit_at [OF ok, of _ 1 "unat (st_bitPosInByte s) - i - 1"]) auto
  qed
qed


lemma GetByte_end:
  assumes "strm_ok s" "8 * unat (st_streamLength s) < unat (st_readBits s) + 8"
  shows "JpegDecGetByte mem s = (STRM_ERROR, s)"
proof -
  note n = strm_ok_nat [OF assms(1)]
  have rb: "unat (st_readBits s + 8) = unat (st_readBits s) + 8"
    using n(4,5) by (intro unat_add_lem [THEN iffD1, THEN trans]) simp_all
  then have "st_readBits s + 8 > 8 * st_streamLength s"
    using assms(2) n(3) by (simp add: word_less_nat_alt)
  then show ?thesis by (simp add: JpegDecGetByte_def)
qed

lemma GetByte_aligned:
  assumes "st_bitPosInByte s = 0" "JpegDecGetByte mem s = (r, s')" "r \<noteq> STRM_ERROR"
  shows "r = ucast (mem (st_pCurrPos s))"
proof -
  have m: "(0xFF :: u32) = mask 8" by (simp add: mask_eq_exp_minus_1)
  have "drop_bit 8 (push_bit 8 (ucast b0) OR ucast b1 :: u32) AND 0xFF = ucast b0" for b0 b1 :: u8
    unfolding m by (rule bit_eqI) (auto simp: bit_simps dest: bit_imp_le_length)
  then show ?thesis
    using assms by (auto simp: JpegDecGetByte_def Let_def split: if_splits)
qed

lemma Get2Bytes_GetByte:
  assumes ok: "strm_ok s" and room: "unat (st_readBits s) + 16 \<le> 8 * unat (st_streamLength s)"
  shows "JpegDecGet2Bytes mem s =
    (let (a, s) = JpegDecGetByte mem s; (b, s) = JpegDecGetByte mem s in (push_bit 8 a OR b, s))"
proof -
  note n = strm_ok_nat [OF ok]
  have rb: "unat (st_readBits s + 8) = unat (st_readBits s) + 8"
    "unat (st_readBits s + 16) = unat (st_readBits s) + 16"
    using n(5) room by (intro unat_add_lem [THEN iffD1, THEN trans]; simp)+
  have g: "\<not> st_readBits s + 8 > 8 * st_streamLength s" "\<not> st_readBits s + 16 > 8 * st_streamLength s"
    using room rb n(3) by (simp_all add: word_less_nat_alt)
  define p where "p = unat (st_bitPosInByte s)"
  have p: "p < 8" "unat (8 - st_bitPosInByte s) = 8 - p"
    using n(2) by (simp_all add: p_def unat_sub word_le_nat_alt)
  have w: "drop_bit (8 - p) (push_bit 8 (push_bit 8 (ucast b0) OR ucast b1) OR ucast b2 :: u32) AND 0xFFFF
      = push_bit 8 (drop_bit (8 - p) (push_bit 8 (ucast b0) OR ucast b1 :: u32) AND 0xFF)
        OR (drop_bit (8 - p) (push_bit 8 (ucast b1) OR ucast b2 :: u32) AND 0xFF)" (is "?l = ?r")
    for b0 b1 b2 :: u8
  proof (rule bit_word_eqI)
    fix i :: nat
    have m: "(0xFF :: u32) = mask 8" "(0xFFFF :: u32) = mask 16" by (simp_all add: mask_eq_exp_minus_1)
    show "bit ?l i = bit ?r i"
    proof (cases "i < 8")
      case True
      then have "bit ?r i = bit (drop_bit (8 - p) (push_bit 8 (ucast b1) OR ucast b2 :: u32) AND 0xFF) i"
        by (simp only: bit_or_iff bit_push_bit_iff) simp
      then show ?thesis using True window8 [OF p(1) True] window16 [OF p(1), of i b0 b1 b2] by simp
    next
      case False
      show ?thesis
      proof (cases "i < 16")
        case True
        have "bit ?r i = bit (drop_bit (8 - p) (push_bit 8 (ucast b0) OR ucast b1 :: u32) AND 0xFF) (i - 8)"
          using False True by (simp only: bit_or_iff bit_push_bit_iff) (simp add: m bit_simps)
        moreover have "i - 8 < 8" "8 + (i - 8) = i" "p \<le> i" "8 + p \<le> i \<longleftrightarrow> p \<le> i - 8"
          "i - (8 + p) = i - 8 - p" using False True p(1) by auto
        ultimately show ?thesis
          unfolding window16 [OF p(1) True] by (simp only: window8 [OF p(1)] if_True)
      next
        case False
        then have "\<not> i - 8 < 8" by simp
        with False show ?thesis by (auto simp: m bit_simps)
      qed
    qed
  qed
  have "JpegDecGet2Bytes mem s =
      (drop_bit (8 - p) (push_bit 8 (push_bit 8 (ucast (mem (st_pCurrPos s))) OR ucast (mem (st_pCurrPos s + 1)))
         OR ucast (mem (st_pCurrPos s + 1 + 1)) :: u32) AND 0xFFFF,
       s\<lparr>st_pCurrPos := st_pCurrPos s + 2, st_readBits := st_readBits s + 16\<rparr>)"
    using g by (simp add: JpegDecGet2Bytes_def Let_def p)
  then show ?thesis
    unfolding w using g by (simp add: JpegDecGetByte_def Let_def p add.commute [of 16])
qed

section \<open>JpegDecFlushBits\<close>

lemma less_diff_eq_word:
  fixes a b :: u32
  assumes "a < 8 - b" "b < 8"
  shows "b + a < 8"
proof -
  have "unat (8 - b) = 8 - unat b" using assms(2) by (simp add: unat_sub word_less_nat_alt word_le_nat_alt)
  then have "unat a + unat b < 8" using assms by (simp add: word_less_nat_alt)
  then show ?thesis by (simp add: word_less_nat_alt unat_word_ariths)
qed

lemma flush_next:
  fixes tmp bits :: u32
  assumes "tmp < bits" "\<not> bits - tmp < 8"
  shows "tmp + 8 \<le> bits"
proof -
  have "unat (bits - tmp) = unat bits - unat tmp" using assms(1) by (simp add: unat_sub)
  then have "unat tmp + 8 \<le> unat bits" using assms by (simp add: word_less_nat_alt)
  moreover have "unat bits < 2 ^ 32" using unsigned_less [of bits] by simp
  ultimately show ?thesis by (simp add: word_le_nat_alt unat_word_ariths)
qed

lemma flush_loop_pos:
  assumes "flush_loop mem bits tmp ex s = (s', ex')" "st_bitPosInByte s < 8" "tmp \<le> bits"
  shows "8 * (st_pCurrPos s' - st_pStartOfStream s) + st_bitPosInByte s'
      = 8 * (st_pCurrPos s - st_pStartOfStream s) + st_bitPosInByte s + (bits - tmp) + (ex' - ex)
    \<and> st_bitPosInByte s' < 8
    \<and> s' = s\<lparr>st_pCurrPos := st_pCurrPos s', st_bitPosInByte := st_bitPosInByte s'\<rparr>"
  using assms
proof (induction mem bits tmp ex s rule: flush_loop.induct)
  case (1 mem bits tmp ex s)
  consider (finished) "\<not> tmp < bits"
    | (inside) "tmp < bits" "bits - tmp < 8" "8 - st_bitPosInByte s > bits - tmp"
    | (cross) "tmp < bits" "bits - tmp < 8" "\<not> 8 - st_bitPosInByte s > bits - tmp"
    | (appn) "tmp < bits" "\<not> bits - tmp < 8" "st_appnFlag s \<noteq> 0"
    | (whole) "tmp < bits" "\<not> bits - tmp < 8" "st_appnFlag s = 0"
    by blast
  then show ?case
  proof cases
    case finished
    then show ?thesis using 1(3-) by (simp add: flush_loop.simps)
  next
    case inside
    have "st_bitPosInByte s + (bits - tmp) < 8"
      using inside 1(4) by (simp add: less_diff_eq_word)
    then show ?thesis using inside 1(3) by (auto simp: flush_loop.simps)
  next
    case cross
    have "bits - tmp - (8 - st_bitPosInByte s) < 8"
      using cross by (simp add: word_less_nat_alt word_le_nat_alt unat_sub del: diff_diff_eq)
    then have "bits - (tmp + (8 - st_bitPosInByte s)) < 8" by (simp only: diff_diff_eq)
    then show ?thesis using cross 1(3) 
      by (auto simp: flush_loop.simps Let_def flush_byte_def algebra_simps split: if_splits)
  next
    case appn
    have le: "tmp + 8 \<le> bits" by (rule flush_next) (use appn in auto)
    have "flush_loop mem bits (tmp + 8) ex (s\<lparr>st_pCurrPos := st_pCurrPos s + 1\<rparr>) = (s', ex')"
      using appn 1(3) by (subst (asm) flush_loop.simps) simp
    from 1(1) [OF _ _ _ this] le appn 1(4)
    show ?thesis by (auto simp: algebra_simps)
  next
    case whole
    have le: "tmp + 8 \<le> bits" by (rule flush_next) (use whole in auto)
    obtain s1 ex1 where f: "flush_byte mem s ex = (s1, ex1)" by fastforce
    have "flush_loop mem bits (tmp + 8) ex1 s1 = (s', ex')"
      using whole 1(3) f by (subst (asm) flush_loop.simps) simp
    from 1(2) [OF _ _ _ f [symmetric] this] le whole 1(4) f
    show ?thesis by (auto simp: algebra_simps flush_byte_def split: if_splits)
  qed
qed


lemma FlushBits_strm_pos:
  assumes "strm_pos s" "JpegDecFlushBits mem s bits = (r, s')"
  shows "strm_pos s'"
proof -
  obtain s1 ex where f: "flush_loop mem bits 0 0 s = (s1, ex)" by fastforce
  have p: "8 * (st_pCurrPos s1 - st_pStartOfStream s) + st_bitPosInByte s1 = st_readBits s + bits + ex"
    "st_bitPosInByte s1 < 8"
    "s1 = s\<lparr>st_pCurrPos := st_pCurrPos s1, st_bitPosInByte := st_bitPosInByte s1\<rparr>"
    using flush_loop_pos [OF f] assms(1) by (simp_all only: strm_pos_def diff_zero word_zero_le simp_thms)
  have q: "st_pStartOfStream s1 = st_pStartOfStream s" "st_readBits s1 = st_readBits s"
    by (subst p(3); simp)+
  show ?thesis
    using assms f p(1,2) q by (auto simp: JpegDecFlushBits_def strm_pos_def add.assoc split: if_splits)
qed

lemma FlushBits_value:
  "fst (JpegDecFlushBits mem s bits) = (if st_readBits s + bits > 8 * st_streamLength s then STRM_ERROR else 0)"
  by (simp add: JpegDecFlushBits_def split_def Let_def)

section \<open>A source of bytes\<close>

text \<open>
  The header decoders read whole bytes from an aligned stream: strm_left bytes are left, strm_at
  is the byte k places ahead and strm_adv moves the stream.
\<close>

definition strm_adv :: "nat \<Rightarrow> StreamStorage \<Rightarrow> StreamStorage" where
  "strm_adv n s = s\<lparr>st_pCurrPos := st_pCurrPos s + of_nat n, st_readBits := st_readBits s + 8 * of_nat n\<rparr>"

definition strm_bytes_ok :: "StreamStorage \<Rightarrow> bool" where
  "strm_bytes_ok s \<longleftrightarrow> strm_ok s \<and> st_bitPosInByte s = 0"

definition strm_left :: "StreamStorage \<Rightarrow> nat" where
  "strm_left s = unat (st_streamLength s) - unat (st_pCurrPos s - st_pStartOfStream s)"

definition strm_at :: "memory \<Rightarrow> StreamStorage \<Rightarrow> nat \<Rightarrow> u32" where
  "strm_at mem s k = ucast (mem (st_pCurrPos s + of_nat k))"

lemma strm_adv_adv: "strm_adv m (strm_adv n s) = strm_adv (n + m) s"
  by (simp add: strm_adv_def algebra_simps)

lemma strm_at_adv: "strm_at mem (strm_adv n s) k = strm_at mem s (n + k)"
  by (simp add: strm_at_def strm_adv_def algebra_simps)

lemma strm_adv_ok:
  assumes "strm_bytes_ok s" "n \<le> strm_left s"
  shows "strm_bytes_ok (strm_adv n s)" "strm_left (strm_adv n s) = strm_left s - n"
proof -
  define q where "q = st_pCurrPos s - st_pStartOfStream s"
  have ok: "strm_ok s" "st_bitPosInByte s = 0" using assms(1) by (simp_all add: strm_bytes_ok_def)
  note nn = strm_ok_nat [OF ok(1), folded q_def]
  have rb: "st_readBits s = 8 * q" using ok by (simp add: strm_ok_def strm_pos_def q_def)
  have le: "unat q \<le> unat (st_streamLength s)"
    using ok(1) by (simp add: strm_ok_def q_def word_le_nat_alt)
  have n: "unat q + n \<le> unat (st_streamLength s)" using assms(2) le by (simp add: strm_left_def q_def)
  have un: "unat (q + of_nat n) = unat q + n"
    using n nn(5) by (simp add: unat_word_ariths unat_of_nat)
  have u8: "unat (8 * (q + of_nat n)) = 8 * (unat q + n)"
    using un n nn(5) by (subst unat_times8) simp_all
  have e: "st_pCurrPos s + of_nat n - st_pStartOfStream s = q + of_nat n" by (simp add: q_def)
  show "strm_bytes_ok (strm_adv n s)"
    using ok n un u8 nn(3)
    by (simp add: strm_bytes_ok_def strm_ok_def strm_pos_def strm_adv_def e rb word_le_nat_alt algebra_simps)
  show "strm_left (strm_adv n s) = strm_left s - n"
    using un by (simp add: strm_left_def strm_adv_def e q_def [symmetric])
qed

lemma GetByte_source:
  assumes "strm_bytes_ok s"
  shows "JpegDecGetByte mem s =
    (if 0 < strm_left s then (strm_at mem s 0, strm_adv (Suc 0) s) else (STRM_ERROR, s))"
proof (cases "0 < strm_left s")
  case True
  have ok: "strm_ok s" "st_bitPosInByte s = 0" using assms by (simp_all add: strm_bytes_ok_def)
  note nn = strm_ok_nat [OF ok(1)]
  have room: "unat (st_readBits s) + 8 \<le> 8 * unat (st_streamLength s)"
    using True nn(1) ok(2) by (simp add: strm_left_def)
  obtain r s' where g: "JpegDecGetByte mem s = (r, s')" by fastforce
  note b = GetByte_ok [OF ok(1) room g]
  have "r \<noteq> STRM_ERROR" using b(4) by (auto simp: STRM_ERROR_def)
  then show ?thesis
    using True b(1) g GetByte_aligned [OF ok(2) g] by (simp add: strm_at_def strm_adv_def)
next
  case False
  have ok: "strm_ok s" "st_bitPosInByte s = 0" using assms by (simp_all add: strm_bytes_ok_def)
  have "8 * unat (st_streamLength s) < unat (st_readBits s) + 8"
    using False strm_ok_nat(1) [OF ok(1)] ok(2) by (simp add: strm_left_def)
  then show ?thesis using False GetByte_end [OF ok(1)] by simp
qed

text \<open>What a decoder of headers relies on.\<close>

locale byte_source =
  fixes ok :: "'s \<Rightarrow> bool"
    and left :: "'s \<Rightarrow> nat"
    and at :: "'s \<Rightarrow> nat \<Rightarrow> u32"
    and adv :: "nat \<Rightarrow> 's \<Rightarrow> 's"
    and get :: "'s \<Rightarrow> u32 \<times> 's"
    and err :: u32
  assumes get_eq: "ok s \<Longrightarrow> get s = (if 0 < left s then (at s 0, adv (Suc 0) s) else (err, s))"
    and adv_0: "adv 0 s = s"
    and adv_adv: "adv m (adv n s) = adv (n + m) s"
    and at_adv: "at (adv n s) k = at s (n + k)"
    and adv_ok: "ok s \<Longrightarrow> n \<le> left s \<Longrightarrow> ok (adv n s)"
    and left_adv: "ok s \<Longrightarrow> n \<le> left s \<Longrightarrow> left (adv n s) = left s - n"
begin

text \<open>Reading n bytes one after the other.\<close>

primrec gets :: "nat \<Rightarrow> 's \<Rightarrow> u32 list \<times> 's" where
  "gets 0 s = ([], s)"
| "gets (Suc n) s = (let (x, s) = get s; (xs, s) = gets n s in (x # xs, s))"

lemma gets_eq:
  "ok s \<Longrightarrow> gets n s =
    (map (\<lambda>k. if k < left s then at s k else err) [0..<n], adv (min n (left s)) s)"
proof (induction n arbitrary: s)
  case 0
  then show ?case by (simp add: adv_0)
next
  case (Suc n)
  show ?case
  proof (cases "0 < left s")
    case True
    have ok1: "ok (adv (Suc 0) s)" "left (adv (Suc 0) s) = left s - 1"
      using adv_ok [OF Suc.prems, of 1] left_adv [OF Suc.prems, of 1] True by auto
    have m: "Suc (min n (left s - Suc 0)) = min (Suc n) (left s)" using True by auto
    show ?thesis
      using Suc.IH [OF ok1(1)] True
      by (simp add: get_eq [OF Suc.prems] ok1(2) adv_adv at_adv m upt_conv_Cons
          map_Suc_upt [symmetric] del: upt_Suc)
        (auto simp: less_diff_conv)
  next
    case False
    then show ?thesis
      using Suc.IH [OF Suc.prems]
      by (simp add: get_eq [OF Suc.prems] upt_conv_Cons map_Suc_upt [symmetric] map_replicate_const adv_0 del: upt_Suc)
  qed
qed

lemma gets_ok: "ok s \<Longrightarrow> ok (snd (gets n s))"
  by (simp add: gets_eq adv_ok)

lemma gets_enough: "ok s \<Longrightarrow> n \<le> left s \<Longrightarrow> gets n s = (map (at s) [0..<n], adv n s)"
  by (auto simp: gets_eq min_absorb1)

lemma gets_length: "length (fst (gets n s)) = n"
  by (induction n arbitrary: s) (simp_all add: split_def Let_def)

end

text \<open>JpegDecGetByte on an aligned stream provides it.\<close>

interpretation strm: byte_source strm_bytes_ok strm_left "strm_at mem" strm_adv "JpegDecGetByte mem" STRM_ERROR for mem
  by unfold_locales
    (simp_all add: GetByte_source strm_adv_adv strm_at_adv strm_adv_ok, simp add: strm_adv_def)


text \<open>The loops for (i = 0; i < n; i++) x[i] = JpegDecGetByte(pStream) of the header decoders.\<close>

primrec getBytes :: "memory \<Rightarrow> nat \<Rightarrow> StreamStorage \<Rightarrow> u32 list \<times> StreamStorage" where
  "getBytes mem 0 s = ([], s)"
| "getBytes mem (Suc n) s =
     (let (x, s) = JpegDecGetByte mem s; (xs, s) = getBytes mem n s in (x # xs, s))"

lemma getBytes_gets: "getBytes mem n s = strm.gets mem n s"
  by (induction n arbitrary: s) simp_all

section \<open>Skipping a segment\<close>

text \<open>With appnFlag set, JpegDecFlushBits moves over whole bytes and does not look at them.\<close>

lemma flush_loop_appn:
  assumes "st_appnFlag s \<noteq> 0" "tmp \<le> bits" "unat (bits - tmp) = 8 * n"
  shows "flush_loop mem bits tmp ex s = (s\<lparr>st_pCurrPos := st_pCurrPos s + of_nat n\<rparr>, ex)"
  using assms
proof (induction n arbitrary: tmp s)
  case 0
  then have "bits - tmp = 0" by (simp add: unat_eq_zero)
  then show ?case by (subst flush_loop.simps) simp
next
  case (Suc n)
  have ge: "\<not> bits - tmp < 8" using Suc.prems(3) by (simp add: word_less_nat_alt)
  have lt: "tmp < bits"
  proof (rule ccontr)
    assume "\<not> tmp < bits"
    with Suc.prems(2) have "tmp = bits" by simp
    with ge show False by simp
  qed
  have le: "tmp + 8 \<le> bits" by (rule flush_next [OF lt ge])
  have n: "unat (bits - (tmp + 8)) = 8 * n"
    using Suc.prems(3) ge by (simp add: diff_diff_eq [symmetric] unat_sub word_less_nat_alt word_le_nat_alt del: diff_diff_eq)
  show ?case
    using Suc.IH [OF _ le n, of "s\<lparr>st_pCurrPos := st_pCurrPos s + 1\<rparr>"] Suc.prems(1) lt ge
    by (subst flush_loop.simps) (simp add: add.assoc)
qed

lemma FlushBits_appn:
  assumes "strm_bytes_ok s" "st_appnFlag s \<noteq> 0" "n \<le> strm_left s"
  shows "JpegDecFlushBits mem s (of_nat (8 * n)) = (0, strm_adv n s)"
proof -
  have ok: "strm_ok s" "st_bitPosInByte s = 0" using assms(1) by (simp_all add: strm_bytes_ok_def)
  note nn = strm_ok_nat [OF ok(1)]
  have n: "unat (st_readBits s) + 8 * n \<le> 8 * unat (st_streamLength s)"
    using assms(3) nn(1) ok(2) nn(4) by (simp add: strm_left_def)
  have u: "unat (of_nat (8 * n) :: u32) = 8 * n" 
    by (simp only: unat_of_nat) (use n nn(5) in simp)
  have "unat (st_readBits s + of_nat (8 * n)) = unat (st_readBits s) + 8 * n"
    using n nn(5) u by (subst unat_add_lem [THEN iffD1]) simp_all
  then have "\<not> st_readBits s + of_nat (8 * n) > 8 * st_streamLength s"
    using n nn(3) by (simp add: word_less_nat_alt)
  then show ?thesis
    using flush_loop_appn [of s 0 "of_nat (8 * n)" n] assms(2) u
    by (simp add: JpegDecFlushBits_def strm_adv_def)
qed

section \<open>JpegDecShowBits\<close>

text \<open>One step of the loop of ShowBits on a stream with no stuffed byte ahead.\<close>

lemma showBits_step:
  assumes "st_bitPosInByte s = 0" "mem p \<noteq> 0"
  shows "showBits_loop mem s bits rb out p =
    (let out = push_bit 8 out OR ucast (mem p); rb = rb + 8; bits = bits - 8 in
     if rb < 32 \<and> bits > 0 then showBits_loop mem s bits rb out (p + 1) else (out, rb, bits))"
  using assms by (subst showBits_loop.simps) (simp add: showBits_skip_def Let_def)

lemma ShowBits_32:
  assumes "strm_bytes_ok s" "4 \<le> strm_left s" "\<forall>k < 4. strm_at mem s k \<noteq> 0"
  shows "JpegDecShowBits mem s =
    push_bit 24 (strm_at mem s 0) OR push_bit 16 (strm_at mem s 1) OR push_bit 8 (strm_at mem s 2)
      OR strm_at mem s 3"
proof -
  have ok: "strm_ok s" "st_bitPosInByte s = 0" using assms(1) by (simp_all add: strm_bytes_ok_def)
  note nn = strm_ok_nat [OF ok(1)]
  define b where "b = sint (8 * st_streamLength s - st_readBits s)"
  have "unat (8 * st_streamLength s - st_readBits s) = 8 * strm_left s"
    using nn ok(2) by (simp add: unat_sub word_le_nat_alt strm_left_def right_diff_distrib')
  moreover have "8 * strm_left s < 2 ^ 31" using nn(5) by (simp add: strm_left_def)
  ultimately have "uint (8 * st_streamLength s - st_readBits s) = int (8 * strm_left s)"
    and "int (8 * strm_left s) < 2 ^ 31" by (simp_all add: uint_nat)
  then have b: "b = int (8 * strm_left s)"
    unfolding b_def sint_uint by (simp only: signed_take_bit_int_eq_self) (simp add: signed_take_bit_int_eq_self)
  have at: "strm_at mem s 0 = ucast (mem (st_pCurrPos s))" "strm_at mem s 1 = ucast (mem (st_pCurrPos s + 1))"
    "strm_at mem s 2 = ucast (mem (2 + st_pCurrPos s))" "strm_at mem s 3 = ucast (mem (3 + st_pCurrPos s))"
    by (simp_all add: strm_at_def add.commute)
  have nz: "mem (st_pCurrPos s) \<noteq> 0" "mem (st_pCurrPos s + 1) \<noteq> 0" "mem (2 + st_pCurrPos s) \<noteq> 0"
    "mem (3 + st_pCurrPos s) \<noteq> 0"
    using assms(3) at by (auto dest: spec [of _ 0] spec [of _ 1] spec [of _ 2] spec [of _ 3])
  show ?thesis
    unfolding at using assms(2) b ok(2) nz
    by (auto simp add: JpegDecShowBits_def b_def [symmetric] showBits_step Let_def or.assoc)
qed
section \<open>Streams given by their bytes\<close>

text \<open>A memory that holds bytes at an address, and a stream over it.\<close>

definition memory_of :: "addr \<Rightarrow> u8 list \<Rightarrow> memory" where
  "memory_of base bs a = (let i = unat (a - base) in if i < length bs then bs ! i else 0)"

definition stream_of :: "addr \<Rightarrow> u32 \<Rightarrow> StreamStorage" where
  "stream_of base len = zero_StreamStorage\<lparr>st_pStartOfStream := base, st_pCurrPos := base,
     st_streamLength := len\<rparr>"

lemma stream_of_ok:
  "len \<le> DEC_RK70_MAX_STREAM \<Longrightarrow> strm_bytes_ok (stream_of base len)"
  "strm_left (stream_of base len) = unat len"
  by (simp_all add: stream_of_def strm_bytes_ok_def strm_ok_def strm_pos_def zero_StreamStorage_def strm_left_def)

lemma strm_at_memory_of:
  "k < length bs \<Longrightarrow> length bs < 2 ^ 32 \<Longrightarrow> strm_at (memory_of base bs) (stream_of base len) k = ucast (bs ! k)"
  by (simp add: strm_at_def memory_of_def stream_of_def Let_def unat_of_nat)

text \<open>The next bytes of a stream.\<close>

definition stream_has :: "memory \<Rightarrow> StreamStorage \<Rightarrow> u8 list \<Rightarrow> bool" where
  "stream_has mem s bs \<longleftrightarrow> length bs \<le> strm_left s \<and> (\<forall>k < length bs. strm_at mem s k = ucast (bs ! k))"

lemma stream_has_append:
  assumes "strm_bytes_ok s" "stream_has mem s (xs @ ys)"
  shows "stream_has mem s xs" "stream_has mem (strm_adv (length xs) s) ys"
proof -
  have "length xs \<le> strm_left s" using assms(2) by (simp add: stream_has_def)
  note a = strm_adv_ok [OF assms(1) this]
  show "stream_has mem s xs"
    using assms(2) by (auto simp: stream_has_def nth_append)
  have "strm_at mem s (length xs + k) = ucast (ys ! k)" if "k < length ys" for k
    using assms(2) that by (auto simp: stream_has_def nth_append dest: spec [of _ "length xs + k"])
  then show "stream_has mem (strm_adv (length xs) s) ys"
    using assms(2) a by (auto simp: stream_has_def strm_at_adv)
qed

lemma stream_has_bytes:
  "stream_has mem s bs \<Longrightarrow> map (strm_at mem s) [0..<length bs] = map ucast bs"
  by (rule nth_equalityI) (simp_all add: stream_has_def)

lemma stream_of_has:
  "length bs \<le> n \<Longrightarrow> n < 2 ^ 24 \<Longrightarrow> stream_has (memory_of base bs) (stream_of base (of_nat n)) bs"
  by (simp add: stream_has_def stream_of_ok strm_at_memory_of unat_of_nat)

section \<open>Properties\<close>

text \<open>
  C5. JpegDecGetByte on any stream in a well-formed state, aligned or not: with eight bits left it
  returns the next eight bits of the stream, the first bit the most significant, and moves eight
  bits on; otherwise it returns STRM_ERROR and changes nothing. Only bytes of the stream count.
\<close>

theorem GetByte_reads_next_bits:
  assumes "strm_ok s" "JpegDecGetByte mem s = (r, s')"
  shows "if unat (st_readBits s) + 8 \<le> 8 * unat (st_streamLength s)
    then strm_ok s' \<and> unat (st_readBits s') = unat (st_readBits s) + 8 \<and> r < 256 \<and>
      (\<forall>i<8. bit r i = stream_bit mem s (unat (st_readBits s) + (7 - i)))
    else r = STRM_ERROR \<and> s' = s"
  using GetByte_ok [OF assms(1) _ assms(2)] GetByte_end [OF assms(1), of mem] assms(2) by auto

text \<open>A stream of the bytes 0x12, 0x34, 0x56 at address 1000, read from its fifth bit.\<close>

definition demo_mem :: memory where
  "demo_mem a = (if a = 1000 then 0x12 else if a = 1001 then 0x34 else if a = 1002 then 0x56 else 0)"

definition demo_strm :: StreamStorage where
  "demo_strm = zero_StreamStorage\<lparr>st_pStartOfStream := 1000, st_pCurrPos := 1000,
     st_streamLength := 3, st_readBits := 4, st_bitPosInByte := 4\<rparr>"

lemma demo_GetByte: "JpegDecGetByte demo_mem demo_strm =
    (0x23, demo_strm\<lparr>st_pCurrPos := 1001, st_readBits := 12\<rparr>)"
  by (simp add: JpegDecGetByte_def demo_mem_def demo_strm_def zero_StreamStorage_def Let_def)

lemma demo_ok: "strm_ok demo_strm"
  by (simp add: demo_strm_def zero_StreamStorage_def strm_ok_def strm_pos_def DEC_RK70_MAX_STREAM_def)

lemma GetByte_reads_next_bits_witness:
  "map (bit (0x23 :: u32)) [0..<8] = map (\<lambda>i. stream_bit demo_mem demo_strm (4 + (7 - i))) [0..<8]"
  unfolding list_eq_iff_nth_eq using GetByte_reads_next_bits [OF demo_ok demo_GetByte]
  by (simp add: demo_strm_def zero_StreamStorage_def)

text \<open>
  JpegDecFlushBits keeps the read pointer, the bit position and the count of read bits in
  step, whatever it is asked to flush: when the stream is too short (it then stands at the end),
  inside one byte, across bytes, and when it jumps over the 00 of FF 00.
\<close>

theorem FlushBits_keeps_position:
  "strm_pos s \<Longrightarrow> strm_pos (snd (JpegDecFlushBits mem s bits))"
  by (cases "JpegDecFlushBits mem s bits") (simp add: FlushBits_strm_pos)

lemma FlushBits_keeps_position_witness:
  "strm_pos (snd (JpegDecFlushBits demo_mem demo_strm 13))"
  by (rule FlushBits_keeps_position) (use demo_ok in \<open>simp add: strm_ok_def\<close>)

text \<open>
  With appnFlag set, flushing 8 * n bits of an aligned stream with n bytes left moves it
  exactly n bytes on and returns OK, FF 00 pairs included: the way a segment is skipped.
\<close>

theorem FlushBits_skips_segment:
  assumes "strm_bytes_ok s" "st_appnFlag s \<noteq> 0" "n \<le> strm_left s"
  shows "JpegDecFlushBits mem s (of_nat (8 * n)) = (0, strm_adv n s) \<and> strm_bytes_ok (strm_adv n s)
    \<and> strm_left (strm_adv n s) = strm_left s - n"
  using FlushBits_appn [OF assms] strm_adv_ok [OF assms(1,3)] by simp

lemma FlushBits_skips_segment_witness:
  "JpegDecFlushBits demo_mem (demo_strm\<lparr>st_bitPosInByte := 0, st_readBits := 0, st_appnFlag := 1\<rparr>) 16
    = (0, demo_strm\<lparr>st_bitPosInByte := 0, st_readBits := 16, st_appnFlag := 1, st_pCurrPos := 1002\<rparr>)"
  using FlushBits_skips_segment [of "demo_strm\<lparr>st_bitPosInByte := 0, st_readBits := 0, st_appnFlag := 1\<rparr>" 2 demo_mem]
  by (simp add: demo_strm_def zero_StreamStorage_def strm_bytes_ok_def strm_ok_def strm_pos_def
      DEC_RK70_MAX_STREAM_def strm_left_def strm_adv_def)

text \<open>
  JpegDecFlushBits counts the 00 of an FF 00 pair although it lies behind the end of the
  stream: flushing the last byte of a stream that ends in FF can leave more bits read than the
  stream has.
\<close>

lemma FlushBits_overshoots:
  "let s = zero_StreamStorage\<lparr>st_streamLength := 1\<rparr>; (r, s') = JpegDecFlushBits (\<lambda>a. if a = 0 then 0xFF else 0) s 8
   in r = 0 \<and> st_readBits s' = 16 \<and> 8 * st_streamLength s' = 8"
  by (simp add: JpegDecFlushBits_def zero_StreamStorage_def flush_loop.simps flush_byte_def)

end
