(* ===== verification/Headers.thy ===== *)
theory Headers
  imports BitReader
begin

text \<open>
  The header decoders of jpegdechdrs.c: the frame header with the sampling mode, the quantization
  tables and the Huffman tables, decoded from the stream or set to the standard ones. A decoder
  returns a JpegDecRet and the container; DWLmalloc is a parameter, the sizes for which it returns
  a block.
\<close>

type_synonym ('a) step = "(JpegDecRet \<times> JpegDecContainer, 'a) outcome"

section \<open>Reading through the container\<close>

definition getByte :: "memory \<Rightarrow> JpegDecContainer \<Rightarrow> u32 \<times> JpegDecContainer" where
  "getByte mem c = (let (v, s) = JpegDecGetByte mem (c_stream c) in (v, c\<lparr>c_stream := s\<rparr>))"

definition get2Bytes :: "memory \<Rightarrow> JpegDecContainer \<Rightarrow> u32 \<times> JpegDecContainer" where
  "get2Bytes mem c = (let (v, s) = JpegDecGet2Bytes mem (c_stream c) in (v, c\<lparr>c_stream := s\<rparr>))"

definition getManyBytes :: "memory \<Rightarrow> nat \<Rightarrow> JpegDecContainer \<Rightarrow> u32 list \<times> JpegDecContainer" where
  "getManyBytes mem n c = (let (v, s) = getBytes mem n (c_stream c) in (v, c\<lparr>c_stream := s\<rparr>))"

text \<open>The check for enough data: readBits / 8 + length > streamLength, on RK_U32.\<close>

definition segment_too_long :: "u32 \<Rightarrow> JpegDecContainer \<Rightarrow> bool" where
  "segment_too_long len c \<longleftrightarrow>
     st_readBits (c_stream c) div 8 + len > st_streamLength (c_stream c)"

section \<open>JpegDecMode\<close>

text \<open>The sampling factors of a component.\<close>

definition sampling :: "JpegDecContainer \<Rightarrow> nat \<Rightarrow> u32 \<Rightarrow> u32 \<Rightarrow> bool" where
  "sampling c i h v \<longleftrightarrow>
     comp_H (fr_component (c_frame c) ! i) = h \<and> comp_V (fr_component (c_frame c) ! i) = v"

text \<open>if ((frame.X & 0xF) && (frame.X & 0xF) <= 8) info.fillRight = 1, and the same for Y.\<close>

definition fillRight_if :: "JpegDecContainer \<Rightarrow> JpegDecContainer" where
  "fillRight_if c =
     (if fr_X (c_frame c) AND 0xF \<noteq> 0 \<and> fr_X (c_frame c) AND 0xF \<le> 8
      then c_info_update (\<lambda>i. i\<lparr>inf_fillRight := 1\<rparr>) c else c)"

definition fillBottom_if :: "JpegDecContainer \<Rightarrow> JpegDecContainer" where
  "fillBottom_if c =
     (if fr_Y (c_frame c) AND 0xF \<noteq> 0 \<and> fr_Y (c_frame c) AND 0xF \<le> 8
      then c_info_update (\<lambda>i. i\<lparr>inf_fillBottom := 1\<rparr>) c else c)"

definition set_mode :: "u32 \<Rightarrow> JpegDecContainer \<Rightarrow> JpegDecContainer" where
  "set_mode m c = c_info_update (\<lambda>i. i\<lparr>inf_yCbCrMode := m, inf_X := fr_hwX (c_frame c),
     inf_Y := fr_hwY (c_frame c)\<rparr>) c"

text \<open>The output size in slice mode; chroma is computed from the luma size.\<close>

definition slice_size :: "(u32 \<Rightarrow> u32) \<Rightarrow> JpegDecContainer \<Rightarrow> JpegDecContainer" where
  "slice_size chroma c =
     (if inf_sliceMbSetValue (c_info c) \<noteq> 0 then
        let luma = inf_X (c_info c) * (inf_sliceMbSetValue (c_info c) * 16)
        in c_image_update (\<lambda>i. i\<lparr>img_sizeLuma := luma, img_sizeChroma := chroma luma\<rparr>) c
      else c)"

definition slice_size_400 :: "JpegDecContainer \<Rightarrow> JpegDecContainer" where
  "slice_size_400 c =
     (if inf_sliceMbSetValue (c_info c) \<noteq> 0 then
        c_image_update (\<lambda>i. i\<lparr>img_sizeLuma := (inf_X (c_info c) + 15) div 16 * 16 *
          (inf_sliceMbSetValue (c_info c) * 16), img_sizeChroma := 0\<rparr>) c
      else c)"

definition JpegDecMode :: "JpegDecContainer \<Rightarrow> JpegDecRet \<times> JpegDecContainer" where
  "JpegDecMode c =
     (let fin = \<lambda>c. (JPEGDEC_OK, c_info_update (\<lambda>i. i\<lparr>inf_yCbCrModeOrig := inf_yCbCrMode i\<rparr>) c) in
      if fr_Nf (c_frame c) = 3 then
        (if sampling c 0 2 2 \<and> sampling c 1 1 1 \<and> sampling c 2 1 1 then
           fin (slice_size (\<lambda>l. l div 2) (set_mode JPEGDEC_YUV420 c))
         else if sampling c 0 2 1 \<and> sampling c 1 1 1 \<and> sampling c 2 1 1 then
           fin (slice_size (\<lambda>l. l) (fillBottom_if (set_mode JPEGDEC_YUV422 c)))
         else if sampling c 0 1 2 \<and> sampling c 1 1 1 \<and> sampling c 2 1 1 then
           fin (slice_size (\<lambda>l. l) (fillRight_if (set_mode JPEGDEC_YUV440 c)))
         else if sampling c 0 1 1 \<and> sampling c 1 1 1 \<and> sampling c 2 1 1 then
           fin (slice_size (\<lambda>l. l * 2) (fillBottom_if (fillRight_if (set_mode JPEGDEC_YUV444 c))))
         else if sampling c 0 4 1 \<and> sampling c 1 1 1 \<and> sampling c 2 1 1 then
           fin (slice_size (\<lambda>l. l div 2) (fillBottom_if (set_mode JPEGDEC_YUV411 c)))
         else (JPEGDEC_UNSUPPORTED, c))
      else if fr_Nf (c_frame c) = 1 then
        (if comp_V (fr_component (c_frame c) ! 0) = 1 \<or> comp_H (fr_component (c_frame c) ! 0) = 1 then
           fin (slice_size_400 (fillBottom_if (fillRight_if (set_mode JPEGDEC_YUV400 c))))
         else (JPEGDEC_UNSUPPORTED, c))
      else (JPEGDEC_UNSUPPORTED, c))"

section \<open>JpegDecDecodeFrameHdr\<close>

text \<open>The length, the precision and the dimensions.\<close>

definition FrameHdr_size :: "memory \<Rightarrow> JpegDecContainer \<Rightarrow> JpegDecContainer step" where
  "FrameHdr_size mem c =
     (let (v, c) = get2Bytes mem c;
          c = c_frame_update (\<lambda>f. f\<lparr>fr_Lf := v\<rparr>) c
      in if segment_too_long (fr_Lf (c_frame c)) c then Return (JPEGDEC_STRM_ERROR, c) else
      let (v, c) = getByte mem c;
          c = c_frame_update (\<lambda>f. f\<lparr>fr_P := v\<rparr>) c
      in if fr_P (c_frame c) \<noteq> 8 then Return (JPEGDEC_UNSUPPORTED, c) else
      let (v, c) = get2Bytes mem c;
          c = c_frame_update (\<lambda>f. f\<lparr>fr_Y := v\<rparr>) c
      in if fr_Y (c_frame c) < 1 then Return (JPEGDEC_UNSUPPORTED, c) else
      let c = c_frame_update (\<lambda>f. f\<lparr>fr_hwY := (fr_Y f + 0xF) AND NOT 0xF\<rparr>) c;
          (v, c) = get2Bytes mem c;
          c = c_frame_update (\<lambda>f. f\<lparr>fr_X := v\<rparr>) c
      in if fr_X (c_frame c) < 1 then Return (JPEGDEC_UNSUPPORTED, c) else
      let c = c_frame_update (\<lambda>f. f\<lparr>fr_hwX := (fr_X f + 0xF) AND NOT 0xF\<rparr>) c;
          c = c_info_update (\<lambda>i. i\<lparr>inf_X := fr_hwX (c_frame c), inf_Y := fr_hwY (c_frame c)\<rparr>) c;
          f = c_frame c
      in if fr_hwX f < c_minSupportedWidth c \<or> fr_hwY f < c_minSupportedHeight c \<or>
            fr_hwX f > c_maxSupportedWidth c \<or> fr_hwY f > c_maxSupportedHeight c \<or>
            fr_hwX f * fr_hwY f > c_maxSupportedPixelAmount c
         then Return (JPEGDEC_UNSUPPORTED, c) else
      let (v, c) = getByte mem c;
          c = c_frame_update (\<lambda>f. f\<lparr>fr_Nf := v\<rparr>) c
      in if fr_Nf (c_frame c) \<noteq> 3 \<and> fr_Nf (c_frame c) \<noteq> 1 then Return (JPEGDEC_UNSUPPORTED, c)
         else Continue c)"

text \<open>The loop over the components; the state of the loop is (Hmax, Vmax, container).\<close>

definition component_set :: "nat \<Rightarrow> (Components \<Rightarrow> Components) \<Rightarrow> JpegDecContainer \<Rightarrow> JpegDecContainer" where
  "component_set i g c =
     c_frame_update (\<lambda>f. f\<lparr>fr_component := (fr_component f)[i := g (fr_component f ! i)]\<rparr>) c"

definition FrameHdr_component ::
  "memory \<Rightarrow> nat \<Rightarrow> u32 \<times> u32 \<times> JpegDecContainer \<Rightarrow> (u32 \<times> u32 \<times> JpegDecContainer) step" where
  "FrameHdr_component mem i = (\<lambda>(Hmax, Vmax, c).
     let (v, c) = getByte mem c;
         c = component_set i (\<lambda>k. k\<lparr>comp_C := v\<rparr>) c;
         jump = i \<noteq> 0 \<and> comp_C (fr_component (c_frame c) ! (i - 1)) + 1
                        \<noteq> comp_C (fr_component (c_frame c) ! i);
         c = (if i = 0 then c_scan_update (\<lambda>s. s\<lparr>sc_index := comp_C (fr_component (c_frame c) ! i)\<rparr>) c
              else c)
     in if jump then Return (JPEGDEC_UNSUPPORTED, c) else
     let (tmp1, c) = getByte mem c;
         c = component_set i (\<lambda>k. k\<lparr>comp_H := drop_bit 4 tmp1\<rparr>) c;
         Hmax = (if comp_H (fr_component (c_frame c) ! i) > Hmax
                 then comp_H (fr_component (c_frame c) ! i) else Hmax);
         c = component_set i (\<lambda>k. k\<lparr>comp_V := tmp1 AND 0xF\<rparr>) c;
         Vmax = (if comp_V (fr_component (c_frame c) ! i) > Vmax
                 then comp_V (fr_component (c_frame c) ! i) else Vmax);
         (v, c) = getByte mem c;
         c = component_set i (\<lambda>k. k\<lparr>comp_Tq := v\<rparr>) c
     in Continue (Hmax, Vmax, c))"

definition FrameHdr_components :: "memory \<Rightarrow> JpegDecContainer \<Rightarrow> (u32 \<times> u32 \<times> JpegDecContainer) step" where
  "FrameHdr_components mem c =
     andThen (forEach [0..<unat (fr_Nf (c_frame c))] (FrameHdr_component mem) (0, 0, c))
      (\<lambda>(Hmax, Vmax, c).
        if fr_Nf (c_frame c) = 1 then
          Continue (1, 1, component_set 0 (\<lambda>k. k\<lparr>comp_H := 1, comp_V := 1\<rparr>) c)
        else if Hmax = 0 \<or> Vmax = 0 then Return (JPEGDEC_UNSUPPORTED, c)
        else Continue (Hmax, Vmax, c))"

text \<open>A 4:1:1 picture is a multiple of 32 pixels wide.\<close>

definition FrameHdr_wide :: "u32 \<times> u32 \<times> JpegDecContainer \<Rightarrow> (u32 \<times> u32 \<times> JpegDecContainer) step" where
  "FrameHdr_wide = (\<lambda>(Hmax, Vmax, c).
     if Hmax = 4 \<and> fr_hwX (c_frame c) AND 0x1F \<noteq> 0 then
       let c = c_frame_update (\<lambda>f. f\<lparr>fr_hwX := fr_hwX f + 16\<rparr>) c;
           c = c_info_update (\<lambda>i. i\<lparr>inf_X := fr_hwX (c_frame c)\<rparr>) c
       in if fr_hwX (c_frame c) > c_maxSupportedWidth c \<or>
             fr_hwX (c_frame c) * fr_hwY (c_frame c) > c_maxSupportedPixelAmount c
          then Return (JPEGDEC_UNSUPPORTED, c) else Continue (Hmax, Vmax, c)
     else Continue (Hmax, Vmax, c))"

text \<open>The sizes of the image and of the planes, and the count of MCUs.\<close>

definition FrameHdr_plane ::
  "u32 \<Rightarrow> u32 \<Rightarrow> u32 \<Rightarrow> u32 \<Rightarrow> nat \<Rightarrow> u32 \<times> JpegDecContainer \<Rightarrow> u32 \<times> JpegDecContainer" where
  "FrameHdr_plane Hmax Vmax width height i = (\<lambda>(sz, c).
     let k = fr_component (c_frame c) ! i;
         tmp1 = (width * comp_H k + Hmax - 1) div Hmax;
         tmp2 = (height * comp_V k + Vmax - 1) div Vmax;
         sz = sz + tmp1 * tmp2;
         c = c_image_update (\<lambda>m. m\<lparr>img_pixelsPerRow := (img_pixelsPerRow m)[i := tmp1],
               img_columns := (img_columns m)[i := tmp2]\<rparr>) c;
         c = c_frame_update (\<lambda>f. f\<lparr>fr_numBlocks := (fr_numBlocks f)[i :=
               drop_bit 3 (fr_hwX f * comp_H k div Hmax + 7) *
               drop_bit 3 (fr_hwY f * comp_V k div Vmax + 7)]\<rparr>) c;
         c = (if i = 0 then c_image_update (\<lambda>m. m\<lparr>img_sizeLuma := sz\<rparr>) c else c)
     in (sz, c))"

definition FrameHdr_layout :: "u32 \<times> u32 \<times> JpegDecContainer \<Rightarrow> JpegDecContainer" where
  "FrameHdr_layout = (\<lambda>(Hmax, Vmax, c).
     let width = (fr_hwX (c_frame c) + Hmax * 8 - 1) div (Hmax * 8) * Hmax * 8;
         height = (fr_hwY (c_frame c) + Vmax * 8 - 1) div (Vmax * 8) * Vmax * 8;
         c = c_frame_update (\<lambda>f. f\<lparr>fr_numMcuInRow := width div (8 * Hmax),
               fr_numMcuInFrame := width div (8 * Hmax) * (height div (8 * Vmax)),
               fr_mcuNumber := 0, fr_row := 0, fr_col := 0\<rparr>) c;
         (sz, c) = fold (FrameHdr_plane Hmax Vmax width height) [0..<unat (fr_Nf (c_frame c))] (0, c)
     in c_image_update (\<lambda>m. m\<lparr>img_size := sz, img_sizeChroma := sz - img_sizeLuma m\<rparr>) c)"

definition JpegDecDecodeFrameHdr :: "memory \<Rightarrow> JpegDecContainer \<Rightarrow> unit step" where
  "JpegDecDecodeFrameHdr mem c =
     andThen (FrameHdr_size mem c) (\<lambda>c.
     andThen (FrameHdr_components mem c) (\<lambda>hc.
     andThen (FrameHdr_wide hc) (\<lambda>hc.
       Return (JpegDecMode (FrameHdr_layout hc)))))"

section \<open>The sampling mode\<close>

text \<open>The supported sampling factors of the components and the mode of each.\<close>

definition mode_of :: "(u32 \<times> u32) list \<Rightarrow> u32 option" where
  "mode_of fs =
     (case fs of
        [hv] \<Rightarrow> if fst hv = 1 \<or> snd hv = 1 then Some JPEGDEC_YUV400 else None
      | [hv, cb, cr] \<Rightarrow>
          if cb \<noteq> (1, 1) \<or> cr \<noteq> (1, 1) then None
          else if hv = (2, 2) then Some JPEGDEC_YUV420
          else if hv = (2, 1) then Some JPEGDEC_YUV422
          else if hv = (1, 2) then Some JPEGDEC_YUV440
          else if hv = (1, 1) then Some JPEGDEC_YUV444
          else if hv = (4, 1) then Some JPEGDEC_YUV411
          else None
      | _ \<Rightarrow> None)"

definition factors :: "JpegDecContainer \<Rightarrow> (u32 \<times> u32) list" where
  "factors c = map (\<lambda>i. (comp_H (fr_component (c_frame c) ! i), comp_V (fr_component (c_frame c) ! i)))
     [0..<unat (fr_Nf (c_frame c))]"

lemma mode_parts [simp]:
  "c_frame (set_mode m c) = c_frame c" "c_stream (set_mode m c) = c_stream c"
  "inf_sliceMbSetValue (c_info (set_mode m c)) = inf_sliceMbSetValue (c_info c)"
  "c_frame (fillRight_if c) = c_frame c" "c_stream (fillRight_if c) = c_stream c"
  "c_frame (fillBottom_if c) = c_frame c" "c_stream (fillBottom_if c) = c_stream c"
  "c_frame (slice_size g c) = c_frame c" "c_stream (slice_size g c) = c_stream c"
  "c_info (slice_size g c) = c_info c"
  "c_frame (slice_size_400 c) = c_frame c" "c_stream (slice_size_400 c) = c_stream c"
  "c_info (slice_size_400 c) = c_info c"
  by (simp_all add: set_mode_def fillRight_if_def fillBottom_if_def slice_size_def slice_size_400_def Let_def)

lemma mode_info [simp]:
  "inf_yCbCrMode (c_info (set_mode m c)) = m"
  "inf_X (c_info (set_mode m c)) = fr_hwX (c_frame c)"
  "inf_Y (c_info (set_mode m c)) = fr_hwY (c_frame c)"
  "inf_sliceMbSetValue (c_info (fillRight_if c)) = inf_sliceMbSetValue (c_info c)"
  "inf_yCbCrMode (c_info (fillRight_if c)) = inf_yCbCrMode (c_info c)"
  "inf_X (c_info (fillRight_if c)) = inf_X (c_info c)" "inf_Y (c_info (fillRight_if c)) = inf_Y (c_info c)"
  "inf_sliceMbSetValue (c_info (fillBottom_if c)) = inf_sliceMbSetValue (c_info c)"
  "inf_yCbCrMode (c_info (fillBottom_if c)) = inf_yCbCrMode (c_info c)"
  "inf_X (c_info (fillBottom_if c)) = inf_X (c_info c)" "inf_Y (c_info (fillBottom_if c)) = inf_Y (c_info c)"
  by (simp_all add: set_mode_def fillRight_if_def fillBottom_if_def)

lemma sampling_pair:
  "sampling c i h v \<longleftrightarrow>
    (comp_H (fr_component (c_frame c) ! i), comp_V (fr_component (c_frame c) ! i)) = (h, v)"
  by (simp add: sampling_def)

lemma factors_3:
  "fr_Nf (c_frame c) = 3 \<Longrightarrow> factors c =
    [(comp_H (fr_component (c_frame c) ! 0), comp_V (fr_component (c_frame c) ! 0)),
     (comp_H (fr_component (c_frame c) ! 1), comp_V (fr_component (c_frame c) ! 1)),
     (comp_H (fr_component (c_frame c) ! 2), comp_V (fr_component (c_frame c) ! 2))]"
proof -
  have "[0..<unat (3 :: u32)] = [0, 1, 2]" by (simp add: upt_rec)
  then show "fr_Nf (c_frame c) = 3 \<Longrightarrow> ?thesis" by (simp add: factors_def)
qed

lemma factors_1:
  "fr_Nf (c_frame c) = 1 \<Longrightarrow> factors c =
    [(comp_H (fr_component (c_frame c) ! 0), comp_V (fr_component (c_frame c) ! 0))]"
  by (simp add: factors_def)

definition mode_result :: "u32 \<Rightarrow> JpegDecContainer \<Rightarrow> JpegDecRet \<times> JpegDecContainer \<Rightarrow> bool" where
  "mode_result m c r \<longleftrightarrow> fst r = JPEGDEC_OK
     \<and> c_frame (snd r) = c_frame c \<and> c_stream (snd r) = c_stream c
     \<and> inf_yCbCrMode (c_info (snd r)) = m \<and> inf_yCbCrModeOrig (c_info (snd r)) = m
     \<and> inf_X (c_info (snd r)) = fr_hwX (c_frame c) \<and> inf_Y (c_info (snd r)) = fr_hwY (c_frame c)"

lemma Mode_mode_of_1:
  assumes "fr_Nf (c_frame c) = 1"
  shows "case mode_of (factors c) of None \<Rightarrow> JpegDecMode c = (JPEGDEC_UNSUPPORTED, c)
    | Some m \<Rightarrow> mode_result m c (JpegDecMode c)"
  using assms by (auto simp: mode_of_def factors_1 JpegDecMode_def Let_def mode_result_def)

lemma Mode_mode_of_3:
  assumes "fr_Nf (c_frame c) = 3"
  shows "case mode_of (factors c) of None \<Rightarrow> JpegDecMode c = (JPEGDEC_UNSUPPORTED, c)
    | Some m \<Rightarrow> mode_result m c (JpegDecMode c)"
proof -
  define p0 where "p0 = (comp_H (fr_component (c_frame c) ! 0), comp_V (fr_component (c_frame c) ! 0))"
  define p1 where "p1 = (comp_H (fr_component (c_frame c) ! 1), comp_V (fr_component (c_frame c) ! 1))"
  define p2 where "p2 = (comp_H (fr_component (c_frame c) ! 2), comp_V (fr_component (c_frame c) ! 2))"
  have p: "sampling c 0 h v \<longleftrightarrow> p0 = (h, v)" "sampling c 1 h v \<longleftrightarrow> p1 = (h, v)"
    "sampling c 2 h v \<longleftrightarrow> p2 = (h, v)" for h v
    by (simp_all only: sampling_pair p0_def p1_def p2_def)
  have f: "factors c = [p0, p1, p2]" unfolding p0_def p1_def p2_def by (rule factors_3 [OF assms])
  show ?thesis
  proof (cases "p1 = (1, 1) \<and> p2 = (1, 1)")
    case False
    then show ?thesis unfolding JpegDecMode_def f p mode_of_def using assms by auto
  next
    case True
    then show ?thesis
      unfolding JpegDecMode_def f p mode_of_def by (auto simp: assms mode_result_def Let_def)
  qed
qed

lemma slice_size_image:
  assumes "inf_sliceMbSetValue (c_info c) \<noteq> 0"
  shows "img_sizeLuma (c_image (slice_size g c)) = inf_X (c_info c) * (inf_sliceMbSetValue (c_info c) * 16)"
    "img_sizeChroma (c_image (slice_size g c)) = g (inf_X (c_info c) * (inf_sliceMbSetValue (c_info c) * 16))"
  using assms by (simp_all add: slice_size_def Let_def)

lemma half_even:
  fixes l :: u32
  assumes "16 dvd unat l"
  shows "unat (l div 2) * 4 = 2 * unat l"
proof -
  obtain k where "unat l = 16 * k" using assms by (elim dvdE)
  then show ?thesis by (simp add: unat_div)
qed

lemma Mode_chroma:
  assumes "fr_Nf (c_frame c) = 3" "JpegDecMode c = (JPEGDEC_OK, c')"
    "inf_sliceMbSetValue (c_info c) \<noteq> 0"
    "l = fr_hwX (c_frame c) * (inf_sliceMbSetValue (c_info c) * 16)"
    "2 * unat l < 2 ^ 32"
  shows "img_sizeLuma (c_image c') = l \<and>
    unat (img_sizeChroma (c_image c')) * (unat (comp_H (fr_component (c_frame c) ! 0)) * unat (comp_V (fr_component (c_frame c) ! 0)))
     = 2 * unat l"
proof -
  have l16: "16 dvd unat l"
    unfolding assms(4) by (simp add: unat_word_ariths dvd_mod)
  have d: "unat (l * 2) = 2 * unat l" using assms(5) by (simp add: unat_word_ariths)
  show ?thesis
    using assms(2,3) half_even [OF l16] d
    unfolding JpegDecMode_def assms(4)
    by (auto simp add: assms(1) Let_def slice_size_image sampling_def split: if_splits)
qed


section \<open>The frame header\<close>

lemma getByte_parts [simp]:
  "c_frame (snd (getByte mem c)) = c_frame c" "c_info (snd (getByte mem c)) = c_info c"
  "c_scan (snd (getByte mem c)) = c_scan c" "c_image (snd (getByte mem c)) = c_image c"
  "c_frame (snd (get2Bytes mem c)) = c_frame c" "c_info (snd (get2Bytes mem c)) = c_info c"
  "c_scan (snd (get2Bytes mem c)) = c_scan c" "c_image (snd (get2Bytes mem c)) = c_image c"
  "c_quant (snd (getByte mem c)) = c_quant c" "c_vlc (snd (getByte mem c)) = c_vlc c"
  "c_quant (snd (get2Bytes mem c)) = c_quant c" "c_vlc (snd (get2Bytes mem c)) = c_vlc c"
  "c_quant (snd (getManyBytes mem n c)) = c_quant c" "c_vlc (snd (getManyBytes mem n c)) = c_vlc c"
  "c_frame (snd (getManyBytes mem n c)) = c_frame c"
  by (simp_all add: getByte_def get2Bytes_def getManyBytes_def split_def Let_def)

text \<open>The limits of the hardware that JpegDecInit puts into the container.\<close>

definition limits :: "JpegDecContainer \<Rightarrow> u32 list" where
  "limits c = [c_minSupportedWidth c, c_minSupportedHeight c, c_maxSupportedWidth c,
     c_maxSupportedHeight c, c_maxSupportedPixelAmount c]"

lemma limits_parts [simp]:
  "limits (snd (getByte mem c)) = limits c" "limits (snd (get2Bytes mem c)) = limits c"
  "limits (c_frame_update g c) = limits c" "limits (c_info_update h c) = limits c"
  "limits (c_scan_update k c) = limits c" "limits (c_image_update l c) = limits c"
  by (simp_all add: limits_def getByte_def get2Bytes_def split_def Let_def)

definition up16 :: "u32 \<Rightarrow> u32" where "up16 x = (x + 0xF) AND NOT 0xF"

definition within_limits :: "u32 list \<Rightarrow> u32 \<Rightarrow> u32 \<Rightarrow> bool" where
  "within_limits ls w h \<longleftrightarrow> ls ! 0 \<le> w \<and> ls ! 1 \<le> h \<and> w \<le> ls ! 2 \<and> h \<le> ls ! 3 \<and> w * h \<le> ls ! 4"

definition dims_ok :: "u32 list \<Rightarrow> JpegDecContainer \<Rightarrow> bool" where
  "dims_ok ls c \<longleftrightarrow> limits c = ls \<and> fr_P (c_frame c) = 8 \<and> 0 < fr_X (c_frame c) \<and> 0 < fr_Y (c_frame c)
     \<and> fr_hwX (c_frame c) = up16 (fr_X (c_frame c)) \<and> fr_hwY (c_frame c) = up16 (fr_Y (c_frame c))
     \<and> within_limits ls (fr_hwX (c_frame c)) (fr_hwY (c_frame c))
     \<and> (fr_Nf (c_frame c) = 3 \<or> fr_Nf (c_frame c) = 1) \<and> length (fr_component (c_frame c)) = 3"

text \<open>Reading changes the stream of the container and nothing else.\<close>

lemma ends_in_getByte [ends_in_intros]:
  "(\<And>v s. ends_in (F v (c\<lparr>c_stream := s\<rparr>)) P Q) \<Longrightarrow> ends_in (let (v, c) = getByte mem c in F v c) P Q"
  by (simp add: getByte_def Let_def split_def)

lemma ends_in_get2Bytes [ends_in_intros]:
  "(\<And>v s. ends_in (F v (c\<lparr>c_stream := s\<rparr>)) P Q) \<Longrightarrow> ends_in (let (v, c) = get2Bytes mem c in F v c) P Q"
  by (simp add: get2Bytes_def Let_def split_def)

lemma FrameHdr_size_ends:
  assumes "limits c = ls" "length (fr_component (c_frame c)) = 3"
  shows "ends_in (FrameHdr_size mem c) (dims_ok ls) (\<lambda>r. fst r \<noteq> JPEGDEC_OK)"
  unfolding FrameHdr_size_def
  by (intro ends_in_intros)
    (use assms in \<open>auto simp: dims_ok_def up16_def within_limits_def limits_def not_less word_gt_0\<close>)

definition max_factor :: "(Components \<Rightarrow> u32) \<Rightarrow> nat \<Rightarrow> JpegDecContainer \<Rightarrow> u32" where
  "max_factor g n c = foldl max 0 (map g (take n (fr_component (c_frame c))))"

definition hdr_ok :: "u32 list \<Rightarrow> u32 \<Rightarrow> nat \<Rightarrow> u32 \<times> u32 \<times> JpegDecContainer \<Rightarrow> bool" where
  "hdr_ok ls nf n = (\<lambda>(Hmax, Vmax, c). dims_ok ls c \<and> fr_Nf (c_frame c) = nf \<and>
     Hmax = max_factor comp_H n c \<and> Vmax = max_factor comp_V n c)"

lemma component_set_parts [simp]:
  "fr_component (c_frame (component_set i g c)) = (fr_component (c_frame c))[i := g (fr_component (c_frame c) ! i)]"
  "dims_ok ls (component_set i g c) = dims_ok ls c" "c_stream (component_set i g c) = c_stream c"
  "fr_Nf (c_frame (component_set i g c)) = fr_Nf (c_frame c)"
  by (simp_all add: component_set_def dims_ok_def limits_def)

lemma dims_ok_frame [simp]:
  "dims_ok ls (c\<lparr>c_stream := s\<rparr>) = dims_ok ls c" "dims_ok ls (c_scan_update f c) = dims_ok ls c"
  by (simp_all add: dims_ok_def limits_def)

lemma dims_ok_length: "dims_ok ls c \<Longrightarrow> length (fr_component (c_frame c)) = 3"
  by (simp add: dims_ok_def)

lemma max_factor_Suc:
  "i < length (fr_component (c_frame c)) \<Longrightarrow>
    max_factor g (Suc i) c = max (max_factor g i c) (g (fr_component (c_frame c) ! i))"
  by (simp add: max_factor_def take_Suc_conv_app_nth)

lemma max_factor_set [simp]:
  "n \<le> i \<Longrightarrow> max_factor g n (component_set i h c) = max_factor g n c"
  by (simp add: max_factor_def)

lemma max_factor_frame [simp]:
  "max_factor g n (c\<lparr>c_stream := s\<rparr>) = max_factor g n c"
  by (simp add: max_factor_def)

lemma scan_if [simp]:
  "c_frame (if b then c_scan_update f c else c) = c_frame c"
  "max_factor g n (if b then c_scan_update f c else c) = max_factor g n c"
  "dims_ok ls (if b then c_scan_update f c else c) = dims_ok ls c"
  by (simp_all add: max_factor_def)

lemma FrameHdr_component_ends:
  assumes "hdr_ok ls nf i hc" "i < 3"
  shows "ends_in (FrameHdr_component mem i hc) (hdr_ok ls nf (Suc i)) (\<lambda>r. fst r \<noteq> JPEGDEC_OK)"
proof -
  obtain Hmax Vmax c where hc: "hc = (Hmax, Vmax, c)" by (cases hc)
  have h: "dims_ok ls c" "fr_Nf (c_frame c) = nf" "length (fr_component (c_frame c)) = 3"
    "Hmax = max_factor comp_H i c" "Vmax = max_factor comp_V i c"
    using assms(1) dims_ok_length by (auto simp: hdr_ok_def hc)
  show ?thesis
    unfolding FrameHdr_component_def hc prod.case max_if
    by (intro ends_in_intros)
      (use h assms(2) in \<open>simp_all add: hdr_ok_def max_factor_Suc\<close>)
qed

lemma FrameHdr_components_ends:
  assumes "dims_ok ls c" 
  shows "ends_in (FrameHdr_components mem c)
    (\<lambda>(Hmax, Vmax, c). dims_ok ls c \<and>
       (fr_Nf (c_frame c) = 1 \<and> Hmax = 1 \<and> Vmax = 1 \<and> factors c = [(1, 1)] \<or>
        fr_Nf (c_frame c) = 3 \<and> 0 < Hmax \<and> 0 < Vmax \<and> Hmax = max_factor comp_H 3 c \<and> Vmax = max_factor comp_V 3 c))
    (\<lambda>r. fst r \<noteq> JPEGDEC_OK)"
proof -
  define nf where "nf = fr_Nf (c_frame c)"
  have nf: "nf = 3 \<or> nf = 1" using assms by (simp add: dims_ok_def nf_def)
  have le: "unat nf \<le> 3" using nf by auto
  have "ends_in (forEach [0..<unat nf] (FrameHdr_component mem) (0, 0, c)) (hdr_ok ls nf (unat nf))
     (\<lambda>r. fst r \<noteq> JPEGDEC_OK)"
  proof (rule ends_in_forEach_upt)
    show "hdr_ok ls nf 0 (0, 0, c)" using assms by (simp add: hdr_ok_def nf_def max_factor_def)
  qed (use le in \<open>auto intro: FrameHdr_component_ends\<close>)
  then show ?thesis
    unfolding FrameHdr_components_def nf_def [symmetric]
    by (rule ends_in_andThen) 
      (use nf in \<open>auto simp: hdr_ok_def factors_1 dims_ok_length word_gt_0\<close>)
qed

lemma up16_nat:
  assumes "0 < up16 x"
  shows "unat (up16 x) = (unat x + 15) div 16 * 16"
proof -
  have "unat (x + 15) = unat x + 15"
  proof (rule ccontr)
    assume a: "unat (x + 15) \<noteq> unat x + 15"
    then have "2 ^ 32 \<le> unat x + 15" using unat_add_lem [of x 15] by (simp add: not_less)
    then have "unat (x + 15) < 15"
      using u32_lt [of x] by (simp add: unat_word_ariths mod_if) linarith
    then have "unat (up16 x) = 0" by (simp add: up16_def and_not_mask4)
    then show False using assms by (simp add: unat_eq_zero)
  qed
  then show ?thesis by (simp add: up16_def and_not_mask4)
qed

lemma up16_bounds:
  assumes "0 < up16 x"
  shows "16 dvd unat (up16 x)" "unat x \<le> unat (up16 x)" "unat (up16 x) < unat x + 16"
  by (simp_all add: up16_nat [OF assms]) 

lemma mcu_count:
  fixes hw H :: u32
  assumes "unat hw < 2 ^ 17" "0 < H" "unat H \<le> 4"
  shows "unat ((hw + H * 8 - 1) div (H * 8) * H * 8 div (8 * H)) = (unat hw + 8 * unat H - 1) div (8 * unat H)"
proof -
  define h where "h = unat H"
  have h: "0 < h" "h \<le> 4" using assms(2,3) by (simp_all add: h_def word_less_nat_alt)
  have u1: "unat (8 * H) = 8 * h" "H * 8 = 8 * H"
    using h unat_times8 [of H] by (simp_all add: h_def)
  have u2: "unat (hw + 8 * H) = unat hw + 8 * h"
    using assms(1) h u1 by (subst unat_add_lem [THEN iffD1]) simp_all
  have u3: "unat (hw + 8 * H - 1) = unat hw + 8 * h - 1"
    using u2 h by (subst unat_sub) (simp_all add: word_le_nat_alt)
  define q where "q = (hw + 8 * H - 1) div (8 * H)"
  have q: "unat q = (unat hw + 8 * h - 1) div (8 * h)"
    unfolding q_def unat_div u3 u1 ..
  have "unat q * (8 * h) \<le> unat hw + 8 * h - 1" unfolding q by (rule div_times_less_eq_dividend)
  moreover have "unat hw < 131072" using assms(1) by simp
  ultimately have "unat q * (8 * h) < 4294967296" using h by linarith
  then have "unat (q * (8 * H)) = unat q * (8 * h)"
    using u1 by (subst unat_mult_lem [THEN iffD1]) simp_all
  then have "unat (q * (8 * H) div (8 * H)) = unat q"
    unfolding unat_div u1 using h by simp
  moreover have "(hw + H * 8 - 1) div (H * 8) * H * 8 = q * (8 * H)"
    by (simp only: q_def u1(2) mult.assoc)
  ultimately show ?thesis
    unfolding q h_def [symmetric] by simp
qed

text \<open>What a frame header that was accepted establishes.\<close>

definition frame_ok :: "u32 list \<Rightarrow> JpegDecContainer \<Rightarrow> bool" where
  "frame_ok ls c \<longleftrightarrow>
     (let f = c_frame c; (h, v) = hd (factors c) in
      fr_P f = 8 \<and> 0 < fr_X f \<and> 0 < fr_Y f \<and> within_limits ls (fr_hwX f) (fr_hwY f) \<and>
      16 dvd unat (fr_hwX f) \<and> unat (fr_X f) \<le> unat (fr_hwX f) \<and> unat (fr_hwX f) < unat (fr_X f) + 32 \<and>
      16 dvd unat (fr_hwY f) \<and> unat (fr_Y f) \<le> unat (fr_hwY f) \<and> unat (fr_hwY f) < unat (fr_Y f) + 16 \<and>
      mode_of (factors c) = Some (inf_yCbCrMode (c_info c)) \<and>
      inf_X (c_info c) = fr_hwX f \<and> inf_Y (c_info c) = fr_hwY f \<and>
      unat (fr_numMcuInRow f) = (unat (fr_hwX f) + 8 * unat h - 1) div (8 * unat h) \<and>
      unat (fr_numMcuInFrame f) = unat (fr_numMcuInRow f) * ((unat (fr_hwY f) + 8 * unat v - 1) div (8 * unat v)))"

definition same_but_blocks :: "JpegDecContainer \<Rightarrow> JpegDecContainer \<Rightarrow> bool" where
  "same_but_blocks c c' \<longleftrightarrow> c_info c' = c_info c \<and> c_stream c' = c_stream c \<and> limits c' = limits c \<and>
     (\<exists>nb. c_frame c' = c_frame c\<lparr>fr_numBlocks := nb\<rparr>)"

lemma FrameHdr_planes_frame:
  "same_but_blocks c (snd (fold (FrameHdr_plane Hmax Vmax w h) xs (0, c)))"
proof (rule fold_invariant [where Q = "\<lambda>_. True" and P = "\<lambda>sc. same_but_blocks c (snd sc)"])
  show "same_but_blocks c (snd (0, c))"
    by (simp add: same_but_blocks_def) (rule exI [of _ "fr_numBlocks (c_frame c)"], simp)
next
  fix x and s :: "u32 \<times> JpegDecContainer" assume "same_but_blocks c (snd s)"
  then obtain nb where nb: "c_frame (snd s) = c_frame c\<lparr>fr_numBlocks := nb\<rparr>" "c_info (snd s) = c_info c"
    "c_stream (snd s) = c_stream c" "limits (snd s) = limits c" unfolding same_but_blocks_def by auto
  obtain sz d where s: "s = (sz, d)" by (cases s)
  show "same_but_blocks c (snd (FrameHdr_plane Hmax Vmax w h x s))"
    using nb by (auto simp: FrameHdr_plane_def Let_def same_but_blocks_def s)
qed simp

lemma FrameHdr_layout_frame:
  fixes Hmax Vmax :: u32 and c :: JpegDecContainer
  defines "c' \<equiv> FrameHdr_layout (Hmax, Vmax, c)"
  shows "c_info c' = c_info c" "limits c' = limits c" "c_stream c' = c_stream c"
    "fr_P (c_frame c') = fr_P (c_frame c)" "fr_X (c_frame c') = fr_X (c_frame c)" "fr_Y (c_frame c') = fr_Y (c_frame c)"
    "fr_hwX (c_frame c') = fr_hwX (c_frame c)" "fr_hwY (c_frame c') = fr_hwY (c_frame c)" "fr_Nf (c_frame c') = fr_Nf (c_frame c)"
    "fr_component (c_frame c') = fr_component (c_frame c)"
    "fr_numMcuInRow (c_frame c') = (fr_hwX (c_frame c) + Hmax * 8 - 1) div (Hmax * 8) * Hmax * 8 div (8 * Hmax)"
    "fr_numMcuInFrame (c_frame c') = fr_numMcuInRow (c_frame c') *
      ((fr_hwY (c_frame c) + Vmax * 8 - 1) div (Vmax * 8) * Vmax * 8 div (8 * Vmax))"
proof -
  define W where "W = (fr_hwX (c_frame c) + Hmax * 8 - 1) div (Hmax * 8) * Hmax * 8"
  define H where "H = (fr_hwY (c_frame c) + Vmax * 8 - 1) div (Vmax * 8) * Vmax * 8"
  define c1 where "c1 = c_frame_update (\<lambda>f. f\<lparr>fr_numMcuInRow := W div (8 * Hmax),
               fr_numMcuInFrame := W div (8 * Hmax) * (H div (8 * Vmax)),
               fr_mcuNumber := 0, fr_row := 0, fr_col := 0\<rparr>) c"
  define sc where "sc = fold (FrameHdr_plane Hmax Vmax W H) [0..<unat (fr_Nf (c_frame c1))] (0, c1)"
  have "same_but_blocks c1 (snd sc)" unfolding sc_def by (rule FrameHdr_planes_frame)
  then obtain nb where nb: "c_frame (snd sc) = c_frame c1\<lparr>fr_numBlocks := nb\<rparr>" "c_info (snd sc) = c_info c1"
    "c_stream (snd sc) = c_stream c1" "limits (snd sc) = limits c1" unfolding same_but_blocks_def by auto
  have c': "c' = c_image_update (\<lambda>m. m\<lparr>img_size := fst sc, img_sizeChroma := fst sc - img_sizeLuma m\<rparr>) (snd sc)"
    unfolding c'_def sc_def c1_def W_def H_def
    by (simp only: FrameHdr_layout_def split_def Let_def fst_conv snd_conv)
  show "c_info c' = c_info c" "limits c' = limits c" "c_stream c' = c_stream c"
    "fr_P (c_frame c') = fr_P (c_frame c)" "fr_X (c_frame c') = fr_X (c_frame c)" "fr_Y (c_frame c') = fr_Y (c_frame c)"
    "fr_hwX (c_frame c') = fr_hwX (c_frame c)" "fr_hwY (c_frame c') = fr_hwY (c_frame c)" "fr_Nf (c_frame c') = fr_Nf (c_frame c)"
    "fr_component (c_frame c') = fr_component (c_frame c)"
    "fr_numMcuInRow (c_frame c') = (fr_hwX (c_frame c) + Hmax * 8 - 1) div (Hmax * 8) * Hmax * 8 div (8 * Hmax)"
    "fr_numMcuInFrame (c_frame c') = fr_numMcuInRow (c_frame c') *
      ((fr_hwY (c_frame c) + Vmax * 8 - 1) div (Vmax * 8) * Vmax * 8 div (8 * Vmax))"
    unfolding c' using nb by (simp_all add: c1_def W_def H_def)
qed

definition sane_limits :: "u32 list \<Rightarrow> bool" where
  "sane_limits ls \<longleftrightarrow> 0 < ls ! 0 \<and> 0 < ls ! 1 \<and> unat (ls ! 2) < 2 ^ 16 \<and> unat (ls ! 3) < 2 ^ 16"

definition hdr_wide_ok :: "u32 list \<Rightarrow> u32 \<times> u32 \<times> JpegDecContainer \<Rightarrow> bool" where
  "hdr_wide_ok ls = (\<lambda>(Hmax, Vmax, c). let f = c_frame c in
     fr_P f = 8 \<and> 0 < fr_X f \<and> 0 < fr_Y f \<and> within_limits ls (fr_hwX f) (fr_hwY f) \<and>
      16 dvd unat (fr_hwX f) \<and> unat (fr_X f) \<le> unat (fr_hwX f) \<and> unat (fr_hwX f) < unat (fr_X f) + 32 \<and>
      16 dvd unat (fr_hwY f) \<and> unat (fr_Y f) \<le> unat (fr_hwY f) \<and> unat (fr_hwY f) < unat (fr_Y f) + 16 \<and>
      (fr_Nf f = 1 \<and> Hmax = 1 \<and> Vmax = 1 \<and> factors c = [(1, 1)] \<or>
       fr_Nf f = 3 \<and> 0 < Hmax \<and> 0 < Vmax \<and> Hmax = max_factor comp_H 3 c \<and> Vmax = max_factor comp_V 3 c \<and>
         length (fr_component f) = 3))"

lemma FrameHdr_wide_ends:
  assumes "dims_ok ls c" "sane_limits ls"
    "fr_Nf (c_frame c) = 1 \<and> Hmax = 1 \<and> Vmax = 1 \<and> factors c = [(1, 1)] \<or>
        fr_Nf (c_frame c) = 3 \<and> 0 < Hmax \<and> 0 < Vmax \<and> Hmax = max_factor comp_H 3 c \<and> Vmax = max_factor comp_V 3 c"
  shows "ends_in (FrameHdr_wide (Hmax, Vmax, c)) (hdr_wide_ok ls) (\<lambda>r. fst r \<noteq> JPEGDEC_OK)"
proof -
  define f where "f = c_frame c"
  have d: "limits c = ls" "fr_P f = 8" "0 < fr_X f" "0 < fr_Y f" "fr_hwX f = up16 (fr_X f)" "fr_hwY f = up16 (fr_Y f)"
    "within_limits ls (fr_hwX f) (fr_hwY f)" "length (fr_component f) = 3"
    using assms(1) unfolding dims_ok_def f_def by blast+
  have pos: "0 < fr_hwX f" "0 < fr_hwY f" 
    using d(7) assms(2) by (auto simp: within_limits_def sane_limits_def)
  note bx = up16_bounds [OF pos(1) [unfolded d(5)], folded d(5)]
  note by' = up16_bounds [OF pos(2) [unfolded d(6)], folded d(6)]
  have lt: "unat (fr_hwX f) < 2 ^ 16"
    using d(7) assms(2) by (auto simp: within_limits_def sane_limits_def word_le_nat_alt)
  have u: "unat (fr_hwX f + 16) = unat (fr_hwX f) + 16"
    using lt by (subst unat_add_lem [THEN iffD1]) simp_all
  have ls: "c_maxSupportedWidth c = ls ! 2" "c_maxSupportedPixelAmount c = ls ! 4"
    using d(1) by (auto simp: limits_def)
  have le: "fr_hwX f \<le> fr_hwX f + 16" using u by (simp add: word_le_nat_alt)
  show ?thesis
    unfolding FrameHdr_wide_def prod.case
    apply (intro ends_in_intros)
    subgoal using assms(3) by simp
    subgoal using assms(3) d bx by' u ls le
      by (auto simp: hdr_wide_ok_def Let_def within_limits_def f_def [symmetric] not_less max_factor_def factors_def)
    subgoal using assms(3) d bx by' unfolding f_def by (auto simp: hdr_wide_ok_def Let_def)
    done
qed

lemma mode_of_3:
  assumes "mode_of [p0, p1, p2] = Some m"
  shows "p1 = (1, 1)" "p2 = (1, 1)" "fst p0 = 1 \<or> fst p0 = 2 \<or> fst p0 = 4" "snd p0 = 1 \<or> snd p0 = 2"
  using assms by (auto simp: mode_of_def split: if_splits)

lemma max_factor_3:
  assumes "length (fr_component (c_frame c)) = 3"
  shows "max_factor g 3 c = max (max (g (fr_component (c_frame c) ! 0)) (g (fr_component (c_frame c) ! 1)))
    (g (fr_component (c_frame c) ! 2))"
proof -
  obtain a b d where "fr_component (c_frame c) = [a, b, d]"
    using assms by (auto simp: numeral_3_eq_3 length_Suc_conv)
  then show ?thesis by (simp add: max_factor_def max_def)
qed

lemma hdr_wide_factors:
  assumes "hdr_wide_ok ls (Hmax, Vmax, c)" "mode_of (factors c) = Some m"
  shows "hd (factors c) = (Hmax, Vmax)" "0 < Hmax" "unat Hmax \<le> 4" "0 < Vmax" "unat Vmax \<le> 4"
    "fr_Nf (c_frame c) = 3 \<or> fr_Nf (c_frame c) = 1"
proof -
  have "hd (factors c) = (Hmax, Vmax) \<and> 0 < Hmax \<and> unat Hmax \<le> 4 \<and> 0 < Vmax \<and> unat Vmax \<le> 4"
  proof (cases "fr_Nf (c_frame c) = 3")
    case True
    note m = mode_of_3 [OF assms(2) [unfolded factors_3 [OF True]]]
    have "Hmax = max_factor comp_H 3 c" "Vmax = max_factor comp_V 3 c" "length (fr_component (c_frame c)) = 3"
      using assms(1) True by (auto simp: hdr_wide_ok_def Let_def)
    then show ?thesis
      using m unfolding factors_3 [OF True] max_factor_3 [OF \<open>length _ = 3\<close>]
      by (auto simp: max_def word_le_nat_alt)
  next
    case False
    then show ?thesis using assms(1) by (auto simp: hdr_wide_ok_def Let_def)
  qed
  then show "hd (factors c) = (Hmax, Vmax)" "0 < Hmax" "unat Hmax \<le> 4" "0 < Vmax" "unat Vmax \<le> 4" by blast+
  show "fr_Nf (c_frame c) = 3 \<or> fr_Nf (c_frame c) = 1"
    using assms(1) by (auto simp: hdr_wide_ok_def Let_def)
qed

lemma FrameHdr_layout_factors: "factors (FrameHdr_layout (Hmax, Vmax, c)) = factors c"
  by (simp add: factors_def FrameHdr_layout_frame)

lemma Mode_ok:
  assumes "JpegDecMode c = (JPEGDEC_OK, c')" "fr_Nf (c_frame c) = 3 \<or> fr_Nf (c_frame c) = 1"
  shows "\<exists>m. mode_of (factors c) = Some m \<and> mode_result m c (JPEGDEC_OK, c')"
  using assms Mode_mode_of_1 [of c] Mode_mode_of_3 [of c] by (auto split: option.splits)

lemma mcu_small:
  fixes n h :: nat
  assumes "n < 2 ^ 16" "0 < h" "h \<le> 4"
  shows "(n + 8 * h - 1) div (8 * h) < 2 ^ 14"
proof -
  have "(n + 8 * h - 1) div (8 * h) \<le> (n + 8 * h - 1) div 8"
    by (rule div_le_mono2) (use assms(2) in simp_all)
  also have "\<dots> \<le> 65567 div 8" by (rule div_le_mono) (use assms in simp)
  finally show ?thesis by simp
qed

lemma FrameHdr_final:
  assumes w: "hdr_wide_ok ls (Hmax, Vmax, c)" and ls: "sane_limits ls"
    and m: "JpegDecMode (FrameHdr_layout (Hmax, Vmax, c)) = (JPEGDEC_OK, c')"
  shows "frame_ok ls c'"
proof -
  let ?l = "FrameHdr_layout (Hmax, Vmax, c)"
  note l = FrameHdr_layout_frame [of Hmax Vmax c]
  have "fr_Nf (c_frame ?l) = 3 \<or> fr_Nf (c_frame ?l) = 1"
    using w by (auto simp: l hdr_wide_ok_def Let_def)
  from Mode_ok [OF m this] obtain md where md: "mode_of (factors c) = Some md" "mode_result md ?l (JPEGDEC_OK, c')"
    by (auto simp: FrameHdr_layout_factors)
  note f = hdr_wide_factors [OF w md(1)]
  have c': "c_frame c' = c_frame ?l" "inf_yCbCrMode (c_info c') = md" "inf_X (c_info c') = fr_hwX (c_frame c)"
    "inf_Y (c_info c') = fr_hwY (c_frame c)" using md(2) by (simp_all add: mode_result_def l)
  have fac: "factors c' = factors c"
    using FrameHdr_layout_factors [of Hmax Vmax c] c'(1) by (simp add: factors_def)
  have hw: "unat (fr_hwX (c_frame c)) < 2 ^ 16" "unat (fr_hwY (c_frame c)) < 2 ^ 16"
    using w ls by (auto simp: hdr_wide_ok_def Let_def within_limits_def sane_limits_def word_le_nat_alt)
  define q where "q = unat (fr_numMcuInRow (c_frame ?l))"
  have q: "q = (unat (fr_hwX (c_frame c)) + 8 * unat Hmax - 1) div (8 * unat Hmax)"
    unfolding q_def l(11) by (rule mcu_count) (use hw f in simp_all)
  define r where "r = (unat (fr_hwY (c_frame c)) + 8 * unat Vmax - 1) div (8 * unat Vmax)"
  have r: "unat ((fr_hwY (c_frame c) + Vmax * 8 - 1) div (Vmax * 8) * Vmax * 8 div (8 * Vmax)) = r"
    unfolding r_def by (rule mcu_count) (use hw f in simp_all)
  have "q < 2 ^ 14" "r < 2 ^ 14"
    unfolding q r_def by (rule mcu_small; use hw f in \<open>simp add: word_less_nat_alt\<close>)+
  then have "q * r < 2 ^ 14 * 2 ^ 14" by (intro mult_strict_mono) simp_all
  then have "q * r < 2 ^ 32" by simp
  then have n: "unat (fr_numMcuInFrame (c_frame ?l)) = q * r"
    unfolding l(12) q_def r [symmetric] by (intro u32_mult) simp
  show ?thesis
    using w md(1) f(1) q n unfolding frame_ok_def Let_def c' fac
    by (simp add: hdr_wide_ok_def Let_def l q_def r_def)
qed

lemma FrameHdr_ends:
  assumes "limits c = ls" "length (fr_component (c_frame c)) = 3" "sane_limits ls"
  shows "ends_in (JpegDecDecodeFrameHdr mem c) (\<lambda>_. False) (\<lambda>r. fst r = JPEGDEC_OK \<longrightarrow> frame_ok ls (snd r))"
  unfolding JpegDecDecodeFrameHdr_def
proof (intro ends_in_andThen)
  let ?Q = "\<lambda>r. fst r = JPEGDEC_OK \<longrightarrow> frame_ok ls (snd r)"
  show "ends_in (FrameHdr_size mem c) (dims_ok ls) ?Q"
    by (rule ends_in_mono [OF FrameHdr_size_ends [OF assms(1,2)]]) auto
  show "ends_in (FrameHdr_components mem c1) (\<lambda>(Hmax, Vmax, c). dims_ok ls c \<and>
       (fr_Nf (c_frame c) = 1 \<and> Hmax = 1 \<and> Vmax = 1 \<and> factors c = [(1, 1)] \<or>
        fr_Nf (c_frame c) = 3 \<and> 0 < Hmax \<and> 0 < Vmax \<and> Hmax = max_factor comp_H 3 c \<and> Vmax = max_factor comp_V 3 c)) ?Q"
    if "dims_ok ls c1" for c1
    by (rule ends_in_mono [OF FrameHdr_components_ends [OF that]]) auto
  show "ends_in (FrameHdr_wide hc) (hdr_wide_ok ls) ?Q"
    if "case hc of (Hmax, Vmax, c) \<Rightarrow> dims_ok ls c \<and>
       (fr_Nf (c_frame c) = 1 \<and> Hmax = 1 \<and> Vmax = 1 \<and> factors c = [(1, 1)] \<or>
        fr_Nf (c_frame c) = 3 \<and> 0 < Hmax \<and> 0 < Vmax \<and> Hmax = max_factor comp_H 3 c \<and> Vmax = max_factor comp_V 3 c)" for hc
    using that by (cases hc) (auto intro: ends_in_mono [OF FrameHdr_wide_ends [OF _ assms(3)]])
  show "ends_in (Return (JpegDecMode (FrameHdr_layout hc))) (\<lambda>_. False) ?Q" if "hdr_wide_ok ls hc" for hc
    using that FrameHdr_final [OF _ assms(3)]
    by (cases hc; cases "JpegDecMode (FrameHdr_layout hc)") auto
qed

section \<open>Reading whole bytes\<close>

lemma getByte_eq:
  "strm_bytes_ok (c_stream c) \<Longrightarrow> getByte mem c =
    (if 0 < strm_left (c_stream c)
     then (strm_at mem (c_stream c) 0, c\<lparr>c_stream := strm_adv (Suc 0) (c_stream c)\<rparr>)
     else (STRM_ERROR, c))"
  by (simp add: getByte_def GetByte_source)

lemma getManyBytes_eq:
  assumes "strm_bytes_ok (c_stream c)" "n \<le> strm_left (c_stream c)"
  shows "getManyBytes mem n c =
    (map (strm_at mem (c_stream c)) [0..<n], c\<lparr>c_stream := strm_adv n (c_stream c)\<rparr>)"
  using assms by (simp add: getManyBytes_def getBytes_gets strm.gets_enough)

lemma get2Bytes_eq:
  assumes "strm_bytes_ok (c_stream c)" "2 \<le> strm_left (c_stream c)"
  shows "get2Bytes mem c =
    (push_bit 8 (strm_at mem (c_stream c) 0) OR strm_at mem (c_stream c) 1,
     c\<lparr>c_stream := strm_adv 2 (c_stream c)\<rparr>)"
proof -
  let ?s = "c_stream c"
  have ok: "strm_ok ?s" "st_bitPosInByte ?s = 0" using assms(1) by (simp_all add: strm_bytes_ok_def)
  have room: "unat (st_readBits ?s) + 16 \<le> 8 * unat (st_streamLength ?s)"
    using assms(2) strm_ok_nat(1) [OF ok(1)] ok(2) by (simp add: strm_left_def)
  have a: "strm_bytes_ok (strm_adv (Suc 0) ?s)" "strm_left (strm_adv (Suc 0) ?s) = strm_left ?s - 1"
    using strm_adv_ok [OF assms(1), of "Suc 0"] assms(2) by simp_all
  show ?thesis
    using assms(2) a
    by (simp add: get2Bytes_def Get2Bytes_GetByte [OF ok(1) room] GetByte_source [OF assms(1)]
        GetByte_source [OF a(1)] strm_at_adv strm_adv_adv numeral_2_eq_2)
qed

lemma getByte_ok: "strm_bytes_ok (c_stream c) \<Longrightarrow> strm_bytes_ok (c_stream (snd (getByte mem c)))"
  using strm_adv_ok [of "c_stream c" "Suc 0"] by (simp add: getByte_eq)

lemma getManyBytes_ok:
  assumes "strm_bytes_ok (c_stream c)"
  shows "strm_bytes_ok (c_stream (snd (getManyBytes mem n c)))"
    "strm_left (c_stream (snd (getManyBytes mem n c))) = strm_left (c_stream c) - n"
proof -
  have "strm_bytes_ok (strm_adv (min n (strm_left (c_stream c))) (c_stream c))"
    "strm_left (strm_adv (min n (strm_left (c_stream c))) (c_stream c)) = strm_left (c_stream c) - min n (strm_left (c_stream c))"
    using strm_adv_ok [OF assms] by simp_all
  then show "strm_bytes_ok (c_stream (snd (getManyBytes mem n c)))"
    "strm_left (c_stream (snd (getManyBytes mem n c))) = strm_left (c_stream c) - n"
    using assms by (simp_all add: getManyBytes_def split_def Let_def getBytes_gets strm.gets_eq)
qed

section \<open>Properties\<close>

text \<open>A container as JpegDecInit leaves it, in front of a stream.\<close>

definition demo_container :: "u8 list \<Rightarrow> JpegDecContainer" where
  "demo_container bs = zero_JpegDecContainer\<lparr>c_stream := stream_of 0 (of_nat (length bs)),
     c_minSupportedWidth := 48, c_minSupportedHeight := 48, c_maxSupportedWidth := 4672,
     c_maxSupportedHeight := 4672, c_maxSupportedPixelAmount := 16370688\<rparr>"

definition sof_bytes :: "u8 list" where
  "sof_bytes = [0x00, 0x11, 0x08, 0x00, 0x64, 0x00, 0xC8, 0x03, 0x01, 0x22, 0x00, 0x02, 0x11, 0x01,
     0x03, 0x11, 0x01, 0, 0, 0]"

lemma mode_of_length: "length fs \<noteq> 1 \<Longrightarrow> length fs \<noteq> 3 \<Longrightarrow> mode_of fs = None"
  by (auto simp: mode_of_def split: list.splits)

text \<open>
  JpegDecMode accepts exactly the sampling factors 2x2, 2x1, 1x2, 1x1 and 4x1 of luma with
  unsampled chroma, and a single component whose horizontal or vertical factor is one; it stores
  the mode twice and the padded dimensions, and rejects everything else without a change.
\<close>

theorem Mode_classifies:
  "case mode_of (factors c) of None \<Rightarrow> JpegDecMode c = (JPEGDEC_UNSUPPORTED, c)
   | Some m \<Rightarrow> mode_result m c (JpegDecMode c)"
proof -
  consider "fr_Nf (c_frame c) = 1" | "fr_Nf (c_frame c) = 3"
    | "fr_Nf (c_frame c) \<noteq> 1" "fr_Nf (c_frame c) \<noteq> 3" by blast
  then show ?thesis
  proof cases
    case 3
    then have "length (factors c) \<noteq> 1" "length (factors c) \<noteq> 3"
      by (auto simp: factors_def word_unat_eq_iff)
    then show ?thesis using 3 by (simp add: mode_of_length JpegDecMode_def Let_def)
  qed (use Mode_mode_of_1 Mode_mode_of_3 in auto)
qed

text \<open>
  In slice mode the chroma size that JpegDecMode computes is the one the sampling factors
  ask for: two planes, each smaller than luma by the product of the luma factors.
\<close>

theorem Mode_chroma_size:
  assumes "fr_Nf (c_frame c) = 3" "JpegDecMode c = (JPEGDEC_OK, c')"
    "inf_sliceMbSetValue (c_info c) \<noteq> 0"
    "l = fr_hwX (c_frame c) * (inf_sliceMbSetValue (c_info c) * 16)" "2 * unat l < 2 ^ 32"
  shows "img_sizeLuma (c_image c') = l \<and>
    unat (img_sizeChroma (c_image c')) * (unat (comp_H (fr_component (c_frame c) ! 0)) *
      unat (comp_V (fr_component (c_frame c) ! 0))) = 2 * unat l"
  by (rule Mode_chroma [OF assms])

definition demo_411 :: JpegDecContainer where
  "demo_411 = zero_JpegDecContainer\<lparr>
     c_frame := zero_FrameInfo\<lparr>fr_Nf := 3, fr_hwX := 64, fr_component :=
       [zero_Components\<lparr>comp_H := 4, comp_V := 1\<rparr>, zero_Components\<lparr>comp_H := 1, comp_V := 1\<rparr>,
        zero_Components\<lparr>comp_H := 1, comp_V := 1\<rparr>]\<rparr>,
     c_info := zero_DecInfo\<lparr>inf_sliceMbSetValue := 2\<rparr>\<rparr>"

lemma demo_411_ok: "JpegDecMode demo_411 = (JPEGDEC_OK, snd (JpegDecMode demo_411))"
proof -
  have "fst (JpegDecMode demo_411) = JPEGDEC_OK" by code_simp
  then show ?thesis by (cases "JpegDecMode demo_411") simp
qed

lemma Mode_chroma_size_witness:
  "img_sizeLuma (c_image (snd (JpegDecMode demo_411))) = 2048 \<and>
   img_sizeChroma (c_image (snd (JpegDecMode demo_411))) = 1024"
proof -
  have "img_sizeLuma (c_image (snd (JpegDecMode demo_411))) = 2048 \<and>
    unat (img_sizeChroma (c_image (snd (JpegDecMode demo_411)))) * (4 * 1) = 2 * 2048"
    using Mode_chroma_size [OF _ demo_411_ok, of 2048] by (simp add: demo_411_def zero_defs)
  then show ?thesis by (simp add: word_unat_eq_iff)
qed

text \<open>
  C4. JpegDecDecodeFrameHdr is defined on every stream and always returns. When it returns
  JPEGDEC_OK the frame is coherent: 8-bit samples, dimensions within the limits of the hardware
  and rounded up to whole macroblocks (to 32 pixels for 4:1:1), a supported sampling mode, and as
  many MCUs per row and per frame as cover the padded image.
\<close>

theorem FrameHdr_accepts_only_coherent_frames:
  assumes "limits c = ls" "sane_limits ls" "length (fr_component (c_frame c)) = 3"
  shows "\<exists>ret c'. JpegDecDecodeFrameHdr mem c = Return (ret, c') \<and>
    (ret = JPEGDEC_OK \<longrightarrow> frame_ok ls c')"
  using FrameHdr_ends [OF assms(1,3,2), of mem]
  by (cases "JpegDecDecodeFrameHdr mem c") auto

lemma FrameHdr_demo: "case JpegDecDecodeFrameHdr (memory_of 0 sof_bytes) (demo_container sof_bytes) of
    Return (r, c) \<Rightarrow> r = JPEGDEC_OK | _ \<Rightarrow> False"
  by code_simp

lemma FrameHdr_accepts_only_coherent_frames_witness:
  "\<exists>c'. JpegDecDecodeFrameHdr (memory_of 0 sof_bytes) (demo_container sof_bytes) = Return (JPEGDEC_OK, c') \<and>
     frame_ok [48, 48, 4672, 4672, 16370688] c'"
  using FrameHdr_accepts_only_coherent_frames
      [of "demo_container sof_bytes" "[48, 48, 4672, 4672, 16370688]" "memory_of 0 sof_bytes"] FrameHdr_demo
  by (auto simp: demo_container_def limits_def sane_limits_def zero_defs)

end
