(* ===== verification/Tables.thy ===== *)
theory Tables
  imports Headers
begin

text \<open>
  The tables of jpegdechdrs.c: JpegDecDecodeQuantTables and JpegDecDecodeHuffmanTables read the
  DQT and DHT segments, JpegDefaultHuffmanTables sets the standard tables of the JPEG standard
  for streams that carry none.
\<close>

section \<open>Table selectors\<close>

fun quant_get :: "quant_id \<Rightarrow> QuantTables \<Rightarrow> u32 list" where
  "quant_get Q0 q = qt_table0 q"
| "quant_get Q1 q = qt_table1 q"
| "quant_get Q2 q = qt_table2 q"
| "quant_get Q3 q = qt_table3 q"

fun quant_set :: "quant_id \<Rightarrow> u32 list \<Rightarrow> QuantTables \<Rightarrow> QuantTables" where
  "quant_set Q0 t q = q\<lparr>qt_table0 := t\<rparr>"
| "quant_set Q1 t q = q\<lparr>qt_table1 := t\<rparr>"
| "quant_set Q2 t q = q\<lparr>qt_table2 := t\<rparr>"
| "quant_set Q3 t q = q\<lparr>qt_table3 := t\<rparr>"

lemma quant_get_set [simp]: "quant_get i (quant_set j t q) = (if i = j then t else quant_get i q)"
  by (cases i; cases j) auto

fun vlc_get :: "vlc_id \<Rightarrow> HuffmanTables \<Rightarrow> VlcTable" where
  "vlc_get AC0 h = vlc_acTable0 h"
| "vlc_get AC1 h = vlc_acTable1 h"
| "vlc_get AC2 h = vlc_acTable2 h"
| "vlc_get AC3 h = vlc_acTable3 h"
| "vlc_get DC0 h = vlc_dcTable0 h"
| "vlc_get DC1 h = vlc_dcTable1 h"
| "vlc_get DC2 h = vlc_dcTable2 h"
| "vlc_get DC3 h = vlc_dcTable3 h"

fun vlc_set :: "vlc_id \<Rightarrow> VlcTable \<Rightarrow> HuffmanTables \<Rightarrow> HuffmanTables" where
  "vlc_set AC0 t h = h\<lparr>vlc_acTable0 := t\<rparr>"
| "vlc_set AC1 t h = h\<lparr>vlc_acTable1 := t\<rparr>"
| "vlc_set AC2 t h = h\<lparr>vlc_acTable2 := t\<rparr>"
| "vlc_set AC3 t h = h\<lparr>vlc_acTable3 := t\<rparr>"
| "vlc_set DC0 t h = h\<lparr>vlc_dcTable0 := t\<rparr>"
| "vlc_set DC1 t h = h\<lparr>vlc_dcTable1 := t\<rparr>"
| "vlc_set DC2 t h = h\<lparr>vlc_dcTable2 := t\<rparr>"
| "vlc_set DC3 t h = h\<lparr>vlc_dcTable3 := t\<rparr>"

lemma vlc_get_set [simp]: "vlc_get i (vlc_set j t h) = (if i = j then t else vlc_get i h)"
  by (cases i; cases j) auto

section \<open>JpegDecDecodeQuantTables\<close>

definition quant_select :: "u32 \<Rightarrow> quant_id option" where
  "quant_select tmp =
     (if tmp = 0 then Some Q0 else if tmp = 1 then Some Q1 else if tmp = 2 then Some Q2
      else if tmp = 3 then Some Q3 else None)"

text \<open>The body of the loop; its state is (t, container).\<close>

definition QuantTables_body :: "memory \<Rightarrow> u32 \<times> JpegDecContainer \<Rightarrow> (u32 \<times> JpegDecContainer) step" where
  "QuantTables_body mem = (\<lambda>(t, c).
     let (tmp, c) = getByte mem c;
         t = t + 1
     in if drop_bit 4 tmp \<noteq> 0 then Return (JPEGDEC_UNSUPPORTED, c) else
     let tmp = tmp AND 0xF
     in case quant_select tmp of
          None \<Rightarrow> Return (JPEGDEC_UNSUPPORTED, c)
        | Some q \<Rightarrow>
            let c = c_quant_update (\<lambda>k. k\<lparr>qt_table := Some q\<rparr>) c;
                (vs, c) = getManyBytes mem 64 c;
                c = c_quant_update (quant_set q vs) c;
                t = t + 64
            in Continue (t, c))"

text \<open>
  The fuel of the loops is one more than the number of bytes of the stream: a pass that goes on
  has read a byte.
\<close>

definition stream_fuel :: "JpegDecContainer \<Rightarrow> nat" where
  "stream_fuel c = unat (st_streamLength (c_stream c)) + 1"

definition JpegDecDecodeQuantTables :: "memory \<Rightarrow> JpegDecContainer \<Rightarrow> unit step" where
  "JpegDecDecodeQuantTables mem c =
     (let (v, c) = get2Bytes mem c;
          c = c_quant_update (\<lambda>q. q\<lparr>qt_Lq := v\<rparr>) c
      in if segment_too_long (qt_Lq (c_quant c)) c then Return (JPEGDEC_STRM_ERROR, c) else
      andThen (whileLoop (stream_fuel c)
          (\<lambda>(t, c). t < qt_Lq (c_quant c)) (QuantTables_body mem) (4, c))
        (\<lambda>(t, c). Return (JPEGDEC_OK, c)))"

section \<open>JpegDecDecodeHuffmanTables\<close>

definition vlc_select :: "u32 \<Rightarrow> u32 \<Rightarrow> vlc_id option" where
  "vlc_select Tc Th =
     (if Tc \<noteq> 0 then
        (if Th = 0 then Some AC0 else if Th = 1 then Some AC1 else if Th = 2 then Some AC2
         else if Th = 3 then Some AC3 else None)
      else
        (if Th = 0 then Some DC0 else if Th = 1 then Some DC1 else if Th = 2 then Some DC2
         else if Th = 3 then Some DC3 else None))"

text \<open>First and last lengths: the loops that look for a non-zero count leave start and last alone.\<close>

definition vlc_bounds :: "VlcTable \<Rightarrow> VlcTable" where
  "vlc_bounds t =
     (let t = (case find (\<lambda>i. vt_bits t ! i \<noteq> 0) [0..<16] of
                 Some i \<Rightarrow> t\<lparr>vt_start := of_nat i\<rparr> | None \<Rightarrow> t)
      in case find (\<lambda>j. vt_bits t ! j \<noteq> 0) (rev [0..<16]) of
           Some j \<Rightarrow> t\<lparr>vt_last := of_nat j + 1\<rparr> | None \<Rightarrow> t)"

text \<open>
  DWLmalloc(sizeof(RK_U32) * tmp) and the loop that stores tmp values: the stores are outside the
  block when the product wraps, and at a null pointer when the allocation fails.
\<close>

definition alloc_holds :: "(u32 \<Rightarrow> bool) \<Rightarrow> u32 \<Rightarrow> bool" where
  "alloc_holds malloc tmp \<longleftrightarrow> tmp = 0 \<or> tmp < 2 ^ 30 \<and> malloc (4 * tmp)"

definition vals_block :: "(u32 \<Rightarrow> bool) \<Rightarrow> u32 \<Rightarrow> u32 list \<Rightarrow> u32 list option" where
  "vals_block malloc tmp vs = (if malloc (4 * tmp) then Some vs else None)"

definition HuffmanTables_body ::
  "memory \<Rightarrow> (u32 \<Rightarrow> bool) \<Rightarrow> u32 \<times> JpegDecContainer \<Rightarrow> (u32 \<times> JpegDecContainer) step" where
  "HuffmanTables_body mem malloc = (\<lambda>(len, c).
     let (tmp, c) = getByte mem c;
         len = len + 1;
         Tc = drop_bit 4 tmp
     in if Tc \<noteq> 0 \<and> Tc \<noteq> 1 then Return (JPEGDEC_UNSUPPORTED, c) else
     let Th = tmp AND 0xF
     in if fr_codingType (c_frame c) = SOF0 \<and> Th > 1 then Return (JPEGDEC_UNSUPPORTED, c)
     else if fr_codingType (c_frame c) = SOF2 \<and> Th > 3 then Return (JPEGDEC_UNSUPPORTED, c)
     else case vlc_select Tc Th of
       None \<Rightarrow> Return (JPEGDEC_UNSUPPORTED, c)
     | Some k \<Rightarrow>
       let c = c_vlc_update (\<lambda>h. h\<lparr>vlc_table := Some k\<rparr>) c;
           (bits, c) = getManyBytes mem 16 c;
           tmp = sum_list bits;
           len = len + 16
       in if \<not> alloc_holds malloc tmp then Undefined else
       let (vs, c) = getManyBytes mem (unat tmp) c;
           len = len + tmp;
           t = vlc_get k (c_vlc c);
           t = vlc_bounds (t\<lparr>vt_bits := bits, vt_vals := vals_block malloc tmp vs, vt_tableLength := tmp\<rparr>)
       in Continue (len, c_vlc_update (vlc_set k t) c))"

definition JpegDecDecodeHuffmanTables ::
  "memory \<Rightarrow> (u32 \<Rightarrow> bool) \<Rightarrow> JpegDecContainer \<Rightarrow> unit step" where
  "JpegDecDecodeHuffmanTables mem malloc c =
     (let (v, c) = get2Bytes mem c;
          c = c_vlc_update (\<lambda>h. h\<lparr>vlc_Lh := v\<rparr>) c
      in if segment_too_long (vlc_Lh (c_vlc c)) c then Return (JPEGDEC_STRM_ERROR, c) else
      andThen (whileLoop (stream_fuel c)
          (\<lambda>(len, c). len < vlc_Lh (c_vlc c)) (HuffmanTables_body mem malloc) (4, c))
        (\<lambda>(len, c). Return (JPEGDEC_OK, c)))"

section \<open>JpegDefaultHuffmanTables\<close>

definition ff_mjpeg_bits_dc_luminance :: "u8 list" where
  "ff_mjpeg_bits_dc_luminance = [
     0, 0, 1, 5, 1, 1, 1, 1, 1, 1, 0, 0, 0, 0, 0, 0, 0]"

definition ff_mjpeg_val_dc :: "u8 list" where
  "ff_mjpeg_val_dc = [
     0, 1, 2, 3, 4, 5, 6, 7, 8, 9, 10, 11]"

definition ff_mjpeg_bits_dc_chrominance :: "u8 list" where
  "ff_mjpeg_bits_dc_chrominance = [
     0, 0, 3, 1, 1, 1, 1, 1, 1, 1, 1, 1, 0, 0, 0, 0, 0]"

definition ff_mjpeg_bits_ac_luminance :: "u8 list" where
  "ff_mjpeg_bits_ac_luminance = [
     0, 0, 2, 1, 3, 3, 2, 4, 3, 5, 5, 4, 4, 0, 0, 1, 0x7d]"

definition ff_mjpeg_val_ac_luminance :: "u8 list" where
  "ff_mjpeg_val_ac_luminance = [
     0x01, 0x02, 0x03, 0x00, 0x04, 0x11, 0x05, 0x12, 0x21, 0x31, 0x41, 0x06, 0x13, 0x51, 0x61,
     0x07, 0x22, 0x71, 0x14, 0x32, 0x81, 0x91, 0xa1, 0x08, 0x23, 0x42, 0xb1, 0xc1, 0x15,
     0x52, 0xd1, 0xf0, 0x24, 0x33, 0x62, 0x72, 0x82, 0x09, 0x0a, 0x16, 0x17, 0x18, 0x19,
     0x1a, 0x25, 0x26, 0x27, 0x28, 0x29, 0x2a, 0x34, 0x35, 0x36, 0x37, 0x38, 0x39, 0x3a,
     0x43, 0x44, 0x45, 0x46, 0x47, 0x48, 0x49, 0x4a, 0x53, 0x54, 0x55, 0x56, 0x57, 0x58,
     0x59, 0x5a, 0x63, 0x64, 0x65, 0x66, 0x67, 0x68, 0x69, 0x6a, 0x73, 0x74, 0x75, 0x76,
     0x77, 0x78, 0x79, 0x7a, 0x83, 0x84, 0x85, 0x86, 0x87, 0x88, 0x89, 0x8a, 0x92, 0x93,
     0x94, 0x95, 0x96, 0x97, 0x98, 0x99, 0x9a, 0xa2, 0xa3, 0xa4, 0xa5, 0xa6, 0xa7, 0xa8,
     0xa9, 0xaa, 0xb2, 0xb3, 0xb4, 0xb5, 0xb6, 0xb7, 0xb8, 0xb9, 0xba, 0xc2, 0xc3, 0xc4,
     0xc5, 0xc6, 0xc7, 0xc8, 0xc9, 0xca, 0xd2, 0xd3, 0xd4, 0xd5, 0xd6, 0xd7, 0xd8, 0xd9,
     0xda, 0xe1, 0xe2, 0xe3, 0xe4, 0xe5, 0xe6, 0xe7, 0xe8, 0xe9, 0xea, 0xf1, 0xf2, 0xf3,
     0xf4, 0xf5, 0xf6, 0xf7, 0xf8, 0xf9, 0xfa]"

definition ff_mjpeg_bits_ac_chrominance :: "u8 list" where
  "ff_mjpeg_bits_ac_chrominance = [
     0, 0, 2, 1, 2, 4, 4, 3, 4, 7, 5, 4, 4, 0, 1, 2, 0x77]"

definition ff_mjpeg_val_ac_chrominance :: "u8 list" where
  "ff_mjpeg_val_ac_chrominance = [
     0x00, 0x01, 0x02, 0x03, 0x11, 0x04, 0x05, 0x21, 0x31, 0x06, 0x12, 0x41, 0x51, 0x07, 0x61,
     0x71, 0x13, 0x22, 0x32, 0x81, 0x08, 0x14, 0x42, 0x91, 0xa1, 0xb1, 0xc1, 0x09, 0x23,
     0x33, 0x52, 0xf0, 0x15, 0x62, 0x72, 0xd1, 0x0a, 0x16, 0x24, 0x34, 0xe1, 0x25, 0xf1,
     0x17, 0x18, 0x19, 0x1a, 0x26, 0x27, 0x28, 0x29, 0x2a, 0x35, 0x36, 0x37, 0x38, 0x39,
     0x3a, 0x43, 0x44, 0x45, 0x46, 0x47, 0x48, 0x49, 0x4a, 0x53, 0x54, 0x55, 0x56, 0x57,
     0x58, 0x59, 0x5a, 0x63, 0x64, 0x65, 0x66, 0x67, 0x68, 0x69, 0x6a, 0x73, 0x74, 0x75,
     0x76, 0x77, 0x78, 0x79, 0x7a, 0x82, 0x83, 0x84, 0x85, 0x86, 0x87, 0x88, 0x89, 0x8a,
     0x92, 0x93, 0x94, 0x95, 0x96, 0x97, 0x98, 0x99, 0x9a, 0xa2, 0xa3, 0xa4, 0xa5, 0xa6,
     0xa7, 0xa8, 0xa9, 0xaa, 0xb2, 0xb3, 0xb4, 0xb5, 0xb6, 0xb7, 0xb8, 0xb9, 0xba, 0xc2,
     0xc3, 0xc4, 0xc5, 0xc6, 0xc7, 0xc8, 0xc9, 0xca, 0xd2, 0xd3, 0xd4, 0xd5, 0xd6, 0xd7,
     0xd8, 0xd9, 0xda, 0xe2, 0xe3, 0xe4, 0xe5, 0xe6, 0xe7, 0xe8, 0xe9, 0xea, 0xf2, 0xf3,
     0xf4, 0xf5, 0xf6, 0xf7, 0xf8, 0xf9, 0xfa]"

definition DefaultHuffman_table ::
  "(u32 \<Rightarrow> bool) \<Rightarrow> vlc_id \<times> u8 list \<times> u8 list \<Rightarrow> JpegDecContainer \<Rightarrow> JpegDecContainer step" where
  "DefaultHuffman_table malloc = (\<lambda>(k, bitstmp, valtmp) c.
     let c = c_vlc_update (\<lambda>h. h\<lparr>vlc_table := Some k\<rparr>) c;
         bits = map (\<lambda>i. ucast (bitstmp ! (i + 1))) [0..<16];
         tmp = sum_list bits
     in if \<not> alloc_holds malloc tmp then Undefined else
     let vs = map (\<lambda>i. ucast (valtmp ! i)) [0..<unat tmp];
         t = vlc_get k (c_vlc c);
         t = vlc_bounds (t\<lparr>vt_bits := bits, vt_vals := vals_block malloc tmp vs, vt_tableLength := tmp\<rparr>)
     in Continue (c_vlc_update (vlc_set k t) c))"

definition JpegDefaultHuffmanTables :: "(u32 \<Rightarrow> bool) \<Rightarrow> JpegDecContainer \<Rightarrow> unit step" where
  "JpegDefaultHuffmanTables malloc c =
     andThen (forEach
        [(DC0, ff_mjpeg_bits_dc_luminance, ff_mjpeg_val_dc),
         (AC0, ff_mjpeg_bits_ac_luminance, ff_mjpeg_val_ac_luminance),
         (DC1, ff_mjpeg_bits_dc_chrominance, ff_mjpeg_val_dc),
         (AC1, ff_mjpeg_bits_ac_chrominance, ff_mjpeg_val_ac_chrominance)]
        (DefaultHuffman_table malloc) c)
      (\<lambda>c. Return (JPEGDEC_OK, c))"

section \<open>Decoding a DQT segment\<close>

text \<open>A DQT segment after its marker: the length, then an entry for each table.\<close>

definition dqt_entry :: "nat \<times> u8 list \<Rightarrow> u8 list" where
  "dqt_entry = (\<lambda>(i, q). of_nat i # q)"

definition dqt_entry_ok :: "nat \<times> u8 list \<Rightarrow> bool" where
  "dqt_entry_ok = (\<lambda>(i, q). i < 4 \<and> length q = 64)"

definition quant_number :: "nat \<Rightarrow> quant_id" where
  "quant_number i = [Q0, Q1, Q2, Q3] ! i"

definition dqt_store :: "nat \<times> u8 list \<Rightarrow> QuantTables \<Rightarrow> QuantTables" where
  "dqt_store = (\<lambda>(i, q) t. quant_set (quant_number i) (map ucast q) (t\<lparr>qt_table := Some (quant_number i)\<rparr>))"

lemma quant_select_number: 
  assumes "i < 4"
  shows "quant_select (ucast (of_nat i :: u8) AND 0xF) = Some (quant_number i)"
    "drop_bit 4 (ucast (of_nat i :: u8) :: u32) = 0"
proof -
  have "i = 0 \<or> i = 1 \<or> i = 2 \<or> i = 3" using assms by auto
  then show "quant_select (ucast (of_nat i :: u8) AND 0xF) = Some (quant_number i)"
    "drop_bit 4 (ucast (of_nat i :: u8) :: u32) = 0"
    by (auto simp: quant_select_def quant_number_def)
qed

lemma qt_Lq_set [simp]: "qt_Lq (quant_set i t q) = qt_Lq q"
  by (cases i) auto

lemma dqt_store_Lq [simp]: "qt_Lq (dqt_store e q) = qt_Lq q"
  by (simp add: dqt_store_def split_def)

lemma stream_has_Cons:
  assumes "strm_bytes_ok s" "stream_has mem s (x # xs)"
  shows "0 < strm_left s" "strm_at mem s 0 = ucast x" "strm_bytes_ok (strm_adv (Suc 0) s)"
    "stream_has mem (strm_adv (Suc 0) s) xs"
  using stream_has_append [of s mem "[x]" xs] strm_adv_ok [OF assms(1), of "Suc 0"] assms
  by (auto simp: stream_has_def)

lemma getManyBytes_has:
  assumes "strm_bytes_ok (c_stream c)" "stream_has mem (c_stream c) (xs @ ys)" "n = length xs"
  shows "getManyBytes mem n c = (map ucast xs, c\<lparr>c_stream := strm_adv n (c_stream c)\<rparr>)"
    and "strm_bytes_ok (strm_adv n (c_stream c))" "stream_has mem (strm_adv n (c_stream c)) ys"
proof -
  note a = stream_has_append [OF assms(1,2)]
  have n: "n \<le> strm_left (c_stream c)" using a(1) by (simp add: stream_has_def assms(3))
  show "getManyBytes mem n c = (map ucast xs, c\<lparr>c_stream := strm_adv n (c_stream c)\<rparr>)"
    unfolding getManyBytes_eq [OF assms(1) n] using stream_has_bytes [OF a(1)] assms(3) by simp
  show "strm_bytes_ok (strm_adv n (c_stream c))" "stream_has mem (strm_adv n (c_stream c)) ys"
    using a(2) strm_adv_ok [OF assms(1) n] assms(3) by simp_all
qed

lemma QuantTables_body_entry:
  assumes "strm_bytes_ok (c_stream c)" "stream_has mem (c_stream c) (dqt_entry e @ bs)" "dqt_entry_ok e"
  shows "QuantTables_body mem (t, c) =
    Continue (t + 65, c\<lparr>c_stream := strm_adv 65 (c_stream c), c_quant := dqt_store e (c_quant c)\<rparr>)"
    and "strm_bytes_ok (strm_adv 65 (c_stream c))" "stream_has mem (strm_adv 65 (c_stream c)) bs"
proof -
  obtain i q where e: "e = (i, q)" by (cases e)
  have i: "i < 4" "length q = 64" using assms(3) by (simp_all add: e dqt_entry_ok_def)
  have "stream_has mem (c_stream c) (of_nat i # (q @ bs))" using assms(2) by (simp add: e dqt_entry_def)
  note h = stream_has_Cons [OF assms(1) this]
  let ?c1 = "c\<lparr>c_stream := strm_adv (Suc 0) (c_stream c)\<rparr>"
  let ?c2 = "c_quant_update (\<lambda>k. k\<lparr>qt_table := Some (quant_number i)\<rparr>) ?c1"
  have g: "getByte mem c = (ucast (of_nat i :: u8), ?c1)"
    using h by (simp add: getByte_eq [OF assms(1)])
  have "strm_bytes_ok (c_stream ?c2)" "stream_has mem (c_stream ?c2) (q @ bs)" using h by simp_all
  note m = getManyBytes_has [OF this i(2) [symmetric]]
  have a: "strm_adv 64 (strm_adv (Suc 0) (c_stream c)) = strm_adv 65 (c_stream c)"
    by (simp add: strm_adv_adv)
  show "QuantTables_body mem (t, c) =
    Continue (t + 65, c\<lparr>c_stream := strm_adv 65 (c_stream c), c_quant := dqt_store e (c_quant c)\<rparr>)"
    using m(1) quant_select_number [OF i(1)]
    by (simp add: QuantTables_body_def g Let_def e dqt_store_def a)
  show "strm_bytes_ok (strm_adv 65 (c_stream c))" "stream_has mem (strm_adv 65 (c_stream c)) bs"
    using m(2,3) a by simp_all
qed

lemma QuantTables_loop:
  assumes "strm_bytes_ok (c_stream c)" "stream_has mem (c_stream c) (concat (map dqt_entry es))"
    "list_all dqt_entry_ok es" "unat t = d + 4" "unat (qt_Lq (c_quant c)) = d + 2 + 65 * length es"
    "length es < n" "unat (qt_Lq (c_quant c)) < 65536"
  shows "\<exists>t'. whileLoop n (\<lambda>(t, c). t < qt_Lq (c_quant c)) (QuantTables_body mem) (t, c) =
    Continue (t', c\<lparr>c_stream := strm_adv (65 * length es) (c_stream c),
      c_quant := fold dqt_store es (c_quant c)\<rparr>)"
  using assms
proof (induction es arbitrary: t c d n)
  case Nil
  then obtain k where "n = Suc k" by (cases n) auto
  then show ?case using Nil by (simp add: word_less_nat_alt strm_adv_def)
next
  case (Cons e es)
  then obtain k where k: "n = Suc k" "length es < k" by (cases n) auto
  have e: "dqt_entry_ok e" "list_all dqt_entry_ok es" using Cons.prems(3) by simp_all
  have st: "stream_has mem (c_stream c) (dqt_entry e @ concat (map dqt_entry es))"
    using Cons.prems(2) by simp
  note b = QuantTables_body_entry [OF Cons.prems(1) st e(1)]
  let ?c = "c\<lparr>c_stream := strm_adv 65 (c_stream c), c_quant := dqt_store e (c_quant c)\<rparr>"
  have t: "unat (t + 65) = (d + 65) + 4"
    using Cons.prems(4,5,7) by (simp add: u32_add)
  have lq2: "unat (qt_Lq (c_quant ?c)) < 65536" using Cons.prems(7) by simp
  have "unat (qt_Lq (c_quant ?c)) = (d + 65) + 2 + 65 * length es" using Cons.prems(5) by simp
  from Cons.IH [OF _ _ e(2) t this k(2) lq2] b(2,3) obtain t' where
    "whileLoop k (\<lambda>(t, c). t < qt_Lq (c_quant c)) (QuantTables_body mem) (t + 65, ?c) =
      Continue (t', ?c\<lparr>c_stream := strm_adv (65 * length es) (c_stream ?c),
        c_quant := fold dqt_store es (c_quant ?c)\<rparr>)" by auto
  moreover have "t < qt_Lq (c_quant c)" using Cons.prems(4,5) by (simp add: word_less_nat_alt)
  ultimately show ?case using b(1) k(1) by (simp add: strm_adv_adv)
qed

definition be16 :: "nat \<Rightarrow> u8 list" where
  "be16 n = [of_nat (n div 256), of_nat (n mod 256)]"

lemma be16_value:
  assumes "n < 65536"
  shows "push_bit 8 (ucast (of_nat (n div 256) :: u8)) OR ucast (of_nat (n mod 256) :: u8) = (of_nat n :: u32)"
proof -
  have d: "n div 256 = drop_bit 8 n" "n mod 256 = take_bit 8 n"
    by (simp_all add: drop_bit_eq_div take_bit_eq_mod)
  have "i < 16" if "bit n i" for i
  proof (rule ccontr)
    assume "\<not> i < 16"
    then have "2 ^ 16 \<le> (2 :: nat) ^ i" by (intro power_increasing) simp_all
    then have "n div 2 ^ i = 0" using assms by simp
    then show False using that by (simp add: bit_iff_odd)
  qed
  then have lt: "i - 8 < 8" if "bit n i" for i using that by fastforce
  show ?thesis
    unfolding d by (intro bit_word_eqI) (auto simp: bit_simps lt)
qed

lemma get2Bytes_be16:
  assumes "strm_bytes_ok (c_stream c)" "stream_has mem (c_stream c) (be16 n @ bs)" "n < 65536"
  shows "get2Bytes mem c = (of_nat n, c\<lparr>c_stream := strm_adv 2 (c_stream c)\<rparr>)"
    and "strm_bytes_ok (strm_adv 2 (c_stream c))" "stream_has mem (strm_adv 2 (c_stream c)) bs"
proof -
  have l: "2 \<le> strm_left (c_stream c)" using assms(2) by (simp add: stream_has_def be16_def)
  have "strm_at mem (c_stream c) 0 = ucast (of_nat (n div 256) :: u8)"
    "strm_at mem (c_stream c) 1 = ucast (of_nat (n mod 256) :: u8)"
    using assms(2) by (auto simp: stream_has_def be16_def)
  then show "get2Bytes mem c = (of_nat n, c\<lparr>c_stream := strm_adv 2 (c_stream c)\<rparr>)"
    using be16_value [OF assms(3)] by (simp add: get2Bytes_eq [OF assms(1) l])
  show "strm_bytes_ok (strm_adv 2 (c_stream c))" "stream_has mem (strm_adv 2 (c_stream c)) bs"
    using stream_has_append(2) [OF assms(1,2)] strm_adv_ok(1) [OF assms(1) l] by (simp_all add: be16_def numeral_2_eq_2)
qed

lemma segment_fits:
  assumes "strm_bytes_ok (c_stream c)" "unat v < 65536"
  shows "segment_too_long v c \<longleftrightarrow> strm_left (c_stream c) < unat v"
proof -
  let ?s = "c_stream c"
  have ok: "strm_ok ?s" "st_bitPosInByte ?s = 0" using assms(1) by (simp_all add: strm_bytes_ok_def)
  note n = strm_ok_nat [OF ok(1)]
  define q where "q = unat (st_pCurrPos ?s - st_pStartOfStream ?s)"
  have q: "q \<le> unat (st_streamLength ?s)" "unat (st_readBits ?s) = 8 * q"
    using ok n by (simp_all add: strm_ok_def q_def word_le_nat_alt)
  have "unat (st_readBits ?s div 8 + v) = q + unat v"
    using q n(5) assms(2) by (subst u32_add) (simp_all add: unat_div)
  then show ?thesis
    using q(1) by (auto simp: segment_too_long_def word_less_nat_alt strm_left_def q_def)
qed

definition dqt_segment :: "(nat \<times> u8 list) list \<Rightarrow> u8 list" where
  "dqt_segment es = be16 (2 + 65 * length es) @ concat (map dqt_entry es)"

lemma dqt_entries_length: "list_all dqt_entry_ok es \<Longrightarrow> length (concat (map dqt_entry es)) = 65 * length es"
  by (induction es) (auto simp: dqt_entry_def dqt_entry_ok_def)

lemma QuantTables_decode:
  assumes "strm_bytes_ok (c_stream c)" "stream_has mem (c_stream c) (dqt_segment es @ rest)"
    "list_all dqt_entry_ok es" "2 \<le> length rest" "2 + 65 * length es < 65536"
  shows "JpegDecDecodeQuantTables mem c = Return (JPEGDEC_OK,
    c\<lparr>c_stream := strm_adv (2 + 65 * length es) (c_stream c),
      c_quant := fold dqt_store es ((c_quant c)\<lparr>qt_Lq := of_nat (2 + 65 * length es)\<rparr>)\<rparr>)"
proof -
  define n where "n = 2 + 65 * length es"
  have st: "stream_has mem (c_stream c) (be16 n @ (concat (map dqt_entry es) @ rest))"
    using assms(2) by (simp add: dqt_segment_def n_def)
  note g = get2Bytes_be16 [OF assms(1) st]
  let ?c = "c\<lparr>c_stream := strm_adv 2 (c_stream c), c_quant := (c_quant c)\<lparr>qt_Lq := of_nat n\<rparr>\<rparr>"
  have n1: "n < 65536" using assms(5) by (simp add: n_def)
  then have n: "n < 65536" "unat (of_nat n :: u32) = n" by (simp_all add: unat_of_nat)
  note g = g [OF n(1)]
  have ok: "strm_bytes_ok (c_stream ?c)" "stream_has mem (c_stream ?c) (concat (map dqt_entry es))"
    using g(2) stream_has_append(1) [OF g(2,3)] by simp_all
  have "65 * length es + 2 \<le> strm_left (strm_adv 2 (c_stream c))"
    using g(3) assms(4) dqt_entries_length [OF assms(3)] by (simp add: stream_has_def)
  then have l: "n \<le> strm_left (c_stream ?c)" by (simp add: n_def)
  have "\<not> segment_too_long (of_nat n) ?c"
    using segment_fits [OF ok(1), of "of_nat n"] n l by simp
  moreover have "length es < stream_fuel ?c"
    using l by (simp add: strm_left_def n_def stream_fuel_def)
  then obtain t' where
    "whileLoop (stream_fuel ?c) (\<lambda>(t, c). t < qt_Lq (c_quant c)) (QuantTables_body mem) (4, ?c) =
      Continue (t', ?c\<lparr>c_stream := strm_adv (65 * length es) (c_stream ?c),
        c_quant := fold dqt_store es (c_quant ?c)\<rparr>)"
    using QuantTables_loop [OF ok assms(3), of 4 0 "stream_fuel ?c"] n n_def by auto
  moreover have cu: "c_quant_update (\<lambda>q. q\<lparr>qt_Lq := of_nat n\<rparr>) (c\<lparr>c_stream := strm_adv 2 (c_stream c)\<rparr>) = ?c"
    by simp
  moreover have "strm_adv (65 * length es) (strm_adv 2 (c_stream c)) = strm_adv n (c_stream c)"
    by (simp add: strm_adv_adv n_def)
  ultimately show ?thesis
    unfolding JpegDecDecodeQuantTables_def g(1) Let_def prod.case cu n_def [symmetric] by simp
qed

section \<open>Decoding a DHT segment\<close>

type_synonym dht = "nat \<times> nat \<times> u8 list \<times> u8 list"

definition dht_entry :: "dht \<Rightarrow> u8 list" where
  "dht_entry = (\<lambda>(Tc, Th, bits, vals). of_nat (16 * Tc + Th) # bits @ vals)"

definition dht_entry_ok :: "u32 \<Rightarrow> dht \<Rightarrow> bool" where
  "dht_entry_ok coding = (\<lambda>(Tc, Th, bits, vals). Tc < 2 \<and> Th < (if coding = SOF0 then 2 else 4) \<and>
     length bits = 16 \<and> sum_list (map unat bits) = length vals)"

definition vlc_number :: "nat \<Rightarrow> nat \<Rightarrow> vlc_id" where
  "vlc_number Tc Th = (if Tc = 1 then [AC0, AC1, AC2, AC3] ! Th else [DC0, DC1, DC2, DC3] ! Th)"

definition dht_store :: "dht \<Rightarrow> HuffmanTables \<Rightarrow> HuffmanTables" where
  "dht_store = (\<lambda>(Tc, Th, bits, vals) h.
     let k = vlc_number Tc Th; h = h\<lparr>vlc_table := Some k\<rparr>
     in vlc_set k (vlc_bounds ((vlc_get k h)\<lparr>vt_bits := map ucast bits, vt_vals := Some (map ucast vals),
          vt_tableLength := of_nat (length vals)\<rparr>)) h)"

definition dht_size :: "dht \<Rightarrow> nat" where
  "dht_size = (\<lambda>(Tc, Th, bits, vals). 17 + length vals)"

lemma vlc_Lh_set [simp]: "vlc_Lh (vlc_set k t h) = vlc_Lh h"
  by (cases k) auto

lemma vlc_get_table [simp]: "vlc_get k (h\<lparr>vlc_table := t\<rparr>) = vlc_get k h"
  by (cases k) auto

lemma dht_store_Lh [simp]: "vlc_Lh (dht_store e h) = vlc_Lh h"
  by (simp add: dht_store_def split_def Let_def)

lemma sum_ucast: "sum_list (map ucast bits) = (of_nat (sum_list (map unat bits)) :: u32)"
  for bits :: "u8 list"
  by (induction bits) simp_all

lemma vlc_select_number:
  assumes "Tc < 2" "Th < 4"
  defines "b \<equiv> ucast (of_nat (16 * Tc + Th) :: u8) :: u32"
  shows "vlc_select (drop_bit 4 b) (b AND 0xF) = Some (vlc_number Tc Th)"
    "drop_bit 4 b = of_nat Tc" "b AND 0xF = of_nat Th"
proof -
  have "Tc = 0 \<or> Tc = 1" "Th = 0 \<or> Th = 1 \<or> Th = 2 \<or> Th = 3" using assms by auto
  then show "vlc_select (drop_bit 4 b) (b AND 0xF) = Some (vlc_number Tc Th)"
    "drop_bit 4 b = of_nat Tc" "b AND 0xF = of_nat Th"
    by (auto simp: vlc_select_def vlc_number_def b_def)
qed

lemma HuffmanTables_body_entry:
  assumes "strm_bytes_ok (c_stream c)" "stream_has mem (c_stream c) (dht_entry e @ bs)"
    "dht_entry_ok (fr_codingType (c_frame c)) e" "\<forall>n. malloc n"
  shows "HuffmanTables_body mem malloc (len, c) =
    Continue (len + of_nat (dht_size e),
      c\<lparr>c_stream := strm_adv (dht_size e) (c_stream c), c_vlc := dht_store e (c_vlc c)\<rparr>)"
    and "strm_bytes_ok (strm_adv (dht_size e) (c_stream c))"
    and "stream_has mem (strm_adv (dht_size e) (c_stream c)) bs"
proof -
  obtain Tc Th bits vals where e: "e = (Tc, Th, bits, vals)" by (cases e)
  have i: "Tc < 2" "Th < 4" "length bits = 16" "sum_list (map unat bits) = length vals"
    "fr_codingType (c_frame c) = SOF0 \<Longrightarrow> Th < 2"
    using assms(3) by (auto simp: e dht_entry_ok_def split: if_splits)
  define b where "b = (ucast (of_nat (16 * Tc + Th) :: u8) :: u32)"
  note v = vlc_select_number [OF i(1,2), folded b_def]
  have "stream_has mem (c_stream c) (of_nat (16 * Tc + Th) # (bits @ (vals @ bs)))"
    using assms(2) by (simp add: e dht_entry_def)
  note h = stream_has_Cons [OF assms(1) this]
  let ?k = "vlc_number Tc Th"
  let ?c1 = "c\<lparr>c_stream := strm_adv (Suc 0) (c_stream c)\<rparr>"
  let ?c2 = "c_vlc_update (\<lambda>k. k\<lparr>vlc_table := Some ?k\<rparr>) ?c1"
  have g: "getByte mem c = (b, ?c1)"
    using h by (simp add: getByte_eq [OF assms(1)] b_def)
  have "strm_bytes_ok (c_stream ?c2)" "stream_has mem (c_stream ?c2) (bits @ (vals @ bs))" using h by simp_all
  note m = getManyBytes_has [OF this i(3) [symmetric]]
  let ?c3 = "c_vlc_update (\<lambda>k. k\<lparr>vlc_table := Some ?k\<rparr>) (c\<lparr>c_stream := strm_adv 17 (c_stream c)\<rparr>)"
  have c3: "?c2\<lparr>c_stream := strm_adv 16 (c_stream ?c2)\<rparr> = ?c3" by (simp add: strm_adv_adv)
  have "strm_bytes_ok (c_stream ?c3)" "stream_has mem (c_stream ?c3) (vals @ bs)" using m(2,3) by (simp_all add: strm_adv_adv)
  note w = getManyBytes_has [OF this refl]
  have l: "length vals \<le> strm_left (c_stream ?c3)"
    using \<open>stream_has mem (c_stream ?c3) (vals @ bs)\<close> by (simp add: stream_has_def)
  have "length vals < 2 ^ 24"
    using l strm_ok_nat(5) [of "c_stream ?c3"] \<open>strm_bytes_ok (c_stream ?c3)\<close>
    by (simp add: strm_left_def strm_bytes_ok_def)
  then have u: "unat (of_nat (length vals) :: u32) = length vals" by (simp add: unat_of_nat)
  have al: "alloc_holds malloc (of_nat (length vals))"
    using \<open>length vals < 2 ^ 24\<close> assms(4) by (simp add: alloc_holds_def word_less_nat_alt u)
  have a: "strm_adv (length vals) (strm_adv 17 (c_stream c)) = strm_adv (dht_size e) (c_stream c)"
    by (simp add: strm_adv_adv dht_size_def e)
  have tc: "\<not> (of_nat Tc \<noteq> (0 :: u32) \<and> of_nat Tc \<noteq> (1 :: u32))" using i(1) by (auto simp: less_2_cases_iff)
  have th: "\<not> (fr_codingType (c_frame c) = SOF0 \<and> 1 < (of_nat Th :: u32))"
    "\<not> (fr_codingType (c_frame c) = SOF2 \<and> 3 < (of_nat Th :: u32))"
    using i(2,5) by (auto simp: word_less_nat_alt unat_of_nat)
  define t where "t = vlc_bounds ((vlc_get ?k (c_vlc c))\<lparr>vt_bits := map ucast bits,
    vt_vals := Some (map ucast vals), vt_tableLength := of_nat (length vals)\<rparr>)"
  let ?c4 = "?c3\<lparr>c_stream := strm_adv (length vals) (c_stream ?c3)\<rparr>"
  have s: "sum_list (map ucast bits) = (of_nat (length vals) :: u32)" by (simp add: sum_ucast i(4))
  have b: "HuffmanTables_body mem malloc (len, c) =
      Continue (len + 1 + 16 + of_nat (length vals), c_vlc_update (vlc_set ?k t) ?c4)"
    unfolding HuffmanTables_body_def prod.case g Let_def v(1) option.case m(1) c3 s u w(1)
    using tc th al by (simp add: v(2,3) vals_block_def assms(4) t_def)
  have "c_vlc_update (vlc_set ?k t) ?c4 =
      c\<lparr>c_stream := strm_adv (dht_size e) (c_stream c), c_vlc := dht_store e (c_vlc c)\<rparr>"
    by (rule JpegDecContainer.equality)
      (simp_all add: dht_store_def e Let_def dht_size_def t_def strm_adv_adv)
  then show "HuffmanTables_body mem malloc (len, c) =
    Continue (len + of_nat (dht_size e),
      c\<lparr>c_stream := strm_adv (dht_size e) (c_stream c), c_vlc := dht_store e (c_vlc c)\<rparr>)"
    unfolding b by (simp add: dht_size_def e)
  show "strm_bytes_ok (strm_adv (dht_size e) (c_stream c))"
    "stream_has mem (strm_adv (dht_size e) (c_stream c)) bs"
    using w(2,3) a by simp_all
qed

definition dht_total :: "dht list \<Rightarrow> nat" where
  "dht_total es = sum_list (map dht_size es)"

lemma dht_total_simps [simp]:
  "dht_total [] = 0" "dht_total (e # es) = dht_size e + dht_total es"
  by (simp_all add: dht_total_def)

lemma dht_size_ge: "17 \<le> dht_size e"
  by (simp add: dht_size_def split_def)

lemma HuffmanTables_loop:
  assumes "strm_bytes_ok (c_stream c)" "stream_has mem (c_stream c) (concat (map dht_entry es))"
    "list_all (dht_entry_ok (fr_codingType (c_frame c))) es" "\<forall>n. malloc n" "unat l = d + 4"
    "unat (vlc_Lh (c_vlc c)) = d + 2 + dht_total es" "length es < n" "unat (vlc_Lh (c_vlc c)) < 65536"
  shows "\<exists>l'. whileLoop n (\<lambda>(len, c). len < vlc_Lh (c_vlc c)) (HuffmanTables_body mem malloc) (l, c) =
    Continue (l', c\<lparr>c_stream := strm_adv (dht_total es) (c_stream c), c_vlc := fold dht_store es (c_vlc c)\<rparr>)"
  using assms
proof (induction es arbitrary: l c d n)
  case Nil
  then obtain k where "n = Suc k" by (cases n) auto
  then show ?case using Nil by (simp add: word_less_nat_alt strm_adv_def)
next
  case (Cons e es)
  then obtain k where k: "n = Suc k" "length es < k" by (cases n) auto
  have e: "dht_entry_ok (fr_codingType (c_frame c)) e" "list_all (dht_entry_ok (fr_codingType (c_frame c))) es"
    using Cons.prems(3) by simp_all
  have st: "stream_has mem (c_stream c) (dht_entry e @ concat (map dht_entry es))"
    using Cons.prems(2) by simp
  note b = HuffmanTables_body_entry [OF Cons.prems(1) st e(1) Cons.prems(4)]
  let ?c = "c\<lparr>c_stream := strm_adv (dht_size e) (c_stream c), c_vlc := dht_store e (c_vlc c)\<rparr>"
  have sz: "dht_size e < 65536" using Cons.prems(6,8) by simp
  then have "unat (of_nat (dht_size e) :: u32) = dht_size e" by (simp add: unat_of_nat)
  then have l: "unat (l + of_nat (dht_size e)) = (d + dht_size e) + 4"
    using Cons.prems(5,6,8) by (simp add: u32_add)
  have lh: "unat (vlc_Lh (c_vlc ?c)) = (d + dht_size e) + 2 + dht_total es" "unat (vlc_Lh (c_vlc ?c)) < 65536"
    using Cons.prems(6,8) by simp_all
  from Cons.IH [OF _ _ _ Cons.prems(4) l lh(1) k(2) lh(2)] b(2,3) e(2) obtain l' where
    "whileLoop k (\<lambda>(len, c). len < vlc_Lh (c_vlc c)) (HuffmanTables_body mem malloc) (l + of_nat (dht_size e), ?c) =
      Continue (l', ?c\<lparr>c_stream := strm_adv (dht_total es) (c_stream ?c),
        c_vlc := fold dht_store es (c_vlc ?c)\<rparr>)" by auto
  moreover have "l < vlc_Lh (c_vlc c)" using Cons.prems(5,6) dht_size_ge [of e] by (simp add: word_less_nat_alt)
  ultimately show ?case using b(1) k(1) by (simp add: strm_adv_adv)
qed

text \<open>A DHT segment after its marker.\<close>

definition dht_segment :: "dht list \<Rightarrow> u8 list" where
  "dht_segment es = be16 (2 + dht_total es) @ concat (map dht_entry es)"

lemma dht_entries_length:
  "list_all (dht_entry_ok t) es \<Longrightarrow> length (concat (map dht_entry es)) = dht_total es"
  by (induction es) (auto simp: dht_entry_def dht_entry_ok_def dht_size_def split_def)

lemma dht_total_ge: "length es \<le> dht_total es"
proof (induction es)
  case (Cons e es)
  then show ?case using dht_size_ge [of e] by (simp add: Suc_le_eq)
qed simp

lemma HuffmanTables_decode:
  assumes "strm_bytes_ok (c_stream c)" "stream_has mem (c_stream c) (dht_segment es @ rest)"
    "list_all (dht_entry_ok (fr_codingType (c_frame c))) es" "\<forall>n. malloc n" "2 \<le> length rest"
    "2 + dht_total es < 65536"
  shows "JpegDecDecodeHuffmanTables mem malloc c = Return (JPEGDEC_OK,
    c\<lparr>c_stream := strm_adv (2 + dht_total es) (c_stream c),
      c_vlc := fold dht_store es ((c_vlc c)\<lparr>vlc_Lh := of_nat (2 + dht_total es)\<rparr>)\<rparr>)"
proof -
  define n where "n = 2 + dht_total es"
  have st: "stream_has mem (c_stream c) (be16 n @ (concat (map dht_entry es) @ rest))"
    using assms(2) by (simp add: dht_segment_def n_def)
  have n1: "n < 65536" using assms(6) by (simp add: n_def)
  then have n: "n < 65536" "unat (of_nat n :: u32) = n" by (simp_all add: unat_of_nat)
  note g = get2Bytes_be16 [OF assms(1) st n1]
  let ?c = "c\<lparr>c_stream := strm_adv 2 (c_stream c), c_vlc := (c_vlc c)\<lparr>vlc_Lh := of_nat n\<rparr>\<rparr>"
  have ok: "strm_bytes_ok (c_stream ?c)" "stream_has mem (c_stream ?c) (concat (map dht_entry es))"
    "list_all (dht_entry_ok (fr_codingType (c_frame ?c))) es"
    using g(2) stream_has_append(1) [OF g(2,3)] assms(3) by simp_all
  have "dht_total es + 2 \<le> strm_left (strm_adv 2 (c_stream c))"
    using g(3) assms(5) dht_entries_length [OF assms(3)] by (simp add: stream_has_def)
  then have l: "n \<le> strm_left (c_stream ?c)" by (simp add: n_def)
  have "\<not> segment_too_long (of_nat n) ?c"
    using segment_fits [OF ok(1), of "of_nat n"] n l by simp
  moreover have "length es < stream_fuel ?c"
    using l dht_total_ge [of es] by (simp add: strm_left_def n_def stream_fuel_def)
  then obtain l' where
    "whileLoop (stream_fuel ?c) (\<lambda>(len, c). len < vlc_Lh (c_vlc c)) (HuffmanTables_body mem malloc) (4, ?c) =
      Continue (l', ?c\<lparr>c_stream := strm_adv (dht_total es) (c_stream ?c),
        c_vlc := fold dht_store es (c_vlc ?c)\<rparr>)"
    using HuffmanTables_loop [OF ok assms(4), of 4 0 "stream_fuel ?c"] n n_def by auto
  moreover have cu: "c_vlc_update (\<lambda>h. h\<lparr>vlc_Lh := of_nat n\<rparr>) (c\<lparr>c_stream := strm_adv 2 (c_stream c)\<rparr>) = ?c"
    by simp
  moreover have "strm_adv (dht_total es) (strm_adv 2 (c_stream c)) = strm_adv n (c_stream c)"
    by (simp add: strm_adv_adv n_def)
  ultimately show ?thesis
    unfolding JpegDecDecodeHuffmanTables_def g(1) Let_def prod.case cu n_def [symmetric] by simp
qed

section \<open>Every run ends\<close>

lemma strm_error_high: "drop_bit 4 STRM_ERROR \<noteq> 0" "drop_bit 4 STRM_ERROR \<noteq> 1"
  by (simp_all add: STRM_ERROR_def)

definition quant_sizes :: "QuantTables \<Rightarrow> bool" where
  "quant_sizes q \<longleftrightarrow> length (qt_table0 q) = 64 \<and> length (qt_table1 q) = 64 \<and>
     length (qt_table2 q) = 64 \<and> length (qt_table3 q) = 64"

lemma quant_sizes_set [simp]:
  "quant_sizes q \<Longrightarrow> length t = 64 \<Longrightarrow> quant_sizes (quant_set i t q)"
  by (cases i) (auto simp: quant_sizes_def)

lemma quant_sizes_frame [simp]:
  "quant_sizes (q\<lparr>qt_table := t\<rparr>) = quant_sizes q" "quant_sizes (q\<lparr>qt_Lq := l\<rparr>) = quant_sizes q"
  by (simp_all add: quant_sizes_def)

definition reading :: "JpegDecContainer \<Rightarrow> bool" where
  "reading c \<longleftrightarrow> strm_bytes_ok (c_stream c) \<and> quant_sizes (c_quant c)"

lemma getManyBytes_length: "length (fst (getManyBytes mem n c)) = n"
  by (simp add: getManyBytes_def split_def Let_def getBytes_gets strm.gets_length)

lemma get2Bytes_ok: 
  assumes "strm_bytes_ok (c_stream c)"
  shows "strm_bytes_ok (c_stream (snd (get2Bytes mem c)))"
proof (cases "2 \<le> strm_left (c_stream c)")
  case True
  then show ?thesis using strm_adv_ok(1) [OF assms True] by (simp add: get2Bytes_eq [OF assms])
next
  case False
  let ?s = "c_stream c"
  have ok: "strm_ok ?s" "st_bitPosInByte ?s = 0" using assms by (simp_all add: strm_bytes_ok_def)
  note n = strm_ok_nat [OF ok(1)]
  have "8 * unat (st_streamLength ?s) < unat (st_readBits ?s) + 16"
    using False n(1) ok(2) by (simp add: strm_left_def)
  moreover have "unat (st_readBits ?s + 16) = unat (st_readBits ?s) + 16"
    using n(4,5) by (simp add: u32_add)
  ultimately have "st_readBits ?s + 16 > 8 * st_streamLength ?s"
    using n(3) by (simp add: word_less_nat_alt)
  then show ?thesis using assms by (simp add: get2Bytes_def JpegDecGet2Bytes_def)
qed

lemma getByte_left: 
  assumes "strm_bytes_ok (c_stream c)" "getByte mem c = (v, c1)"
  shows "v = STRM_ERROR \<and> c1 = c \<or> strm_left (c_stream c1) < strm_left (c_stream c)"
  using assms strm_adv_ok [OF assms(1), of "Suc 0"] by (auto simp: getByte_eq split: if_splits)

lemma QuantTables_body_ends:
  assumes "reading (snd tc)"
  shows "ends_in (QuantTables_body mem tc) (\<lambda>tc'. reading (snd tc') \<and> strm_left (c_stream (snd tc')) < strm_left (c_stream (snd tc)))
    (\<lambda>r. reading (snd r))"
proof -
  obtain t c where tc: "tc = (t, c)" by (cases tc)
  obtain v c1 where g: "getByte mem c = (v, c1)" by fastforce
  have ok: "strm_bytes_ok (c_stream c)" "quant_sizes (c_quant c)" using assms by (simp_all add: tc reading_def)
  have c1: "reading c1" using getByte_ok [OF ok(1), of mem] ok(2) getByte_parts(9) [of mem c] g by (simp add: reading_def)
  show ?thesis
  proof (cases "drop_bit 4 v \<noteq> 0")
    case True
    then show ?thesis using c1 by (simp add: QuantTables_body_def tc g Let_def)
  next
    case False
    then have l: "strm_left (c_stream c1) < strm_left (c_stream c)"
      using getByte_left [OF ok(1) g] strm_error_high by auto
    show ?thesis
    proof (cases "quant_select (v AND 0xF)")
      case None
      then show ?thesis using c1 False by (simp add: QuantTables_body_def tc g Let_def)
    next
      case (Some q)
      let ?c = "c_quant_update (\<lambda>k. k\<lparr>qt_table := Some q\<rparr>) c1"
      obtain vs c2 where m: "getManyBytes mem 64 ?c = (vs, c2)" by fastforce
      have "strm_bytes_ok (c_stream ?c)" using c1 by (simp add: reading_def)
      note b = getManyBytes_ok [OF this, of mem 64, unfolded m]
      have "length vs = 64" using getManyBytes_length [of mem 64 ?c] m by simp
      moreover have "c_quant (snd (getManyBytes mem 64 ?c)) = c_quant ?c" by (simp only: getByte_parts)
      then have "quant_sizes (c_quant c2)" using c1 by (simp add: m reading_def)
      ultimately show ?thesis
        using False Some b l by (simp add: QuantTables_body_def tc g Let_def m reading_def)
    qed
  qed
qed

lemma QuantTables_ends:
  assumes "reading c"
  shows "ends_in (JpegDecDecodeQuantTables mem c) (\<lambda>_. False) (\<lambda>r. reading (snd r))"
proof -
  obtain v c1 where g: "get2Bytes mem c = (v, c1)" by fastforce
  let ?c = "c_quant_update (\<lambda>q. q\<lparr>qt_Lq := v\<rparr>) c1"
  have "strm_bytes_ok (c_stream c1)" using get2Bytes_ok [of c mem] assms by (simp add: reading_def g)
  moreover have "c_quant (snd (get2Bytes mem c)) = c_quant c" by (simp only: getByte_parts)
  ultimately have c: "reading ?c" using assms by (simp add: reading_def g)
  have "ends_in (whileLoop (stream_fuel ?c) (\<lambda>(t, c). t < qt_Lq (c_quant c)) (QuantTables_body mem) (4, ?c))
    (\<lambda>tc. reading (snd tc) \<and> \<not> (case tc of (t, c) \<Rightarrow> t < qt_Lq (c_quant c))) (\<lambda>r. reading (snd r))"
  proof (rule ends_in_whileLoop [where m = "\<lambda>tc. strm_left (c_stream (snd tc))"])
    show "strm_left (c_stream (snd (4 :: u32, ?c))) < stream_fuel ?c"
      by (simp add: stream_fuel_def strm_left_def)
  qed (use c QuantTables_body_ends in auto)
  then show ?thesis
    using c by (auto simp: JpegDecDecodeQuantTables_def g Let_def intro!: ends_in_andThen)
qed

text \<open>The Huffman loop: it has enough fuel whatever the allocator does.\<close>

lemma HuffmanTables_body_fuel:
  assumes "strm_bytes_ok (c_stream (snd lc))"
  shows "HuffmanTables_body mem malloc lc \<noteq> OutOfFuel \<and>
    (\<forall>lc'. HuffmanTables_body mem malloc lc = Continue lc' \<longrightarrow>
       strm_bytes_ok (c_stream (snd lc')) \<and> strm_left (c_stream (snd lc')) < strm_left (c_stream (snd lc)))"
proof -
  obtain len c where lc: "lc = (len, c)" by (cases lc)
  obtain v c1 where g: "getByte mem c = (v, c1)" by fastforce
  have ok: "strm_bytes_ok (c_stream c)" using assms by (simp add: lc)
  have c1: "strm_bytes_ok (c_stream c1)" using getByte_ok [OF ok, of mem] g by simp
  show ?thesis
  proof (cases "drop_bit 4 v \<noteq> 0 \<and> drop_bit 4 v \<noteq> 1")
    case True
    then show ?thesis by (simp add: HuffmanTables_body_def lc g Let_def)
  next
    case False
    then have l: "strm_left (c_stream c1) < strm_left (c_stream c)"
      using getByte_left [OF ok g] strm_error_high by auto
    show ?thesis
    proof (cases "vlc_select (drop_bit 4 v) (v AND 0xF)")
      case None
      then show ?thesis using False by (auto simp: HuffmanTables_body_def lc g Let_def)
    next
      case (Some k)
      let ?c = "c_vlc_update (\<lambda>h. h\<lparr>vlc_table := Some k\<rparr>) c1"
      obtain bits c2 where m: "getManyBytes mem 16 ?c = (bits, c2)" by fastforce
      have "strm_bytes_ok (c_stream ?c)" using c1 by simp
      note b = getManyBytes_ok [OF this, of mem 16, unfolded m snd_conv]
      obtain vs c3 where w: "getManyBytes mem (unat (sum_list bits)) c2 = (vs, c3)" by fastforce
      note d = getManyBytes_ok [OF b(1), of mem "unat (sum_list bits)", unfolded w snd_conv]
      have "strm_left (c_stream c3) < strm_left (c_stream c)" using b(2) d(2) l by simp
      then show ?thesis
        using False Some d(1) by (auto simp: HuffmanTables_body_def lc g Let_def m w)
    qed
  qed
qed

lemma HuffmanTables_fuel:
  assumes "strm_bytes_ok (c_stream c)"
  shows "JpegDecDecodeHuffmanTables mem malloc c \<noteq> OutOfFuel"
proof -
  obtain v c1 where g: "get2Bytes mem c = (v, c1)" by fastforce
  let ?c = "c_vlc_update (\<lambda>h. h\<lparr>vlc_Lh := v\<rparr>) c1"
  have ok: "strm_bytes_ok (c_stream ?c)" using get2Bytes_ok [OF assms, of mem] by (simp add: g)
  have "whileLoop (stream_fuel ?c) (\<lambda>(len, c). len < vlc_Lh (c_vlc c)) (HuffmanTables_body mem malloc) (4, ?c)
    \<noteq> OutOfFuel"
  proof (rule whileLoop_enough [where P = "\<lambda>lc. strm_bytes_ok (c_stream (snd lc))" and m = "\<lambda>lc. strm_left (c_stream (snd lc))"])
    show "strm_left (c_stream (snd (4 :: u32, ?c))) < stream_fuel ?c"
      by (simp add: stream_fuel_def strm_left_def)
  qed (use ok HuffmanTables_body_fuel in auto)
  then show ?thesis
    by (auto simp: JpegDecDecodeHuffmanTables_def g Let_def andThen_OutOfFuel_iff)
qed

section \<open>The standard tables\<close>

definition std_dht :: "dht list" where
  "std_dht =
    [(0, 0, tl ff_mjpeg_bits_dc_luminance, ff_mjpeg_val_dc),
     (1, 0, tl ff_mjpeg_bits_ac_luminance, ff_mjpeg_val_ac_luminance),
     (0, 1, tl ff_mjpeg_bits_dc_chrominance, ff_mjpeg_val_dc),
     (1, 1, tl ff_mjpeg_bits_ac_chrominance, ff_mjpeg_val_ac_chrominance)]"

lemma DefaultHuffman_table_store:
  assumes "length b = 17" "sum_list (map unat (tl b)) = length v" "length v < 2 ^ 16" "\<forall>n. malloc n"
    "k = vlc_number Tc Th"
  shows "DefaultHuffman_table malloc (k, b, v) c = Continue (c\<lparr>c_vlc := dht_store (Tc, Th, tl b, v) (c_vlc c)\<rparr>)"
proof -
  have bits: "map (\<lambda>i. ucast (b ! (i + 1))) [0..<16] = (map ucast (tl b) :: u32 list)"
    using assms(1) by (intro nth_equalityI) (simp_all add: nth_tl)
  have s: "sum_list (map ucast (tl b)) = (of_nat (length v) :: u32)" by (simp add: sum_ucast assms(2))
  have u: "unat (of_nat (length v) :: u32) = length v" using assms(3) by (simp add: unat_of_nat)
  have vals: "map (\<lambda>i. ucast (v ! i)) [0..<length v] = (map ucast v :: u32 list)"
    by (intro nth_equalityI) simp_all
  have al: "alloc_holds malloc (of_nat (length v))" using assms(3,4) by (simp add: alloc_holds_def word_less_nat_alt u)
  show ?thesis
    unfolding DefaultHuffman_table_def prod.case Let_def bits s u vals
    using al by (auto simp: vals_block_def assms(4,5) dht_store_def Let_def intro: JpegDecContainer.equality)
qed

lemma std_tables:
  "length ff_mjpeg_bits_dc_luminance = 17" "sum_list (map unat (tl ff_mjpeg_bits_dc_luminance)) = length ff_mjpeg_val_dc"
  "length ff_mjpeg_bits_ac_luminance = 17" "sum_list (map unat (tl ff_mjpeg_bits_ac_luminance)) = length ff_mjpeg_val_ac_luminance"
  "length ff_mjpeg_bits_dc_chrominance = 17" "sum_list (map unat (tl ff_mjpeg_bits_dc_chrominance)) = length ff_mjpeg_val_dc"
  "length ff_mjpeg_bits_ac_chrominance = 17" "sum_list (map unat (tl ff_mjpeg_bits_ac_chrominance)) = length ff_mjpeg_val_ac_chrominance"
  "length ff_mjpeg_val_dc = 12" "length ff_mjpeg_val_ac_luminance = 162" "length ff_mjpeg_val_ac_chrominance = 162"
  by (simp_all add: ff_mjpeg_bits_dc_luminance_def ff_mjpeg_bits_ac_luminance_def ff_mjpeg_bits_dc_chrominance_def
    ff_mjpeg_bits_ac_chrominance_def ff_mjpeg_val_dc_def ff_mjpeg_val_ac_luminance_def ff_mjpeg_val_ac_chrominance_def)

lemma DefaultHuffman_store:
  assumes "\<forall>n. malloc n"
  shows "JpegDefaultHuffmanTables malloc c = Return (JPEGDEC_OK, c\<lparr>c_vlc := fold dht_store std_dht (c_vlc c)\<rparr>)"
  using std_tables
  by (simp add: JpegDefaultHuffmanTables_def std_dht_def
      DefaultHuffman_table_store [OF _ _ _ assms, where Tc = 0 and Th = 0]
      DefaultHuffman_table_store [OF _ _ _ assms, where Tc = 1 and Th = 0]
      DefaultHuffman_table_store [OF _ _ _ assms, where Tc = 0 and Th = 1]
      DefaultHuffman_table_store [OF _ _ _ assms, where Tc = 1 and Th = 1] vlc_number_def)

section \<open>Well-formed Huffman tables\<close>

definition bounds_ok :: "VlcTable \<Rightarrow> bool" where
  "bounds_ok t \<longleftrightarrow> unat (vt_start t) < unat (vt_last t) \<and> unat (vt_last t) \<le> 16 \<and>
     vt_bits t ! unat (vt_start t) \<noteq> 0 \<and> vt_bits t ! (unat (vt_last t) - 1) \<noteq> 0 \<and>
     (\<forall>i<16. vt_bits t ! i \<noteq> 0 \<longrightarrow> unat (vt_start t) \<le> i \<and> i < unat (vt_last t))"

definition vlc_wf :: "VlcTable \<Rightarrow> bool" where
  "vlc_wf t \<longleftrightarrow> length (vt_bits t) = 16 \<and> vt_tableLength t = sum_list (vt_bits t) \<and>
     (\<exists>vs. vt_vals t = Some vs \<and> length vs = unat (vt_tableLength t)) \<and> bounds_ok t"

lemma find_upt:
  assumes "find P [0..<b] = Some i"
  shows "i < b \<and> P i \<and> (\<forall>j < i. \<not> P j)"
  using assms by (auto simp: find_Some_iff)

lemma find_rev_upt:
  assumes "find P (rev [0..<b]) = Some i"
  shows "i < b \<and> P i \<and> (\<forall>j < b. i < j \<longrightarrow> \<not> P j)"
proof -
  obtain k where k: "k < b" "P (rev [0..<b] ! k)" "i = rev [0..<b] ! k" "\<forall>j < k. \<not> P (rev [0..<b] ! j)"
    using assms by (auto simp: find_Some_iff)
  have r: "rev [0..<b] ! j = b - Suc j" if "j < b" for j using that by (simp add: rev_nth)
  have "\<not> P j" if "j < b" "i < j" for j
  proof -
    have "b - Suc j < k" using that k(1,3) r by simp
    then have "\<not> P (rev [0..<b] ! (b - Suc j))" using k(4) by blast
    then show ?thesis using that r [of "b - Suc j"] by simp
  qed
  then show ?thesis using k r by auto
qed

lemma vlc_bounds_ok:
  assumes "\<exists>i<16. vt_bits t ! i \<noteq> 0"
  shows "bounds_ok (vlc_bounds t)"
proof -
  obtain i where i: "find (\<lambda>i. vt_bits t ! i \<noteq> 0) [0..<16] = Some i"
    using assms by (cases "find (\<lambda>i. vt_bits t ! i \<noteq> 0) [0..<16]") (auto simp: find_None_iff)
  obtain j where j: "find (\<lambda>i. vt_bits t ! i \<noteq> 0) (rev [0..<16]) = Some j"
    using assms by (cases "find (\<lambda>i. vt_bits t ! i \<noteq> 0) (rev [0..<16])") (auto simp: find_None_iff simp del: upt_Suc)
  note fi = find_upt [OF i] and fj = find_rev_upt [OF j]
  have lt: "i < 16" "j < 16" "i \<le> j" using fi fj not_le by blast+
  have u: "unat (of_nat i :: u32) = i" "unat (of_nat j + 1 :: u32) = j + 1"
    using lt by (simp_all add: unat_of_nat u32_add)
  have "vt_bits (t\<lparr>vt_start := of_nat i\<rparr>) = vt_bits t" by simp
  then have e: "vlc_bounds t = t\<lparr>vt_start := of_nat i, vt_last := of_nat j + 1\<rparr>"
    unfolding vlc_bounds_def i option.case Let_def by (simp only: j option.case)
  show ?thesis
    unfolding e using fi fj lt by (auto simp: bounds_ok_def u not_less Suc_le_eq)
qed

lemma u8_unat [simp]: "unat (ucast (x :: u8) :: u32) = unat x"
proof -
  have "unat x < 2 ^ 8" using unsigned_less [of x] by simp
  then show ?thesis by (simp add: unsigned_ucast_eq take_bit_nat_eq_self)
qed

lemma u8_ucast_0 [simp]: "(ucast (x :: u8) :: u32) = 0 \<longleftrightarrow> x = 0"
  by (simp add: word_unat_eq_iff)

lemma sum_nonzero:
  fixes bits :: "u8 list"
  assumes "sum_list (map unat bits) = n" "0 < n"
  shows "\<exists>i < length bits. bits ! i \<noteq> 0"
proof (rule ccontr)
  assume "\<not> (\<exists>i < length bits. bits ! i \<noteq> 0)"
  then have "\<forall>x \<in> set bits. x = 0" by (auto simp: in_set_conv_nth)
  then have "sum_list (map unat bits) = 0" by (induction bits) auto
  then show False using assms by simp
qed

lemma dht_store_wf:
  assumes "length bits = 16" "sum_list (map unat bits) = length vals" "vals \<noteq> []" "length vals < 65536"
  shows "vlc_wf (vlc_get (vlc_number Tc Th) (dht_store (Tc, Th, bits, vals) h))"
proof -
  let ?t = "(vlc_get (vlc_number Tc Th) h)\<lparr>vt_bits := map ucast bits, vt_vals := Some (map ucast vals),
          vt_tableLength := of_nat (length vals)\<rparr>"
  obtain i where "i < 16" "bits ! i \<noteq> 0" using sum_nonzero [OF assms(2)] assms(1,3) by auto
  then have "\<exists>i<16. vt_bits ?t ! i \<noteq> 0"
    using assms(1) by (intro exI [of _ i]) auto
  then have "bounds_ok (vlc_bounds ?t)" by (rule vlc_bounds_ok)
  moreover have "vt_bits (vlc_bounds t) = vt_bits t" "vt_vals (vlc_bounds t) = vt_vals t"
    "vt_tableLength (vlc_bounds t) = vt_tableLength t" for t
    by (simp_all add: vlc_bounds_def Let_def split: option.splits)
  ultimately show ?thesis
    using assms by (simp add: vlc_wf_def dht_store_def Let_def sum_ucast unat_of_nat)
qed

definition kraft :: "u8 list \<Rightarrow> nat" where
  "kraft bits = sum_list (map (\<lambda>i. unat (bits ! i) * 2 ^ (15 - i)) [0..<16])"

definition prefix_code :: "dht \<Rightarrow> bool" where
  "prefix_code = (\<lambda>(Tc, Th, bits, vals). kraft bits < 2 ^ 16)"

lemma std_dht_prefix: "list_all prefix_code std_dht"
  by (simp add: std_dht_def prefix_code_def kraft_def upt_rec ff_mjpeg_bits_dc_luminance_def
    ff_mjpeg_bits_ac_luminance_def ff_mjpeg_bits_dc_chrominance_def ff_mjpeg_bits_ac_chrominance_def)

lemma dht_store_wf_all:
  assumes "list_all (\<lambda>(Tc, Th, bits, vals). length bits = 16 \<and> sum_list (map unat bits) = length vals \<and>
      vals \<noteq> [] \<and> length vals < 65536) es"
    "(Tc, Th, bits, vals) \<in> set es"
  shows "vlc_wf (vlc_get (vlc_number Tc Th) (fold dht_store es h))"
  using assms
proof (induction es rule: rev_induct)
  case (snoc e es)
  obtain Tc' Th' bits' vals' where e: "e = (Tc', Th', bits', vals')" by (cases e)
  have w: "vlc_wf (vlc_get (vlc_number Tc' Th') (dht_store e g))" for g
    using snoc.prems(1) dht_store_wf by (simp add: e)
  show ?case
  proof (cases "vlc_number Tc Th = vlc_number Tc' Th'")
    case True
    then show ?thesis using w by simp
  next
    case False
    then have "(Tc, Th, bits, vals) \<in> set es" using snoc.prems(2) by (auto simp: e)
    then show ?thesis using False snoc by (simp add: e dht_store_def Let_def)
  qed
qed simp

lemma dht_store_Lh_commute: "dht_store e (h\<lparr>vlc_Lh := n\<rparr>) = (dht_store e h)\<lparr>vlc_Lh := n\<rparr>"
proof -
  have "vlc_set k t (h\<lparr>vlc_Lh := n, vlc_table := x\<rparr>) = (vlc_set k t (h\<lparr>vlc_table := x\<rparr>))\<lparr>vlc_Lh := n\<rparr>"
    "vlc_get k (h\<lparr>vlc_Lh := n\<rparr>) = vlc_get k h" for k t x h
    by (cases k; simp)+
  then show ?thesis by (simp add: dht_store_def split_def Let_def)
qed

lemma fold_dht_store_Lh: "fold dht_store es (h\<lparr>vlc_Lh := n\<rparr>) = (fold dht_store es h)\<lparr>vlc_Lh := n\<rparr>"
  by (induction es arbitrary: h) (simp_all add: dht_store_Lh_commute)

lemma vlc_get_Lh [simp]: "vlc_get k (h\<lparr>vlc_Lh := n\<rparr>) = vlc_get k h"
  by (cases k) auto

section \<open>Properties\<close>

text \<open>
  C3. A DQT segment with any number of 8-bit tables is decoded to exactly the tables it carries:
  every destination ends with the last table sent to it, the stream stands behind the segment and
  nothing else of the container changes. (The check for enough data asks for two bytes more than
  the segment, which every stream has in its next marker.)
\<close>

theorem QuantTables_decodes_segment:
  assumes "strm_bytes_ok (c_stream c)" "stream_has mem (c_stream c) (dqt_segment es @ rest)"
    "list_all dqt_entry_ok es" "2 \<le> length rest" "2 + 65 * length es < 65536"
  shows "JpegDecDecodeQuantTables mem c = Return (JPEGDEC_OK,
    c\<lparr>c_stream := strm_adv (2 + 65 * length es) (c_stream c),
      c_quant := fold dqt_store es ((c_quant c)\<lparr>qt_Lq := of_nat (2 + 65 * length es)\<rparr>)\<rparr>)"
  by (rule QuantTables_decode [OF assms])

definition demo_dqt :: "(nat \<times> u8 list) list" where
  "demo_dqt = [(1, replicate 64 7), (0, replicate 64 16), (1, replicate 64 9)]"

definition demo_dqt_bytes :: "u8 list" where
  "demo_dqt_bytes = dqt_segment demo_dqt @ [0xFF, 0xD9]"

lemma demo_bytes_ok:
  assumes "length bs < 2 ^ 24"
  shows "strm_bytes_ok (c_stream (demo_container bs))"
    "stream_has (memory_of 0 bs) (c_stream (demo_container bs)) bs"
proof -
  have "(of_nat (length bs) :: u32) \<le> DEC_RK70_MAX_STREAM"
    using assms by (simp add: DEC_RK70_MAX_STREAM_def word_le_nat_alt unat_of_nat)
  then show "strm_bytes_ok (c_stream (demo_container bs))"
    by (simp add: demo_container_def stream_of_ok)
  show "stream_has (memory_of 0 bs) (c_stream (demo_container bs)) bs"
    using stream_of_has [of bs "length bs" 0] assms by (simp add: demo_container_def)
qed

lemma QuantTables_decodes_segment_witness:
  "\<exists>c'. JpegDecDecodeQuantTables (memory_of 0 demo_dqt_bytes) (demo_container demo_dqt_bytes) = Return (JPEGDEC_OK, c')
    \<and> qt_table1 (c_quant c') = replicate 64 9 \<and> qt_table0 (c_quant c') = replicate 64 16"
proof -
  have "length demo_dqt_bytes < 2 ^ 24" by (simp add: demo_dqt_bytes_def demo_dqt_def dqt_segment_def be16_def dqt_entry_def)
  note b = demo_bytes_ok [OF this]
  show ?thesis
    using QuantTables_decodes_segment [OF b(1), of "memory_of 0 demo_dqt_bytes" demo_dqt "[0xFF, 0xD9]"] b(2)
    by (simp add: demo_dqt_bytes_def [symmetric])
      (simp add: demo_dqt_def dqt_entry_ok_def dqt_store_def quant_number_def)
qed

text \<open>
  On any stream, well formed or not, JpegDecDecodeQuantTables ends and returns, without an
  access outside the tables and within the fuel of its loop, and leaves a stream and tables that
  the next decoder can go on with.
\<close>

theorem QuantTables_total:
  assumes "reading c"
  shows "\<exists>ret c'. JpegDecDecodeQuantTables mem c = Return (ret, c') \<and> reading c'"
  using QuantTables_ends [OF assms, of mem] by (cases "JpegDecDecodeQuantTables mem c") auto

lemma QuantTables_total_witness:
  "\<exists>ret c'. JpegDecDecodeQuantTables (memory_of 0 [0, 99, 0x13, 1]) (demo_container [0, 99, 0x13, 1]) = Return (ret, c')
    \<and> reading c'"
  by (rule QuantTables_total)
    (simp add: reading_def demo_bytes_ok, simp add: demo_container_def zero_defs quant_sizes_def)

text \<open>
  C2. A DHT segment is decoded to exactly the Huffman tables it carries, and every table with at
  least one code comes out well formed: sixteen counts, as many values as the counts add up to,
  and the first and the last code length in use.
\<close>

theorem HuffmanTables_decodes_segment:
  assumes "strm_bytes_ok (c_stream c)" "stream_has mem (c_stream c) (dht_segment es @ rest)"
    "list_all (dht_entry_ok (fr_codingType (c_frame c))) es" "\<forall>n. malloc n" "2 \<le> length rest"
    "2 + dht_total es < 65536" "list_all (\<lambda>(Tc, Th, bits, vals). vals \<noteq> []) es"
  shows "\<exists>c'. JpegDecDecodeHuffmanTables mem malloc c = Return (JPEGDEC_OK, c') \<and>
    c' = c\<lparr>c_stream := strm_adv (2 + dht_total es) (c_stream c),
      c_vlc := fold dht_store es ((c_vlc c)\<lparr>vlc_Lh := of_nat (2 + dht_total es)\<rparr>)\<rparr> \<and>
    (\<forall>(Tc, Th, bits, vals) \<in> set es. vlc_wf (vlc_get (vlc_number Tc Th) (c_vlc c')))"
proof -
  have "length vals < 65536" if "(Tc, Th, bits, vals) \<in> set es" for Tc Th bits vals
    using member_le_sum_list [of "17 + length vals" "map dht_size es"] that assms(6)
    by (force simp: dht_total_def dht_size_def image_iff)
  then have "list_all (\<lambda>(Tc, Th, bits, vals). length bits = 16 \<and> sum_list (map unat bits) = length vals \<and>
      vals \<noteq> [] \<and> length vals < 65536) es"
    using assms(3,7) by (fastforce simp: list_all_iff dht_entry_ok_def)
  note w = dht_store_wf_all [OF this]
  show ?thesis
    using HuffmanTables_decode [OF assms(1-6)] w by auto
qed

definition demo_dht :: "dht list" where
  "demo_dht = [(0, 1, [0, 2, 1] @ replicate 13 0, [4, 5, 6])]"

definition demo_dht_bytes :: "u8 list" where
  "demo_dht_bytes = dht_segment demo_dht @ [0xFF, 0xD9]"

lemma HuffmanTables_decodes_segment_witness:
  "\<exists>c'. JpegDecDecodeHuffmanTables (memory_of 0 demo_dht_bytes) (\<lambda>_. True) (demo_container demo_dht_bytes) =
      Return (JPEGDEC_OK, c') \<and> vlc_wf (vlc_dcTable1 (c_vlc c'))"
proof -
  have "length demo_dht_bytes < 2 ^ 24"
    by (simp add: demo_dht_bytes_def demo_dht_def dht_segment_def be16_def dht_entry_def)
  note b = demo_bytes_ok [OF this]
  have e: "list_all (dht_entry_ok t) demo_dht" for t
    by (simp add: demo_dht_def dht_entry_ok_def)
  show ?thesis
    using HuffmanTables_decodes_segment [OF b(1), of "memory_of 0 demo_dht_bytes" demo_dht "[0xFF, 0xD9]" "\<lambda>_. True", OF _ e] b(2)
    by (simp add: demo_dht_bytes_def [symmetric]) (auto simp: demo_dht_def dht_size_def vlc_number_def)
qed


definition std_bytes :: "u8 list" where
  "std_bytes = dht_segment std_dht @ [0xFF, 0xD9]"


text \<open>
  JpegDecDecodeHuffmanTables ends on every stream: its loop never runs out of the fuel it is
  given, one pass more than the stream has bytes, whatever the allocator does.
\<close>

theorem HuffmanTables_terminates:
  assumes "strm_bytes_ok (c_stream c)"
  shows "JpegDecDecodeHuffmanTables mem malloc c \<noteq> OutOfFuel"
  by (rule HuffmanTables_fuel [OF assms])

lemma HuffmanTables_terminates_witness:
  "JpegDecDecodeHuffmanTables (memory_of 0 [0, 99, 0x13, 1]) (\<lambda>_. False) (demo_container [0, 99, 0x13, 1]) \<noteq> OutOfFuel"
  by (rule HuffmanTables_terminates) (simp add: demo_bytes_ok)

text \<open>A DHT segment of 24 bytes at the end of its stream whose second table is cut after six counts.\<close>

definition dht_cut :: "u8 list" where
  "dht_cut = [0, 24] @ replicate 17 0 @ replicate 7 0"

text \<open>
  JpegDecDecodeHuffmanTables does not check JpegDecGetByte for STRM_ERROR: when a table is cut
  inside its counts the error values are added to the number of values to allocate, and the code
  writes outside what DWLmalloc gave it, however the allocator behaves.
\<close>

lemma HuffmanTables_cut_segment_overruns:
  "JpegDecDecodeHuffmanTables (memory_of 0 dht_cut) malloc (demo_container dht_cut) = Undefined"
  by code_simp

end
