(* ===== verification/Scan.thy ===== *)
theory Scan
  imports Tables
begin

text \<open>
  The scan level of the decoder: the scan header and the control of a scan (jpegdecscan.c), the
  buffers of a scan (JpegDecAllocateResidual) and the height of a slice
  (JpegDecSliceSizeCalculation, both jpegdecinternal.c). The DRM allocator is reached through the
  table of functions os_allocator (allocator_drm.h), a parameter here as it is a variable there.
\<close>

section \<open>JpegDecDecodeScanHeader\<close>

text \<open>Stores to arrays with one element for each component, undefined outside of them.\<close>

definition scan_select :: "u32 \<Rightarrow> u32 \<Rightarrow> u32 \<Rightarrow> JpegDecContainer \<Rightarrow> JpegDecContainer" where
  "scan_select i cs tables c = c_scan_update (\<lambda>s. s\<lparr>
     sc_Cs := (sc_Cs s)[unat i := cs],
     sc_Td := (sc_Td s)[unat i := drop_bit 4 tables],
     sc_Ta := (sc_Ta s)[unat i := tables AND 0x0F]\<rparr>) c"

definition pfNeeded_set :: "u32 \<Rightarrow> u32 \<Rightarrow> JpegDecContainer \<Rightarrow> JpegDecContainer" where
  "pfNeeded_set i v c = c_info_update (\<lambda>f. f\<lparr>inf_pfNeeded := (inf_pfNeeded f)[unat i := v]\<rparr>) c"

definition set_X :: "u32 \<Rightarrow> JpegDecContainer \<Rightarrow> JpegDecContainer" where
  "set_X v c = c_info_update (\<lambda>i. i\<lparr>inf_X := v\<rparr>) c"

definition set_Y :: "u32 \<Rightarrow> JpegDecContainer \<Rightarrow> JpegDecContainer" where
  "set_Y v c = c_info_update (\<lambda>i. i\<lparr>inf_Y := v\<rparr>) c"

definition set_yCbCrMode :: "u32 \<Rightarrow> JpegDecContainer \<Rightarrow> JpegDecContainer" where
  "set_yCbCrMode v c = c_info_update (\<lambda>i. i\<lparr>inf_yCbCrMode := v\<rparr>) c"

text \<open>The dimensions of a scan of a chroma component, and of the luma component.\<close>

definition Scan_chroma :: "JpegDecContainer \<Rightarrow> JpegDecContainer step" where
  "Scan_chroma c =
     (let i = c_info c; f = c_frame c in
      if inf_operationType i = JPEGDEC_PROGRESSIVE \<or> inf_operationType i = JPEGDEC_NONINTERLEAVED \<or>
         inf_nonInterleavedScanReady i \<noteq> 0 then
        (if inf_yCbCrModeOrig i = JPEGDEC_YUV420 then
           Continue (set_yCbCrMode 0 (set_Y (drop_bit 1 (fr_hwY f)) (set_X (drop_bit 1 (fr_hwX f)) c)))
         else if inf_yCbCrModeOrig i = JPEGDEC_YUV422 then
           Continue (set_yCbCrMode 0 (set_X (drop_bit 1 (fr_hwX f)) c))
         else if inf_yCbCrModeOrig i = JPEGDEC_YUV440 then
           Continue (set_yCbCrMode 0 (set_Y (drop_bit 1 (fr_hwY f)) c))
         else Return (JPEGDEC_UNSUPPORTED, set_yCbCrMode 0 c))
      else Continue (set_yCbCrMode 0 c))"

definition Scan_luma :: "JpegDecContainer \<Rightarrow> JpegDecContainer step" where
  "Scan_luma c =
     (let c = set_Y (fr_hwY (c_frame c)) (set_X (fr_hwX (c_frame c)) c) in
      if inf_yCbCrMode (c_info c) = JPEGDEC_YUV420 then Continue (set_yCbCrMode 1 c)
      else if inf_yCbCrMode (c_info c) = JPEGDEC_YUV422 then
        (let c = set_yCbCrMode 0 c
         in Continue (if fr_cIndex (c_frame c) = 0
                      then c_info_update (\<lambda>i. i\<lparr>inf_yCbCr422 := 1\<rparr>) c else c))
      else if inf_yCbCrMode (c_info c) = JPEGDEC_YUV444 then
        Return (JPEGDEC_UNSUPPORTED, set_yCbCrMode 0 c)
      else Continue c)"

definition Scan_fill :: "u32 \<Rightarrow> JpegDecContainer \<Rightarrow> JpegDecContainer" where
  "Scan_fill cs c =
     (let f = c_frame c;
          c = (if inf_X (c_info c) AND 0xF \<noteq> 0 then
                 c_info_update (\<lambda>i. i\<lparr>inf_X := inf_X i + 8, inf_fillX := 1\<rparr>) c
               else if (cs = 1 \<or> inf_yCbCrModeOrig (c_info c) = JPEGDEC_YUV440) \<and>
                       fr_X f AND 0xF \<noteq> 0 \<and> fr_X f AND 0xF \<le> 8 then
                 c_info_update (\<lambda>i. i\<lparr>inf_fillRight := 1\<rparr>) c
               else c)
      in (if inf_Y (c_info c) AND 0xF \<noteq> 0 then
            c_info_update (\<lambda>i. i\<lparr>inf_Y := inf_Y i + 8, inf_fillY := 1\<rparr>) c
          else if (cs = 1 \<or> inf_yCbCrModeOrig (c_info c) = JPEGDEC_YUV422) \<and>
                  fr_Y f AND 0xF \<noteq> 0 \<and> fr_Y f AND 0xF \<le> 8 then
            c_info_update (\<lambda>i. i\<lparr>inf_fillBottom := 1\<rparr>) c
          else c))"

text \<open>
  A scan of one component (Ns = 1): its identifier and table selectors, then the check and update
  of the component and the decoding info.
\<close>

definition Scan_one_component :: "u32 \<Rightarrow> u32 \<Rightarrow> JpegDecContainer \<Rightarrow> JpegDecContainer step" where
  "Scan_one_component cs tables c =
     (let c = scan_select (cs - 1) cs tables c in
      if fr_Nf (c_frame c) = 3 then
        (let c = c_info_update (\<lambda>i. i\<lparr>inf_fillRight := 0, inf_fillBottom := 0\<rparr>) c;
             c = pfNeeded_set (cs - 1) 0 c
         in andThen
              (if cs = 2 \<or> cs = 3 then Scan_chroma c
               else if cs = 1 then Scan_luma c
               else Return (JPEGDEC_UNSUPPORTED, set_yCbCrMode 0 c))
              (\<lambda>c. Continue (Scan_fill cs c)))
      else if fr_Nf (c_frame c) = 1 then Continue (c_info_update (\<lambda>i. i\<lparr>inf_yCbCr422 := 0\<rparr>) c)
      else Continue c)"

definition Scan_one_mode :: "JpegDecContainer \<Rightarrow> JpegDecContainer" where
  "Scan_one_mode c =
     (if inf_operationType (c_info c) = JPEGDEC_PROGRESSIVE \<or>
         inf_operationType (c_info c) = JPEGDEC_NONINTERLEAVED
      then set_yCbCrMode 0 c else c)"

definition Scan_one_type :: "JpegDecContainer \<Rightarrow> JpegDecContainer" where
  "Scan_one_type c =
     (if inf_operationType (c_info c) = JPEGDEC_BASELINE \<and> inf_yCbCrMode (c_info c) \<noteq> JPEGDEC_YUV400
      then c_info_update (\<lambda>i. i\<lparr>inf_operationType := JPEGDEC_NONINTERLEAVED\<rparr>) c else c)"

definition Scan_one :: "memory \<Rightarrow> JpegDecContainer \<Rightarrow> JpegDecContainer step" where
  "Scan_one mem c =
     (let (cs, c) = getByte mem (Scan_one_type c);
          c = c_frame_update (\<lambda>f. f\<lparr>fr_cIndex := cs - 1\<rparr>) c;
          c = c_info_update (\<lambda>i. i\<lparr>inf_componentId := cs - 1\<rparr>) c;
          (tables, c) = getByte mem c
      in if \<not> cs - 1 < MAX_NUMBER_OF_COMPONENTS then Undefined
         else andThen (Scan_one_component cs tables c) (\<lambda>c. Continue (Scan_one_mode c)))"

text \<open>A scan of several components: the loop writes one element for each of them.\<close>

definition Scan_select_next :: "memory \<Rightarrow> nat \<Rightarrow> JpegDecContainer \<Rightarrow> JpegDecContainer step" where
  "Scan_select_next mem i c =
     (if \<not> i < 3 then Undefined else
      let (cs, c) = getByte mem c;
          (tables, c) = getByte mem c
      in Continue (pfNeeded_set (of_nat i) 1 (scan_select (of_nat i) cs tables c)))"

definition Scan_many :: "memory \<Rightarrow> JpegDecContainer \<Rightarrow> JpegDecContainer step" where
  "Scan_many mem c =
     andThen (forEach [0..<unat (sc_Ns (c_scan c))] (Scan_select_next mem) c)
      (\<lambda>c. let c = set_Y (fr_hwY (c_frame c)) (set_X (fr_hwX (c_frame c)) c);
               c = c_frame_update (\<lambda>f. f\<lparr>fr_cIndex := 0\<rparr>) c
           in Continue (set_yCbCrMode (inf_yCbCrModeOrig (c_info c)) c))"

text \<open>The spectral selection and the approximation bits, checked against the coding type.\<close>

definition Scan_baseline :: "JpegDecContainer \<Rightarrow> JpegDecContainer step" where
  "Scan_baseline c =
     (let s = c_scan c in
      if fr_codingType (c_frame c) = SOF0 then
        (if sc_Ss s \<noteq> 0 then Return (JPEGDEC_UNSUPPORTED, c)
         else if sc_Se s \<noteq> 63 then Return (JPEGDEC_UNSUPPORTED, c)
         else if sc_Ah s \<noteq> 0 then Return (JPEGDEC_UNSUPPORTED, c)
         else if sc_Al s \<noteq> 0 then Return (JPEGDEC_UNSUPPORTED, c)
         else Continue (c_info_update (\<lambda>i. i\<lparr>
           inf_nonInterleaved := (if inf_operationType i = JPEGDEC_BASELINE then 0 else 1),
           inf_amountOfQTables :=
             (if fr_Nf (c_frame c) = 3 \<and> sc_Ns s = 1 \<or> fr_Nf (c_frame c) = 1 \<and> sc_Ns s = 1
              then 1 else 3)\<rparr>) c))
      else Continue c)"

definition Scan_progressive :: "JpegDecContainer \<Rightarrow> JpegDecContainer step" where
  "Scan_progressive c =
     (let s = c_scan c in
      if fr_codingType (c_frame c) = SOF2 then
        (if sc_Ss s = 0 \<and> sc_Se s \<noteq> 0 then Return (JPEGDEC_UNSUPPORTED, c)
         else if sc_Ah s > 13 then Return (JPEGDEC_UNSUPPORTED, c)
         else if sc_Al s > 13 then Return (JPEGDEC_UNSUPPORTED, c)
         else if sc_Ns s = 1 then
           Continue (c_info_update (\<lambda>i. i\<lparr>inf_nonInterleaved := 1,
             inf_componentId := fr_cIndex (c_frame c), inf_amountOfQTables := 1\<rparr>) c)
         else
           Continue (c_info_update (\<lambda>i. i\<lparr>inf_nonInterleaved := 0, inf_componentId := 0,
             inf_amountOfQTables := 3\<rparr>) c))
      else Continue c)"

definition Scan_parameters :: "memory \<Rightarrow> JpegDecContainer \<Rightarrow> JpegDecContainer" where
  "Scan_parameters mem c =
     (let (v, c) = getByte mem c;
          c = c_scan_update (\<lambda>s. s\<lparr>sc_Ss := v\<rparr>) c;
          (v, c) = getByte mem c;
          c = c_scan_update (\<lambda>s. s\<lparr>sc_Se := v\<rparr>) c;
          (tmp, c) = getByte mem c
      in c_scan_update (\<lambda>s. s\<lparr>sc_Ah := drop_bit 4 tmp, sc_Al := tmp AND 0x0F\<rparr>) c)"

definition Scan_body :: "memory \<Rightarrow> JpegDecContainer \<Rightarrow> unit step" where
  "Scan_body mem c =
     andThen (if sc_Ns (c_scan c) = 1 then Scan_one mem c else Scan_many mem c) (\<lambda>c.
     andThen (Scan_baseline (Scan_parameters mem c)) (\<lambda>c.
     andThen (Scan_progressive c) (\<lambda>c. Return (JPEGDEC_OK, c))))"

definition JpegDecDecodeScanHeader :: "memory \<Rightarrow> JpegDecContainer \<Rightarrow> unit step" where
  "JpegDecDecodeScanHeader mem c =
     (let (v, c) = get2Bytes mem c;
          c = c_scan_update (\<lambda>s. s\<lparr>sc_Ls := v\<rparr>) c
      in if segment_too_long (sc_Ls (c_scan c)) c then Return (JPEGDEC_STRM_ERROR, c) else
      let (v, c) = getByte mem c;
          c = c_scan_update (\<lambda>s. s\<lparr>sc_Ns := v\<rparr>) c;
          c = c_info_update (\<lambda>i. i\<lparr>inf_fillX := 0, inf_fillY := 0\<rparr>) c
      in Scan_body mem c)"

section \<open>JpegDecAllocateResidual\<close>

text \<open>The functions of os_allocator that the decoder calls, None for a null pointer.\<close>

record os_allocator =
  al_alloc :: "(addr \<Rightarrow> MppBufferInfo \<Rightarrow> int \<times> MppBufferInfo) option"
  al_free :: "(addr \<Rightarrow> MppBufferInfo \<Rightarrow> MppBufferInfo) option"
  al_mmap :: "addr \<Rightarrow> MppBufferInfo \<Rightarrow> MppBufferInfo"

text \<open>
  Allocation of the table buffer: tmp starts as JPEGDEC_ERROR (-1), alloc and mmap work on
  frame.pTableBase.
\<close>

definition alloc_tables :: "os_allocator \<Rightarrow> u32 \<Rightarrow> JpegDecContainer \<Rightarrow> int \<times> JpegDecContainer" where
  "alloc_tables al tableSize c =
     (case al_alloc al of
        None \<Rightarrow> (- 1, c)
      | Some alloc \<Rightarrow>
          let b = (fr_pTableBase (c_frame c))\<lparr>mb_size := tableSize\<rparr>;
              (tmp, b) = alloc (c_ctx c) b;
              b = al_mmap al (c_ctx c) b
          in (tmp, c_frame_update (\<lambda>f. f\<lparr>fr_pTableBase := b\<rparr>) c))"

definition AllocateResidual_tables :: "os_allocator \<Rightarrow> JpegDecContainer \<Rightarrow> JpegDecContainer step" where
  "AllocateResidual_tables al c =
     (let tableSize = (if inf_operationType (c_info c) = JPEGDEC_PROGRESSIVE
                       then JPEGDEC_PROGRESSIVE_TABLE_SIZE else JPEGDEC_BASELINE_TABLE_SIZE)
      in if mb_vir_addr (fr_pTableBase (c_frame c)) = 0 then
           (let (tmp, c) = alloc_tables al tableSize c
            in if tmp = - 1 then Return (JPEGDEC_MEMFAIL, c) else Continue c)
         else if tableSize \<noteq> mb_size (fr_pTableBase (c_frame c)) then
           (let c = (case al_free al of
                       None \<Rightarrow> c
                     | Some free \<Rightarrow>
                         c_frame_update (\<lambda>f. f\<lparr>fr_pTableBase := free (c_ctx c) (fr_pTableBase f)\<rparr>) c);
                (tmp, c) = alloc_tables al tableSize c
            in if tmp = - 1 then Return (JPEGDEC_MEMFAIL, c) else Continue c)
         else Continue c)"

text \<open>
  The output buffers. The low ten bits of phy_addr name the buffer, an offset into it is added
  shifted by ten.
\<close>

definition out_luma :: "MppBufferInfo \<Rightarrow> JpegDecContainer \<Rightarrow> JpegDecContainer" where
  "out_luma b c =
     c_info_update (\<lambda>i. i\<lparr>inf_outLuma := b\<rparr>)
       (c_asicBuff_update (\<lambda>a. a\<lparr>ab_outLumaBuffer := b\<rparr>) c)"

definition out_chroma :: "JpegDecContainer \<Rightarrow> JpegDecContainer" where
  "out_chroma c =
     c_info_update (\<lambda>i. i\<lparr>inf_outChroma := ab_outChromaBuffer (c_asicBuff c),
       inf_outChroma2 := ab_outChromaBuffer2 (c_asicBuff c)\<rparr>) c"

definition AllocateResidual_output :: "JpegDecContainer \<Rightarrow> JpegDecContainer step" where
  "AllocateResidual_output c =
     (if c_ppInstance c = 0 \<or> c_ppInstance c \<noteq> 0 \<and> pp_usePipeline (c_ppControl c) = 0 then
        (if mb_vir_addr (inf_givenOutLuma (c_info c)) = 0 then
           (case c_pictureMem c of
              None \<Rightarrow> Undefined
            | Some pic \<Rightarrow>
                let c = out_luma pic c
                in if img_sizeChroma (c_image c) \<noteq> 0 then
                  let c = c_asicBuff_update (\<lambda>a. a\<lparr>ab_outChromaBuffer := (ab_outChromaBuffer a)\<lparr>
                        mb_phy_addr := mb_phy_addr (ab_outLumaBuffer a) + push_bit 10 (img_sizeLuma (c_image c))\<rparr>\<rparr>) c;
                      c = c_asicBuff_update (\<lambda>a. a\<lparr>ab_outChromaBuffer2 := (ab_outChromaBuffer2 a)\<lparr>
                        mb_phy_addr := (if inf_operationType (c_info c) \<noteq> JPEGDEC_BASELINE
                          then mb_phy_addr (ab_outChromaBuffer a) + push_bit 10 (img_sizeChroma (c_image c) div 2)
                          else 0)\<rparr>\<rparr>) c
                  in Continue (out_chroma c)
                else Continue c)
         else
           let i = c_info c;
               c = c_asicBuff_update (\<lambda>a. a\<lparr>
                 ab_outLumaBuffer := (ab_outLumaBuffer a)\<lparr>mb_vir_addr := mb_vir_addr (inf_givenOutLuma i),
                   mb_phy_addr := mb_phy_addr (inf_givenOutLuma i)\<rparr>,
                 ab_outChromaBuffer := (ab_outChromaBuffer a)\<lparr>mb_vir_addr := mb_vir_addr (inf_givenOutChroma i),
                   mb_phy_addr := mb_phy_addr (inf_givenOutChroma i)\<rparr>,
                 ab_outChromaBuffer2 := (ab_outChromaBuffer2 a)\<lparr>mb_vir_addr := mb_vir_addr (inf_givenOutChroma2 i),
                   mb_phy_addr := mb_phy_addr (inf_givenOutChroma2 i)\<rparr>\<rparr>) c
           in case c_pictureMem c of
                None \<Rightarrow> Undefined
              | Some pic \<Rightarrow>
                  let c = out_luma pic c;
                      c = (if img_sizeChroma (c_image c) \<noteq> 0 then out_chroma c else c)
                  in Continue (c_info_update (\<lambda>i. i\<lparr>inf_userAllocMem := 1\<rparr>) c))
      else Continue c)"

definition JpegDecAllocateResidual :: "os_allocator \<Rightarrow> JpegDecContainer \<Rightarrow> unit step" where
  "JpegDecAllocateResidual al c =
     andThen (AllocateResidual_tables al c) (\<lambda>c.
     andThen (AllocateResidual_output c) (\<lambda>c. Return (JPEGDEC_OK, c)))"

section \<open>JpegDecDecodeScan\<close>

text \<open>The buffers of a scan that is not the first of its picture.\<close>

definition Scan_next_output :: "JpegDecContainer \<Rightarrow> JpegDecContainer step" where
  "Scan_next_output c =
     (case c_pictureMem c of
        None \<Rightarrow> Undefined
      | Some pic \<Rightarrow>
          let c = out_luma pic c
          in if img_sizeChroma (c_image c) \<noteq> 0 then
            let c = c_asicBuff_update (\<lambda>a. a\<lparr>ab_outChromaBuffer := (ab_outChromaBuffer a)\<lparr>
                  mb_phy_addr := mb_phy_addr (ab_outLumaBuffer a) + push_bit 10 (img_sizeLuma (c_image c))\<rparr>\<rparr>) c;
                c = c_asicBuff_update (\<lambda>a. a\<lparr>ab_outChromaBuffer2 := (ab_outChromaBuffer2 a)\<lparr>
                  mb_phy_addr := (if inf_operationType (c_info c) \<noteq> JPEGDEC_BASELINE
                    then mb_phy_addr (ab_outChromaBuffer a) + img_sizeChroma (c_image c) div 2
                    else 0)\<rparr>\<rparr>) c
            in Continue (out_chroma c)
          else Continue c)"

text \<open>A function that returns JPEGDEC_OK lets its caller go on.\<close>

definition on_ok :: "unit step \<Rightarrow> (JpegDecContainer \<Rightarrow> 'a step) \<Rightarrow> 'a step" where
  "on_ok m f = (case m of
     Continue u \<Rightarrow> Undefined
   | Return r \<Rightarrow> if fst r \<noteq> JPEGDEC_OK then Return r else f (snd r)
   | Undefined \<Rightarrow> Undefined
   | OutOfFuel \<Rightarrow> OutOfFuel)"

definition JpegDecDecodeScan :: "memory \<Rightarrow> os_allocator \<Rightarrow> JpegDecContainer \<Rightarrow> unit step" where
  "JpegDecDecodeScan mem al c =
     on_ok (JpegDecDecodeScanHeader mem c) (\<lambda>c.
       if inf_allocated (c_info c) = 0 then
         on_ok (JpegDecAllocateResidual al c)
           (\<lambda>c. Return (JPEGDEC_OK, c_info_update (\<lambda>i. i\<lparr>inf_allocated := 1\<rparr>) c))
       else andThen (Scan_next_output c) (\<lambda>c. Return (JPEGDEC_OK, c)))"

section \<open>JpegDecSliceSizeCalculation\<close>

definition JpegDecSliceSizeCalculation :: "JpegDecContainer \<Rightarrow> JpegDecContainer" where
  "JpegDecSliceSizeCalculation c =
     (let i = c_info c in
      if (inf_SliceCount i + 1) * (inf_sliceMbSetValue i * 16) > inf_Y i then
        c_info_update (\<lambda>i. i\<lparr>inf_sliceHeight := inf_Y i div 16 - inf_SliceCount i * inf_sliceHeight i\<rparr>) c
      else if inf_operationType i = JPEGDEC_PROGRESSIVE \<and> inf_componentId i \<noteq> 0 then
        c_info_update (\<lambda>i. i\<lparr>inf_sliceHeight := inf_sliceMbSetValue i div 2\<rparr>) c
      else c_info_update (\<lambda>i. i\<lparr>inf_sliceHeight := inf_sliceMbSetValue i\<rparr>) c)"

section \<open>Scans of one component\<close>

lemma and_0xF: "unat (x AND 0xF :: u32) = unat x mod 16"
proof -
  have "x AND 0xF = take_bit 4 x" by (simp add: take_bit_eq_mask mask_eq_exp_minus_1)
  then show ?thesis by (simp add: take_bit_eq_mod unat_mod)
qed

definition whole_blocks :: "nat \<Rightarrow> JpegDecContainer \<Rightarrow> bool" where
  "whole_blocks n c \<longleftrightarrow> n dvd unat (inf_X (c_info c)) \<and> n dvd unat (inf_Y (c_info c)) \<and>
     unat (inf_X (c_info c)) < 2 ^ 17 \<and> unat (inf_Y (c_info c)) < 2 ^ 17"

lemma add8_dvd:
  fixes x :: u32
  assumes "8 dvd unat x" "unat x < 2 ^ 17" "x AND 0xF \<noteq> 0"
  shows "16 dvd unat (x + 8)" "unat (x + 8) = unat x + 8"
proof -
  have "unat x mod 16 \<noteq> 0" using assms(3) and_0xF [of x] by (metis unat_eq_zero)
  moreover have "unat x mod 8 = 0" using assms(1) by simp
  ultimately have "(unat x + 8) mod 16 = 0" by presburger
  moreover show u: "unat (x + 8) = unat x + 8" using assms(2) by (simp add: u32_add)
  ultimately show "16 dvd unat (x + 8)" by presburger
qed

lemma and15_dvd: "x AND 0xF = (0 :: u32) \<Longrightarrow> 16 dvd unat x"
  using and_0xF [of x] by (simp add: mod_eq_0_iff_dvd)

definition half_hw :: "JpegDecContainer \<Rightarrow> bool" where
  "half_hw c \<longleftrightarrow> 16 dvd unat (fr_hwX (c_frame c)) \<and> 16 dvd unat (fr_hwY (c_frame c)) \<and>
     unat (fr_hwX (c_frame c)) < 2 ^ 16 \<and> unat (fr_hwY (c_frame c)) < 2 ^ 16"

lemma Scan_fill_XY:
  "inf_X (c_info (Scan_fill cs c)) = (if inf_X (c_info c) AND 0xF \<noteq> 0 then inf_X (c_info c) + 8 else inf_X (c_info c))"
  "inf_Y (c_info (Scan_fill cs c)) = (if inf_Y (c_info c) AND 0xF \<noteq> 0 then inf_Y (c_info c) + 8 else inf_Y (c_info c))"
  "c_frame (Scan_fill cs c) = c_frame c"
  by (simp_all add: Scan_fill_def Let_def)

lemma Scan_fill_blocks:
  assumes "whole_blocks 8 c"
  shows "16 dvd unat (inf_X (c_info (Scan_fill cs c)))" "16 dvd unat (inf_Y (c_info (Scan_fill cs c)))"
  unfolding Scan_fill_XY using assms and15_dvd
  by (auto simp only: whole_blocks_def split: if_splits intro!: add8_dvd(1))

lemma half_dvd:
  fixes x :: u32
  assumes "16 dvd unat x"
  shows "8 dvd unat (drop_bit (Suc 0) x)" "unat (drop_bit (Suc 0) x) \<le> unat x"
proof -
  have "unat (drop_bit (Suc 0) x) = unat x div 2" by (simp add: drop_bit_eq_div unat_div)
  moreover obtain k where "unat x = 16 * k" using assms by (elim dvdE)
  ultimately show "8 dvd unat (drop_bit (Suc 0) x)" "unat (drop_bit (Suc 0) x) \<le> unat x" by simp_all
qed

lemma half_hw_parts [simp]:
  "half_hw (c_info_update g c) = half_hw c" "half_hw (c_scan_update h c) = half_hw c"
  "half_hw (c\<lparr>c_stream := s\<rparr>) = half_hw c"
  by (simp_all add: half_hw_def)

lemma Scan_chroma_ends:
  assumes "half_hw c" "whole_blocks 8 c"
  shows "ends_in (Scan_chroma c) (\<lambda>c'. c_frame c' = c_frame c \<and> whole_blocks 8 c') (\<lambda>r. fst r \<noteq> JPEGDEC_OK)"
  using assms half_dvd
  unfolding Scan_chroma_def Let_def
  by (intro ends_in_intros)
    (auto simp: whole_blocks_def half_hw_def set_X_def set_Y_def set_yCbCrMode_def intro: order.strict_trans1 [OF half_dvd(2)])

lemma Scan_luma_ends:
  assumes "half_hw c"
  shows "ends_in (Scan_luma c) (\<lambda>c'. c_frame c' = c_frame c \<and> whole_blocks 8 c') (\<lambda>r. fst r \<noteq> JPEGDEC_OK)"
  using assms
  unfolding Scan_luma_def Let_def
  by (auto simp: whole_blocks_def half_hw_def set_X_def set_Y_def set_yCbCrMode_def intro: dvd_trans [of 8 16])

lemma ends_in_not_Undefined: "ends_in m P Q \<Longrightarrow> m \<noteq> Undefined"
  by (cases m) auto

lemma Scan_one_split:
  "\<exists>c2 tables. c_frame c2 = (c_frame c)\<lparr>fr_cIndex := fst (getByte mem c) - 1\<rparr> \<and>
     inf_X (c_info c2) = inf_X (c_info c) \<and> inf_Y (c_info c2) = inf_Y (c_info c) \<and>
     Scan_one mem c = (if \<not> fst (getByte mem c) - 1 < MAX_NUMBER_OF_COMPONENTS then Undefined
       else andThen (Scan_one_component (fst (getByte mem c)) tables c2) (\<lambda>c. Continue (Scan_one_mode c)))"
proof -
  let ?c1 = "Scan_one_type c"
  have s: "c_stream ?c1 = c_stream c" "c_frame ?c1 = c_frame c" "inf_X (c_info ?c1) = inf_X (c_info c)"
    "inf_Y (c_info ?c1) = inf_Y (c_info c)" by (simp_all add: Scan_one_type_def)
  obtain v s1 where g: "JpegDecGetByte mem (c_stream c) = (v, s1)" by fastforce
  obtain w s2 where h: "JpegDecGetByte mem s1 = (w, s2)" by fastforce
  let ?c2 = "c_info_update (\<lambda>i. i\<lparr>inf_componentId := v - 1\<rparr>)
    (c_frame_update (\<lambda>f. f\<lparr>fr_cIndex := v - 1\<rparr>) (?c1\<lparr>c_stream := s1\<rparr>))\<lparr>c_stream := s2\<rparr>"
  show ?thesis
    by (rule exI [of _ ?c2], rule exI [of _ w]) (simp add: Scan_one_def getByte_def g h s Let_def)
qed

lemma Scan_one_component_ends:
  assumes "half_hw c" "whole_blocks 8 c" "fr_Nf (c_frame c) = 3"
  shows "ends_in (Scan_one_component cs tables c)
    (\<lambda>c'. c_frame c' = c_frame c \<and> 16 dvd unat (inf_X (c_info c')) \<and> 16 dvd unat (inf_Y (c_info c')))
    (\<lambda>r. fst r \<noteq> JPEGDEC_OK)"
proof -
  let ?c = "pfNeeded_set (cs - 1) 0 (c_info_update (\<lambda>i. i\<lparr>inf_fillRight := 0, inf_fillBottom := 0\<rparr>)
    (scan_select (cs - 1) cs tables c))"
  have c: "half_hw ?c" "whole_blocks 8 ?c" "c_frame ?c = c_frame c"
    using assms by (simp_all add: pfNeeded_set_def scan_select_def whole_blocks_def half_hw_def)
  have e: "ends_in (andThen (if cs = 2 \<or> cs = 3 then Scan_chroma ?c else if cs = 1 then Scan_luma ?c
              else Return (JPEGDEC_UNSUPPORTED, set_yCbCrMode 0 ?c)) (\<lambda>c. Continue (Scan_fill cs c)))
    (\<lambda>c'. c_frame c' = c_frame c \<and> 16 dvd unat (inf_X (c_info c')) \<and> 16 dvd unat (inf_Y (c_info c')))
    (\<lambda>r. fst r \<noteq> JPEGDEC_OK)"
    by (rule ends_in_andThen [where P = "\<lambda>c'. c_frame c' = c_frame ?c \<and> whole_blocks 8 c'"])
      (use Scan_chroma_ends [OF c(1,2)] Scan_luma_ends [OF c(1)] Scan_fill_blocks c(3) Scan_fill_XY(3) in auto)
  have "fr_Nf (c_frame (scan_select (cs - 1) cs tables c)) = 3" using assms(3) by (simp add: scan_select_def)
  then show ?thesis
    unfolding Scan_one_component_def Let_def using e by simp
qed

lemma Scan_one_component_defined: "Scan_one_component cs tables c \<noteq> Undefined"
  by (auto simp: Scan_one_component_def Let_def Scan_chroma_def Scan_luma_def andThen_Undefined_iff split: if_splits)

lemma Scan_one_Undefined:
  "Scan_one mem c = Undefined \<longleftrightarrow> \<not> fst (getByte mem c) - 1 < MAX_NUMBER_OF_COMPONENTS"
proof -
  obtain c2 t where "Scan_one mem c = (if \<not> fst (getByte mem c) - 1 < MAX_NUMBER_OF_COMPONENTS then Undefined
       else andThen (Scan_one_component (fst (getByte mem c)) t c2) (\<lambda>c. Continue (Scan_one_mode c)))"
    using Scan_one_split [of mem c] by blast
  then show ?thesis using Scan_one_component_defined by (simp add: andThen_Undefined_iff)
qed

lemma Scan_one_blocks:
  assumes "half_hw c" "whole_blocks 8 c" "fr_Nf (c_frame c) = 3" "Scan_one mem c = Continue c'"
  shows "16 dvd unat (inf_X (c_info c')) \<and> 16 dvd unat (inf_Y (c_info c'))"
proof -
  obtain c2 t where c2: "c_frame c2 = (c_frame c)\<lparr>fr_cIndex := fst (getByte mem c) - 1\<rparr>"
     "inf_X (c_info c2) = inf_X (c_info c)" "inf_Y (c_info c2) = inf_Y (c_info c)"
     "Scan_one mem c = (if \<not> fst (getByte mem c) - 1 < MAX_NUMBER_OF_COMPONENTS then Undefined
       else andThen (Scan_one_component (fst (getByte mem c)) t c2) (\<lambda>c. Continue (Scan_one_mode c)))"
    using Scan_one_split [of mem c] by blast
  have "half_hw c2" "whole_blocks 8 c2" "fr_Nf (c_frame c2) = 3"
    using assms c2 by (simp_all add: half_hw_def whole_blocks_def)
  note e = Scan_one_component_ends [OF this]
  obtain c3 where "Scan_one_component (fst (getByte mem c)) t c2 = Continue c3"
     "c' = Scan_one_mode c3"
    using assms(4) c2(4) by (auto simp: andThen_Continue_iff split: if_splits)
  then show ?thesis
    using e [of "fst (getByte mem c)" t]
    by (auto simp: Scan_one_mode_def set_yCbCrMode_def)
qed

lemma Scan_baseline_defined: "Scan_baseline c \<noteq> Undefined" "Scan_progressive c \<noteq> Undefined"
  by (simp_all add: Scan_baseline_def Scan_progressive_def Let_def)

lemma ScanHeader_start:
  assumes "strm_bytes_ok (c_stream c)" "stream_has mem (c_stream c) (be16 n @ ns # bs)" "n < 65536"
    "n \<le> length bs + 1"
  defines "c1 \<equiv> c_info_update (\<lambda>i. i\<lparr>inf_fillX := 0, inf_fillY := 0\<rparr>)
    (c_scan_update (\<lambda>s. s\<lparr>sc_Ls := of_nat n, sc_Ns := ucast ns\<rparr>) (c\<lparr>c_stream := strm_adv 3 (c_stream c)\<rparr>))"
  shows "JpegDecDecodeScanHeader mem c =
    andThen (if ns = 1 then Scan_one mem c1 else Scan_many mem c1) (\<lambda>c.
         andThen (Scan_baseline (Scan_parameters mem c)) (\<lambda>c.
         andThen (Scan_progressive c) (\<lambda>c. Return (JPEGDEC_OK, c))))"
    and "strm_bytes_ok (c_stream c1)" and "stream_has mem (c_stream c1) bs"
proof -
  note g = get2Bytes_be16 [OF assms(1,2,3)]
  let ?c = "c_scan_update (\<lambda>s. s\<lparr>sc_Ls := of_nat n\<rparr>) (c\<lparr>c_stream := strm_adv 2 (c_stream c)\<rparr>)"
  have ok: "strm_bytes_ok (c_stream ?c)" "stream_has mem (c_stream ?c) (ns # bs)" using g by simp_all
  note h = stream_has_Cons [OF ok]
  have "n \<le> strm_left (c_stream ?c)" using ok(2) assms(4) by (simp add: stream_has_def)
  moreover have "unat (of_nat n :: u32) = n" using assms(3) by (simp add: unat_of_nat)
  ultimately have "\<not> segment_too_long (of_nat n) ?c"
    using segment_fits [OF ok(1), of "of_nat n"] assms(3) by simp
  moreover have gb: "getByte mem ?c = (ucast ns, ?c\<lparr>c_stream := strm_adv (Suc 0) (c_stream ?c)\<rparr>)"
    using h by (simp add: getByte_eq [OF ok(1)])
  moreover have "(ucast ns :: u32) = 1 \<longleftrightarrow> ns = 1"
    using u8_unat [of ns] by (auto simp: word_unat_eq_iff)
  ultimately show "JpegDecDecodeScanHeader mem c =
    andThen (if ns = 1 then Scan_one mem c1 else Scan_many mem c1) (\<lambda>c.
         andThen (Scan_baseline (Scan_parameters mem c)) (\<lambda>c.
         andThen (Scan_progressive c) (\<lambda>c. Return (JPEGDEC_OK, c))))"
    unfolding JpegDecDecodeScanHeader_def Scan_body_def g(1) Let_def prod.case gb
    by (simp add: c1_def strm_adv_adv numeral_3_eq_3 numeral_2_eq_2 comp_def)
  show "strm_bytes_ok (c_stream c1)" "stream_has mem (c_stream c1) bs"
    using h(3,4) by (simp_all add: c1_def strm_adv_adv numeral_3_eq_3 numeral_2_eq_2)
qed

lemma byte_component: "(ucast cs :: u32) - 1 < 3 \<longleftrightarrow> cs \<in> {1, 2, 3}" for cs :: u8
proof (cases "cs = 0")
  case False
  then have "1 \<le> unat cs" by (simp add: Suc_le_eq word_unat_eq_iff)
  then have "unat ((ucast cs :: u32) - 1) = unat cs - 1" by (subst unat_sub) (simp_all add: word_le_nat_alt)
  then have "(ucast cs :: u32) - 1 < 3 \<longleftrightarrow> unat cs < 4" using \<open>1 \<le> unat cs\<close> by (auto simp: word_less_nat_alt)
  also have "\<dots> \<longleftrightarrow> unat cs = 1 \<or> unat cs = 2 \<or> unat cs = 3" using \<open>1 \<le> unat cs\<close> by auto
  also have "\<dots> \<longleftrightarrow> cs \<in> {1, 2, 3}" by (simp add: word_unat_eq_iff)
  finally show ?thesis .
qed simp

lemma ScanHeader_one_Undefined:
  assumes "strm_bytes_ok (c_stream c)" "stream_has mem (c_stream c) (be16 n @ 1 # cs # bs)" "n < 65536"
    "n \<le> length bs + 2"
  shows "JpegDecDecodeScanHeader mem c = Undefined \<longleftrightarrow> cs \<notin> {1, 2, 3}"
proof -
  note h = ScanHeader_start [OF assms(1,2,3)]
  let ?c = "c_info_update (\<lambda>i. i\<lparr>inf_fillX := 0, inf_fillY := 0\<rparr>)
    (c_scan_update (\<lambda>s. s\<lparr>sc_Ls := of_nat n, sc_Ns := ucast (1 :: u8)\<rparr>) (c\<lparr>c_stream := strm_adv 3 (c_stream c)\<rparr>))"
  have n: "n \<le> length (cs # bs) + 1" using assms(4) by simp
  have "fst (getByte mem ?c) = ucast cs"
    using stream_has_Cons [OF h(2,3) [OF n]] h(2) [OF n] by (simp add: getByte_eq)
  moreover have "(ucast cs :: u32) - 1 < 3 \<longleftrightarrow> cs \<in> {1, 2, 3}" by (rule byte_component)
  ultimately show ?thesis
    unfolding h(1) [OF n] using Scan_one_Undefined [of mem ?c] Scan_baseline_defined
    by (auto simp: andThen_Undefined_iff MAX_NUMBER_OF_COMPONENTS_def)
qed

lemma forEach_Undefined:
  assumes "\<And>i s. i \<in> set xs \<Longrightarrow> \<exists>s'. body i s = Continue s'" "\<And>s. body x s = Undefined"
  shows "forEach (xs @ x # ys) body s = Undefined"
  using assms
proof (induction xs arbitrary: s)
  case (Cons a xs)
  obtain s' where "body a s = Continue s'" using Cons.prems(1) by (meson list.set_intros(1))
  then show ?case using Cons by simp
qed simp

lemma Scan_many_Undefined:
  assumes "3 < sc_Ns (c_scan c)"
  shows "Scan_many mem c = Undefined"
proof -
  define n where "n = unat (sc_Ns (c_scan c))"
  have "3 < n" using assms by (simp add: n_def word_less_nat_alt)
  then have u: "[0..<n] = [0, 1, 2] @ 3 # [4..<n]" by (simp add: upt_conv_Cons numeral_eq_Suc)
  have "forEach ([0, 1, 2] @ 3 # [4..<n]) (Scan_select_next mem) c = Undefined"
  proof (rule forEach_Undefined)
    show "\<exists>s'. Scan_select_next mem i s = Continue s'" if "i \<in> set [0, 1, 2]" for i s
      using that by (auto simp: Scan_select_next_def Let_def split: prod.split)
    show "Scan_select_next mem 3 s = Undefined" for s by (simp add: Scan_select_next_def)
  qed
  then show ?thesis by (simp add: Scan_many_def n_def [symmetric] u)
qed

lemma Scan_many_defined:
  assumes "sc_Ns (c_scan c) \<le> 3"
  shows "\<exists>c'. Scan_many mem c = Continue c'"
proof -
  have n: "unat (sc_Ns (c_scan c)) \<le> 3" using assms by (simp add: word_le_nat_alt)
  have "ends_in (forEach [0..<unat (sc_Ns (c_scan c))] (Scan_select_next mem) c) (\<lambda>_. True) (\<lambda>_. False)"
    by (rule ends_in_forEach) (use n in \<open>auto simp: Scan_select_next_def Let_def split: prod.split\<close>)
  then show ?thesis
    by (cases "forEach [0..<unat (sc_Ns (c_scan c))] (Scan_select_next mem) c") (auto simp: Scan_many_def Let_def)
qed

lemma ScanHeader_many_Undefined:
  assumes "strm_bytes_ok (c_stream c)" "stream_has mem (c_stream c) (be16 n @ ns # bs)" "n < 65536"
    "n \<le> length bs + 1" "ns \<noteq> 1"
  shows "JpegDecDecodeScanHeader mem c = Undefined \<longleftrightarrow> 3 < ns"
proof -
  note h = ScanHeader_start [OF assms(1,2,3,4)]
  let ?c = "c_info_update (\<lambda>i. i\<lparr>inf_fillX := 0, inf_fillY := 0\<rparr>)
    (c_scan_update (\<lambda>s. s\<lparr>sc_Ls := of_nat n, sc_Ns := ucast ns\<rparr>) (c\<lparr>c_stream := strm_adv 3 (c_stream c)\<rparr>))"
  have lt: "3 < (ucast ns :: u32) \<longleftrightarrow> 3 < ns" by (simp add: word_less_nat_alt)
  show ?thesis
  proof (cases "3 < ns")
    case True
    then show ?thesis using Scan_many_Undefined [of ?c mem] lt assms(5) by (simp add: h(1) andThen_Undefined_iff)
  next
    case False
    then obtain c' where "Scan_many mem ?c = Continue c'" using Scan_many_defined [of ?c mem] lt by (auto simp: not_less)
    then show ?thesis using False assms(5) Scan_baseline_defined by (simp add: h(1) andThen_Undefined_iff)
  qed
qed

section \<open>Accepted scan headers\<close>

definition scan_params_ok :: "JpegDecContainer \<Rightarrow> bool" where
  "scan_params_ok c \<longleftrightarrow>
     (let s = c_scan c; i = c_info c; t = fr_codingType (c_frame c) in
      (t = SOF0 \<longrightarrow> sc_Ss s = 0 \<and> sc_Se s = 63 \<and> sc_Ah s = 0 \<and> sc_Al s = 0 \<and>
         (inf_nonInterleaved i = 0 \<longleftrightarrow> inf_operationType i = JPEGDEC_BASELINE)) \<and>
      (t = SOF2 \<longrightarrow> sc_Ah s \<le> 13 \<and> sc_Al s \<le> 13 \<and> (sc_Ss s = 0 \<longrightarrow> sc_Se s = 0) \<and>
         (inf_nonInterleaved i = 1 \<longleftrightarrow> sc_Ns s = 1)))"

lemma Scan_checks:
  assumes "Scan_baseline c = Continue c1" "Scan_progressive c1 = Continue c2"
  shows "scan_params_ok c2 \<and> inf_X (c_info c2) = inf_X (c_info c) \<and> inf_Y (c_info c2) = inf_Y (c_info c)
    \<and> c_frame c2 = c_frame c"
  using assms
  by (auto simp: Scan_baseline_def Scan_progressive_def Let_def scan_params_ok_def marker_defs not_less
      split: if_splits)

lemma Scan_parameters_parts:
  "inf_X (c_info (Scan_parameters mem c)) = inf_X (c_info c)"
  "inf_Y (c_info (Scan_parameters mem c)) = inf_Y (c_info c)" "c_frame (Scan_parameters mem c) = c_frame c"
  by (simp_all add: Scan_parameters_def getByte_def split_def Let_def)

lemma Scan_one_Return: "Scan_one mem c = Return r \<Longrightarrow> fst r \<noteq> JPEGDEC_OK"
proof -
  assume a: "Scan_one mem c = Return r"
  have *: "fst r \<noteq> JPEGDEC_OK" if "Scan_one_component cs t d = Return r" for cs t d
    using that by (auto simp: Scan_one_component_def Let_def Scan_chroma_def Scan_luma_def andThen_Return_iff split: if_splits)
  obtain c2 t where "Scan_one mem c = (if \<not> fst (getByte mem c) - 1 < MAX_NUMBER_OF_COMPONENTS then Undefined
       else andThen (Scan_one_component (fst (getByte mem c)) t c2) (\<lambda>c. Continue (Scan_one_mode c)))"
    using Scan_one_split [of mem c] by blast
  then have "andThen (Scan_one_component (fst (getByte mem c)) t c2) (\<lambda>c. Continue (Scan_one_mode c)) = Return r"
    using a by (simp split: if_splits)
  then show ?thesis using * unfolding andThen_Return_iff by auto
qed

lemma Scan_many_Return: "Scan_many mem c \<noteq> Return r"
proof -
  have "forEach xs (Scan_select_next mem) s \<noteq> Return r" for xs s
  proof (induction xs arbitrary: s)
    case (Cons i xs)
    then show ?case by (auto simp: andThen_Return_iff Scan_select_next_def Let_def split: prod.splits if_splits)
  qed simp
  then show ?thesis by (auto simp: Scan_many_def andThen_Return_iff Let_def)
qed

lemma Scan_checks_Return: "Scan_baseline c \<noteq> Return (JPEGDEC_OK, c')" "Scan_progressive c \<noteq> Return (JPEGDEC_OK, c')"
  by (simp_all add: Scan_baseline_def Scan_progressive_def Let_def)

lemma ScanHeader_ok:
  assumes "JpegDecDecodeScanHeader mem c = Return (JPEGDEC_OK, c')"
  shows "\<exists>c1 c2. c_frame c1 = c_frame c \<and> inf_X (c_info c1) = inf_X (c_info c) \<and> inf_Y (c_info c1) = inf_Y (c_info c) \<and>
    (if sc_Ns (c_scan c1) = 1 then Scan_one mem c1 else Scan_many mem c1) = Continue c2 \<and>
    scan_params_ok c' \<and> inf_X (c_info c') = inf_X (c_info c2) \<and> inf_Y (c_info c') = inf_Y (c_info c2)"
proof -
  obtain c1 where c1: "c_frame c1 = c_frame c" "inf_X (c_info c1) = inf_X (c_info c)" "inf_Y (c_info c1) = inf_Y (c_info c)"
    and b: "Scan_body mem c1 = Return (JPEGDEC_OK, c')"
  proof -
    define ca where "ca = c_scan_update (sc_Ls_update (\<lambda>_. fst (get2Bytes mem c))) (snd (get2Bytes mem c))"
    define cb where "cb = c_info_update (\<lambda>i. i\<lparr>inf_fillX := 0, inf_fillY := 0\<rparr>)
      (c_scan_update (sc_Ns_update (\<lambda>_. fst (getByte mem ca))) (snd (getByte mem ca)))"
    have "(if segment_too_long (sc_Ls (c_scan ca)) ca then Return (JPEGDEC_STRM_ERROR, ca) else Scan_body mem cb)
        = Return (JPEGDEC_OK, c')"
      using assms unfolding JpegDecDecodeScanHeader_def Let_def split_def ca_def cb_def by simp
    then have "Scan_body mem cb = Return (JPEGDEC_OK, c')" by (simp split: if_splits)
    moreover have "c_frame cb = c_frame c" "inf_X (c_info cb) = inf_X (c_info c)" "inf_Y (c_info cb) = inf_Y (c_info c)"
      by (simp_all add: cb_def ca_def get2Bytes_def getByte_def split_def Let_def)
    ultimately show ?thesis using that by blast
  qed
  obtain c2 where c2: "(if sc_Ns (c_scan c1) = 1 then Scan_one mem c1 else Scan_many mem c1) = Continue c2"
    "andThen (Scan_baseline (Scan_parameters mem c2)) (\<lambda>c.
         andThen (Scan_progressive c) (\<lambda>c. Return (JPEGDEC_OK, c))) = Return (JPEGDEC_OK, c')"
    using b Scan_one_Return [of mem c1 "(JPEGDEC_OK, c')"] Scan_many_Return [of mem c1 "(JPEGDEC_OK, c')"]
    unfolding Scan_body_def andThen_Return_iff by (auto split: if_splits)
  then obtain c3 where c3: "Scan_baseline (Scan_parameters mem c2) = Continue c3" "Scan_progressive c3 = Continue c'"
    using Scan_checks_Return by (auto simp: andThen_Return_iff)
  show ?thesis
    by (rule exI [of _ c1], rule exI [of _ c2])
      (use c1 c2(1) Scan_checks [OF c3] Scan_parameters_parts [of mem c2] in auto)
qed

text \<open>
  C6. JpegDecDecodeScanHeader on a complete scan header reads and writes within the arrays of the
  container exactly when the header selects one component with identifier 1, 2 or 3, or at most
  three components: a scan of one component with another identifier indexes scan.Cs out of bounds,
  a scan of more than three components runs over its end.
\<close>

theorem ScanHeader_undefined_iff:
  assumes "strm_bytes_ok (c_stream c)" "stream_has mem (c_stream c) (be16 n @ ns # cs # bs)" "n < 65536"
    "n \<le> length bs + 2"
  shows "JpegDecDecodeScanHeader mem c = Undefined \<longleftrightarrow> (ns = 1 \<and> cs \<notin> {1, 2, 3}) \<or> 3 < ns"
  using ScanHeader_one_Undefined [of c mem n cs bs] ScanHeader_many_Undefined [of c mem n ns "cs # bs"] assms
  by (cases "ns = 1") auto

definition sos_bytes :: "u8 list" where
  "sos_bytes = [0x00, 0x0C, 0x03, 0x01, 0x00, 0x02, 0x11, 0x03, 0x11, 0x00, 0x3F, 0x00]"

lemma ScanHeader_undefined_iff_witness:
  "JpegDecDecodeScanHeader (memory_of 0 [0, 7, 1, 9, 0, 63, 0, 0xFF, 0xD9]) (demo_container [0, 7, 1, 9, 0, 63, 0, 0xFF, 0xD9]) = Undefined"
proof -
  let ?bs = "[0, 7, 1, 9, 0, 63, 0, 0xFF, 0xD9] :: u8 list"
  have b: "be16 7 = [0, 7]" by code_simp
  have "stream_has (memory_of 0 ?bs) (c_stream (demo_container ?bs)) (be16 7 @ 1 # 9 # [0, 63, 0, 0xFF, 0xD9])"
    using stream_of_has [of ?bs 9 0] by (simp add: demo_container_def b)
  moreover have "strm_bytes_ok (c_stream (demo_container ?bs))"
    using stream_of_ok(1) [of 9 0] by (simp add: demo_container_def DEC_RK70_MAX_STREAM_def)
  ultimately show ?thesis using ScanHeader_undefined_iff [of "demo_container ?bs" "memory_of 0 ?bs" 7 1 9 "[0, 63, 0, 0xFF, 0xD9]"] by simp
qed

lemma Scan_many_XY:
  assumes "Scan_many mem c = Continue c'"
  shows "c_frame c' = (c_frame c)\<lparr>fr_cIndex := 0\<rparr>" "inf_X (c_info c') = fr_hwX (c_frame c)" "inf_Y (c_info c') = fr_hwY (c_frame c)"
proof -
  have f: "forEach xs (Scan_select_next mem) s = Continue s' \<Longrightarrow> c_frame s' = c_frame s" for xs s s'
  proof (induction xs arbitrary: s)
    case (Cons i xs)
    then obtain s1 where s1: "Scan_select_next mem i s = Continue s1" "forEach xs (Scan_select_next mem) s1 = Continue s'"
      by (auto simp: andThen_Continue_iff)
    have "c_frame s1 = c_frame s" using s1(1)
      by (auto simp: Scan_select_next_def Let_def pfNeeded_set_def scan_select_def getByte_def split: prod.splits if_splits)
    then show ?case using Cons.IH [OF s1(2)] by simp
  qed simp
  show "c_frame c' = (c_frame c)\<lparr>fr_cIndex := 0\<rparr>" "inf_X (c_info c') = fr_hwX (c_frame c)" "inf_Y (c_info c') = fr_hwY (c_frame c)"
    using assms by (auto simp: Scan_many_def andThen_Continue_iff Let_def set_X_def set_Y_def set_yCbCrMode_def dest!: f)
qed

text \<open>
  C7. A scan header that JpegDecDecodeScanHeader accepts for a frame of three components has the
  parameters its coding type demands (for baseline the full spectrum and no approximation bits, for
  progressive a DC scan alone and approximation bits up to 13), and the dimensions the hardware gets
  for the scan, halved for a subsampled component, are again whole 16 by 16 blocks.
\<close>

theorem ScanHeader_accepts_whole_blocks:
  assumes "JpegDecDecodeScanHeader mem c = Return (JPEGDEC_OK, c')" "half_hw c" "whole_blocks 8 c"
    "fr_Nf (c_frame c) = 3"
  shows "scan_params_ok c' \<and> 16 dvd unat (inf_X (c_info c')) \<and> 16 dvd unat (inf_Y (c_info c'))"
proof -
  obtain c1 c2 where c1: "c_frame c1 = c_frame c" "inf_X (c_info c1) = inf_X (c_info c)"
      "inf_Y (c_info c1) = inf_Y (c_info c)"
    and c2: "(if sc_Ns (c_scan c1) = 1 then Scan_one mem c1 else Scan_many mem c1) = Continue c2" "scan_params_ok c'"
      "inf_X (c_info c') = inf_X (c_info c2)" "inf_Y (c_info c') = inf_Y (c_info c2)"
    using ScanHeader_ok [OF assms(1)] by blast
  have "half_hw c1" "whole_blocks 8 c1" "fr_Nf (c_frame c1) = 3"
    using assms(2-) c1 by (simp_all add: half_hw_def whole_blocks_def)
  then have "16 dvd unat (inf_X (c_info c2)) \<and> 16 dvd unat (inf_Y (c_info c2))"
    using c2(1) Scan_one_blocks [of c1 mem c2] Scan_many_XY [of mem c1 c2]
    by (cases "sc_Ns (c_scan c1) = 1") (auto simp: half_hw_def)
  with c2 show ?thesis by simp
qed

definition demo_scan :: JpegDecContainer where
  "demo_scan = (let c = demo_container (sos_bytes @ [0, 0]) in
     c\<lparr>c_frame := (c_frame c)\<lparr>fr_Nf := 3, fr_hwX := 208, fr_hwY := 112, fr_codingType := SOF0\<rparr>,
       c_info := (c_info c)\<lparr>inf_X := 208, inf_Y := 112, inf_yCbCrMode := 2, inf_yCbCrModeOrig := 2\<rparr>\<rparr>)"

lemma demo_scan_ok: "case JpegDecDecodeScanHeader (memory_of 0 (sos_bytes @ [0, 0])) demo_scan of
    Return (r, c) \<Rightarrow> r = JPEGDEC_OK | _ \<Rightarrow> False"
  by code_simp

lemma ScanHeader_accepts_whole_blocks_witness:
  "\<exists>c'. JpegDecDecodeScanHeader (memory_of 0 (sos_bytes @ [0, 0])) demo_scan = Return (JPEGDEC_OK, c') \<and> scan_params_ok c'"
proof -
  obtain c' where "JpegDecDecodeScanHeader (memory_of 0 (sos_bytes @ [0, 0])) demo_scan = Return (JPEGDEC_OK, c')"
    using demo_scan_ok by (auto split: outcome.splits)
  moreover have "half_hw demo_scan" "whole_blocks 8 demo_scan" "fr_Nf (c_frame demo_scan) = 3"
    by (simp_all add: demo_scan_def half_hw_def whole_blocks_def demo_container_def Let_def)
  ultimately show ?thesis using ScanHeader_accepts_whole_blocks by blast
qed

section \<open>Slices\<close>

text \<open>
  The slice heights of a picture, in macroblock rows: JpegDecDecode calculates one before each
  slice and counts the slice when the hardware is started on it.
\<close>

fun slice_heights :: "nat \<Rightarrow> JpegDecContainer \<Rightarrow> nat list" where
  "slice_heights 0 c = []"
| "slice_heights (Suc n) c =
     (let c = JpegDecSliceSizeCalculation c
      in unat (inf_sliceHeight (c_info c)) #
         slice_heights n (c_info_update (\<lambda>i. i\<lparr>inf_SliceCount := inf_SliceCount i + 1\<rparr>) c))"

lemma slice_step:
  assumes "unat (inf_SliceCount (c_info c)) = k" "k * m < b" "unat (inf_sliceMbSetValue (c_info c)) = m"
    "unat (inf_Y (c_info c)) = 16 * b" "b < 2 ^ 13" "0 < m" "m < 2 ^ 13"
    "inf_operationType (c_info c) \<noteq> JPEGDEC_PROGRESSIVE" "0 < k \<Longrightarrow> unat (inf_sliceHeight (c_info c)) = m"
  shows "unat (inf_sliceHeight (c_info (JpegDecSliceSizeCalculation c))) = min m (b - k * m)"
proof -
  let ?i = "c_info c"
  have k: "k < 2 ^ 13" using assms(2,5,6) by (metis le_less_trans less_trans mult_le_mono2 nat_mult_1_right One_nat_def Suc_leI linorder_not_le)
  have km: "(k + 1) * (m * 16) < 2 ^ 32"
  proof -
    have "(k + 1) * m = k * m + m" by simp
    also have "\<dots> < 2 ^ 14" using assms(2,5,7) by simp
    finally show ?thesis by (simp add: algebra_simps)
  qed
  have "unat ((inf_SliceCount ?i + 1) * (inf_sliceMbSetValue ?i * 16)) = (k + 1) * (m * 16)"
    using assms(1,3,7) k km by (simp add: u32_mult u32_add)
  then have gt: "(inf_SliceCount ?i + 1) * (inf_sliceMbSetValue ?i * 16) > inf_Y ?i \<longleftrightarrow> b < (k + 1) * m"
    using assms(4) unfolding word_less_nat_alt by (metis mult.assoc mult.commute mult_less_cancel1 zero_less_numeral)
  have last: "unat (inf_Y ?i div 16 - inf_SliceCount ?i * inf_sliceHeight ?i) = b - k * m"
  proof -
    have y: "unat (inf_Y ?i div 16) = b" using assms(4) by (simp add: unat_div)
    have s: "unat (inf_SliceCount ?i * inf_sliceHeight ?i) = k * m"
    proof (cases "k = 0")
      case True
      then have "inf_SliceCount ?i = 0" using assms(1) by (simp add: word_unat_eq_iff)
      then show ?thesis using True by simp
    next
      case False
      then show ?thesis using assms(1,2,5,9) by (simp add: u32_mult)
    qed
    show ?thesis using y s assms(2) by (subst unat_sub) (simp_all add: word_le_nat_alt)
  qed
  show ?thesis
    using gt last assms(3,8) by (auto simp: JpegDecSliceSizeCalculation_def Let_def min_def)
qed

lemma slice_frame:
  "inf_sliceMbSetValue (c_info (JpegDecSliceSizeCalculation c)) = inf_sliceMbSetValue (c_info c)"
  "inf_SliceCount (c_info (JpegDecSliceSizeCalculation c)) = inf_SliceCount (c_info c)"
  "inf_Y (c_info (JpegDecSliceSizeCalculation c)) = inf_Y (c_info c)"
  "inf_operationType (c_info (JpegDecSliceSizeCalculation c)) = inf_operationType (c_info c)"
  by (simp_all add: JpegDecSliceSizeCalculation_def Let_def)

lemma slice_heights_rest:
  assumes "unat (inf_SliceCount (c_info c)) = k" "k * m + (n - 1) * m < b" "b \<le> k * m + n * m" "0 < n"
    "unat (inf_sliceMbSetValue (c_info c)) = m" "unat (inf_Y (c_info c)) = 16 * b" "b < 2 ^ 13" "0 < m" "m < 2 ^ 13"
    "inf_operationType (c_info c) \<noteq> JPEGDEC_PROGRESSIVE" "0 < k \<Longrightarrow> unat (inf_sliceHeight (c_info c)) = m"
  shows "sum_list (slice_heights n c) = b - k * m \<and> (\<forall>h \<in> set (slice_heights n c). 0 < h \<and> h \<le> m)"
  using assms
proof (induction n arbitrary: c k)
  case (Suc n)
  let ?c = "JpegDecSliceSizeCalculation c"
  let ?d = "c_info_update (\<lambda>i. i\<lparr>inf_SliceCount := inf_SliceCount i + 1\<rparr>) ?c"
  have lt: "k * m < b" using Suc.prems(2) by simp
  have h: "unat (inf_sliceHeight (c_info ?c)) = min m (b - k * m)"
    using slice_step [OF Suc.prems(1) lt Suc.prems(5-10)] Suc.prems(11) by blast
  show ?case
  proof (cases "n = 0")
    case True
    then show ?thesis using Suc.prems h lt by (auto simp: Let_def min_def)
  next
    case False
    then obtain n' where n': "n = Suc n'" by (cases n) auto
    have full: "m \<le> b - k * m" using Suc.prems(2) n' by simp
    have "k < 2 ^ 13" using lt Suc.prems(7,8) by (metis le_less_trans less_trans mult_le_mono2 nat_mult_1_right One_nat_def Suc_leI linorder_not_le)
    then have k: "unat (inf_SliceCount (c_info ?d)) = k + 1" using Suc.prems(1) by (simp add: slice_frame u32_add)
    have "sum_list (slice_heights n ?d) = b - (k + 1) * m \<and> (\<forall>h \<in> set (slice_heights n ?d). 0 < h \<and> h \<le> m)"
      by (rule Suc.IH [OF k]) (use Suc.prems n' h full in \<open>simp_all add: slice_frame algebra_simps\<close>)
    then show ?thesis using h full lt Suc.prems(8) by (simp add: Let_def)
  qed
qed simp

text \<open>
  C21. The slices of a picture that is not progressive partition it: with Y = 16 b rows of pixels
  and slices of m macroblock rows, the heights calculated before the first b / m (rounded up)
  slices are between 1 and m and add up to b, although the last one is calculated from the height of
  its predecessor.
\<close>

theorem SliceSize_partitions_picture:
  assumes "inf_SliceCount (c_info c) = 0" "unat (inf_sliceMbSetValue (c_info c)) = m" "0 < m" "m < 2 ^ 13"
    "unat (inf_Y (c_info c)) = 16 * b" "0 < b" "b < 2 ^ 13" "inf_operationType (c_info c) \<noteq> JPEGDEC_PROGRESSIVE"
  defines "n \<equiv> (b + m - 1) div m"
  shows "sum_list (slice_heights n c) = b \<and> (\<forall>h \<in> set (slice_heights n c). 0 < h \<and> h \<le> m)"
proof -
  have d: "n * m + (b + m - 1) mod m = b + m - 1" by (simp add: n_def)
  have "(b + m - 1) mod m < m" using assms(3) by simp
  then have le: "b \<le> n * m" and lt: "n * m < b + m" using d assms(3,6) by linarith+
  then have n: "0 < n" using assms(6) by (cases n) auto
  moreover have "(n - 1) * m < b" using lt n by (cases n) auto
  ultimately have "sum_list (slice_heights n c) = b - 0 * m \<and> (\<forall>h \<in> set (slice_heights n c). 0 < h \<and> h \<le> m)"
    using assms le by (intro slice_heights_rest) simp_all
  then show ?thesis by simp
qed

definition demo_slices :: JpegDecContainer where
  "demo_slices = c_info_update (\<lambda>i. i\<lparr>inf_Y := 112, inf_sliceMbSetValue := 3\<rparr>) zero_JpegDecContainer"

lemma SliceSize_partitions_picture_witness: "sum_list (slice_heights 3 demo_slices) = 7"
  using SliceSize_partitions_picture [of demo_slices 3 7] by (simp add: demo_slices_def zero_defs jpeg_consts)

section \<open>The buffers of a scan\<close>

text \<open>What allocator_drm.c promises of alloc: an error code, or a mapped buffer of the size asked for.\<close>

definition alloc_ok :: "os_allocator \<Rightarrow> bool" where
  "alloc_ok al \<longleftrightarrow> (\<forall>alloc ctx b. al_alloc al = Some alloc \<longrightarrow>
     fst (alloc ctx b) = - 1 \<or>
     mb_size (snd (alloc ctx b)) = mb_size b \<and>
     mb_size (al_mmap al ctx (snd (alloc ctx b))) = mb_size b \<and>
     mb_vir_addr (al_mmap al ctx (snd (alloc ctx b))) \<noteq> 0)"

definition table_buffer_ok :: "JpegDecContainer \<Rightarrow> bool" where
  "table_buffer_ok c \<longleftrightarrow> mb_vir_addr (fr_pTableBase (c_frame c)) \<noteq> 0 \<and>
     mb_size (fr_pTableBase (c_frame c)) =
       (if inf_operationType (c_info c) = JPEGDEC_PROGRESSIVE then JPEGDEC_PROGRESSIVE_TABLE_SIZE
        else JPEGDEC_BASELINE_TABLE_SIZE)"

lemma alloc_tables_ok:
  assumes "alloc_ok al" "alloc_tables al n c = (tmp, c')" "tmp \<noteq> - 1"
  shows "mb_vir_addr (fr_pTableBase (c_frame c')) \<noteq> 0 \<and> mb_size (fr_pTableBase (c_frame c')) = n \<and>
    c_info c' = c_info c \<and> c_asicBuff c' = c_asicBuff c \<and> c_image c' = c_image c"
proof (cases "al_alloc al")
  case None
  then show ?thesis using assms by (simp add: alloc_tables_def)
next
  case (Some alloc)
  let ?b = "(fr_pTableBase (c_frame c))\<lparr>mb_size := n\<rparr>"
  obtain t b where "alloc (c_ctx c) ?b = (t, b)" by fastforce
  moreover have "fst (alloc (c_ctx c) ?b) = - 1 \<or>
     mb_size (al_mmap al (c_ctx c) (snd (alloc (c_ctx c) ?b))) = mb_size ?b \<and>
     mb_vir_addr (al_mmap al (c_ctx c) (snd (alloc (c_ctx c) ?b))) \<noteq> 0"
    using assms(1) Some unfolding alloc_ok_def by blast
  ultimately show ?thesis using Some assms(2,3) by (auto simp: alloc_tables_def)
qed

lemma AllocateResidual_tables_ends:
  assumes "alloc_ok al"
  shows "ends_in (AllocateResidual_tables al c)
    (\<lambda>c'. table_buffer_ok c' \<and> c_info c' = c_info c)
    (\<lambda>r. fst r = JPEGDEC_MEMFAIL)"
proof -
  let ?n = "if inf_operationType (c_info c) = JPEGDEC_PROGRESSIVE
                       then JPEGDEC_PROGRESSIVE_TABLE_SIZE else JPEGDEC_BASELINE_TABLE_SIZE"
  have *: "ends_in (case alloc_tables al ?n d of (tmp, c) \<Rightarrow> if tmp = - 1 then Return (JPEGDEC_MEMFAIL, c) else Continue c)
    (\<lambda>c'. table_buffer_ok c' \<and> c_info c' = c_info c) (\<lambda>r. fst r = JPEGDEC_MEMFAIL)" if "c_info d = c_info c" for d
  proof -
    obtain t d' where d: "alloc_tables al ?n d = (t, d')" by fastforce
    show ?thesis
      using alloc_tables_ok [OF assms d] that unfolding d prod.case by (cases "t = - 1") (simp_all add: table_buffer_ok_def)
  qed
  let ?free = "case al_free al of None \<Rightarrow> c
     | Some free \<Rightarrow> c_frame_update (\<lambda>f. f\<lparr>fr_pTableBase := free (c_ctx c) (fr_pTableBase f)\<rparr>) c"
  have "c_info ?free = c_info c" by (simp split: option.split)
  note f = * [OF this]
  note e = * [of c, OF refl]
  have keep: "table_buffer_ok c" if "mb_vir_addr (fr_pTableBase (c_frame c)) \<noteq> 0" "?n = mb_size (fr_pTableBase (c_frame c))"
    using that by (simp add: table_buffer_ok_def)
  consider (fresh) "mb_vir_addr (fr_pTableBase (c_frame c)) = 0"
    | (other) "mb_vir_addr (fr_pTableBase (c_frame c)) \<noteq> 0" "?n \<noteq> mb_size (fr_pTableBase (c_frame c))"
    | (kept) "mb_vir_addr (fr_pTableBase (c_frame c)) \<noteq> 0" "?n = mb_size (fr_pTableBase (c_frame c))" by blast
  then show ?thesis
  proof cases
    case fresh
    then show ?thesis using e unfolding AllocateResidual_tables_def Let_def by (simp only: if_True simp_thms)
  next
    case other
    then show ?thesis using f unfolding AllocateResidual_tables_def Let_def by (simp only: if_True if_False simp_thms)
  next
    case kept
    then show ?thesis using keep unfolding AllocateResidual_tables_def Let_def by (simp only: if_False simp_thms ends_in.simps)
  qed
qed

lemma AllocateResidual_output_parts:
  assumes "AllocateResidual_output c = Continue c'"
  shows "c_frame c' = c_frame c \<and> inf_operationType (c_info c') = inf_operationType (c_info c) \<and>
    inf_allocated (c_info c') = inf_allocated (c_info c)"
  using assms by (auto simp: AllocateResidual_output_def out_luma_def out_chroma_def Let_def split: if_splits option.splits)

lemma AllocateResidual_output_Return: "AllocateResidual_output c \<noteq> Return r"
  by (auto simp: AllocateResidual_output_def Let_def split: option.splits)

lemma AllocateResidual_output_defined:
  "c_pictureMem c \<noteq> None \<Longrightarrow> AllocateResidual_output c \<noteq> Undefined" "AllocateResidual_output c \<noteq> OutOfFuel"
  by (auto simp: AllocateResidual_output_def Let_def split: option.split)

text \<open>
  When JpegDecAllocateResidual returns JPEGDEC_OK, the table buffer is mapped and has exactly
  the size that the operation type needs, also when a buffer of the other size was in use; the only
  other result is JPEGDEC_MEMFAIL.
\<close>

theorem AllocateResidual_provides_table_buffer:
  assumes "alloc_ok al" "JpegDecAllocateResidual al c = Return (ret, c')"
  shows "ret = JPEGDEC_OK \<and> table_buffer_ok c' \<or> ret = JPEGDEC_MEMFAIL"
proof (cases "AllocateResidual_tables al c")
  case (Continue c1)
  then have t: "table_buffer_ok c1" using AllocateResidual_tables_ends [OF assms(1), of c] by simp
  obtain c2 where "AllocateResidual_output c1 = Continue c2" "ret = JPEGDEC_OK" "c' = c2"
    using assms(2) Continue AllocateResidual_output_Return by (auto simp: JpegDecAllocateResidual_def andThen_Return_iff)
  then show ?thesis using t AllocateResidual_output_parts [of c1 c2] by (simp add: table_buffer_ok_def)
next
  case (Return r)
  then show ?thesis using AllocateResidual_tables_ends [OF assms(1), of c] assms(2) by (auto simp: JpegDecAllocateResidual_def)
qed (use assms(2) in \<open>simp_all add: JpegDecAllocateResidual_def\<close>)

text \<open>A DRM allocator that maps every buffer at a fixed address.\<close>

definition demo_allocator :: os_allocator where
  "demo_allocator = \<lparr>al_alloc = Some (\<lambda>ctx b. (0, b\<lparr>mb_hnd := 1\<rparr>)), al_free = Some (\<lambda>ctx b. b\<lparr>mb_vir_addr := 0\<rparr>),
     al_mmap = (\<lambda>ctx b. b\<lparr>mb_vir_addr := 0x1000\<rparr>)\<rparr>"

definition demo_residual :: JpegDecContainer where
  "demo_residual = zero_JpegDecContainer\<lparr>c_pictureMem := Some zero_MppBufferInfo,
     c_frame := zero_FrameInfo\<lparr>fr_pTableBase := zero_MppBufferInfo\<lparr>mb_vir_addr := 1, mb_size := 9\<rparr>\<rparr>\<rparr>"

lemma AllocateResidual_provides_table_buffer_witness:
  "\<exists>c'. JpegDecAllocateResidual demo_allocator demo_residual = Return (JPEGDEC_OK, c') \<and> table_buffer_ok c'"
proof -
  have "alloc_ok demo_allocator" by (simp add: alloc_ok_def demo_allocator_def)
  moreover have "case JpegDecAllocateResidual demo_allocator demo_residual of Return (r, c) \<Rightarrow> r = JPEGDEC_OK | _ \<Rightarrow> False"
    by code_simp
  ultimately show ?thesis
    using AllocateResidual_provides_table_buffer [of demo_allocator demo_residual] by (fastforce split: outcome.splits)
qed

text \<open>
  JpegDecAllocateResidual looks for the error code -1 alone and ignores the result of mmap: an
  allocator that reports failure with another negative code, as the DRM allocator does when it has no
  context, lets the decoder go on with a null table buffer.
\<close>

lemma AllocateResidual_misses_error_codes:
  assumes "al_alloc al = Some (\<lambda>ctx b. (e, b))" "e \<noteq> - 1" "al_mmap al = (\<lambda>ctx b. b)"
    "mb_vir_addr (fr_pTableBase (c_frame c)) = 0" "c_pictureMem c \<noteq> None"
  shows "\<exists>c'. JpegDecAllocateResidual al c = Return (JPEGDEC_OK, c') \<and> mb_vir_addr (fr_pTableBase (c_frame c')) = 0"
proof -
  define n where "n = (if inf_operationType (c_info c) = JPEGDEC_PROGRESSIVE
                       then JPEGDEC_PROGRESSIVE_TABLE_SIZE else JPEGDEC_BASELINE_TABLE_SIZE)"
  have "fst (alloc_tables al n c) = e" using assms(1,3) by (simp add: alloc_tables_def)
  then have t: "AllocateResidual_tables al c = Continue (snd (alloc_tables al n c))"
    unfolding AllocateResidual_tables_def Let_def n_def [symmetric] using assms(2,4) by (simp add: split_def)
  let ?d = "snd (alloc_tables al n c)"
  have v: "mb_vir_addr (fr_pTableBase (c_frame ?d)) = 0" "c_pictureMem ?d \<noteq> None"
    using assms by (simp_all add: alloc_tables_def)
  then obtain c' where "AllocateResidual_output ?d = Continue c'"
    using AllocateResidual_output_defined AllocateResidual_output_Return by (cases "AllocateResidual_output ?d") blast+
  then show ?thesis using t v AllocateResidual_output_parts [of ?d c'] by (simp add: JpegDecAllocateResidual_def)
qed

lemma AllocateResidual_misses_error_codes_witness:
  "\<exists>c'. JpegDecAllocateResidual (demo_allocator\<lparr>al_alloc := Some (\<lambda>ctx b. (- 3, b)), al_mmap := (\<lambda>ctx b. b)\<rparr>)
      (zero_JpegDecContainer\<lparr>c_pictureMem := Some zero_MppBufferInfo\<rparr>) = Return (JPEGDEC_OK, c') \<and>
     mb_vir_addr (fr_pTableBase (c_frame c')) = 0"
  by (rule AllocateResidual_misses_error_codes [where e = "- 3"]) (simp_all add: zero_defs)

text \<open>
  The first scan of a picture places the second chroma plane half the chroma size after the
  first one, counted in the upper 22 bits of the address, whose low ten bits name the buffer; a later
  scan adds the same amount to the low bits. So the second chroma address of a later scan is wrong
  for every picture that is not baseline and has chroma.
\<close>

lemma next_scan_moves_second_chroma:
  assumes "AllocateResidual_output c = Continue first" "Scan_next_output c = Continue later"
    "c_ppInstance c = 0" "mb_vir_addr (inf_givenOutLuma (c_info c)) = 0"
    "inf_operationType (c_info c) \<noteq> JPEGDEC_BASELINE" "2 \<le> img_sizeChroma (c_image c)" "img_sizeChroma (c_image c) < 2 ^ 22"
  shows "inf_outChroma (c_info later) = inf_outChroma (c_info first) \<and>
    mb_phy_addr (inf_outChroma2 (c_info first)) - mb_phy_addr (inf_outChroma (c_info first)) =
      (img_sizeChroma (c_image c) div 2) * 1024 \<and>
    mb_phy_addr (inf_outChroma2 (c_info later)) - mb_phy_addr (inf_outChroma (c_info later)) =
      img_sizeChroma (c_image c) div 2 \<and>
    mb_phy_addr (inf_outChroma2 (c_info later)) \<noteq> mb_phy_addr (inf_outChroma2 (c_info first))"
proof -
  let ?h = "img_sizeChroma (c_image c) div 2"
  have u: "unat ?h = unat (img_sizeChroma (c_image c)) div 2" by (simp add: unat_div)
  then have b: "0 < unat ?h" "unat ?h < 2 ^ 21" using assms(6,7) by (auto simp: word_le_nat_alt word_less_nat_alt)
  have p: "push_bit 10 ?h = ?h * 1024" by (simp add: push_bit_eq_mult)
  then have "unat (push_bit 10 ?h) = unat ?h * 1024" using b by (simp add: u32_mult)
  then have ne: "push_bit 10 ?h \<noteq> ?h" using b by auto
  have z: "img_sizeChroma (c_image c) \<noteq> 0" using assms(6) by auto
  obtain pic where "c_pictureMem c = Some pic"
    using assms(2) by (auto simp: Scan_next_output_def split: option.splits)
  then show ?thesis
    using assms(1-5) z ne p
    by (auto simp: AllocateResidual_output_def Scan_next_output_def out_luma_def out_chroma_def Let_def)
qed

definition demo_next_scan :: JpegDecContainer where
  "demo_next_scan = zero_JpegDecContainer\<lparr>c_pictureMem := Some zero_MppBufferInfo,
     c_image := zero_ImageData\<lparr>img_sizeLuma := 64, img_sizeChroma := 32\<rparr>,
     c_info := zero_DecInfo\<lparr>inf_operationType := JPEGDEC_PROGRESSIVE\<rparr>\<rparr>"

lemma next_scan_moves_second_chroma_witness:
  "\<exists>first later. AllocateResidual_output demo_next_scan = Continue first \<and>
     Scan_next_output demo_next_scan = Continue later \<and>
     mb_phy_addr (inf_outChroma2 (c_info later)) \<noteq> mb_phy_addr (inf_outChroma2 (c_info first))"
proof -
  have "case AllocateResidual_output demo_next_scan of Continue c \<Rightarrow> True | _ \<Rightarrow> False"
    "case Scan_next_output demo_next_scan of Continue c \<Rightarrow> True | _ \<Rightarrow> False" by code_simp+
  then obtain first later where "AllocateResidual_output demo_next_scan = Continue first"
    "Scan_next_output demo_next_scan = Continue later" by (auto split: outcome.splits)
  then show ?thesis
    using next_scan_moves_second_chroma [of demo_next_scan first later]
    by (simp add: demo_next_scan_def zero_defs jpeg_consts)
qed

end
