(* ===== verification/Allocator.thy ===== *)
theory Allocator
  imports Scan "HOL-Library.Monad_Syntax"
begin

text \<open>
  allocator/allocator_drm.c: the buffers the decoder shares with the hardware, made by the DRM device
  of the kernel. The kernel (ioctl, open, close, mmap), drmUnmap of libdrm and calloc are parameters
  of the model, collected in the record drm_kernel; 'k is the state they keep. A system call answers
  with the new state, its result, errno, and the argument struct as the kernel leaves it. The printed
  messages are not modelled.

  An operation is None when it does not return: drm_ioctl repeats an interrupted call for as long as
  the kernel interrupts it. A pointer argument is None when it is null. A file descriptor is an int;
  MppBufferInfo keeps it in the 32 bits of phy_addr.
\<close>

section \<open>The kernel\<close>

text \<open>The argument structs of drm.h and drm_mode.h that the code fills.\<close>

record drm_prime_handle =
  dph_handle :: u32
  dph_flags :: u32
  dph_fd :: int

record drm_mode_create_dumb =
  dmcb_height :: u32
  dmcb_width :: u32
  dmcb_bpp :: u32
  dmcb_flags :: u32
  dmcb_handle :: u32
  dmcb_pitch :: u32
  dmcb_size :: "64 word"

record drm_mode_map_dumb =
  dmmd_handle :: u32
  dmmd_pad :: u32
  dmmd_offset :: "64 word"

record drm_mode_destroy_dumb =
  dmdd_handle :: u32

type_synonym ('k, 'a) syscall = "'k \<Rightarrow> 'a \<Rightarrow> 'k \<times> int \<times> int \<times> 'a"

record 'k drm_kernel =
  k_open :: "'k \<Rightarrow> 'k \<times> int"
  k_close :: "int \<Rightarrow> 'k \<Rightarrow> 'k \<times> int \<times> int"
  k_calloc :: "'k \<Rightarrow> 'k \<times> bool"
  k_prime_handle_to_fd :: "int \<Rightarrow> ('k, drm_prime_handle) syscall"
  k_prime_fd_to_handle :: "int \<Rightarrow> ('k, drm_prime_handle) syscall"
  k_create_dumb :: "int \<Rightarrow> ('k, drm_mode_create_dumb) syscall"
  k_destroy_dumb :: "int \<Rightarrow> ('k, drm_mode_destroy_dumb) syscall"
  k_map_dumb :: "int \<Rightarrow> ('k, drm_mode_map_dumb) syscall"
  k_mmap :: "u32 \<Rightarrow> int \<Rightarrow> 64 word \<Rightarrow> 'k \<Rightarrow> 'k \<times> addr \<times> int"
  k_drmUnmap :: "addr \<Rightarrow> u32 \<Rightarrow> 'k \<Rightarrow> 'k"

definition EINTR :: int where "EINTR = 4"
definition EAGAIN :: int where "EAGAIN = 11"
definition EINVAL :: int where "EINVAL = 22"
definition MAP_FAILED :: addr where "MAP_FAILED = - 1"

definition MPP_OK :: int where "MPP_OK = 0"
definition MPP_ERR_UNKNOW :: int where "MPP_ERR_UNKNOW = - 2"
definition MPP_ERR_NULL_PTR :: int where "MPP_ERR_NULL_PTR = - 3"
definition MPP_ERR_MALLOC :: int where "MPP_ERR_MALLOC = - 4"

lemmas errno_consts = EINTR_def EAGAIN_def EINVAL_def MAP_FAILED_def MPP_OK_def MPP_ERR_UNKNOW_def
  MPP_ERR_NULL_PTR_def MPP_ERR_MALLOC_def

section \<open>Calls of the DRM device\<close>

text \<open>drm_ioctl: the call is repeated, with the struct as the kernel left it, while it is interrupted.\<close>

definition interrupted :: "int \<Rightarrow> int \<Rightarrow> bool" where
  "interrupted ret errno \<longleftrightarrow> ret = - 1 \<and> (errno = EINTR \<or> errno = EAGAIN)"

partial_function (option) drm_ioctl :: "('k, 'a) syscall \<Rightarrow> 'k \<Rightarrow> 'a \<Rightarrow> ('k \<times> int \<times> 'a) option" where
  "drm_ioctl ioctl k arg =
     (case ioctl k arg of (k, ret, errno, arg) \<Rightarrow>
        if interrupted ret errno then drm_ioctl ioctl k arg else Some (k, ret, arg))"

definition drm_handle_to_fd ::
  "'k drm_kernel \<Rightarrow> 'k \<Rightarrow> int \<Rightarrow> u32 \<Rightarrow> int option \<Rightarrow> u32 \<Rightarrow> ('k \<times> int \<times> int option) option" where
  "drm_handle_to_fd K k fd handle map_fd flags =
     (let dph = \<lparr>dph_handle = handle, dph_flags = flags, dph_fd = - 1\<rparr>
      in if map_fd = None then Some (k, - EINVAL, map_fd)
      else do {
        (k, ret, dph) \<leftarrow> drm_ioctl (k_prime_handle_to_fd K fd) k dph;
        if ret < 0 then Some (k, ret, map_fd)
        else if dph_fd dph < 0 then Some (k, - EINVAL, Some (dph_fd dph))
        else Some (k, ret, Some (dph_fd dph))
      })"

text \<open>The struct of drm_fd_to_handle is not cleared; the kernel overwrites the handle, which is all that is read.\<close>

definition drm_fd_to_handle ::
  "'k drm_kernel \<Rightarrow> 'k \<Rightarrow> int \<Rightarrow> int \<Rightarrow> u32 \<Rightarrow> u32 \<Rightarrow> u32 \<Rightarrow> ('k \<times> int \<times> u32) option" where
  "drm_fd_to_handle K k fd map_fd garbage handle flags =
     do {
       (k, ret, dph) \<leftarrow> drm_ioctl (k_prime_fd_to_handle K fd) k
         \<lparr>dph_handle = garbage, dph_flags = flags, dph_fd = map_fd\<rparr>;
       if ret < 0 then Some (k, ret, handle) else Some (k, ret, dph_handle dph)
     }"

definition dumb_width :: "u32 \<Rightarrow> u32 \<Rightarrow> u32" where
  "dumb_width len align = (len + align - 1) AND NOT (align - 1)"

definition drm_alloc :: "'k drm_kernel \<Rightarrow> 'k \<Rightarrow> int \<Rightarrow> u32 \<Rightarrow> u32 \<Rightarrow> u32 option \<Rightarrow> ('k \<times> int \<times> u32 option) option" where
  "drm_alloc K k fd len align handle =
     (let dmcb = \<lparr>dmcb_height = 1, dmcb_width = dumb_width len align, dmcb_bpp = 8, dmcb_flags = 0,
            dmcb_handle = 0, dmcb_pitch = 0, dmcb_size = 0\<rparr>
      in if handle = None then Some (k, - EINVAL, handle)
      else do {
        (k, ret, dmcb) \<leftarrow> drm_ioctl (k_create_dumb K fd) k dmcb;
        if ret < 0 then Some (k, ret, handle) else Some (k, ret, Some (dmcb_handle dmcb))
      })"

definition drm_free :: "'k drm_kernel \<Rightarrow> 'k \<Rightarrow> int \<Rightarrow> u32 \<Rightarrow> ('k \<times> int) option" where
  "drm_free K k fd handle =
     do {
       (k, ret, data) \<leftarrow> drm_ioctl (k_destroy_dumb K fd) k \<lparr>dmdd_handle = handle\<rparr>;
       Some (k, ret)
     }"

section \<open>The allocator\<close>

record allocator_ctx_drm =
  ac_alignment :: u32
  ac_drm_device :: int

text \<open>
  The variable ctx points to: None when the argument is null, Some None when the variable holds a
  null pointer.
\<close>

definition os_allocator_drm_open ::
  "'k drm_kernel \<Rightarrow> 'k \<Rightarrow> allocator_ctx_drm option option \<Rightarrow> u32 \<Rightarrow> 'k \<times> int \<times> allocator_ctx_drm option option" where
  "os_allocator_drm_open K k ctx alignment =
     (if ctx = None then (k, MPP_ERR_NULL_PTR, None)
      else case k_open K k of (k, fd) \<Rightarrow>
        if fd < 0 then (k, MPP_ERR_UNKNOW, Some None)
        else case k_calloc K k of (k, ok) \<Rightarrow>
          if \<not> ok then (fst (k_close K fd k), MPP_ERR_MALLOC, Some None)
          else (k, MPP_OK, Some (Some \<lparr>ac_alignment = alignment, ac_drm_device = fd\<rparr>)))"

text \<open>The descriptor in phy_addr.\<close>

definition buffer_fd :: "MppBufferInfo \<Rightarrow> int" where
  "buffer_fd b = sint (mb_phy_addr b)"

definition os_allocator_drm_alloc ::
  "'k drm_kernel \<Rightarrow> 'k \<Rightarrow> allocator_ctx_drm option \<Rightarrow> MppBufferInfo \<Rightarrow> ('k \<times> int \<times> MppBufferInfo) option" where
  "os_allocator_drm_alloc K k ctx info =
     (case ctx of
        None \<Rightarrow> Some (k, MPP_ERR_NULL_PTR, info)
      | Some p \<Rightarrow> do {
          (k, ret, hnd) \<leftarrow> drm_alloc K k (ac_drm_device p) (mb_size info) (ac_alignment p) (Some (mb_hnd info));
          let info = info\<lparr>mb_hnd := the hnd\<rparr>;
          if ret \<noteq> 0 then Some (k, ret, info)
          else do {
            (k, ret, fd) \<leftarrow> drm_handle_to_fd K k (ac_drm_device p) (mb_hnd info) (Some (buffer_fd info)) 0;
            let info = info\<lparr>mb_phy_addr := word_of_int (the fd)\<rparr>;
            if ret \<noteq> 0 then Some (k, ret, info) else Some (k, ret, info\<lparr>mb_vir_addr := 0\<rparr>)
          }
        })"

text \<open>import reads its context without a check, so the model takes a context that is not null.\<close>

definition os_allocator_drm_import ::
  "'k drm_kernel \<Rightarrow> 'k \<Rightarrow> allocator_ctx_drm \<Rightarrow> u32 \<Rightarrow> MppBufferInfo \<Rightarrow> ('k \<times> int \<times> MppBufferInfo) option" where
  "os_allocator_drm_import K k p garbage info =
     do {
       (k, ret, hnd) \<leftarrow> drm_fd_to_handle K k (ac_drm_device p) (buffer_fd info) garbage (mb_hnd info) 0;
       let info = info\<lparr>mb_hnd := hnd\<rparr>;
       (k, ret, fd) \<leftarrow> drm_handle_to_fd K k (ac_drm_device p) (mb_hnd info) (Some (buffer_fd info)) 0;
       Some (k, ret, info\<lparr>mb_phy_addr := word_of_int (the fd), mb_vir_addr := 0\<rparr>)
     }"

definition os_allocator_drm_free ::
  "'k drm_kernel \<Rightarrow> 'k \<Rightarrow> allocator_ctx_drm option \<Rightarrow> MppBufferInfo \<Rightarrow> ('k \<times> int \<times> MppBufferInfo) option" where
  "os_allocator_drm_free K k ctx info =
     (case ctx of
        None \<Rightarrow> Some (k, MPP_ERR_NULL_PTR, info)
      | Some p \<Rightarrow>
          let (k, info) = (if mb_vir_addr info \<noteq> 0
                then (k_drmUnmap K (mb_vir_addr info) (mb_size info) k, info\<lparr>mb_vir_addr := 0\<rparr>) else (k, info));
              (k, ret, errno) = k_close K (buffer_fd info) k
          in do {
            (k, ret) \<leftarrow> drm_free K k (ac_drm_device p) (mb_hnd info);
            Some (k, ret, info)
          })"

definition os_allocator_drm_close :: "'k drm_kernel \<Rightarrow> 'k \<Rightarrow> allocator_ctx_drm option \<Rightarrow> 'k \<times> int" where
  "os_allocator_drm_close K k ctx =
     (case ctx of
        None \<Rightarrow> (k, MPP_ERR_NULL_PTR)
      | Some p \<Rightarrow>
          case k_close K (ac_drm_device p) k of (k, ret, errno) \<Rightarrow>
            if ret < 0 then (k, - errno) else (k, MPP_OK))"

definition os_allocator_drm_mmap ::
  "'k drm_kernel \<Rightarrow> 'k \<Rightarrow> allocator_ctx_drm option \<Rightarrow> MppBufferInfo \<Rightarrow> ('k \<times> int \<times> MppBufferInfo) option" where
  "os_allocator_drm_mmap K k ctx info =
     (case ctx of
        None \<Rightarrow> Some (k, MPP_ERR_NULL_PTR, info)
      | Some p \<Rightarrow>
          if mb_vir_addr info = 0 then do {
            (k, ret, dmmd) \<leftarrow> drm_ioctl (k_map_dumb K (ac_drm_device p)) k
              \<lparr>dmmd_handle = mb_hnd info, dmmd_pad = 0, dmmd_offset = 0\<rparr>;
            if ret \<noteq> 0 then Some (k, ret, info)
            else case k_mmap K (mb_size info) (ac_drm_device p) (dmmd_offset dmmd) k of (k, a, errno) \<Rightarrow>
              if a = MAP_FAILED then Some (k, - errno, info\<lparr>mb_vir_addr := 0\<rparr>)
              else Some (k, ret, info\<lparr>mb_vir_addr := a\<rparr>)
          }
          else Some (k, MPP_OK, info))"

record 'k allocator_table =
  at_open :: "'k \<Rightarrow> allocator_ctx_drm option option \<Rightarrow> u32 \<Rightarrow> 'k \<times> int \<times> allocator_ctx_drm option option"
  at_close :: "'k \<Rightarrow> allocator_ctx_drm option \<Rightarrow> 'k \<times> int"
  at_alloc :: "'k \<Rightarrow> allocator_ctx_drm option \<Rightarrow> MppBufferInfo \<Rightarrow> ('k \<times> int \<times> MppBufferInfo) option"
  at_free :: "'k \<Rightarrow> allocator_ctx_drm option \<Rightarrow> MppBufferInfo \<Rightarrow> ('k \<times> int \<times> MppBufferInfo) option"
  at_import :: "'k \<Rightarrow> allocator_ctx_drm \<Rightarrow> u32 \<Rightarrow> MppBufferInfo \<Rightarrow> ('k \<times> int \<times> MppBufferInfo) option"
  at_release :: "'k \<Rightarrow> allocator_ctx_drm option \<Rightarrow> MppBufferInfo \<Rightarrow> ('k \<times> int \<times> MppBufferInfo) option"
  at_mmap :: "'k \<Rightarrow> allocator_ctx_drm option \<Rightarrow> MppBufferInfo \<Rightarrow> ('k \<times> int \<times> MppBufferInfo) option"

definition allocator_drm :: "'k drm_kernel \<Rightarrow> 'k allocator_table" where
  "allocator_drm K =
     \<lparr>at_open = os_allocator_drm_open K, at_close = os_allocator_drm_close K,
      at_alloc = os_allocator_drm_alloc K, at_free = os_allocator_drm_free K,
      at_import = os_allocator_drm_import K, at_release = os_allocator_drm_free K, at_mmap = os_allocator_drm_mmap K\<rparr>"

section \<open>The repeated call\<close>

text \<open>What a call returns after n interrupted tries.\<close>

fun nth_try :: "('k, 'a) syscall \<Rightarrow> nat \<Rightarrow> 'k \<Rightarrow> 'a \<Rightarrow> 'k \<times> int \<times> int \<times> 'a" where
  "nth_try ioctl 0 k a = ioctl k a"
| "nth_try ioctl (Suc n) k a = (case ioctl k a of (k, ret, errno, a) \<Rightarrow> nth_try ioctl n k a)"

definition is_interrupted :: "'k \<times> int \<times> int \<times> 'a \<Rightarrow> bool" where
  "is_interrupted r = (case r of (k, ret, errno, a) \<Rightarrow> interrupted ret errno)"

lemma drm_ioctl_after_tries:
  "(\<And>i. i < n \<Longrightarrow> is_interrupted (nth_try ioctl i k a)) \<Longrightarrow> nth_try ioctl n k a = (k', ret, errno, a') \<Longrightarrow>
   \<not> interrupted ret errno \<Longrightarrow> drm_ioctl ioctl k a = Some (k', ret, a')"
proof (induction n arbitrary: k a)
  case 0
  then show ?case by (subst drm_ioctl.simps) simp
next
  case (Suc n)
  obtain k1 r1 e1 a1 where io: "ioctl k a = (k1, r1, e1, a1)" by (cases "ioctl k a")
  have "interrupted r1 e1" using Suc.prems(1) [of 0] by (simp add: io is_interrupted_def)
  moreover have "drm_ioctl ioctl k1 a1 = Some (k', ret, a')"
    by (rule Suc.IH) (use Suc.prems(2,3) Suc.prems(1) [of "Suc _"] in \<open>simp_all add: io\<close>)
  ultimately show ?case by (subst drm_ioctl.simps) (simp add: io)
qed

lemma drm_ioctl_tries:
  assumes "drm_ioctl ioctl k a = Some (k', ret, a')"
  shows "\<exists>n errno. (\<forall>i<n. is_interrupted (nth_try ioctl i k a)) \<and> nth_try ioctl n k a = (k', ret, errno, a') \<and>
    \<not> interrupted ret errno"
proof -
  define P :: "('a, 'b) syscall \<Rightarrow> 'a \<Rightarrow> 'b \<Rightarrow> 'a \<times> int \<times> 'b \<Rightarrow> bool" where
    "P = (\<lambda>ioctl k a (k', ret, a'). \<exists>n errno. (\<forall>i<n. is_interrupted (nth_try ioctl i k a)) \<and>
       nth_try ioctl n k a = (k', ret, errno, a') \<and> \<not> interrupted ret errno)"
  have "P ioctl k a (k', ret, a')"
  proof (rule drm_ioctl.raw_induct [OF _ assms])
    fix f :: "('a, 'b) syscall \<Rightarrow> 'a \<Rightarrow> 'b \<Rightarrow> ('a \<times> int \<times> 'b) option" and ioctl k a r
    assume IH: "\<And>ioctl k a r. f ioctl k a = Some r \<Longrightarrow> P ioctl k a r"
      and eq: "(case ioctl k a of (k, ret, errno, arg) \<Rightarrow>
        if interrupted ret errno then f ioctl k arg else Some (k, ret, arg)) = Some r"
    obtain k1 r1 e1 a1 where io: "ioctl k a = (k1, r1, e1, a1)" by (cases "ioctl k a")
    show "P ioctl k a r"
    proof (cases "interrupted r1 e1")
      case False
      then have "r = (k1, r1, a1)" using eq by (simp add: io)
      then show ?thesis using False unfolding P_def by (simp, intro exI [of _ 0]) (simp add: io)
    next
      case True
      then have "P ioctl k1 a1 r" using IH eq by (simp add: io)
      then obtain n e where n: "\<forall>i<n. is_interrupted (nth_try ioctl i k1 a1)"
        "nth_try ioctl n k1 a1 = (fst r, fst (snd r), e, snd (snd r))" "\<not> interrupted (fst (snd r)) e"
        unfolding P_def by (cases r) auto
      have "is_interrupted (nth_try ioctl i k a)" if "i < Suc n" for i
        using that n(1) True by (cases i) (auto simp: io is_interrupted_def)
      then show ?thesis unfolding P_def using n(2,3)
        by (cases r) (auto simp: io intro!: exI [of _ "Suc n"] exI [of _ e])
    qed
  qed
  then show ?thesis by (simp add: P_def)
qed

section \<open>What the kernel promises\<close>

text \<open>
  Of a state of the kernel the laws see the buffer handles every device holds and the open descriptors
  of exported buffers. A call succeeds with 0 or fails with -1. CREATE_DUMB makes a handle the device
  does not hold, DESTROY_DUMB drops the one it is given, PRIME_HANDLE_TO_FD opens a new descriptor and
  close closes it; nothing else touches handles and descriptors, nor does a call that fails.
\<close>

record 'k kernel_view =
  handles :: "'k \<Rightarrow> (int \<times> u32) set"
  fds :: "'k \<Rightarrow> int set"

definition same_view :: "'k kernel_view \<Rightarrow> 'k \<Rightarrow> 'k \<Rightarrow> bool" where
  "same_view V k k' \<longleftrightarrow> handles V k' = handles V k \<and> fds V k' = fds V k"

text \<open>A call on an argument that satisfies I fails and keeps I, or succeeds and changes the view by Q.\<close>

definition call_law ::
  "'k kernel_view \<Rightarrow> ('k, 'a) syscall \<Rightarrow> ('a \<Rightarrow> bool) \<Rightarrow>
   ((int \<times> u32) set \<Rightarrow> int set \<Rightarrow> (int \<times> u32) set \<Rightarrow> int set \<Rightarrow> 'a \<Rightarrow> bool) \<Rightarrow> bool" where
  "call_law V ioctl I Q \<longleftrightarrow> (\<forall>k a k' ret errno a'. I a \<longrightarrow> ioctl k a = (k', ret, errno, a') \<longrightarrow>
     ret = - 1 \<and> same_view V k k' \<and> I a' \<or>
     ret = 0 \<and> Q (handles V k) (fds V k) (handles V k') (fds V k') a')"

definition create_law :: "'k kernel_view \<Rightarrow> 'k drm_kernel \<Rightarrow> bool" where
  "create_law V K \<longleftrightarrow> (\<forall>dev. call_law V (k_create_dumb K dev) (\<lambda>a. True)
     (\<lambda>H F H' F' a. (dev, dmcb_handle a) \<notin> H \<and> H' = insert (dev, dmcb_handle a) H \<and> F' = F))"

definition destroy_law :: "'k kernel_view \<Rightarrow> 'k drm_kernel \<Rightarrow> bool" where
  "destroy_law V K \<longleftrightarrow> (\<forall>dev h. call_law V (k_destroy_dumb K dev) (\<lambda>a. dmdd_handle a = h)
     (\<lambda>H F H' F' a. H' = H - {(dev, h)} \<and> F' = F))"

definition export_law :: "'k kernel_view \<Rightarrow> 'k drm_kernel \<Rightarrow> bool" where
  "export_law V K \<longleftrightarrow> (\<forall>dev. call_law V (k_prime_handle_to_fd K dev) (\<lambda>a. True)
     (\<lambda>H F H' F' a. 0 \<le> dph_fd a \<and> dph_fd a < 2 ^ 31 \<and> dph_fd a \<notin> F \<and> H' = H \<and> F' = insert (dph_fd a) F))"

definition close_law :: "'k kernel_view \<Rightarrow> 'k drm_kernel \<Rightarrow> bool" where
  "close_law V K \<longleftrightarrow> (\<forall>fd k. fd \<in> fds V k \<longrightarrow>
     handles V (fst (k_close K fd k)) = handles V k \<and> fds V (fst (k_close K fd k)) = fds V k - {fd})"

definition map_law :: "'k kernel_view \<Rightarrow> 'k drm_kernel \<Rightarrow> bool" where
  "map_law V K \<longleftrightarrow>
     (\<forall>dev. call_law V (k_map_dumb K dev) (\<lambda>a. True) (\<lambda>H F H' F' a. H' = H \<and> F' = F)) \<and>
     (\<forall>len dev off k. same_view V k (fst (k_mmap K len dev off k))) \<and>
     (\<forall>a len k. same_view V k (k_drmUnmap K a len k))"

definition kernel_laws :: "'k kernel_view \<Rightarrow> 'k drm_kernel \<Rightarrow> bool" where
  "kernel_laws V K \<longleftrightarrow> create_law V K \<and> destroy_law V K \<and> export_law V K \<and> close_law V K \<and> map_law V K"

lemma same_view_trans: "same_view V k k1 \<Longrightarrow> same_view V k1 k2 \<Longrightarrow> same_view V k k2"
  by (simp add: same_view_def)

text \<open>
  What every interrupted try keeps still holds before the try that counts: I is a relation the failing
  calls preserve.
\<close>

lemma drm_ioctl_last_try:
  assumes ret: "drm_ioctl ioctl k a = Some (k', ret, a')" and "I k a"
    and keeps: "\<And>k a k' ret errno a'. I k a \<Longrightarrow> ioctl k a = (k', ret, errno, a') \<Longrightarrow> interrupted ret errno \<Longrightarrow> I k' a'"
  obtains k0 a0 errno where "I k0 a0" "ioctl k0 a0 = (k', ret, errno, a')" "\<not> interrupted ret errno"
proof -
  obtain n e where n: "\<forall>i<n. is_interrupted (nth_try ioctl i k a)" "nth_try ioctl n k a = (k', ret, e, a')"
    "\<not> interrupted ret e"
    using drm_ioctl_tries [OF ret] by blast
  have "\<exists>k0 a0. I k0 a0 \<and> ioctl k0 a0 = (k', ret, e, a')" using n(1,2) \<open>I k a\<close>
  proof (induction n arbitrary: k a)
    case 0
    then show ?case by auto
  next
    case (Suc n)
    obtain k1 r1 e1 a1 where io: "ioctl k a = (k1, r1, e1, a1)" by (cases "ioctl k a")
    have "interrupted r1 e1" using Suc.prems(1) [rule_format, of 0] by (simp add: io is_interrupted_def)
    then have "I k1 a1" using keeps Suc.prems(3) io by blast
    moreover have "is_interrupted (nth_try ioctl i k1 a1)" if "i < n" for i
      using Suc.prems(1) [rule_format, of "Suc i"] that by (simp add: io)
    ultimately show ?case using Suc.IH [of k1 a1] Suc.prems(2) by (simp add: io)
  qed
  then show ?thesis using n(3) that by blast
qed

lemma call_view:
  assumes law: "call_law V ioctl I Q" and "I a" and ret: "drm_ioctl ioctl k a = Some (k', ret, a')"
  shows "ret = - 1 \<and> same_view V k k' \<or> ret = 0 \<and> Q (handles V k) (fds V k) (handles V k') (fds V k') a'"
  using ret
proof (rule drm_ioctl_last_try [where I = "\<lambda>k1 a1. same_view V k k1 \<and> I a1"])
  show "same_view V k k \<and> I a" using \<open>I a\<close> by (simp add: same_view_def)
next
  fix k1 a1 k2 r errno a2
  assume "same_view V k k1 \<and> I a1" "ioctl k1 a1 = (k2, r, errno, a2)" "interrupted r errno"
  then show "same_view V k k2 \<and> I a2"
    using law unfolding call_law_def interrupted_def by (metis same_view_trans zero_neq_neg_one)
next
  fix k0 a0 errno
  assume v: "same_view V k k0 \<and> I a0" and "ioctl k0 a0 = (k', ret, errno, a')"
  then have "ret = - 1 \<and> same_view V k0 k' \<or> ret = 0 \<and> Q (handles V k0) (fds V k0) (handles V k') (fds V k') a'"
    using law unfolding call_law_def by blast
  then show ?thesis using v by (auto simp: same_view_def)
qed

lemmas create_view = call_view [OF create_law_def [THEN iffD1, rule_format], OF _ TrueI]
lemmas export_view = call_view [OF export_law_def [THEN iffD1, rule_format], OF _ TrueI]
lemmas destroy_view = call_view [OF destroy_law_def [THEN iffD1, rule_format]]

lemma map_view: "map_law V K \<Longrightarrow> drm_ioctl (k_map_dumb K dev) k a = Some (k', ret, a') \<Longrightarrow> same_view V k k'"
  unfolding map_law_def using call_view [of V "k_map_dumb K dev" "\<lambda>_. True"] by (fastforce simp: same_view_def)

section \<open>Allocation and release\<close>

lemma alloc_cases:
  assumes laws: "kernel_laws V K" and alloc: "os_allocator_drm_alloc K k (Some p) info = Some (k1, ret, info1)"
  shows "ret = - 1 \<and> same_view V k k1 \<or>
    (ac_drm_device p, mb_hnd info1) \<notin> handles V k \<and>
    handles V k1 = insert (ac_drm_device p, mb_hnd info1) (handles V k) \<and>
    (ret = - 1 \<and> fds V k1 = fds V k \<or>
     ret = 0 \<and> buffer_fd info1 \<notin> fds V k \<and> fds V k1 = insert (buffer_fd info1) (fds V k) \<and> mb_vir_addr info1 = 0)"
proof -
  define d where "d = \<lparr>dmcb_height = 1, dmcb_width = dumb_width (mb_size info) (ac_alignment p), dmcb_bpp = 8,
    dmcb_flags = 0, dmcb_handle = 0, dmcb_pitch = 0, dmcb_size = 0\<rparr>"
  obtain kc rc dc where c: "drm_ioctl (k_create_dumb K (ac_drm_device p)) k d = Some (kc, rc, dc)"
    using alloc by (auto simp: os_allocator_drm_alloc_def drm_alloc_def Let_def d_def bind_eq_Some_conv split: if_splits)
  have cv: "rc = - 1 \<and> same_view V k kc \<or> rc = 0 \<and> (ac_drm_device p, dmcb_handle dc) \<notin> handles V k \<and>
      handles V kc = insert (ac_drm_device p, dmcb_handle dc) (handles V k) \<and> fds V kc = fds V k"
    using create_view [OF _ c] laws by (simp add: kernel_laws_def)
  show ?thesis
  proof (cases "rc = 0")
    case False
    then show ?thesis using alloc cv c
      by (auto simp: os_allocator_drm_alloc_def drm_alloc_def Let_def d_def [symmetric])
  next
    case True
    define q where "q = \<lparr>dph_handle = dmcb_handle dc, dph_flags = 0, dph_fd = - 1\<rparr>"
    obtain ke re de where e: "drm_ioctl (k_prime_handle_to_fd K (ac_drm_device p)) kc q = Some (ke, re, de)"
      using alloc True
      by (auto simp: os_allocator_drm_alloc_def drm_alloc_def drm_handle_to_fd_def Let_def d_def [symmetric] c q_def
          bind_eq_Some_conv split: if_splits)
    have "re = - 1 \<and> same_view V kc ke \<or> re = 0 \<and> 0 \<le> dph_fd de \<and> dph_fd de < 2 ^ 31 \<and> dph_fd de \<notin> fds V kc \<and>
        handles V ke = handles V kc \<and> fds V ke = insert (dph_fd de) (fds V kc)"
      using export_view [OF _ e] laws by (simp add: kernel_laws_def)
    moreover have "sint (word_of_int (dph_fd de) :: 32 word) = dph_fd de" if "0 \<le> dph_fd de" "dph_fd de < 2 ^ 31"
      using that by (simp add: sint_sbintrunc' signed_take_bit_int_eq_self)
    ultimately show ?thesis using alloc cv c e True
      by (auto simp: os_allocator_drm_alloc_def drm_alloc_def drm_handle_to_fd_def Let_def d_def [symmetric]
          q_def [symmetric] buffer_fd_def same_view_def)
  qed
qed

lemma mmap_cases:
  assumes "map_law V K" "os_allocator_drm_mmap K k (Some p) info = Some (k1, ret, info1)"
  shows "same_view V k k1 \<and> mb_hnd info1 = mb_hnd info \<and> mb_phy_addr info1 = mb_phy_addr info \<and>
    (mb_vir_addr info = 0 \<longrightarrow> ret \<noteq> 0 \<longrightarrow> mb_vir_addr info1 = 0)"
proof (cases "mb_vir_addr info = 0")
  case False
  then show ?thesis using assms(2) by (simp add: os_allocator_drm_mmap_def same_view_def)
next
  case True
  define d where "d = \<lparr>dmmd_handle = mb_hnd info, dmmd_pad = 0, dmmd_offset = 0\<rparr>"
  obtain km rm dm where m: "drm_ioctl (k_map_dumb K (ac_drm_device p)) k d = Some (km, rm, dm)"
    using assms(2) True by (auto simp: os_allocator_drm_mmap_def d_def bind_eq_Some_conv)
  obtain kn a e where n: "k_mmap K (mb_size info) (ac_drm_device p) (dmmd_offset dm) km = (kn, a, e)"
    by (cases "k_mmap K (mb_size info) (ac_drm_device p) (dmmd_offset dm) km")
  have "same_view V k km" "same_view V km kn"
    using map_view [OF assms(1) m] assms(1) n unfolding map_law_def by (auto dest: arg_cong [where f = fst])
      (metis fst_conv)
  then show ?thesis using assms(2) True
    by (auto simp: os_allocator_drm_mmap_def d_def [symmetric] m n split: if_splits intro: same_view_trans)
qed

lemma free_cases:
  assumes laws: "kernel_laws V K" and free: "os_allocator_drm_free K k (Some p) info = Some (k1, ret, info1)"
    and held: "buffer_fd info \<in> fds V k"
  shows "mb_vir_addr info1 = 0 \<and> fds V k1 = fds V k - {buffer_fd info} \<and>
    (ret = - 1 \<and> handles V k1 = handles V k \<or>
     ret = 0 \<and> handles V k1 = handles V k - {(ac_drm_device p, mb_hnd info)})"
proof -
  define ku where "ku = (if mb_vir_addr info \<noteq> 0 then k_drmUnmap K (mb_vir_addr info) (mb_size info) k else k)"
  obtain kc rc ec where c: "k_close K (buffer_fd info) ku = (kc, rc, ec)"
    by (cases "k_close K (buffer_fd info) ku")
  have u: "same_view V k ku" using laws by (simp add: ku_def kernel_laws_def map_law_def same_view_def)
  then have kc: "handles V kc = handles V k" "fds V kc = fds V k - {buffer_fd info}"
    using laws held c unfolding kernel_laws_def close_law_def same_view_def by (metis fst_conv)+
  obtain i where run: "os_allocator_drm_free K k (Some p) info =
      do { (k, ret) \<leftarrow> drm_free K kc (ac_drm_device p) (mb_hnd info); Some (k, ret, i) }" "mb_vir_addr i = 0"
  proof (cases "mb_vir_addr info = 0")
    case True
    then show ?thesis using c that [of info] by (simp add: os_allocator_drm_free_def ku_def buffer_fd_def)
  next
    case False
    then show ?thesis using c that [of "info\<lparr>mb_vir_addr := 0\<rparr>"]
      by (simp add: os_allocator_drm_free_def ku_def buffer_fd_def)
  qed
  have "drm_free K kc (ac_drm_device p) (mb_hnd info) \<bind> (\<lambda>(k, ret). Some (k, ret, i)) = Some (k1, ret, info1)"
    using free run(1) by simp
  then obtain dd where d: "drm_ioctl (k_destroy_dumb K (ac_drm_device p)) kc \<lparr>dmdd_handle = mb_hnd info\<rparr> = Some (k1, ret, dd)"
    "info1 = i" by (auto simp: drm_free_def bind_eq_Some_conv)
  have "ret = - 1 \<and> same_view V kc k1 \<or>
      ret = 0 \<and> handles V k1 = handles V kc - {(ac_drm_device p, mb_hnd info)} \<and> fds V k1 = fds V kc"
    using destroy_view [OF _ _ d(1)] laws by (simp add: kernel_laws_def)
  then show ?thesis using kc run(2) d(2) by (auto simp: same_view_def)
qed

text \<open>
  C8. Allocation, mapping and release balance. When os_allocator_drm_alloc succeeds it has given the
  buffer a handle the device did not hold and a descriptor that was not open, and no others; after
  os_allocator_drm_mmap, whether it succeeds or not, a successful os_allocator_drm_free leaves exactly
  the handles and descriptors of before, and no address in the buffer. This holds however often the
  kernel interrupts the calls.
\<close>

theorem Alloc_free_balance:
  assumes laws: "kernel_laws V K" and alloc: "os_allocator_drm_alloc K k (Some p) info = Some (k1, 0, info1)"
    and mmap: "os_allocator_drm_mmap K k1 (Some p) info1 = Some (k2, m, info2)"
    and free: "os_allocator_drm_free K k2 (Some p) info2 = Some (k3, 0, info3)"
  shows "handles V k2 = insert (ac_drm_device p, mb_hnd info1) (handles V k) \<and>
    fds V k2 = insert (buffer_fd info1) (fds V k) \<and>
    (ac_drm_device p, mb_hnd info1) \<notin> handles V k \<and> buffer_fd info1 \<notin> fds V k \<and>
    handles V k3 = handles V k \<and> fds V k3 = fds V k \<and> mb_vir_addr info3 = 0"
proof -
  have a: "(ac_drm_device p, mb_hnd info1) \<notin> handles V k" "buffer_fd info1 \<notin> fds V k"
    "handles V k1 = insert (ac_drm_device p, mb_hnd info1) (handles V k)"
    "fds V k1 = insert (buffer_fd info1) (fds V k)"
    using alloc_cases [OF laws alloc] by auto
  have m: "same_view V k1 k2" "mb_hnd info2 = mb_hnd info1" "buffer_fd info2 = buffer_fd info1"
    using mmap_cases [OF _ mmap] laws by (auto simp: kernel_laws_def buffer_fd_def)
  then show ?thesis using a free_cases [OF laws free] by (auto simp: same_view_def)
qed

text \<open>
  When the buffer was made but cannot be exported, os_allocator_drm_alloc gives up with the error
  and does not destroy it: the device still holds the new handle.
\<close>

theorem Alloc_leaks_unexported_buffer:
  assumes laws: "kernel_laws V K"
    and made: "drm_alloc K k (ac_drm_device p) (mb_size info) (ac_alignment p) (Some (mb_hnd info)) = Some (kc, 0, Some h)"
    and fails: "drm_handle_to_fd K kc (ac_drm_device p) h (Some (buffer_fd info)) 0 = Some (k1, ret, fd)" "ret \<noteq> 0"
  shows "\<exists>info1. os_allocator_drm_alloc K k (Some p) info = Some (k1, ret, info1) \<and> mb_hnd info1 = h \<and>
    (ac_drm_device p, h) \<notin> handles V k \<and> handles V k1 = insert (ac_drm_device p, h) (handles V k) \<and>
    fds V k1 = fds V k"
proof -
  define info1 where "info1 = info\<lparr>mb_hnd := h, mb_phy_addr := word_of_int (the fd)\<rparr>"
  have r: "os_allocator_drm_alloc K k (Some p) info = Some (k1, ret, info1)"
    using fails by (simp add: os_allocator_drm_alloc_def made info1_def buffer_fd_def)
  obtain d kd where c: "drm_ioctl (k_create_dumb K (ac_drm_device p)) k d = Some (kc, 0, kd)" "dmcb_handle kd = h"
    using made by (auto simp: drm_alloc_def Let_def bind_eq_Some_conv split: if_splits)
  have cv: "(ac_drm_device p, h) \<notin> handles V k" "handles V kc = insert (ac_drm_device p, h) (handles V k)"
    "fds V kc = fds V k"
    using create_view [OF _ c(1)] laws c(2) by (auto simp: kernel_laws_def)
  obtain q kq rq where e: "drm_ioctl (k_prime_handle_to_fd K (ac_drm_device p)) kc q = Some (k1, rq, kq)"
    "rq = 0 \<longrightarrow> dph_fd kq < 0 \<or> ret = 0"
    using fails by (auto simp: drm_handle_to_fd_def Let_def bind_eq_Some_conv split: if_splits)
  then have "same_view V kc k1" using export_view [OF _ e(1)] laws fails(2) by (fastforce simp: kernel_laws_def)
  then show ?thesis using r cv by (auto simp: same_view_def info1_def)
qed

text \<open>
  The width drm_alloc asks for: for an alignment that is a power of two it is the length rounded up to
  a multiple, unless the sum wraps around, and then nothing.
\<close>

lemma dumb_width_rounds_up:
  assumes "n < 32" "unat len + 2 ^ n \<le> 2 ^ 32"
  shows "unat (dumb_width len (2 ^ n)) = (unat len + 2 ^ n - 1) div 2 ^ n * 2 ^ n"
proof -
  have m: "2 ^ n - 1 = (mask n :: u32)" by (simp add: mask_eq_exp_minus_1)
  have "dumb_width len (2 ^ n) = (len + mask n) AND NOT (mask n)"
    unfolding dumb_width_def m [symmetric] by (simp add: add_diff_eq)
  moreover have "unat (len + mask n) = unat len + 2 ^ n - 1"
  proof -
    have "(2 ^ n :: nat) \<le> 2 ^ 32" using assms(2) by linarith
    then have "(mask n :: nat) < 2 ^ 32" by (simp add: mask_eq_exp_minus_1 less_le_trans)
    then have k: "unat (mask n :: u32) = 2 ^ n - 1"
      by (subst of_nat_mask_eq [symmetric], subst unsigned_of_nat)
        (use assms(1) in \<open>simp add: min_def mask_eq_exp_minus_1 take_bit_nat_eq_self\<close>)
    show ?thesis using assms(2) by (subst u32_add) (simp_all add: k)
  qed
  moreover have "x AND NOT (mask n) = push_bit n (drop_bit n x)" for x :: u32
    by (rule bit_word_eqI) (auto simp: bit_simps)
  moreover have "unat (push_bit n (drop_bit n x)) = unat x div 2 ^ n * 2 ^ n" for x :: u32
  proof -
    have "unat x div 2 ^ n * 2 ^ n \<le> unat x" by simp
    then have "unat x div 2 ^ n * 2 ^ n < 4294967296" using u32_lt [of x] by linarith
    moreover have "unat (drop_bit n x) = unat x div 2 ^ n" by (subst unat_drop_bit_eq) (rule drop_bit_eq_div)
    ultimately show ?thesis by (subst unsigned_push_bit_eq) (simp add: push_bit_eq_mult take_bit_nat_eq_self)
  qed
  ultimately show ?thesis by simp
qed

lemma dumb_width_wraps: "dumb_width (- 1) 4096 = 0"
  by (simp add: dumb_width_def)

section \<open>A kernel\<close>

text \<open>
  A kernel that satisfies the laws: it interrupts the first kd_busy calls that make or export a
  buffer, and has kd_room descriptors left.
\<close>

record kernel_demo =
  kd_handles :: "(int \<times> u32) set"
  kd_fds :: "int set"
  kd_next :: u32
  kd_busy :: nat
  kd_room :: nat

definition demo_create :: "int \<Rightarrow> (kernel_demo, drm_mode_create_dumb) syscall" where
  "demo_create dev k a =
     (if kd_busy k > 0 then (k\<lparr>kd_busy := kd_busy k - 1\<rparr>, - 1, EINTR, a)
      else if (dev, kd_next k) \<in> kd_handles k then (k, - 1, 12, a)
      else (k\<lparr>kd_handles := insert (dev, kd_next k) (kd_handles k), kd_next := kd_next k + 1\<rparr>, 0, 0,
            a\<lparr>dmcb_handle := kd_next k\<rparr>))"

definition demo_export :: "int \<Rightarrow> (kernel_demo, drm_prime_handle) syscall" where
  "demo_export dev k a =
     (if kd_busy k > 0 then (k\<lparr>kd_busy := kd_busy k - 1\<rparr>, - 1, EAGAIN, a)
      else if kd_room k = 0 \<or> int (kd_room k) \<in> kd_fds k \<or> \<not> kd_room k < 1024 then (k, - 1, 24, a)
      else (k\<lparr>kd_fds := insert (int (kd_room k)) (kd_fds k), kd_room := kd_room k - 1\<rparr>, 0, 0,
            a\<lparr>dph_fd := int (kd_room k)\<rparr>))"

definition demo_kernel :: "kernel_demo drm_kernel" where
  "demo_kernel =
     \<lparr>k_open = (\<lambda>k. (k, 3)), k_close = (\<lambda>fd k. (k\<lparr>kd_fds := kd_fds k - {fd}\<rparr>, 0, 0)), k_calloc = (\<lambda>k. (k, True)),
      k_prime_handle_to_fd = demo_export, k_prime_fd_to_handle = (\<lambda>dev k a. (k, - 1, 22, a)),
      k_create_dumb = demo_create,
      k_destroy_dumb = (\<lambda>dev k a. (k\<lparr>kd_handles := kd_handles k - {(dev, dmdd_handle a)}\<rparr>, 0, 0, a)),
      k_map_dumb = (\<lambda>dev k a. (k, 0, 0, a)), k_mmap = (\<lambda>len dev off k. (k, 0x1000, 0)),
      k_drmUnmap = (\<lambda>a len k. k)\<rparr>"

definition demo_view :: "kernel_demo kernel_view" where
  "demo_view = \<lparr>handles = kd_handles, fds = kd_fds\<rparr>"

lemma demo_laws: "kernel_laws demo_view demo_kernel"
  unfolding kernel_laws_def create_law_def destroy_law_def export_law_def close_law_def map_law_def call_law_def
    same_view_def demo_view_def demo_kernel_def demo_create_def demo_export_def
  by auto

definition demo_start :: "nat \<Rightarrow> kernel_demo" where
  "demo_start room = \<lparr>kd_handles = {(3, 7)}, kd_fds = {5}, kd_next = 8, kd_busy = 1, kd_room = room\<rparr>"

definition demo_ctx :: allocator_ctx_drm where
  "demo_ctx = \<lparr>ac_alignment = 4096, ac_drm_device = 3\<rparr>"

definition demo_info :: MppBufferInfo where
  "demo_info = zero_MppBufferInfo\<lparr>mb_size := 10000\<rparr>"

lemmas demo_run = demo_start_def demo_ctx_def demo_info_def zero_MppBufferInfo_def demo_kernel_def demo_create_def
  demo_export_def interrupted_def errno_consts drm_ioctl.simps

definition the_dumb :: "u32 \<Rightarrow> drm_mode_create_dumb" where
  "the_dumb n = \<lparr>dmcb_height = 1, dmcb_width = n, dmcb_bpp = 8, dmcb_flags = 0, dmcb_handle = 0, dmcb_pitch = 0,
     dmcb_size = 0\<rparr>"

lemma demo_alloc:
  "os_allocator_drm_alloc demo_kernel (demo_start 9) (Some demo_ctx) demo_info =
    Some ((demo_start 9)\<lparr>kd_handles := {(3, 8), (3, 7)}, kd_fds := {9, 5}, kd_next := 9, kd_busy := 0, kd_room := 8\<rparr>,
      0, demo_info\<lparr>mb_hnd := 8, mb_phy_addr := 9\<rparr>)"
  by (simp add: os_allocator_drm_alloc_def drm_alloc_def drm_handle_to_fd_def buffer_fd_def demo_run)

lemma demo_mmap:
  "os_allocator_drm_mmap demo_kernel k (Some demo_ctx) (demo_info\<lparr>mb_hnd := 8, mb_phy_addr := 9\<rparr>) =
    Some (k, 0, demo_info\<lparr>mb_hnd := 8, mb_phy_addr := 9, mb_vir_addr := 0x1000\<rparr>)"
  by (simp add: os_allocator_drm_mmap_def demo_run)

lemma demo_free:
  "os_allocator_drm_free demo_kernel k (Some demo_ctx) (demo_info\<lparr>mb_hnd := 8, mb_phy_addr := 9, mb_vir_addr := 0x1000\<rparr>) =
    Some (k\<lparr>kd_fds := kd_fds k - {9}, kd_handles := kd_handles k - {(3, 8)}\<rparr>, 0, demo_info\<lparr>mb_hnd := 8, mb_phy_addr := 9\<rparr>)"
  by (simp add: os_allocator_drm_free_def drm_free_def buffer_fd_def demo_run)

lemma Alloc_free_balance_witness:
  "\<exists>k1 info1 k2 info2 k3 info3.
    os_allocator_drm_alloc demo_kernel (demo_start 9) (Some demo_ctx) demo_info = Some (k1, 0, info1) \<and>
    os_allocator_drm_mmap demo_kernel k1 (Some demo_ctx) info1 = Some (k2, 0, info2) \<and>
    os_allocator_drm_free demo_kernel k2 (Some demo_ctx) info2 = Some (k3, 0, info3) \<and>
    kd_handles k3 = {(3, 7)} \<and> kd_fds k3 = {5}"
  by (intro exI conjI, rule demo_alloc, rule demo_mmap, rule demo_free)
    (use Alloc_free_balance [OF demo_laws demo_alloc demo_mmap demo_free] in
      \<open>auto simp: demo_view_def demo_start_def demo_ctx_def buffer_fd_def\<close>)

lemma Alloc_leaks_unexported_buffer_witness:
  "\<exists>k1 info1. os_allocator_drm_alloc demo_kernel (demo_start 0) (Some demo_ctx) demo_info = Some (k1, - 1, info1) \<and>
    kd_handles k1 = {(3, 8), (3, 7)} \<and> kd_fds k1 = {5}"
proof -
  have made: "drm_alloc demo_kernel (demo_start 0) (ac_drm_device demo_ctx) (mb_size demo_info) (ac_alignment demo_ctx)
      (Some (mb_hnd demo_info)) = Some ((demo_start 0)\<lparr>kd_handles := {(3, 8), (3, 7)}, kd_next := 9, kd_busy := 0\<rparr>, 0, Some 8)"
    by (simp add: drm_alloc_def demo_run)
  have fails: "drm_handle_to_fd demo_kernel ((demo_start 0)\<lparr>kd_handles := {(3, 8), (3, 7)}, kd_next := 9, kd_busy := 0\<rparr>)
      (ac_drm_device demo_ctx) 8 (Some (buffer_fd demo_info)) 0 =
      Some ((demo_start 0)\<lparr>kd_handles := {(3, 8), (3, 7)}, kd_next := 9, kd_busy := 0\<rparr>, - 1, Some (buffer_fd demo_info))"
    by (simp add: drm_handle_to_fd_def demo_run)
  show ?thesis
    using Alloc_leaks_unexported_buffer [OF demo_laws made fails]
    by (auto simp: demo_view_def demo_start_def)
qed



end
