(* ===== verification/HwTables.thy ===== *)
theory HwTables
  imports Scan
begin

text \<open>
  What the decoder hands to the hardware beside the stream (jpegdecinternal.c): the buffer with the
  quantisation and Huffman tables (JpegDecWriteTables and its variants for a non-interleaved and a
  progressive scan), the table selectors of the chroma components, and the code length counts
  (JpegDecWriteLenBits and its variants). The buffer is the list of words at
  frame.pTableBase.vir_addr; a store past its end is Undefined.
\<close>

section \<open>Writing words and bytes\<close>

text \<open>
  The local variables of JpegDecWriteTables: the buffer, pTableBase as an index into it, shifter,
  tableWord and tableTmp.
\<close>

record table_writer =
  tw_base :: "u32 list"
  tw_pos :: nat
  tw_shifter :: u32
  tw_word :: u32
  tw_tmp :: "u8 list"

type_synonym 'a writing = "('a, 'a) outcome"

definition put_word :: "u32 \<Rightarrow> table_writer \<Rightarrow> table_writer writing" where
  "put_word w t =
     (if tw_pos t < length (tw_base t)
      then Continue (t\<lparr>tw_base := (tw_base t)[tw_pos t := w], tw_pos := tw_pos t + 1\<rparr>)
      else Undefined)"

text \<open>The end of each loop body: a full word is written and the shifter starts again.\<close>

definition put_full :: "table_writer \<Rightarrow> table_writer writing" where
  "put_full t =
     (if tw_shifter t = 0
      then andThen (put_word (tw_word t) t) (\<lambda>t. Continue (t\<lparr>tw_shifter := 32\<rparr>))
      else Continue t)"

definition put_byte :: "u32 \<Rightarrow> table_writer \<Rightarrow> table_writer writing" where
  "put_byte tableValue t =
     (let v = push_bit (unat (tw_shifter t - 8)) tableValue;
          t = t\<lparr>tw_word := (if tw_shifter t = 32 then v else tw_word t OR v)\<rparr>
      in put_full (t\<lparr>tw_shifter := tw_shifter t - 8\<rparr>))"

text \<open>The body of the loop for a table without values.\<close>

definition put_nothing :: "table_writer \<Rightarrow> table_writer writing" where
  "put_nothing t =
     (let t = t\<lparr>tw_word := 0\<rparr>
      in put_full (t\<lparr>tw_shifter := tw_shifter t - 8\<rparr>))"

definition quant_byte :: "u8 \<Rightarrow> table_writer \<Rightarrow> table_writer writing" where
  "quant_byte b t =
     (let t = t\<lparr>tw_shifter := tw_shifter t - 8\<rparr>;
          v = push_bit (unat (tw_shifter t)) (ucast b);
          t = t\<lparr>tw_word := (if tw_shifter t = 24 then v else tw_word t OR v)\<rparr>
      in put_full t)"

section \<open>Quantisation tables\<close>

definition zzOrder :: "nat list" where
  "zzOrder = [
    0, 1, 8, 16, 9, 2, 3, 10, 17, 24, 32, 25, 18, 11, 4, 5,
    12, 19, 26, 33, 40, 48, 41, 34, 27, 20, 13, 6, 7, 14, 21, 28,
    35, 42, 49, 56, 57, 50, 43, 36, 29, 22, 15, 23, 30, 37, 44, 51,
    58, 59, 52, 45, 38, 31, 39, 46, 53, 60, 61, 54, 47, 55, 62, 63]"

text \<open>tableTmp[zzOrder[i]] = (RK_U8) table[i] for all i.\<close>

definition unzigzag :: "u32 list \<Rightarrow> u8 list \<Rightarrow> u8 list" where
  "unzigzag table tableTmp = fold (\<lambda>i tmp. tmp[zzOrder ! i := ucast (table ! i)]) [0..<64] tableTmp"

definition quant_table_of :: "JpegDecContainer \<Rightarrow> nat \<Rightarrow> u32 list" where
  "quant_table_of c j =
     (if comp_Tq (fr_component (c_frame c) ! j) = 0 then qt_table0 (c_quant c) else qt_table1 (c_quant c))"

definition WriteTables_quant :: "JpegDecContainer \<Rightarrow> nat \<Rightarrow> table_writer \<Rightarrow> table_writer writing" where
  "WriteTables_quant c j t =
     (if \<not> j < length (fr_component (c_frame c)) then Undefined else
      let t = t\<lparr>tw_tmp := unzigzag (quant_table_of c j) (tw_tmp t)\<rparr>;
          t = t\<lparr>tw_shifter := 32\<rparr>
      in forEach [0..<64] (\<lambda>i t. quant_byte (tw_tmp t ! i) t) t)"

section \<open>Huffman tables\<close>

text \<open>One table: n bytes, the values padded with zeros, or the loop for a null vals.\<close>

definition put_vals :: "nat \<Rightarrow> VlcTable \<Rightarrow> table_writer \<Rightarrow> table_writer writing" where
  "put_vals n v t =
     (case vt_vals v of
        Some vals \<Rightarrow>
          forEach [0..<n] (\<lambda>i t.
            if i < unat (vt_tableLength v) then
              (if i < length vals then put_byte (ucast (ucast (vals ! i) :: u8)) t else Undefined)
            else put_byte 0 t) t
      | None \<Rightarrow> forEach [0..<n] (\<lambda>i. put_nothing) t)"

definition put_zeros :: "nat \<Rightarrow> table_writer \<Rightarrow> table_writer writing" where
  "put_zeros n t = forEach [0..<n] (\<lambda>i. put_byte 0) t"

text \<open>The hardware wants the tables of the luma component first.\<close>

definition WriteTables_ac :: "JpegDecContainer \<Rightarrow> table_writer \<Rightarrow> table_writer writing" where
  "WriteTables_ac c t =
     (if sc_Ta (c_scan c) ! 0 = 0
      then andThen (put_vals 162 (vlc_acTable0 (c_vlc c)) t) (put_vals 162 (vlc_acTable1 (c_vlc c)))
      else andThen (put_vals 162 (vlc_acTable1 (c_vlc c)) t) (put_vals 162 (vlc_acTable0 (c_vlc c))))"

definition WriteTables_dc :: "JpegDecContainer \<Rightarrow> table_writer \<Rightarrow> table_writer writing" where
  "WriteTables_dc c t =
     (if sc_Td (c_scan c) ! 0 = 0
      then andThen (put_vals 12 (vlc_dcTable0 (c_vlc c)) t) (put_vals 12 (vlc_dcTable1 (c_vlc c)))
      else andThen (put_vals 12 (vlc_dcTable1 (c_vlc c)) t) (put_vals 12 (vlc_dcTable0 (c_vlc c))))"

text \<open>
  A scan of one component in YUV400 mode: the second tables are zeros. The table of the component is
  the one of component 0, or of the current component after the first non-interleaved scan.
\<close>

definition WriteTables_gray_ac :: "JpegDecContainer \<Rightarrow> table_writer \<Rightarrow> table_writer writing" where
  "WriteTables_gray_ac c t =
     (if sc_Ta (c_scan c) ! 0 = 0
      then andThen (put_vals 162 (vlc_acTable0 (c_vlc c)) t) (put_zeros 162)
      else andThen (put_vals 162 (vlc_acTable1 (c_vlc c)) t) (put_zeros 162))"

definition WriteTables_gray_dc :: "JpegDecContainer \<Rightarrow> table_writer \<Rightarrow> table_writer writing" where
  "WriteTables_gray_dc c t =
     (if sc_Td (c_scan c) ! 0 = 0
      then andThen (put_vals 12 (vlc_dcTable0 (c_vlc c)) t) (put_zeros 12)
      else andThen (put_vals 12 (vlc_dcTable1 (c_vlc c)) t) (put_zeros 12))"

definition WriteTables_component_ac :: "JpegDecContainer \<Rightarrow> table_writer \<Rightarrow> table_writer writing" where
  "WriteTables_component_ac c t =
     (let k = unat (inf_componentId (c_info c)) in
      if \<not> k < length (sc_Ta (c_scan c)) then Undefined
      else if sc_Ta (c_scan c) ! k = 0
      then andThen (put_vals 162 (vlc_acTable0 (c_vlc c)) t) (put_zeros 162)
      else andThen (put_vals 162 (vlc_acTable1 (c_vlc c)) t) (put_zeros 162))"

definition WriteTables_component_dc :: "JpegDecContainer \<Rightarrow> table_writer \<Rightarrow> table_writer writing" where
  "WriteTables_component_dc c t =
     (let k = unat (inf_componentId (c_info c)) in
      if \<not> k < length (sc_Td (c_scan c)) then Undefined
      else if sc_Td (c_scan c) ! k = 0
      then andThen (put_vals 12 (vlc_dcTable0 (c_vlc c)) t) (put_zeros 12)
      else andThen (put_vals 12 (vlc_dcTable1 (c_vlc c)) t) (put_zeros 12))"

definition WriteTables_vlc :: "JpegDecContainer \<Rightarrow> table_writer \<Rightarrow> table_writer writing" where
  "WriteTables_vlc c t =
     (if inf_yCbCrMode (c_info c) \<noteq> JPEGDEC_YUV400
      then andThen (WriteTables_ac c t) (WriteTables_dc c)
      else if inf_nonInterleavedScanReady (c_info c) = 0
      then andThen (WriteTables_gray_ac c t) (WriteTables_gray_dc c)
      else andThen (WriteTables_component_ac c t) (WriteTables_component_dc c))"

definition JpegDecWriteTables :: "JpegDecContainer \<Rightarrow> u32 list \<Rightarrow> table_writer writing" where
  "JpegDecWriteTables c base =
     andThen (forEach [0..<unat (inf_amountOfQTables (c_info c))] (WriteTables_quant c)
                \<lparr>tw_base = base, tw_pos = 0, tw_shifter = 32, tw_word = 0, tw_tmp = replicate 64 0\<rparr>) (\<lambda>t.
     let t = t\<lparr>tw_shifter := 32\<rparr>
     in andThen (WriteTables_vlc c t) (put_zeros 4))"

section \<open>Sinks of bytes\<close>

text \<open>
  A routine that appends one byte to what a state holds, up to a capacity; a loop of such calls
  appends one byte for each iteration.
\<close>

locale byte_sink =
  fixes put :: "u8 \<Rightarrow> 's \<Rightarrow> ('s, 's) outcome"
    and holds :: "u8 list \<Rightarrow> 's \<Rightarrow> bool"
    and cap :: nat
  assumes put_holds: "holds bs s \<Longrightarrow> length bs < cap \<Longrightarrow> \<exists>s'. put b s = Continue s' \<and> holds (bs @ [b]) s'"
begin

lemma loop_holds:
  assumes "\<And>i bs s. i \<in> set xs \<Longrightarrow> holds bs s \<Longrightarrow> body i s = put (f i) s" "holds bs s" "length bs + length xs \<le> cap"
  shows "\<exists>s'. forEach xs body s = Continue s' \<and> holds (bs @ map f xs) s'"
  using assms
proof (induction xs arbitrary: bs s)
  case (Cons x xs)
  obtain s1 where "put (f x) s = Continue s1" "holds (bs @ [f x]) s1"
    using put_holds [OF Cons.prems(2), of "f x"] Cons.prems(3) by auto
  moreover have "\<exists>s'. forEach xs body s1 = Continue s' \<and> holds ((bs @ [f x]) @ map f xs) s'"
    by (rule Cons.IH) (use Cons.prems calculation in auto)
  ultimately show ?case using Cons.prems(1) [OF _ Cons.prems(2), of x] by simp
qed simp

end

section \<open>What the table buffer holds\<close>

text \<open>The big-endian word of at most four bytes, and the words of a list of bytes.\<close>

fun be_from :: "nat \<Rightarrow> u8 list \<Rightarrow> u32" where
  "be_from n [] = 0"
| "be_from n (b # bs) = push_bit (n - 8) (ucast b) OR be_from (n - 8) bs"

fun pack :: "u8 list \<Rightarrow> u32 list" where
  "pack (a # b # c # d # bs) = be_from 32 [a, b, c, d] # pack bs"
| "pack bs = []"

lemma be_from_append: "be_from n (bs @ [b]) = be_from n bs OR push_bit (n - 8 * length bs - 8) (ucast b)"
  by (induction bs arbitrary: n) (simp_all add: or.assoc)

lemma pack_append: "4 dvd length xs \<Longrightarrow> length ys = 4 \<Longrightarrow> pack (xs @ ys) = pack xs @ [be_from 32 ys]"
proof (induction xs rule: pack.induct)
  case (1 a b c d bs)
  then have "4 dvd length bs" by (simp add: dvd_def) presburger
  then show ?case using 1 by simp
next
  case "2_1"
  then show ?case by (auto simp: numeral_eq_Suc length_Suc_conv)
qed (simp_all add: nat_dvd_not_less)

lemma pack_length [simp]: "length (pack bs) = length bs div 4"
  by (induction bs rule: pack.induct) simp_all

definition tw_ok :: "u32 list \<Rightarrow> u8 list \<Rightarrow> table_writer \<Rightarrow> bool" where
  "tw_ok base bs t \<longleftrightarrow> (\<exists>full part. bs = full @ part \<and> 4 dvd length full \<and> length part < 4 \<and>
     4 * length base \<ge> length full \<and>
     tw_base t = pack full @ drop (length full div 4) base \<and> tw_pos t = length full div 4 \<and>
     tw_shifter t = of_nat (32 - 8 * length part) \<and> (part \<noteq> [] \<longrightarrow> tw_word t = be_from 32 part))"

lemma put_byte_ok:
  assumes "tw_ok base bs t" "length bs < 4 * length base"
  shows "\<exists>t'. put_byte (ucast b) t = Continue t' \<and> tw_ok base (bs @ [b]) t'"
proof -
  obtain full part where fp: "bs = full @ part" "4 dvd length full" "length part < 4"
     "tw_base t = pack full @ drop (length full div 4) base" "tw_pos t = length full div 4"
     "tw_shifter t = of_nat (32 - 8 * length part)" "part \<noteq> [] \<longrightarrow> tw_word t = be_from 32 part"
    using assms(1) unfolding tw_ok_def by blast
  let ?n = "length part"
  have n: "?n = 0 \<or> ?n = 1 \<or> ?n = 2 \<or> ?n = 3" using fp(3) by arith
  then have sh: "unat (tw_shifter t - 8) = 24 - 8 * ?n" "tw_shifter t = 32 \<longleftrightarrow> ?n = 0"
    "tw_shifter t - 8 = of_nat (32 - 8 * (?n + 1))" "tw_shifter t - 8 = 0 \<longleftrightarrow> ?n = 3"
    unfolding fp(6) by auto
  let ?w = "if tw_shifter t = 32 then push_bit (unat (tw_shifter t - 8)) (ucast b)
    else tw_word t OR push_bit (unat (tw_shifter t - 8)) (ucast b)"
  have w: "?w = be_from 32 (part @ [b])"
    using fp(7) n unfolding sh(1,2) by (auto simp: be_from_append)
  have pb: "put_byte (ucast b) t = put_full (t\<lparr>tw_word := be_from 32 (part @ [b]), tw_shifter := tw_shifter t - 8\<rparr>)"
    using w by (simp add: put_byte_def Let_def)
  have lf: "length full div 4 < length base" using assms(2) fp(1,2) by auto
  show ?thesis
  proof (cases "?n = 3")
    case False
    then have "tw_ok base (bs @ [b]) (t\<lparr>tw_word := be_from 32 (part @ [b]), tw_shifter := tw_shifter t - 8\<rparr>)"
      unfolding tw_ok_def using fp sh(3) lf assms(2) n
      by (intro exI [of _ full] exI [of _ "part @ [b]"]) auto
    then show ?thesis using pb False sh(4) by (simp add: put_full_def)
  next
    case True
    let ?t = "t\<lparr>tw_word := be_from 32 (part @ [b]), tw_shifter := 0,
      tw_base := (tw_base t)[tw_pos t := be_from 32 (part @ [b])], tw_pos := tw_pos t + 1\<rparr>"
    have "put_byte (ucast b) t = Continue (?t\<lparr>tw_shifter := 32\<rparr>)"
      unfolding pb using True sh(4) lf fp by (simp add: put_full_def put_word_def)
    moreover have "tw_ok base (bs @ [b]) (?t\<lparr>tw_shifter := 32\<rparr>)"
    proof -
      have "drop (length full div 4) base = base ! (length full div 4) # drop (Suc (length full div 4)) base"
        using lf by (simp add: Cons_nth_drop_Suc)
      then have "(tw_base t)[tw_pos t := be_from 32 (part @ [b])] =
          pack (full @ part @ [b]) @ drop (length (full @ part @ [b]) div 4) base"
        using fp True by (simp add: pack_append list_update_append)
      then show ?thesis
        unfolding tw_ok_def using fp True lf
        by (intro exI [of _ "full @ part @ [b]"] exI [of _ "[]"]) auto
    qed
    ultimately show ?thesis by blast
  qed
qed

interpretation tw: byte_sink "\<lambda>b. put_byte (ucast b)" "tw_ok base" "4 * length base" for base
  by unfold_locales (rule put_byte_ok)


section \<open>The loops of JpegDecWriteTables\<close>

lemma tw_ok_start: "tw_ok base [] \<lparr>tw_base = base, tw_pos = 0, tw_shifter = 32, tw_word = 0, tw_tmp = tmp\<rparr>"
  by (simp add: tw_ok_def)

lemma tw_ok_aligned: "tw_ok base bs t \<Longrightarrow> 4 dvd length bs \<Longrightarrow> t\<lparr>tw_shifter := 32\<rparr> = t"
proof -
  assume "tw_ok base bs t" and d: "4 dvd length bs"
  then obtain full part where fp: "bs = full @ part" "4 dvd length full" "length part < 4"
    "tw_shifter t = of_nat (32 - 8 * length part)" unfolding tw_ok_def by blast
  moreover from this(1-3) d have "length part = 0" unfolding fp(1) length_append by presburger
  ultimately show "t\<lparr>tw_shifter := 32\<rparr> = t" by simp
qed

lemma tw_ok_tmp [simp]: "tw_ok base bs (t\<lparr>tw_tmp := x\<rparr>) = tw_ok base bs t"
  by (simp add: tw_ok_def)

definition vlc_bytes :: "nat \<Rightarrow> VlcTable \<Rightarrow> u8 list" where
  "vlc_bytes n v = (case vt_vals v of
     None \<Rightarrow> replicate n 0
   | Some vals \<Rightarrow> map (\<lambda>i. if i < unat (vt_tableLength v) then ucast (vals ! i) else 0) [0..<n])"

lemma vlc_bytes_length [simp]: "length (vlc_bytes n v) = n"
  by (simp add: vlc_bytes_def split: option.split)

lemma put_zeros_ok:
  assumes "tw_ok base bs t" "length bs + n \<le> 4 * length base"
  shows "\<exists>t'. put_zeros n t = Continue t' \<and> tw_ok base (bs @ replicate n 0) t'"
  using tw.loop_holds [where xs = "[0..<n]" and body = "\<lambda>i. put_byte 0" and f = "\<lambda>i. 0", OF _ assms(1)] assms(2)
  by (simp add: put_zeros_def map_replicate_const)

definition vlc_ok :: "VlcTable \<Rightarrow> bool" where
  "vlc_ok v \<longleftrightarrow> (\<forall>vals. vt_vals v = Some vals \<longrightarrow> unat (vt_tableLength v) \<le> length vals)"

lemma put_vals_some:
  assumes "tw_ok base bs t" "length bs + n \<le> 4 * length base" "vlc_ok v" "vt_vals v \<noteq> None"
  shows "\<exists>t'. put_vals n v t = Continue t' \<and> tw_ok base (bs @ vlc_bytes n v) t'"
proof -
  obtain vals where v: "vt_vals v = Some vals" using assms(4) by auto
  then have l: "unat (vt_tableLength v) \<le> length vals" using assms(3) by (simp add: vlc_ok_def)
  show ?thesis
    using tw.loop_holds [where xs = "[0..<n]" and body = "\<lambda>i t. if i < unat (vt_tableLength v) then
        (if i < length vals then put_byte (ucast (ucast (vals ! i) :: u8)) t else Undefined) else put_byte 0 t"
      and f = "\<lambda>i. if i < unat (vt_tableLength v) then ucast (vals ! i) else 0", OF _ assms(1)] assms(2) l
    by (simp add: put_vals_def vlc_bytes_def v)
qed

lemma put_nothing_ok:
  assumes "tw_ok base (xs @ replicate m 0) t" "length xs + m < 4 * length base" "4 dvd length xs"
  shows "\<exists>t'. put_nothing t = Continue t' \<and> tw_ok base (xs @ replicate (Suc m) 0) t'"
proof -
  have "put_nothing t = put_byte (ucast (0 :: u8)) t"
  proof (cases "tw_shifter t = 32")
    case False
    obtain full part where fp: "xs @ replicate m 0 = full @ part" "4 dvd length full" "length part < 4"
      "tw_shifter t = of_nat (32 - 8 * length part)" "part \<noteq> [] \<longrightarrow> tw_word t = be_from 32 part"
      using assms(1) unfolding tw_ok_def by blast
    have ne: "part \<noteq> []" using False fp(4) by auto
    have "length xs + m = length full + length part" using fp(1) by (metis length_append length_replicate)
    then have "length xs \<le> length full" using fp(2,3) assms(3) by presburger
    then have "part = replicate (m + length xs - length full) 0"
      using arg_cong [OF fp(1), of "drop (length full)"] by simp
    moreover have "be_from n (replicate k 0) = 0" for n k by (induction k arbitrary: n) auto
    ultimately have "be_from 32 part = 0" by metis
    then have "tw_word t = 0" using fp(5) ne by simp
    then show ?thesis using False by (simp add: put_nothing_def put_byte_def)
  qed (simp add: put_nothing_def put_byte_def)
  then show ?thesis
    using put_byte_ok [OF assms(1), of 0] assms(2) by (simp add: replicate_append_same)
qed

lemma put_nothings_ok:
  assumes "tw_ok base (xs @ replicate m 0) t" "length xs + m + length ys \<le> 4 * length base" "4 dvd length xs"
  shows "\<exists>t'. forEach ys (\<lambda>i. put_nothing) t = Continue t' \<and> tw_ok base (xs @ replicate (m + length ys) 0) t'"
  using assms(1,2)
proof (induction ys arbitrary: m t)
  case (Cons y ys)
  obtain s1 where "put_nothing t = Continue s1" "tw_ok base (xs @ replicate (Suc m) 0) s1"
    using put_nothing_ok [OF Cons.prems(1) _ assms(3)] Cons.prems(2) by auto
  then show ?case using Cons.IH [of "Suc m" s1] Cons.prems(2) by simp
qed simp

lemma put_vals_none:
  assumes "tw_ok base (xs @ replicate m 0) t" "length xs + m + n \<le> 4 * length base" "4 dvd length xs" "vt_vals v = None"
  shows "\<exists>t'. put_vals n v t = Continue t' \<and> tw_ok base (xs @ replicate m 0 @ vlc_bytes n v) t'"
  using put_nothings_ok [of base xs m t "[0..<n]"] assms
  by (simp add: put_vals_def vlc_bytes_def replicate_add)

lemma put_vals_ok:
  assumes "tw_ok base bs t" "length bs + n \<le> 4 * length base" "vlc_ok v" "vt_vals v \<noteq> None \<or> 4 dvd length bs"
  shows "\<exists>t'. put_vals n v t = Continue t' \<and> tw_ok base (bs @ vlc_bytes n v) t'"
  using put_vals_some [OF assms(1-3)] put_vals_none [of base bs 0 t n v] assms by auto

section \<open>The zig-zag order\<close>

lemma fold_update_outside:
  "k \<notin> z ` set xs \<Longrightarrow> fold (\<lambda>i tmp. tmp[z i := f i]) xs tmp ! k = tmp ! k"
  by (induction xs arbitrary: tmp) auto

lemma fold_update_length [simp]: "length (fold (\<lambda>i tmp. tmp[z i := f i]) xs tmp) = length tmp"
  by (induction xs arbitrary: tmp) auto

lemma fold_update_at:
  "distinct xs \<Longrightarrow> inj_on z (set xs) \<Longrightarrow> i \<in> set xs \<Longrightarrow> z i < length tmp \<Longrightarrow>
   fold (\<lambda>i tmp. tmp[z i := f i]) xs tmp ! z i = f i"
proof (induction xs arbitrary: tmp)
  case (Cons x xs)
  show ?case
  proof (cases "i = x")
    case True
    then have "z i \<notin> z ` set xs" using Cons.prems by (auto simp: inj_on_def)
    then show ?thesis using True Cons.prems by (simp add: fold_update_outside)
  qed (use Cons in \<open>auto simp: inj_on_def\<close>)
qed simp

lemma zzOrder_facts: "distinct zzOrder" "length zzOrder = 64" "set zzOrder = {0..<64}"
proof -
  show "distinct zzOrder" "length zzOrder = 64" by (simp_all add: zzOrder_def)
  have "set zzOrder = set [0..<64]" by code_simp
  then show "set zzOrder = {0..<64}" by simp
qed

lemma unzigzag_length [simp]: "length (unzigzag table tmp) = length tmp"
  by (simp add: unzigzag_def)

lemma unzigzag_at:
  assumes "i < 64" "length tmp = 64"
  shows "unzigzag table tmp ! (zzOrder ! i) = ucast (table ! i)"
proof -
  have "zzOrder ! i < 64" using assms(1) zzOrder_facts(2,3) nth_mem [of i zzOrder] by auto
  moreover have "inj_on ((!) zzOrder) (set [0..<64])"
    using zzOrder_facts(1,2) by (simp add: inj_on_nth)
  ultimately show ?thesis
    unfolding unzigzag_def using assms by (intro fold_update_at) auto
qed

lemma unzigzag_any:
  assumes "length tmp = 64" "length tmp' = 64"
  shows "unzigzag table tmp = unzigzag table tmp'"
proof (rule nth_equalityI)
  fix k assume "k < length (unzigzag table tmp)"
  then have "k \<in> set zzOrder" using assms zzOrder_facts(3) by simp
  then obtain i where "k = zzOrder ! i" "i < 64" using zzOrder_facts(2) by (metis in_set_conv_nth)
  then show "unzigzag table tmp ! k = unzigzag table tmp' ! k" using assms by (simp add: unzigzag_at)
qed (use assms in simp)

text \<open>The cells of an 8 by 8 block along its antidiagonals, every other one upwards.\<close>

definition antidiagonal :: "nat \<Rightarrow> nat list" where
  "antidiagonal s =
     (let cells = map (\<lambda>r. 8 * r + (s - r)) (filter (\<lambda>r. s - r < 8) [0..<min 8 (s + 1)])
      in if even s then rev cells else cells)"

text \<open>
  zzOrder is the zig-zag scan of an 8 by 8 block: the antidiagonals one after the other, walked
  upwards and downwards in turn. So unzigzag, which stores the coefficients of a quantisation table
  in this order, fills every cell of the block.
\<close>

theorem zzOrder_is_zigzag:
  "zzOrder = concat (map antidiagonal [0..<15]) \<and>
   (\<forall>table tmp. length tmp = 64 \<longrightarrow> map ((!) (unzigzag table tmp)) (concat (map antidiagonal [0..<15]))
      = map (\<lambda>i. ucast (table ! i)) [0..<64])"
proof -
  have z: "zzOrder = concat (map antidiagonal [0..<15])" by code_simp
  have "map ((!) (unzigzag table tmp)) zzOrder = map (\<lambda>i. ucast (table ! i)) [0..<64]"
    if "length tmp = 64" for table tmp
    using that by (intro nth_equalityI) (simp_all add: zzOrder_facts(2) unzigzag_at)
  then show ?thesis unfolding z [symmetric] by simp
qed

lemma zzOrder_is_zigzag_witness:
  "length (replicate 64 (0 :: u8)) = 64 \<and> map ((!) (unzigzag (replicate 64 7) (replicate 64 0))) (concat (map antidiagonal [0..<15]))
     = map (\<lambda>i. ucast (replicate 64 (7 :: u32) ! i)) [0..<64]"
  using zzOrder_is_zigzag [THEN conjunct2, rule_format, of "replicate 64 0" "replicate 64 7"] by simp

section \<open>The layout of the tables\<close>

lemma quant_byte_put: "quant_byte b t = put_byte (ucast b) t"
proof -
  have "tw_shifter t - 8 = 24 \<longleftrightarrow> tw_shifter t = 32" by (auto simp: diff_eq_eq)
  then show ?thesis by (cases t) (simp add: quant_byte_def put_byte_def Let_def)
qed

definition quant_bytes :: "u32 list \<Rightarrow> u8 list" where
  "quant_bytes table = unzigzag table (replicate 64 0)"

lemma quant_bytes_length [simp]: "length (quant_bytes table) = 64"
  by (simp add: quant_bytes_def)

lemma put_byte_keeps_tmp: "put_byte b t = Continue t' \<Longrightarrow> tw_tmp t' = tw_tmp t"
  by (auto simp: put_byte_def put_full_def put_word_def Let_def split: if_splits)

interpretation quant: byte_sink quant_byte "\<lambda>bs t. tw_ok base bs t \<and> tw_tmp t = tmp" "4 * length base" for base tmp
  by unfold_locales (use put_byte_ok put_byte_keeps_tmp in \<open>force simp: quant_byte_put\<close>)

lemma quant_loop:
  assumes "tw_ok base bs t" "length (tw_tmp t) = 64" "length bs + 64 \<le> 4 * length base"
  shows "\<exists>t'. forEach [0..<64] (\<lambda>i t. quant_byte (tw_tmp t ! i) t) t = Continue t' \<and>
    tw_ok base (bs @ tw_tmp t) t' \<and> tw_tmp t' = tw_tmp t"
proof -
  have "map ((!) (tw_tmp t)) [0..<64] = tw_tmp t" using map_nth [of "tw_tmp t"] assms(2) by simp
  then show ?thesis
    using quant.loop_holds [where xs = "[0..<64]" and tmp = "tw_tmp t" and body = "\<lambda>i t. quant_byte (tw_tmp t ! i) t" and f = "(!) (tw_tmp t)",
      of base bs t] assms
    by simp
qed

lemma WriteTables_quant_ok:
  assumes "tw_ok base bs t" "length (tw_tmp t) = 64" "length bs + 64 \<le> 4 * length base" "4 dvd length bs"
    "j < length (fr_component (c_frame c))"
  shows "\<exists>t'. WriteTables_quant c j t = Continue t' \<and> tw_ok base (bs @ quant_bytes (quant_table_of c j)) t' \<and>
    length (tw_tmp t') = 64"
proof -
  let ?u = "unzigzag (quant_table_of c j) (tw_tmp t)"
  let ?t = "t\<lparr>tw_tmp := ?u\<rparr>"
  have e: "tw_ok base bs ?t" using assms(1) by simp
  have "?u = quant_bytes (quant_table_of c j)"
    using unzigzag_any [of "tw_tmp t" "replicate 64 0"] assms(2) by (simp add: quant_bytes_def)
  moreover have "?t\<lparr>tw_shifter := 32\<rparr> = ?t" by (rule tw_ok_aligned [OF e assms(4)])
  ultimately show ?thesis
    using quant_loop [OF e _ assms(3)] assms(2,5) quant_bytes_length [of "quant_table_of c j"]
    by (auto simp: WriteTables_quant_def Let_def)
qed

lemma tw_ok_whole:
  assumes "tw_ok base bs t" "4 dvd length bs"
  shows "tw_base t = pack bs @ drop (length bs div 4) base"
proof -
  obtain full part where fp: "bs = full @ part" "4 dvd length full" "length part < 4"
    "tw_base t = pack full @ drop (length full div 4) base" using assms(1) unfolding tw_ok_def by blast
  have "length part = 0" using assms(2) fp(2,3) unfolding fp(1) length_append by presburger
  then show ?thesis using fp by simp
qed

lemma quant_tables_ok:
  assumes "n \<le> length (fr_component (c_frame c))" "64 * n \<le> 4 * length base" "length tmp = 64"
  shows "\<exists>t'. forEach [0..<n] (WriteTables_quant c)
      \<lparr>tw_base = base, tw_pos = 0, tw_shifter = 32, tw_word = 0, tw_tmp = tmp\<rparr> = Continue t' \<and>
    tw_ok base (concat (map (\<lambda>j. quant_bytes (quant_table_of c j)) [0..<n])) t' \<and> length (tw_tmp t') = 64"
  using assms
proof (induction n)
  case 0
  then show ?case using tw_ok_start by simp
next
  case (Suc n)
  let ?bs = "concat (map (\<lambda>j. quant_bytes (quant_table_of c j)) [0..<n])"
  have l: "length ?bs = 64 * n" by (induction n) simp_all
  obtain t where t: "forEach [0..<n] (WriteTables_quant c)
      \<lparr>tw_base = base, tw_pos = 0, tw_shifter = 32, tw_word = 0, tw_tmp = tmp\<rparr> = Continue t"
    "tw_ok base ?bs t" "length (tw_tmp t) = 64"
    using Suc by auto
  show ?case
    using WriteTables_quant_ok [OF t(2,3), of n c] Suc.prems(1,2) t(1) l by (auto simp: forEach_append)
qed

definition vlc_all_ok :: "HuffmanTables \<Rightarrow> bool" where
  "vlc_all_ok h \<longleftrightarrow> list_all vlc_ok [vlc_acTable0 h, vlc_acTable1 h, vlc_dcTable0 h, vlc_dcTable1 h]"

text \<open>The tables of a scan in YCbCr mode: those of the luma component, then the other ones.\<close>

definition luma_first :: "u32 \<Rightarrow> 'a \<Rightarrow> 'a \<Rightarrow> 'a \<times> 'a" where
  "luma_first sel t0 t1 = (if sel = 0 then (t0, t1) else (t1, t0))"

definition ac_pair :: "JpegDecContainer \<Rightarrow> VlcTable \<times> VlcTable" where
  "ac_pair c = luma_first (sc_Ta (c_scan c) ! 0) (vlc_acTable0 (c_vlc c)) (vlc_acTable1 (c_vlc c))"

definition dc_pair :: "JpegDecContainer \<Rightarrow> VlcTable \<times> VlcTable" where
  "dc_pair c = luma_first (sc_Td (c_scan c) ! 0) (vlc_dcTable0 (c_vlc c)) (vlc_dcTable1 (c_vlc c))"

definition table_bytes :: "JpegDecContainer \<Rightarrow> u8 list" where
  "table_bytes c =
     concat (map (\<lambda>j. quant_bytes (quant_table_of c j)) [0..<unat (inf_amountOfQTables (c_info c))]) @
     vlc_bytes 162 (fst (ac_pair c)) @ vlc_bytes 162 (snd (ac_pair c)) @
     vlc_bytes 12 (fst (dc_pair c)) @ vlc_bytes 12 (snd (dc_pair c)) @ replicate 4 0"

lemma WriteTables_ac_ok:
  assumes "tw_ok base bs t" "length bs + 324 \<le> 4 * length base" "4 dvd length bs" "vlc_all_ok (c_vlc c)"
    "vt_vals (fst (ac_pair c)) = None \<or> vt_vals (snd (ac_pair c)) \<noteq> None"
  shows "\<exists>t'. WriteTables_ac c t = Continue t' \<and>
    tw_ok base (bs @ vlc_bytes 162 (fst (ac_pair c)) @ vlc_bytes 162 (snd (ac_pair c))) t'"
proof -
  obtain a b where ab: "ac_pair c = (a, b)" by fastforce
  then have w: "WriteTables_ac c t = andThen (put_vals 162 a t) (put_vals 162 b)"
    by (auto simp: WriteTables_ac_def ac_pair_def luma_first_def split: if_splits)
  have v: "vlc_ok a" "vlc_ok b"
    using assms(4) ab by (auto simp: vlc_all_ok_def ac_pair_def luma_first_def split: if_splits)
  obtain t1 where t1: "put_vals 162 a t = Continue t1" "tw_ok base (bs @ vlc_bytes 162 a) t1"
    using put_vals_ok [OF assms(1) _ v(1), of 162] assms(2,3) by auto
  show ?thesis
  proof (cases "vt_vals b = None")
    case False
    then obtain t2 where "put_vals 162 b t1 = Continue t2" "tw_ok base ((bs @ vlc_bytes 162 a) @ vlc_bytes 162 b) t2"
      using put_vals_ok [OF t1(2) _ v(2), of 162] assms(2) by auto
    then show ?thesis using w t1 ab by simp
  next
    case True
    then have na: "vt_vals a = None" using assms(5) ab by auto
    then have "vlc_bytes 162 a = replicate 162 0" by (simp add: vlc_bytes_def)
    then obtain t2 where "put_vals 162 b t1 = Continue t2" "tw_ok base (bs @ replicate 162 0 @ vlc_bytes 162 b) t2"
      using put_vals_none [of base bs 162 t1 162 b] t1(2) assms(2,3) True by auto
    then show ?thesis using w t1 ab \<open>vlc_bytes 162 a = replicate 162 0\<close> by simp
  qed
qed

lemma WriteTables_dc_ok:
  assumes "tw_ok base bs t" "length bs + 24 \<le> 4 * length base" "4 dvd length bs" "vlc_all_ok (c_vlc c)"
  shows "\<exists>t'. WriteTables_dc c t = Continue t' \<and>
    tw_ok base (bs @ vlc_bytes 12 (fst (dc_pair c)) @ vlc_bytes 12 (snd (dc_pair c))) t'"
proof -
  obtain a b where ab: "dc_pair c = (a, b)" by fastforce
  then have w: "WriteTables_dc c t = andThen (put_vals 12 a t) (put_vals 12 b)"
    by (auto simp: WriteTables_dc_def dc_pair_def luma_first_def split: if_splits)
  have v: "vlc_ok a" "vlc_ok b"
    using assms(4) ab by (auto simp: vlc_all_ok_def dc_pair_def luma_first_def split: if_splits)
  obtain t1 where t1: "put_vals 12 a t = Continue t1" "tw_ok base (bs @ vlc_bytes 12 a) t1"
    using put_vals_ok [OF assms(1) _ v(1), of 12] assms(2,3) by auto
  have "4 dvd length (bs @ vlc_bytes 12 a)" using assms(3) by simp
  then obtain t2 where "put_vals 12 b t1 = Continue t2" "tw_ok base ((bs @ vlc_bytes 12 a) @ vlc_bytes 12 b) t2"
    using put_vals_ok [OF t1(2) _ v(2), of 12] assms(2) by auto
  then show ?thesis using w t1 ab by simp
qed

text \<open>The run of the whole function, used by the property and by JpegDecInitHW.\<close>

lemma WriteTables_fills:
  assumes "inf_yCbCrMode (c_info c) \<noteq> JPEGDEC_YUV400"
    "unat (inf_amountOfQTables (c_info c)) \<le> length (fr_component (c_frame c))"
    "64 * unat (inf_amountOfQTables (c_info c)) + 352 \<le> 4 * length base" "vlc_all_ok (c_vlc c)"
    "vt_vals (fst (ac_pair c)) = None \<or> vt_vals (snd (ac_pair c)) \<noteq> None"
  shows "\<exists>t. JpegDecWriteTables c base = Continue t \<and>
    tw_base t = pack (table_bytes c) @ drop (length (table_bytes c) div 4) base"
proof -
  let ?n = "unat (inf_amountOfQTables (c_info c))"
  let ?q = "concat (map (\<lambda>j. quant_bytes (quant_table_of c j)) [0..<?n])"
  let ?a = "vlc_bytes 162 (fst (ac_pair c)) @ vlc_bytes 162 (snd (ac_pair c))"
  let ?d = "vlc_bytes 12 (fst (dc_pair c)) @ vlc_bytes 12 (snd (dc_pair c))"
  have l: "length ?q = 64 * ?n" by (simp add: length_concat comp_def sum_list_triv)
  obtain t where t: "forEach [0..<?n] (WriteTables_quant c)
      \<lparr>tw_base = base, tw_pos = 0, tw_shifter = 32, tw_word = 0, tw_tmp = replicate 64 0\<rparr> = Continue t" "tw_ok base ?q t"
    using quant_tables_ok [OF assms(2), of base "replicate 64 0"] assms(3) by auto
  have s: "t\<lparr>tw_shifter := 32\<rparr> = t" using tw_ok_aligned [OF t(2)] l by simp
  obtain t1 where t1: "WriteTables_ac c t = Continue t1" "tw_ok base (?q @ ?a) t1"
    using WriteTables_ac_ok [OF t(2) _ _ assms(4,5)] l assms(3) by auto
  obtain t2 where t2: "WriteTables_dc c t1 = Continue t2" "tw_ok base ((?q @ ?a) @ ?d) t2"
    using WriteTables_dc_ok [OF t1(2) _ _ assms(4)] l assms(3) by auto
  obtain t3 where t3: "put_zeros 4 t2 = Continue t3" "tw_ok base (((?q @ ?a) @ ?d) @ replicate 4 0) t3"
    using put_zeros_ok [OF t2(2), of 4] l assms(3) by auto
  have "JpegDecWriteTables c base = Continue t3"
    using t(1) s t1(1) t2(1) t3(1) assms(1) by (simp add: JpegDecWriteTables_def WriteTables_vlc_def)
  moreover have "tw_ok base (table_bytes c) t3" using t3(2) by (simp add: table_bytes_def)
  moreover have "4 dvd length (table_bytes c)" using l by (simp add: table_bytes_def)
  ultimately show ?thesis using tw_ok_whole by blast
qed

text \<open>
  C1. For a scan in YCbCr mode JpegDecWriteTables fills the table buffer with the layout the
  hardware reads: the quantisation table of each component with its cells in raster order, the AC
  tables of luma and chroma in 162 bytes each, the DC tables in 12 bytes each, and four bytes of
  padding, packed four bytes to a word with the first byte on top, the rest of the buffer untouched.
  The table selected by the first component comes first. The tables may be absent, but not the second AC table
  alone.
\<close>

theorem WriteTables_layout:
  assumes "inf_yCbCrMode (c_info c) \<noteq> JPEGDEC_YUV400"
    "unat (inf_amountOfQTables (c_info c)) \<le> length (fr_component (c_frame c))"
    "64 * unat (inf_amountOfQTables (c_info c)) + 352 \<le> 4 * length base" "vlc_all_ok (c_vlc c)"
    "vt_vals (fst (ac_pair c)) = None \<or> vt_vals (snd (ac_pair c)) \<noteq> None"
  shows "\<exists>t. JpegDecWriteTables c base = Continue t \<and>
    tw_base t = pack (table_bytes c) @ drop (length (table_bytes c) div 4) base"
  using assms by (rule WriteTables_fills)

definition demo_vlc :: "u32 list \<Rightarrow> VlcTable" where
  "demo_vlc vs = zero_VlcTable\<lparr>vt_vals := Some vs, vt_tableLength := of_nat (length vs)\<rparr>"

definition demo_tables :: JpegDecContainer where
  "demo_tables = zero_JpegDecContainer\<lparr>
     c_info := zero_DecInfo\<lparr>inf_yCbCrMode := JPEGDEC_YUV420, inf_amountOfQTables := 3\<rparr>,
     c_quant := zero_QuantTables\<lparr>qt_table0 := replicate 64 16, qt_table1 := replicate 64 17\<rparr>,
     c_vlc := zero_HuffmanTables\<lparr>vlc_acTable0 := demo_vlc [1, 2, 3], vlc_acTable1 := demo_vlc [4],
       vlc_dcTable0 := demo_vlc [0, 1], vlc_dcTable1 := demo_vlc [5]\<rparr>\<rparr>"

lemma WriteTables_layout_witness:
  "\<exists>t. JpegDecWriteTables demo_tables (replicate 136 0) = Continue t \<and>
    tw_base t = pack (table_bytes demo_tables) @ drop (length (table_bytes demo_tables) div 4) (replicate 136 0)"
  by (rule WriteTables_layout)
    (simp_all add: demo_tables_def demo_vlc_def zero_defs jpeg_consts vlc_all_ok_def vlc_ok_def ac_pair_def luma_first_def)

lemma put_nothing_drops:
  assumes "tw_ok base (xs @ part) t" "length part < 4" "4 dvd length xs" "length xs + length part < 4 * length base"
  shows "\<exists>t'. put_nothing t = Continue t' \<and> tw_ok base (xs @ replicate (Suc (length part)) 0) t'"
proof -
  have z: "be_from n (replicate k 0) = 0" for n k by (induction k arbitrary: n) auto
  obtain full p where fp: "xs @ part = full @ p" "4 dvd length full" "length p < 4" "length full \<le> 4 * length base"
      "tw_base t = pack full @ drop (length full div 4) base" "tw_pos t = length full div 4"
      "tw_shifter t = of_nat (32 - 8 * length p)"
    using assms(1) unfolding tw_ok_def by blast
  have "length xs + length part = length full + length p" using arg_cong [OF fp(1), of length] by simp
  then have "length xs = length full" using assms(2,3) fp(2,3) by presburger
  then have "xs = full" "part = p" using fp(1) by simp_all
  then have "tw_ok base (xs @ replicate (length part) 0) (t\<lparr>tw_word := 0\<rparr>)"
    unfolding tw_ok_def using fp(2-7) assms(2) z
    by (intro exI [of _ full] exI [of _ "replicate (length p) 0"]) simp
  from put_nothing_ok [OF this assms(4,3)] show ?thesis
    by (simp add: put_nothing_def)
qed

lemma put_nothings_drop:
  assumes "tw_ok base (xs @ part) t" "length part < 4" "4 dvd length xs" "length xs + length part + n \<le> 4 * length base" "0 < n"
  shows "\<exists>t'. forEach [0..<n] (\<lambda>i. put_nothing) t = Continue t' \<and> tw_ok base (xs @ replicate (length part + n) 0) t'"
proof -
  obtain t1 where t1: "put_nothing t = Continue t1" "tw_ok base (xs @ replicate (Suc (length part)) 0) t1"
    using put_nothing_drops [OF assms(1-3)] assms(4,5) by auto
  have "[0..<n] = 0 # [1..<n]" using assms(5) by (simp add: upt_conv_Cons)
  then show ?thesis
    using put_nothings_ok [OF t1(2) _ assms(3), of "[1..<n]"] t1(1) assms(4,5) by simp
qed

lemma last_two: "length xs = n + 2 \<Longrightarrow> drop n xs = [xs ! n, xs ! (n + 1)]"
  by (simp add: Cons_nth_drop_Suc [symmetric])

lemma update_two: "(xs @ [a, b] @ ys)[length xs := c, length xs + 1 := d] = xs @ [c, d] @ ys"
  by (simp add: list_update_append)

text \<open>
  When the AC table of the first component is present and the other one absent, the loop for the
  absent table overwrites the word that still holds the last two bytes of the first table: the
  buffer has the layout of WriteTables_layout with these two bytes cleared.
\<close>

theorem WriteTables_clears_pending_bytes:
  assumes "inf_yCbCrMode (c_info c) \<noteq> JPEGDEC_YUV400"
    "unat (inf_amountOfQTables (c_info c)) \<le> length (fr_component (c_frame c))"
    "64 * unat (inf_amountOfQTables (c_info c)) + 352 \<le> 4 * length base" "vlc_all_ok (c_vlc c)"
    "vt_vals (fst (ac_pair c)) \<noteq> None" "vt_vals (snd (ac_pair c)) = None"
  defines "p \<equiv> 64 * unat (inf_amountOfQTables (c_info c)) + 160"
  shows "\<exists>t. JpegDecWriteTables c base = Continue t \<and>
    tw_base t = pack ((table_bytes c)[p := 0, p + 1 := 0]) @ drop (length (table_bytes c) div 4) base"
proof -
  let ?n = "unat (inf_amountOfQTables (c_info c))"
  let ?q = "concat (map (\<lambda>j. quant_bytes (quant_table_of c j)) [0..<?n])"
  let ?a = "vlc_bytes 162 (fst (ac_pair c))"
  let ?x = "?q @ take 160 ?a"
  let ?d = "vlc_bytes 12 (fst (dc_pair c)) @ vlc_bytes 12 (snd (dc_pair c))"
  have l: "length ?q = 64 * ?n" by (simp add: length_concat comp_def sum_list_triv)
  obtain t where t: "forEach [0..<?n] (WriteTables_quant c)
      \<lparr>tw_base = base, tw_pos = 0, tw_shifter = 32, tw_word = 0, tw_tmp = replicate 64 0\<rparr> = Continue t" "tw_ok base ?q t"
    using quant_tables_ok [OF assms(2), of base "replicate 64 0"] assms(3) by auto
  have s: "t\<lparr>tw_shifter := 32\<rparr> = t" using tw_ok_aligned [OF t(2)] l by simp
  obtain a b where ab: "ac_pair c = (a, b)" by fastforce
  have w: "WriteTables_ac c t = andThen (put_vals 162 a t) (put_vals 162 b)"
    using ab by (auto simp: WriteTables_ac_def ac_pair_def luma_first_def split: if_splits)
  have v: "vlc_ok a"
    using assms(4) ab by (auto simp: vlc_all_ok_def ac_pair_def luma_first_def split: if_splits)
  obtain t0 where t0: "put_vals 162 a t = Continue t0" "tw_ok base (?q @ ?a) t0"
    using put_vals_some [OF t(2) _ v, of 162] assms(3,5) l ab by auto
  have "?q @ ?a = ?x @ drop 160 ?a" by simp
  then have "tw_ok base (?x @ drop 160 ?a) t0" using t0(2) by metis
  from put_nothings_drop [OF this, of 162] obtain t1 where t1: "put_vals 162 b t0 = Continue t1"
      "tw_ok base (?x @ replicate 164 0) t1"
    using l assms(3,6) ab by (auto simp: put_vals_def)
  obtain t2 where t2: "WriteTables_dc c t1 = Continue t2" "tw_ok base ((?x @ replicate 164 0) @ ?d) t2"
    using WriteTables_dc_ok [OF t1(2) _ _ assms(4)] l assms(3) by auto
  obtain t3 where t3: "put_zeros 4 t2 = Continue t3" "tw_ok base (((?x @ replicate 164 0) @ ?d) @ replicate 4 0) t3"
    using put_zeros_ok [OF t2(2), of 4] l assms(3) by auto
  have "JpegDecWriteTables c base = Continue t3"
    using t(1) s w t0(1) t1(1) t2(1) t3(1) assms(1) by (simp add: JpegDecWriteTables_def WriteTables_vlc_def)
  moreover have "((?x @ replicate 164 0) @ ?d) @ replicate 4 0 = (table_bytes c)[p := 0, p + 1 := 0]"
  proof -
    have "?a = take 160 ?a @ [?a ! 160, ?a ! 161]"
      using append_take_drop_id [of 160 ?a] last_two [of ?a 160] by simp
    then have "table_bytes c = ?x @ [?a ! 160, ?a ! 161] @ replicate 162 0 @ ?d @ replicate 4 0"
      using assms(6) by (simp add: table_bytes_def vlc_bytes_def [of 162 "snd (ac_pair c)"])
    moreover have "length ?x = p" using l by (simp add: p_def)
    moreover have "replicate 164 (0 :: u8) = [0, 0] @ replicate 162 0"
      using replicate_add [of 2 162 "0 :: u8"] by (simp add: numeral_2_eq_2)
    ultimately show ?thesis using update_two [of ?x "?a ! 160" "?a ! 161"] by simp
  qed
  moreover have "4 dvd length ((table_bytes c)[p := 0, p + 1 := 0])" using l by (simp add: table_bytes_def)
  ultimately show ?thesis using tw_ok_whole [OF t3(2)] by auto
qed

lemma WriteTables_clears_pending_bytes_witness:
  "\<exists>t. JpegDecWriteTables (c_vlc_update (vlc_acTable1_update (\<lambda>_. zero_VlcTable)) demo_tables) (replicate 136 0) = Continue t"
proof -
  let ?c = "c_vlc_update (vlc_acTable1_update (\<lambda>_. zero_VlcTable)) demo_tables"
  have "\<exists>t. JpegDecWriteTables ?c (replicate 136 0) = Continue t \<and>
    tw_base t = pack ((table_bytes ?c)[64 * unat (inf_amountOfQTables (c_info ?c)) + 160 := 0,
      64 * unat (inf_amountOfQTables (c_info ?c)) + 160 + 1 := 0]) @ drop (length (table_bytes ?c) div 4) (replicate 136 0)"
    by (rule WriteTables_clears_pending_bytes)
      (simp_all add: demo_tables_def demo_vlc_def zero_defs jpeg_consts vlc_all_ok_def vlc_ok_def ac_pair_def luma_first_def)
  then show ?thesis by blast
qed

end
