(* ===== verification/HwLengths.thy ===== *)
theory HwLengths
  imports HwTables
begin

text \<open>
  The registers that go with the tables (jpegdecinternal.c): which table the chroma components use
  (JpegDecChromaTableSelectors), and how many codes of each length the tables have
  (JpegDecWriteLenBits, JpegDecWriteLenBitsNonInterleaved, JpegDecWriteLenBitsProgressive).
\<close>

section \<open>The fields of the code length counts\<close>

definition AC1_CODES :: "nat list" where
  "AC1_CODES =
    [HWIF_AC1_CODE1_CNT, HWIF_AC1_CODE2_CNT, HWIF_AC1_CODE3_CNT, HWIF_AC1_CODE4_CNT,
     HWIF_AC1_CODE5_CNT, HWIF_AC1_CODE6_CNT, HWIF_AC1_CODE7_CNT, HWIF_AC1_CODE8_CNT,
     HWIF_AC1_CODE9_CNT, HWIF_AC1_CODE10_CNT, HWIF_AC1_CODE11_CNT, HWIF_AC1_CODE12_CNT,
     HWIF_AC1_CODE13_CNT, HWIF_AC1_CODE14_CNT, HWIF_AC1_CODE15_CNT, HWIF_AC1_CODE16_CNT]"

definition AC2_CODES :: "nat list" where
  "AC2_CODES =
    [HWIF_AC2_CODE1_CNT, HWIF_AC2_CODE2_CNT, HWIF_AC2_CODE3_CNT, HWIF_AC2_CODE4_CNT,
     HWIF_AC2_CODE5_CNT, HWIF_AC2_CODE6_CNT, HWIF_AC2_CODE7_CNT, HWIF_AC2_CODE8_CNT,
     HWIF_AC2_CODE9_CNT, HWIF_AC2_CODE10_CNT, HWIF_AC2_CODE11_CNT, HWIF_AC2_CODE12_CNT,
     HWIF_AC2_CODE13_CNT, HWIF_AC2_CODE14_CNT, HWIF_AC2_CODE15_CNT, HWIF_AC2_CODE16_CNT]"

definition DC1_CODES :: "nat list" where
  "DC1_CODES =
    [HWIF_DC1_CODE1_CNT, HWIF_DC1_CODE2_CNT, HWIF_DC1_CODE3_CNT, HWIF_DC1_CODE4_CNT,
     HWIF_DC1_CODE5_CNT, HWIF_DC1_CODE6_CNT, HWIF_DC1_CODE7_CNT, HWIF_DC1_CODE8_CNT,
     HWIF_DC1_CODE9_CNT, HWIF_DC1_CODE10_CNT, HWIF_DC1_CODE11_CNT, HWIF_DC1_CODE12_CNT,
     HWIF_DC1_CODE13_CNT, HWIF_DC1_CODE14_CNT, HWIF_DC1_CODE15_CNT, HWIF_DC1_CODE16_CNT]"

definition DC2_CODES :: "nat list" where
  "DC2_CODES =
    [HWIF_DC2_CODE1_CNT, HWIF_DC2_CODE2_CNT, HWIF_DC2_CODE3_CNT, HWIF_DC2_CODE4_CNT,
     HWIF_DC2_CODE5_CNT, HWIF_DC2_CODE6_CNT, HWIF_DC2_CODE7_CNT, HWIF_DC2_CODE8_CNT,
     HWIF_DC2_CODE9_CNT, HWIF_DC2_CODE10_CNT, HWIF_DC2_CODE11_CNT, HWIF_DC2_CODE12_CNT,
     HWIF_DC2_CODE13_CNT, HWIF_DC2_CODE14_CNT, HWIF_DC2_CODE15_CNT, HWIF_DC2_CODE16_CNT]"

definition DC3_CODES :: "nat list" where
  "DC3_CODES =
    [HWIF_DC3_CODE1_CNT, HWIF_DC3_CODE2_CNT, HWIF_DC3_CODE3_CNT, HWIF_DC3_CODE4_CNT,
     HWIF_DC3_CODE5_CNT, HWIF_DC3_CODE6_CNT, HWIF_DC3_CODE7_CNT, HWIF_DC3_CODE8_CNT,
     HWIF_DC3_CODE9_CNT, HWIF_DC3_CODE10_CNT, HWIF_DC3_CODE11_CNT, HWIF_DC3_CODE12_CNT,
     HWIF_DC3_CODE13_CNT, HWIF_DC3_CODE14_CNT, HWIF_DC3_CODE15_CNT, HWIF_DC3_CODE16_CNT]"

definition LEN_CODES :: "nat list" where
  "LEN_CODES = AC1_CODES @ AC2_CODES @ DC1_CODES @ DC2_CODES @ DC3_CODES"

text \<open>A run of calls of rk_SetRegisterFile on the registers of the container.\<close>

definition set_regs :: "(nat \<times> u32) list \<Rightarrow> JpegDecContainer \<Rightarrow> JpegDecContainer" where
  "set_regs ws c = c\<lparr>c_jpegRegs := writes (c_jpegRegs c) ws\<rparr>"

text \<open>The sixteen writes of bits[0] to bits[15], and of zeros.\<close>

definition put_counts :: "nat list \<Rightarrow> VlcTable \<Rightarrow> (nat \<times> u32) list" where
  "put_counts ids t = map (\<lambda>k. (ids ! k, vt_bits t ! k)) [0..<16]"

definition put_no_counts :: "nat list \<Rightarrow> (nat \<times> u32) list" where
  "put_no_counts ids = map (\<lambda>k. (ids ! k, 0)) [0..<16]"

section \<open>JpegDecChromaTableSelectors\<close>

definition ChromaTableSelectors_ac :: "JpegDecContainer \<Rightarrow> JpegDecContainer" where
  "ChromaTableSelectors_ac c =
     (let ta = sc_Ta (c_scan c) in
      if ta ! 0 = 0 then
        set_regs [(HWIF_CR_AC_VLCTABLE, ta ! 2), (HWIF_CB_AC_VLCTABLE, ta ! 1)] c
      else
        set_regs [(HWIF_CB_AC_VLCTABLE, if ta ! 0 = ta ! 1 then 0 else 1),
          (HWIF_CR_AC_VLCTABLE, if ta ! 0 = ta ! 2 then 0 else 1)] c)"

definition ChromaTableSelectors_dc :: "JpegDecContainer \<Rightarrow> JpegDecContainer" where
  "ChromaTableSelectors_dc c =
     (let td = sc_Td (c_scan c) in
      if td ! 0 = 0 then
        set_regs [(HWIF_CR_DC_VLCTABLE, td ! 2), (HWIF_CB_DC_VLCTABLE, td ! 1)] c
      else
        set_regs [(HWIF_CB_DC_VLCTABLE, if td ! 0 = td ! 1 then 0 else 1),
          (HWIF_CR_DC_VLCTABLE, if td ! 0 = td ! 2 then 0 else 1)] c)"

definition JpegDecChromaTableSelectors :: "JpegDecContainer \<Rightarrow> JpegDecContainer" where
  "JpegDecChromaTableSelectors c =
     (let c = ChromaTableSelectors_ac c in
      if inf_operationType (c_info c) \<noteq> JPEGDEC_PROGRESSIVE then
        set_regs [(HWIF_CR_DC_VLCTABLE3, 0), (HWIF_CB_DC_VLCTABLE3, 0)] (ChromaTableSelectors_dc c)
      else if inf_nonInterleaved (c_info c) \<noteq> 0 then
        set_regs [(HWIF_CR_DC_VLCTABLE, 0), (HWIF_CB_DC_VLCTABLE, 0),
          (HWIF_CR_DC_VLCTABLE3, 0), (HWIF_CB_DC_VLCTABLE3, 0)] c
      else if sc_Ah (c_scan c) \<noteq> 0 \<and> sc_Ss (c_scan c) = 0 then
        set_regs [(HWIF_CR_DC_VLCTABLE, 0), (HWIF_CR_DC_VLCTABLE3, 0),
          (HWIF_CB_DC_VLCTABLE, 0), (HWIF_CB_DC_VLCTABLE3, 0)] c
      else
        set_regs [(HWIF_CR_DC_VLCTABLE, 0), (HWIF_CR_DC_VLCTABLE3, 1),
          (HWIF_CB_DC_VLCTABLE, 1), (HWIF_CB_DC_VLCTABLE3, 0)] c)"

section \<open>JpegDecWriteLenBits\<close>

definition WriteLenBits_ac :: "JpegDecContainer \<Rightarrow> JpegDecContainer" where
  "WriteLenBits_ac c =
     (let (pTable1, pTable2) =
        (if sc_Ta (c_scan c) ! 0 = 0 then (vlc_acTable0 (c_vlc c), vlc_acTable1 (c_vlc c))
         else (vlc_acTable1 (c_vlc c), vlc_acTable0 (c_vlc c)))
      in set_regs (put_counts AC1_CODES pTable1 @ put_counts AC2_CODES pTable2) c)"

definition WriteLenBits_dc :: "JpegDecContainer \<Rightarrow> JpegDecContainer" where
  "WriteLenBits_dc c =
     (let (pTable1, pTable2) =
        (if sc_Td (c_scan c) ! 0 = 0 then (vlc_dcTable0 (c_vlc c), vlc_dcTable1 (c_vlc c))
         else (vlc_dcTable1 (c_vlc c), vlc_dcTable0 (c_vlc c)))
      in set_regs (put_counts DC1_CODES pTable1 @ put_counts DC2_CODES pTable2) c)"

definition JpegDecWriteLenBits :: "JpegDecContainer \<Rightarrow> JpegDecContainer" where
  "JpegDecWriteLenBits c = WriteLenBits_dc (WriteLenBits_ac c)"

section \<open>JpegDecWriteLenBitsNonInterleaved\<close>

text \<open>The tables of the current component alone; componentId indexes scan.Ta and scan.Td.\<close>

definition LenBitsNonInterleaved_ac :: "JpegDecContainer \<Rightarrow> JpegDecContainer" where
  "LenBitsNonInterleaved_ac c =
     (let pTable1 = (if sc_Ta (c_scan c) ! unat (inf_componentId (c_info c)) = 0
                     then vlc_acTable0 (c_vlc c) else vlc_acTable1 (c_vlc c))
      in set_regs (put_counts AC1_CODES pTable1) c)"

definition LenBitsNonInterleaved_dc :: "JpegDecContainer \<Rightarrow> JpegDecContainer" where
  "LenBitsNonInterleaved_dc c =
     (let pTable1 = (if sc_Td (c_scan c) ! unat (inf_componentId (c_info c)) = 0
                     then vlc_dcTable0 (c_vlc c) else vlc_dcTable1 (c_vlc c))
      in set_regs (put_counts DC1_CODES pTable1) c)"

definition JpegDecWriteLenBitsNonInterleaved :: "JpegDecContainer \<Rightarrow> JpegDecContainer step" where
  "JpegDecWriteLenBitsNonInterleaved c =
     (if \<not> inf_componentId (c_info c) < MAX_NUMBER_OF_COMPONENTS then Undefined
      else Continue (LenBitsNonInterleaved_dc (LenBitsNonInterleaved_ac c)))"

section \<open>JpegDecWriteLenBitsProgressive\<close>

definition vlc_dc_of :: "u32 \<Rightarrow> HuffmanTables \<Rightarrow> VlcTable" where
  "vlc_dc_of sel h =
     (if sel = 0 then vlc_dcTable0 h else if sel = 1 then vlc_dcTable1 h
      else if sel = 2 then vlc_dcTable2 h else vlc_dcTable3 h)"

definition vlc_ac_of :: "u32 \<Rightarrow> HuffmanTables \<Rightarrow> VlcTable" where
  "vlc_ac_of sel h =
     (if sel = 0 then vlc_acTable0 h else if sel = 1 then vlc_acTable1 h
      else if sel = 2 then vlc_acTable2 h else vlc_acTable3 h)"

definition JPEGDEC_VLC_LEN_START_REG :: nat where "JPEGDEC_VLC_LEN_START_REG = 134"
definition JPEGDEC_VLC_LEN_END_REG :: nat where "JPEGDEC_VLC_LEN_END_REG = 147"

definition LenBitsProgressive_reset :: "JpegDecContainer \<Rightarrow> JpegDecContainer" where
  "LenBitsProgressive_reset c =
     c\<lparr>c_jpegRegs := fold (\<lambda>i r. r[i := 0]) [JPEGDEC_VLC_LEN_START_REG..<JPEGDEC_VLC_LEN_END_REG] (c_jpegRegs c)\<rparr>"

text \<open>The selector of the component that the scan carries: componentId 0, 1, or anything else.\<close>

definition component_of :: "u32 \<Rightarrow> nat" where
  "component_of cid = (if cid = 0 then 0 else if cid = 1 then 1 else 2)"

definition LenBitsProgressive_dc :: "JpegDecContainer \<Rightarrow> JpegDecContainer" where
  "LenBitsProgressive_dc c =
     (let pTable1 = vlc_dc_of (sc_Td (c_scan c) ! component_of (inf_componentId (c_info c))) (c_vlc c)
      in if sc_Ah (c_scan c) = 0 then set_regs (put_counts DC1_CODES pTable1) c
         else set_regs (put_no_counts DC1_CODES) c)"

definition LenBitsProgressive_ac :: "JpegDecContainer \<Rightarrow> JpegDecContainer" where
  "LenBitsProgressive_ac c =
     (let pTable1 = vlc_ac_of (sc_Ta (c_scan c) ! component_of (inf_componentId (c_info c))) (c_vlc c)
      in set_regs (put_counts AC1_CODES pTable1) c)"

definition LenBitsProgressive_interleaved :: "JpegDecContainer \<Rightarrow> JpegDecContainer" where
  "LenBitsProgressive_interleaved c =
     (let td = sc_Td (c_scan c);
          pTable1 = vlc_dc_of (td ! 0) (c_vlc c);
          pTable2 = vlc_dc_of (td ! 1) (c_vlc c);
          pTable3 = vlc_dc_of (td ! 2) (c_vlc c)
      in if sc_Ah (c_scan c) = 0 then
           set_regs (put_counts DC1_CODES pTable1 @ put_counts DC2_CODES pTable2 @ put_counts DC3_CODES pTable3) c
         else
           set_regs (put_no_counts DC1_CODES @ put_no_counts DC2_CODES @ put_no_counts DC3_CODES) c)"

definition JpegDecWriteLenBitsProgressive :: "JpegDecContainer \<Rightarrow> JpegDecContainer" where
  "JpegDecWriteLenBitsProgressive c =
     (let c = LenBitsProgressive_reset c in
      if inf_nonInterleaved (c_info c) \<noteq> 0 then
        (if sc_Ss (c_scan c) = 0 then LenBitsProgressive_dc c else LenBitsProgressive_ac c)
      else LenBitsProgressive_interleaved c)"

section \<open>The fields are disjoint and wide enough\<close>

definition rows_apart :: "reg_spec \<Rightarrow> reg_spec \<Rightarrow> bool" where
  "rows_apart = (\<lambda>(s, w, p) (s', w', p'). s \<noteq> s' \<or> p + w \<le> p' \<or> p' + w' \<le> p)"

lemma reg_apart_rows: "reg_apart i j = rows_apart (hwDecRegSpec ! i) (hwDecRegSpec ! j)"
  by (simp add: reg_apart_def rows_apart_def swreg_def fwidth_def lowbit_def split_def)

lemmas CODES_defs = AC1_CODES_def AC2_CODES_def DC1_CODES_def DC2_CODES_def DC3_CODES_def

lemma LEN_rows: "map ((!) hwDecRegSpec) LEN_CODES =
    [(134, 2, 0), (134, 3, 3), (134, 4, 7), (134, 5, 11), (134, 6, 16), (134, 7, 24), (135,
     8, 0), (135, 8, 8), (135, 8, 16), (135, 8, 24), (136, 8, 0), (136, 8, 8), (136, 8, 16),
     (136, 8, 24), (137, 8, 0), (137, 8, 8), (137, 2, 16), (137, 3, 19), (137, 4, 23), (137,
     5, 27), (138, 6, 0), (138, 7, 8), (138, 8, 16), (138, 8, 24), (139, 8, 0), (139, 8, 8),
     (139, 8, 16), (139, 8, 24), (140, 8, 0), (140, 8, 8), (140, 8, 16), (140, 8, 24), (141,
     2, 0), (141, 3, 4), (141, 4, 8), (141, 4, 12), (141, 4, 16), (141, 4, 20), (141, 4,
     24), (141, 4, 28), (142, 4, 0), (142, 4, 4), (142, 4, 8), (142, 4, 12), (142, 4, 16),
     (142, 4, 20), (142, 4, 24), (142, 4, 28), (143, 2, 0), (143, 3, 4), (143, 4, 8), (143,
     4, 12), (143, 4, 16), (143, 4, 20), (143, 4, 24), (143, 4, 28), (144, 4, 0), (144, 4,
     4), (144, 4, 8), (144, 4, 12), (144, 4, 16), (144, 4, 20), (144, 4, 24), (144, 4, 28),
     (145, 2, 0), (145, 3, 4), (145, 4, 8), (145, 4, 12), (145, 4, 16), (145, 4, 20), (145,
     4, 24), (145, 4, 28), (146, 4, 0), (146, 4, 4), (146, 4, 8), (146, 4, 12), (146, 4,
     16), (146, 4, 20), (146, 4, 24), (146, 4, 28)]"
  by (simp add: LEN_CODES_def CODES_defs HWIF_defs reg_rows)

lemma LEN_apart: "sorted_wrt (\<lambda>i j. reg_apart j i) LEN_CODES"
proof -
  have "sorted_wrt (\<lambda>a b. rows_apart b a) (map ((!) hwDecRegSpec) LEN_CODES)"
    unfolding LEN_rows by code_simp
  then show ?thesis by (simp add: sorted_wrt_map reg_apart_rows)
qed

lemma LEN_valid: "list_all reg_valid LEN_CODES"
  by (simp add: LEN_CODES_def CODES_defs HWIF_defs reg_valid_def hwDecRegSpec_length)

lemma CODES_length [simp]: "length AC1_CODES = 16" "length AC2_CODES = 16" "length DC1_CODES = 16"
    "length DC2_CODES = 16" "length DC3_CODES = 16"
  by (simp_all add: CODES_defs)

lemma LEN_widths:
  "map fwidth AC1_CODES = map (\<lambda>k. min 8 (k + 2)) [0..<16]"
  "map fwidth AC2_CODES = map (\<lambda>k. min 8 (k + 2)) [0..<16]"
  "map fwidth DC1_CODES = map (\<lambda>k. min 4 (k + 2)) [0..<16]"
  "map fwidth DC2_CODES = map (\<lambda>k. min 4 (k + 2)) [0..<16]"
  "map fwidth DC3_CODES = map (\<lambda>k. min 4 (k + 2)) [0..<16]"
  by (simp_all add: CODES_defs HWIF_defs reg_rows fwidth_def upt_rec)

text \<open>
  The code length counts of a prefix code with fewer than 2^n codes, the counts that a field of
  min n (k + 2) bits can hold.
\<close>

definition counts_fit :: "nat \<Rightarrow> VlcTable \<Rightarrow> bool" where
  "counts_fit n t \<longleftrightarrow> length (vt_bits t) = 16 \<and>
     sum_list (map (\<lambda>k. unat (vt_bits t ! k) * 2 ^ (15 - k)) [0..<16]) \<le> 2 ^ 16 \<and>
     sum_list (map unat (vt_bits t)) < 2 ^ n"

lemma counts_fit_mask:
  assumes "counts_fit n t" "k < 16"
  shows "vt_bits t ! k AND mask (min n (k + 2)) = vt_bits t ! k"
proof (rule and_mask_small)
  let ?b = "unat (vt_bits t ! k)"
  have "?b \<le> sum_list (map unat (vt_bits t))"
    using assms by (intro member_le_sum_list) (auto simp: counts_fit_def)
  then have n: "?b < 2 ^ n" using assms(1) by (simp add: counts_fit_def)
  have "?b * 2 ^ (15 - k) \<le> sum_list (map (\<lambda>k. unat (vt_bits t ! k) * 2 ^ (15 - k)) [0..<16])"
    using assms(2) by (intro member_le_sum_list) auto
  also have "\<dots> \<le> 2 ^ 16" using assms(1) by (simp add: counts_fit_def)
  also have "(2 :: nat) ^ 16 = 2 ^ (k + 1) * 2 ^ (15 - k)"
    using assms(2) by (simp flip: power_add)
  finally have "?b \<le> 2 ^ (k + 1)" by simp
  also have "\<dots> < 2 ^ (k + 2)" by simp
  finally show "?b < 2 ^ min n (k + 2)" using n by (simp add: min_def)
qed

section \<open>What the fields hold\<close>

text \<open>After writes to disjoint fields of the counts, each table reads back.\<close>

lemma put_counts_fst [simp]: "length ids = 16 \<Longrightarrow> map fst (put_counts ids t) = ids"
  using map_nth [of ids] by (simp add: put_counts_def comp_def)

lemma put_no_counts_fst [simp]: "length ids = 16 \<Longrightarrow> map fst (put_no_counts ids) = ids"
  using map_nth [of ids] by (simp add: put_no_counts_def comp_def)

lemma read_counts:
  assumes "regs_ok r" "list_all reg_valid (map fst ws)" "sorted_wrt (\<lambda>i j. reg_apart j i) (map fst ws)"
    "set (put_counts ids t) \<subseteq> set ws" "length ids = 16" "counts_fit n t"
    "map fwidth ids = map (\<lambda>k. min n (k + 2)) [0..<16]"
  shows "map (GetRegisterFile (writes r ws)) ids = vt_bits t"
proof (rule nth_equalityI)
  fix k assume "k < length (map (GetRegisterFile (writes r ws)) ids)"
  then have k: "k < 16" using assms(5) by simp
  then have "(ids ! k, vt_bits t ! k) \<in> set ws" using assms(4) by (auto simp: put_counts_def)
  then have "GetRegisterFile (writes r ws) (ids ! k) = reg_cut (ids ! k) (vt_bits t ! k)"
    unfolding writes_run by (rule hw.rd_run_in [OF assms(1-3)])
  moreover have "fwidth (ids ! k) = min n (k + 2)"
    using arg_cong [OF assms(7), of "\<lambda>xs. xs ! k"] k assms(5) by simp
  ultimately show "map (GetRegisterFile (writes r ws)) ids ! k = vt_bits t ! k"
    using counts_fit_mask [OF assms(6) k] k assms(5) by (simp add: reg_cut_def)
qed (use assms(5,6) in \<open>simp add: counts_fit_def\<close>)

text \<open>
  C10. JpegDecWriteLenBits tells the hardware the code length counts of the four tables exactly:
  each field of AC table 1 reads back the count of the AC table of the first component, the fields of
  AC table 2 the counts of the other one, and the same for DC. Nothing is cut off although the
  fields have only 2 to 8 bits, since the counts are those of prefix codes with at most 255 codes for AC
  and 15 for DC.
\<close>

theorem LenBits_reads_back:
  assumes "regs_ok (c_jpegRegs c)"
    "counts_fit 8 (vlc_acTable0 (c_vlc c))" "counts_fit 8 (vlc_acTable1 (c_vlc c))"
    "counts_fit 4 (vlc_dcTable0 (c_vlc c))" "counts_fit 4 (vlc_dcTable1 (c_vlc c))"
  defines "r \<equiv> c_jpegRegs (JpegDecWriteLenBits c)"
  shows "map (GetRegisterFile r) AC1_CODES = vt_bits (fst (ac_pair c)) \<and>
    map (GetRegisterFile r) AC2_CODES = vt_bits (snd (ac_pair c)) \<and>
    map (GetRegisterFile r) DC1_CODES = vt_bits (fst (dc_pair c)) \<and>
    map (GetRegisterFile r) DC2_CODES = vt_bits (snd (dc_pair c))"
proof -
  obtain a1 a2 where a: "ac_pair c = (a1, a2)" by fastforce
  obtain d1 d2 where d: "dc_pair c = (d1, d2)" by fastforce
  have fit: "counts_fit 8 a1" "counts_fit 8 a2" "counts_fit 4 d1" "counts_fit 4 d2"
    using assms(2-5) a d by (auto simp: ac_pair_def dc_pair_def luma_first_def split: if_splits)
  let ?ws = "put_counts AC1_CODES a1 @ put_counts AC2_CODES a2 @ put_counts DC1_CODES d1 @ put_counts DC2_CODES d2"
  have "WriteLenBits_ac c = set_regs (put_counts AC1_CODES a1 @ put_counts AC2_CODES a2) c"
    "\<And>e. c_scan e = c_scan c \<Longrightarrow> c_vlc e = c_vlc c \<Longrightarrow>
       WriteLenBits_dc e = set_regs (put_counts DC1_CODES d1 @ put_counts DC2_CODES d2) e"
    using a d by (auto simp: WriteLenBits_ac_def WriteLenBits_dc_def ac_pair_def dc_pair_def luma_first_def split: if_splits)
  then have r: "r = writes (c_jpegRegs c) ?ws"
    by (simp add: r_def JpegDecWriteLenBits_def set_regs_def writes_append [symmetric])
  have ids: "map fst ?ws = AC1_CODES @ AC2_CODES @ DC1_CODES @ DC2_CODES" by simp
  have v: "list_all reg_valid (map fst ?ws)"
    unfolding ids using LEN_valid by (simp add: LEN_CODES_def)
  have s: "sorted_wrt (\<lambda>i j. reg_apart j i) (map fst ?ws)"
  proof -
    have "LEN_CODES = (AC1_CODES @ AC2_CODES @ DC1_CODES @ DC2_CODES) @ DC3_CODES" by (simp add: LEN_CODES_def)
    then have "sorted_wrt (\<lambda>i j. reg_apart j i) ((AC1_CODES @ AC2_CODES @ DC1_CODES @ DC2_CODES) @ DC3_CODES)"
      using LEN_apart by metis
    then show ?thesis unfolding ids using sorted_wrt_append by blast
  qed
  note rc = read_counts [OF assms(1) v s]
  show ?thesis
    unfolding r a d fst_conv snd_conv
    by (intro conjI rc [OF _ _ fit(1) LEN_widths(1)] rc [OF _ _ fit(2) LEN_widths(2)]
      rc [OF _ _ fit(3) LEN_widths(3)] rc [OF _ _ fit(4) LEN_widths(4)]) auto
qed

definition demo_lengths :: JpegDecContainer where
  "demo_lengths = zero_JpegDecContainer\<lparr>c_vlc := zero_HuffmanTables\<lparr>
     vlc_acTable0 := zero_VlcTable\<lparr>vt_bits := [0, 2, 1, 3, 3, 2, 4, 3, 5, 5, 4, 4, 0, 0, 1, 125]\<rparr>,
     vlc_dcTable0 := zero_VlcTable\<lparr>vt_bits := [0, 1, 5, 1, 1, 1, 1, 1, 1, 0, 0, 0, 0, 0, 0, 0]\<rparr>\<rparr>\<rparr>"

lemma LenBits_reads_back_witness:
  "map (GetRegisterFile (c_jpegRegs (JpegDecWriteLenBits demo_lengths))) AC1_CODES =
     [0, 2, 1, 3, 3, 2, 4, 3, 5, 5, 4, 4, 0, 0, 1, 125]"
proof -
  have "regs_ok (c_jpegRegs demo_lengths)" by (simp add: demo_lengths_def zero_defs regs_ok_def)
  moreover have "counts_fit 8 (vlc_acTable0 (c_vlc demo_lengths))" "counts_fit 8 (vlc_acTable1 (c_vlc demo_lengths))"
    "counts_fit 4 (vlc_dcTable0 (c_vlc demo_lengths))" "counts_fit 4 (vlc_dcTable1 (c_vlc demo_lengths))"
    by (simp_all add: demo_lengths_def zero_defs counts_fit_def upt_rec nth_Cons' sum_list_replicate)
  ultimately have "map (GetRegisterFile (c_jpegRegs (JpegDecWriteLenBits demo_lengths))) AC1_CODES =
      vt_bits (fst (ac_pair demo_lengths))"
    using LenBits_reads_back [of demo_lengths] by blast
  then show ?thesis by (simp add: demo_lengths_def zero_defs ac_pair_def luma_first_def)
qed

section \<open>Progressive scans\<close>

lemma LEN_distinct: "distinct LEN_CODES"
  by (simp add: LEN_CODES_def CODES_defs HWIF_defs)

lemma LEN_apart_ne: "i \<in> set LEN_CODES \<Longrightarrow> j \<in> set LEN_CODES \<Longrightarrow> i \<noteq> j \<Longrightarrow> reg_apart i j"
proof -
  assume "i \<in> set LEN_CODES" "j \<in> set LEN_CODES" and ne: "i \<noteq> j"
  then obtain m n where m: "m < length LEN_CODES" "i = LEN_CODES ! m" and n: "n < length LEN_CODES" "j = LEN_CODES ! n"
    by (metis in_set_conv_nth)
  have "reg_apart i j \<or> reg_apart j i"
    using LEN_apart m n ne by (cases m n rule: linorder_cases) (auto simp: sorted_wrt_iff_nth_less)
  then show ?thesis by (auto simp: reg_apart_def)
qed

lemma LEN_final:
  assumes "regs_ok r" "j \<in> set LEN_CODES" "fst ` set ws \<subseteq> set LEN_CODES"
  shows "GetRegisterFile (writes r ws) j = hw.final j (GetRegisterFile r j) ws"
  unfolding writes_run
proof (rule hw.rd_run [OF assms(1)])
  show "reg_valid j" using LEN_valid assms(2) by (simp add: list_all_iff)
  show "hw.clean j ws"
    using LEN_valid LEN_apart_ne [OF _ assms(2)] assms(3)
    by (force simp: hw.clean_def list_all_iff)
qed

lemma final_append: "hw.final j x (ws @ vs) = hw.final j (hw.final j x ws) vs"
  by (simp add: hw.final_def)

lemma final_other: "j \<notin> fst ` set ws \<Longrightarrow> hw.final j x ws = x"
  by (induction ws arbitrary: x) auto

lemma final_in: "distinct (map fst ws) \<Longrightarrow> (j, v) \<in> set ws \<Longrightarrow> hw.final j x ws = reg_cut j v"
proof (induction ws arbitrary: x)
  case (Cons w ws)
  obtain i u where w: "w = (i, u)" by (cases w)
  show ?case
  proof (cases "(j, v) \<in> set ws")
    case True
    then have "j \<in> fst ` set ws" by force
    then have "i \<noteq> j" using Cons.prems(1) by (auto simp: w)
    then show ?thesis using Cons True by (simp add: w)
  next
    case False
    then have "i = j" "u = v" using Cons.prems(2) by (simp_all add: w)
    moreover have "j \<notin> fst ` set ws" using Cons.prems(1) calculation by (simp add: w)
    ultimately show ?thesis by (simp add: w final_other)
  qed
qed simp

lemma final_block:
  assumes "k < 16" "length A = 16" "length B = 16" "distinct A" "A = B \<or> set A \<inter> set B = {}"
  shows "hw.final (B ! k) x (put_counts A t) = (if A = B then reg_cut (B ! k) (vt_bits t ! k) else x)"
proof (cases "A = B")
  case True
  have "(B ! k, vt_bits t ! k) \<in> set (put_counts A t)" using assms(1) True by (auto simp: put_counts_def)
  moreover have "distinct (map fst (put_counts A t))" using assms(2,4) by simp
  ultimately show ?thesis using True final_in by simp
next
  case False
  have "B ! k \<in> set B" using assms(1,3) by simp
  then have "B ! k \<notin> set A" using assms(5) False by auto
  moreover have "fst ` set (put_counts A t) = set A" using assms(2) put_counts_fst [of A t] by (metis list.set_map)
  ultimately show ?thesis using False by (simp add: final_other)
qed

definition BLOCKS :: "nat list list" where
  "BLOCKS = [AC1_CODES, AC2_CODES, DC1_CODES, DC2_CODES, DC3_CODES]"

lemma BLOCKS_apart: "A \<in> set BLOCKS \<Longrightarrow> B \<in> set BLOCKS \<Longrightarrow> A = B \<or> set A \<inter> set B = {}"
  using LEN_distinct unfolding LEN_CODES_def distinct_append by (simp add: BLOCKS_def Int_Un_distrib Int_commute) blast

lemma BLOCKS_each: "A \<in> set BLOCKS \<Longrightarrow> length A = 16 \<and> distinct A \<and> set A \<subseteq> set LEN_CODES"
  using LEN_distinct by (auto simp: BLOCKS_def LEN_CODES_def)

text \<open>What a run of blocks of counts leaves in the fields of a block.\<close>

fun block_value :: "nat list \<Rightarrow> u32 list \<Rightarrow> (nat list \<times> VlcTable) list \<Rightarrow> u32 list" where
  "block_value B x [] = x"
| "block_value B x ((A, t) # bs) = block_value B (if A = B then vt_bits t else x) bs"

definition put_blocks :: "(nat list \<times> VlcTable) list \<Rightarrow> (nat \<times> u32) list" where
  "put_blocks bs = concat (map (\<lambda>(A, t). put_counts A t) bs)"

definition block_width :: "nat list \<Rightarrow> nat" where
  "block_width B = (if B = AC1_CODES \<or> B = AC2_CODES then 8 else 4)"

lemma read_blocks:
  assumes "regs_ok r" "B \<in> set BLOCKS" "list_all (\<lambda>(A, t). A \<in> set BLOCKS \<and> counts_fit (block_width A) t) bs"
    "map (GetRegisterFile r) B = x"
  shows "map (GetRegisterFile (writes r (put_blocks bs))) B = block_value B x bs"
proof -
  have B: "length B = 16" "set B \<subseteq> set LEN_CODES" using BLOCKS_each [OF assms(2)] by auto
  have w: "fwidth (B ! k) = min (block_width B) (k + 2)" if "k < 16" for k
  proof -
    have "AC1_CODES \<noteq> DC1_CODES" "AC1_CODES \<noteq> DC2_CODES" "AC1_CODES \<noteq> DC3_CODES"
      "AC2_CODES \<noteq> DC1_CODES" "AC2_CODES \<noteq> DC2_CODES" "AC2_CODES \<noteq> DC3_CODES"
      by (simp_all add: CODES_defs HWIF_defs)
    then have "map fwidth B = map (\<lambda>k. min (block_width B) (k + 2)) [0..<16]"
      using assms(2) LEN_widths by (auto simp: BLOCKS_def block_width_def)
    from arg_cong [OF this, of "\<lambda>xs. xs ! k"] show ?thesis using that B(1) by simp
  qed
  have ids: "fst ` set (put_blocks bs) \<subseteq> set LEN_CODES"
  proof -
    have "fst ` set (put_counts A t) = set A" if "A \<in> set BLOCKS" for A t
      using BLOCKS_each [OF that] put_counts_fst [of A t] by (metis list.set_map)
    then show ?thesis using assms(3) BLOCKS_each by (fastforce simp: put_blocks_def list_all_iff)
  qed
  have f: "hw.final (B ! k) (y ! k) (put_blocks bs) = block_value B y bs ! k" if "k < 16" "length y = 16" for k y
    using assms(3) that
  proof (induction bs arbitrary: y)
    case (Cons b bs)
    obtain A t where b: "b = (A, t)" by (cases b)
    have A: "A \<in> set BLOCKS" "counts_fit (block_width A) t" using Cons.prems(1) by (simp_all add: b)
    have "hw.final (B ! k) (y ! k) (put_counts A t) = (if A = B then vt_bits t else y) ! k"
      using final_block [OF Cons.prems(2) _ B(1) _ BLOCKS_apart [OF A(1) assms(2)], of "y ! k" t]
        BLOCKS_each [OF A(1)] counts_fit_mask [OF A(2) Cons.prems(2)] w [OF Cons.prems(2)]
      by (cases "A = B") (simp_all add: reg_cut_def)
    moreover have "length (if A = B then vt_bits t else y) = 16" using A(2) Cons.prems(3) by (simp add: counts_fit_def)
    ultimately show ?case using Cons.IH [of "if A = B then vt_bits t else y"] Cons.prems(1,2)
      by (simp add: b put_blocks_def final_append)
  qed (simp add: put_blocks_def)
  have lb: "length (block_value B y bs) = 16" if "length y = 16" for y
    using assms(3) that by (induction bs arbitrary: y) (auto simp: counts_fit_def)
  show ?thesis
  proof (rule nth_equalityI)
    fix k assume "k < length (map (GetRegisterFile (writes r (put_blocks bs))) B)"
    then have k: "k < 16" using B(1) by simp
    then have "B ! k \<in> set LEN_CODES" using B by (metis nth_mem subsetD)
    from LEN_final [OF assms(1) this ids] f [OF k, of x] assms(4) B(1) k
    show "map (GetRegisterFile (writes r (put_blocks bs))) B ! k = block_value B x bs ! k" by auto
  qed (use lb [of x] assms(4) B(1) in auto)
qed

lemma reset_regs:
  assumes "regs_ok r" "B \<in> set BLOCKS"
  defines "r' \<equiv> fold (\<lambda>i r. r[i := 0]) [JPEGDEC_VLC_LEN_START_REG..<JPEGDEC_VLC_LEN_END_REG] r"
  shows "regs_ok r'" "map (GetRegisterFile r') B = replicate 16 0"
proof -
  have l: "length (fold (\<lambda>i r. r[i := 0 :: u32]) xs r) = length r" for xs and r :: regs
    by (induction xs arbitrary: r) auto
  show "regs_ok r'" using assms(1) l by (simp add: r'_def regs_ok_def)
  have z: "fold (\<lambda>i r. r[i := 0 :: u32]) xs r ! k = (if k \<in> set xs then 0 else r ! k)" if "k < length r" for xs k and r :: regs
    using that by (induction xs arbitrary: r) (auto simp: nth_list_update)
  have "r' ! swreg j = 0" if "j \<in> set B" for j
  proof -
    have "j \<in> set LEN_CODES" using that BLOCKS_each [OF assms(2)] by auto
    moreover have "list_all (\<lambda>row. 134 \<le> fst row \<and> fst row < 147) (map ((!) hwDecRegSpec) LEN_CODES)"
      unfolding LEN_rows by simp
    ultimately have "134 \<le> swreg j \<and> swreg j < 147" by (simp add: list_all_iff swreg_def)
    then have "swreg j < length r" "swreg j \<in> set [JPEGDEC_VLC_LEN_START_REG..<JPEGDEC_VLC_LEN_END_REG]"
      using assms(1) unfolding set_upt
      by (simp_all add: JPEGDEC_VLC_LEN_START_REG_def JPEGDEC_VLC_LEN_END_REG_def regs_ok_def DEC_RK70_REGISTERS_def)
    then show ?thesis unfolding r'_def using z by simp
  qed
  then have "map (GetRegisterFile r') B = map (\<lambda>j. 0) B"
    by (simp add: GetRegisterFile_def)
  then show "map (GetRegisterFile r') B = replicate 16 0" using BLOCKS_each [OF assms(2)] by (simp add: map_replicate_const)
qed

lemma no_counts: "put_no_counts ids = put_counts ids zero_VlcTable"
  by (simp add: put_no_counts_def put_counts_def zero_VlcTable_def)

lemma zero_counts_fit [simp]: "counts_fit n zero_VlcTable"
  by (simp add: counts_fit_def zero_VlcTable_def sum_list_replicate upt_rec nth_Cons')

lemma CODES_distinct [simp]:
  "AC1_CODES \<noteq> AC2_CODES" "AC1_CODES \<noteq> DC1_CODES" "AC1_CODES \<noteq> DC2_CODES" "AC1_CODES \<noteq> DC3_CODES"
  "AC2_CODES \<noteq> DC1_CODES" "AC2_CODES \<noteq> DC2_CODES" "AC2_CODES \<noteq> DC3_CODES"
  "DC1_CODES \<noteq> DC2_CODES" "DC1_CODES \<noteq> DC3_CODES" "DC2_CODES \<noteq> DC3_CODES"
  by (simp_all add: CODES_defs HWIF_defs)

lemma CODES_BLOCKS [simp]: "AC1_CODES \<in> set BLOCKS" "AC2_CODES \<in> set BLOCKS" "DC1_CODES \<in> set BLOCKS"
    "DC2_CODES \<in> set BLOCKS" "DC3_CODES \<in> set BLOCKS"
  by (simp_all add: BLOCKS_def)

definition progressive_blocks :: "JpegDecContainer \<Rightarrow> (nat list \<times> VlcTable) list" where
  "progressive_blocks c =
     (let s = c_scan c; h = c_vlc c; k = component_of (inf_componentId (c_info c)) in
      if inf_nonInterleaved (c_info c) \<noteq> 0 then
        (if sc_Ss s = 0
         then [(DC1_CODES, if sc_Ah s = 0 then vlc_dc_of (sc_Td s ! k) h else zero_VlcTable)]
         else [(AC1_CODES, vlc_ac_of (sc_Ta s ! k) h)])
      else map (\<lambda>(B, i). (B, if sc_Ah s = 0 then vlc_dc_of (sc_Td s ! i) h else zero_VlcTable))
        [(DC1_CODES, 0), (DC2_CODES, 1), (DC3_CODES, 2)])"

lemma LenBitsProgressive_blocks:
  "JpegDecWriteLenBitsProgressive c = set_regs (put_blocks (progressive_blocks c)) (LenBitsProgressive_reset c)"
proof -
  have "c_info (LenBitsProgressive_reset c) = c_info c" "c_scan (LenBitsProgressive_reset c) = c_scan c"
    "c_vlc (LenBitsProgressive_reset c) = c_vlc c"
    by (simp_all add: LenBitsProgressive_reset_def)
  then show ?thesis
    by (simp add: JpegDecWriteLenBitsProgressive_def progressive_blocks_def put_blocks_def Let_def no_counts
        LenBitsProgressive_dc_def LenBitsProgressive_ac_def LenBitsProgressive_interleaved_def)
qed

text \<open>
  JpegDecWriteLenBitsProgressive leaves in the count registers exactly the tables that the scan
  needs and zeros everywhere else, whatever a previous scan or picture left there: the DC tables of
  the three components for the first pass of an interleaved DC scan, the table of the one component for a
  scan of a single component, and no table at all for a refining pass over DC coefficients.
\<close>

theorem LenBitsProgressive_reads_back:
  assumes "regs_ok (c_jpegRegs c)" "\<forall>i. counts_fit 4 (vlc_dc_of i (c_vlc c))" "\<forall>i. counts_fit 8 (vlc_ac_of i (c_vlc c))"
  defines "r \<equiv> c_jpegRegs (JpegDecWriteLenBitsProgressive c)" and "z \<equiv> replicate 16 0"
    and "d \<equiv> \<lambda>i. vt_bits (vlc_dc_of (sc_Td (c_scan c) ! i) (c_vlc c))"
    and "a \<equiv> \<lambda>i. vt_bits (vlc_ac_of (sc_Ta (c_scan c) ! i) (c_vlc c))"
    and "k \<equiv> component_of (inf_componentId (c_info c))"
  shows "map (map (GetRegisterFile r)) [AC1_CODES, AC2_CODES, DC1_CODES, DC2_CODES, DC3_CODES] =
    (if sc_Ah (c_scan c) \<noteq> 0 \<and> (inf_nonInterleaved (c_info c) = 0 \<or> sc_Ss (c_scan c) = 0) then [z, z, z, z, z]
     else if inf_nonInterleaved (c_info c) = 0 then [z, z, d 0, d 1, d 2]
     else if sc_Ss (c_scan c) = 0 then [z, z, d k, z, z]
     else [a k, z, z, z, z])"
proof -
  let ?r = "c_jpegRegs (LenBitsProgressive_reset c)"
  have r: "r = writes ?r (put_blocks (progressive_blocks c))"
    by (simp add: r_def LenBitsProgressive_blocks set_regs_def)
  have ok: "regs_ok ?r" using reset_regs(1) [OF assms(1), of AC1_CODES] by (simp add: LenBitsProgressive_reset_def)
  have z: "map (GetRegisterFile ?r) B = z" if "B \<in> set BLOCKS" for B
    using reset_regs(2) [OF assms(1) that] by (simp add: LenBitsProgressive_reset_def z_def)
  have fit: "list_all (\<lambda>(A, t). A \<in> set BLOCKS \<and> counts_fit (block_width A) t) (progressive_blocks c)"
    using assms(2,3) by (simp add: progressive_blocks_def Let_def block_width_def CODES_distinct [symmetric])
  have "map (GetRegisterFile r) B = block_value B z (progressive_blocks c)" if "B \<in> set BLOCKS" for B
    unfolding r by (rule read_blocks [OF ok that fit z [OF that]])
  then show ?thesis
    by (simp add: progressive_blocks_def Let_def d_def a_def k_def CODES_distinct [symmetric])
      (simp add: zero_VlcTable_def z_def)
qed

definition demo_progressive :: JpegDecContainer where
  "demo_progressive = demo_lengths\<lparr>c_info := zero_DecInfo\<lparr>inf_nonInterleaved := 1\<rparr>\<rparr>"

lemma LenBitsProgressive_reads_back_witness:
  "map (GetRegisterFile (c_jpegRegs (JpegDecWriteLenBitsProgressive demo_progressive))) DC1_CODES =
     [0, 1, 5, 1, 1, 1, 1, 1, 1, 0, 0, 0, 0, 0, 0, 0]"
proof -
  have "regs_ok (c_jpegRegs demo_progressive)" by (simp add: demo_progressive_def demo_lengths_def zero_defs regs_ok_def)
  moreover have "\<forall>i. counts_fit 4 (vlc_dc_of i (c_vlc demo_progressive))" "\<forall>i. counts_fit 8 (vlc_ac_of i (c_vlc demo_progressive))"
    by (simp_all add: demo_progressive_def demo_lengths_def zero_defs vlc_dc_of_def vlc_ac_of_def counts_fit_def upt_rec nth_Cons' sum_list_replicate)
  moreover have "sc_Ah (c_scan demo_progressive) = 0" "inf_nonInterleaved (c_info demo_progressive) = 1"
    "sc_Ss (c_scan demo_progressive) = 0"
    "vlc_dc_of (sc_Td (c_scan demo_progressive) ! component_of (inf_componentId (c_info demo_progressive))) (c_vlc demo_progressive)
      = zero_VlcTable\<lparr>vt_bits := [0, 1, 5, 1, 1, 1, 1, 1, 1, 0, 0, 0, 0, 0, 0, 0]\<rparr>"
    by (simp_all add: demo_progressive_def demo_lengths_def zero_defs component_of_def vlc_dc_of_def)
  ultimately show ?thesis using LenBitsProgressive_reads_back [of demo_progressive] by simp
qed

section \<open>The tables of the chroma components\<close>

lemma read_writes:
  assumes "regs_ok r" "reg_valid j" "hw.clean j ws"
  shows "GetRegisterFile (writes r ws) j = hw.final j (GetRegisterFile r j) ws"
  using hw.rd_run [OF assms] by (simp add: writes_run)

definition hw_table :: "u32 \<Rightarrow> 'a \<times> 'a \<Rightarrow> 'a" where
  "hw_table sel p = (if sel = 0 then fst p else snd p)"

lemma below_two: "x < 2 \<Longrightarrow> x = 0 \<or> x = 1" for x :: u32
proof -
  assume "x < 2"
  then have "unat x = unat (0 :: u32) \<or> unat x = unat (1 :: u32)" by (simp add: word_less_nat_alt less_2_cases)
  then show ?thesis unfolding word_unat_eq_iff .
qed

lemma hw_table_luma_first:
  "x < 2 \<Longrightarrow> y < 2 \<Longrightarrow>
   hw_table (if x = 0 then y else if x = y then 0 else 1) (luma_first x t0 t1) = (if y = 0 then t0 else t1)" for x y :: u32
  using below_two [of x] below_two [of y] by (auto simp: hw_table_def luma_first_def)

text \<open>
  In a baseline scan whose selectors are 0 or 1 the table numbers JpegDecChromaTableSelectors gives
  to the hardware name the right tables after the reordering of JpegDecWriteTables, which stores the
  tables of the first component first: the AC and DC table the hardware looks up for Cb and Cr is the
  one the scan header selected for that component.
\<close>

theorem ChromaTableSelectors_name_tables:
  assumes "regs_ok (c_jpegRegs c)" "inf_operationType (c_info c) \<noteq> JPEGDEC_PROGRESSIVE"
    "sc_Ta (c_scan c) = [a0, a1, a2]" "list_all (\<lambda>x. x < 2) [a0, a1, a2]"
    "sc_Td (c_scan c) = [d0, d1, d2]" "list_all (\<lambda>x. x < 2) [d0, d1, d2]"
  defines "r \<equiv> c_jpegRegs (JpegDecChromaTableSelectors c)"
  shows "hw_table (GetRegisterFile r HWIF_CB_AC_VLCTABLE) (ac_pair c) = vlc_ac_of a1 (c_vlc c) \<and>
    hw_table (GetRegisterFile r HWIF_CR_AC_VLCTABLE) (ac_pair c) = vlc_ac_of a2 (c_vlc c) \<and>
    hw_table (GetRegisterFile r HWIF_CB_DC_VLCTABLE) (dc_pair c) = vlc_dc_of d1 (c_vlc c) \<and>
    hw_table (GetRegisterFile r HWIF_CR_DC_VLCTABLE) (dc_pair c) = vlc_dc_of d2 (c_vlc c) \<and>
    fst (ac_pair c) = vlc_ac_of a0 (c_vlc c) \<and> fst (dc_pair c) = vlc_dc_of d0 (c_vlc c)"
proof -
  let ?ac = "if a0 = 0 then [(HWIF_CR_AC_VLCTABLE, a2), (HWIF_CB_AC_VLCTABLE, a1)]
    else [(HWIF_CB_AC_VLCTABLE, if a0 = a1 then 0 else 1), (HWIF_CR_AC_VLCTABLE, if a0 = a2 then 0 else 1)]"
  let ?dc = "if d0 = 0 then [(HWIF_CR_DC_VLCTABLE, d2), (HWIF_CB_DC_VLCTABLE, d1)]
    else [(HWIF_CB_DC_VLCTABLE, if d0 = d1 then 0 else 1), (HWIF_CR_DC_VLCTABLE, if d0 = d2 then 0 else 1)]"
  let ?ws = "?ac @ ?dc @ [(HWIF_CR_DC_VLCTABLE3, 0), (HWIF_CB_DC_VLCTABLE3, 0)]"
  have r: "r = writes (c_jpegRegs c) ?ws"
    using assms(2,3,5)
    by (simp add: r_def JpegDecChromaTableSelectors_def ChromaTableSelectors_ac_def ChromaTableSelectors_dc_def set_regs_def writes_append)
  have ids: "reg_valid HWIF_CB_AC_VLCTABLE" "reg_valid HWIF_CR_AC_VLCTABLE" "reg_valid HWIF_CB_DC_VLCTABLE"
    "reg_valid HWIF_CR_DC_VLCTABLE" "reg_valid HWIF_CB_DC_VLCTABLE3" "reg_valid HWIF_CR_DC_VLCTABLE3"
    by (simp_all add: reg_valid_def hwDecRegSpec_length HWIF_defs)
  have cl: "hw.clean HWIF_CB_AC_VLCTABLE ?ws" "hw.clean HWIF_CR_AC_VLCTABLE ?ws"
      "hw.clean HWIF_CB_DC_VLCTABLE ?ws" "hw.clean HWIF_CR_DC_VLCTABLE ?ws"
    using ids by (auto simp: hw.clean_def reg_eval)
  have low: "x AND 1 = x" if "x < 2" for x :: u32
    using below_two [OF that] by auto
  have v: "GetRegisterFile r HWIF_CB_AC_VLCTABLE = (if a0 = 0 then a1 else if a0 = a1 then 0 else 1)"
      "GetRegisterFile r HWIF_CR_AC_VLCTABLE = (if a0 = 0 then a2 else if a0 = a2 then 0 else 1)"
      "GetRegisterFile r HWIF_CB_DC_VLCTABLE = (if d0 = 0 then d1 else if d0 = d1 then 0 else 1)"
      "GetRegisterFile r HWIF_CR_DC_VLCTABLE = (if d0 = 0 then d2 else if d0 = d2 then 0 else 1)"
    unfolding r using assms(4,6)
    by (simp_all add: low read_writes [OF assms(1)] ids cl hw.final_def reg_eval)
  have sel: "vlc_ac_of x h = (if x = 0 then vlc_acTable0 h else vlc_acTable1 h)"
      "vlc_dc_of x h = (if x = 0 then vlc_dcTable0 h else vlc_dcTable1 h)" if "x < 2" for x h
    using below_two [OF that] by (auto simp: vlc_ac_of_def vlc_dc_of_def)
  have fst: "fst (luma_first x t0 t1) = (if x = 0 then t0 else t1)" for x :: u32 and t0 t1 :: VlcTable
    by (simp add: luma_first_def)
  show ?thesis
    unfolding v using assms(3-6) by (simp add: ac_pair_def dc_pair_def hw_table_luma_first sel fst)
qed

lemma ChromaTableSelectors_name_tables_witness:
  "hw_table (GetRegisterFile (c_jpegRegs (JpegDecChromaTableSelectors
      (demo_lengths\<lparr>c_scan := zero_ScanInfo\<lparr>sc_Ta := [1, 0, 0], sc_Td := [0, 1, 1]\<rparr>\<rparr>))) HWIF_CB_AC_VLCTABLE)
    (ac_pair (demo_lengths\<lparr>c_scan := zero_ScanInfo\<lparr>sc_Ta := [1, 0, 0], sc_Td := [0, 1, 1]\<rparr>\<rparr>)) = vlc_acTable0 (c_vlc demo_lengths)"
proof -
  let ?c = "demo_lengths\<lparr>c_scan := zero_ScanInfo\<lparr>sc_Ta := [1, 0, 0], sc_Td := [0, 1, 1]\<rparr>\<rparr>"
  have "regs_ok (c_jpegRegs ?c)" "inf_operationType (c_info ?c) \<noteq> JPEGDEC_PROGRESSIVE"
    by (simp_all add: demo_lengths_def zero_defs regs_ok_def jpeg_consts)
  then show ?thesis
    using ChromaTableSelectors_name_tables [of ?c 1 0 0 0 1 1] by (simp add: vlc_ac_of_def)
qed

end
