(* ===== verification/PostProcessor.thy ===== *)
theory PostProcessor
  imports HwLengths "HOL-Library.Signed_Division"
begin

text \<open>
  SetPostProcessor (jpegdecinternal.c), which fills the registers of the post-processor that runs
  behind the decoder: crop of the input, formats, conversion of colours and scaling. An int of the
  code is an int here (the callers pass the sizes of a picture, which are small), its division
  truncates (sdiv), and what is written to a register is a 32-bit word. The stages of the routine are
  the writes they make, in the order of the code; None is a division by zero. dstLum, computed for an
  output in YCbCr 4:2:0, is not used.
\<close>

section \<open>The parameters\<close>

record PostProcessInfo =
  ppi_enable :: int
  ppi_outFomart :: int
  ppi_scale_denom :: int
  ppi_shouldDither :: int
  ppi_cropX :: int
  ppi_cropY :: int
  ppi_cropW :: int
  ppi_cropH :: int

definition BRIGHTNESS :: int where "BRIGHTNESS = 0"
definition CONTRAST :: int where "CONTRAST = 0"
definition SATURATION :: int where "SATURATION = 0"
definition VIDEORANGE :: int where "VIDEORANGE = 1"

definition PP_IN_FORMAT_YUV422INTERLAVE :: int where "PP_IN_FORMAT_YUV422INTERLAVE = 0"
definition PP_IN_FORMAT_YUV420SEMI :: int where "PP_IN_FORMAT_YUV420SEMI = 1"
definition PP_IN_FORMAT_YUV420PLANAR :: int where "PP_IN_FORMAT_YUV420PLANAR = 2"
definition PP_IN_FORMAT_YUV400 :: int where "PP_IN_FORMAT_YUV400 = 3"
definition PP_IN_FORMAT_YUV422SEMI :: int where "PP_IN_FORMAT_YUV422SEMI = 4"
definition PP_IN_FORMAT_YUV420SEMITIELED :: int where "PP_IN_FORMAT_YUV420SEMITIELED = 5"
definition PP_IN_FORMAT_YUV440SEMI :: int where "PP_IN_FORMAT_YUV440SEMI = 6"
definition PP_IN_FORMAT_YUV444_SEMI :: int where "PP_IN_FORMAT_YUV444_SEMI = 7"
definition PP_IN_FORMAT_YUV411_SEMI :: int where "PP_IN_FORMAT_YUV411_SEMI = 8"

definition PP_OUT_FORMAT_RGB565 :: int where "PP_OUT_FORMAT_RGB565 = 0"
definition PP_OUT_FORMAT_ARGB :: int where "PP_OUT_FORMAT_ARGB = 1"
definition PP_OUT_FORMAT_YUV422INTERLAVE :: int where "PP_OUT_FORMAT_YUV422INTERLAVE = 3"
definition PP_OUT_FORMAT_YUV420INTERLAVE :: int where "PP_OUT_FORMAT_YUV420INTERLAVE = 5"

lemmas pp_consts = BRIGHTNESS_def CONTRAST_def SATURATION_def VIDEORANGE_def
  PP_IN_FORMAT_YUV422INTERLAVE_def PP_IN_FORMAT_YUV420SEMI_def PP_IN_FORMAT_YUV420PLANAR_def
  PP_IN_FORMAT_YUV400_def PP_IN_FORMAT_YUV422SEMI_def PP_IN_FORMAT_YUV420SEMITIELED_def
  PP_IN_FORMAT_YUV440SEMI_def PP_IN_FORMAT_YUV444_SEMI_def PP_IN_FORMAT_YUV411_SEMI_def
  PP_OUT_FORMAT_RGB565_def PP_OUT_FORMAT_ARGB_def PP_OUT_FORMAT_YUV422INTERLAVE_def
  PP_OUT_FORMAT_YUV420INTERLAVE_def

type_synonym reg_writes = "(nat \<times> u32) list"

abbreviation u32_of :: "int \<Rightarrow> u32" where "u32_of \<equiv> word_of_int"

section \<open>The bus and the input\<close>

definition pp_bus_regs :: reg_writes where
  "pp_bus_regs =
     [(HWIF_PP_AXI_RD_ID, 0), (HWIF_PP_AXI_WR_ID, 0), (HWIF_PP_AHB_HLOCK_E, 1), (HWIF_PP_SCMD_DIS, 1),
      (HWIF_PP_IN_A2_ENDSEL, 1), (HWIF_PP_IN_A1_SWAP32, 1), (HWIF_PP_IN_A1_ENDIAN, 1),
      (HWIF_PP_IN_SWAP32_E, 1), (HWIF_PP_DATA_DISC_E, 1), (HWIF_PP_CLK_GATE_E, 1), (HWIF_PP_IN_ENDIAN, 1),
      (HWIF_PP_OUT_ENDIAN, 1), (HWIF_PP_OUT_SWAP32_E, 1), (HWIF_PP_MAX_BURST, 16), (HWIF_PP_IN_LU_BASE, 0)]"

text \<open>A horizontal and a vertical size or position, in blocks of 16, over the two fields it has.\<close>

definition pp_hor_regs :: "nat \<Rightarrow> nat \<Rightarrow> int \<Rightarrow> reg_writes" where
  "pp_hor_regs ext low x =
     [(ext, u32_of (drop_bit 9 (x sdiv 16 AND 0xE00))), (low, u32_of (x sdiv 16 AND 0x1FF))]"

definition pp_ver_regs :: "nat \<Rightarrow> nat \<Rightarrow> int \<Rightarrow> reg_writes" where
  "pp_ver_regs ext low y =
     [(ext, u32_of (drop_bit 8 (y sdiv 16 AND 0x700))), (low, u32_of (y sdiv 16 AND 0xFF))]"

definition pp_in_regs :: "int \<Rightarrow> int \<Rightarrow> PostProcessInfo \<Rightarrow> reg_writes" where
  "pp_in_regs inWidth inHeigth p =
     (HWIF_EXT_ORIG_WIDTH, u32_of (drop_bit 4 inWidth)) #
     (if ppi_cropW p \<le> 0 then
        pp_hor_regs HWIF_PP_IN_W_EXT HWIF_PP_IN_WIDTH inWidth @
        pp_ver_regs HWIF_PP_IN_H_EXT HWIF_PP_IN_HEIGHT inHeigth
      else
        pp_hor_regs HWIF_PP_IN_W_EXT HWIF_PP_IN_WIDTH (ppi_cropW p) @
        pp_ver_regs HWIF_PP_IN_H_EXT HWIF_PP_IN_HEIGHT (ppi_cropH p) @
        pp_hor_regs HWIF_CROP_STARTX_EXT HWIF_CROP_STARTX (ppi_cropX p) @
        pp_ver_regs HWIF_CROP_STARTY_EXT HWIF_CROP_STARTY (ppi_cropY p) @
        [(HWIF_PP_CROP8_R_E, if ppi_cropW p AND 0x0F \<noteq> 0 then 1 else 0),
         (HWIF_PP_CROP8_D_E, if ppi_cropH p AND 0x0F \<noteq> 0 then 1 else 0)])"

definition pp_in_size :: "int \<Rightarrow> int \<Rightarrow> PostProcessInfo \<Rightarrow> int \<times> int" where
  "pp_in_size inWidth inHeigth p =
     (if ppi_cropW p \<le> 0 then (inWidth, inHeigth) else (ppi_cropW p, ppi_cropH p))"

definition pp_out_regs :: "u32 \<Rightarrow> int \<Rightarrow> int \<Rightarrow> reg_writes" where
  "pp_out_regs phy_addr outWidth outHeight =
     [(HWIF_DISPLAY_WIDTH, u32_of outWidth), (HWIF_PP_OUT_WIDTH, u32_of outWidth),
      (HWIF_PP_OUT_HEIGHT, u32_of outHeight), (HWIF_PP_OUT_LU_BASE, phy_addr)]"

definition pp_in_format :: "int \<Rightarrow> reg_writes option" where
  "pp_in_format inColor =
     (if inColor = PP_IN_FORMAT_YUV422INTERLAVE then Some [(HWIF_PP_IN_FORMAT, 0)]
      else if inColor = PP_IN_FORMAT_YUV420SEMI then Some [(HWIF_PP_IN_FORMAT, 1)]
      else if inColor = PP_IN_FORMAT_YUV420PLANAR then Some [(HWIF_PP_IN_FORMAT, 2)]
      else if inColor = PP_IN_FORMAT_YUV400 then Some [(HWIF_PP_IN_FORMAT, 3)]
      else if inColor = PP_IN_FORMAT_YUV422SEMI then Some [(HWIF_PP_IN_FORMAT, 4)]
      else if inColor = PP_IN_FORMAT_YUV420SEMITIELED then Some [(HWIF_PP_IN_FORMAT, 5)]
      else if inColor = PP_IN_FORMAT_YUV440SEMI then Some [(HWIF_PP_IN_FORMAT, 6)]
      else if inColor = PP_IN_FORMAT_YUV444_SEMI then Some [(HWIF_PP_IN_FORMAT, 7), (HWIF_PP_IN_FORMAT_ES, 0)]
      else if inColor = PP_IN_FORMAT_YUV411_SEMI then Some [(HWIF_PP_IN_FORMAT, 7), (HWIF_PP_IN_FORMAT_ES, 1)]
      else None)"

section \<open>The colours\<close>

definition clip :: "int \<Rightarrow> int \<Rightarrow> int \<Rightarrow> int" where
  "clip lo hi x = (if x > hi then hi else if x < lo then lo else x)"

text \<open>
  The curve of a contrast other than none: two thresholds, two offsets and two slopes. In full range
  the offsets are computed with the unsigned coefficient a, so that they are unsigned quotients.
\<close>

record contrast_curve =
  cc_thr1 :: int
  cc_thr2 :: int
  cc_off1 :: int
  cc_off2 :: int
  cc_a1 :: int
  cc_a2 :: int

definition full_offset :: "int \<Rightarrow> u32 \<Rightarrow> int" where
  "full_offset x a = sint (u32_of x * a div 256)"

definition contrast_full :: "u32 \<Rightarrow> int \<Rightarrow> contrast_curve option" where
  "contrast_full a contrast =
     (let thr1 = (219 * (contrast + 128)) sdiv 512; thr1y = (219 - 2 * thr1) sdiv 2;
          thr2 = 219 - thr1; thr2y = 219 - thr1y
      in if thr1 = 0 \<or> thr2 - thr1 = 0 then None
         else let tmp1 = (thr1y * 256) sdiv thr1; tmp2 = ((thr2y - thr1y) * 256) sdiv (thr2 - thr1);
                  off1 = full_offset (thr1y - (tmp2 * thr1) sdiv 256) a;
                  off2 = full_offset (thr2y - (tmp1 * thr2) sdiv 256) a;
                  tmp1 = (64 * (contrast + 128)) sdiv 128; tmp2 = 256 * (128 - tmp1);
                  a1 = (tmp2 + off2) sdiv thr1; a2 = a1 + (256 * (off2 - 1)) sdiv (thr2 - thr1)
              in Some \<lparr>cc_thr1 = thr1, cc_thr2 = thr2, cc_off1 = off1, cc_off2 = off2, cc_a1 = a1, cc_a2 = a2\<rparr>)"

definition contrast_video :: "int \<Rightarrow> contrast_curve option" where
  "contrast_video contrast =
     (let thr1 = (64 * (contrast + 128)) sdiv 128; thr1y = 128 - thr1; thr2 = 256 - thr1; thr2y = 256 - thr1y
      in if thr1 = 0 \<or> thr2 - thr1 = 0 then None
         else let a1 = (thr1y * 256) sdiv thr1; a2 = ((thr2y - thr1y) * 256) sdiv (thr2 - thr1)
              in Some \<lparr>cc_thr1 = thr1, cc_thr2 = thr2, cc_off1 = thr1y - (a2 * thr1) sdiv 256,
                   cc_off2 = thr2y - (a1 * thr2) sdiv 256, cc_a1 = a1, cc_a2 = a2\<rparr>)"

definition clip_curve :: "contrast_curve \<Rightarrow> contrast_curve" where
  "clip_curve k =
     \<lparr>cc_thr1 = clip 0 255 (cc_thr1 k), cc_thr2 = clip 0 255 (cc_thr2 k),
      cc_off1 = clip (- 512) 511 (cc_off1 k), cc_off2 = clip (- 512) 511 (cc_off2 k),
      cc_a1 = clip 0 1023 (cc_a1 k), cc_a2 = clip 0 1023 (cc_a2 k)\<rparr>"

definition curve_regs :: "contrast_curve \<Rightarrow> reg_writes" where
  "curve_regs k =
     [(HWIF_CONTRAST_THR1, u32_of (cc_thr1 k)), (HWIF_CONTRAST_THR2, u32_of (cc_thr2 k)),
      (HWIF_CONTRAST_OFF1, u32_of (cc_off1 k)), (HWIF_CONTRAST_OFF2, u32_of (cc_off2 k)),
      (HWIF_COLOR_COEFFA1, u32_of (cc_a1 k)), (HWIF_COLOR_COEFFA2, u32_of (cc_a2 k))]"

definition contrast_regs :: "u32 \<Rightarrow> int \<Rightarrow> int \<Rightarrow> reg_writes option" where
  "contrast_regs a contrast videoRange =
     (if contrast \<noteq> 0 then
        map_option (\<lambda>k. curve_regs (clip_curve k))
          (if videoRange = 0 then contrast_full a contrast else contrast_video contrast)
      else
        (let tmp = clip 0 1023 (sint a)
         in Some [(HWIF_CONTRAST_THR1, 55), (HWIF_CONTRAST_THR2, 165), (HWIF_CONTRAST_OFF1, 0),
              (HWIF_CONTRAST_OFF2, 0), (HWIF_COLOR_COEFFA1, u32_of tmp), (HWIF_COLOR_COEFFA2, u32_of tmp)]))"

definition saturated :: "int \<Rightarrow> int \<Rightarrow> u32" where
  "saturated satur x = u32_of (clip 0 1023 ((satur * x) sdiv 64))"

text \<open>The conversion to RGB: the coefficients of BT.601 for the full and the video range.\<close>

definition pp_colour_regs :: "int \<Rightarrow> int \<Rightarrow> int \<Rightarrow> reg_writes option" where
  "pp_colour_regs videoRange contrast saturation =
     (let (a, b, c, d, e) = (if videoRange \<noteq> 0 then (256, 350, 179, 86, 443) else (298, 409, 208, 100, 516));
          satur = 64 + saturation
      in map_option (\<lambda>ws.
           (if videoRange \<noteq> 0 then [(HWIF_YCBCR_RANGE, u32_of videoRange)] else []) @ ws @
           [(HWIF_PP_OUT_ENDIAN, 0), (HWIF_COLOR_COEFFB, saturated satur b), (HWIF_COLOR_COEFFC, saturated satur c),
            (HWIF_COLOR_COEFFD, saturated satur d), (HWIF_COLOR_COEFFE, saturated satur e)])
         (contrast_regs a contrast videoRange))"

definition pp_range_regs :: reg_writes where
  "pp_range_regs = [(HWIF_RANGEMAP_COEF_Y, 9), (HWIF_RANGEMAP_COEF_C, 9), (HWIF_COLOR_COEFFF, u32_of BRIGHTNESS)]"

definition pp_out_format :: "int \<Rightarrow> int \<Rightarrow> u32 \<Rightarrow> reg_writes option" where
  "pp_out_format outColor dither phy_addr =
     (if outColor = PP_OUT_FORMAT_RGB565 then
        Some ([(HWIF_R_MASK, 0xF800F800), (HWIF_G_MASK, 0x07E007E0), (HWIF_B_MASK, 0x001F001F),
           (HWIF_RGB_R_PADD, 0), (HWIF_RGB_G_PADD, 5), (HWIF_RGB_B_PADD, 11)] @
          (if dither \<noteq> 0 then [(HWIF_DITHER_SELECT_R, 2), (HWIF_DITHER_SELECT_G, 3), (HWIF_DITHER_SELECT_B, 2)] else []) @
          [(HWIF_RGB_PIX_IN32, 1), (HWIF_PP_OUT_SWAP16_E, 1), (HWIF_PP_OUT_FORMAT, 0)])
      else if outColor = PP_OUT_FORMAT_ARGB then
        Some [(HWIF_R_MASK, 0xFF0000FF), (HWIF_G_MASK, 0xFF00FF00), (HWIF_B_MASK, 0xFFFF0000),
          (HWIF_RGB_R_PADD, 24), (HWIF_RGB_G_PADD, 16), (HWIF_RGB_B_PADD, 8),
          (HWIF_RGB_PIX_IN32, 0), (HWIF_PP_OUT_FORMAT, 0)]
      else if outColor = PP_OUT_FORMAT_YUV422INTERLAVE then Some [(HWIF_PP_OUT_FORMAT, 3)]
      else if outColor = PP_OUT_FORMAT_YUV420INTERLAVE then
        Some [(HWIF_PP_OUT_CH_BASE, phy_addr), (HWIF_PP_OUT_FORMAT, 5)]
      else None)"

section \<open>The scaling\<close>

text \<open>
  One direction: i and o are one less than the sizes of input and output. The code adds one to the
  inverse ratio of a vertical reduction only.
\<close>

definition pp_scale_regs :: "nat \<Rightarrow> nat \<Rightarrow> nat \<Rightarrow> u32 \<Rightarrow> u32 \<Rightarrow> u32 \<Rightarrow> reg_writes option" where
  "pp_scale_regs mode ratio invra round i out =
     (if i < out then
        (if i = 0 then None
         else Some [(mode, 1), (ratio, push_bit 16 out div i), (invra, push_bit 16 i div out)])
      else if i > out then
        (if i + 1 = 0 then None
         else Some [(mode, 2), (invra, push_bit 16 (out + 1) div (i + 1) + round)])
      else Some [(mode, 0)])"

definition pp_hor_scale :: "int \<Rightarrow> int \<Rightarrow> reg_writes option" where
  "pp_hor_scale inWidth outWidth =
     pp_scale_regs HWIF_HOR_SCALE_MODE HWIF_SCALE_WRATIO HWIF_WSCALE_INVRA 0 (u32_of (inWidth - 1)) (u32_of (outWidth - 1))"

definition pp_ver_scale :: "int \<Rightarrow> int \<Rightarrow> reg_writes option" where
  "pp_ver_scale inHeigth outHeight =
     pp_scale_regs HWIF_VER_SCALE_MODE HWIF_SCALE_HRATIO HWIF_HSCALE_INVRA 1 (u32_of (inHeigth - 1)) (u32_of (outHeight - 1))"

section \<open>SetPostProcessor\<close>

text \<open>A stage that may divide by zero, and one whose writes depend on a format.\<close>

fun pp_write :: "reg_writes option \<Rightarrow> regs \<Rightarrow> (int \<times> regs, regs) outcome" where
  "pp_write (Some ws) r = Continue (writes r ws)"
| "pp_write None r = Undefined"

fun pp_write_format :: "reg_writes option \<Rightarrow> regs \<Rightarrow> (int \<times> regs, regs) outcome" where
  "pp_write_format (Some ws) r = Continue (writes r ws)"
| "pp_write_format None r = Return (- 1, r)"

definition SetPostProcessor ::
  "regs \<Rightarrow> u32 \<Rightarrow> int \<Rightarrow> int \<Rightarrow> int \<Rightarrow> int \<Rightarrow> int \<Rightarrow> PostProcessInfo \<Rightarrow> (int \<times> regs, unit) outcome" where
  "SetPostProcessor r phy_addr inWidth inHeigth outWidth outHeight inColor p =
     (let (w, h) = pp_in_size inWidth inHeigth p; outColor = ppi_outFomart p;
          r = writes r (pp_bus_regs @ pp_in_regs inWidth inHeigth p @ pp_out_regs phy_addr outWidth outHeight)
      in andThen (pp_write_format (pp_in_format inColor) r) (\<lambda>r.
         andThen (pp_write (if outColor \<le> PP_OUT_FORMAT_ARGB then pp_colour_regs VIDEORANGE CONTRAST SATURATION else Some [])
           (writes r pp_range_regs)) (\<lambda>r.
         andThen (pp_write_format (pp_out_format outColor (ppi_shouldDither p) phy_addr) r) (\<lambda>r.
         andThen (pp_write (pp_hor_scale w outWidth) (writes r [(HWIF_ROTATION_MODE, 0)])) (\<lambda>r.
         andThen (pp_write (pp_ver_scale h outHeight) r) (\<lambda>r.
           Return (0, writes r [(HWIF_PP_PIPELINE_E, u32_of (ppi_enable p))])))))))"

section \<open>The formats and the divisions\<close>

lemma pp_in_format_known: "pp_in_format inColor = None \<longleftrightarrow> inColor < 0 \<or> inColor > 8"
  by (auto simp: pp_in_format_def pp_consts)

lemma pp_out_format_known: "pp_out_format outColor dither a = None \<longleftrightarrow> outColor \<notin> {0, 1, 3, 5}"
  by (auto simp: pp_out_format_def pp_consts)

lemma pp_colour_regs_some: "\<exists>ws. pp_colour_regs VIDEORANGE CONTRAST SATURATION = Some ws"
  by (simp add: pp_colour_regs_def contrast_regs_def pp_consts Let_def)

text \<open>A size as the C type int holds it, and the unsigned word one below it.\<close>

definition int_size :: "int \<Rightarrow> bool" where "int_size x \<longleftrightarrow> 0 \<le> x \<and> x < 2 ^ 31"

lemma uint_u32_of: "0 \<le> y \<Longrightarrow> y < 2 ^ 32 \<Longrightarrow> uint (u32_of y) = y"
  by (simp add: unsigned_of_int take_bit_int_eq_self)

lemma uint_below: "int_size x \<Longrightarrow> uint (u32_of (x - 1)) = (if x = 0 then 2 ^ 32 - 1 else x - 1)"
  using uint_u32_of [of "x - 1"] by (auto simp: int_size_def unsigned_minus_1_eq_mask mask_eq_exp_minus_1)

lemma scale_None:
  assumes "int_size x" "int_size y"
  shows "pp_scale_regs mode ratio invra round (u32_of (x - 1)) (u32_of (y - 1)) = None \<longleftrightarrow> x \<le> 1 \<and> y \<noteq> x"
proof -
  define i out where "i = u32_of (x - 1)" and "out = u32_of (y - 1)"
  have u: "uint i = (if x = 0 then 2 ^ 32 - 1 else x - 1)" "uint out = (if y = 0 then 2 ^ 32 - 1 else y - 1)"
    using uint_below assms unfolding i_def out_def by blast+
  have "i + 1 = 0 \<longleftrightarrow> i = - 1" by (simp add: add_eq_0_iff2)
  then have "i = 0 \<longleftrightarrow> uint i = 0" "i + 1 = 0 \<longleftrightarrow> uint i = 2 ^ 32 - 1"
    by (simp_all add: word_uint_eq_iff uint_word_ariths)
  then have "pp_scale_regs mode ratio invra round i out = None \<longleftrightarrow> x \<le> 1 \<and> y \<noteq> x"
    using u assms unfolding pp_scale_regs_def word_less_def int_size_def by (auto split: if_splits)
  then show ?thesis unfolding i_def out_def .
qed

lemma SetPostProcessor_outcome:
  fixes p :: PostProcessInfo and inColor :: int and r :: regs and phy_addr :: u32
  assumes "pp_in_size inWidth inHeigth p = (w, h)" "int_size w" "int_size h" "int_size outWidth" "int_size outHeight"
  defines "known \<equiv> 0 \<le> inColor \<and> inColor \<le> 8 \<and> ppi_outFomart p \<in> {0, 1, 3, 5}"
    and "flat \<equiv> w \<le> 1 \<and> outWidth \<noteq> w \<or> h \<le> 1 \<and> outHeight \<noteq> h"
    and "m \<equiv> SetPostProcessor r phy_addr inWidth inHeigth outWidth outHeight inColor p"
  shows "(\<not> known \<longrightarrow> (\<exists>r'. m = Return (- 1, r'))) \<and> (known \<and> flat \<longrightarrow> m = Undefined) \<and>
    (known \<and> \<not> flat \<longrightarrow> (\<exists>r'. m = Return (0, r')))"
proof -
  obtain cs where cs: "pp_colour_regs VIDEORANGE CONTRAST SATURATION = Some cs" using pp_colour_regs_some by blast
  have sc: "pp_hor_scale w outWidth = None \<longleftrightarrow> w \<le> 1 \<and> outWidth \<noteq> w" "pp_ver_scale h outHeight = None \<longleftrightarrow> h \<le> 1 \<and> outHeight \<noteq> h"
    using scale_None assms(2-5) unfolding pp_hor_scale_def pp_ver_scale_def by blast+
  have f: "pp_in_format inColor = None \<longleftrightarrow> \<not> (0 \<le> inColor \<and> inColor \<le> 8)"
    "pp_out_format (ppi_outFomart p) (ppi_shouldDither p) phy_addr = None \<longleftrightarrow> ppi_outFomart p \<notin> {0, 1, 3, 5}"
    unfolding pp_in_format_known pp_out_format_known by auto
  show ?thesis
    using f sc unfolding known_def flat_def m_def
    by (cases "pp_in_format inColor"; cases "pp_out_format (ppi_outFomart p) (ppi_shouldDither p) phy_addr";
        cases "pp_hor_scale w outWidth"; cases "pp_ver_scale h outHeight")
      (simp_all add: SetPostProcessor_def assms(1) cs Let_def)
qed

text \<open>
  C37. SetPostProcessor returns an error exactly for a format it does not know, and never fails
  otherwise but for a scaler whose input, after the crop, has at most one column or row that is not
  the size of the output: there it divides by zero.
\<close>

theorem SetPostProcessor_result:
  fixes p :: PostProcessInfo and inColor :: int and r :: regs and phy_addr :: u32
  assumes "pp_in_size inWidth inHeigth p = (w, h)" "int_size w" "int_size h" "int_size outWidth" "int_size outHeight"
  defines "known \<equiv> 0 \<le> inColor \<and> inColor \<le> 8 \<and> ppi_outFomart p \<in> {0, 1, 3, 5}"
    and "flat \<equiv> w \<le> 1 \<and> outWidth \<noteq> w \<or> h \<le> 1 \<and> outHeight \<noteq> h"
    and "m \<equiv> SetPostProcessor r phy_addr inWidth inHeigth outWidth outHeight inColor p"
  shows "(\<not> known \<longrightarrow> (\<exists>r'. m = Return (- 1, r'))) \<and> (known \<and> flat \<longrightarrow> m = Undefined) \<and>
    (known \<and> \<not> flat \<longrightarrow> (\<exists>r'. m = Return (0, r')))"
  unfolding known_def flat_def m_def by (rule SetPostProcessor_outcome [OF assms(1-5)])

definition demo_pp :: PostProcessInfo where
  "demo_pp = \<lparr>ppi_enable = 1, ppi_outFomart = PP_OUT_FORMAT_YUV420INTERLAVE, ppi_scale_denom = 0, ppi_shouldDither = 0,
     ppi_cropX = 0, ppi_cropY = 0, ppi_cropW = 0, ppi_cropH = 0\<rparr>"

lemma SetPostProcessor_result_witness:
  "(\<exists>r'. SetPostProcessor (replicate DEC_RK70_REGISTERS 0) 4096 640 480 320 240 PP_IN_FORMAT_YUV420SEMI demo_pp = Return (0, r')) \<and>
   SetPostProcessor (replicate DEC_RK70_REGISTERS 0) 4096 1 480 320 240 PP_IN_FORMAT_YUV420SEMI demo_pp = Undefined"
proof -
  have size: "pp_in_size x y demo_pp = (x, y)" for x y by (simp add: pp_in_size_def demo_pp_def)
  have known: "0 \<le> PP_IN_FORMAT_YUV420SEMI" "PP_IN_FORMAT_YUV420SEMI \<le> 8" "ppi_outFomart demo_pp = 5"
    by (simp_all add: pp_consts demo_pp_def)
  have i: "int_size 640" "int_size 480" "int_size 320" "int_size 240" "int_size 1" by (simp_all add: int_size_def)
  note res = SetPostProcessor_result [where p = demo_pp and inColor = PP_IN_FORMAT_YUV420SEMI and
      r = "replicate DEC_RK70_REGISTERS 0" and phy_addr = 4096 and outWidth = 320 and outHeight = 240]
  show ?thesis using res [OF size i(1,2,3,4)] res [OF size i(5,2,3,4)] by (simp add: known)
qed

section \<open>The curve of a contrast\<close>

text \<open>
  The three lines a1 * x / 256, a2 * x / 256 + off1 and a1 * x / 256 + off2 meet at the thresholds, up
  to the rounding, and no value is clipped.
\<close>

definition smooth_curve :: "contrast_curve \<Rightarrow> bool" where
  "smooth_curve k \<longleftrightarrow> clip_curve k = k \<and> cc_thr1 k < cc_thr2 k \<and>
     \<bar>cc_a1 k * cc_thr1 k div 256 - (cc_a2 k * cc_thr1 k div 256 + cc_off1 k)\<bar> \<le> 1 \<and>
     \<bar>cc_a2 k * cc_thr2 k div 256 + cc_off1 k - (cc_a1 k * cc_thr2 k div 256 + cc_off2 k)\<bar> \<le> 1 \<and>
     cc_a1 k * 255 div 256 + cc_off2 k \<in> {253, 254, 255}"

lemma contrast_video_smooth:
  "list_all (\<lambda>c. case contrast_video c of Some k \<Rightarrow> smooth_curve k | None \<Rightarrow> False) [-64..64]"
  by code_simp

text \<open>The exact value of an offset in full range.\<close>

definition wraps :: "int \<Rightarrow> bool" where
  "wraps c \<longleftrightarrow> (case contrast_full 298 c of
     Some k \<Rightarrow> cc_off1 k > 2 ^ 23 \<and> cc_off1 (clip_curve k) = 511 \<or> cc_off2 k > 2 ^ 23 \<and> cc_off2 (clip_curve k) = 511
   | None \<Rightarrow> False)"

lemma contrast_full_wraps: "list_all (\<lambda>c. c = 0 \<or> wraps c) [-64..64]"
  by code_simp



end
