(* ===== verification/PostProcessorRegs.thy ===== *)
theory PostProcessorRegs
  imports PostProcessor
begin

section \<open>The registers of a successful call\<close>

definition pp_read_ids :: "nat list" where
  "pp_read_ids = [HWIF_PP_IN_W_EXT, HWIF_PP_IN_WIDTH, HWIF_PP_IN_H_EXT, HWIF_PP_IN_HEIGHT,
     HWIF_PP_OUT_WIDTH, HWIF_PP_OUT_HEIGHT, HWIF_PP_OUT_LU_BASE, HWIF_PP_PIPELINE_E,
     HWIF_HOR_SCALE_MODE, HWIF_SCALE_WRATIO, HWIF_WSCALE_INVRA,
     HWIF_VER_SCALE_MODE, HWIF_SCALE_HRATIO, HWIF_HSCALE_INVRA]"

definition pp_ids :: "nat list" where
  "pp_ids = map fst pp_bus_regs @ pp_read_ids @
     [HWIF_EXT_ORIG_WIDTH, HWIF_CROP_STARTX_EXT, HWIF_CROP_STARTX, HWIF_CROP_STARTY_EXT, HWIF_CROP_STARTY,
      HWIF_PP_CROP8_R_E, HWIF_PP_CROP8_D_E, HWIF_DISPLAY_WIDTH, HWIF_PP_IN_FORMAT, HWIF_PP_IN_FORMAT_ES,
      HWIF_RANGEMAP_COEF_Y, HWIF_RANGEMAP_COEF_C, HWIF_COLOR_COEFFF, HWIF_YCBCR_RANGE, HWIF_CONTRAST_THR1,
      HWIF_CONTRAST_THR2, HWIF_CONTRAST_OFF1, HWIF_CONTRAST_OFF2, HWIF_COLOR_COEFFA1, HWIF_COLOR_COEFFA2,
      HWIF_COLOR_COEFFB, HWIF_COLOR_COEFFC, HWIF_COLOR_COEFFD, HWIF_COLOR_COEFFE,
      HWIF_R_MASK, HWIF_G_MASK, HWIF_B_MASK, HWIF_RGB_R_PADD, HWIF_RGB_G_PADD, HWIF_RGB_B_PADD,
      HWIF_DITHER_SELECT_R, HWIF_DITHER_SELECT_G, HWIF_DITHER_SELECT_B, HWIF_RGB_PIX_IN32,
      HWIF_PP_OUT_SWAP16_E, HWIF_PP_OUT_FORMAT, HWIF_PP_OUT_CH_BASE, HWIF_ROTATION_MODE]"

lemma pp_ids_apart:
  "list_all (\<lambda>i. reg_valid i \<and> list_all (\<lambda>j. i = j \<or> reg_apart i j) pp_read_ids) pp_ids"
  by (simp add: pp_ids_def pp_read_ids_def pp_bus_regs_def reg_eval)

text \<open>The writes of each stage are to fields of the post-processor.\<close>

abbreviation within :: "reg_writes \<Rightarrow> bool" where "within ws \<equiv> fst ` set ws \<subseteq> set pp_ids"

lemma within_clean: "within ws \<Longrightarrow> j \<in> set pp_read_ids \<Longrightarrow> hw.clean j ws"
  using pp_ids_apart by (force simp: hw.clean_def list_all_iff)

lemma within_in_regs: "within (pp_bus_regs @ pp_in_regs inWidth inHeigth p @ pp_out_regs phy_addr outWidth outHeight)"
  by (auto simp: pp_ids_def pp_read_ids_def pp_in_regs_def pp_out_regs_def pp_hor_regs_def pp_ver_regs_def)

lemma within_formats:
  "pp_in_format f = Some ws \<Longrightarrow> within ws" "pp_out_format g d a = Some ws \<Longrightarrow> within ws"
  by (auto simp: pp_in_format_def pp_out_format_def pp_ids_def split: if_splits)

lemma within_colour:
  "within pp_range_regs" "pp_colour_regs VIDEORANGE CONTRAST SATURATION = Some ws \<Longrightarrow> within ws"
  by (auto simp: pp_range_regs_def pp_colour_regs_def contrast_regs_def pp_consts pp_ids_def pp_bus_regs_def Let_def)

lemma within_scale:
  "pp_hor_scale x y = Some ws \<Longrightarrow> within ws" "pp_ver_scale x y = Some ws \<Longrightarrow> within ws"
  by (auto simp: pp_hor_scale_def pp_ver_scale_def pp_scale_regs_def pp_ids_def pp_read_ids_def Let_def split: if_splits)

lemma read_valid: "j \<in> set pp_read_ids \<Longrightarrow> reg_valid j"
  using pp_ids_apart by (auto simp: list_all_iff pp_ids_def)

text \<open>None of the writes between the input and the scaler is to a field that is read here.\<close>

definition pp_other :: "nat \<Rightarrow> bool" where "pp_other i \<longleftrightarrow> i \<notin> set pp_read_ids"

lemma other_stages:
  "pp_in_format f = Some ws \<Longrightarrow> list_all (\<lambda>w. pp_other (fst w)) ws"
  "pp_out_format g d a = Some ws \<Longrightarrow> list_all (\<lambda>w. pp_other (fst w)) ws"
  "pp_colour_regs VIDEORANGE CONTRAST SATURATION = Some ws \<Longrightarrow> list_all (\<lambda>w. pp_other (fst w)) ws"
  "list_all (\<lambda>w. pp_other (fst w)) pp_range_regs" "pp_other HWIF_ROTATION_MODE"
  by (auto simp: pp_in_format_def pp_out_format_def pp_range_regs_def pp_colour_regs_def contrast_regs_def pp_consts
      Let_def pp_other_def pp_read_ids_def HWIF_defs split: if_splits)

lemma other_final: "list_all (\<lambda>w. pp_other (fst w)) ws \<Longrightarrow> j \<in> set pp_read_ids \<Longrightarrow> hw.final j x ws = x"
  by (rule final_other) (auto simp: list_all_iff pp_other_def)

text \<open>The run of all writes of a successful call.\<close>

lemma SetPostProcessor_read:
  assumes "regs_ok r" "SetPostProcessor r phy_addr inWidth inHeigth outWidth outHeight inColor p = Return (0, r')"
    "pp_in_size inWidth inHeigth p = (w, h)"
  obtains hs vs where "pp_hor_scale w outWidth = Some hs" "pp_ver_scale h outHeight = Some vs"
    and "\<And>j. j \<in> set pp_read_ids \<Longrightarrow> \<exists>x. GetRegisterFile r' j = hw.final j
        (hw.final j (hw.final j (hw.final j x (pp_in_regs inWidth inHeigth p @ pp_out_regs phy_addr outWidth outHeight)) hs) vs)
        [(HWIF_PP_PIPELINE_E, u32_of (ppi_enable p))]"
proof -
  define cs where "cs = (if ppi_outFomart p \<le> PP_OUT_FORMAT_ARGB then pp_colour_regs VIDEORANGE CONTRAST SATURATION else Some [])"
  obtain fs where fs: "pp_in_format inColor = Some fs" using assms(2,3) by (cases "pp_in_format inColor") (auto simp: SetPostProcessor_def)
  have "\<exists>ks. cs = Some ks" by (simp add: cs_def pp_colour_regs_some)
  then obtain ks where ks: "cs = Some ks" by blast
  obtain gs where gs: "pp_out_format (ppi_outFomart p) (ppi_shouldDither p) phy_addr = Some gs"
    using assms(2,3) fs ks unfolding cs_def
    by (cases "pp_out_format (ppi_outFomart p) (ppi_shouldDither p) phy_addr") (auto simp: SetPostProcessor_def)
  obtain hs where hs: "pp_hor_scale w outWidth = Some hs"
    using assms(2,3) fs ks gs unfolding cs_def by (cases "pp_hor_scale w outWidth") (auto simp: SetPostProcessor_def)
  obtain vs where vs: "pp_ver_scale h outHeight = Some vs"
    using assms(2,3) fs ks gs hs unfolding cs_def by (cases "pp_ver_scale h outHeight") (auto simp: SetPostProcessor_def)
  define io where "io = pp_in_regs inWidth inHeigth p @ pp_out_regs phy_addr outWidth outHeight"
  define mid where "mid = fs @ pp_range_regs @ ks @ gs @ [(HWIF_ROTATION_MODE, 0)]"
  define fin where "fin = [(HWIF_PP_PIPELINE_E, u32_of (ppi_enable p))]"
  have r': "r' = writes r (pp_bus_regs @ io @ mid @ hs @ vs @ fin)"
    using assms(2,3) fs ks gs hs vs unfolding cs_def io_def mid_def fin_def
    by (simp add: SetPostProcessor_def writes_append [symmetric])
  have ks': "within ks" "list_all (\<lambda>w. pp_other (fst w)) ks"
    using ks within_colour(2) other_stages(3) by (auto simp: cs_def split: if_splits)
  have mid: "list_all (\<lambda>w. pp_other (fst w)) mid"
    using other_stages(1) [OF fs] other_stages(2) [OF gs] ks' other_stages(4,5) by (simp add: mid_def)
  have "within mid" "within fin"
    using within_formats(1) [OF fs] within_formats(2) [OF gs] ks'(1) within_colour(1) unfolding mid_def fin_def
    by (auto simp: pp_ids_def pp_read_ids_def)
  then have "within (pp_bus_regs @ io @ mid @ hs @ vs @ fin)"
    using within_in_regs [of inWidth inHeigth p phy_addr outWidth outHeight] within_scale(1) [OF hs] within_scale(2) [OF vs]
    unfolding io_def by (simp only: set_append image_Un Un_subset_iff)
  note clean = within_clean [OF this]
  have "\<exists>x. GetRegisterFile r' j = hw.final j (hw.final j (hw.final j (hw.final j x io) hs) vs) fin"
    if j: "j \<in> set pp_read_ids" for j
  proof -
    have "GetRegisterFile r' j = hw.final j (GetRegisterFile r j) (pp_bus_regs @ io @ mid @ hs @ vs @ fin)"
      unfolding r' writes_run by (rule hw.rd_run [OF assms(1) read_valid [OF j] clean [OF j]])
    then have "GetRegisterFile r' j =
      hw.final j (hw.final j (hw.final j (hw.final j (hw.final j (GetRegisterFile r j) pp_bus_regs) io) hs) vs) fin"
      by (simp only: final_append other_final [OF mid j])
    then show ?thesis by (rule exI)
  qed
  with hs vs show ?thesis using that unfolding io_def fin_def by blast
qed

section \<open>The fields of the scaler\<close>

lemma cut_uint: "uint v < 2 ^ fwidth j \<Longrightarrow> reg_cut j v = v"
  unfolding reg_cut_def by (rule and_mask_small) (simp only: unat_eq_nat_uint nat_less_numeral_power_cancel_iff)

text \<open>What a direction of the scaler holds for a size x of the input and y of the output.\<close>

definition scaler_set :: "regs \<Rightarrow> nat \<Rightarrow> nat \<Rightarrow> nat \<Rightarrow> int \<Rightarrow> int \<Rightarrow> int \<Rightarrow> bool" where
  "scaler_set r mode ratio invra round x y \<longleftrightarrow>
     GetRegisterFile r mode = (if x < y then 1 else if x > y then 2 else 0) \<and>
     (x < y \<longrightarrow> uint (GetRegisterFile r invra) = 2 ^ 16 * (x - 1) div (y - 1) \<and>
       (y - 1 < 4 * (x - 1) \<longrightarrow> uint (GetRegisterFile r ratio) = 2 ^ 16 * (y - 1) div (x - 1))) \<and>
     (x > y \<longrightarrow> uint (GetRegisterFile r invra) = 2 ^ 16 * y div x + round)"

lemma uint_quotient:
  fixes a b :: u32
  assumes "uint a < 2 ^ 16"
  shows "uint (push_bit 16 a div b) = 2 ^ 16 * uint a div uint b"
proof -
  have "uint (push_bit 16 a) = 2 ^ 16 * uint a"
    using assms by (simp add: push_bit_eq_mult uint_word_ariths)
  then show ?thesis by (simp add: uint_div)
qed

lemma div_less_bound: "0 < a \<Longrightarrow> b < c * a \<Longrightarrow> b div a < (c :: int)"
proof (rule ccontr)
  assume a: "0 < a" "b < c * a" and "\<not> b div a < c"
  then have "c * a \<le> b div a * a" by (intro mult_right_mono) simp_all
  also have "\<dots> \<le> b" using a(1) by (simp add: minus_mod_eq_div_mult [symmetric])
  finally show False using a(2) by simp
qed

lemma up_ratio: "0 < a \<Longrightarrow> b < 4 * a \<Longrightarrow> 2 ^ 16 * b div a < (2 ^ 18 :: int)"
  by (rule div_less_bound) simp_all

lemma down_ratio:
  assumes "0 < b" "b < a" "a < (2 ^ 16 :: int)"
  shows "2 ^ 16 * b div a + 1 < 2 ^ 16"
proof -
  have "2 ^ 16 * b \<le> 2 ^ 16 * (a - 1)" using assms by simp
  also have "\<dots> < (2 ^ 16 - 1) * a" using assms by simp
  finally have "2 ^ 16 * b div a < 2 ^ 16 - 1" using assms by (intro div_less_bound) simp_all
  then show ?thesis by simp
qed

text \<open>The writes of one direction, when its three fields are different and wide enough.\<close>

lemma scale_final:
  assumes "pp_scale_regs mode ratio invra rnd (u32_of (x - 1)) (u32_of (y - 1)) = Some ws"
    and "1 \<le> x" "x < 2 ^ 16" "1 \<le> y" "y < 2 ^ 16" "uint rnd \<le> 1"
    and "fwidth mode = 2" "fwidth ratio = 18" "fwidth invra = 16" "distinct [mode, ratio, invra]"
    and "\<And>j. j \<in> {mode, ratio, invra} \<Longrightarrow> \<exists>z. GetRegisterFile r j = hw.final j z ws"
  shows "scaler_set r mode ratio invra (uint rnd) x y"
proof -
  define i out where "i = u32_of (x - 1)" and "out = u32_of (y - 1)"
  have u: "uint i = x - 1" "uint out = y - 1"
    using uint_below [of x] uint_below [of y] assms(2-5) unfolding i_def out_def by (auto simp: int_size_def)
  have u1: "uint (i + 1) = x" "uint (out + 1) = y" using u assms(2-5) by (simp_all add: uint_word_ariths)
  have lt: "i < out \<longleftrightarrow> x < y" "i > out \<longleftrightarrow> x > y" using u by (simp_all add: word_less_def)
  have ws: "pp_scale_regs mode ratio invra rnd i out = Some ws" using assms(1) unfolding i_def out_def .
  note q = uint_quotient [of out i] uint_quotient [of i out] uint_quotient [of "out + 1" "i + 1"]
  consider "x < y" | "x > y" | "x = y" by linarith
  then show ?thesis
  proof cases
    case 1
    then have w: "ws = [(mode, 1), (ratio, push_bit 16 out div i), (invra, push_bit 16 i div out)]" and "i \<noteq> 0"
      using ws lt by (simp_all add: pp_scale_regs_def split: if_splits)
    have "2 ^ 16 * (x - 1) div (y - 1) < 2 ^ 16" using 1 assms(2-5) by (intro div_less_bound) simp_all
    then have inv: "reg_cut invra (push_bit 16 i div out) = push_bit 16 i div out"
      using q(2) u assms(3,9) by (intro cut_uint) simp
    have rat: "reg_cut ratio (push_bit 16 out div i) = push_bit 16 out div i" if "y - 1 < 4 * (x - 1)"
      using q(1) u assms(5,8) that up_ratio [of "x - 1" "y - 1"] 1 assms(2) by (intro cut_uint) simp
    obtain x1 x2 x3 where "GetRegisterFile r mode = hw.final mode x1 ws" "GetRegisterFile r ratio = hw.final ratio x2 ws"
      "GetRegisterFile r invra = hw.final invra x3 ws" using assms(11) [of mode] assms(11) [of ratio] assms(11) [of invra] by auto
    then have "GetRegisterFile r mode = reg_cut mode 1" "GetRegisterFile r ratio = reg_cut ratio (push_bit 16 out div i)"
      "GetRegisterFile r invra = push_bit 16 i div out" using assms(10) inv by (simp_all add: w)
    then show ?thesis
      using 1 rat assms(3,5,7) q(1,2) u by (simp add: scaler_set_def reg_cut_def mask_eq_exp_minus_1)
  next
    case 2
    then have w: "ws = [(mode, 2), (invra, push_bit 16 (out + 1) div (i + 1) + rnd)]"
      using ws lt by (simp add: pp_scale_regs_def split: if_splits)
    have "2 ^ 16 * y div x + 1 < 2 ^ 16" using down_ratio [of y x] 2 assms(2-5) by simp
    moreover have "0 \<le> 2 ^ 16 * y div x" using assms(2,4) by (simp add: pos_imp_zdiv_nonneg_iff)
    ultimately have v: "uint (push_bit 16 (out + 1) div (i + 1) + rnd) = 2 ^ 16 * y div x + uint rnd"
      "2 ^ 16 * y div x + uint rnd < 2 ^ fwidth invra"
      using q(3) u1 assms(5,6,9) uint_ge_0 [of rnd] by (simp_all add: uint_word_ariths)
    then have inv: "reg_cut invra (push_bit 16 (out + 1) div (i + 1) + rnd) = push_bit 16 (out + 1) div (i + 1) + rnd"
      by (intro cut_uint) simp
    obtain x1 x3 where "GetRegisterFile r mode = hw.final mode x1 ws" "GetRegisterFile r invra = hw.final invra x3 ws"
      using assms(11) [of mode] assms(11) [of invra] by auto
    then have "GetRegisterFile r mode = reg_cut mode 2" "GetRegisterFile r invra = push_bit 16 (out + 1) div (i + 1) + rnd"
      using assms(10) inv by (simp_all add: w)
    then show ?thesis using 2 v assms(7) by (simp add: scaler_set_def reg_cut_def mask_eq_exp_minus_1)
  next
    case 3
    then have w: "ws = [(mode, 0)]" using ws lt by (simp add: pp_scale_regs_def split: if_splits)
    obtain x1 where "GetRegisterFile r mode = hw.final mode x1 ws" using assms(11) [of mode] by auto
    then have "GetRegisterFile r mode = 0" by (simp add: w reg_cut_def)
    then show ?thesis using 3 by (simp add: scaler_set_def)
  qed
qed

lemma uint_cut_small: "0 \<le> x \<Longrightarrow> x < 2 ^ fwidth j \<Longrightarrow> fwidth j \<le> 32 \<Longrightarrow> uint (reg_cut j (u32_of x)) = x"
proof -
  assume x: "0 \<le> x" "x < 2 ^ fwidth j" "fwidth j \<le> 32"
  then have "x < 2 ^ 32" by (meson less_le_trans one_le_numeral power_increasing)
  with x have u: "uint (u32_of x) = x" by (intro uint_u32_of)
  then show ?thesis using cut_uint [of "u32_of x" j] x by simp
qed

lemma odd_u32_of: "odd (u32_of x) \<longleftrightarrow> odd x"
proof -
  have "bit (u32_of x) 0 \<longleftrightarrow> bit x 0" by (simp only: bit_of_int_iff) (simp add: bit_simps)
  then show ?thesis by (simp only: bit_0)
qed

text \<open>The two fields of a size in blocks of 16.\<close>

lemma int_field:
  fixes q :: int
  shows "drop_bit m (q AND push_bit m (mask n)) = q div 2 ^ m mod 2 ^ n" "q AND mask m = q mod 2 ^ m"
proof -
  have "drop_bit m (q AND push_bit m (mask n)) = take_bit n (drop_bit m q)"
    by (rule bit_eqI) (auto simp: bit_simps)
  then show "drop_bit m (q AND push_bit m (mask n)) = q div 2 ^ m mod 2 ^ n"
    by (simp add: take_bit_eq_mod drop_bit_eq_div)
  show "q AND mask m = q mod 2 ^ m" by (simp add: take_bit_eq_mask [symmetric] take_bit_eq_mod)
qed

lemma size_fields_int:
  fixes x :: int
  assumes "0 \<le> x" "x < 2 ^ (m + n + 4)"
  shows "2 ^ m * drop_bit m (x sdiv 16 AND push_bit m (mask n)) + (x sdiv 16 AND mask m) = x div 16"
    "0 \<le> drop_bit m (x sdiv 16 AND push_bit m (mask n))" "drop_bit m (x sdiv 16 AND push_bit m (mask n)) < 2 ^ n"
    "0 \<le> x sdiv 16 AND mask m" "x sdiv 16 AND mask m < 2 ^ m"
proof -
  have q: "x sdiv 16 = x div 16" using assms(1) by (cases "x = 0") (simp_all add: signed_divide_int_def)
  have "x div 16 < 2 ^ n * 2 ^ m" using assms(2) by (intro div_less_bound) (simp_all add: power_add mult.commute)
  then have "x div 16 div 2 ^ m < 2 ^ n" by (intro div_less_bound) simp_all
  then have m: "x div 16 div 2 ^ m mod 2 ^ n = x div 16 div 2 ^ m"
    using assms(1) by (simp add: pos_imp_zdiv_nonneg_iff)
  show "2 ^ m * drop_bit m (x sdiv 16 AND push_bit m (mask n)) + (x sdiv 16 AND mask m) = x div 16"
    unfolding q int_field m by simp
  show "0 \<le> drop_bit m (x sdiv 16 AND push_bit m (mask n))" "drop_bit m (x sdiv 16 AND push_bit m (mask n)) < 2 ^ n"
    "0 \<le> x sdiv 16 AND mask m" "x sdiv 16 AND mask m < 2 ^ m"
    unfolding q int_field by simp_all
qed

text \<open>The size of the input as the four fields give it.\<close>

lemma pp_in_fields:
  assumes "pp_in_size inWidth inHeigth p = (w, h)"
  shows "hw.final HWIF_PP_IN_W_EXT x (pp_in_regs inWidth inHeigth p @ pp_out_regs phy_addr outWidth outHeight)
      = reg_cut HWIF_PP_IN_W_EXT (u32_of (drop_bit 9 (w sdiv 16 AND 0xE00)))"
    "hw.final HWIF_PP_IN_WIDTH x (pp_in_regs inWidth inHeigth p @ pp_out_regs phy_addr outWidth outHeight)
      = reg_cut HWIF_PP_IN_WIDTH (u32_of (w sdiv 16 AND 0x1FF))"
    "hw.final HWIF_PP_IN_H_EXT x (pp_in_regs inWidth inHeigth p @ pp_out_regs phy_addr outWidth outHeight)
      = reg_cut HWIF_PP_IN_H_EXT (u32_of (drop_bit 8 (h sdiv 16 AND 0x700)))"
    "hw.final HWIF_PP_IN_HEIGHT x (pp_in_regs inWidth inHeigth p @ pp_out_regs phy_addr outWidth outHeight)
      = reg_cut HWIF_PP_IN_HEIGHT (u32_of (h sdiv 16 AND 0xFF))"
    "hw.final HWIF_PP_OUT_WIDTH x (pp_in_regs inWidth inHeigth p @ pp_out_regs phy_addr outWidth outHeight)
      = reg_cut HWIF_PP_OUT_WIDTH (u32_of outWidth)"
    "hw.final HWIF_PP_OUT_HEIGHT x (pp_in_regs inWidth inHeigth p @ pp_out_regs phy_addr outWidth outHeight)
      = reg_cut HWIF_PP_OUT_HEIGHT (u32_of outHeight)"
    "hw.final HWIF_PP_OUT_LU_BASE x (pp_in_regs inWidth inHeigth p @ pp_out_regs phy_addr outWidth outHeight)
      = reg_cut HWIF_PP_OUT_LU_BASE phy_addr"
  using assms by (auto simp: pp_in_size_def pp_in_regs_def pp_out_regs_def pp_hor_regs_def pp_ver_regs_def HWIF_defs split: if_splits)

text \<open>The size fields, once each register is known to be last written by the part for input and output.\<close>

lemma pp_size_fields:
  assumes "pp_in_size inWidth inHeigth p = (w, h)" "1 \<le> w" "w < 2 ^ 16" "1 \<le> h" "h < 2 ^ 15"
    "1 \<le> outWidth" "outWidth < 2 ^ 11" "1 \<le> outHeight" "outHeight < 2 ^ 11"
    "\<And>j. j \<in> {HWIF_PP_IN_W_EXT, HWIF_PP_IN_WIDTH, HWIF_PP_IN_H_EXT, HWIF_PP_IN_HEIGHT, HWIF_PP_OUT_WIDTH, HWIF_PP_OUT_HEIGHT, HWIF_PP_OUT_LU_BASE} \<Longrightarrow>
      \<exists>x. GetRegisterFile r' j = hw.final j x (pp_in_regs inWidth inHeigth p @ pp_out_regs phy_addr outWidth outHeight)"
  shows "512 * uint (GetRegisterFile r' HWIF_PP_IN_W_EXT) + uint (GetRegisterFile r' HWIF_PP_IN_WIDTH) = w div 16"
    "256 * uint (GetRegisterFile r' HWIF_PP_IN_H_EXT) + uint (GetRegisterFile r' HWIF_PP_IN_HEIGHT) = h div 16"
    "uint (GetRegisterFile r' HWIF_PP_OUT_WIDTH) = outWidth" "uint (GetRegisterFile r' HWIF_PP_OUT_HEIGHT) = outHeight"
    "GetRegisterFile r' HWIF_PP_OUT_LU_BASE = phy_addr"
proof -
  let ?io = "pp_in_regs inWidth inHeigth p @ pp_out_regs phy_addr outWidth outHeight"
  have masks: "push_bit 9 (mask 3) = (0xE00 :: int)" "mask 9 = (0x1FF :: int)" "push_bit 8 (mask 3) = (0x700 :: int)" "mask 8 = (0xFF :: int)"
    by (simp_all add: mask_eq_exp_minus_1)
  note W = size_fields_int [of w 9 3, unfolded masks] and H' = size_fields_int [of h 8 3, unfolded masks]
  have rd: "GetRegisterFile r' j = reg_cut j v" if "\<And>x. hw.final j x ?io = reg_cut j v"
    "j \<in> {HWIF_PP_IN_W_EXT, HWIF_PP_IN_WIDTH, HWIF_PP_IN_H_EXT, HWIF_PP_IN_HEIGHT, HWIF_PP_OUT_WIDTH, HWIF_PP_OUT_HEIGHT, HWIF_PP_OUT_LU_BASE}" for j v
    using assms(10) [OF that(2)] that(1) by metis
  note rd = rd [OF pp_in_fields(1) [OF assms(1)]] rd [OF pp_in_fields(2) [OF assms(1)]] rd [OF pp_in_fields(3) [OF assms(1)]]
    rd [OF pp_in_fields(4) [OF assms(1)]] rd [OF pp_in_fields(5) [OF assms(1)]] rd [OF pp_in_fields(6) [OF assms(1)]]
    rd [OF pp_in_fields(7) [OF assms(1)]]
  have fields: "uint (GetRegisterFile r' HWIF_PP_IN_W_EXT) = drop_bit 9 (w sdiv 16 AND 0xE00)"
    "uint (GetRegisterFile r' HWIF_PP_IN_WIDTH) = w sdiv 16 AND 0x1FF"
    "uint (GetRegisterFile r' HWIF_PP_IN_H_EXT) = drop_bit 8 (h sdiv 16 AND 0x700)"
    "uint (GetRegisterFile r' HWIF_PP_IN_HEIGHT) = h sdiv 16 AND 0xFF"
    by (subst rd, simp, rule uint_cut_small; use W H' assms(2-5) in \<open>simp add: reg_eval\<close>)+
  have out: "uint (GetRegisterFile r' HWIF_PP_OUT_WIDTH) = outWidth" "uint (GetRegisterFile r' HWIF_PP_OUT_HEIGHT) = outHeight"
    by (subst rd, simp, rule uint_cut_small; use assms(6-9) in \<open>simp add: reg_eval\<close>)+
  have base: "GetRegisterFile r' HWIF_PP_OUT_LU_BASE = phy_addr"
    by (subst rd, simp, rule cut_uint) (use uint_bounded [of phy_addr] in \<open>simp add: reg_eval\<close>)
  show "512 * uint (GetRegisterFile r' HWIF_PP_IN_W_EXT) + uint (GetRegisterFile r' HWIF_PP_IN_WIDTH) = w div 16"
    "256 * uint (GetRegisterFile r' HWIF_PP_IN_H_EXT) + uint (GetRegisterFile r' HWIF_PP_IN_HEIGHT) = h div 16"
    "uint (GetRegisterFile r' HWIF_PP_OUT_WIDTH) = outWidth" "uint (GetRegisterFile r' HWIF_PP_OUT_HEIGHT) = outHeight"
    "GetRegisterFile r' HWIF_PP_OUT_LU_BASE = phy_addr"
    using fields out base W(1) H'(1) assms(2-5) by simp_all
qed

text \<open>
  C38. A call of SetPostProcessor that succeeds has programmed the post-processor for its sizes, up to
  the width of the register fields: the size of the input, after the crop, in blocks of 16; the size
  and the address of the output; per direction whether it is enlarged, reduced or kept, with the
  ratio of the sizes in units of 2 ^ -16 (an enlargement by four or more does not fit its field); and
  whether it runs in the pipeline.
\<close>

theorem SetPostProcessor_programs_sizes:
  assumes "regs_ok r" "SetPostProcessor r phy_addr inWidth inHeigth outWidth outHeight inColor p = Return (0, r')"
    "pp_in_size inWidth inHeigth p = (w, h)" "1 \<le> w" "w < 2 ^ 16" "1 \<le> h" "h < 2 ^ 15"
    "1 \<le> outWidth" "outWidth < 2 ^ 11" "1 \<le> outHeight" "outHeight < 2 ^ 11"
  shows "512 * uint (GetRegisterFile r' HWIF_PP_IN_W_EXT) + uint (GetRegisterFile r' HWIF_PP_IN_WIDTH) = w div 16 \<and>
    256 * uint (GetRegisterFile r' HWIF_PP_IN_H_EXT) + uint (GetRegisterFile r' HWIF_PP_IN_HEIGHT) = h div 16 \<and>
    uint (GetRegisterFile r' HWIF_PP_OUT_WIDTH) = outWidth \<and> uint (GetRegisterFile r' HWIF_PP_OUT_HEIGHT) = outHeight \<and>
    GetRegisterFile r' HWIF_PP_OUT_LU_BASE = phy_addr \<and>
    scaler_set r' HWIF_HOR_SCALE_MODE HWIF_SCALE_WRATIO HWIF_WSCALE_INVRA 0 w outWidth \<and>
    scaler_set r' HWIF_VER_SCALE_MODE HWIF_SCALE_HRATIO HWIF_HSCALE_INVRA 1 h outHeight \<and>
    (GetRegisterFile r' HWIF_PP_PIPELINE_E = 1 \<longleftrightarrow> odd (ppi_enable p))"
proof -
  obtain hs vs where hs: "pp_hor_scale w outWidth = Some hs" and vs: "pp_ver_scale h outHeight = Some vs"
    and read: "\<And>j. j \<in> set pp_read_ids \<Longrightarrow> \<exists>x. GetRegisterFile r' j = hw.final j
        (hw.final j (hw.final j (hw.final j x (pp_in_regs inWidth inHeigth p @ pp_out_regs phy_addr outWidth outHeight)) hs) vs)
        [(HWIF_PP_PIPELINE_E, u32_of (ppi_enable p))]"
    using SetPostProcessor_read [OF assms(1-3)] by metis
  have hids: "fst ` set hs \<subseteq> {HWIF_HOR_SCALE_MODE, HWIF_SCALE_WRATIO, HWIF_WSCALE_INVRA}"
    using hs by (auto simp: pp_hor_scale_def pp_scale_regs_def Let_def split: if_splits)
  have vids: "fst ` set vs \<subseteq> {HWIF_VER_SCALE_MODE, HWIF_SCALE_HRATIO, HWIF_HSCALE_INVRA}"
    using vs by (auto simp: pp_ver_scale_def pp_scale_regs_def Let_def split: if_splits)
  have hz: "\<exists>z. GetRegisterFile r' j = hw.final j z hs" if "j \<in> {HWIF_HOR_SCALE_MODE, HWIF_SCALE_WRATIO, HWIF_WSCALE_INVRA}" for j
  proof -
    have "j \<notin> fst ` set vs" "j \<noteq> HWIF_PP_PIPELINE_E" "j \<in> set pp_read_ids" using that vids by (auto simp: HWIF_defs pp_read_ids_def)
    then show ?thesis using read [of j] by (auto simp: final_other)
  qed
  have vz: "\<exists>z. GetRegisterFile r' j = hw.final j z vs" if "j \<in> {HWIF_VER_SCALE_MODE, HWIF_SCALE_HRATIO, HWIF_HSCALE_INVRA}" for j
  proof -
    have "j \<noteq> HWIF_PP_PIPELINE_E" "j \<in> set pp_read_ids" using that by (auto simp: HWIF_defs pp_read_ids_def)
    then show ?thesis using read [of j] by auto
  qed
  have H: "scaler_set r' HWIF_HOR_SCALE_MODE HWIF_SCALE_WRATIO HWIF_WSCALE_INVRA (uint (0 :: u32)) w outWidth"
    using assms(4,5,8,9) hz by (intro scale_final [OF hs [unfolded pp_hor_scale_def]]) (simp_all add: reg_eval)
  have V: "scaler_set r' HWIF_VER_SCALE_MODE HWIF_SCALE_HRATIO HWIF_HSCALE_INVRA (uint (1 :: u32)) h outHeight"
    using assms(6,7,10,11) vz by (intro scale_final [OF vs [unfolded pp_ver_scale_def]]) (simp_all add: reg_eval)
  let ?io = "pp_in_regs inWidth inHeigth p @ pp_out_regs phy_addr outWidth outHeight"
  have io: "\<exists>x. GetRegisterFile r' j = hw.final j x ?io"
    if "j \<in> {HWIF_PP_IN_W_EXT, HWIF_PP_IN_WIDTH, HWIF_PP_IN_H_EXT, HWIF_PP_IN_HEIGHT, HWIF_PP_OUT_WIDTH, HWIF_PP_OUT_HEIGHT, HWIF_PP_OUT_LU_BASE}" for j
  proof -
    have "j \<notin> fst ` set hs" "j \<notin> fst ` set vs" "j \<noteq> HWIF_PP_PIPELINE_E" "j \<in> set pp_read_ids"
      using that hids vids by (auto simp: HWIF_defs pp_read_ids_def)
    then show ?thesis using read [of j] by (auto simp: final_other)
  qed
  note sizes = pp_size_fields [OF assms(3-11) io]
  have "GetRegisterFile r' HWIF_PP_PIPELINE_E = reg_cut HWIF_PP_PIPELINE_E (u32_of (ppi_enable p))"
    using read [of HWIF_PP_PIPELINE_E] by (auto simp: pp_read_ids_def)
  then have "GetRegisterFile r' HWIF_PP_PIPELINE_E = 1 \<longleftrightarrow> odd (ppi_enable p)"
    by (simp add: reg_eval and_one_eq mod_2_eq_odd odd_u32_of)
  then show ?thesis using H V sizes by simp
qed

lemma SetPostProcessor_programs_sizes_witness:
  "\<exists>r'. SetPostProcessor (replicate DEC_RK70_REGISTERS 0) 4096 640 480 320 960 PP_IN_FORMAT_YUV420SEMI demo_pp = Return (0, r') \<and>
     uint (GetRegisterFile r' HWIF_PP_OUT_WIDTH) = 320 \<and> GetRegisterFile r' HWIF_HOR_SCALE_MODE = 2 \<and>
     uint (GetRegisterFile r' HWIF_WSCALE_INVRA) = 32768 \<and> GetRegisterFile r' HWIF_VER_SCALE_MODE = 1 \<and>
     GetRegisterFile r' HWIF_PP_PIPELINE_E = 1"
proof -
  have size: "pp_in_size 640 480 demo_pp = (640, 480)" by (simp add: pp_in_size_def demo_pp_def)
  have known: "0 \<le> PP_IN_FORMAT_YUV420SEMI" "PP_IN_FORMAT_YUV420SEMI \<le> 8" "ppi_outFomart demo_pp = 5" "ppi_enable demo_pp = 1"
    by (simp_all add: pp_consts demo_pp_def)
  have i: "int_size 640" "int_size 480" "int_size 320" "int_size 960" by (simp_all add: int_size_def)
  obtain r' where r': "SetPostProcessor (replicate DEC_RK70_REGISTERS 0) 4096 640 480 320 960 PP_IN_FORMAT_YUV420SEMI demo_pp = Return (0, r')"
    using SetPostProcessor_outcome [OF size i, of PP_IN_FORMAT_YUV420SEMI "replicate DEC_RK70_REGISTERS 0" 4096] known by auto
  have "regs_ok (replicate DEC_RK70_REGISTERS 0)" by (simp add: regs_ok_def)
  from SetPostProcessor_programs_sizes [OF this r' size] r' show ?thesis
    by (intro exI [of _ r']) (simp add: scaler_set_def known)
qed

end
