(* ===== verification/HwScanTables.thy ===== *)
theory HwScanTables
  imports HwLengths
begin

text \<open>
  The table buffer for a scan of one component in a baseline picture
  (JpegDecWriteTablesNonInterleaved) and for a scan of a progressive picture
  (JpegDecWriteTablesProgressive), both jpegdecinternal.c. The buffer is cleared first; the tables
  are written word by word at fixed offsets.
\<close>

section \<open>Words of the tables\<close>

text \<open>DWLmemset of the first bytes of the buffer.\<close>

definition clear_tables :: "u32 \<Rightarrow> table_writer \<Rightarrow> table_writer writing" where
  "clear_tables n t =
     (let k = unat n div 4 in
      if length (tw_base t) < k then Undefined
      else Continue (t\<lparr>tw_base := replicate k 0 @ drop k (tw_base t)\<rparr>))"

definition set_pos :: "u32 \<Rightarrow> table_writer \<Rightarrow> table_writer" where
  "set_pos p t = t\<lparr>tw_pos := unat p\<rparr>"

text \<open>One quantisation table: sixteen words of four bytes each.\<close>

definition quant_word :: "nat \<Rightarrow> table_writer \<Rightarrow> table_writer writing" where
  "quant_word i t =
     (let b = (\<lambda>k. ucast (tw_tmp t ! (4 * i + k)) :: u32);
          w = push_bit 24 (b 0) OR push_bit 16 (b 1) OR push_bit 8 (b 2) OR b 3
      in put_word w (t\<lparr>tw_word := w\<rparr>))"

definition quant_words :: "JpegDecContainer \<Rightarrow> nat \<Rightarrow> table_writer \<Rightarrow> table_writer writing" where
  "quant_words c j t =
     (if \<not> j < length (fr_component (c_frame c)) then Undefined else
      let t = t\<lparr>tw_tmp := unzigzag (quant_table_of c j) (tw_tmp t)\<rparr>
      in forEach [0..<16] quant_word t)"

text \<open>The loop over the values of a Huffman table; a word is stored with its fourth byte.\<close>

definition store_fourth :: "nat \<Rightarrow> table_writer \<Rightarrow> table_writer writing" where
  "store_fourth j t = (if j mod 4 = 3 then put_word (tw_word t) t else Continue t)"

definition vlc_word :: "VlcTable \<Rightarrow> nat \<Rightarrow> table_writer \<Rightarrow> table_writer writing" where
  "vlc_word v j t =
     (let w = push_bit 8 (tw_word t) in
      if j < unat (vt_tableLength v) then
        (case vt_vals v of
           None \<Rightarrow> Undefined
         | Some vals \<Rightarrow> if j < length vals then store_fourth j (t\<lparr>tw_word := w OR vals ! j\<rparr>) else Undefined)
      else store_fourth j (t\<lparr>tw_word := w\<rparr>))"

definition vlc_words :: "nat \<Rightarrow> VlcTable \<Rightarrow> table_writer \<Rightarrow> table_writer writing" where
  "vlc_words n v = forEach [0..<n] (vlc_word v)"

definition fill_border :: "table_writer \<Rightarrow> table_writer writing" where
  "fill_border = forEach [162..<164] (\<lambda>j t. store_fourth j (t\<lparr>tw_word := push_bit 8 (tw_word t)\<rparr>))"

section \<open>JpegDecWriteTablesNonInterleaved\<close>

text \<open>The offset of the tables when there is one quantisation table instead of three.\<close>

definition table_pos :: "u32 \<Rightarrow> u32 \<Rightarrow> u32" where
  "table_pos count base = base - (if count = 3 then 0 else JPEGDEC_QP_BASE)"

definition NonInterleaved_ac :: "JpegDecContainer \<Rightarrow> nat \<Rightarrow> table_writer \<Rightarrow> table_writer writing" where
  "NonInterleaved_ac c i t =
     (if \<not> i < length (sc_Ta (c_scan c)) then Undefined else
      let v = vlc_ac_of (sc_Ta (c_scan c) ! i) (c_vlc c);
          t = set_pos (table_pos 1 JPEGDEC_AC1_BASE) t
      in andThen (vlc_words 162 v t) fill_border)"

definition NonInterleaved_dc :: "JpegDecContainer \<Rightarrow> nat \<Rightarrow> table_writer \<Rightarrow> table_writer writing" where
  "NonInterleaved_dc c i t =
     (if \<not> i < length (sc_Td (c_scan c)) then Undefined else
      let v = vlc_dc_of (sc_Td (c_scan c) ! i) (c_vlc c);
          t = set_pos (table_pos 1 JPEGDEC_DC1_BASE) t
      in vlc_words 12 v t)"

definition JpegDecWriteTablesNonInterleaved :: "JpegDecContainer \<Rightarrow> u32 list \<Rightarrow> table_writer writing" where
  "JpegDecWriteTablesNonInterleaved c base =
     (let t = \<lparr>tw_base = base, tw_pos = 0, tw_shifter = 0, tw_word = 0, tw_tmp = replicate 64 0\<rparr>;
          first = unat (inf_componentId (c_info c))
      in andThen (clear_tables JPEGDEC_BASELINE_TABLE_SIZE t) (\<lambda>t.
         andThen (quant_words c first t) (\<lambda>t.
         andThen (NonInterleaved_ac c first t) (\<lambda>t.
         andThen (NonInterleaved_dc c first t) (\<lambda>t.
         put_word 0 t)))))"

section \<open>JpegDecWriteTablesProgressive\<close>

definition progressive_first :: "JpegDecContainer \<Rightarrow> nat" where
  "progressive_first c = (if inf_nonInterleaved (c_info c) \<noteq> 0 then unat (inf_componentId (c_info c)) else 0)"

definition progressive_count :: "JpegDecContainer \<Rightarrow> u32" where
  "progressive_count c = (if inf_nonInterleaved (c_info c) \<noteq> 0 then 1 else 3)"

definition Progressive_dc :: "JpegDecContainer \<Rightarrow> nat \<Rightarrow> table_writer \<Rightarrow> table_writer writing" where
  "Progressive_dc c i t =
     (if \<not> i < length (sc_Td (c_scan c)) then Undefined else
      let v = vlc_dc_of (sc_Td (c_scan c) ! i) (c_vlc c);
          base = (if progressive_count c = 3 then
                    (if i = 0 then JPEGDEC_DC1_BASE else if i = 1 then JPEGDEC_DC2_BASE else JPEGDEC_DC3_BASE)
                  else JPEGDEC_DC1_BASE);
          t = set_pos (table_pos (progressive_count c) base) t
      in vlc_words 12 v t)"

definition Progressive_ac :: "JpegDecContainer \<Rightarrow> nat \<Rightarrow> table_writer \<Rightarrow> table_writer writing" where
  "Progressive_ac c i t =
     (if \<not> i < length (sc_Ta (c_scan c)) then Undefined else
      let v = vlc_ac_of (sc_Ta (c_scan c) ! i) (c_vlc c);
          t = set_pos (table_pos (progressive_count c) JPEGDEC_AC1_BASE) t
      in andThen (vlc_words 162 v t) (\<lambda>t. if i = 0 then fill_border t else Continue t))"

definition Progressive_vlc :: "JpegDecContainer \<Rightarrow> nat \<Rightarrow> table_writer \<Rightarrow> table_writer writing" where
  "Progressive_vlc c i t =
     (if sc_Ss (c_scan c) = 0 then Progressive_dc c i t else Progressive_ac c i t)"

definition JpegDecWriteTablesProgressive :: "JpegDecContainer \<Rightarrow> u32 list \<Rightarrow> table_writer writing" where
  "JpegDecWriteTablesProgressive c base =
     (let t = \<lparr>tw_base = base, tw_pos = 0, tw_shifter = 0, tw_word = 0, tw_tmp = replicate 64 0\<rparr>;
          first = progressive_first c;
          components = [first..<first + unat (progressive_count c)]
      in andThen (clear_tables JPEGDEC_PROGRESSIVE_TABLE_SIZE t) (\<lambda>t.
         andThen (forEach components (quant_words c) t) (\<lambda>t.
         if sc_Ah (c_scan c) \<noteq> 0 \<and> sc_Ss (c_scan c) = 0 then Continue t else
         andThen (forEach components (Progressive_vlc c) t) (put_word 0))))"

section \<open>Overwriting a part of a buffer\<close>

definition splice :: "nat \<Rightarrow> u32 list \<Rightarrow> u32 list \<Rightarrow> u32 list" where
  "splice p ws base = take p base @ ws @ drop (p + length ws) base"

lemma splice_nil [simp]: "splice p [] base = base"
  by (simp add: splice_def)

lemma splice_length [simp]: "p + length ws \<le> length base \<Longrightarrow> length (splice p ws base) = length base"
  by (simp add: splice_def)

lemma splice_snoc:
  assumes "p + length ws < length base"
  shows "(splice p ws base)[p + length ws := w] = splice p (ws @ [w]) base"
proof -
  have "drop (p + length ws) base = base ! (p + length ws) # drop (Suc (p + length ws)) base"
    using assms by (simp add: Cons_nth_drop_Suc)
  then show ?thesis using assms by (simp add: splice_def list_update_append)
qed

lemma splice_mid: "length xs = p \<Longrightarrow> length ys = length ws \<Longrightarrow> splice p ws (xs @ ys @ zs) = xs @ ws @ zs"
  by (simp add: splice_def)

lemma pack_app: "4 dvd length xs \<Longrightarrow> pack (xs @ ys) = pack xs @ pack ys"
proof (induction xs rule: pack.induct)
  case (1 a b c d bs)
  then have "4 dvd length bs" by (simp add: dvd_def) presburger
  then show ?case using 1 by simp
qed (simp_all add: nat_dvd_not_less)

lemma pack_zeros: "pack (replicate (4 * n) 0) = replicate n 0"
  by (induction n) (simp_all add: numeral_eq_Suc)

lemma pack_snoc:
  "pack (bs @ [b]) = (if length bs mod 4 = 3 then pack bs @ [be_from 32 (drop (4 * (length bs div 4)) bs @ [b])] else pack bs)"
proof -
  let ?f = "take (4 * (length bs div 4)) bs" and ?p = "drop (4 * (length bs div 4)) bs"
  have f: "4 dvd length ?f" by simp
  have lp: "length ?p = length bs mod 4" by (simp add: minus_mult_div_eq_mod)
  have short: "pack xs = []" if "length xs < 4" for xs
    using that by (cases xs rule: pack.cases) auto
  have p: "pack (bs @ [b]) = pack ?f @ pack (?p @ [b])" "pack bs = pack ?f @ pack ?p"
    using pack_app [OF f, of "?p @ [b]"] pack_app [OF f, of ?p] append_take_drop_id [of "4 * (length bs div 4)" bs]
    by (simp_all flip: append_assoc)
  have m: "length bs mod 4 < 4" by simp
  show ?thesis
  proof (cases "length bs mod 4 = 3")
    case True
    then have "length (?p @ [b]) = 4" using lp by simp
    then have "pack (?p @ [b]) = [be_from 32 (?p @ [b])]" using pack_append [of "[]"] by simp
    then show ?thesis using True p short lp by simp
  next
    case False
    then show ?thesis using p short lp m by simp
  qed
qed

section \<open>Bytes shifted into a word\<close>

definition be_low :: "u8 list \<Rightarrow> u32" where
  "be_low = foldl (\<lambda>w b. push_bit 8 w OR ucast b) 0"

lemma be_low_snoc: "be_low (bs @ [b]) = push_bit 8 (be_low bs) OR ucast b"
  by (simp add: be_low_def)

lemma be_low_four: "length bs = 4 \<Longrightarrow> be_low bs = be_from 32 bs"
proof -
  assume "length bs = 4"
  then obtain a b c d where bs: "bs = [a, b, c, d]" by (auto simp: numeral_eq_Suc length_Suc_conv)
  have "push_bit 8 (push_bit 8 (push_bit 8 (push_bit 8 0 OR ucast a) OR ucast b) OR ucast c) OR ucast d =
      (push_bit 24 (ucast a) OR push_bit 16 (ucast b) OR push_bit 8 (ucast c) OR ucast d :: u32)"
    by (rule bit_eqI) (auto simp: bit_simps)
  then show ?thesis by (simp add: bs be_low_def or.assoc)
qed

lemma shift_in:
  fixes w :: u32 and b :: u8
  shows "take_bit (8 * Suc m) (push_bit 8 w OR ucast b) = push_bit 8 (take_bit (8 * m) w) OR ucast b"
  by (rule bit_eqI) (auto simp: bit_simps dest: bit_imp_le_length)

definition low_ok :: "u32 list \<Rightarrow> nat \<Rightarrow> u8 list \<Rightarrow> table_writer \<Rightarrow> bool" where
  "low_ok base p bs t \<longleftrightarrow> tw_base t = splice p (pack bs) base \<and> tw_pos t = p + length bs div 4 \<and>
     take_bit (8 * (length bs mod 4)) (tw_word t) = be_low (drop (4 * (length bs div 4)) bs)"

lemma low_ok_step:
  fixes b :: u8
  assumes "low_ok base p bs t" "p + (length bs + 1) div 4 \<le> length base"
  shows "\<exists>t'. store_fourth (length bs) (t\<lparr>tw_word := push_bit 8 (tw_word t) OR ucast b\<rparr>) = Continue t' \<and> low_ok base p (bs @ [b]) t' \<and> tw_tmp t' = tw_tmp t"
proof -
  define t1 where "t1 = t\<lparr>tw_word := push_bit 8 (tw_word t) OR ucast b\<rparr>"
  let ?m = "length bs mod 4" and ?p = "drop (4 * (length bs div 4)) bs"
  have lp: "length ?p = ?m" by (simp add: minus_mult_div_eq_mod)
  have w: "take_bit (8 * Suc ?m) (tw_word t1) = be_low (?p @ [b])"
    using assms(1) unfolding shift_in t1_def low_ok_def be_low_snoc by (simp add: shift_in [simplified])
  show ?thesis
  proof (cases "?m = 3")
    case True
    then have d: "(length bs + 1) div 4 = length bs div 4 + 1" "(length bs + 1) mod 4 = 0" by presburger+
    have "take_bit 32 (tw_word t1) = tw_word t1" by (rule take_bit_word_eq_self) simp
    then have "tw_word t1 = be_low (?p @ [b])" using w True by simp
    then have full: "tw_word t1 = be_from 32 (?p @ [b])" using be_low_four [of "?p @ [b]"] lp True by simp
    have "(tw_base t)[tw_pos t := tw_word t1] = splice p (pack (bs @ [b])) base"
      using splice_snoc [of p "pack bs" base] assms(1,2) d full True by (simp add: low_ok_def pack_snoc)
    moreover have "tw_pos t < length (tw_base t)"
      using assms(1,2) d by (simp add: low_ok_def)
    moreover have "drop (4 * ((length bs + 1) div 4)) (bs @ [b]) = []" using d by simp
    ultimately show ?thesis
      using assms(1) True d by (simp add: store_fourth_def put_word_def low_ok_def t1_def be_low_def)
  next
    case False
    have "?m < 4" by simp
    then have d: "(length bs + 1) div 4 = length bs div 4" "(length bs + 1) mod 4 = Suc ?m" using False by presburger+
    have "4 * (length bs div 4) \<le> length bs" by simp
    then have "drop (4 * (length bs div 4)) (bs @ [b]) = ?p @ [b]" by simp
    then have "low_ok base p (bs @ [b]) t1"
      using assms(1) w d False unfolding low_ok_def by (simp add: pack_snoc t1_def)
    then show ?thesis using False by (simp add: store_fourth_def t1_def)
  qed
qed

lemma low_ok_loop:
  assumes "low_ok base p bs t" "m = length bs" "p + (length bs + n) div 4 \<le> length base"
    "\<And>j t. m \<le> j \<Longrightarrow> j < m + n \<Longrightarrow> body j t = store_fourth j (t\<lparr>tw_word := push_bit 8 (tw_word t) OR ucast (f j)\<rparr>)"
  shows "\<exists>t'. forEach [m..<m + n] body t = Continue t' \<and> low_ok base p (bs @ map f [m..<m + n]) t' \<and> tw_tmp t' = tw_tmp t"
  using assms
proof (induction n)
  case (Suc n)
  have "(length bs + n) div 4 \<le> (length bs + Suc n) div 4" by (rule div_le_mono) simp
  then obtain t1 where t1: "forEach [m..<m + n] body t = Continue t1" "low_ok base p (bs @ map f [m..<m + n]) t1"
      "tw_tmp t1 = tw_tmp t"
    using Suc by fastforce
  have "length (bs @ map f [m..<m + n]) = m + n" using Suc.prems(2) by simp
  then show ?case
    using low_ok_step [OF t1(2), of "f (m + n)"] t1(1,3) Suc.prems by (auto simp: forEach_append)
qed simp

section \<open>The layout of the tables of a scan\<close>

text \<open>Huffman values are bytes and as many as the table says.\<close>

definition vlc_bytes_ok :: "VlcTable \<Rightarrow> bool" where
  "vlc_bytes_ok v \<longleftrightarrow> (case vt_vals v of None \<Rightarrow> vt_tableLength v = 0
     | Some vals \<Rightarrow> unat (vt_tableLength v) \<le> length vals \<and> list_all (\<lambda>x. x < 256) vals)"

lemma low_ok_start: "low_ok (tw_base t) (tw_pos t) [] t"
  by (simp add: low_ok_def be_low_def)

lemma ucast_u8: "ucast (ucast x :: u8) = (x AND mask 8 :: u32)"
  by (rule bit_eqI) (auto simp: bit_simps)

lemma vlc_word_byte:
  assumes "vlc_bytes_ok v" "j < n"
  shows "vlc_word v j t = store_fourth j (t\<lparr>tw_word := push_bit 8 (tw_word t) OR ucast (vlc_bytes n v ! j)\<rparr>)"
proof (cases "j < unat (vt_tableLength v)")
  case True
  then obtain vals where v: "vt_vals v = Some vals" "unat (vt_tableLength v) \<le> length vals" "list_all (\<lambda>x. x < 256) vals"
    using assms(1) by (auto simp: vlc_bytes_ok_def split: option.splits)
  have "vals ! j < 256" using v True by (simp add: list_all_length)
  then have "ucast (ucast (vals ! j) :: u8) = vals ! j"
    using and_mask_small [of "vals ! j" 8] ucast_u8 [of "vals ! j"] by (simp add: word_less_nat_alt)
  then show ?thesis using True v assms(2) by (simp add: vlc_word_def vlc_bytes_def)
next
  case False
  then show ?thesis using assms(2) by (simp add: vlc_word_def vlc_bytes_def split: option.split)
qed

lemma vlc_words_ok:
  assumes "vlc_bytes_ok v" "tw_pos t + n div 4 \<le> length (tw_base t)"
  shows "\<exists>t'. vlc_words n v t = Continue t' \<and> low_ok (tw_base t) (tw_pos t) (vlc_bytes n v) t' \<and> tw_tmp t' = tw_tmp t"
proof -
  have "map ((!) (vlc_bytes n v)) [0..<n] = vlc_bytes n v" using map_nth [of "vlc_bytes n v"] by simp
  then show ?thesis
    using low_ok_loop [OF low_ok_start [of t], of 0 n "vlc_word v" "(!) (vlc_bytes n v)"] vlc_word_byte [OF assms(1), of _ n] assms(2)
    by (simp add: vlc_words_def)
qed

lemma ac_words_ok:
  assumes "vlc_bytes_ok v" "tw_pos t + 41 \<le> length (tw_base t)"
  shows "\<exists>t'. andThen (vlc_words 162 v t) fill_border = Continue t' \<and>
    tw_base t' = splice (tw_pos t) (pack (vlc_bytes 162 v @ [0, 0])) (tw_base t) \<and> tw_tmp t' = tw_tmp t \<and>
    tw_pos t' = tw_pos t + 41"
proof -
  obtain t1 where t1: "vlc_words 162 v t = Continue t1" "low_ok (tw_base t) (tw_pos t) (vlc_bytes 162 v) t1"
      "tw_tmp t1 = tw_tmp t"
    using vlc_words_ok [OF assms(1), of t 162] assms(2) by auto
  have "\<exists>t'. forEach [162..<162 + 2] (\<lambda>j t. store_fourth j (t\<lparr>tw_word := push_bit 8 (tw_word t)\<rparr>)) t1 = Continue t' \<and>
      low_ok (tw_base t) (tw_pos t) (vlc_bytes 162 v @ map (\<lambda>_. 0) [162..<162 + 2]) t' \<and> tw_tmp t' = tw_tmp t1"
    by (rule low_ok_loop [OF t1(2)]) (use assms(2) in simp_all)
  moreover have "[162..<164] = [162, 163 :: nat]" by (simp add: upt_rec)
  ultimately show ?thesis using t1 by (auto simp: fill_border_def low_ok_def)
qed

lemma quant_words_ok:
  assumes "j < length (fr_component (c_frame c))" "length (tw_tmp t) = 64" "tw_pos t + 16 \<le> length (tw_base t)"
  shows "\<exists>t'. quant_words c j t = Continue t' \<and> tw_pos t' = tw_pos t + 16 \<and> length (tw_tmp t') = 64 \<and>
    tw_base t' = splice (tw_pos t) (pack (quant_bytes (quant_table_of c j))) (tw_base t)"
proof -
  let ?q = "quant_bytes (quant_table_of c j)"
  let ?t = "t\<lparr>tw_tmp := ?q\<rparr>"
  have q: "unzigzag (quant_table_of c j) (tw_tmp t) = ?q"
    using unzigzag_any [of "tw_tmp t" "replicate 64 0"] assms(2) by (simp add: quant_bytes_def)
  have "\<exists>t'. forEach [0..<n] quant_word ?t = Continue t' \<and> tw_pos t' = tw_pos t + n \<and> tw_tmp t' = ?q \<and>
      tw_base t' = splice (tw_pos t) (pack (take (4 * n) ?q)) (tw_base t)" if "n \<le> 16" for n
    using that
  proof (induction n)
    case (Suc n)
    then obtain s where s: "forEach [0..<n] quant_word ?t = Continue s" "tw_pos s = tw_pos t + n" "tw_tmp s = ?q"
      "tw_base s = splice (tw_pos t) (pack (take (4 * n) ?q)) (tw_base t)" by auto
    let ?b = "[?q ! (4 * n), ?q ! (4 * n + 1), ?q ! (4 * n + 2), ?q ! (4 * n + 3)]"
    have tk: "take (4 * Suc n) ?q = take (4 * n) ?q @ ?b"
      using Suc.prems by (simp add: take_Suc_conv_app_nth numeral_eq_Suc)
    have p: "pack (take (4 * Suc n) ?q) = pack (take (4 * n) ?q) @ [be_from 32 ?b]"
      unfolding tk using Suc.prems by (intro pack_append) simp_all
    have "quant_word n s = put_word (be_from 32 ?b) (s\<lparr>tw_word := be_from 32 ?b\<rparr>)"
      by (simp add: quant_word_def s(3) Let_def or.assoc)
    moreover have "length (pack (take (4 * n) ?q)) = n" using Suc.prems by simp
    ultimately show ?case
      using s Suc.prems assms(3) splice_snoc [of "tw_pos t" "pack (take (4 * n) ?q)" "tw_base t" "be_from 32 ?b"] p
      by (simp add: forEach_append put_word_def)
  qed simp
  from this [of 16] show ?thesis using assms(1) q by (auto simp: quant_words_def Let_def)
qed

lemma clear_ok:
  "unat n div 4 \<le> length (tw_base t) \<Longrightarrow>
   clear_tables n t = Continue (t\<lparr>tw_base := replicate (unat n div 4) 0 @ drop (unat n div 4) (tw_base t)\<rparr>)"
  by (simp add: clear_tables_def Let_def)

lemma table_pos_numbers:
  "unat (table_pos 1 JPEGDEC_AC1_BASE) = 16" "unat (table_pos 1 JPEGDEC_DC1_BASE) = 97"
  "unat (table_pos 3 JPEGDEC_AC1_BASE) = 48" "unat (table_pos 3 JPEGDEC_DC1_BASE) = 129"
  "unat (table_pos 3 JPEGDEC_DC2_BASE) = 132" "unat (table_pos 3 JPEGDEC_DC3_BASE) = 135"
  by (simp_all add: table_pos_def jpeg_consts)

lemma zeros_split: "replicate (a + b) 0 @ xs = replicate a 0 @ replicate b 0 @ xs"
  by (simp add: replicate_add)

lemma pack_parts:
  assumes "4 dvd length a" "4 dvd length b" "4 dvd length c" "4 dvd length d"
  shows "pack (a @ b @ c @ d @ e) = pack a @ pack b @ pack c @ pack d @ pack e"
  using assms by (simp add: pack_app)

definition component_ok :: "JpegDecContainer \<Rightarrow> nat \<Rightarrow> bool" where
  "component_ok c k \<longleftrightarrow> k < length (fr_component (c_frame c)) \<and> k < length (sc_Ta (c_scan c)) \<and> k < length (sc_Td (c_scan c))"

definition ac_of :: "JpegDecContainer \<Rightarrow> nat \<Rightarrow> VlcTable" where
  "ac_of c k = vlc_ac_of (sc_Ta (c_scan c) ! k) (c_vlc c)"

definition dc_of :: "JpegDecContainer \<Rightarrow> nat \<Rightarrow> VlcTable" where
  "dc_of c k = vlc_dc_of (sc_Td (c_scan c) ! k) (c_vlc c)"

text \<open>
  C17. For a scan of component k of a baseline picture JpegDecWriteTablesNonInterleaved fills the
  table buffer with the tables of that component alone, whichever of the four destinations they were
  sent to: its quantisation table, its AC table in 162 bytes, an empty second AC table, its DC table
  in 12 bytes, and zeros up to the end of the 544 bytes; the rest of the buffer keeps its contents.
\<close>

theorem NonInterleaved_layout:
  assumes "k = unat (inf_componentId (c_info c))" "component_ok c k" "vlc_bytes_ok (ac_of c k)" "vlc_bytes_ok (dc_of c k)"
    "136 \<le> length base"
  shows "\<exists>t. JpegDecWriteTablesNonInterleaved c base = Continue t \<and>
    tw_base t = pack (quant_bytes (quant_table_of c k) @ vlc_bytes 162 (ac_of c k) @ replicate 162 0 @
      vlc_bytes 12 (dc_of c k) @ replicate 144 0) @ drop 136 base"
proof -
  let ?q = "pack (quant_bytes (quant_table_of c k))" and ?a = "pack (vlc_bytes 162 (ac_of c k) @ [0, 0])"
    and ?d = "pack (vlc_bytes 12 (dc_of c k))"
  let ?z = "\<lparr>tw_base = base, tw_pos = 0, tw_shifter = 0, tw_word = 0, tw_tmp = replicate 64 0\<rparr>"
  let ?t = "?z\<lparr>tw_base := replicate 136 0 @ drop 136 base\<rparr>"
  have cl: "clear_tables JPEGDEC_BASELINE_TABLE_SIZE ?z = Continue ?t"
    using assms(5) by (simp add: clear_ok jpeg_consts)
  have b0: "tw_base ?t = replicate 16 0 @ replicate 41 0 @ replicate 40 0 @ replicate 3 0 @ replicate 36 0 @ drop 136 base"
    by (simp flip: zeros_split)
  obtain t1 where t1: "quant_words c k ?t = Continue t1" "tw_base t1 = splice 0 ?q (tw_base ?t)" "length (tw_tmp t1) = 64"
    using quant_words_ok [of k c ?t] assms(2,5) by (auto simp: component_ok_def)
  have b1: "tw_base t1 = ?q @ replicate 41 0 @ replicate 40 0 @ replicate 3 0 @ replicate 36 0 @ drop 136 base"
    unfolding t1(2) b0 using splice_mid [of "[]" 0 "replicate 16 0" ?q] by simp
  let ?s = "set_pos (table_pos 1 JPEGDEC_AC1_BASE) t1"
  obtain t2 where t2: "NonInterleaved_ac c k t1 = Continue t2" "tw_base t2 = splice 16 ?a (tw_base t1)"
    using ac_words_ok [OF assms(3), of ?s] assms(2) b1
    by (auto simp: NonInterleaved_ac_def component_ok_def ac_of_def set_pos_def table_pos_numbers)
  have b2: "tw_base t2 = (?q @ ?a @ replicate 40 0) @ replicate 3 0 @ replicate 36 0 @ drop 136 base"
    unfolding t2(2) b1 using splice_mid [of ?q 16 "replicate 41 0" ?a] by simp
  let ?u = "set_pos (table_pos 1 JPEGDEC_DC1_BASE) t2"
  obtain t3 where t3: "NonInterleaved_dc c k t2 = Continue t3" "tw_base t3 = splice 97 ?d (tw_base t2)" "tw_pos t3 = 100"
    using vlc_words_ok [OF assms(4), of ?u 12] assms(2) b2
    by (auto simp: NonInterleaved_dc_def component_ok_def dc_of_def set_pos_def table_pos_numbers low_ok_def)
  have b3: "tw_base t3 = (?q @ ?a @ replicate 40 0 @ ?d) @ replicate 36 0 @ drop 136 base"
    unfolding t3(2) b2 using splice_mid [of "?q @ ?a @ replicate 40 0" 97 "replicate 3 0" ?d] by simp
  have "replicate 36 (0 :: u32) = 0 # replicate 35 0" by (simp add: replicate_Suc [symmetric] del: replicate_Suc)
  then have "put_word 0 t3 = Continue (t3\<lparr>tw_pos := 101\<rparr>)"
    using b3 t3(3) by (simp add: put_word_def list_update_append)
  then have "JpegDecWriteTablesNonInterleaved c base = Continue (t3\<lparr>tw_pos := 101\<rparr>)"
    using assms(1) cl t1(1) t2(1) t3(1) by (simp add: JpegDecWriteTablesNonInterleaved_def Let_def)
  moreover have "pack (quant_bytes (quant_table_of c k) @ vlc_bytes 162 (ac_of c k) @ replicate 162 0 @
      vlc_bytes 12 (dc_of c k) @ replicate 144 0) = ?q @ ?a @ replicate 40 0 @ ?d @ replicate 36 0"
  proof -
    have "replicate 162 (0 :: u8) = [0, 0] @ replicate (4 * 40) 0" using replicate_add [of 2 160 "0 :: u8"] by (simp add: numeral_2_eq_2)
    then have "quant_bytes (quant_table_of c k) @ vlc_bytes 162 (ac_of c k) @ replicate 162 0 @ vlc_bytes 12 (dc_of c k) @ replicate 144 0
      = quant_bytes (quant_table_of c k) @ (vlc_bytes 162 (ac_of c k) @ [0, 0]) @ replicate (4 * 40) 0 @ vlc_bytes 12 (dc_of c k) @ replicate (4 * 36) 0"
      by simp
    also have "pack \<dots> = ?q @ ?a @ pack (replicate (4 * 40) 0) @ ?d @ pack (replicate (4 * 36) 0)"
      by (rule pack_parts) simp_all
    finally show ?thesis by (simp only: pack_zeros)
  qed
  ultimately show ?thesis using b3 by simp
qed

lemma NonInterleaved_layout_witness:
  "\<exists>t. JpegDecWriteTablesNonInterleaved demo_tables (replicate 140 7) = Continue t \<and> drop 136 (tw_base t) = replicate 4 7"
proof -
  have "\<exists>t. JpegDecWriteTablesNonInterleaved demo_tables (replicate 140 7) = Continue t \<and>
    tw_base t = pack (quant_bytes (quant_table_of demo_tables 0) @ vlc_bytes 162 (ac_of demo_tables 0) @ replicate 162 0 @
      vlc_bytes 12 (dc_of demo_tables 0) @ replicate 144 0) @ drop 136 (replicate 140 7)"
    by (rule NonInterleaved_layout)
      (simp_all add: demo_tables_def demo_vlc_def zero_defs component_ok_def ac_of_def dc_of_def vlc_ac_of_def vlc_dc_of_def vlc_bytes_ok_def)
  then show ?thesis by auto
qed

section \<open>The layout of the tables of a progressive scan\<close>

text \<open>The bytes of a Huffman table in a scan of one component k, up to the end of the buffer.\<close>

definition progressive_vlc_bytes :: "JpegDecContainer \<Rightarrow> nat \<Rightarrow> u8 list" where
  "progressive_vlc_bytes c k =
     (if sc_Ss (c_scan c) \<noteq> 0 then
        (if k = 0 then vlc_bytes 162 (ac_of c k) else take 160 (vlc_bytes 162 (ac_of c k)) @ [0, 0]) @ replicate 350 0
      else if sc_Ah (c_scan c) \<noteq> 0 then replicate 512 0
      else replicate 324 0 @ vlc_bytes 12 (dc_of c k) @ replicate 176 0)"

lemma pack_zero_bytes: "4 dvd n \<Longrightarrow> pack (replicate n 0) = replicate (n div 4) 0"
  by (auto simp: pack_zeros dvd_def)

lemma put_zero:
  assumes "tw_base t = xs @ replicate (Suc n) 0 @ ys" "tw_pos t = length xs"
  shows "\<exists>t'. put_word 0 t = Continue t' \<and> tw_base t' = tw_base t"
  using assms by (simp add: put_word_def list_update_append)

lemma pack_short: "4 dvd length xs \<Longrightarrow> length ys < 4 \<Longrightarrow> pack (xs @ ys) = pack xs"
proof (induction xs rule: pack.induct)
  case (1 a b c d bs)
  then have "4 dvd length bs" by (simp add: dvd_def) presburger
  then show ?case using 1 by simp
next
  case "2_1"
  then show ?case by (cases ys rule: pack.cases) simp_all
qed (simp_all add: nat_dvd_not_less)

lemma Progressive_single_quant:
  assumes "component_ok c k" "144 \<le> length base"
  defines "t0 \<equiv> \<lparr>tw_base = replicate 144 0 @ drop 144 base, tw_pos = 0, tw_shifter = 0, tw_word = 0, tw_tmp = replicate 64 0\<rparr>"
  shows "\<exists>t. quant_words c k t0 = Continue t \<and> tw_pos t = 16 \<and>
    tw_base t = pack (quant_bytes (quant_table_of c k)) @ replicate 128 0 @ drop 144 base"
proof -
  have "tw_base t0 = replicate 16 0 @ replicate 128 0 @ drop 144 base"
    by (simp add: t0_def flip: zeros_split)
  then show ?thesis
    using quant_words_ok [of k c t0] assms(1,2) splice_mid [of "[]" 0 "replicate 16 0" "pack (quant_bytes (quant_table_of c k))"]
    by (auto simp: component_ok_def t0_def)
qed

lemma single_positions:
  assumes "inf_nonInterleaved (c_info c) \<noteq> 0"
  shows "unat (table_pos (progressive_count c) JPEGDEC_AC1_BASE) = 16" "unat (table_pos (progressive_count c) JPEGDEC_DC1_BASE) = 97"
    "progressive_count c = 1"
  using assms table_pos_numbers(1,2) by (simp_all add: progressive_count_def)

text \<open>The two kinds of table, each followed by the word that ends it.\<close>

lemma Progressive_single_dc:
  assumes "inf_nonInterleaved (c_info c) \<noteq> 0" "component_ok c k" "vlc_bytes_ok (dc_of c k)" "length q = 16"
    "tw_base t = q @ replicate 128 0 @ ys"
  shows "\<exists>t'. andThen (Progressive_dc c k t) (put_word 0) = Continue t' \<and>
    tw_base t' = q @ replicate 81 0 @ pack (vlc_bytes 12 (dc_of c k)) @ replicate 44 0 @ ys"
proof -
  let ?d = "pack (vlc_bytes 12 (dc_of c k))" and ?u = "set_pos 97 t"
  have b: "tw_base ?u = (q @ replicate 81 0) @ replicate 3 0 @ replicate 44 0 @ ys"
    using assms(5) by (simp add: set_pos_def flip: zeros_split)
  obtain t1 where t1: "vlc_words 12 (dc_of c k) ?u = Continue t1" "tw_base t1 = splice 97 ?d (tw_base ?u)" "tw_pos t1 = 100"
    using vlc_words_ok [OF assms(3), of ?u 12] assms(4) b by (auto simp: low_ok_def set_pos_def)
  have b1: "tw_base t1 = (q @ replicate 81 0 @ ?d) @ replicate (Suc 43) 0 @ ys"
    unfolding t1(2) b using splice_mid [of "q @ replicate 81 0" 97 "replicate 3 0" ?d] assms(4) by simp
  have "set_pos (table_pos (progressive_count c) JPEGDEC_DC1_BASE) t = ?u"
    using single_positions [OF assms(1)] by (simp add: set_pos_def)
  then have "Progressive_dc c k t = Continue t1"
    using assms(2) t1(1) single_positions(3) [OF assms(1)]
    by (simp add: Progressive_dc_def component_ok_def dc_of_def)
  moreover obtain t2 where "put_word 0 t1 = Continue t2" "tw_base t2 = tw_base t1"
    using put_zero [OF b1] t1(3) assms(4) by auto
  ultimately show ?thesis using b1 by simp
qed

lemma Progressive_single_ac:
  assumes "inf_nonInterleaved (c_info c) \<noteq> 0" "component_ok c k" "vlc_bytes_ok (ac_of c k)" "length q = 16"
    "tw_base t = q @ replicate 128 0 @ ys"
  shows "\<exists>t'. andThen (Progressive_ac c k t) (put_word 0) = Continue t' \<and> tw_base t' = q @
    pack ((if k = 0 then vlc_bytes 162 (ac_of c k) else take 160 (vlc_bytes 162 (ac_of c k)) @ [0, 0]) @ [0, 0]) @ replicate 87 0 @ ys"
proof -
  let ?v = "vlc_bytes 162 (ac_of c k)" and ?u = "set_pos 16 t"
  have u: "set_pos (table_pos (progressive_count c) JPEGDEC_AC1_BASE) t = ?u"
    using single_positions [OF assms(1)] by (simp add: set_pos_def)
  show ?thesis
  proof (cases "k = 0")
    case True
    have b: "tw_base ?u = q @ replicate 41 0 @ replicate (Suc 86) 0 @ ys"
      using assms(5) by (simp add: set_pos_def flip: zeros_split replicate_Suc)
    obtain t2 where t2: "andThen (vlc_words 162 (ac_of c k) ?u) fill_border = Continue t2"
      "tw_base t2 = splice 16 (pack (?v @ [0, 0])) (tw_base ?u)" "tw_pos t2 = 57"
      using ac_words_ok [OF assms(3), of ?u] assms(4) b by (auto simp: set_pos_def)
    have b2: "tw_base t2 = (q @ pack (?v @ [0, 0])) @ replicate (Suc 86) 0 @ ys"
      unfolding t2(2) b using splice_mid [of q 16 "replicate 41 0" "pack (?v @ [0, 0])"] assms(4) by simp
    obtain t3 where t3: "put_word 0 t2 = Continue t3" "tw_base t3 = tw_base t2"
      using put_zero [OF b2] t2(3) assms(4) by auto
    have e: "Progressive_ac c k t = Continue t2"
      using True u t2(1) assms(2) by (simp add: Progressive_ac_def component_ok_def ac_of_def)
    show ?thesis using True t3 b2 e by simp
  next
    case False
    have p: "pack ?v = pack (take 160 ?v)"
      using pack_short [of "take 160 ?v" "drop 160 ?v"] by simp
    have b: "tw_base ?u = q @ replicate 40 0 @ replicate (Suc 87) 0 @ ys"
      using assms(5) by (simp add: set_pos_def flip: zeros_split replicate_Suc)
    obtain t1 where t1: "vlc_words 162 (ac_of c k) ?u = Continue t1" "tw_base t1 = splice 16 (pack ?v) (tw_base ?u)" "tw_pos t1 = 56"
      using vlc_words_ok [OF assms(3), of ?u 162] assms(4) b by (auto simp: low_ok_def set_pos_def)
    have b1: "tw_base t1 = (q @ pack ?v) @ replicate (Suc 87) 0 @ ys"
      unfolding t1(2) b using splice_mid [of q 16 "replicate 40 0" "pack ?v"] assms(4) by simp
    obtain t2 where t2: "put_word 0 t1 = Continue t2" "tw_base t2 = tw_base t1"
      using put_zero [OF b1] t1(3) assms(4) by auto
    have "pack (take 160 ?v @ [0, 0, 0, 0]) = pack ?v @ [0]"
      using pack_app [of "take 160 ?v" "[0, 0, 0, 0]"] p by simp
    moreover have "replicate 88 (0 :: u32) = 0 # replicate 87 0"
      by (simp add: replicate_Suc [symmetric] del: replicate_Suc)
    ultimately show ?thesis
      using False u t1(1) t2 b1 assms(2) by (simp add: Progressive_ac_def component_ok_def ac_of_def)
  qed
qed

lemma andThen_last: "andThen r (forEach [] g) = r"
  by (cases r) simp_all

lemma progressive_start:
  assumes "144 \<le> length base"
  shows "clear_tables JPEGDEC_PROGRESSIVE_TABLE_SIZE
      \<lparr>tw_base = base, tw_pos = 0, tw_shifter = 0, tw_word = 0, tw_tmp = replicate 64 0\<rparr> =
    Continue \<lparr>tw_base = replicate 144 0 @ drop 144 base, tw_pos = 0, tw_shifter = 0, tw_word = 0, tw_tmp = replicate 64 0\<rparr>"
  using assms by (simp add: clear_ok jpeg_consts)

text \<open>
  C16. For a scan of component k of a progressive picture JpegDecWriteTablesProgressive fills the
  576 bytes of the table buffer with the quantisation table of the component and, in a first DC
  scan, its DC table at byte 388, in a later DC scan nothing else, in an AC scan its AC table at byte
  64. The last two of the 162 values of the AC table arrive only for component 0: for the others
  they stay in tableWord, because the filling up to the border is done for i = 0 only.
\<close>

theorem Progressive_single_layout:
  assumes "inf_nonInterleaved (c_info c) \<noteq> 0" "k = unat (inf_componentId (c_info c))" "component_ok c k"
    "vlc_bytes_ok (ac_of c k)" "vlc_bytes_ok (dc_of c k)" "144 \<le> length base"
  shows "\<exists>t. JpegDecWriteTablesProgressive c base = Continue t \<and>
    tw_base t = pack (quant_bytes (quant_table_of c k) @ progressive_vlc_bytes c k) @ drop 144 base"
proof -
  let ?q = "pack (quant_bytes (quant_table_of c k))" and ?v = "vlc_bytes 162 (ac_of c k)"
  let ?t0 = "\<lparr>tw_base = replicate 144 0 @ drop 144 base, tw_pos = 0, tw_shifter = 0, tw_word = 0, tw_tmp = replicate 64 0\<rparr>"
  obtain t where t: "quant_words c k ?t0 = Continue t" "tw_base t = ?q @ replicate 128 0 @ drop 144 base"
    using Progressive_single_quant [OF assms(3,6)] by auto
  have one: "progressive_first c = k" "progressive_count c = 1"
    using assms(1,2) by (simp_all add: progressive_first_def progressive_count_def)
  have run: "JpegDecWriteTablesProgressive c base =
      (if sc_Ah (c_scan c) \<noteq> 0 \<and> sc_Ss (c_scan c) = 0 then Continue t else andThen (Progressive_vlc c k t) (put_word 0))"
    using progressive_start [OF assms(6)] t(1) one by (simp add: JpegDecWriteTablesProgressive_def andThen_last)
  have qz: "pack (quant_bytes (quant_table_of c k) @ xs) = ?q @ pack xs" for xs
    by (simp add: pack_app)
  consider "sc_Ss (c_scan c) \<noteq> 0" | "sc_Ss (c_scan c) = 0" "sc_Ah (c_scan c) = 0" | "sc_Ss (c_scan c) = 0" "sc_Ah (c_scan c) \<noteq> 0"
    by blast
  then show ?thesis
  proof cases
    case 1
    let ?w = "if k = 0 then ?v else take 160 ?v @ [0, 0]"
    have "replicate 350 (0 :: u8) = [0, 0] @ replicate 348 0" using replicate_add [of 2 348 "0 :: u8"] by (simp add: numeral_2_eq_2)
    then have "pack (progressive_vlc_bytes c k) = pack ((?w @ [0, 0]) @ replicate 348 0)"
      using 1 by (simp add: progressive_vlc_bytes_def)
    also have "\<dots> = pack (?w @ [0, 0]) @ replicate 87 0"
      by (subst pack_app) (simp_all add: pack_zero_bytes)
    finally show ?thesis
      using Progressive_single_ac [OF assms(1,3,4) _ t(2)] 1 run by (simp add: Progressive_vlc_def qz)
  next
    case 2
    have "pack (progressive_vlc_bytes c k) = replicate 81 0 @ pack (vlc_bytes 12 (dc_of c k)) @ replicate 44 0"
      using 2 by (simp add: progressive_vlc_bytes_def pack_app pack_zero_bytes)
    then show ?thesis
      using Progressive_single_dc [OF assms(1,3,5) _ t(2)] 2 run by (simp add: Progressive_vlc_def qz)
  next
    case 3
    then show ?thesis using run t(2) by (simp add: qz progressive_vlc_bytes_def pack_zero_bytes)
  qed
qed

lemma Progressive_single_layout_witness:
  "\<exists>t. JpegDecWriteTablesProgressive (demo_tables\<lparr>c_info := (c_info demo_tables)\<lparr>inf_nonInterleaved := 1, inf_componentId := 1\<rparr>\<rparr>)
      (replicate 150 7) = Continue t \<and> drop 144 (tw_base t) = replicate 6 7"
proof -
  let ?c = "demo_tables\<lparr>c_info := (c_info demo_tables)\<lparr>inf_nonInterleaved := 1, inf_componentId := 1\<rparr>\<rparr>"
  have "\<exists>t. JpegDecWriteTablesProgressive ?c (replicate 150 7) = Continue t \<and>
    tw_base t = pack (quant_bytes (quant_table_of ?c 1) @ progressive_vlc_bytes ?c 1) @ drop 144 (replicate 150 7)"
    by (rule Progressive_single_layout)
      (simp_all add: demo_tables_def demo_vlc_def zero_defs component_ok_def ac_of_def dc_of_def vlc_ac_of_def vlc_dc_of_def vlc_bytes_ok_def)
  moreover have "length (progressive_vlc_bytes ?c 1) = 512" by (simp add: progressive_vlc_bytes_def)
  ultimately show ?thesis by auto
qed

text \<open>A part of a buffer is overwritten by one quantisation table or one DC table.\<close>

lemma quant_step:
  assumes "component_ok c j" "length (tw_tmp t) = 64" "tw_base t = xs @ replicate 16 0 @ ys" "tw_pos t = length xs"
  shows "\<exists>t'. quant_words c j t = Continue t' \<and> length (tw_tmp t') = 64 \<and>
    tw_base t' = (xs @ pack (quant_bytes (quant_table_of c j))) @ ys \<and> tw_pos t' = length xs + 16"
  using quant_words_ok [of j c t] assms splice_mid [OF refl, of "replicate 16 0" "pack (quant_bytes (quant_table_of c j))" xs ys]
  by (auto simp: component_ok_def)

lemma dc_step:
  assumes "inf_nonInterleaved (c_info c) = 0" "component_ok c j" "vlc_bytes_ok (dc_of c j)" "tw_base t = xs @ replicate 3 0 @ ys"
    "length xs = (if j = 0 then 129 else if j = 1 then 132 else 135)"
  shows "\<exists>t'. Progressive_dc c j t = Continue t' \<and>
    tw_base t' = (xs @ pack (vlc_bytes 12 (dc_of c j))) @ ys \<and> tw_pos t' = length xs + 3"
proof -
  let ?u = "set_pos (table_pos 3 (if j = 0 then JPEGDEC_DC1_BASE else if j = 1 then JPEGDEC_DC2_BASE else JPEGDEC_DC3_BASE)) t"
  have u: "tw_base ?u = xs @ replicate 3 0 @ ys" "tw_pos ?u = length xs"
    using assms(4,5) by (simp_all add: set_pos_def table_pos_numbers)
  have "progressive_count c = 3" using assms(1) by (simp add: progressive_count_def)
  then have "Progressive_dc c j t = vlc_words 12 (dc_of c j) ?u"
    using assms(2) by (simp add: Progressive_dc_def component_ok_def dc_of_def)
  then show ?thesis
    using vlc_words_ok [OF assms(3), of ?u 12] u splice_mid [OF refl, of "replicate 3 0" "pack (vlc_bytes 12 (dc_of c j))" xs ys]
    by (auto simp: low_ok_def)
qed

text \<open>
  For an interleaved DC scan of a progressive picture JpegDecWriteTablesProgressive fills the
  576 bytes of the table buffer with the quantisation tables of the three components and, in the
  first DC scan, with the DC table of each component in its own place at byte 516, where a baseline
  scan has two tables shared by the components. A later DC scan has no Huffman table.
\<close>

theorem Progressive_interleaved_layout:
  assumes "inf_nonInterleaved (c_info c) = 0" "sc_Ss (c_scan c) = 0" "list_all (component_ok c) [0, 1, 2]"
    "list_all (\<lambda>j. vlc_bytes_ok (dc_of c j)) [0, 1, 2]" "144 \<le> length base"
  shows "\<exists>t. JpegDecWriteTablesProgressive c base = Continue t \<and>
    tw_base t = pack (concat (map (quant_bytes \<circ> quant_table_of c) [0, 1, 2]) @
      (if sc_Ah (c_scan c) \<noteq> 0 then replicate 384 0
       else replicate 324 0 @ concat (map (vlc_bytes 12 \<circ> dc_of c) [0, 1, 2]) @ replicate 24 0)) @ drop 144 base"
proof -
  let ?q = "\<lambda>j. pack (quant_bytes (quant_table_of c j))" and ?d = "\<lambda>j. pack (vlc_bytes 12 (dc_of c j))"
  let ?t0 = "\<lparr>tw_base = replicate 144 0 @ drop 144 base, tw_pos = 0, tw_shifter = 0, tw_word = 0, tw_tmp = replicate 64 0\<rparr>"
  have ok: "component_ok c 0" "component_ok c (Suc 0)" "component_ok c 2" "vlc_bytes_ok (dc_of c 0)"
      "vlc_bytes_ok (dc_of c (Suc 0))" "vlc_bytes_ok (dc_of c 2)"
    using assms(3,4) by simp_all
  have b0: "tw_base ?t0 = [] @ replicate 16 0 @ replicate 16 0 @ replicate 16 0 @ replicate 96 0 @ drop 144 base"
    by (simp flip: zeros_split)
  obtain t1 where t1: "quant_words c 0 ?t0 = Continue t1" "length (tw_tmp t1) = 64" "tw_pos t1 = 16"
      "tw_base t1 = ?q 0 @ replicate 16 0 @ replicate 16 0 @ replicate 96 0 @ drop 144 base"
    using quant_step [OF ok(1) _ b0] by auto
  obtain t2 where t2: "quant_words c (Suc 0) t1 = Continue t2" "length (tw_tmp t2) = 64" "tw_pos t2 = 32"
      "tw_base t2 = (?q 0 @ ?q (Suc 0)) @ replicate 16 0 @ replicate 96 0 @ drop 144 base"
    using quant_step [OF ok(2) t1(2,4)] t1(3) by auto
  obtain t3 where t3: "quant_words c 2 t2 = Continue t3"
      "tw_base t3 = (?q 0 @ ?q (Suc 0) @ ?q 2) @ replicate 96 0 @ drop 144 base"
    using quant_step [OF ok(3) t2(2,4)] t2(3) by auto
  have upt: "[0..<3] = [0, Suc 0, 2]" by (simp add: upt_rec)
  have "progressive_first c = 0" "progressive_count c = 3"
    using assms(1) by (simp_all add: progressive_first_def progressive_count_def)
  moreover have "Progressive_vlc c = Progressive_dc c"
    using assms(2) by (simp add: fun_eq_iff Progressive_vlc_def)
  ultimately have run: "JpegDecWriteTablesProgressive c base =
      (if sc_Ah (c_scan c) \<noteq> 0 then Continue t3 else andThen (forEach [0, Suc 0, 2] (Progressive_dc c) t3) (put_word 0))"
    using progressive_start [OF assms(5)] t1(1) t2(1) t3(1) assms(2)
    by (simp add: JpegDecWriteTablesProgressive_def upt)
  show ?thesis
  proof (cases "sc_Ah (c_scan c) = 0")
    case True
    have b3: "tw_base t3 = (?q 0 @ ?q (Suc 0) @ ?q 2 @ replicate 81 0) @ replicate 3 0 @ replicate 3 0 @ replicate 3 0 @ replicate 6 0 @ drop 144 base"
      unfolding t3(2) by (simp flip: zeros_split)
    obtain t4 where t4: "Progressive_dc c 0 t3 = Continue t4"
        "tw_base t4 = (?q 0 @ ?q (Suc 0) @ ?q 2 @ replicate 81 0 @ ?d 0) @ replicate 3 0 @ replicate 3 0 @ replicate 6 0 @ drop 144 base"
      using dc_step [OF assms(1) ok(1,4) b3] by auto
    obtain t5 where t5: "Progressive_dc c (Suc 0) t4 = Continue t5"
        "tw_base t5 = (?q 0 @ ?q (Suc 0) @ ?q 2 @ replicate 81 0 @ ?d 0 @ ?d (Suc 0)) @ replicate 3 0 @ replicate 6 0 @ drop 144 base"
      using dc_step [OF assms(1) ok(2,5) t4(2)] by auto
    obtain t6 where t6: "Progressive_dc c 2 t5 = Continue t6" "tw_pos t6 = 138"
        "tw_base t6 = (?q 0 @ ?q (Suc 0) @ ?q 2 @ replicate 81 0 @ ?d 0 @ ?d (Suc 0) @ ?d 2) @ replicate (Suc 5) 0 @ drop 144 base"
      using dc_step [OF assms(1) ok(3,6) t5(2)] by auto
    obtain t7 where "put_word 0 t6 = Continue t7" "tw_base t7 = tw_base t6"
      using put_zero [OF t6(3)] t6(2) by auto
    then show ?thesis
      using run True t4(1) t5(1) t6 by (simp add: pack_app pack_zero_bytes)
  next
    case False
    then show ?thesis using run t3(2) by (simp add: pack_app pack_zero_bytes)
  qed
qed

lemma Progressive_interleaved_layout_witness:
  "\<exists>t. JpegDecWriteTablesProgressive (demo_tables\<lparr>c_scan := (c_scan demo_tables)\<lparr>sc_Ss := 0, sc_Ah := 0\<rparr>, c_info := (c_info demo_tables)\<lparr>inf_nonInterleaved := 0\<rparr>\<rparr>)
      (replicate 150 7) = Continue t \<and> drop 144 (tw_base t) = replicate 6 7"
proof -
  let ?c = "demo_tables\<lparr>c_scan := (c_scan demo_tables)\<lparr>sc_Ss := 0, sc_Ah := 0\<rparr>, c_info := (c_info demo_tables)\<lparr>inf_nonInterleaved := 0\<rparr>\<rparr>"
  have "\<exists>t. JpegDecWriteTablesProgressive ?c (replicate 150 7) = Continue t \<and>
    tw_base t = pack (concat (map (quant_bytes \<circ> quant_table_of ?c) [0, 1, 2]) @
      (if sc_Ah (c_scan ?c) \<noteq> 0 then replicate 384 0
       else replicate 324 0 @ concat (map (vlc_bytes 12 \<circ> dc_of ?c) [0, 1, 2]) @ replicate 24 0)) @ drop 144 (replicate 150 7)"
    by (rule Progressive_interleaved_layout)
      (simp_all add: demo_tables_def demo_vlc_def zero_defs component_ok_def ac_of_def dc_of_def vlc_ac_of_def vlc_dc_of_def vlc_bytes_ok_def)
  then show ?thesis by auto
qed

end
