(* ===== verification/HwInit.thy ===== *)
theory HwInit
  imports HwScanTables
begin

text \<open>
  Programming the hardware core (jpegdecinternal.c): JpegDecClearStructs, JpegDecInitHW and its
  variants for the next slice, the next part of the input and the next progressive scan,
  JpegDecSetHwStrmParams and JpegFlushRegs. Registers are set in the image jpegRegs through
  rk_SetRegisterFile; JpegFlushRegs copies the image into the message ioctl_info and sends it to the
  driver. VPUClientSendReg is the driver's interface: its result is only logged, so the model keeps
  the messages that were sent.
\<close>

section \<open>The state of the hardware interface\<close>

record hw_state =
  hw_c :: JpegDecContainer
  hw_base :: "u32 list"
  hw_sent :: "JpegdIocRegInfo list"

definition on_c :: "(JpegDecContainer \<Rightarrow> JpegDecContainer) \<Rightarrow> hw_state \<Rightarrow> hw_state" where
  "on_c f h = h\<lparr>hw_c := f (hw_c h)\<rparr>"

text \<open>A routine that writes the table buffer, and one that may be undefined.\<close>

fun with_tables :: "hw_state \<Rightarrow> table_writer writing \<Rightarrow> (unit, hw_state) outcome" where
  "with_tables h (Continue t) = Continue (h\<lparr>hw_base := tw_base t\<rparr>)"
| "with_tables h (Return t) = Continue (h\<lparr>hw_base := tw_base t\<rparr>)"
| "with_tables h Undefined = Undefined"
| "with_tables h OutOfFuel = OutOfFuel"

fun with_c :: "hw_state \<Rightarrow> JpegDecContainer step \<Rightarrow> (unit, hw_state) outcome" where
  "with_c h (Continue c) = Continue (h\<lparr>hw_c := c\<rparr>)"
| "with_c h (Return r) = Continue (h\<lparr>hw_c := snd r\<rparr>)"
| "with_c h Undefined = Undefined"
| "with_c h OutOfFuel = OutOfFuel"

text \<open>ioctl_info.regs has 184 words, the register image 159.\<close>

definition JpegFlushRegs :: "hw_state \<Rightarrow> hw_state" where
  "JpegFlushRegs h =
     (let c = hw_c h;
          i = (c_ioctl_info c)\<lparr>ioc_regs := take DEC_RK70_REGISTERS (c_jpegRegs c) @
                drop DEC_RK70_REGISTERS (ioc_regs (c_ioctl_info c))\<rparr>
      in h\<lparr>hw_c := c\<lparr>c_ioctl_info := i\<rparr>, hw_sent := hw_sent h @ [i]\<rparr>)"

section \<open>JpegDecClearStructs\<close>

definition DEC_RK70_TIMEOUT_LENGTH :: u32 where "DEC_RK70_TIMEOUT_LENGTH = - 1"

definition ClearStructs_stream :: "StreamStorage \<Rightarrow> StreamStorage" where
  "ClearStructs_stream s = s\<lparr>st_thumbnail := 0, st_streamBus := 0, st_pStartOfStream := 0, st_pCurrPos := 0,
     st_bitPosInByte := 0, st_streamLength := 0, st_readBits := 0, st_appnFlag := 0, st_returnSosMarker := 0\<rparr>"

definition ClearStructs_image :: "ImageData \<Rightarrow> ImageData" where
  "ClearStructs_image m = m\<lparr>img_pStartOfImage := 0, img_pLum := 0, img_pCr := 0, img_pCb := 0,
     img_headerReady := 0, img_imageReady := 0, img_ready := 0, img_size := 0, img_sizeLuma := 0,
     img_sizeChroma := 0, img_columns := [0, 0, 0], img_pixelsPerRow := [0, 0, 0]\<rparr>"

definition ClearStructs_frame :: "FrameInfo \<Rightarrow> FrameInfo" where
  "ClearStructs_frame f = f\<lparr>fr_Lf := 0, fr_P := 0, fr_Y := 0, fr_X := 0, fr_hwY := 0, fr_hwX := 0, fr_Nf := 0,
     fr_codingType := 0, fr_numMcuInFrame := 0, fr_numMcuInRow := 0, fr_mcuNumber := 0, fr_Ri := 0,
     fr_row := 0, fr_col := 0, fr_driPeriod := 0, fr_block := 0, fr_cIndex := 0, fr_bufferBus := 0,
     fr_pBuffer := 0, fr_pBufferCb := 0, fr_pBufferCr := 0,
     fr_pTableBase := (fr_pTableBase f)\<lparr>mb_vir_addr := 0, mb_phy_addr := 0\<rparr>,
     fr_numBlocks := [0, 0, 0], fr_blocksPerRow := [0, 0, 0], fr_useAcOffset := [0, 0, 0],
     fr_component := replicate 3 zero_Components\<rparr>"

definition clear_buffer :: "MppBufferInfo \<Rightarrow> MppBufferInfo" where
  "clear_buffer b = b\<lparr>mb_vir_addr := 0, mb_phy_addr := 0, mb_offset := 0\<rparr>"

definition ClearStructs_asic :: "JpegAsicBuffers \<Rightarrow> JpegAsicBuffers" where
  "ClearStructs_asic a = a\<lparr>ab_outLumaBuffer := clear_buffer (ab_outLumaBuffer a),
     ab_outChromaBuffer := clear_buffer (ab_outChromaBuffer a),
     ab_outChromaBuffer2 := clear_buffer (ab_outChromaBuffer2 a)\<rparr>"

definition no_address :: "MppBufferInfo \<Rightarrow> MppBufferInfo" where
  "no_address b = b\<lparr>mb_vir_addr := 0\<rparr>"

definition ClearStructs_buffers :: "DecInfo \<Rightarrow> DecInfo" where
  "ClearStructs_buffers i = i\<lparr>inf_outLuma := no_address (inf_outLuma i), inf_outChroma := no_address (inf_outChroma i),
     inf_outChroma2 := no_address (inf_outChroma2 i), inf_givenOutLuma := no_address (inf_givenOutLuma i),
     inf_givenOutChroma := no_address (inf_givenOutChroma i),
     inf_givenOutChroma2 := no_address (inf_givenOutChroma2 i)\<rparr>"

definition ClearStructs_slice :: "DecInfo \<Rightarrow> DecInfo" where
  "ClearStructs_slice i = i\<lparr>inf_sliceHeight := 0, inf_amountOfQTables := 0, inf_yCbCrMode := 0, inf_yCbCr422 := 0,
     inf_column := 0, inf_X := 0, inf_Y := 0, inf_memSize := 0, inf_SliceCount := 0, inf_SliceMBCutValue := 0,
     inf_pipeline := 0, inf_userAllocMem := 0, inf_sliceStartCount := 0, inf_amountOfSlices := 0,
     inf_noSliceIrqForUser := 0, inf_SliceReadyForPause := 0, inf_sliceLimitReached := 0,
     inf_sliceMbSetValue := 0, inf_timeout := DEC_RK70_TIMEOUT_LENGTH, inf_rlcMode := 0, inf_lumaPos := 0,
     inf_chromaPos := 0, inf_fillRight := 0, inf_fillBottom := 0, inf_streamEnd := 0, inf_streamEndFlag := 0,
     inf_inputBufferEmpty := 0, inf_inputStreaming := 0, inf_inputBufferLen := 0, inf_decodedStreamLen := 0,
     inf_init := 0, inf_initThumb := 0, inf_initBufferSize := 0\<rparr>"

definition ClearStructs_progressive :: "DecInfo \<Rightarrow> DecInfo" where
  "ClearStructs_progressive i = i\<lparr>inf_nonInterleaved := 0, inf_componentId := 0, inf_operationType := 0,
     inf_operationTypeThumb := 0, inf_progressiveScanReady := 0, inf_nonInterleavedScanReady := 0,
     inf_pCoeffBase := (inf_pCoeffBase i)\<lparr>mb_vir_addr := 0, mb_phy_addr := 0\<rparr>, inf_allocated := 0,
     inf_yCbCrModeOrig := 0, inf_getInfoYCbCrMode := 0, inf_progressiveFinish := 0, inf_pfCompId := 0,
     inf_pfNeeded := [0, 0, 0], inf_tmpStrm := no_address (inf_tmpStrm i), inf_components := [0, 0, 0],
     inf_pred := [0, 0, 0], inf_dcRes := [0, 0, 0]\<rparr>"

definition ClearStructs_scan :: "ScanInfo \<Rightarrow> ScanInfo" where
  "ClearStructs_scan s = s\<lparr>sc_Ls := 0, sc_Ns := 0, sc_Ss := 0, sc_Se := 0, sc_Ah := 0, sc_Al := 0, sc_index := 0,
     sc_numIdctRows := 0, sc_Cs := [0, 0, 0], sc_Td := [0, 0, 0], sc_Ta := [0, 0, 0], sc_pred := [0, 0, 0]\<rparr>"

definition no_values :: "VlcTable \<Rightarrow> VlcTable" where
  "no_values v = v\<lparr>vt_tableLength := 0, vt_vals := None\<rparr>"

definition ClearStructs_vlc :: "HuffmanTables \<Rightarrow> HuffmanTables" where
  "ClearStructs_vlc h = h\<lparr>vlc_acTable0 := no_values (vlc_acTable0 h), vlc_acTable1 := no_values (vlc_acTable1 h),
     vlc_acTable2 := no_values (vlc_acTable2 h), vlc_acTable3 := no_values (vlc_acTable3 h),
     vlc_dcTable0 := no_values (vlc_dcTable0 h), vlc_dcTable1 := no_values (vlc_dcTable1 h),
     vlc_dcTable2 := no_values (vlc_dcTable2 h), vlc_dcTable3 := no_values (vlc_dcTable3 h)\<rparr>"

definition JpegDecClearStructs :: "JpegDecContainer \<Rightarrow> JpegDecContainer" where
  "JpegDecClearStructs c = c\<lparr>c_stream := ClearStructs_stream (c_stream c), c_image := ClearStructs_image (c_image c),
     c_frame := ClearStructs_frame (c_frame c), c_asicBuff := ClearStructs_asic (c_asicBuff c),
     c_ppInstance := 0, c_ppControl := (c_ppControl c)\<lparr>pp_usePipeline := 0\<rparr>, c_asicRunning := 0,
     c_minSupportedWidth := 0, c_minSupportedHeight := 0, c_maxSupportedWidth := 0, c_maxSupportedHeight := 0,
     c_maxSupportedPixelAmount := 0, c_maxSupportedSliceSize := 0,
     c_info := ClearStructs_progressive (ClearStructs_slice (ClearStructs_buffers (c_info c))),
     c_scan := ClearStructs_scan (c_scan c), c_vlc := ClearStructs_vlc (c_vlc c)\<rparr>"

section \<open>JpegDecSetHwStrmParams\<close>

text \<open>
  The hardware starts at a multiple of eight bytes: addrTmp is the offset of that position, and the
  bit position grows by eight for each byte that pCurrPos lies behind it (the switch over
  pCurrPos and 7).
\<close>

definition addrTmp :: "StreamStorage \<Rightarrow> u32" where
  "addrTmp s = ((st_pStartOfStream s AND 0x3) + (st_pCurrPos s - st_pStartOfStream s)) AND NOT 7"

definition stream_padding :: "JpegDecContainer \<Rightarrow> u32" where
  "stream_padding c =
     (if fr_Y (c_frame c) mod 16 \<noteq> 0 \<and>
         (inf_yCbCrMode (c_info c) = JPEGDEC_YUV422 \<or> inf_yCbCrMode (c_info c) = JPEGDEC_YUV444 \<or>
          inf_yCbCrMode (c_info c) = JPEGDEC_YUV411) then 100 else 0)"

definition JpegDecSetHwStrmParams :: "JpegDecContainer \<Rightarrow> JpegDecContainer" where
  "JpegDecSetHwStrmParams c =
     (let s = c_stream c;
          c = set_regs [(HWIF_RLC_VLC_BASE, st_streamBus s OR push_bit 10 (addrTmp s))] c;
          s = s\<lparr>st_bitPosInByte := st_bitPosInByte s + 8 * (st_pCurrPos s AND 7)\<rparr>;
          c = set_regs [(HWIF_STRM_START_BIT, st_bitPosInByte s)] c;
          s = s\<lparr>st_pCurrPos := st_pCurrPos s AND NOT 7\<rparr>;
          amountOfStream =
            (if inf_inputStreaming (c_info c) \<noteq> 0
             then inf_inputBufferLen (c_info c) - (st_pCurrPos s - st_pStartOfStream s) + stream_padding c
             else st_streamLength s - (st_pCurrPos s - st_pStartOfStream s));
          c = set_regs [(HWIF_STREAM_LEN, amountOfStream)] c;
          c = c\<lparr>c_stream := s, c_info := (c_info c)\<lparr>inf_streamEnd := 1\<rparr>\<rparr>
      in set_regs [(HWIF_JPEG_STREAM_ALL, inf_streamEnd (c_info c))] c)"

section \<open>JpegDecInitHW\<close>

definition JPEG_RK70_MODE_JPEG :: u32 where "JPEG_RK70_MODE_JPEG = 3"

text \<open>The size of the picture in macroblocks, each dimension split over two fields.\<close>

definition frame_size_regs :: "JpegDecContainer \<Rightarrow> (nat \<times> u32) list" where
  "frame_size_regs c =
     [(HWIF_PIC_MB_W_EXT, drop_bit 9 (drop_bit 4 (inf_X (c_info c)) AND 0xE00)),
      (HWIF_PIC_MB_WIDTH, drop_bit 4 (inf_X (c_info c)) AND 0x1FF),
      (HWIF_PIC_MB_H_EXT, drop_bit 8 (drop_bit 4 (inf_Y (c_info c)) AND 0x700)),
      (HWIF_PIC_MB_HEIGHT_P, drop_bit 4 (inf_Y (c_info c)) AND 0x0FF)]"

definition scan_regs :: "JpegDecContainer \<Rightarrow> (nat \<times> u32) list" where
  "scan_regs c =
     [(HWIF_PJPEG_E, if inf_operationType (c_info c) \<noteq> JPEGDEC_PROGRESSIVE then 0 else 1),
      (HWIF_PJPEG_SS, sc_Ss (c_scan c)), (HWIF_PJPEG_SE, sc_Se (c_scan c)),
      (HWIF_PJPEG_AH, sc_Ah (c_scan c)), (HWIF_PJPEG_AL, sc_Al (c_scan c))]"

definition InitHW_picture :: "JpegDecContainer \<Rightarrow> JpegDecContainer" where
  "InitHW_picture c =
     (let i = c_info c
      in set_regs ([(HWIF_DEC_TIMEOUT_E, 1)] @ frame_size_regs c @
        [(HWIF_DEC_MODE, JPEG_RK70_MODE_JPEG), (HWIF_DEC_OUT_DIS, 0), (HWIF_FILTERING_DIS, 1),
         (HWIF_JPEG_QTABLES, inf_amountOfQTables i), (HWIF_JPEG_MODE, inf_yCbCrMode i),
         (HWIF_RLC_MODE_E, inf_rlcMode i), (HWIF_JPEG_FILRIGHT_E, inf_fillRight i),
         (HWIF_PJPEG_FILDOWN_E, inf_fillBottom i), (HWIF_JPEG_SLICE_H, inf_sliceHeight i)] @ scan_regs c) c)"

text \<open>The coefficient buffers of a progressive picture; the loop over numBlocks reads three elements.\<close>

definition progressive_coefficients :: "JpegDecContainer \<Rightarrow> JpegDecContainer step" where
  "progressive_coefficients c =
     (let i = c_info c; blocks = (\<lambda>k. JPEGDEC_COEFF_SIZE * fr_numBlocks (c_frame c) ! k);
          coeffBuffer = mb_phy_addr (inf_pCoeffBase i)
      in if inf_operationType i = JPEGDEC_PROGRESSIVE then
           (if inf_nonInterleaved i \<noteq> 0 then
              (if length (fr_numBlocks (c_frame c)) < unat (inf_componentId i) then Undefined
               else Continue (set_regs
                 [(HWIF_PJPEG_COEFF_BUF, coeffBuffer + sum_list (map blocks [0..<unat (inf_componentId i)])),
                  (HWIF_DEC_OUT_DIS, 0)] c))
            else if length (fr_numBlocks (c_frame c)) < 2 then Undefined
            else Continue (set_regs
              [(HWIF_PJPEG_COEFF_BUF, coeffBuffer), (HWIF_PJPEG_DCCB_BASE, coeffBuffer + blocks 0),
               (HWIF_PJPEG_DCCR_BASE, coeffBuffer + blocks 0 + blocks 1), (HWIF_DEC_OUT_DIS, 1)] c))
         else Continue c)"

text \<open>The code length counts and the table buffer for the type of the scan.\<close>

definition InitHW_tables :: "hw_state \<Rightarrow> (unit, hw_state) outcome" where
  "InitHW_tables h =
     (let op = inf_operationType (c_info (hw_c h)) in
      if op = JPEGDEC_BASELINE then
        (let h = on_c JpegDecWriteLenBits h
         in with_tables h (JpegDecWriteTables (hw_c h) (hw_base h)))
      else if op = JPEGDEC_NONINTERLEAVED then
        andThen (with_c h (JpegDecWriteLenBitsNonInterleaved (hw_c h))) (\<lambda>h.
          with_tables h (JpegDecWriteTablesNonInterleaved (hw_c h) (hw_base h)))
      else
        (let h = on_c JpegDecWriteLenBitsProgressive h
         in with_tables h (JpegDecWriteTablesProgressive (hw_c h) (hw_base h))))"

definition table_base_regs :: "JpegDecContainer \<Rightarrow> (nat \<times> u32) list" where
  "table_base_regs c = [(HWIF_QTABLE_BASE, mb_phy_addr (fr_pTableBase (c_frame c)))]"

definition InitHW_restart :: "JpegDecContainer \<Rightarrow> JpegDecContainer" where
  "InitHW_restart c =
     (if fr_Ri (c_frame c) \<noteq> 0
      then set_regs [(HWIF_SYNC_MARKER_E, 1), (HWIF_PJPEG_REST_FREQ, fr_Ri (c_frame c))] c
      else set_regs [(HWIF_SYNC_MARKER_E, 0)] c)"

definition component_output :: "JpegDecContainer \<Rightarrow> u32" where
  "component_output c =
     (let a = c_asicBuff c in
      if inf_componentId (c_info c) = 0 then mb_phy_addr (ab_outLumaBuffer a)
      else if inf_componentId (c_info c) = 1 then mb_phy_addr (ab_outChromaBuffer a)
      else mb_phy_addr (ab_outChromaBuffer2 a))"

definition InitHW_output :: "JpegDecContainer \<Rightarrow> JpegDecContainer" where
  "InitHW_output c =
     (let a = c_asicBuff c; chroma = img_sizeChroma (c_image c) \<noteq> 0 in
      if c_ppInstance c \<noteq> 0 \<and> pp_usePipeline (c_ppControl c) \<noteq> 0 then
        c_info_update (\<lambda>i. i\<lparr>inf_pipeline := 1\<rparr>)
          (set_regs ([(HWIF_DEC_OUT_DIS, 1), (HWIF_DEC_OUT_BASE, 0)] @
             (if chroma then [(HWIF_JPG_CH_OUT_BASE, 0)] else [])) c)
      else
        c_info_update (\<lambda>i. i\<lparr>inf_pipeline := 0\<rparr>)
          (if inf_operationType (c_info c) = JPEGDEC_BASELINE then
             set_regs ([(HWIF_DEC_OUT_BASE, mb_phy_addr (ab_outLumaBuffer a))] @
               (if chroma then [(HWIF_JPG_CH_OUT_BASE, mb_phy_addr (ab_outChromaBuffer a) AND 0x3FF)] else [])) c
           else set_regs [(HWIF_DEC_OUT_BASE, component_output c)] c))"

definition InitHW_enable :: "JpegDecContainer \<Rightarrow> JpegDecContainer" where
  "InitHW_enable c =
     set_regs [(HWIF_DEC_E, 1)] (c\<lparr>c_info := (c_info c)\<lparr>inf_sliceStartCount := 1\<rparr>, c_asicRunning := 1\<rparr>)"

definition JpegDecInitHW :: "hw_state \<Rightarrow> (unit, hw_state) outcome" where
  "JpegDecInitHW h =
     andThen (with_c h (progressive_coefficients (InitHW_picture (hw_c h)))) (\<lambda>h.
     andThen (InitHW_tables h) (\<lambda>h.
       let h = on_c JpegDecChromaTableSelectors h;
           h = on_c (\<lambda>c. set_regs (table_base_regs c) c) h;
           h = on_c JpegDecSetHwStrmParams h;
           h = on_c InitHW_restart h;
           h = on_c InitHW_output h;
           h = on_c InitHW_enable h
       in Continue (JpegFlushRegs h)))"

section \<open>JpegDecInitHWContinue\<close>

definition given_output :: "JpegDecContainer \<Rightarrow> JpegAsicBuffers \<Rightarrow> JpegAsicBuffers" where
  "given_output c a =
     (let i = c_info c in a\<lparr>
       ab_outLumaBuffer := (ab_outLumaBuffer a)\<lparr>mb_vir_addr := mb_vir_addr (inf_givenOutLuma i),
         mb_phy_addr := mb_phy_addr (inf_givenOutLuma i)\<rparr>,
       ab_outChromaBuffer := (ab_outChromaBuffer a)\<lparr>mb_vir_addr := mb_vir_addr (inf_givenOutChroma i),
         mb_phy_addr := mb_phy_addr (inf_givenOutChroma i)\<rparr>\<rparr>)"

definition HWContinue_count :: "JpegDecContainer \<Rightarrow> JpegDecContainer" where
  "HWContinue_count c =
     (let c = c\<lparr>c_info := (c_info c)\<lparr>inf_amountOfSlices := inf_amountOfSlices (c_info c) + 1\<rparr>\<rparr>
      in if c_ppInstance c = 0 \<and> inf_userAllocMem (c_info c) = 1 \<and> inf_sliceStartCount (c_info c) > 0
         then c\<lparr>c_asicBuff := given_output c (c_asicBuff c)\<rparr> else c)"

definition HWContinue_output :: "JpegDecContainer \<Rightarrow> JpegDecContainer" where
  "HWContinue_output c =
     (if c_ppInstance c = 0 then
        c_info_update (\<lambda>i. i\<lparr>inf_pipeline := 0\<rparr>)
          (set_regs ([(HWIF_DEC_OUT_BASE, mb_phy_addr (ab_outLumaBuffer (c_asicBuff c)))] @
             (if img_sizeChroma (c_image c) \<noteq> 0
              then [(HWIF_JPG_CH_OUT_BASE, mb_phy_addr (ab_outChromaBuffer (c_asicBuff c)))] else [])) c)
      else c)"

text \<open>The positions of the slice in the picture when the post-processor reads it from memory.\<close>

definition slice_lumaPos :: "DecInfo \<Rightarrow> u32" where
  "slice_lumaPos i = inf_X i * (inf_sliceMbSetValue i * 16)"

definition slice_chromaPos :: "DecInfo \<Rightarrow> u32" where
  "slice_chromaPos i =
     (if inf_yCbCrMode i = JPEGDEC_YUV420 then inf_X i * (inf_sliceMbSetValue i * 8)
      else if inf_yCbCrMode i = JPEGDEC_YUV422 then inf_X i * (inf_sliceMbSetValue i * 16)
      else if inf_yCbCrMode i = JPEGDEC_YUV440 then inf_X i * (inf_sliceMbSetValue i * 16)
      else 0)"

definition HWContinue_position :: "JpegDecContainer \<Rightarrow> JpegDecContainer" where
  "HWContinue_position c =
     (if c_ppInstance c \<noteq> 0 \<and> pp_usePipeline (c_ppControl c) = 0 then
        (let i = c_info c;
             luma = slice_lumaPos i * inf_amountOfSlices i;
             chroma = (if slice_chromaPos i \<noteq> 0 then slice_chromaPos i * inf_amountOfSlices i else 0);
             c = c\<lparr>c_info := i\<lparr>inf_lumaPos := luma, inf_chromaPos := chroma\<rparr>\<rparr>
         in c_info_update (\<lambda>i. i\<lparr>inf_pipeline := 0\<rparr>)
              (set_regs ([(HWIF_DEC_OUT_BASE, mb_phy_addr (ab_outLumaBuffer (c_asicBuff c)) + luma)] @
                (if img_sizeChroma (c_image c) \<noteq> 0
                 then [(HWIF_JPG_CH_OUT_BASE, mb_phy_addr (ab_outChromaBuffer (c_asicBuff c)) + chroma)] else [])) c))
      else c)"

definition JpegDecInitHWContinue :: "hw_state \<Rightarrow> hw_state" where
  "JpegDecInitHWContinue h =
     (let h = on_c HWContinue_count h;
          h = on_c (\<lambda>c. set_regs [(HWIF_DEC_SLICE_INT, 0), (HWIF_JPEG_STREAM_ALL, inf_streamEnd (c_info c))] c) h;
          h = on_c HWContinue_output h;
          h = on_c HWContinue_position h;
          h = on_c (\<lambda>c. set_regs [(HWIF_JPEG_SLICE_H, inf_sliceHeight (c_info c))] c) h
      in JpegFlushRegs h)"

section \<open>JpegDecInitHWInputBuffLoad\<close>

definition JpegDecInitHWInputBuffLoad :: "hw_state \<Rightarrow> hw_state" where
  "JpegDecInitHWInputBuffLoad h =
     (let c = hw_c h;
          c = set_regs (frame_size_regs c) c;
          c = set_regs [(HWIF_STRM_START_BIT, st_bitPosInByte (c_stream c))] c;
          c = (if inf_decodedStreamLen (c_info c) \<ge> st_streamLength (c_stream c)
               then c\<lparr>c_info := (c_info c)\<lparr>inf_streamEnd := 1\<rparr>\<rparr> else c);
          c = set_regs [(HWIF_STREAM_LEN, inf_inputBufferLen (c_info c)),
                (HWIF_JPEG_STREAM_ALL, inf_streamEnd (c_info c)), (HWIF_RLC_VLC_BASE, st_streamBus (c_stream c))] c
      in JpegFlushRegs (h\<lparr>hw_c := c\<rparr>))"

section \<open>JpegDecInitHWProgressiveContinue\<close>

definition given_output2 :: "JpegDecContainer \<Rightarrow> JpegDecContainer" where
  "given_output2 c =
     (if c_ppInstance c = 0 \<and> inf_userAllocMem (c_info c) = 1 then
        (let a = given_output c (c_asicBuff c); g = inf_givenOutChroma2 (c_info c)
         in c\<lparr>c_asicBuff := a\<lparr>ab_outChromaBuffer2 := (ab_outChromaBuffer2 a)\<lparr>
              mb_vir_addr := mb_vir_addr g, mb_phy_addr := mb_phy_addr g\<rparr>\<rparr>\<rparr>)
      else c)"

definition ProgressiveContinue_scan :: "JpegDecContainer \<Rightarrow> JpegDecContainer" where
  "ProgressiveContinue_scan c =
     (let i = c_info c
      in set_regs ([(HWIF_JPEG_MODE, inf_yCbCrMode i)] @ frame_size_regs c @
        [(HWIF_PJPEG_WDIV8, inf_fillX i),
         (HWIF_JPEG_FILRIGHT_E, if inf_fillX i \<noteq> 0 \<or> inf_fillRight i \<noteq> 0 then 1 else 0),
         (HWIF_PJPEG_HDIV8, inf_fillY i),
         (HWIF_PJPEG_FILDOWN_E, if inf_fillY i \<noteq> 0 \<or> inf_fillBottom i \<noteq> 0 then 1 else 0)] @ scan_regs c) c)"

definition ProgressiveContinue_restart :: "JpegDecContainer \<Rightarrow> JpegDecContainer" where
  "ProgressiveContinue_restart c =
     (if fr_Ri (c_frame c) \<noteq> 0
      then set_regs [(HWIF_SYNC_MARKER_E, 1), (HWIF_REFER13_BASE, fr_Ri (c_frame c))] c
      else set_regs [(HWIF_SYNC_MARKER_E, 0)] c)"

definition ProgressiveContinue_slice :: "JpegDecContainer \<Rightarrow> JpegDecContainer" where
  "ProgressiveContinue_slice c =
     (if inf_sliceMbSetValue (c_info c) \<noteq> 0 then set_regs [(HWIF_JPEG_SLICE_H, inf_sliceHeight (c_info c))] c else c)"

definition JpegDecInitHWProgressiveContinue :: "hw_state \<Rightarrow> (unit, hw_state) outcome" where
  "JpegDecInitHWProgressiveContinue h =
     (let c = given_output2 (hw_c h);
          c = set_regs [(HWIF_DEC_OUT_BASE, component_output c)] c;
          c = c_info_update (\<lambda>i. i\<lparr>inf_pipeline := 0\<rparr>) c;
          c = JpegDecSetHwStrmParams c;
          c = ProgressiveContinue_scan c
      in andThen (with_c h (progressive_coefficients c)) (\<lambda>h.
         let h = on_c JpegDecWriteLenBitsProgressive h
         in andThen (with_tables h (JpegDecWriteTablesProgressive (hw_c h) (hw_base h))) (\<lambda>h.
           let h = on_c JpegDecChromaTableSelectors h;
               h = on_c (\<lambda>c. set_regs (table_base_regs c @ [(HWIF_JPEG_QTABLES, inf_amountOfQTables (c_info c))]) c) h;
               h = on_c ProgressiveContinue_slice h;
               h = on_c ProgressiveContinue_restart h;
               h = on_c (\<lambda>c. set_regs [(HWIF_DEC_E, 1)] (c\<lparr>c_asicRunning := 1\<rparr>)) h
           in Continue (JpegFlushRegs h))))"

section \<open>Where the hardware starts to read\<close>

lemma unat_and_small:
  "unat (x AND 7 :: u32) = unat x mod 8" "unat (x AND 3 :: u32) = unat x mod 4"
proof -
  have "unat (x AND mask n :: u32) = unat x mod 2 ^ n" for n
    by (simp add: take_bit_eq_mask [symmetric] take_bit_eq_mod [symmetric] unsigned_take_bit_eq)
  from this [of 3] this [of 2] show "unat (x AND 7) = unat x mod 8" "unat (x AND 3) = unat x mod 4"
    by (simp_all add: mask_eq_exp_minus_1)
qed

lemma unat_and_not_7: "unat (x AND NOT 7 :: u32) = 8 * (unat x div 8)"
proof -
  have m: "NOT 7 = NOT (mask 3 :: u32)" by (simp add: mask_eq_exp_minus_1)
  have "x AND NOT 7 = push_bit 3 (drop_bit 3 x)"
    unfolding m by (rule bit_word_eqI) (auto simp: bit_simps)
  moreover have "unat x div 8 * 8 < 2 ^ 32"
    using u32_lt [of x] by (simp add: less_mult_imp_div_less)
  ultimately show ?thesis
    by (simp add: push_bit_eq_mult drop_bit_eq_div unat_word_ariths unat_div)
qed

lemma unat_minus: "unat y \<le> unat x \<Longrightarrow> unat (x - y :: u32) = unat x - unat y"
  by (simp add: unat_sub word_le_nat_alt)

lemma and_mask_32: "(x :: u32) AND mask 32 = x"
  by (simp add: take_bit_eq_mask [symmetric] take_bit_word_eq_self)

lemma and_mask_below: "unat (x :: u32) < 2 ^ n \<Longrightarrow> x AND mask n = x"
  by (simp add: take_bit_eq_mask [symmetric] word_unat_eq_iff unsigned_take_bit_eq take_bit_nat_eq_self_iff)

lemma or_shifted:
  fixes x y :: u32
  assumes "x < 1024" "unat y < 2 ^ 22"
  shows "unat (x OR push_bit 10 y) = 1024 * unat y + unat x"
proof -
  have "unat x < 2 ^ 10" using assms(1) by (simp add: word_less_nat_alt)
  then have "x = take_bit 10 x"
    by (simp add: word_unat_eq_iff unsigned_take_bit_eq take_bit_nat_eq_self)
  then have "x AND push_bit 10 y = 0"
    by (metis (no_types, lifting) bit_and_iff bit_push_bit_iff bit_take_bit_iff bit_eqI bit_0_eq bot_apply bot_bool_def not_le)
  then have "x OR push_bit 10 y = x + push_bit 10 y"
    by (simp add: disjunctive_add_eq_or)
  then show ?thesis using assms by (simp add: push_bit_eq_mult unat_word_ariths word_less_nat_alt)
qed

lemma aligned_offset:
  fixes a p :: nat
  assumes "a \<le> p"
  shows "8 * ((a mod 8 + (p - a)) div 8) + (a - a mod 8) = 8 * (p div 8)"
proof -
  have p: "p = 8 * (a div 8) + (a mod 8 + (p - a))" using assms by simp
  have "(8 * (a div 8) + n) div 8 = a div 8 + n div 8" for n by simp
  then have "p div 8 = a div 8 + (a mod 8 + (p - a)) div 8" using p by metis
  then show ?thesis by (simp add: minus_mod_eq_mult_div)
qed

lemma bits_of_bytes: "8 * (8 * (n div 8)) + (b + 8 * (n mod 8)) = 8 * n + (b :: nat)"
proof -
  have "8 * q + m = n \<Longrightarrow> 8 * (8 * q) + (b + 8 * m) = 8 * n + b" for q m by simp
  then show ?thesis using mult_div_mod_eq [of 8 n] by blast
qed

text \<open>
  C15. JpegDecSetHwStrmParams hands the position of the bit reader to the hardware exactly. The base
  address has the buffer in its low ten bits and above them an offset in bytes, counted from the last
  multiple of eight before the stream; offset and start bit together are the position of the next
  bit, and the length reaches to the end of the stream. This holds for a stream that starts in the
  lower half of eight bytes (addrTmp keeps only two bits of the start address) and after at least
  eight bytes of header.
\<close>

theorem SetHwStrmParams_keeps_position:
  assumes "regs_ok (c_jpegRegs c)" "s = c_stream c" "start = unat (st_pStartOfStream s)" "pos = unat (st_pCurrPos s)"
    "len = unat (st_streamLength s)" "inf_inputStreaming (c_info c) = 0"
    "start mod 8 < 4" "start + 8 \<le> pos" "pos \<le> start + len" "len < 2 ^ 24" "pos < start + 2 ^ 22 - 8"
    "st_bitPosInByte s < 8" "st_streamBus s < 1024"
  defines "r \<equiv> c_jpegRegs (JpegDecSetHwStrmParams c)"
  shows "\<exists>off. unat (GetRegisterFile r HWIF_RLC_VLC_BASE) = 1024 * off + unat (st_streamBus s) \<and>
    8 * off + unat (GetRegisterFile r HWIF_STRM_START_BIT) = 8 * (start mod 8 + (pos - start)) + unat (st_bitPosInByte s) \<and>
    off + unat (GetRegisterFile r HWIF_STREAM_LEN) = start mod 8 + len \<and>
    GetRegisterFile r HWIF_JPEG_STREAM_ALL = 1"
proof -
  let ?bit = "st_bitPosInByte s + 8 * (st_pCurrPos s AND 7)"
  let ?cur = "st_pCurrPos s AND NOT 7"
  let ?len = "st_streamLength s - (?cur - st_pStartOfStream s)"
  let ?base = "st_streamBus s OR push_bit 10 (addrTmp s)"
  let ?ws = "[(HWIF_RLC_VLC_BASE, ?base), (HWIF_STRM_START_BIT, ?bit), (HWIF_STREAM_LEN, ?len), (HWIF_JPEG_STREAM_ALL, 1)]"
  have r: "r = writes (c_jpegRegs c) ?ws"
    using assms(2,6) by (simp add: r_def JpegDecSetHwStrmParams_def set_regs_def Let_def flip: writes_append)
  have v: "GetRegisterFile r HWIF_RLC_VLC_BASE = ?base" "GetRegisterFile r HWIF_STRM_START_BIT = ?bit AND mask 6"
      "GetRegisterFile r HWIF_STREAM_LEN = ?len AND mask 24" "GetRegisterFile r HWIF_JPEG_STREAM_ALL = 1"
    unfolding r by (simp_all add: read_writes [OF assms(1)] hw.final_def hw.clean_def reg_valid_def hwDecRegSpec_length reg_eval and_mask_32)
  have p: "unat (st_pCurrPos s - st_pStartOfStream s) = pos - start" using assms(3,4,8) by (simp add: unat_minus)
  have m: "start mod 4 = start mod 8" using assms(7) by presburger
  have sum: "unat ((st_pStartOfStream s AND 0x3) + (st_pCurrPos s - st_pStartOfStream s)) = start mod 8 + (pos - start)"
    using p m assms(3,11) by (subst u32_add) (simp_all add: unat_and_small)
  have off: "unat (addrTmp s) = 8 * ((start mod 8 + (pos - start)) div 8)"
    unfolding addrTmp_def unat_and_not_7 sum ..
  have "start mod 8 + (pos - start) < 2 ^ 22" using assms(7,8,11) by linarith
  then have b: "unat ?base = 1024 * unat (addrTmp s) + unat (st_streamBus s)"
    using off by (intro or_shifted assms(13)) linarith
  have e: "(start mod 8 + (pos - start)) mod 8 = pos mod 8" using mod_add_left_eq [of start 8 "pos - start"] assms(8) by simp
  have "unat (8 * (st_pCurrPos s AND 7)) = 8 * (pos mod 8)"
    using assms(4) by (subst u32_mult) (simp_all add: unat_and_small)
  then have bit: "unat ?bit = unat (st_bitPosInByte s) + 8 * (pos mod 8)"
    using assms(12) by (subst u32_add) (simp_all add: word_less_nat_alt)
  have "unat ?bit < 2 ^ 6" using bit assms(12) by (simp add: word_less_nat_alt)
  then have bv: "GetRegisterFile r HWIF_STRM_START_BIT = ?bit" unfolding v by (rule and_mask_below)
  have cur: "unat ?cur = 8 * (pos div 8)" unfolding assms(4) by (rule unat_and_not_7)
  have "unat (?cur - st_pStartOfStream s) = 8 * (pos div 8) - start"
    using cur assms(3,8) by (subst unat_minus) simp_all
  moreover have "8 * (pos div 8) - start \<le> len" using assms(9) by linarith
  ultimately have l: "unat ?len = len - (8 * (pos div 8) - start)"
    using assms(5) by (subst unat_minus) simp_all
  then have "unat ?len < 2 ^ 24" using assms(10) by simp
  then have lv: "GetRegisterFile r HWIF_STREAM_LEN = ?len" unfolding v by (rule and_mask_below)
  have "8 * ((start mod 8 + (pos - start)) div 8) + (start - start mod 8) = 8 * (pos div 8)"
    using assms(8) by (intro aligned_offset) simp
  then have "unat (addrTmp s) + unat ?len = start mod 8 + len"
    using off l assms(8,9) by linarith
  moreover have "8 * unat (addrTmp s) + unat ?bit = 8 * (start mod 8 + (pos - start)) + unat (st_bitPosInByte s)"
    unfolding off bit e [symmetric] by (rule bits_of_bytes)
  ultimately show ?thesis using v(1,4) bv lv b by auto
qed


definition demo_stream :: JpegDecContainer where
  "demo_stream = zero_JpegDecContainer\<lparr>c_stream := zero_StreamStorage\<lparr>st_pStartOfStream := 0x1002, st_pCurrPos := 0x1273,
     st_streamBus := 7, st_bitPosInByte := 4, st_streamLength := 5000\<rparr>\<rparr>"

lemma SetHwStrmParams_keeps_position_witness:
  "\<exists>off. unat (GetRegisterFile (c_jpegRegs (JpegDecSetHwStrmParams demo_stream)) HWIF_RLC_VLC_BASE) = 1024 * off + 7 \<and>
    off + unat (GetRegisterFile (c_jpegRegs (JpegDecSetHwStrmParams demo_stream)) HWIF_STREAM_LEN) = 2 + 5000"
proof -
  have "regs_ok (c_jpegRegs demo_stream)" by (simp add: demo_stream_def zero_defs regs_ok_def)
  then show ?thesis
    using SetHwStrmParams_keeps_position [of demo_stream "c_stream demo_stream" 4098 4723 5000]
    by (auto simp: demo_stream_def zero_defs)
qed

section \<open>What a routine leaves of the registers\<close>

text \<open>The registers are changed in such a way that the fields in K keep their values.\<close>

definition regs_kept :: "(nat \<Rightarrow> bool) \<Rightarrow> regs \<Rightarrow> regs \<Rightarrow> bool" where
  "regs_kept K r r' \<longleftrightarrow> (regs_ok r \<longrightarrow> regs_ok r' \<and>
     (\<forall>j. reg_valid j \<and> K j \<longrightarrow> GetRegisterFile r' j = GetRegisterFile r j))"

definition apart_from :: "nat list \<Rightarrow> nat \<Rightarrow> bool" where
  "apart_from ids j \<longleftrightarrow> list_all (\<lambda>i. reg_apart i j) ids"

lemma regs_kept_refl: "regs_kept K r r"
  by (simp add: regs_kept_def)

lemma regs_kept_trans: "regs_kept K r r' \<Longrightarrow> regs_kept L r' r'' \<Longrightarrow> regs_kept (\<lambda>j. K j \<and> L j) r r''"
  by (auto simp: regs_kept_def)

lemma regs_kept_mono: "regs_kept K r r' \<Longrightarrow> (\<And>j. L j \<Longrightarrow> K j) \<Longrightarrow> regs_kept L r r'"
  by (auto simp: regs_kept_def)

lemma writes_kept:
  assumes "list_all reg_valid (map fst ws)" "\<And>j. K j \<Longrightarrow> apart_from (map fst ws) j"
  shows "regs_kept K r (writes r ws)"
proof (unfold regs_kept_def, intro impI conjI allI)
  assume r: "regs_ok r"
  have "length (writes r ws) = length r" by simp
  then show "regs_ok (writes r ws)" using r by (simp add: regs_ok_def)
  fix j assume j: "reg_valid j \<and> K j"
  then have "list_all (\<lambda>(i, v). reg_valid i \<and> reg_apart i j) ws"
    using assms(1) assms(2) [of j] by (force simp: apart_from_def list_all_iff)
  then show "GetRegisterFile (writes r ws) j = GetRegisterFile r j"
    using hw.rd_run_frame [OF r, of j ws] j by (simp add: writes_run)
qed

lemma set_regs_kept:
  "list_all reg_valid (map fst ws) \<Longrightarrow> (\<And>j. K j \<Longrightarrow> apart_from (map fst ws) j) \<Longrightarrow>
   regs_kept K (c_jpegRegs c) (c_jpegRegs (set_regs ws c))"
  by (simp add: set_regs_def writes_kept)

lemma set_regs_read:
  "regs_ok (c_jpegRegs c) \<Longrightarrow> reg_valid j \<Longrightarrow> hw.clean j ws \<Longrightarrow>
   GetRegisterFile (c_jpegRegs (set_regs ws c)) j = hw.final j (GetRegisterFile (c_jpegRegs c) j) ws"
  by (simp add: set_regs_def read_writes)

lemma set_regs_parts [simp]:
  "c_frame (set_regs ws c) = c_frame c" "c_info (set_regs ws c) = c_info c" "c_stream (set_regs ws c) = c_stream c"
  "c_scan (set_regs ws c) = c_scan c" "c_vlc (set_regs ws c) = c_vlc c" "c_image (set_regs ws c) = c_image c"
  "c_asicBuff (set_regs ws c) = c_asicBuff c" "c_ppInstance (set_regs ws c) = c_ppInstance c"
  "c_ppControl (set_regs ws c) = c_ppControl c" "c_ioctl_info (set_regs ws c) = c_ioctl_info c"
  by (simp_all add: set_regs_def)

text \<open>The code length counts live in the registers 134 to 147.\<close>

definition no_len_reg :: "nat \<Rightarrow> bool" where
  "no_len_reg j \<longleftrightarrow> swreg j < 134 \<or> 147 < swreg j"

lemma LEN_regs: "list_all (\<lambda>i. 134 \<le> swreg i \<and> swreg i \<le> 147) LEN_CODES"
  by (simp add: LEN_CODES_def CODES_defs reg_eval)

lemma LEN_apart_from: "no_len_reg j \<Longrightarrow> set ids \<subseteq> set LEN_CODES \<Longrightarrow> apart_from ids j"
proof -
  assume j: "no_len_reg j" and ids: "set ids \<subseteq> set LEN_CODES"
  have "swreg i \<noteq> swreg j" if "i \<in> set ids" for i
    using that j ids LEN_regs by (fastforce simp: no_len_reg_def list_all_iff)
  then show ?thesis by (simp add: apart_from_def reg_apart_def list_all_iff)
qed

lemma set_counts_kept:
  "set (map fst ws) \<subseteq> set LEN_CODES \<Longrightarrow> regs_kept no_len_reg (c_jpegRegs c) (c_jpegRegs (set_regs ws c))"
  using LEN_valid LEN_apart_from by (intro set_regs_kept) (auto simp: list_all_iff)

lemma reset_kept: "regs_kept no_len_reg (c_jpegRegs c) (c_jpegRegs (LenBitsProgressive_reset c))"
proof -
  have l: "length (fold (\<lambda>i r. r[i := 0]) is r) = length r" for "is" and r :: regs
    by (induction "is" arbitrary: r) simp_all
  have n: "fold (\<lambda>i r. r[i := 0]) is r ! k = r ! k" if "k \<notin> set is" for "is" k and r :: regs
    using that by (induction "is" arbitrary: r) simp_all
  show ?thesis
    by (auto simp: regs_kept_def LenBitsProgressive_reset_def regs_ok_def l n no_len_reg_def GetRegisterFile_def
        JPEGDEC_VLC_LEN_START_REG_def JPEGDEC_VLC_LEN_END_REG_def)
qed

lemma CODES_in_LEN:
  "set AC1_CODES \<subseteq> set LEN_CODES" "set AC2_CODES \<subseteq> set LEN_CODES" "set DC1_CODES \<subseteq> set LEN_CODES"
  "set DC2_CODES \<subseteq> set LEN_CODES" "set DC3_CODES \<subseteq> set LEN_CODES"
  by (auto simp: LEN_CODES_def)

lemma kept_again: "regs_kept K r r' \<Longrightarrow> regs_kept K r' r'' \<Longrightarrow> regs_kept K r r''"
  by (auto simp: regs_kept_def)

text \<open>The code length routines change nothing but these registers.\<close>

lemma LenBits_kept:
  "regs_kept no_len_reg (c_jpegRegs c) (c_jpegRegs (JpegDecWriteLenBits c))"
  "JpegDecWriteLenBitsNonInterleaved c = Continue c' \<Longrightarrow> regs_kept no_len_reg (c_jpegRegs c) (c_jpegRegs c')"
  "regs_kept no_len_reg (c_jpegRegs c) (c_jpegRegs (JpegDecWriteLenBitsProgressive c))"
proof -
  have "regs_kept no_len_reg (c_jpegRegs e) (c_jpegRegs (WriteLenBits_ac e))"
    "regs_kept no_len_reg (c_jpegRegs e) (c_jpegRegs (WriteLenBits_dc e))"
    "regs_kept no_len_reg (c_jpegRegs e) (c_jpegRegs (LenBitsNonInterleaved_ac e))"
    "regs_kept no_len_reg (c_jpegRegs e) (c_jpegRegs (LenBitsNonInterleaved_dc e))"
    "regs_kept no_len_reg (c_jpegRegs e) (c_jpegRegs (LenBitsProgressive_dc e))"
    "regs_kept no_len_reg (c_jpegRegs e) (c_jpegRegs (LenBitsProgressive_ac e))"
    "regs_kept no_len_reg (c_jpegRegs e) (c_jpegRegs (LenBitsProgressive_interleaved e))" for e
    using CODES_in_LEN
    by (auto simp: WriteLenBits_ac_def WriteLenBits_dc_def LenBitsNonInterleaved_ac_def LenBitsNonInterleaved_dc_def
        LenBitsProgressive_dc_def LenBitsProgressive_ac_def LenBitsProgressive_interleaved_def Let_def
        intro!: set_counts_kept simp flip: set_map)
  note k = this
  show "regs_kept no_len_reg (c_jpegRegs c) (c_jpegRegs (JpegDecWriteLenBits c))"
    unfolding JpegDecWriteLenBits_def by (rule kept_again [OF k(1) k(2)])
  show "regs_kept no_len_reg (c_jpegRegs c) (c_jpegRegs c')" if "JpegDecWriteLenBitsNonInterleaved c = Continue c'"
    using that kept_again [OF k(3) k(4), of c] by (auto simp: JpegDecWriteLenBitsNonInterleaved_def split: if_splits)
  show "regs_kept no_len_reg (c_jpegRegs c) (c_jpegRegs (JpegDecWriteLenBitsProgressive c))"
    using kept_again [OF reset_kept k(5)] kept_again [OF reset_kept k(6)] kept_again [OF reset_kept k(7)]
    by (simp add: JpegDecWriteLenBitsProgressive_def Let_def)
qed

text \<open>These routines change nothing of the container but the registers.\<close>

definition regs_only :: "JpegDecContainer \<Rightarrow> JpegDecContainer \<Rightarrow> bool" where
  "regs_only c c' \<longleftrightarrow> (\<exists>r. c' = c\<lparr>c_jpegRegs := r\<rparr>)"

lemma regs_only_trans: "regs_only c c' \<Longrightarrow> regs_only c' c'' \<Longrightarrow> regs_only c c''"
  by (auto simp: regs_only_def)

lemma regs_only_refl: "regs_only c c"
  by (auto simp: regs_only_def intro: exI [of _ "c_jpegRegs c"])

lemma regs_only_parts:
  "regs_only c c' \<Longrightarrow> c_frame c' = c_frame c \<and> c_info c' = c_info c \<and> c_stream c' = c_stream c \<and>
     c_scan c' = c_scan c \<and> c_vlc c' = c_vlc c \<and> c_image c' = c_image c \<and> c_asicBuff c' = c_asicBuff c \<and>
     c_ppInstance c' = c_ppInstance c \<and> c_ppControl c' = c_ppControl c"
  by (auto simp: regs_only_def)

lemma regs_only_set [simp]: "regs_only c (set_regs ws c)"
  by (auto simp: regs_only_def set_regs_def)

lemma regs_only_fun:
  "regs_only c (JpegDecWriteLenBits c)" "JpegDecWriteLenBitsNonInterleaved c = Continue c' \<Longrightarrow> regs_only c c'"
  "regs_only c (JpegDecWriteLenBitsProgressive c)" "regs_only c (JpegDecChromaTableSelectors c)"
  "progressive_coefficients c = Continue c' \<Longrightarrow> regs_only c c'"
proof -
  have k: "regs_only e (WriteLenBits_ac e)" "regs_only e (WriteLenBits_dc e)"
    "regs_only e (LenBitsNonInterleaved_ac e)" "regs_only e (LenBitsNonInterleaved_dc e)"
    "regs_only e (LenBitsProgressive_dc e)" "regs_only e (LenBitsProgressive_ac e)"
    "regs_only e (LenBitsProgressive_interleaved e)" "regs_only e (LenBitsProgressive_reset e)"
    "regs_only e (ChromaTableSelectors_ac e)" "regs_only e (ChromaTableSelectors_dc e)" for e
    by (auto simp: WriteLenBits_ac_def WriteLenBits_dc_def LenBitsNonInterleaved_ac_def LenBitsNonInterleaved_dc_def
        LenBitsProgressive_dc_def LenBitsProgressive_ac_def LenBitsProgressive_interleaved_def Let_def
        ChromaTableSelectors_ac_def ChromaTableSelectors_dc_def)
      (auto simp: regs_only_def LenBitsProgressive_reset_def)
  note t = regs_only_trans
  show "regs_only c (JpegDecWriteLenBits c)"
    unfolding JpegDecWriteLenBits_def by (rule t [OF k(1) k(2)])
  show "JpegDecWriteLenBitsNonInterleaved c = Continue c' \<Longrightarrow> regs_only c c'"
    using t [OF k(3) k(4), of c] by (auto simp: JpegDecWriteLenBitsNonInterleaved_def split: if_splits)
  show "regs_only c (JpegDecWriteLenBitsProgressive c)"
    using t [OF k(8) k(5)] t [OF k(8) k(6)] t [OF k(8) k(7)] by (simp add: JpegDecWriteLenBitsProgressive_def Let_def)
  show "regs_only c (JpegDecChromaTableSelectors c)"
    using t [OF k(9) regs_only_set] t [OF t [OF k(9) k(10)] regs_only_set] by (simp add: JpegDecChromaTableSelectors_def Let_def)
  show "progressive_coefficients c = Continue c' \<Longrightarrow> regs_only c c'"
    by (auto simp: progressive_coefficients_def Let_def regs_only_refl split: if_splits)
qed

definition selector_ids :: "nat list" where
  "selector_ids = [HWIF_CR_AC_VLCTABLE, HWIF_CB_AC_VLCTABLE, HWIF_CR_DC_VLCTABLE, HWIF_CB_DC_VLCTABLE,
     HWIF_CR_DC_VLCTABLE3, HWIF_CB_DC_VLCTABLE3]"

definition coefficient_ids :: "nat list" where
  "coefficient_ids = [HWIF_PJPEG_COEFF_BUF, HWIF_PJPEG_DCCB_BASE, HWIF_PJPEG_DCCR_BASE, HWIF_DEC_OUT_DIS]"

lemma ids_kept:
  assumes "set (map fst ws) \<subseteq> set ids" "list_all reg_valid ids"
  shows "regs_kept (apart_from ids) (c_jpegRegs c) (c_jpegRegs (set_regs ws c))"
  by (rule set_regs_kept) (use assms in \<open>force simp: apart_from_def list_all_iff\<close>)+

lemma ids_valid: "list_all reg_valid selector_ids" "list_all reg_valid coefficient_ids"
  by (simp_all add: selector_ids_def coefficient_ids_def reg_valid_def hwDecRegSpec_length HWIF_defs)

lemma ids_members:
  "HWIF_CR_AC_VLCTABLE \<in> set selector_ids" "HWIF_CB_AC_VLCTABLE \<in> set selector_ids"
  "HWIF_CR_DC_VLCTABLE \<in> set selector_ids" "HWIF_CB_DC_VLCTABLE \<in> set selector_ids"
  "HWIF_CR_DC_VLCTABLE3 \<in> set selector_ids" "HWIF_CB_DC_VLCTABLE3 \<in> set selector_ids"
  "HWIF_PJPEG_COEFF_BUF \<in> set coefficient_ids" "HWIF_PJPEG_DCCB_BASE \<in> set coefficient_ids"
  "HWIF_PJPEG_DCCR_BASE \<in> set coefficient_ids" "HWIF_DEC_OUT_DIS \<in> set coefficient_ids"
  by (simp_all add: selector_ids_def coefficient_ids_def)

lemma selectors_kept:
  "regs_kept (apart_from selector_ids) (c_jpegRegs c) (c_jpegRegs (JpegDecChromaTableSelectors c))"
proof -
  have k: "regs_kept (apart_from selector_ids) (c_jpegRegs e) (c_jpegRegs (set_regs ws e))" if "set (map fst ws) \<subseteq> set selector_ids" for ws e
    using ids_kept [OF that ids_valid(1)] .
  have "regs_kept (apart_from selector_ids) (c_jpegRegs e) (c_jpegRegs (ChromaTableSelectors_ac e))"
    "regs_kept (apart_from selector_ids) (c_jpegRegs e) (c_jpegRegs (ChromaTableSelectors_dc e))" for e
    by (auto simp: ChromaTableSelectors_ac_def ChromaTableSelectors_dc_def Let_def ids_members intro!: k)
  from kept_again [OF this(1) k] kept_again [OF kept_again [OF this] k] show ?thesis
    by (simp add: JpegDecChromaTableSelectors_def Let_def ids_members)
qed

lemma coefficients_kept:
  assumes "progressive_coefficients c = Continue c'"
  shows "regs_kept (apart_from coefficient_ids) (c_jpegRegs c) (c_jpegRegs c')"
proof -
  have k: "regs_kept (apart_from coefficient_ids) (c_jpegRegs c) (c_jpegRegs (set_regs ws c))" if "set (map fst ws) \<subseteq> set coefficient_ids" for ws
    using ids_kept [OF that ids_valid(2)] .
  show ?thesis
    using assms
    by (auto simp: progressive_coefficients_def Let_def regs_kept_refl ids_members split: if_splits intro!: k)
qed

lemma tables_kept:
  assumes "InitHW_tables h = Continue h'"
  shows "regs_only (hw_c h) (hw_c h') \<and> regs_kept no_len_reg (c_jpegRegs (hw_c h)) (c_jpegRegs (hw_c h')) \<and> hw_sent h' = hw_sent h"
proof -
  have t: "hw_c h2 = hw_c h1 \<and> hw_sent h2 = hw_sent h1" if "with_tables h1 m = Continue h2" for h1 h2 m
    using that by (cases m) auto
  have n: "\<exists>c. JpegDecWriteLenBitsNonInterleaved e = Continue c \<and> h2 = h1\<lparr>hw_c := c\<rparr>"
    if "with_c h1 (JpegDecWriteLenBitsNonInterleaved e) = Continue h2" for h1 h2 e
    using that by (cases "JpegDecWriteLenBitsNonInterleaved e") (auto simp: JpegDecWriteLenBitsNonInterleaved_def split: if_splits)
  show ?thesis
    using assms LenBits_kept regs_only_fun(1-3)
    by (auto simp: InitHW_tables_def Let_def on_c_def andThen_Continue_iff dest!: t n split: if_splits)
qed

section \<open>What JpegDecInitHW starts\<close>

definition stream_ids :: "nat list" where
  "stream_ids = [HWIF_RLC_VLC_BASE, HWIF_STRM_START_BIT, HWIF_STREAM_LEN, HWIF_JPEG_STREAM_ALL]"

definition restart_ids :: "nat list" where
  "restart_ids = [HWIF_SYNC_MARKER_E, HWIF_PJPEG_REST_FREQ]"

definition output_ids :: "nat list" where
  "output_ids = [HWIF_DEC_OUT_DIS, HWIF_DEC_OUT_BASE, HWIF_JPG_CH_OUT_BASE, HWIF_DEC_E]"

lemmas ids_defs = selector_ids_def coefficient_ids_def stream_ids_def restart_ids_def output_ids_def

lemma more_ids_valid: "list_all reg_valid stream_ids" "list_all reg_valid restart_ids" "list_all reg_valid output_ids"
  by (simp_all add: ids_defs reg_valid_def hwDecRegSpec_length HWIF_defs)

lemma stream_kept: "regs_kept (apart_from stream_ids) (c_jpegRegs c) (c_jpegRegs (JpegDecSetHwStrmParams c))"
proof -
  have "\<exists>ws. c_jpegRegs (JpegDecSetHwStrmParams c) = c_jpegRegs (set_regs ws c) \<and> set (map fst ws) = set stream_ids"
    unfolding JpegDecSetHwStrmParams_def Let_def set_regs_def stream_ids_def
    by (rule exI [of _ "[(_, _), (_, _), (_, _), (_, _)]"]) (simp flip: writes_append)
  then show ?thesis using ids_kept [OF _ more_ids_valid(1)] by (metis subset_refl)
qed

lemma restart_kept: "regs_kept (apart_from restart_ids) (c_jpegRegs c) (c_jpegRegs (InitHW_restart c))"
  using ids_kept [OF _ more_ids_valid(2)] by (simp add: InitHW_restart_def restart_ids_def)

lemma output_kept: "regs_kept (apart_from output_ids) (c_jpegRegs c) (c_jpegRegs (InitHW_output c))"
  using ids_kept [OF _ more_ids_valid(3)] by (simp add: InitHW_output_def Let_def output_ids_def)

lemma enable_kept: "regs_kept (apart_from [HWIF_DEC_E]) (c_jpegRegs c) (c_jpegRegs (InitHW_enable c))"
  using ids_kept [of "[(HWIF_DEC_E, 1)]" "[HWIF_DEC_E]"]
  by (simp add: InitHW_enable_def set_regs_def reg_valid_def hwDecRegSpec_length HWIF_defs)

lemma table_base_kept:
  "regs_kept (apart_from [HWIF_QTABLE_BASE]) (c_jpegRegs c) (c_jpegRegs (set_regs (table_base_regs d) c))"
  using ids_kept [of "table_base_regs d" "[HWIF_QTABLE_BASE]"]
  by (simp add: table_base_regs_def reg_valid_def hwDecRegSpec_length HWIF_defs)

lemma later_frame:
  "c_frame (JpegDecSetHwStrmParams c) = c_frame c" "c_frame (InitHW_restart c) = c_frame c"
  "c_info (InitHW_restart c) = c_info c"
  by (simp_all add: JpegDecSetHwStrmParams_def InitHW_restart_def Let_def)

lemma InitHW_run:
  assumes "JpegDecInitHW h = Continue h'"
  shows "\<exists>c1 c2. progressive_coefficients (InitHW_picture (hw_c h)) = Continue c1 \<and> regs_only c1 c2 \<and>
    regs_kept no_len_reg (c_jpegRegs c1) (c_jpegRegs c2) \<and>
    (let c3 = JpegDecChromaTableSelectors c2; c4 = set_regs (table_base_regs c3) c3
     in c_jpegRegs (hw_c h') = c_jpegRegs (InitHW_enable (InitHW_output (InitHW_restart (JpegDecSetHwStrmParams c4))))) \<and>
    c_asicRunning (hw_c h') = 1 \<and> (\<exists>i rest. hw_sent h' = hw_sent h @ [i] \<and>
      ioc_regs i = take DEC_RK70_REGISTERS (c_jpegRegs (hw_c h')) @ rest)"
proof -
  have w: "\<exists>c. m = Continue c \<and> h2 = h1\<lparr>hw_c := c\<rparr>" if "with_c h1 m = Continue h2" "\<And>r. m \<noteq> Return r" for h1 h2 m
    using that by (cases m) auto
  have nr: "progressive_coefficients e \<noteq> Return r" for e r
    by (simp add: progressive_coefficients_def Let_def)
  obtain c1 h2 where c1: "progressive_coefficients (InitHW_picture (hw_c h)) = Continue c1"
      and h2: "InitHW_tables (h\<lparr>hw_c := c1\<rparr>) = Continue h2"
      and h': "h' = JpegFlushRegs (on_c InitHW_enable (on_c InitHW_output (on_c InitHW_restart (on_c JpegDecSetHwStrmParams
        (on_c (\<lambda>c. set_regs (table_base_regs c) c) (on_c JpegDecChromaTableSelectors h2))))))"
    using assms w [OF _ nr] by (fastforce simp: JpegDecInitHW_def Let_def andThen_Continue_iff)
  have "c_asicRunning (InitHW_enable e) = 1" for e by (simp add: InitHW_enable_def set_regs_def)
  then show ?thesis
    using c1 tables_kept [OF h2] unfolding h'
    by (intro exI [of _ c1] exI [of _ "hw_c h2"]) (simp add: JpegFlushRegs_def Let_def on_c_def)
qed


text \<open>The size of the picture in blocks, read back from the two fields of each dimension.\<close>

lemma field_of_size:
  fixes y :: u32
  assumes "m < 32"
  shows "unat (drop_bit m (y AND push_bit m (mask n)) AND mask n) = unat y div 2 ^ m mod 2 ^ n"
    "unat (y AND mask n) = unat y mod 2 ^ n"
proof -
  have "drop_bit m (y AND push_bit m (mask n)) AND mask n = take_bit n (drop_bit m y)"
    unfolding take_bit_eq_mask by (rule bit_word_eqI) (auto simp: bit_simps dest: bit_imp_le_length)
  moreover have "unat (take_bit n (drop_bit m y)) = unat y div 2 ^ m mod 2 ^ n"
  proof -
    have "unat (drop_bit m y) = unat y div 2 ^ m"
      unfolding unsigned_drop_bit_eq using u32_lt [of y] by (simp add: drop_bit_eq_div take_bit_nat_eq_self)
    then show ?thesis unfolding unsigned_take_bit_eq by (simp add: take_bit_eq_mod)
  qed
  ultimately show "unat (drop_bit m (y AND push_bit m (mask n)) AND mask n) = unat y div 2 ^ m mod 2 ^ n" by (rule ssubst)
  show "unat (y AND mask n) = unat y mod 2 ^ n"
    unfolding take_bit_eq_mask [symmetric] unsigned_take_bit_eq by (simp add: take_bit_eq_mod)
qed

lemma size_fields:
  fixes y :: u32
  assumes "unat y < 2 ^ (m + n)" "m < 32"
  shows "2 ^ m * unat (drop_bit m (y AND push_bit m (mask n)) AND mask n) + unat (y AND mask m) = unat y"
proof -
  have "unat y div 2 ^ m < 2 ^ n" using assms by (simp add: power_add less_mult_imp_div_less mult.commute)
  then show ?thesis unfolding field_of_size(1) [OF assms(2)] field_of_size(2) [OF assms(2), of y m] by simp
qed

definition untouched_ids :: "nat list" where
  "untouched_ids = coefficient_ids @ selector_ids @ [HWIF_QTABLE_BASE] @ stream_ids @ restart_ids @ output_ids"

lemma apart_append [simp]:
  "apart_from (xs @ ys) j \<longleftrightarrow> apart_from xs j \<and> apart_from ys j"
  "apart_from (x # xs) j \<longleftrightarrow> reg_apart x j \<and> apart_from xs j" "apart_from [] j"
  by (simp_all add: apart_from_def)

text \<open>The fields JpegDecInitHW sets before the tables, and the values they get.\<close>

definition picture_ids :: "nat list" where
  "picture_ids = [HWIF_DEC_MODE, HWIF_PIC_MB_W_EXT, HWIF_PIC_MB_WIDTH, HWIF_PIC_MB_H_EXT, HWIF_PIC_MB_HEIGHT_P, HWIF_PJPEG_E]"

lemma picture_ids_apart:
  "list_all (\<lambda>j. reg_valid j \<and> no_len_reg j \<and> apart_from untouched_ids j) picture_ids"
  by (simp add: picture_ids_def untouched_ids_def ids_defs apart_from_def no_len_reg_def reg_valid_def hwDecRegSpec_length reg_eval)

lemma InitHW_picture_values:
  assumes "regs_ok (c_jpegRegs c)"
  defines "r \<equiv> c_jpegRegs (InitHW_picture c)"
  shows "GetRegisterFile r HWIF_DEC_MODE = JPEG_RK70_MODE_JPEG"
    "GetRegisterFile r HWIF_PIC_MB_W_EXT = drop_bit 9 (drop_bit 4 (inf_X (c_info c)) AND 0xE00) AND mask 3"
    "GetRegisterFile r HWIF_PIC_MB_WIDTH = drop_bit 4 (inf_X (c_info c)) AND 0x1FF"
    "GetRegisterFile r HWIF_PIC_MB_H_EXT = drop_bit 8 (drop_bit 4 (inf_Y (c_info c)) AND 0x700) AND mask 3"
    "GetRegisterFile r HWIF_PIC_MB_HEIGHT_P = drop_bit 4 (inf_Y (c_info c)) AND 0x0FF"
    "GetRegisterFile r HWIF_PJPEG_E = (if inf_operationType (c_info c) = JPEGDEC_PROGRESSIVE then 1 else 0)"
  unfolding r_def InitHW_picture_def Let_def
  by (simp_all add: set_regs_read [OF assms(1)] hw.final_def hw.clean_def frame_size_regs_def scan_regs_def
      reg_valid_def hwDecRegSpec_length reg_eval JPEG_RK70_MODE_JPEG_def and.assoc mask_eq_exp_minus_1)

lemma kept_read:
  "regs_kept K r r' \<Longrightarrow> regs_ok r \<Longrightarrow> reg_valid j \<Longrightarrow> K j \<Longrightarrow> GetRegisterFile r' j = GetRegisterFile r j"
  "regs_kept K r r' \<Longrightarrow> regs_ok r \<Longrightarrow> regs_ok r'"
  by (simp_all add: regs_kept_def)

text \<open>The first half of JpegDecInitHW, up to the address of the tables.\<close>

lemma InitHW_first_half:
  assumes "regs_ok (c_jpegRegs c)" "progressive_coefficients (InitHW_picture c) = Continue c1"
    "regs_only c1 c2" "regs_kept no_len_reg (c_jpegRegs c1) (c_jpegRegs c2)" "c3 = JpegDecChromaTableSelectors c2"
  defines "c4 \<equiv> set_regs (table_base_regs c3) c3"
  shows "regs_ok (c_jpegRegs c4)" "c_frame c4 = c_frame c"
    "GetRegisterFile (c_jpegRegs c4) HWIF_QTABLE_BASE = mb_phy_addr (fr_pTableBase (c_frame c))"
    "j \<in> set picture_ids \<Longrightarrow> GetRegisterFile (c_jpegRegs c4) j = GetRegisterFile (c_jpegRegs (InitHW_picture c)) j"
proof -
  let ?r = "\<lambda>c. c_jpegRegs c" and ?c0 = "InitHW_picture c"
  have "regs_only c ?c0" by (simp add: InitHW_picture_def Let_def)
  then have "regs_only c c3"
    unfolding assms(5) using regs_only_fun(5) [OF assms(2)] assms(3) regs_only_fun(4) [of c2] by (blast intro: regs_only_trans)
  then have f3: "c_frame c3 = c_frame c" by (simp add: regs_only_parts)
  then show "c_frame c4 = c_frame c" by (simp add: c4_def)
  have k1: "regs_kept (\<lambda>j. ((apart_from coefficient_ids j \<and> no_len_reg j) \<and> apart_from selector_ids j)) (?r ?c0) (?r c3)"
    unfolding assms(5) by (rule regs_kept_trans [OF regs_kept_trans [OF coefficients_kept [OF assms(2)] assms(4)] selectors_kept])
  have k4: "regs_kept (apart_from [HWIF_QTABLE_BASE]) (?r c3) (?r c4)"
    unfolding c4_def by (rule table_base_kept)
  have ok0: "regs_ok (?r ?c0)" using assms(1) by (simp add: InitHW_picture_def Let_def set_regs_def regs_ok_def)
  note ok3 = kept_read(2) [OF k1 ok0]
  show "regs_ok (?r c4)" by (rule kept_read(2) [OF k4 ok3])
  have "reg_valid HWIF_QTABLE_BASE" by (simp add: reg_valid_def hwDecRegSpec_length HWIF_defs)
  then show "GetRegisterFile (?r c4) HWIF_QTABLE_BASE = mb_phy_addr (fr_pTableBase (c_frame c))"
    unfolding c4_def using ok3
    by (simp add: set_regs_read hw.clean_def hw.final_def table_base_regs_def f3) (simp add: reg_eval and_mask_32)
  show "GetRegisterFile (?r c4) j = GetRegisterFile (?r ?c0) j" if "j \<in> set picture_ids"
    using that picture_ids_apart kept_read(1) [OF k4 ok3, of j] kept_read(1) [OF k1 ok0, of j]
    by (auto simp: untouched_ids_def list_all_iff)
qed

text \<open>The second half: the stream, the restart interval, the output and the start itself.\<close>

lemma InitHW_second_half:
  assumes "regs_ok (c_jpegRegs c)"
  defines "r \<equiv> c_jpegRegs (InitHW_enable (InitHW_output (InitHW_restart (JpegDecSetHwStrmParams c))))"
  shows "GetRegisterFile r HWIF_DEC_E = 1"
    "GetRegisterFile r HWIF_SYNC_MARKER_E = (if fr_Ri (c_frame c) = 0 then 0 else 1)"
    "fr_Ri (c_frame c) \<noteq> 0 \<Longrightarrow> GetRegisterFile r HWIF_PJPEG_REST_FREQ = fr_Ri (c_frame c) AND mask 16"
    "j \<in> set (HWIF_QTABLE_BASE # picture_ids) \<Longrightarrow> GetRegisterFile r j = GetRegisterFile (c_jpegRegs c) j"
proof -
  let ?r = "\<lambda>c. c_jpegRegs c" and ?c5 = "JpegDecSetHwStrmParams c"
  let ?c6 = "InitHW_restart ?c5"
  have k6: "regs_kept (\<lambda>j. apart_from output_ids j \<and> apart_from [HWIF_DEC_E] j) (?r ?c6) r"
    unfolding r_def by (rule regs_kept_trans [OF output_kept enable_kept])
  note ok5 = kept_read(2) [OF stream_kept [of c] assms(1)]
  note ok6 = kept_read(2) [OF restart_kept [of ?c5] ok5]
  have ok7: "regs_ok (?r (InitHW_output ?c6))" by (rule kept_read(2) [OF output_kept ok6])
  have valid: "reg_valid HWIF_DEC_E" "reg_valid HWIF_SYNC_MARKER_E" "reg_valid HWIF_PJPEG_REST_FREQ" "reg_valid HWIF_QTABLE_BASE"
    by (simp_all add: reg_valid_def hwDecRegSpec_length HWIF_defs)
  show "GetRegisterFile r HWIF_DEC_E = 1"
    unfolding r_def InitHW_enable_def using ok7 valid(1) by (simp add: set_regs_read hw.clean_def hw.final_def reg_eval)
  have late: "apart_from output_ids HWIF_SYNC_MARKER_E" "apart_from output_ids HWIF_PJPEG_REST_FREQ"
    by (simp_all add: output_ids_def) (simp_all add: reg_eval)
  have S6: "GetRegisterFile (?r ?c6) HWIF_SYNC_MARKER_E = (if fr_Ri (c_frame c) = 0 then 0 else 1)"
    "fr_Ri (c_frame c) \<noteq> 0 \<Longrightarrow> GetRegisterFile (?r ?c6) HWIF_PJPEG_REST_FREQ = fr_Ri (c_frame c) AND mask 16"
    unfolding InitHW_restart_def later_frame(1) using ok5 valid(2,3)
    by (simp_all add: set_regs_read hw.clean_def hw.final_def reg_eval)
  from late show "GetRegisterFile r HWIF_SYNC_MARKER_E = (if fr_Ri (c_frame c) = 0 then 0 else 1)"
    "fr_Ri (c_frame c) \<noteq> 0 \<Longrightarrow> GetRegisterFile r HWIF_PJPEG_REST_FREQ = fr_Ri (c_frame c) AND mask 16"
    using kept_read(1) [OF k6 ok6 valid(2)] kept_read(1) [OF k6 ok6 valid(3)] S6 by (simp_all add: output_ids_def)
  have k: "regs_kept (\<lambda>j. (apart_from stream_ids j \<and> apart_from restart_ids j) \<and> (apart_from output_ids j \<and> apart_from [HWIF_DEC_E] j)) (?r c) r"
    by (rule regs_kept_trans [OF regs_kept_trans [OF stream_kept restart_kept] k6])
  have "apart_from (stream_ids @ restart_ids @ output_ids) HWIF_QTABLE_BASE"
    by (simp add: ids_defs reg_eval)
  then show "GetRegisterFile r j = GetRegisterFile (?r c) j" if "j \<in> set (HWIF_QTABLE_BASE # picture_ids)"
    using that picture_ids_apart valid(4) kept_read(1) [OF k assms(1), of j]
    by (auto simp: untouched_ids_def list_all_iff output_ids_def)
qed

text \<open>
  C11. JpegDecInitHW starts the core for the scan that the headers describe, whatever the type of the
  scan: decoding is enabled in JPEG mode, the two fields of each dimension together give the size of
  the picture in blocks of 16, the progressive flag, the address of the tables and the restart
  interval are those of the container, and the message sent to the driver carries exactly these
  registers.
\<close>

theorem InitHW_starts_core:
  assumes "regs_ok (c_jpegRegs (hw_c h))" "JpegDecInitHW h = Continue h'"
    "unat (inf_X (c_info (hw_c h))) < 2 ^ 16" "unat (inf_Y (c_info (hw_c h))) < 2 ^ 15"
  defines "c \<equiv> hw_c h" and "r \<equiv> c_jpegRegs (hw_c h')"
  shows "GetRegisterFile r HWIF_DEC_E = 1 \<and> GetRegisterFile r HWIF_DEC_MODE = JPEG_RK70_MODE_JPEG \<and>
    512 * unat (GetRegisterFile r HWIF_PIC_MB_W_EXT) + unat (GetRegisterFile r HWIF_PIC_MB_WIDTH) = unat (inf_X (c_info c)) div 16 \<and>
    256 * unat (GetRegisterFile r HWIF_PIC_MB_H_EXT) + unat (GetRegisterFile r HWIF_PIC_MB_HEIGHT_P) = unat (inf_Y (c_info c)) div 16 \<and>
    GetRegisterFile r HWIF_PJPEG_E = (if inf_operationType (c_info c) = JPEGDEC_PROGRESSIVE then 1 else 0) \<and>
    GetRegisterFile r HWIF_QTABLE_BASE = mb_phy_addr (fr_pTableBase (c_frame c)) \<and>
    GetRegisterFile r HWIF_SYNC_MARKER_E = (if fr_Ri (c_frame c) = 0 then 0 else 1) \<and>
    (fr_Ri (c_frame c) \<noteq> 0 \<longrightarrow> GetRegisterFile r HWIF_PJPEG_REST_FREQ = fr_Ri (c_frame c) AND mask 16) \<and>
    c_asicRunning (hw_c h') = 1 \<and>
    (\<exists>i rest. hw_sent h' = hw_sent h @ [i] \<and> ioc_regs i = take DEC_RK70_REGISTERS r @ rest)"
proof -
  obtain c1 c2 c3 where c1: "progressive_coefficients (InitHW_picture c) = Continue c1"
    and c2: "regs_only c1 c2" "regs_kept no_len_reg (c_jpegRegs c1) (c_jpegRegs c2)"
    and c3: "c3 = JpegDecChromaTableSelectors c2"
    and r: "r = c_jpegRegs (InitHW_enable (InitHW_output (InitHW_restart (JpegDecSetHwStrmParams
      (set_regs (table_base_regs c3) c3)))))"
    and sent: "c_asicRunning (hw_c h') = 1" "\<exists>i rest. hw_sent h' = hw_sent h @ [i] \<and> ioc_regs i = take DEC_RK70_REGISTERS r @ rest"
    using InitHW_run [OF assms(2)] unfolding c_def r_def Let_def by blast
  have ok: "regs_ok (c_jpegRegs c)" using assms(1) by (simp add: c_def)
  note first = InitHW_first_half [OF ok c1 c2 c3]
  note second = InitHW_second_half [OF first(1), folded r]
  have pic: "GetRegisterFile r j = GetRegisterFile (c_jpegRegs (InitHW_picture c)) j" if "j \<in> set picture_ids" for j
    using second(4) [of j] first(4) [OF that] that by simp
  have small: "unat (drop_bit 4 (inf_X (c_info c)) :: u32) = unat (inf_X (c_info c)) div 16"
    "unat (drop_bit 4 (inf_Y (c_info c)) :: u32) = unat (inf_Y (c_info c)) div 16"
    by (simp_all add: drop_bit_eq_div unat_div)
  have X: "512 * unat (GetRegisterFile r HWIF_PIC_MB_W_EXT) + unat (GetRegisterFile r HWIF_PIC_MB_WIDTH) = unat (inf_X (c_info c)) div 16"
    using size_fields [of "drop_bit 4 (inf_X (c_info c))" 9 3] small assms(1,3)
    by (simp add: pic picture_ids_def InitHW_picture_values c_def mask_eq_exp_minus_1 push_bit_eq_mult)
  have Y: "256 * unat (GetRegisterFile r HWIF_PIC_MB_H_EXT) + unat (GetRegisterFile r HWIF_PIC_MB_HEIGHT_P) = unat (inf_Y (c_info c)) div 16"
    using size_fields [of "drop_bit 4 (inf_Y (c_info c))" 8 3] small assms(1,4)
    by (simp add: pic picture_ids_def InitHW_picture_values c_def mask_eq_exp_minus_1 push_bit_eq_mult)
  have P: "GetRegisterFile r HWIF_DEC_MODE = JPEG_RK70_MODE_JPEG"
    "GetRegisterFile r HWIF_PJPEG_E = (if inf_operationType (c_info c) = JPEGDEC_PROGRESSIVE then 1 else 0)"
    using ok by (simp_all add: pic picture_ids_def InitHW_picture_values)
  show ?thesis
    using second(1-3) P X Y sent second(4) [of HWIF_QTABLE_BASE] first(2,3) by simp
qed

lemma InitHW_baseline_returns:
  assumes "inf_operationType (c_info (hw_c h)) = JPEGDEC_BASELINE"
    "unat (inf_amountOfQTables (c_info (hw_c h))) \<le> length (fr_component (c_frame (hw_c h)))"
    "inf_yCbCrMode (c_info (hw_c h)) \<noteq> JPEGDEC_YUV400"
    "64 * unat (inf_amountOfQTables (c_info (hw_c h))) + 352 \<le> 4 * length (hw_base h)" "vlc_all_ok (c_vlc (hw_c h))"
    "vt_vals (fst (ac_pair (hw_c h))) = None \<or> vt_vals (snd (ac_pair (hw_c h))) \<noteq> None"
  shows "\<exists>h'. JpegDecInitHW h = Continue h'"
proof -
  let ?c = "JpegDecWriteLenBits (InitHW_picture (hw_c h))"
  have o: "regs_only (hw_c h) (InitHW_picture (hw_c h))" by (simp add: InitHW_picture_def Let_def)
  have "regs_only (hw_c h) ?c" by (rule regs_only_trans [OF o regs_only_fun(1)])
  note p = regs_only_parts [OF this] regs_only_parts [OF o]
  have "ac_pair ?c = ac_pair (hw_c h)" using p by (simp add: ac_pair_def)
  then obtain t where "JpegDecWriteTables ?c (hw_base h) = Continue t"
    using WriteTables_fills [of ?c "hw_base h"] assms p by auto
  then show ?thesis
    using assms(1) p
    by (simp add: JpegDecInitHW_def progressive_coefficients_def InitHW_tables_def on_c_def Let_def jpeg_consts)
qed

definition demo_hw :: hw_state where
  "demo_hw = \<lparr>hw_c = demo_tables\<lparr>c_info := (c_info demo_tables)\<lparr>inf_X := 8176, inf_Y := 48\<rparr>\<rparr>, hw_base = replicate 140 7, hw_sent = []\<rparr>"

lemma InitHW_starts_core_witness:
  "\<exists>h'. JpegDecInitHW demo_hw = Continue h' \<and>
     512 * unat (GetRegisterFile (c_jpegRegs (hw_c h')) HWIF_PIC_MB_W_EXT) +
       unat (GetRegisterFile (c_jpegRegs (hw_c h')) HWIF_PIC_MB_WIDTH) = 511 \<and>
     GetRegisterFile (c_jpegRegs (hw_c h')) HWIF_DEC_E = 1"
proof -
  obtain h' where h': "JpegDecInitHW demo_hw = Continue h'"
    using InitHW_baseline_returns [of demo_hw]
    by (auto simp: demo_hw_def demo_tables_def demo_vlc_def zero_defs jpeg_consts vlc_all_ok_def vlc_ok_def ac_pair_def luma_first_def)
  have "regs_ok (c_jpegRegs (hw_c demo_hw))"
    by (simp add: demo_hw_def demo_tables_def zero_defs regs_ok_def)
  then show ?thesis
    using InitHW_starts_core [OF _ h'] h' by (auto simp: demo_hw_def)
qed

section \<open>The restart interval of a later progressive scan\<close>

definition scan_ids :: "nat list" where
  "scan_ids = [HWIF_DEC_OUT_BASE, HWIF_JPEG_MODE, HWIF_PIC_MB_W_EXT, HWIF_PIC_MB_WIDTH, HWIF_PIC_MB_H_EXT,
     HWIF_PIC_MB_HEIGHT_P, HWIF_PJPEG_WDIV8, HWIF_JPEG_FILRIGHT_E, HWIF_PJPEG_HDIV8, HWIF_PJPEG_FILDOWN_E,
     HWIF_PJPEG_E, HWIF_PJPEG_SS, HWIF_PJPEG_SE, HWIF_PJPEG_AH, HWIF_PJPEG_AL, HWIF_QTABLE_BASE, HWIF_JPEG_QTABLES,
     HWIF_JPEG_SLICE_H]"

lemma scan_ids_valid: "list_all reg_valid scan_ids"
  by (simp add: scan_ids_def reg_valid_def hwDecRegSpec_length HWIF_defs)

lemma scan_ids_kept:
  "list_all (\<lambda>i. i \<in> set scan_ids) (map fst ws) \<Longrightarrow> regs_kept (apart_from scan_ids) (c_jpegRegs c) (c_jpegRegs (set_regs ws c))"
  by (rule ids_kept [OF _ scan_ids_valid]) (auto simp: list_all_iff)

lemma scan_stages_kept:
  "regs_kept (apart_from scan_ids) (c_jpegRegs c) (c_jpegRegs (set_regs [(HWIF_DEC_OUT_BASE, v)] c))"
  "regs_kept (apart_from scan_ids) (c_jpegRegs c) (c_jpegRegs (ProgressiveContinue_scan c))"
  "regs_kept (apart_from scan_ids) (c_jpegRegs c) (c_jpegRegs (set_regs (table_base_regs d @ [(HWIF_JPEG_QTABLES, v)]) c))"
  "regs_kept (apart_from scan_ids) (c_jpegRegs c) (c_jpegRegs (ProgressiveContinue_slice c))"
  unfolding ProgressiveContinue_scan_def ProgressiveContinue_slice_def Let_def
  by (auto simp: scan_ids_def table_base_regs_def frame_size_regs_def scan_regs_def regs_kept_refl
      intro!: scan_ids_kept [unfolded scan_ids_def])


lemma given_output2_parts [simp]:
  "c_jpegRegs (given_output2 c) = c_jpegRegs c" "c_frame (given_output2 c) = c_frame c"
  by (simp_all add: given_output2_def Let_def)

text \<open>The registers that the routine leaves before it sets the restart interval.\<close>

lemma ProgressiveContinue_run:
  assumes "JpegDecInitHWProgressiveContinue h = Continue h'"
  shows "\<exists>c. regs_kept (\<lambda>j. apart_from (scan_ids @ stream_ids @ coefficient_ids @ selector_ids) j \<and> no_len_reg j)
      (c_jpegRegs (hw_c h)) (c_jpegRegs c) \<and> c_frame c = c_frame (hw_c h) \<and>
    c_jpegRegs (hw_c h') = c_jpegRegs (set_regs [(HWIF_DEC_E, 1)] (ProgressiveContinue_restart c))"
proof -
  have w: "\<exists>c. m = Continue c \<and> h2 = h1\<lparr>hw_c := c\<rparr>" if "with_c h1 m = Continue h2" "\<And>r. m \<noteq> Return r" for h1 h2 m
    using that by (cases m) auto
  have t: "hw_c h2 = hw_c h1" if "with_tables h1 m = Continue h2" for h1 h2 m
    using that by (cases m) auto
  have nr: "progressive_coefficients e \<noteq> Return r" for e r
    by (simp add: progressive_coefficients_def Let_def)
  define c1 where "c1 = JpegDecSetHwStrmParams (c_info_update (\<lambda>i. i\<lparr>inf_pipeline := 0\<rparr>)
    (set_regs [(HWIF_DEC_OUT_BASE, component_output (given_output2 (hw_c h)))] (given_output2 (hw_c h))))"
  define c2 where "c2 = ProgressiveContinue_scan c1"
  obtain c3 h4 where c3: "progressive_coefficients c2 = Continue c3" and h4: "hw_c h4 = JpegDecWriteLenBitsProgressive c3"
    and h': "h' = JpegFlushRegs (on_c (\<lambda>c. set_regs [(HWIF_DEC_E, 1)] (c\<lparr>c_asicRunning := 1\<rparr>)) (on_c ProgressiveContinue_restart
      (on_c ProgressiveContinue_slice (on_c (\<lambda>c. set_regs (table_base_regs c @ [(HWIF_JPEG_QTABLES, inf_amountOfQTables (c_info c))]) c)
        (on_c JpegDecChromaTableSelectors h4)))))"
    using assms w [OF _ nr] t
    by (fastforce simp: JpegDecInitHWProgressiveContinue_def Let_def andThen_Continue_iff on_c_def c1_def c2_def)
  define c5 where "c5 = JpegDecChromaTableSelectors (JpegDecWriteLenBitsProgressive c3)"
  define c6 where "c6 = set_regs (table_base_regs c5 @ [(HWIF_JPEG_QTABLES, inf_amountOfQTables (c_info c5))]) c5"
  let ?c = "ProgressiveContinue_slice c6"
  let ?r0 = "c_jpegRegs (set_regs [(HWIF_DEC_OUT_BASE, component_output (given_output2 (hw_c h)))] (given_output2 (hw_c h)))"
  note T = regs_kept_trans
  have a: "regs_kept (apart_from scan_ids) (c_jpegRegs (hw_c h)) ?r0"
    using scan_stages_kept(1) [of "given_output2 (hw_c h)"] by simp
  have b: "regs_kept (apart_from stream_ids) ?r0 (c_jpegRegs c1)"
    unfolding c1_def using stream_kept [of "c_info_update (\<lambda>i. i\<lparr>inf_pipeline := 0\<rparr>)
      (set_regs [(HWIF_DEC_OUT_BASE, component_output (given_output2 (hw_c h)))] (given_output2 (hw_c h)))"] by simp
  have s2: "regs_kept (apart_from scan_ids) (c_jpegRegs c1) (c_jpegRegs c2)" unfolding c2_def by (rule scan_stages_kept(2))
  have s5: "regs_kept (apart_from selector_ids) (c_jpegRegs (JpegDecWriteLenBitsProgressive c3)) (c_jpegRegs c5)"
    unfolding c5_def by (rule selectors_kept)
  have s6: "regs_kept (apart_from scan_ids) (c_jpegRegs c5) (c_jpegRegs c6)" unfolding c6_def by (rule scan_stages_kept(3))
  have "regs_kept (\<lambda>j. apart_from (scan_ids @ stream_ids @ coefficient_ids @ selector_ids) j \<and> no_len_reg j)
      (c_jpegRegs (hw_c h)) (c_jpegRegs ?c)"
    by (rule regs_kept_mono [OF T [OF T [OF T [OF T [OF T [OF T [OF T [OF a b] s2] coefficients_kept [OF c3]]
      LenBits_kept(3)] s5] s6] scan_stages_kept(4)]]) simp
  moreover have "c_frame ?c = c_frame (hw_c h)"
    using regs_only_parts [OF regs_only_fun(5) [OF c3]] regs_only_parts [OF regs_only_fun(4)] regs_only_parts [OF regs_only_fun(3)]
    by (simp add: ProgressiveContinue_slice_def c6_def c5_def c2_def c1_def ProgressiveContinue_scan_def Let_def later_frame)
  moreover have "c_jpegRegs (hw_c h') = c_jpegRegs (set_regs [(HWIF_DEC_E, 1)] (ProgressiveContinue_restart ?c))"
    unfolding h' by (simp add: JpegFlushRegs_def on_c_def Let_def h4 c6_def c5_def set_regs_def)
  ultimately show ?thesis by blast
qed


text \<open>
  When JpegDecInitHWProgressiveContinue programs a later scan of a picture with a restart
  interval, the interval does not reach its register: HWIF_PJPEG_REST_FREQ keeps the value it had,
  and the interval is written to HWIF_REFER13_BASE instead, over the registers of the code length
  counts of DC table 3 that were written just before.
\<close>

theorem ProgressiveContinue_loses_restart:
  assumes "regs_ok (c_jpegRegs (hw_c h))" "JpegDecInitHWProgressiveContinue h = Continue h'" "fr_Ri (c_frame (hw_c h)) \<noteq> 0"
  defines "r \<equiv> c_jpegRegs (hw_c h')"
  shows "GetRegisterFile r HWIF_SYNC_MARKER_E = 1 \<and>
    GetRegisterFile r HWIF_PJPEG_REST_FREQ = GetRegisterFile (c_jpegRegs (hw_c h)) HWIF_PJPEG_REST_FREQ \<and>
    GetRegisterFile r HWIF_REFER13_BASE = fr_Ri (c_frame (hw_c h)) \<and>
    GetRegisterFile r HWIF_DC3_CODE1_CNT = fr_Ri (c_frame (hw_c h)) AND mask 2"
proof -
  obtain c where k: "regs_kept (\<lambda>j. apart_from (scan_ids @ stream_ids @ coefficient_ids @ selector_ids) j \<and> no_len_reg j)
      (c_jpegRegs (hw_c h)) (c_jpegRegs c)" and f: "c_frame c = c_frame (hw_c h)"
    and r: "r = c_jpegRegs (set_regs [(HWIF_DEC_E, 1)] (ProgressiveContinue_restart c))"
    using ProgressiveContinue_run [OF assms(2)] unfolding r_def by blast
  note ok = kept_read(2) [OF k assms(1)]
  have "r = c_jpegRegs (set_regs [(HWIF_SYNC_MARKER_E, 1), (HWIF_REFER13_BASE, fr_Ri (c_frame c)), (HWIF_DEC_E, 1)] c)"
    unfolding r using assms(3) by (simp add: ProgressiveContinue_restart_def f set_regs_def flip: writes_append)
  note w = this
  have valid: "reg_valid HWIF_SYNC_MARKER_E" "reg_valid HWIF_REFER13_BASE" "reg_valid HWIF_PJPEG_REST_FREQ" "reg_valid HWIF_DEC_E"
      "reg_valid HWIF_DC3_CODE1_CNT"
    by (simp_all add: reg_valid_def hwDecRegSpec_length HWIF_defs)
  have "apart_from (scan_ids @ stream_ids @ coefficient_ids @ selector_ids) HWIF_PJPEG_REST_FREQ \<and> no_len_reg HWIF_PJPEG_REST_FREQ"
    by (simp add: scan_ids_def ids_defs no_len_reg_def reg_eval)
  note old = kept_read(1) [OF k assms(1) valid(3) this]
  have base: "GetRegisterFile r HWIF_REFER13_BASE = fr_Ri (c_frame (hw_c h))"
    unfolding w by (simp add: set_regs_read [OF ok] hw.clean_def hw.final_def f reg_valid_def hwDecRegSpec_length reg_eval and_mask_32)
  have "GetRegisterFile r HWIF_DC3_CODE1_CNT = GetRegisterFile r HWIF_REFER13_BASE AND mask 2"
    by (simp add: GetRegisterFile_def Let_def reg_eval regMask_def mask_eq_exp_minus_1 and.assoc)
  moreover have "GetRegisterFile r HWIF_SYNC_MARKER_E = 1"
    "GetRegisterFile r HWIF_PJPEG_REST_FREQ = GetRegisterFile (c_jpegRegs c) HWIF_PJPEG_REST_FREQ"
    unfolding w by (simp_all add: set_regs_read [OF ok] hw.clean_def hw.final_def reg_valid_def hwDecRegSpec_length reg_eval)
  ultimately show ?thesis using base old by simp
qed


text \<open>A later DC scan of one component needs the quantisation table alone.\<close>

lemma later_dc_tables:
  assumes "inf_nonInterleaved (c_info c) \<noteq> 0" "sc_Ah (c_scan c) \<noteq> 0" "sc_Ss (c_scan c) = 0"
    "component_ok c (unat (inf_componentId (c_info c)))" "144 \<le> length base"
  shows "\<exists>t. JpegDecWriteTablesProgressive c base = Continue t"
  using Progressive_single_quant [OF assms(4,5)] progressive_start [OF assms(5)] assms(1-3)
  by (auto simp: JpegDecWriteTablesProgressive_def progressive_first_def progressive_count_def)

definition demo_restart :: hw_state where
  "demo_restart = \<lparr>hw_c = zero_JpegDecContainer\<lparr>c_frame := zero_FrameInfo\<lparr>fr_Ri := 7\<rparr>,
     c_scan := zero_ScanInfo\<lparr>sc_Ah := 1\<rparr>, c_info := zero_DecInfo\<lparr>inf_nonInterleaved := 1\<rparr>\<rparr>, hw_base = replicate 144 0, hw_sent = []\<rparr>"

lemma ProgressiveContinue_loses_restart_witness:
  "\<exists>h'. JpegDecInitHWProgressiveContinue demo_restart = Continue h' \<and>
     GetRegisterFile (c_jpegRegs (hw_c h')) HWIF_REFER13_BASE = 7 \<and>
     GetRegisterFile (c_jpegRegs (hw_c h')) HWIF_DC3_CODE1_CNT = 3"
proof -
  define c1 where "c1 = ProgressiveContinue_scan (JpegDecSetHwStrmParams (c_info_update (\<lambda>i. i\<lparr>inf_pipeline := 0\<rparr>)
    (set_regs [(HWIF_DEC_OUT_BASE, component_output (given_output2 (hw_c demo_restart)))] (given_output2 (hw_c demo_restart)))))"
  have p: "c_frame (JpegDecWriteLenBitsProgressive c1) = zero_FrameInfo\<lparr>fr_Ri := 7\<rparr>"
      "c_scan (JpegDecWriteLenBitsProgressive c1) = zero_ScanInfo\<lparr>sc_Ah := 1\<rparr>"
      "c_info (JpegDecWriteLenBitsProgressive c1) = zero_DecInfo\<lparr>inf_nonInterleaved := 1, inf_streamEnd := 1\<rparr>"
      "c_info c1 = zero_DecInfo\<lparr>inf_nonInterleaved := 1, inf_streamEnd := 1\<rparr>"
    using regs_only_parts [OF regs_only_fun(3)]
    by (simp_all add: c1_def ProgressiveContinue_scan_def JpegDecSetHwStrmParams_def Let_def demo_restart_def given_output2_def zero_defs)
  obtain t where "JpegDecWriteTablesProgressive (JpegDecWriteLenBitsProgressive c1) (hw_base demo_restart) = Continue t"
    using later_dc_tables [of "JpegDecWriteLenBitsProgressive c1" "hw_base demo_restart"]
    by (auto simp: p component_ok_def demo_restart_def zero_defs)
  moreover have "progressive_coefficients c1 = Continue c1"
    by (simp add: progressive_coefficients_def p zero_defs jpeg_consts Let_def)
  ultimately obtain h' where h': "JpegDecInitHWProgressiveContinue demo_restart = Continue h'"
    by (simp add: JpegDecInitHWProgressiveContinue_def Let_def on_c_def flip: c1_def)
  have "regs_ok (c_jpegRegs (hw_c demo_restart))" by (simp add: demo_restart_def zero_defs regs_ok_def)
  from ProgressiveContinue_loses_restart [OF this h'] show ?thesis
    using h' by (auto simp: demo_restart_def zero_defs mask_eq_exp_minus_1)
qed

end
