(* ===== verification/EmptyScan.thy ===== *)
theory EmptyScan
  imports HwInit
begin

text \<open>
  JpegDecInitHWEmptyScan (jpegdecinternal.c): after the last scan of a progressive picture the core
  gets one more AC scan for a component that had none, a made-up stream of end-of-band runs that
  skips every block. The code writes this stream to the buffer tmpStrm and passes the register image
  jpegRegs where rk_SetRegisterFile expects the object that points at it; both are arguments here, so
  that what the routine builds and what becomes of it as it is called are two theorems.
\<close>

section \<open>The handle and the buffer\<close>

text \<open>
  What the first argument of rk_SetRegisterFile points at: the object made by
  get_rkdecregister_handle, or the register image, whose first word is then taken for the address of
  the registers.
\<close>

datatype reg_target = Register_object | Register_image

fun set_regs_at :: "reg_target \<Rightarrow> (nat \<times> u32) list \<Rightarrow> hw_state \<Rightarrow> (unit, hw_state) outcome" where
  "set_regs_at Register_object ws h = Continue (on_c (set_regs ws) h)"
| "set_regs_at Register_image ws h = Undefined"

text \<open>The buffer, pStrm as an index into it, and bitPos.\<close>

record eob_writer =
  ew_strm :: "u8 list"
  ew_pos :: nat
  ew_bitPos :: nat

definition ew_store :: "u8 \<Rightarrow> eob_writer \<Rightarrow> (unit, eob_writer) outcome" where
  "ew_store b w =
     (if ew_pos w < length (ew_strm w) then Continue (w\<lparr>ew_strm := (ew_strm w)[ew_pos w := b]\<rparr>) else Undefined)"

definition ew_next :: "eob_writer \<Rightarrow> eob_writer" where
  "ew_next w = w\<lparr>ew_pos := ew_pos w + 1\<rparr>"

definition top_byte :: "u32 \<Rightarrow> u8" where
  "top_byte bits = ucast (drop_bit 24 bits)"

text \<open>*pStrm = (bitPos ? *pStrm : 0) | bits >> (24 + bitPos)\<close>

definition ew_join :: "u32 \<Rightarrow> eob_writer \<Rightarrow> (unit, eob_writer) outcome" where
  "ew_join bits w =
     (let old = (if ew_bitPos w \<noteq> 0 then ucast (ew_strm w ! ew_pos w) else 0 :: u32)
      in ew_store (ucast (old OR drop_bit (24 + ew_bitPos w) bits)) w)"

section \<open>The stream\<close>

function NumBits_loop :: "u32 \<Rightarrow> u32 \<Rightarrow> u32" where
  "NumBits_loop value numBits = (if value \<noteq> 0 then NumBits_loop (drop_bit 1 value) (numBits + 1) else numBits)"
  by auto
termination
proof (relation "measure (\<lambda>(value, numBits). unat value)")
  fix v k :: u32 assume "v \<noteq> 0"
  then show "((drop_bit 1 v, k + 1), v, k) \<in> measure (\<lambda>(value, numBits). unat value)"
    by (simp add: drop_bit_eq_div unat_div unat_gt_0)
qed simp

declare NumBits_loop.simps [simp del]

definition NumBits :: "u32 \<Rightarrow> u32" where
  "NumBits value = (let numBits = NumBits_loop value 0 in if numBits = 0 then 1 else numBits)"

text \<open>numMax, the number of runs of 32767 blocks, and what is left of numBlocks.\<close>

function split_runs :: "u32 \<Rightarrow> nat \<Rightarrow> u32 \<times> nat" where
  "split_runs numBlocks numMax =
     (if numBlocks > 32767 then split_runs (numBlocks - 32767) (numMax + 1) else (numBlocks, numMax))"
  by auto
termination
proof (relation "measure (\<lambda>(numBlocks, numMax). unat numBlocks)")
  fix v :: u32 and k :: nat assume "v > 32767"
  then show "((v - 32767, k + 1), v, k) \<in> measure (\<lambda>(numBlocks, numMax). unat numBlocks)"
    by (simp add: word_less_nat_alt unat_sub word_le_nat_alt)
qed simp

declare split_runs.simps [simp del]

text \<open>An EOB14 code, a zero, with fourteen ones: a run of 32767 blocks.\<close>

definition put_max_run :: "eob_writer \<Rightarrow> (unit, eob_writer) outcome" where
  "put_max_run w =
     (let bits = push_bit 17 0x3FFF in
      andThen (ew_join bits w) (\<lambda>w.
        let w = ew_next w; bits = push_bit (8 - ew_bitPos w) bits in
        andThen (ew_store (top_byte bits) w) (\<lambda>w.
        andThen (if ew_bitPos w \<ge> 1 then ew_store (top_byte (push_bit 8 bits)) (ew_next w) else Continue w)
          (\<lambda>w. Continue (w\<lparr>ew_bitPos := (ew_bitPos w + 15) mod 8\<rparr>)))))"

text \<open>while (n > 0): bytes of the last run.\<close>

fun put_bytes :: "nat \<Rightarrow> int \<Rightarrow> u32 \<Rightarrow> eob_writer \<Rightarrow> (unit, eob_writer) outcome" where
  "put_bytes 0 n bits w = (if n > 0 then OutOfFuel else Continue w)"
| "put_bytes (Suc k) n bits w =
     (if n > 0 then andThen (ew_store (top_byte bits) w) (\<lambda>w. put_bytes k (n - 8) (push_bit 8 bits) (ew_next w))
      else Continue w)"

definition put_last_run :: "nat \<Rightarrow> u32 \<Rightarrow> eob_writer \<Rightarrow> (unit, eob_writer) outcome" where
  "put_last_run n numBlocks w =
     (let bits = push_bit (32 - n) numBlocks in
      andThen (ew_join bits w) (\<lambda>w.
        put_bytes 32 (int n - (8 - int (ew_bitPos w))) (push_bit (8 - ew_bitPos w) bits) (ew_next w)))"

definition eob_stream :: "u32 \<Rightarrow> u8 list \<Rightarrow> (unit, eob_writer) outcome" where
  "eob_stream numBlocks strm =
     (let w = \<lparr>ew_strm = strm, ew_pos = 0, ew_bitPos = 0\<rparr>; (numBlocks, numMax) = split_runs numBlocks 0 in
      andThen (forEach [0..<numMax] (\<lambda>i. put_max_run) w) (\<lambda>w.
        if numBlocks \<noteq> 0 then put_last_run (unat (NumBits numBlocks)) numBlocks w else Continue w))"

section \<open>JpegDecInitHWEmptyScan\<close>

definition EmptyScan_output :: "u32 \<Rightarrow> JpegDecContainer \<Rightarrow> JpegDecContainer" where
  "EmptyScan_output componentId c =
     given_output2 (c\<lparr>c_info := (c_info c)\<lparr>inf_nonInterleaved := 1, inf_componentId := componentId\<rparr>\<rparr>)"

text \<open>A dimension of a subsampled component, rounded up to whole blocks.\<close>

definition half_X :: "DecInfo \<Rightarrow> DecInfo" where
  "half_X i = (let x = inf_X i div 2
     in if x AND 0xF \<noteq> 0 then i\<lparr>inf_X := x + 8, inf_fillX := 1\<rparr> else i\<lparr>inf_X := x\<rparr>)"

definition half_Y :: "DecInfo \<Rightarrow> DecInfo" where
  "half_Y i = (let y = inf_Y i div 2
     in if y AND 0xF \<noteq> 0 then i\<lparr>inf_Y := y + 8, inf_fillY := 1\<rparr> else i\<lparr>inf_Y := y\<rparr>)"

text \<open>The size of the component, the address of its coefficients and the number of its blocks.\<close>

definition EmptyScan_size :: "u32 \<Rightarrow> JpegDecContainer \<Rightarrow> DecInfo \<times> u32 \<times> u32" where
  "EmptyScan_size componentId c =
     (let f = c_frame c; numBlocks = fr_hwX f * fr_hwY f div 64;
          coeffBuffer = mb_phy_addr (inf_pCoeffBase (c_info c));
          i = (c_info c)\<lparr>inf_yCbCrMode := 0, inf_X := fr_hwX f, inf_Y := fr_hwY f, inf_fillX := 0, inf_fillY := 0\<rparr>;
          mode = inf_yCbCrModeOrig i
      in if componentId = 0 then (i, coeffBuffer, numBlocks)
         else let coeffBuffer = coeffBuffer + JPEGDEC_COEFF_SIZE * numBlocks;
                  (i, numBlocks) =
                    (if mode = JPEGDEC_YUV420 then (half_Y (half_X i), numBlocks div 4)
                     else if mode = JPEGDEC_YUV422 then (half_X i, numBlocks div 2)
                     else if mode = JPEGDEC_YUV440 then (half_Y i, numBlocks div 2)
                     else (i, numBlocks))
              in (i, if componentId > 1 then coeffBuffer + JPEGDEC_COEFF_SIZE * numBlocks else coeffBuffer, numBlocks))"

text \<open>The two codes of the AC table, 0xE0 and the EOB run of the last part.\<close>

definition put_eob_codes :: "u32 \<Rightarrow> hw_state \<Rightarrow> (unit, hw_state) outcome" where
  "put_eob_codes n h =
     (if 48 < length (hw_base h)
      then Continue (h\<lparr>hw_base := (hw_base h)[48 := push_bit 24 0xE0 OR push_bit 20 (n - 1)]\<rparr>)
      else Undefined)"

definition EmptyScan_regs :: "u32 \<Rightarrow> JpegDecContainer \<Rightarrow> (nat \<times> u32) list" where
  "EmptyScan_regs coeffBuffer c =
     (let i = c_info c in
      [(HWIF_RLC_VLC_BASE, mb_phy_addr (inf_tmpStrm i)), (HWIF_STRM_START_BIT, 0), (HWIF_STREAM_LEN, 100),
       (HWIF_JPEG_MODE, JPEGDEC_YUV400)] @ frame_size_regs c @
      [(HWIF_PJPEG_WDIV8, inf_fillX i), (HWIF_JPEG_FILRIGHT_E, inf_fillX i),
       (HWIF_PJPEG_HDIV8, inf_fillY i), (HWIF_PJPEG_FILDOWN_E, inf_fillY i), (HWIF_PJPEG_E, 1),
       (HWIF_PJPEG_SS, 1), (HWIF_PJPEG_SE, 1), (HWIF_PJPEG_AH, 0), (HWIF_PJPEG_AL, 0),
       (HWIF_PJPEG_COEFF_BUF, coeffBuffer), (HWIF_DEC_OUT_DIS, 0)] @ table_base_regs c @
      [(HWIF_SYNC_MARKER_E, 0)])"

definition EmptyScan :: "reg_target \<Rightarrow> u8 list \<Rightarrow> u32 \<Rightarrow> hw_state \<Rightarrow> (unit, hw_state \<times> u8 list) outcome" where
  "EmptyScan target strm componentId h =
     (let h = on_c (EmptyScan_output componentId) h in
      andThen (set_regs_at target [(HWIF_DEC_OUT_BASE, component_output (hw_c h))] h) (\<lambda>h.
        let (i, coeffBuffer, numBlocks) = EmptyScan_size componentId (hw_c h);
            n = NumBits (fst (split_runs numBlocks 0));
            h = on_c (\<lambda>c. c\<lparr>c_info := i\<rparr>) h in
        andThen (with_tables h (JpegDecWriteTablesProgressive (hw_c h) (hw_base h))) (\<lambda>h.
        andThen (set_regs_at target [(HWIF_AC1_CODE1_CNT, 2)] h) (\<lambda>h.
        andThen (put_eob_codes n h) (\<lambda>h.
        andThen (eob_stream numBlocks strm) (\<lambda>w.
        andThen (set_regs_at target (EmptyScan_regs coeffBuffer (hw_c h)) h) (\<lambda>h.
        andThen (set_regs_at target [(HWIF_DEC_E, 1)] (on_c (\<lambda>c. c\<lparr>c_asicRunning := 1\<rparr>) h)) (\<lambda>h.
          Continue (JpegFlushRegs h, ew_strm w)))))))))"

text \<open>As the code has it: the image for the handle, and no buffer, for tmpStrm is never allocated.\<close>

definition JpegDecInitHWEmptyScan :: "hw_state \<Rightarrow> u32 \<Rightarrow> (unit, hw_state) outcome" where
  "JpegDecInitHWEmptyScan h componentId =
     andThen (EmptyScan Register_image [] componentId h) (\<lambda>(h, strm). Continue h)"

end
