(* ===== verification/ScanHdrs.thy ===== *)
theory ScanHdrs
  imports Scan
begin

text \<open>
  The headers between the scans of a picture (JpegDecNextScanHdrs, jpegdecinternal.c): a loop that
  looks for markers, decodes the tables and the scan header it meets and skips the rest. The loop
  has no bound of its own, so it gets fuel; that it can run for ever is a theorem below.
\<close>

section \<open>Segments without a table\<close>

text \<open>The restart interval; the result of the second read is not checked.\<close>

definition decode_DRI :: "memory \<Rightarrow> JpegDecContainer \<Rightarrow> JpegDecContainer step" where
  "decode_DRI mem c =
     (let (currentBytes, c) = get2Bytes mem c in
      if currentBytes = STRM_ERROR then Return (JPEGDEC_STRM_ERROR, c)
      else let (v, c) = get2Bytes mem c in Continue (c_frame_update (\<lambda>f. f\<lparr>fr_Ri := v\<rparr>) c))"

definition clear_pred :: "JpegDecContainer \<Rightarrow> JpegDecContainer" where
  "clear_pred c = c_scan_update (\<lambda>s. s\<lparr>sc_pred := [0, 0, 0]\<rparr>) c"

text \<open>Application data and comments: readBits and pCurrPos jump over the segment.\<close>

definition jump_segment :: "u32 \<Rightarrow> StreamStorage \<Rightarrow> StreamStorage" where
  "jump_segment currentBytes s =
     s\<lparr>st_readBits := st_readBits s + (currentBytes * 8 - 16),
       st_pCurrPos := st_pCurrPos s + (currentBytes * 8 - 16) div 8\<rparr>"

definition skip_APPn :: "memory \<Rightarrow> JpegDecContainer \<Rightarrow> JpegDecContainer step" where
  "skip_APPn mem c =
     (let (currentBytes, c) = get2Bytes mem c in
      if currentBytes = STRM_ERROR then Return (JPEGDEC_STRM_ERROR, c)
      else if currentBytes \<noteq> 0 then Continue (c\<lparr>c_stream := jump_segment currentBytes (c_stream c)\<rparr>)
      else Continue c)"

section \<open>JpegDecNextScanHdrs\<close>

definition RST_MARKERS :: "u32 list" where
  "RST_MARKERS = [RST0, RST1, RST2, RST3, RST4, RST5, RST6, RST7]"

definition UNSUPPORTED_MARKERS :: "u32 list" where
  "UNSUPPORTED_MARKERS =
     [DNL, SOF1, SOF3, SOF5, SOF6, SOF7, SOF9, SOF10, SOF11, SOF13, SOF14, SOF15, DAC, DHP, M_TEM]"

definition SKIPPED_MARKERS :: "u32 list" where
  "SKIPPED_MARKERS =
     [APP0, APP1, APP2, APP3, APP4, APP5, APP6, APP7, APP8, APP9, APP10, APP11, APP12, APP13, APP14, APP15, M_COM]"

text \<open>A scan header, and the bits up to the next byte.\<close>

definition NextScan_SOS :: "memory \<Rightarrow> os_allocator \<Rightarrow> JpegDecContainer \<Rightarrow> JpegDecContainer step" where
  "NextScan_SOS mem al c =
     (let c = c_image_update (\<lambda>i. i\<lparr>img_imageReady := 0\<rparr>) c in
      case JpegDecDecodeScan mem al c of
        Continue u \<Rightarrow> Undefined
      | Undefined \<Rightarrow> Undefined
      | OutOfFuel \<Rightarrow> OutOfFuel
      | Return (retCode, c) \<Rightarrow>
          let c = c_image_update (\<lambda>i. i\<lparr>img_headerReady := 1\<rparr>) c in
          if retCode \<noteq> JPEGDEC_OK then Return (retCode, c)
          else if st_bitPosInByte (c_stream c) \<noteq> 0 then
            (let (r, s) = JpegDecFlushBits mem (c_stream c) (8 - st_bitPosInByte (c_stream c));
                 c = c\<lparr>c_stream := s\<rparr>
             in if r = STRM_ERROR then Return (JPEGDEC_STRM_ERROR, c) else Continue c)
          else Continue c)"

text \<open>A decoder of a segment: OK goes on, any other code is returned.\<close>

definition go_on :: "unit step \<Rightarrow> JpegDecContainer step" where
  "go_on m = (case m of
     Continue u \<Rightarrow> Undefined
   | Undefined \<Rightarrow> Undefined
   | OutOfFuel \<Rightarrow> OutOfFuel
   | Return (r, c) \<Rightarrow> if r \<noteq> JPEGDEC_OK then Return (r, c) else Continue c)"

definition NextScan_marker ::
  "memory \<Rightarrow> (u32 \<Rightarrow> bool) \<Rightarrow> os_allocator \<Rightarrow> u32 \<Rightarrow> JpegDecContainer \<Rightarrow> JpegDecContainer step" where
  "NextScan_marker mem malloc al currentByte c =
     (if currentByte = 0 \<or> currentByte = SOF0 \<or> currentByte = SOF2 then Continue c
      else if currentByte = SOS then NextScan_SOS mem al c
      else if currentByte = DHT then go_on (JpegDecDecodeHuffmanTables mem malloc c)
      else if currentByte = DQT then go_on (JpegDecDecodeQuantTables mem c)
      else if currentByte = SOI then Continue c
      else if currentByte = EOI then
        Return (if img_imageReady (c_image c) \<noteq> 0 then JPEGDEC_FRAME_READY else JPEGDEC_ERROR, c)
      else if currentByte = DRI then decode_DRI mem c
      else if currentByte \<in> set RST_MARKERS then Continue (clear_pred c)
      else if currentByte \<in> set UNSUPPORTED_MARKERS then Return (JPEGDEC_UNSUPPORTED, c)
      else if currentByte \<in> set SKIPPED_MARKERS then skip_APPn mem c
      else Continue c)"

text \<open>
  One pass of the loop. Its state is currentByte, whether the loop was left by a break, and the
  container. A byte other than FF is skipped; currentByte is that of the last marker then.
\<close>

type_synonym marker_state = "u32 \<times> bool \<times> JpegDecContainer"

definition NextScan_pass ::
  "memory \<Rightarrow> (u32 \<Rightarrow> bool) \<Rightarrow> os_allocator \<Rightarrow> marker_state \<Rightarrow> marker_state step" where
  "NextScan_pass mem malloc al = (\<lambda>(currentByte, left, c).
     let (b, c) = getByte mem c in
     if b = 0xFF then
       (let (currentByte, c) = getByte mem c
        in andThen (NextScan_marker mem malloc al currentByte c) (\<lambda>c.
             Continue (currentByte, img_headerReady (c_image c) \<noteq> 0, c)))
     else Continue (currentByte, currentByte = 0xFFFFFFFF \<or> img_headerReady (c_image c) \<noteq> 0, c))"

definition NextScan_more :: "marker_state \<Rightarrow> bool" where
  "NextScan_more = (\<lambda>(currentByte, left, c).
     \<not> left \<and> drop_bit 3 (st_readBits (c_stream c)) \<le> st_streamLength (c_stream c))"

definition JpegDecNextScanHdrs ::
  "nat \<Rightarrow> memory \<Rightarrow> (u32 \<Rightarrow> bool) \<Rightarrow> os_allocator \<Rightarrow> JpegDecContainer \<Rightarrow> unit step" where
  "JpegDecNextScanHdrs fuel mem malloc al c =
     (let c = c_image_update (\<lambda>i. i\<lparr>img_headerReady := 0\<rparr>) c
      in andThen (NextScan_pass mem malloc al (0, False, c)) (\<lambda>st.
         andThen (whileLoop fuel NextScan_more (NextScan_pass mem malloc al) st) (\<lambda>(currentByte, left, c).
           Return (JPEGDEC_OK, c))))"

section \<open>Segments of the header\<close>

text \<open>What may stand between two scans, its bytes, and what it leaves in the container.\<close>

datatype segment = Skipped u32 "u8 list" | Quant "(nat \<times> u8 list) list" | Huffman "dht list" | Restart nat
  | Stray u8

definition segment_bytes :: "segment \<Rightarrow> u8 list" where
  "segment_bytes g = (case g of
     Skipped m bs \<Rightarrow> [0xFF, ucast m] @ be16 (2 + length bs) @ bs
   | Quant es \<Rightarrow> [0xFF, ucast DQT] @ dqt_segment es
   | Huffman es \<Rightarrow> [0xFF, ucast DHT] @ dht_segment es
   | Restart n \<Rightarrow> [0xFF, ucast DRI] @ be16 4 @ be16 n
   | Stray b \<Rightarrow> [b])"

definition segment_ok :: "u32 \<Rightarrow> segment \<Rightarrow> bool" where
  "segment_ok coding g = (case g of
     Skipped m bs \<Rightarrow> m \<in> set SKIPPED_MARKERS \<and> 2 + length bs < 65536
   | Quant es \<Rightarrow> list_all dqt_entry_ok es \<and> 2 + 65 * length es < 65536
   | Huffman es \<Rightarrow> list_all (dht_entry_ok coding) es \<and> 2 + dht_total es < 65536
   | Restart n \<Rightarrow> n < 65536
   | Stray b \<Rightarrow> b \<noteq> 0xFF)"

definition segment_effect :: "segment \<Rightarrow> JpegDecContainer \<Rightarrow> JpegDecContainer" where
  "segment_effect g c = (case g of
     Skipped m bs \<Rightarrow> c
   | Quant es \<Rightarrow> c\<lparr>c_quant := fold dqt_store es ((c_quant c)\<lparr>qt_Lq := of_nat (2 + 65 * length es)\<rparr>)\<rparr>
   | Huffman es \<Rightarrow> c\<lparr>c_vlc := fold dht_store es ((c_vlc c)\<lparr>vlc_Lh := of_nat (2 + dht_total es)\<rparr>)\<rparr>
   | Restart n \<Rightarrow> c\<lparr>c_frame := (c_frame c)\<lparr>fr_Ri := of_nat n\<rparr>\<rparr>
   | Stray b \<Rightarrow> c)"

definition advance :: "nat \<Rightarrow> JpegDecContainer \<Rightarrow> JpegDecContainer" where
  "advance n c = c\<lparr>c_stream := strm_adv n (c_stream c)\<rparr>"


lemma advance_parts [simp]:
  "c_stream (advance n c) = strm_adv n (c_stream c)" "c_image (advance n c) = c_image c" "c_frame (advance n c) = c_frame c"
  by (simp_all add: advance_def)

lemma segment_effect_parts [simp]:
  "c_stream (segment_effect g c) = c_stream c" "c_image (segment_effect g c) = c_image c"
  "fr_codingType (c_frame (segment_effect g c)) = fr_codingType (c_frame c)"
  by (simp_all add: segment_effect_def split: segment.split)

text \<open>A marker: two bytes are read and the routine for the second one runs.\<close>

lemma pass_marker:
  assumes "strm_bytes_ok (c_stream c)" "stream_has mem (c_stream c) ([0xFF, b] @ bs)"
  shows "NextScan_pass mem malloc al (cb, l, c) =
      andThen (NextScan_marker mem malloc al (ucast b) (advance 2 c)) (\<lambda>c. Continue (ucast b, img_headerReady (c_image c) \<noteq> 0, c))"
    "strm_bytes_ok (c_stream (advance 2 c))" "stream_has mem (c_stream (advance 2 c)) bs"
proof -
  have h1: "stream_has mem (c_stream c) (0xFF # b # bs)" using assms(2) by simp
  note a = stream_has_Cons [OF assms(1) h1]
  note b = stream_has_Cons [OF a(3,4)]
  have two: "strm_adv (Suc 0) (strm_adv (Suc 0) (c_stream c)) = strm_adv 2 (c_stream c)" by (simp add: strm_adv_adv numeral_2_eq_2)
  show "NextScan_pass mem malloc al (cb, l, c) =
      andThen (NextScan_marker mem malloc al (ucast b) (advance 2 c)) (\<lambda>c. Continue (ucast b, img_headerReady (c_image c) \<noteq> 0, c))"
    using assms(1) a b by (simp add: NextScan_pass_def getByte_eq advance_def two)
  show "strm_bytes_ok (c_stream (advance 2 c))" "stream_has mem (c_stream (advance 2 c)) bs"
    using b(3,4) by (simp_all add: two)
qed

lemma ucast_not_error: "ucast (b :: u8) \<noteq> (0xFFFFFFFF :: u32)"
proof
  assume "ucast b = (0xFFFFFFFF :: u32)"
  then have "unat (ucast b :: u32) = unat (0xFFFFFFFF :: u32)" by simp
  moreover have "unat (ucast b :: u32) < 256" using unsigned_less [of b] by (simp add: unsigned_ucast_eq)
  ultimately show False by simp
qed

lemma jump_segment_adv:
  assumes "n < 65536"
  shows "jump_segment (of_nat (2 + n)) s = strm_adv n s"
proof -
  have "of_nat (2 + n) * 8 - (16 :: u32) = 8 * of_nat n" by (simp add: algebra_simps)
  moreover have "8 * of_nat n div 8 = (of_nat n :: u32)"
  proof -
    have "unat (8 * of_nat n :: u32) = 8 * n" using assms by (simp add: unat_word_ariths unat_of_nat)
    then show ?thesis using assms by (simp add: word_unat_eq_iff unat_div unat_of_nat)
  qed
  ultimately show ?thesis by (simp add: jump_segment_def strm_adv_def mult.commute)
qed


lemma go_on_ok [simp]: "go_on (Return (JPEGDEC_OK, c)) = Continue c"
  by (simp add: go_on_def)

definition plain_marker :: "u32 \<Rightarrow> bool" where
  "plain_marker m \<longleftrightarrow> \<not> (m = 0 \<or> m = SOF0 \<or> m = SOF2) \<and> m \<noteq> SOS \<and> m \<noteq> DHT \<and> m \<noteq> DQT \<and> m \<noteq> SOI \<and> m \<noteq> EOI \<and> m \<noteq> DRI \<and>
     m \<notin> set RST_MARKERS \<and> m \<notin> set UNSUPPORTED_MARKERS \<and> m = ucast (ucast m :: u8)"

lemma skipped_plain: "list_all plain_marker SKIPPED_MARKERS"
  by code_simp

lemma skipped_marker:
  assumes "m \<in> set SKIPPED_MARKERS"
  shows "NextScan_marker mem malloc al m c = skip_APPn mem c" "m = ucast (ucast m :: u8)"
proof -
  have p: "plain_marker m" using assms skipped_plain by (simp add: list_all_iff)
  then show "NextScan_marker mem malloc al m c = skip_APPn mem c"
    using assms by (simp add: NextScan_marker_def plain_marker_def)
  show "m = ucast (ucast m :: u8)" using p by (simp add: plain_marker_def)
qed

text \<open>What one pass does at the beginning of a segment.\<close>

lemma marker_segment:
  assumes "strm_bytes_ok (c_stream c)" "stream_has mem (c_stream c) (be16 (2 + length bs) @ bs @ rest)" "2 + length bs < 65536"
  shows "skip_APPn mem c = Continue (advance (2 + length bs) c)"
proof -
  note g = get2Bytes_be16 [OF assms]
  have "unat (of_nat k :: u32) = k" if "k < 65536" for k using that by (simp add: unat_of_nat)
  from this [OF assms(3)] have n: "unat (of_nat (2 + length bs) :: u32) = 2 + length bs" .
  then have e: "of_nat (2 + length bs) \<noteq> STRM_ERROR" "of_nat (2 + length bs) \<noteq> (0 :: u32)"
    using assms(3) by (auto simp: STRM_ERROR_def word_unat_eq_iff simp del: of_nat_add)
  show ?thesis
    unfolding skip_APPn_def g(1) using e jump_segment_adv [of "length bs" "strm_adv 2 (c_stream c)"] assms(3)
    by (simp add: advance_def strm_adv_adv del: of_nat_add)
qed

lemma restart_segment:
  assumes "strm_bytes_ok (c_stream c)" "stream_has mem (c_stream c) (be16 4 @ be16 n @ rest)" "n < 65536"
  shows "decode_DRI mem c = Continue (advance 4 (segment_effect (Restart n) c))"
proof -
  note g = get2Bytes_be16 [OF assms(1,2)]
  let ?c = "c\<lparr>c_stream := strm_adv 2 (c_stream c)\<rparr>"
  have "strm_bytes_ok (c_stream ?c)" "stream_has mem (c_stream ?c) (be16 n @ rest)" using g by simp_all
  note h = get2Bytes_be16 [OF this assms(3)]
  have four: "(4 :: u32) \<noteq> STRM_ERROR" by (simp add: STRM_ERROR_def)
  show ?thesis
    using g(1) h(1) four by (simp add: decode_DRI_def advance_def segment_effect_def strm_adv_adv)
qed


lemma advance_effect: "segment_effect g (advance n c) = advance n (segment_effect g c)"
  by (cases g) (simp_all add: segment_effect_def advance_def)

lemma advance_advance [simp]: "advance m (advance n c) = advance (n + m) c"
  by (simp add: advance_def strm_adv_adv)

lemma be16_length [simp]: "length (be16 n) = 2"
  by (simp add: be16_def)

lemma table_markers:
  "ucast (ucast DQT :: u8) = DQT" "ucast (ucast DHT :: u8) = DHT" "ucast (ucast DRI :: u8) = DRI" "ucast (0xDA :: u8) = SOS"
  by (simp_all add: marker_defs)

lemma marker_of_tables:
  "NextScan_marker mem malloc al DQT c = go_on (JpegDecDecodeQuantTables mem c)"
  "NextScan_marker mem malloc al DHT c = go_on (JpegDecDecodeHuffmanTables mem malloc c)"
  "NextScan_marker mem malloc al DRI c = decode_DRI mem c"
  "NextScan_marker mem malloc al SOS c = NextScan_SOS mem al c"
  by (simp_all add: NextScan_marker_def marker_defs)

lemma segment_length:
  "segment_ok coding g \<Longrightarrow> length (segment_bytes g) = (case g of Skipped m bs \<Rightarrow> 4 + length bs
     | Quant es \<Rightarrow> 4 + 65 * length es | Huffman es \<Rightarrow> 4 + dht_total es | Restart n \<Rightarrow> 6 | Stray b \<Rightarrow> 1)"
  by (auto simp: segment_ok_def segment_bytes_def dqt_segment_def dht_segment_def dqt_entries_length dht_entries_length
      split: segment.splits)

lemma four_plus: "4 + n = Suc (Suc (Suc (Suc n)))"
  by simp

lemma pass_segment:
  assumes "strm_bytes_ok (c_stream c)" "stream_has mem (c_stream c) (segment_bytes g @ rest)" "2 \<le> length rest"
    "segment_ok (fr_codingType (c_frame c)) g" "\<forall>n. malloc n" "img_headerReady (c_image c) = 0" "cb \<noteq> 0xFFFFFFFF"
  shows "\<exists>cb'. NextScan_pass mem malloc al (cb, l, c) =
    Continue (cb', False, advance (length (segment_bytes g)) (segment_effect g c)) \<and> cb' \<noteq> 0xFFFFFFFF"
proof (cases g)
  case (Skipped m bs)
  have m: "m \<in> set SKIPPED_MARKERS" and len: "2 + length bs < 65536" using assms(4) by (simp_all add: Skipped segment_ok_def)
  have "stream_has mem (c_stream c) ([0xFF, ucast m] @ (be16 (2 + length bs) @ bs @ rest))"
    using assms(2) by (simp add: Skipped segment_bytes_def)
  note p = pass_marker [OF assms(1) this]
  have um: "ucast (ucast m :: u8) = m" using skipped_marker(2) [OF m] by (rule sym)
  show ?thesis
    using p(1) marker_segment [OF p(2,3) len] skipped_marker(1) [OF m] assms(6) ucast_not_error [of "ucast m"]
    by (simp add: um Skipped segment_effect_def segment_bytes_def advance_def strm_adv_adv)
next
  case (Quant es)
  have "stream_has mem (c_stream c) ([0xFF, ucast DQT] @ (dqt_segment es @ rest))"
    using assms(2) by (simp add: Quant segment_bytes_def)
  note p = pass_marker [OF assms(1) this]
  have "JpegDecDecodeQuantTables mem (advance 2 c) = Return (JPEGDEC_OK, advance (4 + 65 * length es) (segment_effect g c))"
    using QuantTables_decode [OF p(2,3)] assms(3,4)
    by (simp add: Quant segment_ok_def segment_effect_def advance_def strm_adv_adv four_plus)
  then show ?thesis
    using p(1) assms(6) ucast_not_error [of "ucast DQT"] segment_length [OF assms(4)]
    by (simp add: Quant table_markers marker_of_tables)
next
  case (Huffman es)
  have "stream_has mem (c_stream c) ([0xFF, ucast DHT] @ (dht_segment es @ rest))"
    using assms(2) by (simp add: Huffman segment_bytes_def)
  note p = pass_marker [OF assms(1) this]
  have "JpegDecDecodeHuffmanTables mem malloc (advance 2 c) = Return (JPEGDEC_OK, advance (4 + dht_total es) (segment_effect g c))"
    using HuffmanTables_decode [OF p(2,3)] assms(3-5)
    by (simp add: Huffman segment_ok_def segment_effect_def advance_def strm_adv_adv four_plus)
  then show ?thesis
    using p(1) assms(6) ucast_not_error [of "ucast DHT"] segment_length [OF assms(4)]
    by (simp add: Huffman table_markers marker_of_tables)
next
  case (Restart n)
  have "stream_has mem (c_stream c) ([0xFF, ucast DRI] @ (be16 4 @ be16 n @ rest))"
    using assms(2) by (simp add: Restart segment_bytes_def)
  note p = pass_marker [OF assms(1) this]
  have "n < 65536" using assms(4) by (simp add: Restart segment_ok_def)
  from restart_segment [OF p(2,3) this] show ?thesis
    using p(1) assms(6) ucast_not_error [of "ucast DRI"] segment_length [OF assms(4)]
    by (simp add: Restart table_markers marker_of_tables advance_effect)
next
  case (Stray b)
  have "stream_has mem (c_stream c) (b # rest)" using assms(2) by (simp add: Stray segment_bytes_def)
  note a = stream_has_Cons [OF assms(1) this]
  have "ucast b \<noteq> (0xFF :: u32)"
  proof
    assume "ucast b = (0xFF :: u32)"
    then have "unat (ucast b :: u32) = 255" by simp
    then have "unat b = unat (0xFF :: u8)" by (simp add: unsigned_ucast_eq take_bit_nat_eq_self)
    then show False using assms(4) by (simp add: Stray segment_ok_def word_unat_eq_iff)
  qed
  then show ?thesis
    using a assms(1,6,7) by (auto simp: NextScan_pass_def getByte_eq Stray segment_effect_def segment_bytes_def advance_def)
qed

section \<open>The loop over the segments\<close>

lemma more_ok: "strm_bytes_ok (c_stream c) \<Longrightarrow> NextScan_more (cb, False, c)"
proof -
  assume "strm_bytes_ok (c_stream c)"
  then have ok: "strm_ok (c_stream c)" by (simp add: strm_bytes_ok_def)
  have "unat (st_readBits (c_stream c)) \<le> 8 * unat (st_streamLength (c_stream c))"
    using strm_ok_nat(4,3) [OF ok] ok by (simp add: strm_ok_def word_le_nat_alt)
  then show ?thesis by (simp add: NextScan_more_def word_le_nat_alt drop_bit_eq_div unat_div)
qed

lemma SOS_header_ready:
  "NextScan_SOS mem al c = Continue c' \<Longrightarrow> img_headerReady (c_image c') = 1"
  by (auto simp: NextScan_SOS_def Let_def split: outcome.splits prod.splits if_splits)

lemma loop_segments:
  assumes "strm_bytes_ok (c_stream c)" "stream_has mem (c_stream c) (concat (map segment_bytes gs) @ [0xFF, 0xDA] @ rest)"
    "list_all (segment_ok (fr_codingType (c_frame c))) gs" "\<forall>n. malloc n" "img_headerReady (c_image c) = 0"
    "cb \<noteq> 0xFFFFFFFF" "length gs < n"
  shows "whileLoop n NextScan_more (NextScan_pass mem malloc al) (cb, False, c) =
    andThen (NextScan_SOS mem al (advance (length (concat (map segment_bytes gs)) + 2) (fold segment_effect gs c)))
      (\<lambda>c. Continue (SOS, True, c))"
  using assms
proof (induction gs arbitrary: c cb n)
  case Nil
  then obtain k where k: "n = Suc k" by (cases n) auto
  have h: "stream_has mem (c_stream c) ([0xFF, 0xDA] @ rest)" using Nil.prems(2) by simp
  note p = pass_marker(1) [OF Nil.prems(1) h, unfolded table_markers(4) marker_of_tables(4)]
  have "andThen (andThen (NextScan_SOS mem al d) (\<lambda>c. Continue (SOS, img_headerReady (c_image c) \<noteq> 0, c)))
      (whileLoop k NextScan_more (NextScan_pass mem malloc al)) = andThen (NextScan_SOS mem al d) (\<lambda>c. Continue (SOS, True, c))" for d
    using SOS_header_ready [of mem al d] by (cases "NextScan_SOS mem al d"; cases k) (auto simp: NextScan_more_def)
  then show ?case
    using k p more_ok [OF Nil.prems(1)] by (simp add: numeral_2_eq_2)
next
  case (Cons g gs)
  then obtain k where k: "n = Suc k" by (cases n) auto
  let ?c = "advance (length (segment_bytes g)) (segment_effect g c)"
  let ?bs = "concat (map segment_bytes gs) @ [0xFF, 0xDA] @ rest"
  have h: "stream_has mem (c_stream c) (segment_bytes g @ ?bs)" using Cons.prems(2) by simp
  have g: "segment_ok (fr_codingType (c_frame c)) g" using Cons.prems(3) by simp
  obtain cb' where cb': "NextScan_pass mem malloc al (cb, False, c) = Continue (cb', False, ?c)" "cb' \<noteq> 0xFFFFFFFF"
    using pass_segment [OF Cons.prems(1) h _ g Cons.prems(4,5,6)] by auto
  have len: "length (segment_bytes g) \<le> strm_left (c_stream c)" using h by (simp add: stream_has_def)
  have "whileLoop k NextScan_more (NextScan_pass mem malloc al) (cb', False, ?c) =
    andThen (NextScan_SOS mem al (advance (length (concat (map segment_bytes gs)) + 2) (fold segment_effect gs ?c)))
      (\<lambda>c. Continue (SOS, True, c))"
    by (rule Cons.IH)
      (use Cons.prems k cb' strm_adv_ok [OF Cons.prems(1) len] stream_has_append(2) [OF Cons.prems(1) h] in simp_all)
  moreover have "fold segment_effect gs (advance m d) = advance m (fold segment_effect gs d)" for m d
    by (induction gs arbitrary: d) (simp_all add: advance_effect)
  ultimately show ?case
    using k cb' more_ok [OF Cons.prems(1)] by (simp add: add.commute add.left_commute)
qed

text \<open>
  C18. JpegDecNextScanHdrs on a stream that goes on with segments it knows how to treat (application
  data and comments, quantisation tables, Huffman tables, restart intervals, and stray bytes that
  are not FF) up to a start of scan: it ends within one pass for each of them, with the tables and the
  restart interval of the segments in the container, the stream behind the marker, and the result of
  the scan header.
\<close>

theorem NextScanHdrs_decodes_headers:
  assumes "strm_bytes_ok (c_stream c)" "stream_has mem (c_stream c) (concat (map segment_bytes gs) @ [0xFF, 0xDA] @ rest)"
    "list_all (segment_ok (fr_codingType (c_frame c))) gs" "\<forall>n. malloc n" "length gs \<le> fuel"
  shows "JpegDecNextScanHdrs fuel mem malloc al c =
    andThen (NextScan_SOS mem al (advance (length (concat (map segment_bytes gs)) + 2)
      (fold segment_effect gs (c_image_update (\<lambda>i. i\<lparr>img_headerReady := 0\<rparr>) c))))
      (\<lambda>c. Return (JPEGDEC_OK, c))"
proof -
  let ?c = "c_image_update (\<lambda>i. i\<lparr>img_headerReady := 0\<rparr>) c" and ?p = "NextScan_pass mem malloc al"
  have "andThen (?p (0, False, ?c)) (whileLoop fuel NextScan_more ?p) = whileLoop (Suc fuel) NextScan_more ?p (0, False, ?c)"
    using more_ok [of ?c 0] assms(1) by simp
  also have "\<dots> = andThen (NextScan_SOS mem al (advance (length (concat (map segment_bytes gs)) + 2) (fold segment_effect gs ?c)))
      (\<lambda>c. Continue (SOS, True, c))"
    by (rule loop_segments) (use assms in simp_all)
  finally show ?thesis
    by (simp add: JpegDecNextScanHdrs_def Let_def andThen_assoc [symmetric]) (simp add: andThen_assoc)
qed


definition demo_header :: "segment list" where
  "demo_header = [Stray 0, Skipped M_COM [72, 105], Restart 8, Quant [(0, replicate 64 16)]]"

definition demo_bytes :: "u8 list" where
  "demo_bytes = concat (map segment_bytes demo_header) @ [0xFF, 0xDA] @ [0]"

definition no_allocator :: os_allocator where
  "no_allocator = \<lparr>al_alloc = None, al_free = None, al_mmap = (\<lambda>ctx b. b)\<rparr>"

lemma NextScanHdrs_decodes_headers_witness:
  "JpegDecNextScanHdrs 4 (memory_of 0 demo_bytes) (\<lambda>n. True) no_allocator (zero_JpegDecContainer\<lparr>c_stream := stream_of 0 85\<rparr>) =
    andThen (NextScan_SOS (memory_of 0 demo_bytes) no_allocator (advance 84 (fold segment_effect demo_header
      (c_image_update (\<lambda>i. i\<lparr>img_headerReady := 0\<rparr>) (zero_JpegDecContainer\<lparr>c_stream := stream_of 0 85\<rparr>)))))
      (\<lambda>c. Return (JPEGDEC_OK, c))"
proof -
  let ?c = "zero_JpegDecContainer\<lparr>c_stream := stream_of 0 85\<rparr>"
  have len: "length (concat (map segment_bytes demo_header)) = 82" 
    by (simp add: demo_header_def segment_bytes_def dqt_segment_def dqt_entry_def)
  have "length demo_bytes = 85" by (simp add: demo_bytes_def len)
  then have "stream_has (memory_of 0 demo_bytes) (stream_of 0 85) demo_bytes"
    using stream_of_has [of demo_bytes 85 0] by simp
  then have h: "stream_has (memory_of 0 demo_bytes) (c_stream ?c) (concat (map segment_bytes demo_header) @ [0xFF, 0xDA] @ [0])"
    by (simp add: demo_bytes_def)
  have ok: "strm_bytes_ok (c_stream ?c)" using stream_of_ok(1) [of 85 0] by (simp add: jpeg_consts)
  have "list_all (segment_ok (fr_codingType (c_frame ?c))) demo_header"
    by (simp add: demo_header_def segment_ok_def dqt_entry_ok_def SKIPPED_MARKERS_def)
  from NextScanHdrs_decodes_headers [OF ok h this, of "\<lambda>n. True" 4 no_allocator] show ?thesis
    unfolding len by (simp add: demo_header_def)
qed


section \<open>Streams the loop does not end on\<close>

definition no_prefix_ahead :: "memory \<Rightarrow> JpegDecContainer \<Rightarrow> bool" where
  "no_prefix_ahead mem c \<longleftrightarrow> strm_bytes_ok (c_stream c) \<and> img_headerReady (c_image c) = 0 \<and>
     (\<forall>k < strm_left (c_stream c). strm_at mem (c_stream c) k \<noteq> 0xFF)"

lemma no_prefix_pass:
  assumes "no_prefix_ahead mem c" "cb \<noteq> 0xFFFFFFFF"
  shows "\<exists>c'. NextScan_pass mem malloc al (cb, False, c) = Continue (cb, False, c') \<and> no_prefix_ahead mem c'"
proof (cases "0 < strm_left (c_stream c)")
  case True
  have ok: "strm_bytes_ok (c_stream c)" using assms(1) by (simp add: no_prefix_ahead_def)
  note a = strm_adv_ok [OF ok, of "Suc 0"]
  show ?thesis
    using assms True a by (auto simp: NextScan_pass_def getByte_eq ok no_prefix_ahead_def strm_at_adv)
next
  case False
  have e: "STRM_ERROR \<noteq> 0xFF" by (simp add: STRM_ERROR_def)
  show ?thesis
    using assms False e by (auto simp: NextScan_pass_def getByte_eq no_prefix_ahead_def)
qed

lemma no_prefix_loop:
  assumes "no_prefix_ahead mem c" "cb \<noteq> 0xFFFFFFFF"
  shows "whileLoop n NextScan_more (NextScan_pass mem malloc al) (cb, False, c) = OutOfFuel"
  using assms
proof (induction n arbitrary: c)
  case 0
  then show ?case using more_ok [of c cb] by (simp add: no_prefix_ahead_def)
next
  case (Suc n)
  then obtain c' where "NextScan_pass mem malloc al (cb, False, c) = Continue (cb, False, c')" "no_prefix_ahead mem c'"
    using no_prefix_pass by blast
  then show ?case using Suc more_ok [of c cb] by (simp add: no_prefix_ahead_def)
qed

text \<open>
  C19. JpegDecNextScanHdrs never returns on a stream whose rest has no FF byte, for instance one cut
  off after a scan: at the end JpegDecGetByte fails again and again without moving, but the loop
  tests the code of the last marker (currentByte) for the error value, not the byte it just read, and
  its condition readBits / 8 <= streamLength stays true. No number of passes is enough.
\<close>

theorem NextScanHdrs_hangs:
  assumes "strm_bytes_ok (c_stream c)" "stream_has mem (c_stream c) bs" "length bs = strm_left (c_stream c)"
    "0xFF \<notin> set bs"
  shows "JpegDecNextScanHdrs fuel mem malloc al c = OutOfFuel"
proof -
  let ?c = "c_image_update (\<lambda>i. i\<lparr>img_headerReady := 0\<rparr>) c"
  have "strm_at mem (c_stream c) k \<noteq> 0xFF" if "k < strm_left (c_stream c)" for k
  proof
    assume "strm_at mem (c_stream c) k = 0xFF"
    then have "unat (ucast (bs ! k) :: u32) = 255" using that assms(2,3) by (simp add: stream_has_def)
    then have "bs ! k = 0xFF" by (simp add: word_unat_eq_iff)
    then show False using assms(3,4) that nth_mem [of k bs] by simp
  qed
  then have "no_prefix_ahead mem ?c" using assms(1) by (simp add: no_prefix_ahead_def)
  then obtain c' where "NextScan_pass mem malloc al (0, False, ?c) = Continue (0, False, c')" "no_prefix_ahead mem c'"
    using no_prefix_pass [of mem ?c 0] by auto
  then show ?thesis
    using no_prefix_loop [of mem c' 0 fuel] by (simp add: JpegDecNextScanHdrs_def)
qed

lemma NextScanHdrs_hangs_witness:
  "JpegDecNextScanHdrs 1000 (memory_of 0 [1, 2, 3]) (\<lambda>n. True) no_allocator
     (zero_JpegDecContainer\<lparr>c_stream := stream_of 0 3\<rparr>) = OutOfFuel"
proof (rule NextScanHdrs_hangs)
  show "stream_has (memory_of 0 [1, 2, 3]) (c_stream (zero_JpegDecContainer\<lparr>c_stream := stream_of 0 3\<rparr>)) [1, 2, 3]"
    using stream_of_has [of "[1, 2, 3]" 3 0] by simp
qed (use stream_of_ok(1) [of 3 0] stream_of_ok(2) [of 0 3] in \<open>simp_all add: jpeg_consts\<close>)

text \<open>
  An application or comment segment whose length field is 1, which is shorter than the field
  itself, throws the read pointer out of the stream: the length in bits minus 16 wraps around, so that
  pCurrPos moves by 2^29 - 1 bytes while readBits moves back by eight bits.
\<close>

lemma skip_APPn_leaves_stream:
  assumes "strm_bytes_ok (c_stream c)" "stream_has mem (c_stream c) (be16 1 @ bs)"
  shows "\<exists>c'. skip_APPn mem c = Continue c' \<and>
    st_pCurrPos (c_stream c') = st_pCurrPos (c_stream c) + 2 + 0x1FFFFFFF \<and>
    st_readBits (c_stream c') = st_readBits (c_stream c) + 8 \<and> \<not> strm_ok (c_stream c')"
proof -
  note g = get2Bytes_be16 [OF assms]
  have e: "(1 :: u32) \<noteq> STRM_ERROR" by (simp add: STRM_ERROR_def)
  have d: "(- 8 :: u32) div 8 = 0x1FFFFFFF" by simp
  let ?s = "jump_segment 1 (strm_adv 2 (c_stream c))"
  have p: "st_pCurrPos ?s = st_pCurrPos (c_stream c) + 2 + 0x1FFFFFFF" "st_readBits ?s = st_readBits (c_stream c) + 8"
    "st_streamLength ?s = st_streamLength (c_stream c)" "st_pStartOfStream ?s = st_pStartOfStream (c_stream c)"
    by (simp_all add: jump_segment_def strm_adv_def d)
  have ok: "strm_ok (c_stream c)" using assms(1) by (simp add: strm_bytes_ok_def)
  have "unat (st_pCurrPos (c_stream c) - st_pStartOfStream (c_stream c)) < 2 ^ 24" "unat (st_streamLength (c_stream c)) < 2 ^ 24"
    using ok by (simp_all add: strm_ok_def jpeg_consts word_le_nat_alt)
  note lim = this
  moreover have "unat (536870913 :: u32) = 536870913" by simp
  ultimately have "unat (st_pCurrPos (c_stream c) - st_pStartOfStream (c_stream c) + 536870913) =
      unat (st_pCurrPos (c_stream c) - st_pStartOfStream (c_stream c)) + 536870913"
    by (subst u32_add) simp_all
  moreover have "st_pCurrPos ?s - st_pStartOfStream ?s = st_pCurrPos (c_stream c) - st_pStartOfStream (c_stream c) + 536870913"
    unfolding p by simp
  ultimately have "\<not> st_pCurrPos ?s - st_pStartOfStream ?s \<le> st_streamLength ?s"
    using lim(2) p(3) by (simp add: word_le_nat_alt)
  then show ?thesis
    using g(1) e p by (simp add: skip_APPn_def strm_ok_def)
qed


lemma skip_APPn_leaves_stream_witness:
  "\<exists>c'. skip_APPn (memory_of 0 [0, 1]) (zero_JpegDecContainer\<lparr>c_stream := stream_of 0 2\<rparr>) = Continue c' \<and> \<not> strm_ok (c_stream c')"
proof -
  let ?c = "zero_JpegDecContainer\<lparr>c_stream := stream_of 0 2\<rparr>"
  have "stream_has (memory_of 0 [0, 1]) (c_stream ?c) (be16 1 @ [])"
    using stream_of_has [of "[0, 1]" 2 0] by (simp add: be16_def)
  moreover have "strm_bytes_ok (c_stream ?c)" using stream_of_ok(1) [of 2 0] by (simp add: jpeg_consts)
  ultimately show ?thesis using skip_APPn_leaves_stream [of ?c "memory_of 0 [0, 1]" "[]"] by blast
qed

end
