(* ===== verification/ImageInfo.thy ===== *)
theory ImageInfo
  imports ScanHdrs
begin

text \<open>
  JpegDecGetImageInfo (jpegdecapi.c): what a caller learns of a picture before it is decoded. The
  function walks over the markers of the header with a reader of its own, up to the first scan, and
  fills a JpegDecImageInfo; a JPEG thumbnail in an extended APP0 segment is walked over in the same
  way. The two loops get fuel; that it is enough is a theorem below. The trace messages are not
  modelled, and the local i, which is only incremented, is left out.
\<close>

section \<open>Arguments and locals\<close>

record JpegDecLinearMem =
  lm_pVirtualAddress :: addr
  lm_busAddress :: u32

record JpegDecInput =
  in_streamBuffer :: JpegDecLinearMem
  in_streamLength :: u32
  in_bufferSize :: u32
  in_decImageType :: u32
  in_sliceMbSet :: u32
  in_pictureBufferY :: JpegDecLinearMem
  in_pictureBufferCbCr :: JpegDecLinearMem
  in_pictureBufferCr :: JpegDecLinearMem

record JpegDecImageInfo =
  ii_displayWidth :: u32
  ii_displayHeight :: u32
  ii_outputWidth :: u32
  ii_outputHeight :: u32
  ii_version :: u32
  ii_units :: u32
  ii_xDensity :: u32
  ii_yDensity :: u32
  ii_outputFormat :: u32
  ii_codingMode :: u32
  ii_thumbnailType :: u32
  ii_displayWidthThumb :: u32
  ii_displayHeightThumb :: u32
  ii_outputWidthThumb :: u32
  ii_outputHeightThumb :: u32
  ii_outputFormatThumb :: u32
  ii_codingModeThumb :: u32

record info_vars =
  gi_c :: JpegDecContainer
  gi_info :: JpegDecImageInfo
  gi_stream :: StreamStorage
  gi_currentByte :: u32
  gi_errorCode :: bool
  gi_thumbnail :: bool
  gi_init :: bool
  gi_initThumb :: bool
  gi_H :: "u32 list"
  gi_V :: "u32 list"
  gi_Htn :: "u32 list"
  gi_Vtn :: "u32 list"
  gi_appBits :: u32
  gi_appLength :: u32

type_synonym info_step = "(JpegDecRet \<times> info_vars, info_vars) outcome"

definition gi_byte :: "memory \<Rightarrow> info_vars \<Rightarrow> u32 \<times> info_vars" where
  "gi_byte mem g = (let (v, s) = JpegDecGetByte mem (gi_stream g) in (v, g\<lparr>gi_stream := s\<rparr>))"

definition gi_2bytes :: "memory \<Rightarrow> info_vars \<Rightarrow> u32 \<times> info_vars" where
  "gi_2bytes mem g = (let (v, s) = JpegDecGet2Bytes mem (gi_stream g) in (v, g\<lparr>gi_stream := s\<rparr>))"

definition gi_flush :: "memory \<Rightarrow> u32 \<Rightarrow> info_vars \<Rightarrow> u32 \<times> info_vars" where
  "gi_flush mem bits g = (let (v, s) = JpegDecFlushBits mem (gi_stream g) bits in (v, g\<lparr>gi_stream := s\<rparr>))"

text \<open>errorCode = 1; break.\<close>

definition gi_error :: "info_vars \<Rightarrow> info_step" where
  "gi_error g = Continue (g\<lparr>gi_errorCode := True\<rparr>)"

definition set_appnFlag :: "u32 \<Rightarrow> info_vars \<Rightarrow> info_vars" where
  "set_appnFlag v = gi_stream_update (\<lambda>s. s\<lparr>st_appnFlag := v\<rparr>)"

text \<open>A segment length, and the check that the segment ends in the stream.\<close>

definition length_fits :: "StreamStorage \<Rightarrow> u32 \<Rightarrow> bool" where
  "length_fits s headerLength \<longleftrightarrow> headerLength \<noteq> STRM_ERROR \<and>
     \<not> st_readBits s + (headerLength * 8 - 16) > 8 * st_streamLength s"

definition with_length :: "memory \<Rightarrow> (u32 \<Rightarrow> info_vars \<Rightarrow> info_step) \<Rightarrow> info_vars \<Rightarrow> info_step" where
  "with_length mem f g =
     (let (headerLength, g) = gi_2bytes mem g
      in if length_fits (gi_stream g) headerLength then f headerLength g else gi_error g)"

definition gi_jump :: "u32 \<Rightarrow> info_vars \<Rightarrow> info_vars" where
  "gi_jump headerLength g =
     (if headerLength \<noteq> 0 then gi_stream_update (jump_segment headerLength) g else g)"

definition info_skip :: "memory \<Rightarrow> info_vars \<Rightarrow> info_step" where
  "info_skip mem = with_length mem (\<lambda>headerLength g. Continue (gi_jump headerLength g))"

definition round_up_16 :: "u32 \<Rightarrow> u32" where
  "round_up_16 x = (x + 0xF) AND NOT 0xF"

section \<open>SOF0 and SOF2\<close>

definition info_lines :: "memory \<Rightarrow> info_vars \<Rightarrow> info_step" where
  "info_lines mem g =
     (let (y, g) = gi_2bytes mem g;
          g = gi_info_update (\<lambda>i. i\<lparr>ii_outputHeight := y, ii_displayHeight := y\<rparr>) g
      in if y < 1 then Return (JPEGDEC_UNSUPPORTED, g)
         else Continue (gi_c_update (c_frame_update (\<lambda>f. f\<lparr>fr_hwY := round_up_16 y\<rparr>))
                (gi_info_update (\<lambda>i. i\<lparr>ii_outputHeight := round_up_16 y\<rparr>) g)))"

definition info_samples :: "memory \<Rightarrow> info_vars \<Rightarrow> info_step" where
  "info_samples mem g =
     (let (x, g) = gi_2bytes mem g;
          g = gi_info_update (\<lambda>i. i\<lparr>ii_outputWidth := x, ii_displayWidth := x\<rparr>) g
      in if x < 1 then Return (JPEGDEC_UNSUPPORTED, g)
         else Continue (gi_c_update (c_frame_update (\<lambda>f. f\<lparr>fr_hwX := round_up_16 x\<rparr>))
                (gi_info_update (\<lambda>i. i\<lparr>ii_outputWidth := round_up_16 x\<rparr>) g)))"

definition info_size_ok :: "info_vars \<Rightarrow> bool" where
  "info_size_ok g =
     (let i = gi_info g; c = gi_c g
      in \<not> (ii_outputWidth i < c_minSupportedWidth c \<or> ii_outputHeight i < c_minSupportedHeight c \<or>
        ii_outputWidth i > c_maxSupportedWidth c \<or> ii_outputHeight i > c_maxSupportedHeight c \<or>
        ii_outputWidth i * ii_outputHeight i > c_maxSupportedPixelAmount c))"

text \<open>The sampling factors of the components; the loop may be left early.\<close>

record sampling_vars =
  sv_left :: bool
  sv_H :: "u32 list"
  sv_V :: "u32 list"
  sv_Hmax :: u32
  sv_Vmax :: u32

definition sampling_start :: "u32 list \<Rightarrow> u32 list \<Rightarrow> sampling_vars" where
  "sampling_start H V = \<lparr>sv_left = False, sv_H = H, sv_V = V, sv_Hmax = 0, sv_Vmax = 0\<rparr>"

definition sampling_one :: "memory \<Rightarrow> nat \<Rightarrow> sampling_vars \<times> info_vars \<Rightarrow> sampling_vars \<times> info_vars" where
  "sampling_one mem j = (\<lambda>(v, g).
     let (r, g) = gi_flush mem 8 g
     in if r = STRM_ERROR then (v\<lparr>sv_left := True\<rparr>, g\<lparr>gi_errorCode := True\<rparr>)
     else let (currentByte, g) = gi_byte mem g;
              g = g\<lparr>gi_currentByte := currentByte\<rparr>;
              h = drop_bit 4 currentByte;
              w = currentByte AND 0xF;
              v = v\<lparr>sv_H := (sv_H v)[j := h], sv_V := (sv_V v)[j := w]\<rparr>;
              (r, g) = gi_flush mem 8 g
     in if r = STRM_ERROR then (v\<lparr>sv_left := True\<rparr>, g\<lparr>gi_errorCode := True\<rparr>)
     else (v\<lparr>sv_Hmax := (if h > sv_Hmax v then h else sv_Hmax v),
             sv_Vmax := (if w > sv_Vmax v then w else sv_Vmax v)\<rparr>, g))"

definition sampling_factors ::
  "memory \<Rightarrow> nat \<Rightarrow> u32 list \<Rightarrow> u32 list \<Rightarrow> info_vars \<Rightarrow> sampling_vars \<times> info_vars" where
  "sampling_factors mem Nf H V g =
     fold (\<lambda>j (v, g). if sv_left v then (v, g) else sampling_one mem j (v, g)) [0..<Nf] (sampling_start H V, g)"

text \<open>The format of the factors; ext stands for extensionsSupported, is8190 for a thumbnail.\<close>

definition chroma_11 :: "u32 list \<Rightarrow> u32 list \<Rightarrow> bool" where
  "chroma_11 H V \<longleftrightarrow> H ! 1 = 1 \<and> V ! 1 = 1 \<and> H ! 2 = 1 \<and> V ! 2 = 1"

definition info_format :: "bool \<Rightarrow> u32 list \<Rightarrow> u32 list \<Rightarrow> u32 option" where
  "info_format ext H V =
     (if H ! 0 = 2 \<and> V ! 0 = 2 \<and> chroma_11 H V then Some JPEGDEC_YCbCr420_SEMIPLANAR
      else if H ! 0 = 2 \<and> V ! 0 = 1 \<and> chroma_11 H V then Some JPEGDEC_YCbCr422_SEMIPLANAR
      else if H ! 0 = 1 \<and> V ! 0 = 2 \<and> chroma_11 H V then Some JPEGDEC_YCbCr440
      else if H ! 0 = 1 \<and> V ! 0 = 1 \<and> H ! 1 = 0 \<and> V ! 1 = 0 \<and> H ! 2 = 0 \<and> V ! 2 = 0 then Some JPEGDEC_YCbCr400
      else if ext \<and> H ! 0 = 4 \<and> V ! 0 = 1 \<and> chroma_11 H V then Some JPEGDEC_YCbCr411_SEMIPLANAR
      else if ext \<and> H ! 0 = 1 \<and> V ! 0 = 1 \<and> chroma_11 H V then Some JPEGDEC_YCbCr444_SEMIPLANAR
      else None)"

text \<open>The MCUs in a row of hwX pixels, and the pixels of an MCU, by the format.\<close>

definition mcu_shape :: "u32 \<Rightarrow> u32 \<times> u32" where
  "mcu_shape fmt =
     (if fmt = JPEGDEC_YCbCr420_SEMIPLANAR then (16, 256)
      else if fmt = JPEGDEC_YCbCr422_SEMIPLANAR then (16, 128)
      else if fmt = JPEGDEC_YCbCr440 then (8, 128)
      else if fmt = JPEGDEC_YCbCr411_SEMIPLANAR then (32, 256)
      else (8, 64))"

text \<open>A 4:1:1 picture is widened to a multiple of 32 pixels, and its size checked again.\<close>

definition info_411 :: "info_vars \<Rightarrow> info_step" where
  "info_411 g =
     (let w = ii_outputWidth (gi_info g);
          g = (if w AND 0x1F \<noteq> 0
               then gi_c_update (c_frame_update (\<lambda>f. f\<lparr>fr_hwX := w + 16\<rparr>))
                      (gi_info_update (\<lambda>i. i\<lparr>ii_outputWidth := w + 16\<rparr>) g)
               else g);
          i = gi_info g; c = gi_c g
      in if ii_outputWidth i > c_maxSupportedWidth c \<or>
            ii_outputWidth i * ii_outputHeight i > c_maxSupportedPixelAmount c
         then Return (JPEGDEC_UNSUPPORTED, g) else Continue g)"

definition info_set_format :: "u32 \<Rightarrow> info_vars \<Rightarrow> info_vars" where
  "info_set_format fmt g =
     (let (row, area) = mcu_shape fmt
      in gi_c_update (\<lambda>c.
           c_info_update (\<lambda>i. i\<lparr>inf_yCbCrMode := fmt, inf_getInfoYCbCrMode := fmt\<rparr>)
             (c_frame_update (\<lambda>f. f\<lparr>fr_numMcuInRow := fr_hwX f div row,
                fr_numMcuInFrame := fr_hwX f * fr_hwY f div area\<rparr>) c))
           (gi_info_update (\<lambda>i. i\<lparr>ii_outputFormat := fmt\<rparr>) g))"

definition info_check_format :: "info_vars \<Rightarrow> info_step" where
  "info_check_format g =
     (case info_format (c_extensionsSupported (gi_c g) \<noteq> 0) (gi_H g) (gi_V g) of
        None \<Rightarrow> Return (JPEGDEC_UNSUPPORTED, g)
      | Some fmt \<Rightarrow>
          andThen (if fmt = JPEGDEC_YCbCr411_SEMIPLANAR then info_411 g else Continue g)
            (\<lambda>g. Continue (info_set_format fmt g)))"

definition info_components :: "memory \<Rightarrow> info_vars \<Rightarrow> info_step" where
  "info_components mem g =
     (let (Nf, g) = gi_byte mem g
      in if Nf \<noteq> 3 \<and> Nf \<noteq> 1 then Return (JPEGDEC_UNSUPPORTED, g)
      else let (v, g) = sampling_factors mem (unat Nf) (gi_H g) (gi_V g) g;
               g = g\<lparr>gi_H := sv_H v, gi_V := sv_V v\<rparr>
      in if sv_Hmax v = 0 \<or> sv_Vmax v = 0 then Return (JPEGDEC_UNSUPPORTED, g)
      else info_check_format g)"

definition info_SOF :: "memory \<Rightarrow> info_vars \<Rightarrow> info_step" where
  "info_SOF mem g =
     (let mode = (if gi_currentByte g = SOF0 then JPEGDEC_BASELINE else JPEGDEC_PROGRESSIVE);
          g = gi_info_update (\<lambda>i. i\<lparr>ii_codingMode := mode\<rparr>)
                (gi_c_update (c_info_update (\<lambda>i. i\<lparr>inf_operationType := mode\<rparr>)) g)
      in with_length mem (\<lambda>headerLength g.
           let (currentByte, g) = gi_byte mem g; g = g\<lparr>gi_currentByte := currentByte\<rparr>
           in if currentByte \<noteq> 8 then Return (JPEGDEC_UNSUPPORTED, g)
           else andThen (info_lines mem g) (\<lambda>g.
                andThen (info_samples mem g) (\<lambda>g.
                if info_size_ok g then info_components mem g else Return (JPEGDEC_UNSUPPORTED, g)))) g)"

section \<open>SOS and DRI\<close>

text \<open>The jump counts the byte Ns twice: it has been read when the whole header is skipped.\<close>

definition info_SOS :: "memory \<Rightarrow> info_vars \<Rightarrow> info_step" where
  "info_SOS mem = with_length mem (\<lambda>headerLength g.
     let (Ns, g) = gi_byte mem g;
         g = (if Ns = MIN_NUMBER_OF_COMPONENTS \<and> ii_outputFormat (gi_info g) \<noteq> JPEGDEC_YCbCr400 \<and>
                 ii_codingMode (gi_info g) = JPEGDEC_BASELINE
              then gi_info_update (\<lambda>i. i\<lparr>ii_codingMode := JPEGDEC_NONINTERLEAVED\<rparr>)
                     (gi_c_update (c_info_update (\<lambda>i. i\<lparr>inf_operationType := JPEGDEC_NONINTERLEAVED\<rparr>)) g)
              else g);
         g = gi_jump headerLength g
     in if st_readBits (gi_stream g) + 8 < 8 * st_streamLength (gi_stream g)
        then Continue ((gi_c_update (c_info_update (\<lambda>i. i\<lparr>inf_init := 1\<rparr>)) g)\<lparr>gi_init := True\<rparr>)
        else Return (JPEGDEC_INCREASE_INPUT_BUFFER, g))"

definition info_DRI :: "memory \<Rightarrow> info_vars \<Rightarrow> info_step" where
  "info_DRI mem = with_length mem (\<lambda>_. with_length mem (\<lambda>headerLength g.
     Continue (gi_c_update (c_frame_update (\<lambda>f. f\<lparr>fr_Ri := headerLength\<rparr>)) g)))"

section \<open>The thumbnail\<close>

definition add_appBits :: "u32 \<Rightarrow> info_vars \<Rightarrow> info_vars" where
  "add_appBits n = gi_appBits_update (\<lambda>b. b + n)"

definition thumb_lines :: "memory \<Rightarrow> info_vars \<Rightarrow> info_step" where
  "thumb_lines mem g =
     (let (y, g) = gi_2bytes mem g;
          g = gi_info_update (\<lambda>i. i\<lparr>ii_outputHeightThumb := y, ii_displayHeightThumb := y\<rparr>) (add_appBits 16 g)
      in if y < 1 then Return (JPEGDEC_UNSUPPORTED, g)
         else Continue (gi_info_update (\<lambda>i. i\<lparr>ii_outputHeightThumb := round_up_16 y\<rparr>) g))"

definition thumb_samples :: "memory \<Rightarrow> info_vars \<Rightarrow> info_step" where
  "thumb_samples mem g =
     (let (x, g) = gi_2bytes mem g;
          g = gi_info_update (\<lambda>i. i\<lparr>ii_outputWidthThumb := x, ii_displayWidthThumb := x\<rparr>) (add_appBits 16 g)
      in if x < 1 then Return (JPEGDEC_UNSUPPORTED, g)
         else Continue (gi_info_update (\<lambda>i. i\<lparr>ii_outputWidthThumb := round_up_16 x\<rparr>) g))"

definition thumb_size_ok :: "info_vars \<Rightarrow> bool" where
  "thumb_size_ok g =
     (let i = gi_info g; c = gi_c g
      in \<not> (ii_outputWidthThumb i < c_minSupportedWidth c \<or> ii_outputHeightThumb i < c_minSupportedHeight c \<or>
        ii_outputWidthThumb i > JPEGDEC_MAX_WIDTH_TN \<or> ii_outputHeightThumb i > JPEGDEC_MAX_HEIGHT_TN))"

text \<open>
  The loop over the components is that of the picture, with appBits counted: 8 for the identifier,
  8 for the factors, 8 for Tq, as far as they were read.
\<close>

definition thumb_one :: "memory \<Rightarrow> nat \<Rightarrow> sampling_vars \<times> info_vars \<Rightarrow> sampling_vars \<times> info_vars" where
  "thumb_one mem j = (\<lambda>(v, g).
     let (r, g) = gi_flush mem 8 g
     in if r = STRM_ERROR then (v\<lparr>sv_left := True\<rparr>, g\<lparr>gi_errorCode := True\<rparr>)
     else let g = add_appBits 8 g;
              (currentByte, g) = gi_byte mem g;
              g = add_appBits 8 (g\<lparr>gi_currentByte := currentByte\<rparr>);
              h = drop_bit 4 currentByte;
              w = currentByte AND 0xF;
              v = v\<lparr>sv_H := (sv_H v)[j := h], sv_V := (sv_V v)[j := w]\<rparr>;
              (r, g) = gi_flush mem 8 g
     in if r = STRM_ERROR then (v\<lparr>sv_left := True\<rparr>, g\<lparr>gi_errorCode := True\<rparr>)
     else (v\<lparr>sv_Hmax := (if h > sv_Hmax v then h else sv_Hmax v),
             sv_Vmax := (if w > sv_Vmax v then w else sv_Vmax v)\<rparr>, add_appBits 8 g))"

definition thumb_factors ::
  "memory \<Rightarrow> nat \<Rightarrow> u32 list \<Rightarrow> u32 list \<Rightarrow> info_vars \<Rightarrow> sampling_vars \<times> info_vars" where
  "thumb_factors mem Nf H V g =
     fold (\<lambda>j (v, g). if sv_left v then (v, g) else thumb_one mem j (v, g)) [0..<Nf] (sampling_start H V, g)"

definition thumb_components :: "memory \<Rightarrow> info_vars \<Rightarrow> info_step" where
  "thumb_components mem g =
     (let (Nf, g) = gi_byte mem g; g = add_appBits 8 g
      in if Nf \<noteq> 3 \<and> Nf \<noteq> 1 then Return (JPEGDEC_UNSUPPORTED, g)
      else let (v, g) = thumb_factors mem (unat Nf) (gi_Htn g) (gi_Vtn g) g;
               g = g\<lparr>gi_Htn := sv_H v, gi_Vtn := sv_V v\<rparr>
      in if sv_Hmax v = 0 \<or> sv_Vmax v = 0 then Return (JPEGDEC_UNSUPPORTED, g)
      else case info_format (c_is8190 (gi_c g) \<noteq> 0) (gi_Htn g) (gi_Vtn g) of
             None \<Rightarrow> Return (JPEGDEC_UNSUPPORTED, g)
           | Some fmt \<Rightarrow>
               Continue ((gi_c_update (c_info_update (\<lambda>i. i\<lparr>inf_initThumb := 1\<rparr>))
                 (gi_info_update (\<lambda>i. i\<lparr>ii_outputFormatThumb := fmt\<rparr>) g))\<lparr>gi_initThumb := True\<rparr>))"

definition thumb_SOF :: "memory \<Rightarrow> info_vars \<Rightarrow> info_step" where
  "thumb_SOF mem g =
     (let mode = (if gi_currentByte g = SOF0 then JPEGDEC_BASELINE else JPEGDEC_PROGRESSIVE);
          g = gi_info_update (\<lambda>i. i\<lparr>ii_codingModeThumb := mode\<rparr>)
                (gi_c_update (c_info_update (\<lambda>i. i\<lparr>inf_operationTypeThumb := mode\<rparr>)) g);
          (r, g) = gi_flush mem 16 g
      in if r = STRM_ERROR then gi_error g
      else let g = add_appBits 16 g; (currentByte, g) = gi_byte mem g;
               g = add_appBits 8 (g\<lparr>gi_currentByte := currentByte\<rparr>)
      in if currentByte \<noteq> 8 then Return (JPEGDEC_UNSUPPORTED, g)
      else andThen (thumb_lines mem g) (\<lambda>g.
           andThen (thumb_samples mem g) (\<lambda>g.
           if thumb_size_ok g then thumb_components mem g else Return (JPEGDEC_UNSUPPORTED, g))))"

definition thumb_SOS :: "memory \<Rightarrow> info_vars \<Rightarrow> info_step" where
  "thumb_SOS mem = with_length mem (\<lambda>headerLength g.
     let (Ns, g) = gi_byte mem g;
         g = (if Ns = MIN_NUMBER_OF_COMPONENTS \<and> ii_outputFormatThumb (gi_info g) \<noteq> JPEGDEC_YCbCr400 \<and>
                 ii_codingModeThumb (gi_info g) = JPEGDEC_BASELINE
              then gi_info_update (\<lambda>i. i\<lparr>ii_codingModeThumb := JPEGDEC_NONINTERLEAVED\<rparr>)
                     (gi_c_update (c_info_update (\<lambda>i. i\<lparr>inf_operationTypeThumb := JPEGDEC_NONINTERLEAVED\<rparr>)) g)
              else g);
         g = gi_jump headerLength g
     in if st_readBits (gi_stream g) + 8 < 8 * st_streamLength (gi_stream g)
        then Continue ((gi_c_update (c_info_update (\<lambda>i. i\<lparr>inf_init := 1\<rparr>)) g)\<lparr>gi_init := True\<rparr>)
        else Return (JPEGDEC_INCREASE_INPUT_BUFFER, g))"

text \<open>A segment inside the thumbnail: no check that it ends in the stream.\<close>

definition thumb_skip :: "memory \<Rightarrow> info_vars \<Rightarrow> info_step" where
  "thumb_skip mem g =
     (let (headerLength, g) = gi_2bytes mem g
      in if headerLength = STRM_ERROR then gi_error g
         else Continue (add_appBits (headerLength * 8) (gi_jump headerLength g)))"

definition INFO_SKIPPED :: "u32 list" where
  "INFO_SKIPPED =
     [APP1, APP2, APP3, APP4, APP5, APP6, APP7, APP8, APP9, APP10, APP11, APP12, APP13, APP14, APP15, DNL, M_COM]"

definition INFO_UNSUPPORTED :: "u32 list" where
  "INFO_UNSUPPORTED = [SOF1, SOF3, SOF5, SOF6, SOF7, SOF9, SOF10, SOF11, SOF13, SOF14, SOF15, DAC, DHP]"

definition thumb_marker :: "memory \<Rightarrow> info_vars \<Rightarrow> info_step" where
  "thumb_marker mem g =
     (let m = gi_currentByte g
      in if m = SOF0 \<or> m = SOF2 then thumb_SOF mem g
         else if m = SOS then thumb_SOS mem g
         else if m \<in> set (DQT # DHT # DRI # APP0 # INFO_SKIPPED) then thumb_skip mem g
         else if m \<in> set INFO_UNSUPPORTED then Return (JPEGDEC_UNSUPPORTED, g)
         else Continue g)"

text \<open>readBits++ at the end of a pass that did not leave the loop.\<close>

definition next_bit :: "info_vars \<Rightarrow> info_vars" where
  "next_bit = gi_stream_update (\<lambda>s. s\<lparr>st_readBits := st_readBits s + 1\<rparr>)"

definition thumb_pass :: "memory \<Rightarrow> JpegDecInput \<Rightarrow> bool \<times> info_vars \<Rightarrow>
  (JpegDecRet \<times> info_vars, bool \<times> info_vars) outcome" where
  "thumb_pass mem inp = (\<lambda>(left, g).
     let g = add_appBits 8 g; (b, g) = gi_byte mem g
     in if b = 0xFF then
       (let g = add_appBits 8 g; (currentByte, g) = gi_byte mem g
        in andThen (thumb_marker mem (g\<lparr>gi_currentByte := currentByte\<rparr>)) (\<lambda>g.
             if inf_initThumb (c_info (gi_c g)) \<noteq> 0 \<and> gi_initThumb g then
               (let (r, g) = gi_flush mem (gi_appLength g * 8 - gi_appBits g) g
                in if r = STRM_ERROR then Continue (True, g\<lparr>gi_errorCode := True\<rparr>)
                   else Continue (True, set_appnFlag 0 g))
             else Continue (False, next_bit g)))
     else if inf_initThumb (c_info (gi_c g)) = 0 \<and> in_bufferSize inp \<noteq> 0
       then Return (JPEGDEC_INCREASE_INPUT_BUFFER, g)
       else Return (JPEGDEC_STRM_ERROR, g))"

definition info_more :: "bool \<times> info_vars \<Rightarrow> bool" where
  "info_more = (\<lambda>(left, g). \<not> left \<and> st_readBits (gi_stream g) div 8 < st_streamLength (gi_stream g))"

definition info_thumbnail :: "nat \<Rightarrow> memory \<Rightarrow> JpegDecInput \<Rightarrow> info_vars \<Rightarrow> info_step" where
  "info_thumbnail fuel mem inp g =
     andThen (whileLoop fuel info_more (thumb_pass mem inp) (False, g)) (\<lambda>(left, g). Continue g)"

section \<open>APP0\<close>

text \<open>The rest of the segment is passed over as data: set appnFlag, flush, errorCode on failure.\<close>

definition info_flush_rest :: "memory \<Rightarrow> info_vars \<Rightarrow> info_step" where
  "info_flush_rest mem g =
     (let (r, g) = gi_flush mem (gi_appLength g * 8 - gi_appBits g) (set_appnFlag 1 g)
      in if r = STRM_ERROR then gi_error g else Continue g)"

definition info_flush_rest_reset :: "memory \<Rightarrow> info_vars \<Rightarrow> info_step" where
  "info_flush_rest_reset mem g =
     (let (r, g) = gi_flush mem (gi_appLength g * 8 - gi_appBits g) (set_appnFlag 1 g)
      in if r = STRM_ERROR then gi_error g else Continue (set_appnFlag 0 g))"

definition info_JFIF :: "memory \<Rightarrow> info_vars \<Rightarrow> info_step" where
  "info_JFIF mem g =
     (let (version, g) = gi_2bytes mem g;
          g = add_appBits 16 (gi_info_update (\<lambda>i. i\<lparr>ii_version := version\<rparr>) g);
          (currentByte, g) = gi_byte mem g;
          g = add_appBits 8 (gi_info_update (\<lambda>i. i\<lparr>ii_units :=
                (if currentByte = 0 \<or> currentByte = 1 \<or> currentByte = 2 then currentByte else ii_units i)\<rparr>)
                (g\<lparr>gi_currentByte := currentByte\<rparr>));
          (x, g) = gi_2bytes mem g;
          g = add_appBits 16 (gi_info_update (\<lambda>i. i\<lparr>ii_xDensity := x\<rparr>) g);
          (y, g) = gi_2bytes mem g;
          g = add_appBits 16 (gi_info_update (\<lambda>i. i\<lparr>ii_yDensity := y\<rparr>) g)
      in info_flush_rest_reset mem g)"

definition info_APP0_thumb :: "nat \<Rightarrow> memory \<Rightarrow> JpegDecInput \<Rightarrow> info_vars \<Rightarrow> info_step" where
  "info_APP0_thumb fuel mem inp g =
     (let (currentByte, g) = gi_byte mem g; g = g\<lparr>gi_currentByte := currentByte\<rparr>
      in if currentByte = JPEGDEC_THUMBNAIL_JPEG then
        info_thumbnail fuel mem inp
          (set_appnFlag 1 (add_appBits 8 (gi_info_update (\<lambda>i. i\<lparr>ii_thumbnailType := JPEGDEC_THUMBNAIL_JPEG\<rparr>) g)))
      else info_flush_rest_reset mem
          (add_appBits 8 (gi_info_update (\<lambda>i. i\<lparr>ii_thumbnailType := JPEGDEC_THUMBNAIL_NOT_SUPPORTED_FORMAT\<rparr>) g)))"

text \<open>
  The identifier: JF, then IF or XX, then 0. thumbnail is set by XX and never reset.
\<close>

definition info_APP0_identifier :: "nat \<Rightarrow> memory \<Rightarrow> JpegDecInput \<Rightarrow> info_vars \<Rightarrow> info_step" where
  "info_APP0_identifier fuel mem inp g =
     (let (currentBytes, g) = gi_2bytes mem (add_appBits 16 g); g = add_appBits 16 g
      in if currentBytes \<noteq> 0x4A46 then info_flush_rest mem g
      else let (currentBytes, g) = gi_2bytes mem g; g = add_appBits 16 g
      in if currentBytes \<noteq> 0x4946 \<and> currentBytes \<noteq> 0x5858 then info_flush_rest mem g
      else let g = (if currentBytes = 0x5858 then g\<lparr>gi_thumbnail := True\<rparr> else g);
               (currentByte, g) = gi_byte mem g;
               g = add_appBits 8 (g\<lparr>gi_currentByte := currentByte\<rparr>)
      in if currentByte \<noteq> 0 then info_flush_rest_reset mem g
      else if gi_thumbnail g then info_APP0_thumb fuel mem inp g
      else info_JFIF mem g)"

definition info_APP0 :: "nat \<Rightarrow> memory \<Rightarrow> JpegDecInput \<Rightarrow> info_vars \<Rightarrow> info_step" where
  "info_APP0 fuel mem inp g =
     with_length mem (\<lambda>headerLength g.
       let g = g\<lparr>gi_appLength := headerLength\<rparr>
       in if headerLength < 16 then
         (let (r, g) = gi_flush mem (headerLength * 8 - 16) (set_appnFlag 1 g)
          in if r = STRM_ERROR then gi_error g else Continue g)
       else info_APP0_identifier fuel mem inp g)
     (set_appnFlag 0 (g\<lparr>gi_appBits := 0, gi_appLength := 0\<rparr>))"

section \<open>JpegDecGetImageInfo\<close>

definition info_marker :: "nat \<Rightarrow> memory \<Rightarrow> JpegDecInput \<Rightarrow> info_vars \<Rightarrow> info_step" where
  "info_marker fuel mem inp g =
     (let m = gi_currentByte g
      in if m = SOF0 \<or> m = SOF2 then info_SOF mem g
         else if m = SOS then info_SOS mem g
         else if m = DRI then info_DRI mem g
         else if m = APP0 then info_APP0 fuel mem inp g
         else if m \<in> set (DQT # DHT # INFO_SKIPPED) then info_skip mem g
         else if m \<in> set INFO_UNSUPPORTED then Return (JPEGDEC_UNSUPPORTED, g)
         else Continue g)"

definition info_pass :: "nat \<Rightarrow> memory \<Rightarrow> JpegDecInput \<Rightarrow> bool \<times> info_vars \<Rightarrow>
  (JpegDecRet \<times> info_vars, bool \<times> info_vars) outcome" where
  "info_pass fuel mem inp = (\<lambda>(left, g).
     let (b, g) = (if gi_currentByte g = 0xFF then (0xFF, g) else gi_byte mem g)
     in if b = 0xFF then
       (let (currentByte, g) = gi_byte mem g
        in andThen (info_marker fuel mem inp (g\<lparr>gi_currentByte := currentByte\<rparr>)) (\<lambda>g.
             if inf_init (c_info (gi_c g)) \<noteq> 0 \<and> gi_init g then Continue (True, g)
             else if gi_errorCode g then
               Return (if in_bufferSize inp \<noteq> 0 then JPEGDEC_INCREASE_INPUT_BUFFER else JPEGDEC_STRM_ERROR, g)
             else Continue (False, next_bit g)))
     else Return (if inf_init (c_info (gi_c g)) = 0 then JPEGDEC_INCREASE_INPUT_BUFFER else JPEGDEC_STRM_ERROR, g))"

definition info_start :: "JpegDecInput \<Rightarrow> JpegDecImageInfo \<Rightarrow> JpegDecContainer \<Rightarrow> info_vars" where
  "info_start inp info c =
     (let p = lm_pVirtualAddress (in_streamBuffer inp)
      in \<lparr>gi_c = c,
          gi_info = info\<lparr>ii_displayWidth := 0, ii_displayHeight := 0, ii_outputWidth := 0, ii_outputHeight := 0,
            ii_version := 0, ii_units := 0, ii_xDensity := 0, ii_yDensity := 0, ii_outputFormat := 0,
            ii_thumbnailType := JPEGDEC_NO_THUMBNAIL, ii_displayWidthThumb := 0, ii_displayHeightThumb := 0,
            ii_outputWidthThumb := 0, ii_outputHeightThumb := 0, ii_outputFormatThumb := 0\<rparr>,
          gi_stream = zero_StreamStorage\<lparr>st_pCurrPos := p, st_pStartOfStream := p,
            st_streamLength := (if in_bufferSize inp = 0 then in_streamLength inp else in_bufferSize inp)\<rparr>,
          gi_currentByte = 0, gi_errorCode = False, gi_thumbnail = False, gi_init = False, gi_initThumb = False,
          gi_H = [0, 0, 0], gi_V = [0, 0, 0], gi_Htn = [0, 0, 0], gi_Vtn = [0, 0, 0], gi_appBits = 0, gi_appLength = 0\<rparr>)"

text \<open>RK70_CHECK_VIRTUAL_ADDRESS, and the checks of the sizes; None when they pass.\<close>

definition bad_virtual_address :: "addr \<Rightarrow> bool" where
  "bad_virtual_address p \<longleftrightarrow> p < 64"

definition bad_buffer_size :: "u32 \<Rightarrow> bool" where
  "bad_buffer_size n \<longleftrightarrow> n < JPEGDEC_RK70_MIN_BUFFER \<or> n > JPEGDEC_RK70_MAX_BUFFER"

definition info_check :: "JpegDecInput \<Rightarrow> JpegDecRet option" where
  "info_check inp =
     (if bad_virtual_address (lm_pVirtualAddress (in_streamBuffer inp)) then Some JPEGDEC_PARAM_ERROR
      else if in_streamLength inp < 1 then Some JPEGDEC_INVALID_STREAM_LENGTH
      else if in_streamLength inp > DEC_RK70_MAX_STREAM \<and> bad_buffer_size (in_bufferSize inp)
        then Some JPEGDEC_INVALID_INPUT_BUFFER_SIZE
      else if in_bufferSize inp \<noteq> 0 \<and> bad_buffer_size (in_bufferSize inp)
        then Some JPEGDEC_INVALID_INPUT_BUFFER_SIZE
      else None)"

text \<open>
  The three pointers are not null here, a null pointer gives JPEGDEC_PARAM_ERROR. The result is the
  return code, the container and the image information.
\<close>

definition info_finish :: "JpegDecInput \<Rightarrow> info_vars \<Rightarrow> JpegDecRet \<times> info_vars" where
  "info_finish inp g =
     (if inf_init (c_info (gi_c g)) \<noteq> 0 then
        (JPEGDEC_OK, if in_bufferSize inp \<noteq> 0
           then gi_c_update (c_info_update (\<lambda>i. i\<lparr>inf_initBufferSize := in_bufferSize inp\<rparr>)) g else g)
      else (JPEGDEC_ERROR, g))"

definition JpegDecGetImageInfo ::
  "nat \<Rightarrow> memory \<Rightarrow> JpegDecContainer option \<Rightarrow> JpegDecInput option \<Rightarrow> JpegDecImageInfo option \<Rightarrow>
   (JpegDecRet \<times> info_vars option, unit) outcome" where
  "JpegDecGetImageInfo fuel mem decInst pDecIn pImageInfo =
     (case (decInst, pDecIn, pImageInfo) of
        (Some c, Some inp, Some info) \<Rightarrow>
          (case info_check inp of
             Some ret \<Rightarrow> Return (ret, None)
           | None \<Rightarrow>
               (case andThen (whileLoop fuel info_more (info_pass fuel mem inp) (False, info_start inp info c))
                       (\<lambda>(left, g). Return (info_finish inp g)) of
                  Return (ret, g) \<Rightarrow> Return (ret, Some g)
                | Continue (u :: unit) \<Rightarrow> Undefined
                | Undefined \<Rightarrow> Undefined
                | OutOfFuel \<Rightarrow> OutOfFuel))
      | _ \<Rightarrow> Return (JPEGDEC_PARAM_ERROR, None))"

end
