(* ===== verification/Decode.thy ===== *)
theory Decode
  imports EmptyScan ScanHdrs ImageInfo
begin

text \<open>
  JpegDecDecode (jpegdecapi.c), the call that decodes a picture, a slice or a scan: it checks its
  arguments, parses headers up to a scan, programs the core, waits for its interrupt and decides from
  the status what the caller gets. The core is a parameter: the reply of the driver to the ioctl that
  waits for it, a function of all messages it was sent. The trace messages are not modelled and ASSERT
  is empty.
\<close>

section \<open>The driver\<close>

text \<open>The ioctl VPU_IOC_GET_REG: its result, and the registers it stores.\<close>

record get_reg_reply =
  gr_ret :: int
  gr_regs :: "nat \<Rightarrow> u32"

type_synonym core = "JpegdIocRegInfo list \<Rightarrow> get_reg_reply"

datatype VPU_CMD_TYPE =
    VPU_CMD_REGISTER | VPU_CMD_REGISTER_ACK_OK | VPU_CMD_REGISTER_ACK_FAIL | VPU_CMD_UNREGISTER
  | VPU_SEND_CONFIG | VPU_SEND_CONFIG_ACK_OK | VPU_SEND_CONFIG_ACK_FAIL
  | VPU_GET_HW_INFO | VPU_GET_HW_INFO_ACK_OK | VPU_GET_HW_INFO_ACK_FAIL | VPU_CMD_BUTT

definition VPU_SUCCESS :: int where "VPU_SUCCESS = 0"
definition DWL_HW_WAIT_OK :: int where "DWL_HW_WAIT_OK = 0"
definition DWL_HW_WAIT_ERROR :: int where "DWL_HW_WAIT_ERROR = - 1"
definition DWL_HW_WAIT_TIMEOUT :: int where "DWL_HW_WAIT_TIMEOUT = 1"

lemmas dwl_defs = VPU_SUCCESS_def DWL_HW_WAIT_OK_def DWL_HW_WAIT_ERROR_def DWL_HW_WAIT_TIMEOUT_def

definition VPUClientWaitResult :: "core \<Rightarrow> hw_state \<Rightarrow> int \<times> VPU_CMD_TYPE \<times> hw_state" where
  "VPUClientWaitResult core h =
     (let r = core (hw_sent h);
          h = h\<lparr>hw_c := (hw_c h)\<lparr>c_jpegRegs := map (gr_regs r) [0..<DEC_RK70_REGISTERS]\<rparr>\<rparr>
      in (gr_ret r, if gr_ret r \<noteq> 0 then VPU_SEND_CONFIG_ACK_FAIL else VPU_SEND_CONFIG_ACK_OK, h))"

definition wait_result :: "core \<Rightarrow> hw_state \<Rightarrow> int \<times> hw_state" where
  "wait_result core h =
     (let (dwlret, cmd, h) = VPUClientWaitResult core h
      in (if VPU_SUCCESS \<noteq> dwlret \<or> cmd \<noteq> VPU_SEND_CONFIG_ACK_OK then DWL_HW_WAIT_ERROR else dwlret, h))"

definition JPEGDEC_RK70_IRQ_DEC_RDY :: u32 where "JPEGDEC_RK70_IRQ_DEC_RDY = 0x1"
definition JPEGDEC_RK70_IRQ_BUS_ERROR :: u32 where "JPEGDEC_RK70_IRQ_BUS_ERROR = 0x2"
definition JPEGDEC_RK70_IRQ_BUFFER_EMPTY :: u32 where "JPEGDEC_RK70_IRQ_BUFFER_EMPTY = 0x4"
definition JPEGDEC_RK70_IRQ_STREAM_ERROR :: u32 where "JPEGDEC_RK70_IRQ_STREAM_ERROR = 0x100"
definition JPEGDEC_RK70_IRQ_TIMEOUT :: u32 where "JPEGDEC_RK70_IRQ_TIMEOUT = 0x200"

lemmas irq_defs = JPEGDEC_RK70_IRQ_DEC_RDY_def JPEGDEC_RK70_IRQ_BUS_ERROR_def
  JPEGDEC_RK70_IRQ_BUFFER_EMPTY_def JPEGDEC_RK70_IRQ_STREAM_ERROR_def JPEGDEC_RK70_IRQ_TIMEOUT_def

section \<open>Output and locals\<close>

record JpegDecOutput =
  out_outputPictureY :: JpegDecLinearMem
  out_outputPictureCbCr :: JpegDecLinearMem
  out_outputPictureCr :: JpegDecLinearMem

record decode_vars =
  dv_h :: hw_state
  dv_out :: JpegDecOutput
  dv_currentByte :: u32
  dv_findhufftable :: bool
  dv_endOfImage :: bool
  dv_nonInterleavedRdy :: bool

type_synonym 'a decoding = "(JpegDecRet \<times> decode_vars, 'a) outcome"

abbreviation dv_c :: "decode_vars \<Rightarrow> JpegDecContainer" where "dv_c v \<equiv> hw_c (dv_h v)"

definition on_dc :: "(JpegDecContainer \<Rightarrow> JpegDecContainer) \<Rightarrow> decode_vars \<Rightarrow> decode_vars" where
  "on_dc f v = v\<lparr>dv_h := on_c f (dv_h v)\<rparr>"

abbreviation on_info :: "(DecInfo \<Rightarrow> DecInfo) \<Rightarrow> decode_vars \<Rightarrow> decode_vars" where
  "on_info f \<equiv> on_dc (c_info_update f)"

abbreviation on_image :: "(ImageData \<Rightarrow> ImageData) \<Rightarrow> decode_vars \<Rightarrow> decode_vars" where
  "on_image f \<equiv> on_dc (c_image_update f)"

text \<open>A step of the container, and of the hardware interface, inside JpegDecDecode.\<close>

fun in_c :: "decode_vars \<Rightarrow> JpegDecContainer step \<Rightarrow> decode_vars decoding" where
  "in_c v (Continue c) = Continue (on_dc (\<lambda>_. c) v)"
| "in_c v (Return r) = Return (fst r, on_dc (\<lambda>_. snd r) v)"
| "in_c v Undefined = Undefined"
| "in_c v OutOfFuel = OutOfFuel"

fun in_h :: "decode_vars \<Rightarrow> (unit, hw_state) outcome \<Rightarrow> decode_vars decoding" where
  "in_h v (Continue h) = Continue (v\<lparr>dv_h := h\<rparr>)"
| "in_h v (Return u) = Undefined"
| "in_h v Undefined = Undefined"
| "in_h v OutOfFuel = OutOfFuel"

definition dv_byte :: "memory \<Rightarrow> decode_vars \<Rightarrow> u32 \<times> decode_vars" where
  "dv_byte mem v = (let (b, c) = getByte mem (dv_c v) in (b, on_dc (\<lambda>_. c) v))"

definition dv_2bytes :: "memory \<Rightarrow> decode_vars \<Rightarrow> u32 \<times> decode_vars" where
  "dv_2bytes mem v = (let (b, c) = get2Bytes mem (dv_c v) in (b, on_dc (\<lambda>_. c) v))"

section \<open>The arguments\<close>

definition half_null :: "JpegDecLinearMem \<Rightarrow> bool" where
  "half_null m \<longleftrightarrow> lm_pVirtualAddress m = 0 \<and> lm_busAddress m \<noteq> 0 \<or> lm_pVirtualAddress m \<noteq> 0 \<and> lm_busAddress m = 0"

definition decode_check :: "JpegDecContainer \<Rightarrow> JpegDecInput \<Rightarrow> JpegDecRet option" where
  "decode_check c inp =
     (let i = c_info c; size_bad = bad_buffer_size (in_bufferSize inp) in
      if bad_virtual_address (lm_pVirtualAddress (in_streamBuffer inp)) then Some JPEGDEC_PARAM_ERROR
      else if in_decImageType inp \<noteq> 0 \<and> in_decImageType inp \<noteq> 1 then Some JPEGDEC_PARAM_ERROR
      else if half_null (in_pictureBufferY inp) \<or> half_null (in_pictureBufferCbCr inp) then Some JPEGDEC_PARAM_ERROR
      else if in_streamLength inp < 1 then Some JPEGDEC_INVALID_STREAM_LENGTH
      else if inf_streamEndFlag i = 0 \<and>
         (inf_inputBufferEmpty i = 0 \<and> in_streamLength inp > DEC_RK70_MAX_STREAM \<and> size_bad \<or>
          inf_inputBufferEmpty i = 0 \<and> in_bufferSize inp \<noteq> 0 \<and> size_bad \<or>
          inf_inputBufferEmpty i = 0 \<and> inf_init i \<noteq> 0 \<and> in_bufferSize inp < inf_initBufferSize i)
        then Some JPEGDEC_INVALID_INPUT_BUFFER_SIZE
      else None)"

text \<open>infoTmp is not initialised.\<close>

definition decode_info :: "nat \<Rightarrow> memory \<Rightarrow> JpegDecImageInfo \<Rightarrow> JpegDecInput \<Rightarrow> JpegDecContainer \<Rightarrow> JpegDecContainer step" where
  "decode_info fuel mem infoTmp inp c =
     (if inf_init (c_info c) = 0 \<and> inf_SliceReadyForPause (c_info c) = 0 \<and> inf_inputBufferEmpty (c_info c) = 0 then
        (case JpegDecGetImageInfo fuel mem (Some c) (Some inp) (Some infoTmp) of
           Return (infoRet, g) \<Rightarrow>
             (let c = (case g of Some g \<Rightarrow> gi_c g | None \<Rightarrow> c)
              in if infoRet \<noteq> JPEGDEC_OK then Return (infoRet, c) else Continue c)
         | Continue u \<Rightarrow> Undefined
         | Undefined \<Rightarrow> Undefined
         | OutOfFuel \<Rightarrow> OutOfFuel)
      else Continue c)"

definition null_mem :: JpegDecLinearMem where
  "null_mem = \<lparr>lm_pVirtualAddress = 0, lm_busAddress = 0\<rparr>"

definition start_of_buffer :: "JpegDecInput \<Rightarrow> StreamStorage \<Rightarrow> StreamStorage" where
  "start_of_buffer inp s =
     (let p = lm_pVirtualAddress (in_streamBuffer inp)
      in s\<lparr>st_bitPosInByte := 0, st_pCurrPos := p, st_streamBus := lm_busAddress (in_streamBuffer inp),
           st_pStartOfStream := p\<rparr>)"

text \<open>A new picture starts at the beginning of the buffer, a later scan where the last one ended.\<close>

definition decode_stream :: "JpegDecInput \<Rightarrow> decode_vars \<Rightarrow> decode_vars" where
  "decode_stream inp v =
     (let i = c_info (dv_c v)
      in if inf_progressiveScanReady i = 0 \<and> inf_nonInterleavedScanReady i = 0 then
           (on_dc (\<lambda>c. c\<lparr>c_stream := (start_of_buffer inp (c_stream c))\<lparr>st_readBits := 0,
              st_streamLength := in_streamLength inp, st_appnFlag := 0\<rparr>\<rparr>) v)
             \<lparr>dv_out := \<lparr>out_outputPictureY = null_mem, out_outputPictureCbCr = null_mem, out_outputPictureCr = null_mem\<rparr>\<rparr>
         else on_image (\<lambda>m. m\<lparr>img_headerReady := 0\<rparr>) v)"

definition mcuSizeDivider :: "JpegDecContainer \<Rightarrow> u32" where
  "mcuSizeDivider c =
     (let m = inf_getInfoYCbCrMode (c_info c)
      in if m = JPEGDEC_YCbCr400 \<or> m = JPEGDEC_YCbCr440 \<or> m = JPEGDEC_YCbCr444_SEMIPLANAR then 2 else 1)"

definition slice_mcus :: "JpegDecContainer \<Rightarrow> JpegDecInput \<Rightarrow> u32" where
  "slice_mcus c inp = in_sliceMbSet inp * (fr_numMcuInRow (c_frame c) div mcuSizeDivider c)"

text \<open>What the hardware supports; None when the picture passes.\<close>

definition decode_supported :: "JpegDecInput \<Rightarrow> JpegDecContainer \<Rightarrow> JpegDecRet option" where
  "decode_supported inp c =
     (let i = c_info c; op = inf_operationType i; slices = in_sliceMbSet inp \<noteq> 0 in
      if c_is8190 c = 0 then
        (if op = JPEGDEC_NONINTERLEAVED \<or> op = JPEGDEC_PROGRESSIVE then Some JPEGDEC_UNSUPPORTED
         else if slice_mcus c inp > c_maxSupportedSliceSize c then Some JPEGDEC_PARAM_ERROR
         else if \<not> slices \<and> fr_numMcuInFrame (c_frame c) > c_maxSupportedSliceSize c then Some JPEGDEC_PARAM_ERROR
         else None)
      else if c_fuseBurned c \<noteq> 0 \<and> op = JPEGDEC_PROGRESSIVE then Some JPEGDEC_UNSUPPORTED
      else if slices \<and> in_decImageType inp = JPEGDEC_IMAGE \<and> op \<noteq> JPEGDEC_BASELINE \<or>
              slices \<and> in_decImageType inp = JPEGDEC_THUMBNAIL \<and> inf_operationTypeThumb i \<noteq> JPEGDEC_BASELINE
        then Some JPEGDEC_SLICE_MODE_UNSUPPORTED
      else if \<not> slices \<and> fr_hwX (c_frame c) * fr_hwY (c_frame c) > JPEGDEC_MAX_PIXEL_AMOUNT then Some JPEGDEC_PARAM_ERROR
      else if slice_mcus c inp > c_maxSupportedSliceSize c then Some JPEGDEC_PARAM_ERROR
      else None)"

definition decode_slice_fits :: "JpegDecInput \<Rightarrow> JpegDecContainer \<Rightarrow> bool" where
  "decode_slice_fits inp c \<longleftrightarrow>
     \<not> (in_sliceMbSet inp \<noteq> 0 \<and> inf_SliceReadyForPause (c_info c) = 0 \<and> inf_inputBufferEmpty (c_info c) = 0 \<and>
        slice_mcus c inp > fr_numMcuInFrame (c_frame c))"

definition input_length :: "JpegDecInput \<Rightarrow> u32" where
  "input_length inp = (if in_bufferSize inp \<noteq> 0 then in_bufferSize inp else in_streamLength inp)"

definition decode_refill :: "JpegDecInput \<Rightarrow> JpegDecContainer \<Rightarrow> JpegDecContainer" where
  "decode_refill inp c =
     (if inf_inputBufferEmpty (c_info c) \<noteq> 0 then
        c\<lparr>c_stream := start_of_buffer inp (c_stream c),
          c_info := (c_info c)\<lparr>inf_inputStreaming := 1, inf_inputBufferLen := input_length inp,
            inf_decodedStreamLen := inf_decodedStreamLen (c_info c) + input_length inp\<rparr>\<rparr>
      else c)"

definition given_buffer :: "JpegDecLinearMem \<Rightarrow> MppBufferInfo \<Rightarrow> MppBufferInfo" where
  "given_buffer m b = b\<lparr>mb_vir_addr := lm_pVirtualAddress m, mb_phy_addr := lm_busAddress m\<rparr>"

definition decode_given :: "JpegDecInput \<Rightarrow> DecInfo \<Rightarrow> DecInfo" where
  "decode_given inp i =
     i\<lparr>inf_givenOutLuma := given_buffer (in_pictureBufferY inp) (inf_givenOutLuma i),
       inf_givenOutChroma := given_buffer (in_pictureBufferCbCr inp) (inf_givenOutChroma i),
       inf_givenOutChroma2 := given_buffer (in_pictureBufferCr inp) (inf_givenOutChroma2 i)\<rparr>"

definition decode_streaming :: "JpegDecInput \<Rightarrow> DecInfo \<Rightarrow> DecInfo" where
  "decode_streaming inp i =
     (if inf_SliceReadyForPause i = 0 \<and> inf_inputBufferEmpty i = 0 \<and> in_bufferSize inp \<noteq> 0
      then i\<lparr>inf_inputStreaming := 1, inf_inputBufferLen := in_bufferSize inp,
             inf_decodedStreamLen := inf_decodedStreamLen i + in_bufferSize inp\<rparr>
      else i)"

section \<open>The headers\<close>

text \<open>The rest of an APP0 segment is passed over as data.\<close>

definition decode_flush_rest :: "memory \<Rightarrow> u32 \<Rightarrow> decode_vars \<Rightarrow> decode_vars decoding" where
  "decode_flush_rest mem bits v =
     (let c = dv_c v;
          (r, s) = JpegDecFlushBits mem ((c_stream c)\<lparr>st_appnFlag := 1\<rparr>) bits
      in if r = STRM_ERROR then Return (JPEGDEC_STRM_ERROR, on_dc (\<lambda>c. c\<lparr>c_stream := s\<rparr>) v)
         else Continue (on_dc (\<lambda>c. c\<lparr>c_stream := s\<lparr>st_appnFlag := 0\<rparr>\<rparr>) v))"

definition decode_APP0_thumb :: "memory \<Rightarrow> decode_vars \<Rightarrow> decode_vars decoding" where
  "decode_APP0_thumb mem v =
     (let (appLength, v) = dv_2bytes mem v; (currentBytes, v) = dv_2bytes mem v
      in if currentBytes \<noteq> 0x4A46 then decode_flush_rest mem (appLength * 8 - 32) v
      else let (currentBytes, v) = dv_2bytes mem v
      in if currentBytes \<noteq> 0x5858 then decode_flush_rest mem (appLength * 8 - 48) v
      else let (currentByte, v) = dv_byte mem v; v = v\<lparr>dv_currentByte := currentByte\<rparr>
      in if currentByte \<noteq> 0 then decode_flush_rest mem (appLength * 8 - 56) v
      else let (currentByte, v) = dv_byte mem v;
               v = on_dc (c_stream_update (\<lambda>s. s\<lparr>st_appnFlag := 0\<rparr>)) (v\<lparr>dv_currentByte := currentByte\<rparr>)
      in if currentByte \<noteq> JPEGDEC_THUMBNAIL_JPEG then Return (JPEGDEC_UNSUPPORTED, v)
         else Continue (on_dc (c_stream_update (\<lambda>s. s\<lparr>st_thumbnail := 1\<rparr>)) v))"

definition decode_APP0 :: "memory \<Rightarrow> JpegDecInput \<Rightarrow> decode_vars \<Rightarrow> decode_vars decoding" where
  "decode_APP0 mem inp v =
     (if in_decImageType inp = JPEGDEC_THUMBNAIL then decode_APP0_thumb mem v
      else let (currentBytes, v) = dv_2bytes mem v in decode_flush_rest mem ((currentBytes - 2) * 8) v)"

definition decode_SOF :: "memory \<Rightarrow> u32 \<Rightarrow> JpegDecContainer \<Rightarrow> JpegDecContainer step" where
  "decode_SOF mem m c =
     go_on (JpegDecDecodeFrameHdr mem
       (c_info_update (\<lambda>i. i\<lparr>inf_operationType := (if m = SOF0 then JPEGDEC_BASELINE else JPEGDEC_PROGRESSIVE)\<rparr>)
         (c_frame_update (\<lambda>f. f\<lparr>fr_codingType := m\<rparr>) c)))"

definition decode_marker ::
  "memory \<Rightarrow> (u32 \<Rightarrow> bool) \<Rightarrow> os_allocator \<Rightarrow> JpegDecInput \<Rightarrow> decode_vars \<Rightarrow> decode_vars decoding" where
  "decode_marker mem malloc al inp v =
     (let m = dv_currentByte v; c = dv_c v in
      if m = 0 then Continue v
      else if m = SOF0 \<or> m = SOF2 then in_c v (decode_SOF mem m c)
      else if m = SOS then in_c v (NextScan_SOS mem al c)
      else if m = DHT then
        andThen (in_c v (go_on (JpegDecDecodeHuffmanTables mem malloc c))) (\<lambda>v. Continue (v\<lparr>dv_findhufftable := True\<rparr>))
      else if m = DQT then in_c v (go_on (JpegDecDecodeQuantTables mem c))
      else if m = SOI then Continue v
      else if m = EOI then
        Return (if img_imageReady (c_image c) \<noteq> 0 then JPEGDEC_FRAME_READY else JPEGDEC_ERROR, v)
      else if m = DRI then
        andThen (in_c v (decode_DRI mem c)) (\<lambda>v. Continue (on_dc (\<lambda>c. c\<lparr>c_dri_en := 0xffd0\<rparr>) v))
      else if m \<in> set RST_MARKERS then Continue (on_dc clear_pred v)
      else if m \<in> set UNSUPPORTED_MARKERS then Return (JPEGDEC_UNSUPPORTED, v)
      else if m = APP0 then decode_APP0 mem inp v
      else if m \<in> set SKIPPED_MARKERS then in_c v (skip_APPn mem c)
      else Continue v)"

text \<open>
  One pass: whether the loop was left, and the state. The headers of a picture that is decoded in
  slices are read only once.
\<close>

definition decode_pass ::
  "memory \<Rightarrow> (u32 \<Rightarrow> bool) \<Rightarrow> os_allocator \<Rightarrow> JpegDecInput \<Rightarrow> bool \<times> decode_vars \<Rightarrow> (bool \<times> decode_vars) decoding" where
  "decode_pass mem malloc al inp = (\<lambda>(left, v).
     if img_headerReady (c_image (dv_c v)) \<noteq> 0 \<and> inf_SliceReadyForPause (c_info (dv_c v)) \<noteq> 0 then Continue (True, v)
     else let (b, v) = (if dv_currentByte v = 0xFF then (0xFF, v) else dv_byte mem v) in
     if b = 0xFF then
       (let (currentByte, v) = dv_byte mem v
        in andThen (decode_marker mem malloc al inp (v\<lparr>dv_currentByte := currentByte\<rparr>)) (\<lambda>v.
             Continue (img_headerReady (c_image (dv_c v)) \<noteq> 0, v)))
     else Continue (dv_currentByte v = 0xFFFFFFFF \<or> img_headerReady (c_image (dv_c v)) \<noteq> 0, v))"

definition decode_more :: "bool \<times> decode_vars \<Rightarrow> bool" where
  "decode_more = (\<lambda>(left, v).
     \<not> left \<and> drop_bit 3 (st_readBits (c_stream (dv_c v))) \<le> st_streamLength (c_stream (dv_c v)))"

text \<open>The result of JpegDefaultHuffmanTables is not used.\<close>

definition decode_default_tables :: "(u32 \<Rightarrow> bool) \<Rightarrow> decode_vars \<Rightarrow> decode_vars decoding" where
  "decode_default_tables malloc v =
     (if dv_findhufftable v then Continue v
      else case JpegDefaultHuffmanTables malloc (dv_c v) of
        Return (r, c) \<Rightarrow> Continue (on_dc (\<lambda>_. c) v)
      | Continue u \<Rightarrow> Undefined
      | Undefined \<Rightarrow> Undefined
      | OutOfFuel \<Rightarrow> OutOfFuel)"

definition decode_headers ::
  "nat \<Rightarrow> memory \<Rightarrow> (u32 \<Rightarrow> bool) \<Rightarrow> os_allocator \<Rightarrow> JpegDecInput \<Rightarrow> decode_vars \<Rightarrow> decode_vars decoding" where
  "decode_headers fuel mem malloc al inp v =
     andThen (decode_pass mem malloc al inp (False, v)) (\<lambda>st.
     andThen (whileLoop fuel decode_more (decode_pass mem malloc al inp) st) (\<lambda>(left, v).
       decode_default_tables malloc v))"

section \<open>Output\<close>

definition plane_of :: "MppBufferInfo \<Rightarrow> JpegDecLinearMem" where
  "plane_of b = \<lparr>lm_pVirtualAddress = mb_vir_addr b, lm_busAddress = mb_phy_addr b\<rparr>"

text \<open>The addresses of the planes; those of the chroma planes only of a picture that has them.\<close>

definition set_planes ::
  "JpegDecLinearMem \<Rightarrow> JpegDecLinearMem \<Rightarrow> JpegDecLinearMem \<Rightarrow> decode_vars \<Rightarrow> decode_vars" where
  "set_planes y cb cr v = v\<lparr>dv_out :=
     (let out = (dv_out v)\<lparr>out_outputPictureY := y\<rparr>
      in if img_sizeChroma (c_image (dv_c v)) \<noteq> 0
         then out\<lparr>out_outputPictureCbCr := cb, out_outputPictureCr := cr\<rparr> else out)\<rparr>"

definition set_output :: "decode_vars \<Rightarrow> decode_vars" where
  "set_output v = (let i = c_info (dv_c v)
     in set_planes (plane_of (inf_outLuma i)) (plane_of (inf_outChroma i)) (plane_of (inf_outChroma2 i)) v)"

definition set_given_output :: "decode_vars \<Rightarrow> decode_vars" where
  "set_given_output v = (let i = c_info (dv_c v)
     in set_planes (plane_of (inf_givenOutLuma i)) (plane_of (inf_givenOutChroma i)) (plane_of (inf_givenOutChroma2 i)) v)"

definition output_without_pp :: "decode_vars \<Rightarrow> decode_vars" where
  "output_without_pp v = (if c_ppInstance (dv_c v) = 0 then set_output v else v)"

section \<open>Starting the core and waiting for it\<close>

definition decode_program :: "decode_vars \<Rightarrow> decode_vars decoding" where
  "decode_program v =
     (let i = c_info (dv_c v) in
      if inf_SliceReadyForPause i = 0 then
        (if inf_progressiveScanReady i = 0 \<or> inf_nonInterleavedScanReady i \<noteq> 0 then
           andThen (in_h v (JpegDecInitHW (dv_h v))) (\<lambda>v. Continue (on_info (\<lambda>i. i\<lparr>inf_nonInterleavedScanReady := 0\<rparr>) v))
         else
           andThen (in_h v (JpegDecInitHWProgressiveContinue (dv_h v))) (\<lambda>v.
             Continue (on_info (\<lambda>i. i\<lparr>inf_progressiveScanReady := 0\<rparr>) v)))
      else Continue (v\<lparr>dv_h := JpegDecInitHWContinue (dv_h v)\<rparr>))"

definition decode_start :: "decode_vars \<Rightarrow> decode_vars decoding" where
  "decode_start v =
     (let v = (if c_ppInstance (dv_c v) \<noteq> 0 then on_dc (c_ppControl_update (\<lambda>p. p\<lparr>pp_usePipeline := 1\<rparr>)) v else v);
          c = dv_c v
      in if inf_inputBufferEmpty (c_info c) = 0 then
        (let v = (if inf_sliceMbSetValue (c_info c) \<noteq> 0 \<and> pp_usePipeline (c_ppControl c) = 0
                  then on_dc JpegDecSliceSizeCalculation v else v)
         in andThen (decode_program v) (\<lambda>v. Continue (on_info (\<lambda>i. i\<lparr>inf_SliceCount := inf_SliceCount i + 1\<rparr>) v)))
      else Continue (on_info (\<lambda>i. i\<lparr>inf_inputBufferEmpty := 0\<rparr>)
             (v\<lparr>dv_h := JpegDecInitHWInputBuffLoad (dv_h v)\<rparr>)))"

definition not_running :: "decode_vars \<Rightarrow> decode_vars" where
  "not_running = on_dc (\<lambda>c. c\<lparr>c_asicRunning := 0\<rparr>)"

text \<open>wait_result has no other value than the one tested first and the error.\<close>

definition decode_wait :: "core \<Rightarrow> decode_vars \<Rightarrow> decode_vars decoding" where
  "decode_wait core v =
     (let (dwlret, h) = wait_result core (dv_h v); v = v\<lparr>dv_h := h\<rparr> in
      if dwlret = DWL_HW_WAIT_OK then Continue v
      else if dwlret = DWL_HW_WAIT_TIMEOUT then Return (JPEGDEC_DWL_HW_TIMEOUT, not_running v)
      else Return (JPEGDEC_SYSTEM_ERROR, not_running v))"

definition get_reg :: "nat \<Rightarrow> decode_vars \<Rightarrow> u32" where
  "get_reg fid v = GetRegisterFile (c_jpegRegs (dv_c v)) fid"

definition put_regs :: "(nat \<times> u32) list \<Rightarrow> decode_vars \<Rightarrow> decode_vars" where
  "put_regs ws = on_dc (set_regs ws)"

definition JPEGDEC_CLEAR_IRQ :: "decode_vars \<Rightarrow> decode_vars" where
  "JPEGDEC_CLEAR_IRQ = put_regs [(HWIF_DEC_IRQ_STAT, 0), (HWIF_DEC_IRQ, 0)]"

definition not_ready :: "decode_vars \<Rightarrow> decode_vars" where
  "not_ready = on_image (\<lambda>m. m\<lparr>img_imageReady := 0, img_headerReady := 0\<rparr>)"

text \<open>A timeout at a picture whose last rows are not whole blocks is taken for its end.\<close>

definition timeout_at_end :: "u32 \<Rightarrow> JpegDecContainer \<Rightarrow> bool" where
  "timeout_at_end asic_status c \<longleftrightarrow> asic_status AND JPEGDEC_RK70_IRQ_TIMEOUT \<noteq> 0 \<and> fr_Y (c_frame c) mod 16 \<noteq> 0 \<and>
     (inf_yCbCrMode (c_info c) = JPEGDEC_YUV422 \<or> inf_yCbCrMode (c_info c) = JPEGDEC_YUV444 \<or>
      inf_yCbCrMode (c_info c) = JPEGDEC_YUV411)"

definition decode_buffer_empty :: "decode_vars \<Rightarrow> decode_vars" where
  "decode_buffer_empty v =
     (let v = on_info (\<lambda>i. i\<lparr>inf_inputBufferEmpty := 1\<rparr>) (put_regs [(HWIF_DEC_BUFFER_INT, 0)] v);
          i = c_info (dv_c v);
          v = (if inf_decodedStreamLen i + inf_inputBufferLen i \<ge> st_streamLength (c_stream (dv_c v))
               then on_info (\<lambda>i. i\<lparr>inf_streamEndFlag := 1\<rparr>) v else v)
      in output_without_pp v)"

definition decode_irq :: "decode_vars \<Rightarrow> decode_vars decoding" where
  "decode_irq v =
     (let asic_status = get_reg HWIF_DEC_IRQ_STAT v in
      if asic_status AND JPEGDEC_RK70_IRQ_BUS_ERROR \<noteq> 0 then
        Return (JPEGDEC_HW_BUS_ERROR, not_ready (not_running (JPEGDEC_CLEAR_IRQ v)))
      else if asic_status AND JPEGDEC_RK70_IRQ_STREAM_ERROR \<noteq> 0 \<or> asic_status AND JPEGDEC_RK70_IRQ_TIMEOUT \<noteq> 0 then
        (let v = not_ready (output_without_pp (not_running (JPEGDEC_CLEAR_IRQ v)))
         in Return (if timeout_at_end asic_status (dv_c v) then JPEGDEC_FRAME_READY else JPEGDEC_STRM_ERROR, v))
      else if asic_status AND JPEGDEC_RK70_IRQ_BUFFER_EMPTY \<noteq> 0 \<and> asic_status AND JPEGDEC_RK70_IRQ_DEC_RDY = 0 then
        Return (JPEGDEC_STRM_PROCESSED, decode_buffer_empty v)
      else
        (let v = put_regs [(HWIF_DEC_RDY_INT, 0)] v
         in Continue (if get_reg HWIF_DEC_IRQ v \<noteq> 0 then put_regs [(HWIF_DEC_IRQ, 0)] v else v)))"

section \<open>A slice is ready\<close>

definition slice_ready :: "decode_vars \<Rightarrow> bool" where
  "slice_ready v \<longleftrightarrow> get_reg HWIF_JPEG_SLICE_H v \<noteq> 0 \<and> get_reg HWIF_DEC_SLICE_INT v \<noteq> 0"

definition slice_pause :: "decode_vars \<Rightarrow> decode_vars" where
  "slice_pause v =
     (let c = dv_c v;
          pause = (if c_ppInstance c = 0 then 1 else 0);
          pause = (if c_ppInstance c \<noteq> 0 \<and> pp_usePipeline (c_ppControl c) = 0 then 1 else pause)
      in on_info (\<lambda>i. i\<lparr>inf_SliceReadyForPause := pause\<rparr>) v)"

text \<open>The planes of the slice: those the caller gave, or those of the picture.\<close>

definition slice_output :: "decode_vars \<Rightarrow> decode_vars" where
  "slice_output v =
     (let i = c_info (dv_c v);
          v = (if inf_userAllocMem i = 1 \<and> inf_SliceReadyForPause i = 1 then set_given_output v else v)
      in if inf_userAllocMem i = 0 \<and> inf_SliceReadyForPause i = 1 then set_output v else v)"

definition decode_slice :: "decode_vars \<Rightarrow> decode_vars decoding" where
  "decode_slice v =
     (let v = slice_output (slice_pause v); c = dv_c v
      in if c_ppInstance c \<noteq> 0 \<and> pp_usePipeline (c_ppControl c) = 0
         then Continue (on_info (\<lambda>i. i\<lparr>inf_noSliceIrqForUser := 1\<rparr>) (set_planes null_mem null_mem null_mem v))
         else Return (JPEGDEC_SLICE_READY, v))"

section \<open>A scan is ready\<close>

text \<open>
  From the byte the core stopped at to the end of the stream: a DHT or SOS marker is another scan, an
  EOI marker, or neither, is the end of the image. n is the number of bytes left.
\<close>

fun find_end :: "memory \<Rightarrow> nat \<Rightarrow> addr \<Rightarrow> bool" where
  "find_end mem 0 p = True"
| "find_end mem (Suc n) p =
     (if mem p = 0xFF then
        (if mem (p + 1) = 0xD9 then True
         else if mem (p + 1) = 0xC4 \<or> mem (p + 1) = 0xDA then False
         else find_end mem n (p + 1))
      else find_end mem n (p + 1))"

definition scan_position :: "u32 \<Rightarrow> StreamStorage \<Rightarrow> StreamStorage" where
  "scan_position currentPos s =
     s\<lparr>st_pCurrPos := currentPos - 10, st_bitPosInByte := 0,
       st_readBits := (currentPos - 10 - st_pStartOfStream s) * 8\<rparr>"

definition scan_end :: "memory \<Rightarrow> StreamStorage \<Rightarrow> bool" where
  "scan_end mem s = find_end mem (unat (st_streamLength s - st_readBits s div 8)) (st_pCurrPos s)"

definition all_components :: "DecInfo \<Rightarrow> bool" where
  "all_components i \<longleftrightarrow> inf_components i ! 0 = 1 \<and> inf_components i ! 1 = 1 \<and> inf_components i ! 2 = 1"

definition component_ready :: "decode_vars \<Rightarrow> decode_vars decoding" where
  "component_ready v =
     (let k = unat (inf_componentId (c_info (dv_c v))) in
      if k < length (inf_components (c_info (dv_c v)))
      then Continue (on_info (\<lambda>i. i\<lparr>inf_components := (inf_components i)[k := 1]\<rparr>) v)
      else Undefined)"

definition not_last_scan :: "decode_vars \<Rightarrow> decode_vars decoding" where
  "not_last_scan v =
     (let i = c_info (dv_c v);
          v = (if c_ppInstance (dv_c v) = 0 \<and> inf_noSliceIrqForUser i = 0 then set_output v else v);
          v = on_info (\<lambda>i. i\<lparr>inf_noSliceIrqForUser := 0\<rparr>) v;
          v = on_info (\<lambda>i. if inf_operationType i = JPEGDEC_PROGRESSIVE
                then i\<lparr>inf_progressiveScanReady := 1\<rparr> else i\<lparr>inf_nonInterleavedScanReady := 1\<rparr>) v
      in if inf_operationType i \<noteq> JPEGDEC_NONINTERLEAVED then
           (if inf_nonInterleaved i = 0 then Continue (on_info (\<lambda>i. i\<lparr>inf_noSliceIrqForUser := 1\<rparr>) v)
            else Return (JPEGDEC_SCAN_PROCESSED, v))
         else andThen (component_ready v) (\<lambda>v.
           Continue ((on_info (\<lambda>i. i\<lparr>inf_noSliceIrqForUser := (if all_components i then 0 else 1)\<rparr>) v)
             \<lparr>dv_nonInterleavedRdy := False\<rparr>)))"

definition last_scan :: "decode_vars \<Rightarrow> decode_vars decoding" where
  "last_scan v =
     (if inf_operationType (c_info (dv_c v)) = JPEGDEC_NONINTERLEAVED then
        andThen (component_ready v) (\<lambda>v.
          let all = all_components (c_info (dv_c v))
          in Continue ((on_info (\<lambda>i. i\<lparr>inf_noSliceIrqForUser := (if all then 0 else 1)\<rparr>) v)
               \<lparr>dv_nonInterleavedRdy := all\<rparr>))
      else Continue v)"

definition decode_scan :: "memory \<Rightarrow> decode_vars \<Rightarrow> decode_vars decoding" where
  "decode_scan mem v =
     (let op = inf_operationType (c_info (dv_c v)) in
      if op = JPEGDEC_PROGRESSIVE \<or> op = JPEGDEC_NONINTERLEAVED then
        (let currentPos = get_reg HWIF_RLC_VLC_BASE v;
             v = on_dc (c_stream_update (scan_position currentPos)) v;
             v = v\<lparr>dv_endOfImage := scan_end mem (c_stream (dv_c v)), dv_currentByte := 0\<rparr>;
             v = on_info (\<lambda>i. i\<lparr>inf_SliceCount := 0, inf_SliceReadyForPause := 0\<rparr>) v
         in if dv_endOfImage v then last_scan v else not_last_scan v)
      else Continue (on_info (\<lambda>i. i\<lparr>inf_noSliceIrqForUser := 0\<rparr>) v))"

section \<open>The loop over the interrupts\<close>

definition image_ready :: "decode_vars \<Rightarrow> decode_vars" where
  "image_ready v =
     (let i = c_info (dv_c v);
          v = (if c_ppInstance (dv_c v) = 0 \<and> inf_noSliceIrqForUser i = 0 then set_output v else v)
      in if inf_noSliceIrqForUser i = 0
         then on_image (\<lambda>m. m\<lparr>img_imageReady := 1\<rparr>) (not_running v) else v)"

definition next_headers ::
  "nat \<Rightarrow> memory \<Rightarrow> (u32 \<Rightarrow> bool) \<Rightarrow> os_allocator \<Rightarrow> decode_vars \<Rightarrow> decode_vars decoding" where
  "next_headers fuel mem malloc al v =
     (let op = inf_operationType (c_info (dv_c v)) in
      if op = JPEGDEC_PROGRESSIVE \<or> op = JPEGDEC_NONINTERLEAVED \<and> \<not> dv_nonInterleavedRdy v then
        (case JpegDecNextScanHdrs fuel mem malloc al (dv_c v) of
           Return (retCode, c) \<Rightarrow>
             if retCode \<noteq> JPEGDEC_OK \<and> retCode \<noteq> JPEGDEC_FRAME_READY then Return (retCode, on_dc (\<lambda>_. c) v)
             else Continue (on_dc (\<lambda>_. c) v)
         | Continue u \<Rightarrow> Undefined
         | Undefined \<Rightarrow> Undefined
         | OutOfFuel \<Rightarrow> OutOfFuel)
      else Continue v)"

definition core_pass ::
  "nat \<Rightarrow> memory \<Rightarrow> (u32 \<Rightarrow> bool) \<Rightarrow> os_allocator \<Rightarrow> core \<Rightarrow> decode_vars \<Rightarrow> decode_vars decoding" where
  "core_pass fuel mem malloc al core v =
     andThen (decode_start v) (\<lambda>v.
     andThen (decode_wait core v) (\<lambda>v.
     andThen (decode_irq v) (\<lambda>v.
     andThen (if slice_ready v then decode_slice v else decode_scan mem v) (\<lambda>v.
       next_headers fuel mem malloc al (image_ready v)))))"

definition core_more :: "decode_vars \<Rightarrow> bool" where
  "core_more v \<longleftrightarrow> img_imageReady (c_image (dv_c v)) = 0"

definition decode_image ::
  "nat \<Rightarrow> memory \<Rightarrow> (u32 \<Rightarrow> bool) \<Rightarrow> os_allocator \<Rightarrow> core \<Rightarrow> decode_vars \<Rightarrow> decode_vars decoding" where
  "decode_image fuel mem malloc al core v =
     (if img_headerReady (c_image (dv_c v)) \<noteq> 0 then
        andThen (core_pass fuel mem malloc al core v) (whileLoop fuel core_more (core_pass fuel mem malloc al core))
      else Continue v)"

section \<open>The end of a picture\<close>

text \<open>The components, from i on, that are still needed; 3 when there is none.\<close>

definition next_needed :: "DecInfo \<Rightarrow> nat \<Rightarrow> nat" where
  "next_needed i k = (case List.find (\<lambda>j. inf_pfNeeded i ! j \<noteq> 0) [k..<3] of Some j \<Rightarrow> j | None \<Rightarrow> max k 3)"

text \<open>
  The reply is stored to the register image, or, in one call, to the object that points at it, which
  has room for one word.
\<close>

fun wait_into :: "reg_target \<Rightarrow> core \<Rightarrow> decode_vars \<Rightarrow> decode_vars decoding" where
  "wait_into Register_image core v = Continue (v\<lparr>dv_h := snd (wait_result core (dv_h v))\<rparr>)"
| "wait_into Register_object core v = Undefined"

definition empty_scan :: "reg_target \<Rightarrow> core \<Rightarrow> nat \<Rightarrow> decode_vars \<Rightarrow> decode_vars decoding" where
  "empty_scan target core k v =
     andThen (in_h v (JpegDecInitHWEmptyScan (dv_h v) (of_nat k))) (wait_into target core)"

text \<open>The call after the one that found more than one component to be needed.\<close>

definition decode_progressive_finish :: "core \<Rightarrow> decode_vars \<Rightarrow> decode_vars decoding" where
  "decode_progressive_finish core v =
     (let v = output_without_pp v; k = unat (inf_pfCompId (c_info (dv_c v))) in
      andThen (empty_scan Register_image core k v) (\<lambda>v.
        let j = next_needed (c_info (dv_c v)) (unat (inf_pfCompId (c_info (dv_c v)) + 1)) in
        if j = 3 then Return (JPEGDEC_FRAME_READY, on_info (\<lambda>i. i\<lparr>inf_progressiveFinish := 0\<rparr>) v)
        else Return (JPEGDEC_SCAN_PROCESSED, on_info (\<lambda>i. i\<lparr>inf_pfCompId := of_nat j\<rparr>) v)))"

definition decode_finish :: "core \<Rightarrow> decode_vars \<Rightarrow> unit decoding" where
  "decode_finish core v =
     (if img_imageReady (c_image (dv_c v)) \<noteq> 0 then
        (let v = not_ready v; i = c_info (dv_c v) in
         if inf_operationType i = JPEGDEC_BASELINE then Return (JPEGDEC_FRAME_READY, v)
         else if \<not> dv_endOfImage v then Return (JPEGDEC_SCAN_PROCESSED, v)
         else if fr_Nf (c_frame (dv_c v)) = 1 then Return (JPEGDEC_FRAME_READY, v)
         else let k = next_needed i 0 in
         if k = 3 then Return (JPEGDEC_FRAME_READY, v)
         else andThen (empty_scan Register_object core k v) (\<lambda>v.
           let j = next_needed (c_info (dv_c v)) (k + 1) in
           if j = 3 then Return (JPEGDEC_FRAME_READY, v)
           else Return (JPEGDEC_SCAN_PROCESSED,
             on_info (\<lambda>i. i\<lparr>inf_progressiveFinish := 1, inf_pfCompId := of_nat j\<rparr>) v)))
      else Return (JPEGDEC_ERROR, v))"

section \<open>JpegDecDecode\<close>

text \<open>The arguments have been checked; up to the search for markers.\<close>

definition decode_setup ::
  "nat \<Rightarrow> memory \<Rightarrow> JpegDecImageInfo \<Rightarrow> JpegDecInput \<Rightarrow> decode_vars \<Rightarrow> decode_vars decoding" where
  "decode_setup fuel mem infoTmp inp v =
     andThen (in_c v (decode_info fuel mem infoTmp inp (dv_c v))) (\<lambda>v.
       let v = on_info (\<lambda>i. i\<lparr>inf_sliceMbSetValue := in_sliceMbSet inp\<rparr>) (decode_stream inp v) in
       case decode_supported inp (dv_c v) of
         Some ret \<Rightarrow> Return (ret, v)
       | None \<Rightarrow>
           if decode_slice_fits inp (dv_c v)
           then Continue (on_info (decode_given inp) (on_dc (decode_refill inp) v))
           else Return (JPEGDEC_PARAM_ERROR, v))"

definition decode_body ::
  "nat \<Rightarrow> memory \<Rightarrow> (u32 \<Rightarrow> bool) \<Rightarrow> os_allocator \<Rightarrow> core \<Rightarrow> JpegDecImageInfo \<Rightarrow> JpegDecInput \<Rightarrow> decode_vars \<Rightarrow> unit decoding" where
  "decode_body fuel mem malloc al core infoTmp inp v =
     andThen (decode_setup fuel mem infoTmp inp v) (\<lambda>v.
       andThen (if inf_progressiveFinish (c_info (dv_c v)) \<noteq> 0 then decode_progressive_finish core v else Continue v) (\<lambda>v.
       andThen (decode_headers fuel mem malloc al inp (on_info (decode_streaming inp) v)) (\<lambda>v.
       andThen (decode_image fuel mem malloc al core v) (decode_finish core))))"

definition decode_start_vars :: "hw_state \<Rightarrow> JpegDecOutput \<Rightarrow> decode_vars" where
  "decode_start_vars h out =
     \<lparr>dv_h = h, dv_out = out, dv_currentByte = 0, dv_findhufftable = False, dv_endOfImage = False,
      dv_nonInterleavedRdy = False\<rparr>"

text \<open>The arguments that may be null are options; None in the result: nothing was changed.\<close>

definition JpegDecDecode ::
  "nat \<Rightarrow> memory \<Rightarrow> (u32 \<Rightarrow> bool) \<Rightarrow> os_allocator \<Rightarrow> core \<Rightarrow> JpegDecImageInfo \<Rightarrow>
   hw_state option \<Rightarrow> JpegDecInput option \<Rightarrow> JpegDecOutput option \<Rightarrow> (JpegDecRet \<times> decode_vars option, unit) outcome" where
  "JpegDecDecode fuel mem malloc al core infoTmp decInst pDecIn pDecOut =
     (case (decInst, pDecIn, pDecOut) of
        (Some h, Some inp, Some out) \<Rightarrow>
          (case decode_check (hw_c h) inp of
             Some ret \<Rightarrow> Return (ret, None)
           | None \<Rightarrow>
               (case decode_body fuel mem malloc al core infoTmp inp (decode_start_vars h out) of
                  Return (ret, v) \<Rightarrow> Return (ret, Some v)
                | Continue u \<Rightarrow> Undefined
                | Undefined \<Rightarrow> Undefined
                | OutOfFuel \<Rightarrow> OutOfFuel))
      | _ \<Rightarrow> Return (JPEGDEC_PARAM_ERROR, None))"

end
