(* ===== verification/Instance.thy ===== *)
theory Instance
  imports Decode
begin

text \<open>
  The life of a decoder: JpegDecInit and JpegDecRelease (jpegdecapi.c) over the client of the device
  (vpu.c). What the process holds is a ledger of resources; open, ioctl, malloc and the new of the
  register object are parameters that may look at it. The static variable vpu_service_status of vpu.c
  is only read by the macro that sets it and is left out.
\<close>

section \<open>Resources\<close>

datatype resource =
    Device_fd int
  | Container_block addr
  | Register_object_block addr
  | Vals_block vlc_id
  | Picture_block addr
  | Linear_buffer MppBufferInfo

type_synonym ledger = "resource list"

record device =
  dev_open :: "ledger \<Rightarrow> string \<Rightarrow> int"
  dev_set_client_type :: "ledger \<Rightarrow> int \<Rightarrow> u32 \<Rightarrow> int"
  dev_malloc :: "ledger \<Rightarrow> addr"
  dev_new :: "ledger \<Rightarrow> addr"

section \<open>The client of the device\<close>

datatype VPU_CLIENT_TYPE = VPU_ENC | VPU_DEC | VPU_PP | VPU_DEC_PP | VPU_DEC_HEVC | VPU_TYPE_BUTT

fun client_code :: "VPU_CLIENT_TYPE \<Rightarrow> u32" where
  "client_code VPU_ENC = 0"
| "client_code VPU_DEC = 1"
| "client_code VPU_PP = 2"
| "client_code VPU_DEC_PP = 3"
| "client_code VPU_DEC_HEVC = 4"
| "client_code VPU_TYPE_BUTT = 5"

definition vpu_dev :: "string list" where "vpu_dev = [''/dev/vpu_service'', ''/dev/vpu-service'']"

definition open_one :: "device \<Rightarrow> ledger \<Rightarrow> string \<Rightarrow> int \<times> ledger" where
  "open_one d l path = (let fd = dev_open d l path in (fd, if fd \<ge> 0 then Device_fd fd # l else l))"

text \<open>The first device that opens; fd is the result of the last attempt.\<close>

fun open_devices :: "device \<Rightarrow> ledger \<Rightarrow> int \<Rightarrow> string list \<Rightarrow> int \<times> ledger" where
  "open_devices d l fd [] = (fd, l)"
| "open_devices d l fd (path # paths) =
     (let (fd, l) = open_one d l path in if fd \<ge> 0 then (fd, l) else open_devices d l fd paths)"

definition open_vpu_device :: "device \<Rightarrow> ledger \<Rightarrow> int \<times> ledger" where
  "open_vpu_device d l = open_devices d l (- 1) vpu_dev"

definition VPUClientInit :: "device \<Rightarrow> ledger \<Rightarrow> VPU_CLIENT_TYPE \<Rightarrow> int \<times> ledger" where
  "VPUClientInit d l type =
     (let ((fd, l), type) =
        (if type \<noteq> VPU_DEC_HEVC then (open_vpu_device d l, type) else (open_one d l ''/dev/hevc_service'', VPU_DEC))
      in if fd = - 1 then (- 1, l)
         else if dev_set_client_type d l fd (client_code type) \<noteq> 0 then (- 2, l)
         else (fd, l))"

definition VPUClientRelease :: "int \<Rightarrow> ledger \<Rightarrow> ledger" where
  "VPUClientRelease socket l = (if socket > 0 then remove1 (Device_fd socket) l else l)"

section \<open>JpegDecInit\<close>

definition EXTRA_INFO_MAGIC :: u32 where "EXTRA_INFO_MAGIC = 0x4C4A46"
definition JPEG_BASELINE :: u32 where "JPEG_BASELINE = 1"

definition DEC_RK70_LITTLE_ENDIAN :: u32 where "DEC_RK70_LITTLE_ENDIAN = 1"
definition DEC_RK70_BIG_ENDIAN :: u32 where "DEC_RK70_BIG_ENDIAN = 0"
definition DEC_RK70_BUS_BURST_LENGTH_16 :: u32 where "DEC_RK70_BUS_BURST_LENGTH_16 = 16"
definition DEC_RK70_ASIC_SERVICE_PRIORITY_DEFAULT :: u32 where "DEC_RK70_ASIC_SERVICE_PRIORITY_DEFAULT = 0"
definition DEC_RK70_ASIC_SERVICE_PRIORITY :: u32 where
  "DEC_RK70_ASIC_SERVICE_PRIORITY = DEC_RK70_ASIC_SERVICE_PRIORITY_DEFAULT"
definition DEC_RK70_SCMD_DISABLE :: u32 where "DEC_RK70_SCMD_DISABLE = 0"
definition DEC_RK70_BUS_BURST_LENGTH :: u32 where "DEC_RK70_BUS_BURST_LENGTH = DEC_RK70_BUS_BURST_LENGTH_16"
definition DEC_RK70_INPUT_STREAM_ENDIAN :: u32 where "DEC_RK70_INPUT_STREAM_ENDIAN = DEC_RK70_LITTLE_ENDIAN"
definition DEC_RK70_OUTPUT_PICTURE_ENDIAN :: u32 where "DEC_RK70_OUTPUT_PICTURE_ENDIAN = DEC_RK70_LITTLE_ENDIAN"
definition DEC_RK70_LATENCY_COMPENSATION :: u32 where "DEC_RK70_LATENCY_COMPENSATION = 0"
definition DEC_RK70_DATA_DISCARD_ENABLE :: u32 where "DEC_RK70_DATA_DISCARD_ENABLE = 0"
definition DEC_RK70_OUTPUT_SWAP_32_ENABLE :: u32 where "DEC_RK70_OUTPUT_SWAP_32_ENABLE = 1"
definition DEC_RK70_INPUT_DATA_SWAP_32_ENABLE :: u32 where "DEC_RK70_INPUT_DATA_SWAP_32_ENABLE = 1"
definition DEC_RK70_INPUT_STREAM_SWAP_32_ENABLE :: u32 where "DEC_RK70_INPUT_STREAM_SWAP_32_ENABLE = 1"
definition DEC_RK70_INPUT_DATA_ENDIAN :: u32 where "DEC_RK70_INPUT_DATA_ENDIAN = DEC_RK70_BIG_ENDIAN"
definition DEC_RK70_AXI_ID_R :: u32 where "DEC_RK70_AXI_ID_R = 0xff"
definition DEC_RK70_AXI_ID_W :: u32 where "DEC_RK70_AXI_ID_W = 0"

lemmas init_consts = EXTRA_INFO_MAGIC_def JPEG_BASELINE_def DEC_RK70_LITTLE_ENDIAN_def DEC_RK70_BIG_ENDIAN_def
  DEC_RK70_BUS_BURST_LENGTH_16_def DEC_RK70_ASIC_SERVICE_PRIORITY_DEFAULT_def DEC_RK70_ASIC_SERVICE_PRIORITY_def
  DEC_RK70_SCMD_DISABLE_def DEC_RK70_BUS_BURST_LENGTH_def DEC_RK70_INPUT_STREAM_ENDIAN_def
  DEC_RK70_OUTPUT_PICTURE_ENDIAN_def DEC_RK70_LATENCY_COMPENSATION_def DEC_RK70_DATA_DISCARD_ENABLE_def
  DEC_RK70_OUTPUT_SWAP_32_ENABLE_def DEC_RK70_INPUT_DATA_SWAP_32_ENABLE_def DEC_RK70_INPUT_STREAM_SWAP_32_ENABLE_def
  DEC_RK70_INPUT_DATA_ENDIAN_def DEC_RK70_AXI_ID_R_def DEC_RK70_AXI_ID_W_def

text \<open>What JpegDecInit takes the hardware to be: asicID, jpegSupport and jpegESupport.\<close>

definition hw_asicID :: u32 where "hw_asicID = 0x91900000"
definition hw_jpegSupport :: u32 where "hw_jpegSupport = 1"
definition hw_jpegESupport :: u32 where "hw_jpegESupport = 1"

definition newer_asic :: bool where "newer_asic \<longleftrightarrow> drop_bit 16 hw_asicID \<noteq> 0x6731"

definition init_regs :: "(nat \<times> u32) list" where
  "init_regs =
     [(HWIF_DEC_OUT_ENDIAN, DEC_RK70_OUTPUT_PICTURE_ENDIAN), (HWIF_DEC_IN_ENDIAN, DEC_RK70_INPUT_DATA_ENDIAN),
      (HWIF_DEC_STRENDIAN_E, DEC_RK70_INPUT_STREAM_ENDIAN), (HWIF_DEC_MAX_BURST, DEC_RK70_BUS_BURST_LENGTH),
      (if \<not> newer_asic then (HWIF_PRIORITY_MODE, DEC_RK70_ASIC_SERVICE_PRIORITY) else (HWIF_DEC_SCMD_DIS, DEC_RK70_SCMD_DISABLE)),
      (HWIF_DEC_LATENCY, DEC_RK70_LATENCY_COMPENSATION), (HWIF_DEC_DATA_DISC_E, DEC_RK70_DATA_DISCARD_ENABLE),
      (HWIF_DEC_OUTSWAP32_E, DEC_RK70_OUTPUT_SWAP_32_ENABLE), (HWIF_DEC_INSWAP32_E, DEC_RK70_INPUT_DATA_SWAP_32_ENABLE),
      (HWIF_DEC_STRSWAP32_E, DEC_RK70_INPUT_STREAM_SWAP_32_ENABLE), (HWIF_DEC_OUT_TILED_E, 0), (HWIF_DEC_TIMEOUT_E, 1),
      (HWIF_DEC_CLK_GATE_E, 1), (HWIF_DEC_IRQ_DIS, 0), (HWIF_DEC_AXI_RD_ID, DEC_RK70_AXI_ID_R AND 0xFF),
      (HWIF_DEC_AXI_WR_ID, DEC_RK70_AXI_ID_W AND 0xFF)]"

text \<open>The shadow registers but for the first, and the message.\<close>

definition init_shadow :: "JpegDecContainer \<Rightarrow> JpegDecContainer" where
  "init_shadow c = c\<lparr>c_jpegRegs := take 1 (c_jpegRegs c) @ replicate (DEC_RK70_REGISTERS - 1) 0,
     c_ioctl_info := zero_JpegdIocRegInfo
       \<lparr>ioc_extra_info := zero_JpegdIocExtInfo\<lparr>ioc_magic := EXTRA_INFO_MAGIC, ioc_cnt := 1\<rparr>\<rparr>\<rparr>"

definition init_limits :: "u32 \<Rightarrow> JpegDecContainer \<Rightarrow> JpegDecContainer" where
  "init_limits fuseStatus c =
     (let c = c\<lparr>c_is8190 := (if newer_asic then 1 else 0)\<rparr>;
          c = (if c_is8190 c \<noteq> 0 then
                 c\<lparr>c_fuseBurned := fuseStatus, c_maxSupportedWidth := JPEGDEC_MAX_WIDTH_8190,
                   c_maxSupportedHeight := JPEGDEC_MAX_HEIGHT_8190,
                   c_maxSupportedPixelAmount := JPEGDEC_MAX_PIXEL_AMOUNT_8190,
                   c_maxSupportedSliceSize := JPEGDEC_MAX_SLICE_SIZE_8190\<rparr>
               else
                 c\<lparr>c_maxSupportedWidth := JPEGDEC_MAX_WIDTH, c_maxSupportedHeight := JPEGDEC_MAX_HEIGHT,
                   c_maxSupportedPixelAmount := JPEGDEC_MAX_PIXEL_AMOUNT,
                   c_maxSupportedSliceSize := JPEGDEC_MAX_SLICE_SIZE\<rparr>)
      in c\<lparr>c_minSupportedWidth := JPEGDEC_MIN_WIDTH, c_minSupportedHeight := JPEGDEC_MIN_HEIGHT,
           c_extensionsSupported := hw_jpegESupport\<rparr>)"

text \<open>The container that JpegDecInit fills, from the zeroed block.\<close>

definition init_container :: "int \<Rightarrow> addr \<Rightarrow> JpegDecContainer" where
  "init_container socket handle =
     init_limits (if newer_asic \<and> hw_jpegSupport = JPEG_BASELINE then 1 else 0)
       (set_regs init_regs (init_shadow (JpegDecClearStructs
         (zero_JpegDecContainer\<lparr>c_socket := word_of_int socket, c_vpumem_ctx := 0, c_reghandle := handle\<rparr>))))"

text \<open>
  given tells whether pDecInst is not null. The result is the instance, the block it lives in and the
  container, and the resources the process holds afterwards.
\<close>

definition JpegDecInit ::
  "device \<Rightarrow> ledger \<Rightarrow> bool \<Rightarrow> u32 \<Rightarrow> JpegDecRet \<times> (addr \<times> JpegDecContainer) option \<times> ledger" where
  "JpegDecInit d l given color_conv =
     (if \<not> given then (JPEGDEC_PARAM_ERROR, None, l)
      else let (socket, l) = VPUClientInit d l (if color_conv \<noteq> 0 then VPU_DEC_PP else VPU_DEC)
      in if socket \<le> 0 then (JPEGDEC_DWL_ERROR, None, l)
      else if hw_jpegSupport = 0 then (JPEGDEC_FORMAT_NOT_SUPPORTED, None, VPUClientRelease socket l)
      else let pJpegCont = dev_malloc d l
      in if pJpegCont = 0 then (JPEGDEC_MEMFAIL, None, VPUClientRelease socket l)
      else let l = Container_block pJpegCont # l; handle = dev_new d l
      in if handle = 0 then (JPEGDEC_MEMFAIL, None, VPUClientRelease socket l)
      else (JPEGDEC_OK, Some (pJpegCont, init_container socket handle), Register_object_block handle # l))"

section \<open>JpegDecRelease\<close>

definition release_if :: "bool \<Rightarrow> resource \<Rightarrow> ledger \<Rightarrow> ledger" where
  "release_if b r l = (if b then remove1 r l else l)"

definition release_vals :: "(HuffmanTables \<Rightarrow> VlcTable) \<Rightarrow> vlc_id \<Rightarrow> JpegDecContainer \<Rightarrow> ledger \<Rightarrow> ledger" where
  "release_vals table k c = release_if (vt_vals (table (c_vlc c)) \<noteq> None) (Vals_block k)"

definition release_linear :: "os_allocator \<Rightarrow> MppBufferInfo \<Rightarrow> ledger \<Rightarrow> ledger" where
  "release_linear al b = release_if (mb_vir_addr b \<noteq> 0 \<and> al_free al \<noteq> None) (Linear_buffer b)"

definition JpegDecRelease :: "os_allocator \<Rightarrow> (addr \<times> JpegDecContainer) option \<Rightarrow> ledger \<Rightarrow> ledger" where
  "JpegDecRelease al decInst l =
     (case decInst of
        None \<Rightarrow> l
      | Some (block, c) \<Rightarrow>
          let socket = sint (c_socket c); i = c_info c; f = c_frame c;
              l = release_vals vlc_acTable0 AC0 c l; l = release_vals vlc_acTable1 AC1 c l;
              l = release_vals vlc_acTable2 AC2 c l; l = release_vals vlc_acTable3 AC3 c l;
              l = release_vals vlc_dcTable0 DC0 c l; l = release_vals vlc_dcTable1 DC1 c l;
              l = release_vals vlc_dcTable2 DC2 c l; l = release_vals vlc_dcTable3 DC3 c l;
              l = release_if (fr_pBuffer f \<noteq> 0) (Picture_block (fr_pBuffer f)) l;
              l = release_linear al (inf_pCoeffBase i) l;
              l = release_linear al (inf_tmpStrm i) l;
              l = release_linear al (fr_pTableBase f) l;
              l = (if inf_userAllocMem i = 0 then release_linear al (ab_outLumaBuffer (c_asicBuff c)) l else l);
              l = release_if (c_reghandle c \<noteq> 0) (Register_object_block (c_reghandle c)) l;
              l = remove1 (Container_block block) l
          in VPUClientRelease socket l)"

section \<open>Versions\<close>

record JpegDecApiVersion =
  ver_major :: u32
  ver_minor :: u32

definition JPG_MAJOR_VERSION :: u32 where "JPG_MAJOR_VERSION = 1"
definition JPG_MINOR_VERSION :: u32 where "JPG_MINOR_VERSION = 1"
definition JPG_BUILD_MAJOR :: u32 where "JPG_BUILD_MAJOR = 1"
definition JPG_BUILD_MINOR :: u32 where "JPG_BUILD_MINOR = 149"
definition JPG_SW_BUILD :: u32 where "JPG_SW_BUILD = JPG_BUILD_MAJOR * 1000 + JPG_BUILD_MINOR"

definition JpegGetAPIVersion :: JpegDecApiVersion where
  "JpegGetAPIVersion = \<lparr>ver_major = JPG_MAJOR_VERSION, ver_minor = JPG_MINOR_VERSION\<rparr>"

section \<open>What a decoder holds\<close>

text \<open>JpegDecClearStructs finds a zeroed container; it sets the timeout and nothing else.\<close>

lemma clear_zero:
  "ClearStructs_stream zero_StreamStorage = zero_StreamStorage" "ClearStructs_image zero_ImageData = zero_ImageData"
  "ClearStructs_frame zero_FrameInfo = zero_FrameInfo" "ClearStructs_asic zero_JpegAsicBuffers = zero_JpegAsicBuffers"
  "ClearStructs_scan zero_ScanInfo = zero_ScanInfo" "ClearStructs_vlc zero_HuffmanTables = zero_HuffmanTables"
  by (simp_all add: ClearStructs_stream_def ClearStructs_image_def ClearStructs_frame_def ClearStructs_asic_def
      ClearStructs_scan_def ClearStructs_vlc_def clear_buffer_def no_values_def zero_defs numeral_3_eq_3)

lemma clear_zero_info:
  "ClearStructs_progressive (ClearStructs_slice (ClearStructs_buffers zero_DecInfo)) = zero_DecInfo\<lparr>inf_timeout := DEC_RK70_TIMEOUT_LENGTH\<rparr>"
  by (simp add: ClearStructs_progressive_def ClearStructs_slice_def ClearStructs_buffers_def no_address_def zero_defs)

lemma clear_zero_container:
  "JpegDecClearStructs (zero_JpegDecContainer\<lparr>c_socket := s, c_vpumem_ctx := 0, c_reghandle := h\<rparr>) =
     zero_JpegDecContainer\<lparr>c_socket := s, c_vpumem_ctx := 0, c_reghandle := h, c_info := zero_DecInfo\<lparr>inf_timeout := DEC_RK70_TIMEOUT_LENGTH\<rparr>\<rparr>"
proof -
  have "zero_DecPpInterface\<lparr>pp_usePipeline := 0\<rparr> = zero_DecPpInterface" by (simp add: zero_DecPpInterface_def)
  then show ?thesis
    using clear_zero clear_zero_info by (simp add: JpegDecClearStructs_def zero_JpegDecContainer_def)
qed

definition init_message :: JpegdIocRegInfo where
  "init_message = zero_JpegdIocRegInfo\<lparr>ioc_extra_info := zero_JpegdIocExtInfo\<lparr>ioc_magic := EXTRA_INFO_MAGIC, ioc_cnt := 1\<rparr>\<rparr>"

lemma newer_asic: "newer_asic"
  by (simp add: newer_asic_def hw_asicID_def drop_bit_eq_div)

lemma init_container_eq:
  "init_container socket handle = zero_JpegDecContainer\<lparr>
     c_jpegRegs := writes (replicate DEC_RK70_REGISTERS 0) init_regs, c_ioctl_info := init_message,
     c_info := zero_DecInfo\<lparr>inf_timeout := DEC_RK70_TIMEOUT_LENGTH\<rparr>,
     c_is8190 := 1, c_fuseBurned := 1, c_minSupportedWidth := JPEGDEC_MIN_WIDTH, c_minSupportedHeight := JPEGDEC_MIN_HEIGHT,
     c_maxSupportedWidth := JPEGDEC_MAX_WIDTH_8190, c_maxSupportedHeight := JPEGDEC_MAX_HEIGHT_8190,
     c_maxSupportedPixelAmount := JPEGDEC_MAX_PIXEL_AMOUNT_8190, c_maxSupportedSliceSize := JPEGDEC_MAX_SLICE_SIZE_8190,
     c_extensionsSupported := 1, c_socket := word_of_int socket, c_vpumem_ctx := 0, c_reghandle := handle\<rparr>"
proof -
  have r: "take 1 (replicate DEC_RK70_REGISTERS (0 :: u32)) @ replicate (DEC_RK70_REGISTERS - 1) 0 = replicate DEC_RK70_REGISTERS 0"
    by (simp add: DEC_RK70_REGISTERS_def numeral_eq_Suc)
  have "c_jpegRegs zero_JpegDecContainer = replicate DEC_RK70_REGISTERS 0" by (simp add: zero_JpegDecContainer_def)
  with r show ?thesis
    by (simp add: init_container_def clear_zero_container init_limits_def init_shadow_def init_message_def newer_asic
        set_regs_def hw_jpegSupport_def hw_jpegESupport_def JPEG_BASELINE_def Let_def)
qed

text \<open>What JpegDecInit did when it succeeded.\<close>

lemma JpegDecInit_ok:
  assumes "JpegDecInit d l given cc = (JPEGDEC_OK, inst, l')"
  obtains socket block handle where "0 < socket" "handle \<noteq> 0" "block \<noteq> 0"
    "VPUClientInit d l (if cc \<noteq> 0 then VPU_DEC_PP else VPU_DEC) = (socket, tl (tl l'))"
    "inst = Some (block, init_container socket handle)"
    "l' = Register_object_block handle # Container_block block # tl (tl l')"
  using assms by (auto simp: JpegDecInit_def jpeg_consts Let_def split: if_splits prod.splits)

lemma open_devices_ledger:
  "open_devices d l fd paths = (fd', l') \<Longrightarrow> 0 \<le> fd' \<Longrightarrow> fd < 0 \<Longrightarrow> l' = Device_fd fd' # l"
  by (induction d l fd paths rule: open_devices.induct) (auto simp: open_one_def Let_def split: if_splits)

lemma VPUClientInit_ledger:
  assumes "VPUClientInit d l type = (socket, l')" "0 < socket"
  shows "l' = Device_fd socket # l"
  using assms open_devices_ledger
  by (fastforce simp: VPUClientInit_def open_vpu_device_def open_one_def Let_def split: if_splits prod.splits)

text \<open>Descriptors are non-negative values of the C type int, or a negative error.\<close>

definition descriptors_are_int :: "device \<Rightarrow> bool" where
  "descriptors_are_int d \<longleftrightarrow> (\<forall>l path. - (2 ^ 31) \<le> dev_open d l path \<and> dev_open d l path < 2 ^ 31)"

lemma VPUClientInit_int:
  assumes "descriptors_are_int d" "VPUClientInit d l type = (socket, l')"
  shows "- (2 ^ 31) \<le> socket \<and> socket < 2 ^ 31"
proof -
  have "open_devices d l fd paths = (fd', l'') \<Longrightarrow> - (2 ^ 31) \<le> fd \<and> fd < 2 ^ 31 \<Longrightarrow> - (2 ^ 31) \<le> fd' \<and> fd' < 2 ^ 31" for fd fd' l l'' paths
    using assms(1)
    by (induction d l fd paths rule: open_devices.induct)
      (auto simp: open_one_def Let_def descriptors_are_int_def split: if_splits)
  then show ?thesis
    using assms by (fastforce simp: VPUClientInit_def open_vpu_device_def open_one_def descriptors_are_int_def Let_def split: if_splits prod.splits)
qed

section \<open>Properties\<close>

lemma release_fresh:
  assumes "- (2 ^ 31) \<le> socket" "socket < 2 ^ 31" "0 < socket" "handle \<noteq> 0"
  shows "JpegDecRelease al (Some (block, init_container socket handle))
    (Register_object_block handle # Container_block block # Device_fd socket # l) = l"
proof -
  have s: "sint (word_of_int socket :: u32) = socket"
    using assms(1,2) by (simp add: signed_of_int signed_take_bit_int_eq_self)
  show ?thesis
    using assms(3,4)
    by (simp add: JpegDecRelease_def init_container_eq release_vals_def release_linear_def release_if_def
        VPUClientRelease_def s zero_defs Let_def)
qed

text \<open>
  C32. JpegDecRelease gives back what JpegDecInit took: after the two calls the process holds the
  descriptors and blocks it held before, whichever device answers and whether or not the
  post-processor was asked for.
\<close>

theorem Init_Release_balance:
  assumes "descriptors_are_int d" "JpegDecInit d l given cc = (JPEGDEC_OK, inst, l')"
  shows "JpegDecRelease al inst l' = l"
proof -
  obtain socket block handle where h: "0 < socket" "handle \<noteq> 0"
    "VPUClientInit d l (if cc \<noteq> 0 then VPU_DEC_PP else VPU_DEC) = (socket, tl (tl l'))"
    "inst = Some (block, init_container socket handle)"
    "l' = Register_object_block handle # Container_block block # tl (tl l')"
    using assms(2) by (rule JpegDecInit_ok)
  have "tl (tl l') = Device_fd socket # l" by (rule VPUClientInit_ledger [OF h(3,1)])
  with h release_fresh VPUClientInit_int [OF assms(1) h(3)] show ?thesis by metis
qed

definition demo_device :: device where
  "demo_device = \<lparr>dev_open = \<lambda>l path. if path = ''/dev/vpu-service'' then 5 else - 1,
     dev_set_client_type = \<lambda>l fd type. 0, dev_malloc = \<lambda>l. 0x1000, dev_new = \<lambda>l. 0x2000\<rparr>"

lemma demo_Init: "JpegDecInit demo_device [Device_fd 3] True 1 =
    (JPEGDEC_OK, Some (0x1000, init_container 5 0x2000),
     [Register_object_block 0x2000, Container_block 0x1000, Device_fd 5, Device_fd 3])"
  by (simp add: JpegDecInit_def VPUClientInit_def open_vpu_device_def vpu_dev_def open_one_def demo_device_def
      hw_jpegSupport_def Let_def)

lemma Init_Release_balance_witness:
  "\<exists>inst l'. JpegDecInit demo_device [Device_fd 3] True 1 = (JPEGDEC_OK, inst, l') \<and>
     JpegDecRelease \<lparr>al_alloc = None, al_free = None, al_mmap = \<lambda>a b. b\<rparr> inst l' = [Device_fd 3]"
proof -
  have "descriptors_are_int demo_device" by (simp add: descriptors_are_int_def demo_device_def)
  from Init_Release_balance [OF this demo_Init] demo_Init show ?thesis by blast
qed

lemma open_devices_none: "open_devices d l fd paths = (fd', l') \<Longrightarrow> fd' < 0 \<Longrightarrow> l' = l"
  by (induction d l fd paths rule: open_devices.induct) (auto simp: open_one_def Let_def split: if_splits)

lemma VPUClientInit_fails:
  assumes "VPUClientInit d l type = (socket, l')" "socket \<le> 0" "type \<noteq> VPU_DEC_HEVC"
  shows "l' = l \<or> (\<exists>fd\<ge>0. l' = Device_fd fd # l \<and> (fd = 0 \<or> dev_set_client_type d l' fd (client_code type) \<noteq> 0))"
proof -
  obtain fd l1 where o: "open_devices d l (- 1) vpu_dev = (fd, l1)" by fastforce
  then have l: "l' = l1" "fd \<le> 0 \<or> dev_set_client_type d l1 fd (client_code type) \<noteq> 0"
    using assms by (auto simp: VPUClientInit_def open_vpu_device_def split: if_splits)
  show ?thesis
  proof (cases "fd < 0")
    case True
    then show ?thesis using open_devices_none [OF o] l by simp
  next
    case False
    then have "l1 = Device_fd fd # l" using open_devices_ledger [OF o] by simp
    then show ?thesis using l False by auto
  qed
qed

text \<open>
  C36. A failing JpegDecInit keeps nothing but in two cases: the descriptor, when the device was opened
  but did not take the type of the client or is descriptor 0, and the container, when there is no
  memory for the register object.
\<close>

theorem Init_failure_leaks:
  assumes "JpegDecInit d l given cc = (ret, inst, l')" "ret \<noteq> JPEGDEC_OK"
  shows "inst = None \<and> (l' = l \<or>
    (\<exists>fd\<ge>0. l' = Device_fd fd # l \<and> ret = JPEGDEC_DWL_ERROR \<and>
      (fd = 0 \<or> dev_set_client_type d l' fd (if cc \<noteq> 0 then 3 else 1) \<noteq> 0)) \<or>
    (\<exists>block. l' = Container_block block # l \<and> ret = JPEGDEC_MEMFAIL \<and> block \<noteq> 0))"
proof -
  obtain socket l1 where V: "VPUClientInit d l (if cc \<noteq> 0 then VPU_DEC_PP else VPU_DEC) = (socket, l1)" by fastforce
  have code: "client_code (if cc \<noteq> 0 then VPU_DEC_PP else VPU_DEC) = (if cc \<noteq> 0 then 3 else 1)" by simp
  show ?thesis
  proof (cases "given \<and> 0 < socket")
    case True
    have "l1 = Device_fd socket # l" using VPUClientInit_ledger [OF V] True by simp
    then show ?thesis
      using assms True V by (auto simp: JpegDecInit_def VPUClientRelease_def hw_jpegSupport_def Let_def split: if_splits)
  next
    case False
    then have "l' = l \<or> ret = JPEGDEC_DWL_ERROR \<and> l' = l1 \<and> socket \<le> 0" "inst = None"
      using assms V by (auto simp: JpegDecInit_def Let_def split: if_splits)
    then show ?thesis using VPUClientInit_fails [OF V] by (auto simp: code)
  qed
qed

lemma Init_failure_leaks_witness:
  "\<exists>ret inst. JpegDecInit (demo_device\<lparr>dev_set_client_type := \<lambda>l fd type. - 1\<rparr>) [] True 0 = (ret, inst, [Device_fd 5]) \<and> inst = None"
proof -
  let ?d = "demo_device\<lparr>dev_set_client_type := \<lambda>l fd type. - 1\<rparr>"
  have i: "JpegDecInit ?d [] True 0 = (JPEGDEC_DWL_ERROR, None, [Device_fd 5])"
    by (simp add: JpegDecInit_def VPUClientInit_def open_vpu_device_def vpu_dev_def open_one_def demo_device_def Let_def)
  have "JPEGDEC_DWL_ERROR \<noteq> JPEGDEC_OK" by simp
  from Init_failure_leaks [OF i this] i show ?thesis by blast
qed

lemma init_ids:
  "list_all reg_valid (map fst init_regs)" "sorted_wrt (\<lambda>i j. reg_apart j i) (map fst init_regs)"
  by (simp_all add: init_regs_def newer_asic reg_eval)



end
