(* ===== verification/DeviceClient.thy ===== *)
theory DeviceClient
  imports Instance
begin

text \<open>
  The rest of the client of the device (vpu.c): the probes for the supported width and for an IOMMU,
  which open the device for themselves, and JpegDecGetBuild (jpegdecapi.c), which reports the
  configuration that JpegDecInit assumes. The static variables of vpu.c are a record; access and the
  two ioctls are parameters.
\<close>

section \<open>Configuration of the hardware\<close>

record VPUHwDecConfig =
  hc_maxDecPicWidth :: u32
  hc_maxPpOutPicWidth :: u32
  hc_h264Support :: u32
  hc_jpegSupport :: u32
  hc_mpeg4Support :: u32
  hc_customMpeg4Support :: u32
  hc_vc1Support :: u32
  hc_mpeg2Support :: u32
  hc_ppSupport :: u32
  hc_ppConfig :: u32
  hc_sorensonSparkSupport :: u32
  hc_refBufSupport :: u32
  hc_vp6Support :: u32
  hc_vp7Support :: u32
  hc_vp8Support :: u32
  hc_avsSupport :: u32
  hc_jpegESupport :: u32
  hc_rvSupport :: u32
  hc_mvcSupport :: u32

definition zero_VPUHwDecConfig :: VPUHwDecConfig where
  "zero_VPUHwDecConfig = \<lparr>hc_maxDecPicWidth = 0, hc_maxPpOutPicWidth = 0, hc_h264Support = 0, hc_jpegSupport = 0,
     hc_mpeg4Support = 0, hc_customMpeg4Support = 0, hc_vc1Support = 0, hc_mpeg2Support = 0, hc_ppSupport = 0,
     hc_ppConfig = 0, hc_sorensonSparkSupport = 0, hc_refBufSupport = 0, hc_vp6Support = 0, hc_vp7Support = 0,
     hc_vp8Support = 0, hc_avsSupport = 0, hc_jpegESupport = 0, hc_rvSupport = 0, hc_mvcSupport = 0\<rparr>"

record DecHwConfig =
  dc_mpeg4Support :: u32
  dc_customMpeg4Support :: u32
  dc_h264Support :: u32
  dc_vc1Support :: u32
  dc_mpeg2Support :: u32
  dc_jpegSupport :: u32
  dc_jpegProgSupport :: u32
  dc_maxDecPicWidth :: u32
  dc_ppSupport :: u32
  dc_ppConfig :: u32
  dc_maxPpOutPicWidth :: u32
  dc_sorensonSparkSupport :: u32
  dc_refBufSupport :: u32
  dc_vp6Support :: u32
  dc_vp7Support :: u32
  dc_vp8Support :: u32
  dc_avsSupport :: u32
  dc_jpegESupport :: u32
  dc_rvSupport :: u32
  dc_mvcSupport :: u32

text \<open>The macro leaves jpegProgSupport alone.\<close>

definition SET_DEC_BUILD_SUPPORT :: "DecHwConfig \<Rightarrow> VPUHwDecConfig \<Rightarrow> DecHwConfig" where
  "SET_DEC_BUILD_SUPPORT d h = d\<lparr>dc_maxDecPicWidth := hc_maxDecPicWidth h, dc_maxPpOutPicWidth := hc_maxPpOutPicWidth h,
     dc_h264Support := hc_h264Support h, dc_jpegSupport := hc_jpegSupport h, dc_jpegESupport := hc_jpegESupport h,
     dc_mpeg2Support := hc_mpeg2Support h, dc_mpeg4Support := hc_mpeg4Support h, dc_vc1Support := hc_vc1Support h,
     dc_ppSupport := hc_ppSupport h, dc_ppConfig := hc_ppConfig h, dc_sorensonSparkSupport := hc_sorensonSparkSupport h,
     dc_vp6Support := hc_vp6Support h, dc_vp7Support := hc_vp7Support h, dc_vp8Support := hc_vp8Support h,
     dc_refBufSupport := hc_refBufSupport h, dc_avsSupport := hc_avsSupport h, dc_rvSupport := hc_rvSupport h,
     dc_customMpeg4Support := hc_customMpeg4Support h, dc_mvcSupport := hc_mvcSupport h\<rparr>"

record JpegDecBuild =
  bld_swBuild :: u32
  bld_hwBuild :: u32
  bld_hwConfig :: DecHwConfig

definition zero_DecHwConfig :: DecHwConfig where
  "zero_DecHwConfig = \<lparr>dc_mpeg4Support = 0, dc_customMpeg4Support = 0, dc_h264Support = 0, dc_vc1Support = 0,
     dc_mpeg2Support = 0, dc_jpegSupport = 0, dc_jpegProgSupport = 0, dc_maxDecPicWidth = 0, dc_ppSupport = 0,
     dc_ppConfig = 0, dc_maxPpOutPicWidth = 0, dc_sorensonSparkSupport = 0, dc_refBufSupport = 0, dc_vp6Support = 0,
     dc_vp7Support = 0, dc_vp8Support = 0, dc_avsSupport = 0, dc_jpegESupport = 0, dc_rvSupport = 0, dc_mvcSupport = 0\<rparr>"

definition JpegDecGetBuild :: JpegDecBuild where
  "JpegDecGetBuild =
     (let ver = \<lparr>bld_swBuild = JPG_SW_BUILD, bld_hwBuild = 0x91900000, bld_hwConfig = zero_DecHwConfig\<rparr>;
          hwCfg = zero_VPUHwDecConfig\<lparr>hc_jpegESupport := 1, hc_jpegSupport := 1\<rparr>
      in ver\<lparr>bld_hwConfig := SET_DEC_BUILD_SUPPORT (bld_hwConfig ver) hwCfg\<rparr>)"

section \<open>Probes\<close>

record client =
  cl_service_status :: int
  cl_iommu_status :: int
  cl_ledger :: ledger

record probes =
  pr_access :: "string \<Rightarrow> int"
  pr_hw_cfg :: "ledger \<Rightarrow> int \<Rightarrow> VPUHwDecConfig \<Rightarrow> int \<times> VPUHwDecConfig"
  pr_iommu :: "ledger \<Rightarrow> int \<Rightarrow> int \<Rightarrow> int \<times> int"

definition check_vpu_device :: "probes \<Rightarrow> int" where
  "check_vpu_device p = (if list_ex (\<lambda>path. pr_access p path = 0) vpu_dev then 1 else 0)"

definition VPU_SERVICE_TEST :: "probes \<Rightarrow> client \<Rightarrow> client" where
  "VPU_SERVICE_TEST p cl =
     (if cl_service_status cl < 0 then cl\<lparr>cl_service_status := check_vpu_device p\<rparr> else cl)"

definition client_close :: "int \<Rightarrow> client \<Rightarrow> client" where
  "client_close fd cl = cl\<lparr>cl_ledger := remove1 (Device_fd fd) (cl_ledger cl)\<rparr>"

definition VPUClientGetHwCfg :: "probes \<Rightarrow> client \<Rightarrow> int \<Rightarrow> VPUHwDecConfig \<Rightarrow> int \<times> VPUHwDecConfig \<times> client" where
  "VPUClientGetHwCfg p cl socket cfg =
     (let cl = VPU_SERVICE_TEST p cl; (ret, cfg) = pr_hw_cfg p (cl_ledger cl) socket cfg in (ret, cfg, cl))"

definition probe_iommu :: "device \<Rightarrow> probes \<Rightarrow> client \<Rightarrow> client" where
  "probe_iommu d p cl =
     (let (fd, l) = open_vpu_device d (cl_ledger cl)
      in if fd \<ge> 0 then
           let (ret, status) = pr_iommu p l fd (cl_iommu_status cl);
               cl = cl\<lparr>cl_ledger := l, cl_iommu_status := status\<rparr>;
               cl = (if ret \<noteq> 0 then cl\<lparr>cl_iommu_status := 0\<rparr> else cl)
           in client_close fd cl
         else cl\<lparr>cl_ledger := l, cl_iommu_status := 0\<rparr>)"

definition VPUClientGetIOMMUStatus :: "device \<Rightarrow> probes \<Rightarrow> client \<Rightarrow> int \<times> client" where
  "VPUClientGetIOMMUStatus d p cl =
     (let cl = (if cl_iommu_status cl < 0 then probe_iommu d p cl else cl) in (cl_iommu_status cl, cl))"

definition VPUCheckSupportWidth :: "device \<Rightarrow> probes \<Rightarrow> client \<Rightarrow> u32 \<times> client" where
  "VPUCheckSupportWidth d p cl =
     (let (fd, l) = open_vpu_device d (cl_ledger cl); cl = cl\<lparr>cl_ledger := l\<rparr>; hwCfg = zero_VPUHwDecConfig
      in if fd \<ge> 0 then
           let (ret, hwCfg, cl) = VPUClientGetHwCfg p cl fd hwCfg
           in if ret \<noteq> 0 then (- 1, client_close fd cl) else (hc_maxDecPicWidth hwCfg, client_close fd cl)
         else (hc_maxDecPicWidth hwCfg, cl))"

section \<open>Properties\<close>

lemma open_vpu_device_ledger:
  assumes "open_vpu_device d l = (fd, l')"
  shows "l' = (if fd \<ge> 0 then Device_fd fd # l else l)"
  using assms open_devices_ledger open_devices_none by (fastforce simp: open_vpu_device_def)

text \<open>
  The probes leave the process with the descriptors it had, whether the device opens and answers
  or not. The width is 0 when the device does not open and all ones when it does not answer; an IOMMU
  status that is not negative is kept, so that the next question does not open the device at all.
\<close>

theorem Probes_keep_descriptors:
  "cl_ledger (snd (VPUClientGetIOMMUStatus d p cl)) = cl_ledger cl \<and>
   cl_ledger (snd (VPUCheckSupportWidth d p cl)) = cl_ledger cl \<and>
   (fst (open_vpu_device d (cl_ledger cl)) < 0 \<longrightarrow> fst (VPUCheckSupportWidth d p cl) = 0) \<and>
   (\<forall>status cl'. VPUClientGetIOMMUStatus d p cl = (status, cl') \<and> 0 \<le> status \<longrightarrow>
      VPUClientGetIOMMUStatus d' p' cl' = (status, cl'))"
proof -
  obtain fd l where o: "open_vpu_device d (cl_ledger cl) = (fd, l)" by fastforce
  have l: "l = (if fd \<ge> 0 then Device_fd fd # cl_ledger cl else cl_ledger cl)" by (rule open_vpu_device_ledger [OF o])
  have "cl_ledger (VPU_SERVICE_TEST p c) = cl_ledger c" for c by (simp add: VPU_SERVICE_TEST_def)
  then have w: "cl_ledger (snd (VPUCheckSupportWidth d p cl)) = cl_ledger cl"
    by (simp add: VPUCheckSupportWidth_def VPUClientGetHwCfg_def o l Let_def)
      (auto simp: client_close_def split: prod.splits)
  have i: "cl_ledger (snd (VPUClientGetIOMMUStatus d p cl)) = cl_ledger cl"
    by (simp add: VPUClientGetIOMMUStatus_def probe_iommu_def client_close_def o l Let_def split: prod.split)
  have z: "fst (VPUCheckSupportWidth d p cl) = 0" if "fd < 0"
    using that by (simp add: VPUCheckSupportWidth_def o zero_VPUHwDecConfig_def)
  have "VPUClientGetIOMMUStatus d' p' cl' = (status, cl')"
    if "VPUClientGetIOMMUStatus d p cl = (status, cl')" "0 \<le> status" for status cl'
    using that by (auto simp: VPUClientGetIOMMUStatus_def Let_def)
  with w i z o show ?thesis by auto
qed

definition demo_probes :: probes where
  "demo_probes = \<lparr>pr_access = \<lambda>path. - 1, pr_hw_cfg = \<lambda>l fd cfg. (0, cfg\<lparr>hc_maxDecPicWidth := 4096\<rparr>), pr_iommu = \<lambda>l fd s. (0, 1)\<rparr>"

lemma Probes_keep_descriptors_witness:
  "VPUCheckSupportWidth (demo_device\<lparr>dev_open := \<lambda>l path. - 1\<rparr>) demo_probes \<lparr>cl_service_status = - 1, cl_iommu_status = - 1, cl_ledger = []\<rparr> =
     (0, \<lparr>cl_service_status = - 1, cl_iommu_status = - 1, cl_ledger = []\<rparr>) \<and>
   VPUClientGetIOMMUStatus demo_device demo_probes \<lparr>cl_service_status = 0, cl_iommu_status = 1, cl_ledger = []\<rparr> =
     (1, \<lparr>cl_service_status = 0, cl_iommu_status = 1, cl_ledger = []\<rparr>)"
proof -
  let ?d = "demo_device\<lparr>dev_open := \<lambda>l path. - 1\<rparr>"
  let ?c = "\<lparr>cl_service_status = - 1, cl_iommu_status = - 1, cl_ledger = []\<rparr>"
  let ?k = "\<lparr>cl_service_status = 0, cl_iommu_status = - 1, cl_ledger = []\<rparr>"
  let ?k' = "\<lparr>cl_service_status = 0, cl_iommu_status = 1, cl_ledger = []\<rparr>"
  have o: "open_vpu_device ?d [] = (- 1, [])" by (simp add: open_vpu_device_def vpu_dev_def open_one_def)
  have "VPUClientGetIOMMUStatus demo_device demo_probes ?k = (1, ?k')"
    by (simp add: VPUClientGetIOMMUStatus_def probe_iommu_def open_vpu_device_def vpu_dev_def open_one_def demo_device_def demo_probes_def
        client_close_def)
  then have k: "VPUClientGetIOMMUStatus demo_device demo_probes ?k' = (1, ?k')"
    using Probes_keep_descriptors [of demo_device demo_probes ?k demo_device demo_probes] zero_le_one by blast
  have "fst (VPUCheckSupportWidth ?d demo_probes ?c) = 0"
    using Probes_keep_descriptors [of ?d demo_probes ?c demo_device demo_probes] o by simp
  then show ?thesis using k o by (simp add: VPUCheckSupportWidth_def)
qed

end
