(* ===== verification/StreamInput.thy ===== *)
theory StreamInput
  imports JpegTypes
begin

text \<open>
  How Rk_JpegDecoder::pv_rkJpegdecoder_oneframe (test/pv_jpegdec_api.cpp) brings a stream into the
  buffer of the hardware: pictures of one kind of camera are freed of the FF 00 in front of restart
  markers, and the padding in front of the marker that ends the picture is cut. The buffer and the
  input are lists of bytes; None is an access in front of the buffer.
\<close>

section \<open>Copying\<close>

definition is_avi1 :: "u8 list \<Rightarrow> bool" where
  "is_avi1 s \<longleftrightarrow> s ! 6 = 0x41 \<and> s ! 7 = 0x56 \<and> s ! 8 = 0x49 \<and> s ! 9 = 0x31"

definition padded_restart :: "u8 list \<Rightarrow> nat \<Rightarrow> bool" where
  "padded_restart tmp i \<longleftrightarrow>
     tmp ! i = 0xFF \<and> tmp ! (i + 1) = 0x00 \<and> tmp ! (i + 2) = 0xFF \<and> tmp ! (i + 3) AND 0xF0 = 0xD0"

function avi_copy :: "u8 list \<Rightarrow> nat \<Rightarrow> u8 list \<Rightarrow> u8 list" where
  "avi_copy tmp i dst =
     (if i < length tmp - 4 then
        let i = (if padded_restart tmp i then i + 2 else i) in avi_copy tmp (i + 1) (dst @ [tmp ! i])
      else dst @ drop i tmp)"
  by auto
termination by (relation "measure (\<lambda>(tmp, i, dst). length tmp - i)") (auto split: if_splits)

declare avi_copy.simps [simp del]

definition str_size :: "u32 \<Rightarrow> u32" where
  "str_size input_size = (input_size + 255) AND NOT 255"

text \<open>The buffer after the copy, and the length of the stream.\<close>

definition fill_stream :: "u8 list \<Rightarrow> u8 list \<Rightarrow> u8 list \<times> nat" where
  "fill_stream buf inp =
     (let n = length inp; padded = unat (str_size (of_nat n)) in
      if is_avi1 inp then
        let c = avi_copy inp 0 [] in (c @ replicate (n - length c) 0 @ drop n buf, length c)
      else (inp @ replicate (padded - n) 0 @ drop padded buf, n))"

section \<open>Cutting the padding\<close>

text \<open>The loop that moves end back over FF and FF 00.\<close>

function trim_end :: "u8 list \<Rightarrow> nat \<Rightarrow> nat option" where
  "trim_end buf e =
     (if e = 0 then None
      else if buf ! (e - 1) = 0xFF then trim_end buf (e - 1)
      else if buf ! (e - 1) = 0x00 then
        (if e = 1 then None else if buf ! (e - 2) = 0xFF then trim_end buf (e - 2) else Some e)
      else Some e)"
  by auto
termination by (relation "measure snd") auto

declare trim_end.simps [simp del]

definition cut_padding :: "u8 list \<Rightarrow> nat \<Rightarrow> u8 list option" where
  "cut_padding buf n =
     (if buf ! (n - 1) = 0xD9 \<and> buf ! (n - 2) = 0xFF then
        (case trim_end buf (n - 2) of None \<Rightarrow> None | Some e \<Rightarrow> Some (buf[e := 0xFF, e + 1 := 0xD9]))
      else Some buf)"

definition prepare_stream :: "u8 list \<Rightarrow> u8 list \<Rightarrow> (u8 list \<times> nat) option" where
  "prepare_stream buf inp =
     (case fill_stream buf inp of (buf, n) \<Rightarrow>
        case cut_padding buf (length inp) of None \<Rightarrow> None | Some buf \<Rightarrow> Some (buf, n))"

section \<open>The copy as a filter\<close>

text \<open>FF 00 goes where FF and a restart marker follow, unless it is one of the last few bytes.\<close>

fun strip_restarts :: "u8 list \<Rightarrow> u8 list" where
  "strip_restarts (a # b # c # d # e # xs) =
     (if a = 0xFF \<and> b = 0 \<and> c = 0xFF \<and> d AND 0xF0 = 0xD0 then c # strip_restarts (d # e # xs)
      else a # strip_restarts (b # c # d # e # xs))"
| "strip_restarts xs = xs"

lemma strip_restarts_short: "length xs \<le> 4 \<Longrightarrow> strip_restarts xs = xs"
  by (cases xs rule: strip_restarts.cases) simp_all

lemma length_strip_restarts: "length (strip_restarts xs) \<le> length xs"
  by (induction xs rule: strip_restarts.induct) auto

lemma avi_copy_strips: "avi_copy tmp i dst = dst @ strip_restarts (drop i tmp)"
proof (induction tmp i dst rule: avi_copy.induct)
  case (1 tmp i dst)
  show ?case
  proof (cases "i < length tmp - 4")
    case False
    then show ?thesis by (subst avi_copy.simps) (simp add: strip_restarts_short)
  next
    case True
    define xs where "xs = drop (i + 5) tmp"
    from True have d: "drop i tmp = tmp ! i # tmp ! (i + 1) # tmp ! (i + 2) # tmp ! (i + 3) # tmp ! (i + 4) # xs"
      using Cons_nth_drop_Suc [of i tmp] Cons_nth_drop_Suc [of "i + 1" tmp] Cons_nth_drop_Suc [of "i + 2" tmp]
        Cons_nth_drop_Suc [of "i + 3" tmp] Cons_nth_drop_Suc [of "i + 4" tmp]
      by (simp add: numeral_eq_Suc xs_def)
    have t: "drop (i + 1) tmp = tmp ! (i + 1) # tmp ! (i + 2) # tmp ! (i + 3) # tmp ! (i + 4) # xs"
      "drop (i + 3) tmp = tmp ! (i + 3) # tmp ! (i + 4) # xs"
      using arg_cong [OF d, of "drop 1"] arg_cong [OF d, of "drop 3"] by (simp_all add: numeral_eq_Suc)
    have s3: "Suc (Suc (Suc i)) = i + 3" by simp
    show ?thesis
    proof (cases "padded_restart tmp i")
      case True
      have "avi_copy tmp (i + 3) (dst @ [tmp ! (i + 2)]) = (dst @ [tmp ! (i + 2)]) @ strip_restarts (drop (i + 3) tmp)"
        using 1 [OF \<open>i < length tmp - 4\<close>, of "i + 2"] True by (simp add: s3)
      then have "avi_copy tmp i dst = dst @ tmp ! (i + 2) # strip_restarts (drop (i + 3) tmp)"
        using True \<open>i < length tmp - 4\<close> by (subst avi_copy.simps) (simp add: s3)
      moreover have "strip_restarts (drop i tmp) = tmp ! (i + 2) # strip_restarts (drop (i + 3) tmp)"
        unfolding d t(2) using True by (subst strip_restarts.simps(1)) (simp add: padded_restart_def)
      ultimately show ?thesis by simp
    next
      case False
      have "avi_copy tmp (i + 1) (dst @ [tmp ! i]) = (dst @ [tmp ! i]) @ strip_restarts (drop (i + 1) tmp)"
        using 1 [OF \<open>i < length tmp - 4\<close>, of i] False by simp
      then have "avi_copy tmp i dst = dst @ tmp ! i # strip_restarts (drop (i + 1) tmp)"
        using False \<open>i < length tmp - 4\<close> by (subst avi_copy.simps) simp
      moreover have "strip_restarts (drop i tmp) = tmp ! i # strip_restarts (drop (i + 1) tmp)"
        unfolding d t(1) using False by (subst strip_restarts.simps(1)) (auto simp: padded_restart_def)
      ultimately show ?thesis by simp
    qed
  qed
qed

section \<open>The padding\<close>

definition is_pad :: "u8 list \<Rightarrow> bool" where "is_pad p \<longleftrightarrow> p = [0xFF] \<or> p = [0xFF, 0]"

text \<open>Data that does not end in padding.\<close>

definition ends_clean :: "u8 list \<Rightarrow> bool" where
  "ends_clean xs \<longleftrightarrow> (\<forall>ys p. is_pad p \<longrightarrow> xs \<noteq> ys @ p)"

lemma trim_end_clean:
  assumes "ends_clean pre" "take e buf = pre" "e \<le> length buf"
  shows "trim_end buf e = (if pre = [] \<or> pre = [0] then None else Some e)"
proof -
  have e: "length pre = e" using assms(2,3) by auto
  have nth: "buf ! i = pre ! i" if "i < e" for i using assms(2) that by auto
  show ?thesis
  proof (cases pre rule: rev_cases)
    case Nil
    then show ?thesis using e by (subst trim_end.simps) simp
  next
    case (snoc ys y)
    have last: "buf ! (e - 1) = y" using nth [of "e - 1"] snoc e by (auto simp: nth_append)
    have y: "y \<noteq> 0xFF" using assms(1) snoc by (auto simp: ends_clean_def is_pad_def)
    show ?thesis
    proof (cases "y = 0")
      case False
      then show ?thesis using y last snoc e by (subst trim_end.simps) simp
    next
      case True
      show ?thesis
      proof (cases ys rule: rev_cases)
        case Nil
        have z: "(0 :: u8) \<noteq> 0xFF" by simp
        show ?thesis using Nil True last snoc e z by (subst trim_end.simps) (simp del: iszero_def)
      next
        case (snoc zs z)
        have "z \<noteq> 0xFF" using assms(1) \<open>pre = ys @ [y]\<close> snoc True by (auto simp: ends_clean_def is_pad_def)
        moreover have "buf ! (e - 2) = z" using nth [of "e - 2"] \<open>pre = ys @ [y]\<close> snoc e by (auto simp: nth_append)
        ultimately show ?thesis using True last \<open>pre = ys @ [y]\<close> snoc e by (subst trim_end.simps) auto
      qed
    qed
  qed
qed

lemma trim_end_pads:
  assumes "list_all is_pad pads" "take (length pre + length (concat pads)) buf = pre @ concat pads"
    "length pre + length (concat pads) \<le> length buf" "ends_clean pre"
  shows "trim_end buf (length pre + length (concat pads)) = (if pre = [] \<or> pre = [0] then None else Some (length pre))"
  using assms(1-3)
proof (induction pads rule: rev_induct)
  case Nil
  then show ?case using trim_end_clean [OF assms(4), of "length pre" buf] by simp
next
  case (snoc p pads)
  let ?e = "length pre + length (concat pads)"
  have p: "is_pad p" "list_all is_pad pads" using snoc.prems(1) by simp_all
  have "take ?e (take (length pre + length (concat (pads @ [p]))) buf) = pre @ concat pads"
    unfolding snoc.prems(2) by simp
  then have IH: "trim_end buf ?e = (if pre = [] \<or> pre = [0] then None else Some (length pre))"
    using snoc.IH [OF p(2)] snoc.prems(3) by (simp add: min_def)
  have nth: "buf ! (?e + i) = p ! i" if "i < length p" for i
  proof -
    have "buf ! (?e + i) = take (length pre + length (concat (pads @ [p]))) buf ! (?e + i)" using that by simp
    then show ?thesis unfolding snoc.prems(2) using that by (simp add: nth_append)
  qed
  consider "p = [0xFF]" | "p = [0xFF, 0]" using p(1) by (auto simp: is_pad_def)
  then show ?case
  proof cases
    case 1
    then show ?thesis using IH nth [of 0] by (subst trim_end.simps) simp
  next
    case 2
    then show ?thesis using IH nth [of 0] nth [of 1] by (subst trim_end.simps) simp
  qed
qed

section \<open>Properties\<close>

lemma str_size_padded:
  assumes "n + 255 < 2 ^ 32"
  shows "unat (str_size (of_nat n)) = (n + 255) div 256 * 256"
proof -
  have m: "(255 :: u32) = mask 8" by (simp add: mask_eq_exp_minus_1)
  have u: "unat (of_nat n + 255 :: u32) = n + 255"
    using assms by (subst u32_add) (simp_all add: unsigned_of_nat take_bit_nat_eq_self)
  have "x AND NOT (mask 8) = push_bit 8 (drop_bit 8 x)" for x :: u32
    by (rule bit_word_eqI) (auto simp: bit_simps)
  then have "str_size (of_nat n) = push_bit 8 (drop_bit 8 (of_nat n + 255))" by (simp add: str_size_def m)
  moreover have "unat (push_bit 8 (drop_bit 8 x)) = unat x div 256 * 256" for x :: u32
  proof -
    have "unat x div 256 * 256 \<le> unat x" by simp
    then have "unat x div 256 * 256 < 4294967296" using u32_lt [of x] by linarith
    moreover have "unat (drop_bit 8 x) = unat x div 2 ^ 8" by (subst unat_drop_bit_eq) (rule drop_bit_eq_div)
    ultimately show ?thesis by (subst unsigned_push_bit_eq) (simp add: push_bit_eq_mult take_bit_nat_eq_self)
  qed
  ultimately show ?thesis using u by simp
qed

lemma strip_restarts_shorter: "strip_restarts xs = xs \<or> length (strip_restarts xs) < length xs"
  by (induction xs rule: strip_restarts.induct) auto

lemma fill_stream_plain:
  assumes "\<not> is_avi1 inp" "length inp + 255 < 2 ^ 32"
  shows "fill_stream buf inp =
    (inp @ replicate ((length inp + 255) div 256 * 256 - length inp) 0 @ drop ((length inp + 255) div 256 * 256) buf, length inp)"
  using assms str_size_padded [OF assms(2)] by (simp add: fill_stream_def Let_def)

lemma fill_stream_avi1:
  "is_avi1 inp \<Longrightarrow> fill_stream buf inp =
    (strip_restarts inp @ replicate (length inp - length (strip_restarts inp)) 0 @ drop (length inp) buf, length (strip_restarts inp))"
  by (simp add: fill_stream_def Let_def avi_copy_strips)

lemma cut_padding_pads:
  assumes "list_all is_pad pads" "ends_clean pre" "n = length pre + length (concat pads) + 2"
  shows "cut_padding (pre @ concat pads @ [0xFF, 0xD9] @ rest) n =
    (if pre = [] \<or> pre = [0] then None else Some (pre @ [0xFF, 0xD9] @ drop (length pre + 2) (pre @ concat pads @ [0xFF, 0xD9] @ rest)))"
proof -
  let ?b = "pre @ concat pads @ [0xFF, 0xD9] @ rest"
  have t: "trim_end ?b (n - 2) = (if pre = [] \<or> pre = [0] then None else Some (length pre))"
    using trim_end_pads [OF assms(1) _ _ assms(2), of ?b] assms(3) by simp
  have e: "?b ! (n - 1) = 0xD9" "?b ! (n - 2) = 0xFF" using assms(3) by (simp_all add: nth_append)
  have u: "(pre @ x # y # z)[length pre := a, length pre + 1 := b] = pre @ a # b # z" for x y z a b
    by (simp add: list_update_append)
  obtain x y z where b: "concat pads @ [0xFF, 0xD9] @ rest = x # y # z"
    by (cases "concat pads @ [0xFF, 0xD9] @ rest" rule: remdups_adj.cases) auto
  show ?thesis
    unfolding cut_padding_def t e unfolding b using u [of x y z] by simp
qed

text \<open>
  C40. What reaches the buffer of the hardware. A plain picture is copied, followed by zeros up to a
  multiple of 256; when it ends in FF D9 behind padding (bytes FF and pairs FF 00), the marker is moved
  to the front of the padding, and the length of the stream stays. A picture that is nothing but padding,
  or one byte 0 before it, makes the search run over the front of the buffer. A picture of the camera
  loses the FF 00 in front of its restart markers; when it has lost any, the padding at its end stays,
  for the search for it starts behind the copy.
\<close>

theorem prepare_stream_result:
  assumes "16 \<le> length inp" "length inp + 255 < 2 ^ 32"
  defines "n \<equiv> length inp" and "padded \<equiv> (length inp + 255) div 256 * 256"
  shows "(\<not> is_avi1 inp \<longrightarrow> (inp ! (n - 2) \<noteq> 0xFF \<or> inp ! (n - 1) \<noteq> 0xD9) \<longrightarrow>
      prepare_stream buf inp = Some (inp @ replicate (padded - n) 0 @ drop padded buf, n)) \<and>
    (\<forall>pre pads. \<not> is_avi1 inp \<longrightarrow> inp = pre @ concat pads @ [0xFF, 0xD9] \<longrightarrow> list_all is_pad pads \<longrightarrow> ends_clean pre \<longrightarrow>
      prepare_stream buf inp = (if pre = [] \<or> pre = [0] then None else
        Some (pre @ [0xFF, 0xD9] @ drop (length pre + 2) (inp @ replicate (padded - n) 0 @ drop padded buf), n))) \<and>
    (is_avi1 inp \<longrightarrow> strip_restarts inp \<noteq> inp \<longrightarrow>
      prepare_stream buf inp = Some (strip_restarts inp @ replicate (n - length (strip_restarts inp)) 0 @ drop n buf,
        length (strip_restarts inp)))"
proof (intro conjI allI impI)
  assume "\<not> is_avi1 inp" "inp ! (n - 2) \<noteq> 0xFF \<or> inp ! (n - 1) \<noteq> 0xD9"
  then show "prepare_stream buf inp = Some (inp @ replicate (padded - n) 0 @ drop padded buf, n)"
    using assms(1) by (auto simp: prepare_stream_def fill_stream_plain [OF _ assms(2)] cut_padding_def n_def padded_def nth_append)
next
  fix pre pads
  assume a: "\<not> is_avi1 inp" "inp = pre @ concat pads @ [0xFF, 0xD9]" "list_all is_pad pads" "ends_clean pre"
  let ?b = "inp @ replicate (padded - n) 0 @ drop padded buf"
  have l: "n = length pre + length (concat pads) + 2" unfolding n_def by (subst a(2)) simp
  have b: "?b = pre @ concat pads @ [0xFF, 0xD9] @ replicate (padded - n) 0 @ drop padded buf" by (subst a(2)) simp
  have "cut_padding ?b n = (if pre = [] \<or> pre = [0] then None else Some (pre @ [0xFF, 0xD9] @ drop (length pre + 2) ?b))"
    unfolding b by (rule cut_padding_pads [OF a(3,4) l])
  moreover have "fill_stream buf inp = (?b, n)" using fill_stream_plain [OF a(1) assms(2)] by (simp only: n_def padded_def)
  ultimately show "prepare_stream buf inp = (if pre = [] \<or> pre = [0] then None else
        Some (pre @ [0xFF, 0xD9] @ drop (length pre + 2) ?b, n))"
    by (simp add: prepare_stream_def del: append_assoc flip: n_def)
next
  assume a: "is_avi1 inp" "strip_restarts inp \<noteq> inp"
  let ?s = "strip_restarts inp"
  have "length ?s < n" using a(2) strip_restarts_shorter [of inp] by (simp add: n_def)
  then have "(?s @ replicate (n - length ?s) 0 @ drop n buf) ! (n - 1) = 0" by (auto simp: nth_append)
  then show "prepare_stream buf inp = Some (?s @ replicate (n - length ?s) 0 @ drop n buf, length ?s)"
    by (simp add: prepare_stream_def fill_stream_avi1 [OF a(1)] cut_padding_def flip: n_def)
qed

lemma prepare_stream_result_witness:
  "prepare_stream [] ([0xFF, 0xD8, 1, 2, 3, 4, 5, 6, 7, 8, 9] @ [0xFF, 0, 0xFF] @ [0xFF, 0xD9]) =
     Some ([0xFF, 0xD8, 1, 2, 3, 4, 5, 6, 7, 8, 9, 0xFF, 0xD9, 0xFF, 0xFF, 0xD9] @ replicate 240 0, 16) \<and>
   prepare_stream [] (replicate 14 0xFF @ [0xFF, 0xD9]) = None"
proof (intro conjI)
  let ?pre = "[0xFF, 0xD8, 1, 2, 3, 4, 5, 6, 7, 8, 9] :: u8 list" and ?pads = "[[0xFF, 0], [0xFF]] :: u8 list list"
  let ?inp = "?pre @ concat ?pads @ [0xFF, 0xD9]"
  have c: "ends_clean ?pre" "ends_clean []"
    by (auto simp: ends_clean_def is_pad_def Cons_eq_append_conv)
  have "prepare_stream [] ?inp = (if ?pre = [] \<or> ?pre = [0] then None else
      Some (?pre @ [0xFF, 0xD9] @ drop (length ?pre + 2) (?inp @ replicate 240 0 @ drop 256 []), length ?inp))"
    using prepare_stream_result [of ?inp "[]", THEN conjunct2, THEN conjunct1, rule_format, of ?pre ?pads] c(1)
    by (simp add: is_avi1_def is_pad_def)
  then show "prepare_stream [] ([0xFF, 0xD8, 1, 2, 3, 4, 5, 6, 7, 8, 9] @ [0xFF, 0, 0xFF] @ [0xFF, 0xD9]) =
     Some ([0xFF, 0xD8, 1, 2, 3, 4, 5, 6, 7, 8, 9, 0xFF, 0xD9, 0xFF, 0xFF, 0xD9] @ replicate 240 0, 16)" by simp
next
  have concat_replicate_single: "concat (replicate k [x]) = replicate k x" for k and x :: u8 by (induction k) simp_all
  let ?inp = "[] @ concat (replicate 14 [0xFF]) @ [0xFF, 0xD9] :: u8 list"
  have "?inp ! 6 = 0xFF" by (simp add: concat_replicate_single nth_append)
  then have a: "\<not> is_avi1 ?inp" by (simp add: is_avi1_def)
  have "list_all is_pad (replicate 14 [0xFF])" by (simp add: is_pad_def list_all_iff)
  moreover have "ends_clean []" by (simp add: ends_clean_def is_pad_def)
  ultimately have "prepare_stream [] ?inp = None"
    using prepare_stream_result [of ?inp "[]", THEN conjunct2, THEN conjunct1, rule_format, of "[]" "replicate 14 [0xFF]"] a
    by simp
  then show "prepare_stream [] (replicate 14 0xFF @ [0xFF, 0xD9]) = None" by (simp add: concat_replicate_single)
qed

end
