(* ===== verification/RkDecoder.thy ===== *)
theory RkDecoder
  imports Decode Instance Allocator PostProcessor StreamInput
begin

text \<open>
  test/pv_jpegdec_api.cpp: the class Rk_JpegDecoder that a client decodes single pictures with. It
  keeps a decoder, a buffer for the stream and one for the picture, both from the allocator of
  allocator_drm.c, and runs a picture through JpegDecGetImageInfo, SetPostProcessor and JpegDecDecode.

  The kernel, the device, the core and the allocator of the decoder itself are parameters, collected in
  rk_env; a call of the kernel that does not return makes the call OutOfFuel. What is printed and the
  files the code writes for debugging are not modelled, nor is the block of malloc that init loses when
  os_api->open overwrites ctx.
\<close>

section \<open>State\<close>

record 'k rk_env =
  re_kernel :: "'k drm_kernel"
  re_ctx :: addr
  re_mapped :: "'k \<Rightarrow> u8 list"
  re_device :: device
  re_malloc :: "u32 \<Rightarrow> bool"
  re_al :: os_allocator
  re_core :: core
  re_infoTmp :: JpegDecImageInfo
  re_fuel :: nat

text \<open>
  The members of the class; rk_os_api is False for a null pointer. The last three are the process
  around it: the content of the stream buffer, the kernel, and the descriptors and blocks of the decoder.
\<close>

record 'k Rk_JpegDecoder =
  rk_imageInfo :: JpegDecImageInfo
  rk_jpegIn :: JpegDecInput
  rk_jpegOut :: JpegDecOutput
  rk_jpegInst :: "(addr \<times> hw_state) option"
  rk_jpegRet :: JpegDecRet
  rk_streamMem :: MppBufferInfo
  rk_pictureMem :: MppBufferInfo
  rk_stream_size :: u32
  rk_color_conv :: u32
  rk_vpumem_ctx :: addr
  rk_ctx :: "Allocator.allocator_ctx_drm option"
  rk_os_api :: bool
  rk_stream :: "u8 list"
  rk_kernel :: 'k
  rk_ledger :: ledger

definition get_class_RkJpegDecoder :: "'k Rk_JpegDecoder \<Rightarrow> 'k Rk_JpegDecoder" where
  "get_class_RkJpegDecoder d = d\<lparr>rk_jpegInst := None, rk_color_conv := 1, rk_vpumem_ctx := 0\<rparr>"

text \<open>The frame that is handed out (jpeg_global.h).\<close>

record JPEG_FRAME =
  jf_FrameBusAddr :: "u32 list"
  jf_FrameWidth :: u32
  jf_FrameHeight :: u32
  jf_OutputWidth :: u32
  jf_OutputHeight :: u32
  jf_DisplayWidth :: u32
  jf_DisplayHeight :: u32
  jf_ColorType :: u32
  jf_ErrorInfo :: u32
  jf_employ_cnt :: u32
  jf_jpegmem :: MppBufferInfo
  jf_next_frame :: addr
  jf_Res :: "u32 list"

definition sizeof_JPEG_FRAME :: u32 where "sizeof_JPEG_FRAME = 92"
definition VPU_OUTPUT_FORMAT_YUV420_SEMIPLANAR :: u32 where "VPU_OUTPUT_FORMAT_YUV420_SEMIPLANAR = 5"
definition VPU_OUTPUT_FORMAT_YUV422_SEMIPLANAR :: u32 where "VPU_OUTPUT_FORMAT_YUV422_SEMIPLANAR = 7"
definition SZ_4K :: u32 where "SZ_4K = 4 * 1024"
definition DWL_OK :: int where "DWL_OK = 0"

text \<open>
  The locals of pv_rkJpegdecoder_oneframe and what its pointer arguments point to. ret is None until it
  is set. A statement that leaves the straight line jumps to j_end or leaves the function.
\<close>

record 'k oneframe_vars =
  of_d :: "'k Rk_JpegDecoder"
  of_ret :: "int option"
  of_ppInputFomart :: int
  of_ppInfo :: PostProcessInfo
  of_ppScaleW :: u32
  of_ppScaleH :: u32
  of_pic_size :: u32
  of_frame :: JPEG_FRAME
  of_outLength :: u32
  of_inSize :: u32

datatype rk_exit = J_end | Leave int

type_synonym 'k oneframe_step = "(rk_exit \<times> 'k oneframe_vars, 'k oneframe_vars) outcome"

definition on_rk :: "('k Rk_JpegDecoder \<Rightarrow> 'k Rk_JpegDecoder) \<Rightarrow> 'k oneframe_vars \<Rightarrow> 'k oneframe_vars" where
  "on_rk f v = v\<lparr>of_d := f (of_d v)\<rparr>"

definition on_inst :: "(JpegDecContainer \<Rightarrow> JpegDecContainer) \<Rightarrow> 'k oneframe_vars \<Rightarrow> 'k oneframe_vars" where
  "on_inst f = on_rk (\<lambda>d. d\<lparr>rk_jpegInst := map_option (apsnd (on_c f)) (rk_jpegInst d)\<rparr>)"

text \<open>A function that returns a value, used as a statement.\<close>

fun call :: "('r, unit) outcome \<Rightarrow> ('r \<Rightarrow> ('x, 'a) outcome) \<Rightarrow> ('x, 'a) outcome" where
  "call (Return r) F = F r"
| "call (Continue u) F = Undefined"
| "call Undefined F = Undefined"
| "call OutOfFuel F = OutOfFuel"

section \<open>Opening and closing\<close>

definition rk_alloc_map ::
  "'k rk_env \<Rightarrow> 'k \<Rightarrow> Allocator.allocator_ctx_drm option \<Rightarrow> MppBufferInfo \<Rightarrow> ('k \<times> int \<times> int \<times> MppBufferInfo) option" where
  "rk_alloc_map E k ctx b =
     (let os_api = allocator_drm (re_kernel E) in do {
        (k, allocated, b) \<leftarrow> at_alloc os_api k ctx b;
        (k, mapped, b) \<leftarrow> at_mmap os_api k ctx b;
        Some (k, allocated, mapped, b)
      })"

definition rk_reset :: "'k Rk_JpegDecoder \<Rightarrow> 'k Rk_JpegDecoder" where
  "rk_reset d =
     d\<lparr>rk_jpegIn := (rk_jpegIn d)\<lparr>in_streamBuffer := null_mem, in_streamLength := 0, in_pictureBufferY := null_mem,
         in_pictureBufferCbCr := null_mem, in_sliceMbSet := 0, in_bufferSize := 0\<rparr>,
       rk_jpegOut := \<lparr>out_outputPictureY = null_mem, out_outputPictureCbCr = null_mem, out_outputPictureCr = null_mem\<rparr>,
       rk_imageInfo := (rk_imageInfo d)\<lparr>ii_displayWidth := 0, ii_displayHeight := 0, ii_outputWidth := 0,
         ii_outputHeight := 0, ii_version := 0, ii_units := 0, ii_xDensity := 0, ii_yDensity := 0, ii_outputFormat := 0,
         ii_thumbnailType := 0, ii_displayWidthThumb := 0, ii_displayHeightThumb := 0, ii_outputWidthThumb := 0,
         ii_outputHeightThumb := 0, ii_outputFormatThumb := 0\<rparr>,
       rk_pictureMem := zero_MppBufferInfo,
       rk_streamMem := (rk_streamMem d)\<lparr>mb_vir_addr := 0, mb_phy_addr := 0\<rparr>,
       rk_os_api := True\<rparr>"

definition pv_rkJpegdecoder_init :: "'k rk_env \<Rightarrow> 'k Rk_JpegDecoder \<Rightarrow> (int \<times> 'k Rk_JpegDecoder, unit) outcome" where
  "pv_rkJpegdecoder_init E d =
     (let d = rk_reset d; (k, opened, ctx) = at_open (allocator_drm (re_kernel E)) (rk_kernel d) (Some None) 32;
          ctx = Option.bind ctx id; stream_size = 1024 * 500;
          b = (rk_streamMem d)\<lparr>mb_size := stream_size, mb_type := MPP_BUFFER_TYPE_DRM\<rparr>
      in case rk_alloc_map E k ctx b of
        None \<Rightarrow> OutOfFuel
      | Some (k, ret, mapped, b) \<Rightarrow>
          let d = d\<lparr>rk_ctx := ctx, rk_stream_size := stream_size, rk_streamMem := b, rk_stream := re_mapped E k, rk_kernel := k\<rparr>
          in if ret \<noteq> DWL_OK then Return (- 1, d) else Return (0, d\<lparr>rk_jpegInst := None\<rparr>))"

definition mJpegFreeLinear ::
  "'k rk_env \<Rightarrow> MppBufferInfo \<Rightarrow> 'k Rk_JpegDecoder \<Rightarrow> ('k Rk_JpegDecoder \<times> MppBufferInfo) option" where
  "mJpegFreeLinear E b d =
     (if rk_os_api d then do {
        (k, ret, b) \<leftarrow> at_free (allocator_drm (re_kernel E)) (rk_kernel d) (rk_ctx d) b;
        Some (d\<lparr>rk_kernel := k\<rparr>, b)
      } else Some (d, b))"

text \<open>FindImageInfoEnd of test/hw_jpegdecapi.c: the offset of the first SOS that 32 bytes follow.\<close>

fun FindImageInfoEnd :: "u8 list \<Rightarrow> nat \<Rightarrow> nat option" where
  "FindImageInfoEnd (b # bs) i =
     (if b = 0xFF \<and> 32 \<le> length bs \<and> bs ! 0 = 0xDA then Some i else FindImageInfoEnd bs (i + 1))"
| "FindImageInfoEnd [] i = None"

text \<open>The pointer jpegInst is not cleared.\<close>

definition hw_jpeg_release :: "os_allocator \<Rightarrow> (addr \<times> JpegDecContainer) option \<Rightarrow> ledger \<Rightarrow> ledger" where
  "hw_jpeg_release al decInst l = (case decInst of None \<Rightarrow> l | Some x \<Rightarrow> JpegDecRelease al (Some x) l)"

definition pv_rkJpegdecoder_deinit :: "'k rk_env \<Rightarrow> 'k Rk_JpegDecoder \<Rightarrow> (int \<times> 'k Rk_JpegDecoder) option" where
  "pv_rkJpegdecoder_deinit E d =
     do {
       d \<leftarrow> (if mb_vir_addr (rk_streamMem d) \<noteq> 0
              then do { (d, b) \<leftarrow> mJpegFreeLinear E (rk_streamMem d) d; Some (d\<lparr>rk_streamMem := b\<rparr>) } else Some d);
       d \<leftarrow> (if mb_vir_addr (rk_pictureMem d) \<noteq> 0
              then do { (d, b) \<leftarrow> mJpegFreeLinear E (rk_pictureMem d) d; Some (d\<lparr>rk_pictureMem := b\<rparr>) } else Some d);
       let d = d\<lparr>rk_ledger := hw_jpeg_release (re_al E) (map_option (apsnd hw_c) (rk_jpegInst d)) (rk_ledger d)\<rparr>;
       Some (0, if rk_ctx d \<noteq> None
                then d\<lparr>rk_kernel := fst (at_close (allocator_drm (re_kernel E)) (rk_kernel d) (rk_ctx d))\<rparr> else d)
     }"

section \<open>Decoding a picture: the stream\<close>

definition open_instance :: "'k rk_env \<Rightarrow> 'k oneframe_vars \<Rightarrow> 'k oneframe_step" where
  "open_instance E v =
     (let d = of_d v in
      if rk_jpegInst d \<noteq> None then Continue v
      else let (ret, inst, l) = JpegDecInit (re_device E) (rk_ledger d) True (rk_color_conv d);
               inst = map_option (apsnd (\<lambda>c. \<lparr>hw_c = c, hw_base = [], hw_sent = []\<rparr>)) inst;
               v = v\<lparr>of_d := d\<lparr>rk_jpegRet := ret, rk_jpegInst := inst, rk_ledger := l\<rparr>\<rparr>
           in if ret \<noteq> JPEGDEC_OK then Return (Leave (- 1), v) else Continue v)"

definition hand_context :: "'k rk_env \<Rightarrow> 'k oneframe_vars \<Rightarrow> 'k oneframe_vars" where
  "hand_context E v =
     (let d = of_d v in
      on_inst (\<lambda>c. c\<lparr>c_vpumem_ctx := rk_vpumem_ctx d, c_ctx := (if rk_ctx d = None then 0 else re_ctx E)\<rparr>) v)"

definition grow_stream :: "'k rk_env \<Rightarrow> u32 \<Rightarrow> 'k oneframe_vars \<Rightarrow> 'k oneframe_step" where
  "grow_stream E input_size v =
     (let d = of_d v; n = str_size input_size + SZ_4K in
      if n > rk_stream_size d then
        (case at_free (allocator_drm (re_kernel E)) (rk_kernel d) (rk_ctx d) (rk_streamMem d) of
           None \<Rightarrow> OutOfFuel
         | Some (k, freed, b) \<Rightarrow>
             (case rk_alloc_map E k (rk_ctx d) (b\<lparr>mb_size := n\<rparr>) of
                None \<Rightarrow> OutOfFuel
              | Some (k, allocated, ret, b) \<Rightarrow>
                  let d = d\<lparr>rk_kernel := k, rk_streamMem := b, rk_stream := re_mapped E k\<rparr>; v = v\<lparr>of_ret := Some ret\<rparr>
                  in if ret \<noteq> DWL_OK then Return (J_end, v\<lparr>of_d := d\<rparr>)
                     else Continue (v\<lparr>of_d := d\<lparr>rk_stream_size := n\<rparr>\<rparr>)))
      else Continue v)"

text \<open>A buffer that is not mapped or too small for the input is written out of its bounds.\<close>

definition load_stream :: "u8 list \<Rightarrow> 'k oneframe_vars \<Rightarrow> 'k oneframe_step" where
  "load_stream inp v =
     (let d = of_d v; b = rk_streamMem d in
      if mb_vir_addr b = 0 \<or> unat (rk_stream_size d) < length inp then Undefined
      else case prepare_stream (rk_stream d) inp of
             None \<Rightarrow> Undefined
           | Some (buf, n) \<Rightarrow>
               Continue (v\<lparr>of_d := d\<lparr>rk_stream := buf,
                 rk_jpegIn := (rk_jpegIn d)\<lparr>in_streamLength := of_nat n, in_bufferSize := of_nat n,
                   in_streamBuffer := \<lparr>lm_pVirtualAddress = mb_vir_addr b, lm_busAddress = mb_phy_addr b\<rparr>\<rparr>\<rparr>\<rparr>))"

definition stream_memory :: "'k Rk_JpegDecoder \<Rightarrow> memory" where
  "stream_memory d = memory_of (mb_vir_addr (rk_streamMem d)) (rk_stream d)"

definition ask_info :: "'k rk_env \<Rightarrow> 'k oneframe_vars \<Rightarrow> 'k oneframe_step" where
  "ask_info E v =
     (let d = of_d v in
      call (JpegDecGetImageInfo (re_fuel E) (stream_memory d) (map_option (hw_c \<circ> snd) (rk_jpegInst d))
              (Some (rk_jpegIn d)) (Some (rk_imageInfo d)))
        (\<lambda>(ret, g).
           let v = on_rk (\<lambda>d. d\<lparr>rk_jpegRet := ret\<rparr>) v;
               v = (case g of None \<Rightarrow> v | Some g \<Rightarrow> on_inst (\<lambda>c. gi_c g) (on_rk (\<lambda>d. d\<lparr>rk_imageInfo := gi_info g\<rparr>) v))
           in if ret \<noteq> JPEGDEC_OK then Return (J_end, v) else Continue v))"

section \<open>Decoding a picture: the output\<close>


definition pp_input_format :: "u32 \<Rightarrow> int" where
  "pp_input_format fmt =
     (if fmt = JPEGDEC_YCbCr400 then PP_IN_FORMAT_YUV400
      else if fmt = JPEGDEC_YCbCr420_SEMIPLANAR then PP_IN_FORMAT_YUV420SEMI
      else if fmt = JPEGDEC_YCbCr422_SEMIPLANAR then PP_IN_FORMAT_YUV422SEMI
      else if fmt = JPEGDEC_YCbCr440 then PP_IN_FORMAT_YUV440SEMI
      else if fmt = JPEGDEC_YCbCr411_SEMIPLANAR then PP_IN_FORMAT_YUV411_SEMI
      else if fmt = JPEGDEC_YCbCr444_SEMIPLANAR then PP_IN_FORMAT_YUV444_SEMI
      else 0)"

definition plain_pic_size :: "u32 \<Rightarrow> u32 \<Rightarrow> u32 \<Rightarrow> u32" where
  "plain_pic_size fmt w h =
     (if fmt = JPEGDEC_YCbCr400 then w * h
      else if fmt = JPEGDEC_YCbCr420_SEMIPLANAR then w * h * 3 div 2
      else if fmt = JPEGDEC_YCbCr422_SEMIPLANAR \<or> fmt = JPEGDEC_YCbCr440 \<or> fmt = JPEGDEC_YCbCr411_SEMIPLANAR then w * h * 2
      else if fmt = JPEGDEC_YCbCr444_SEMIPLANAR then w * h * 3
      else 0)"

definition zero_PostProcessInfo :: PostProcessInfo where
  "zero_PostProcessInfo = \<lparr>ppi_enable = 0, ppi_outFomart = 0, ppi_scale_denom = 0, ppi_shouldDither = 0,
     ppi_cropX = 0, ppi_cropY = 0, ppi_cropW = 0, ppi_cropH = 0\<rparr>"

definition round_up :: "u32 \<Rightarrow> u32 \<Rightarrow> u32" where "round_up n x = (x + (n - 1)) AND NOT (n - 1)"

definition client_output :: "'k oneframe_vars \<Rightarrow> 'k oneframe_vars" where
  "client_output v =
     (let i = rk_imageInfo (of_d v); fmt = ii_outputFormat i; w = ii_outputWidth i; h = ii_outputHeight i;
          v = v\<lparr>of_ppInputFomart := pp_input_format fmt\<rparr>
      in if rk_color_conv (of_d v) \<noteq> 0 then
           (let (w, h) = (if w > 1920 then (round_up 16 w, round_up 16 h) else (round_up 8 w, round_up 2 h))
            in on_inst (\<lambda>c. c\<lparr>c_ppInstance := 1\<rparr>)
                 (v\<lparr>of_ppInfo := zero_PostProcessInfo\<lparr>ppi_enable := 1, ppi_outFomart := 5\<rparr>, of_ppScaleW := w, of_ppScaleH := h,
                    of_pic_size := w * h * 2\<rparr>))
         else
           (let (w, h) = (round_up 16 w, round_up 16 h)
            in on_inst (\<lambda>c. c\<lparr>c_ppInstance := 0\<rparr>)
                 (v\<lparr>of_ppInfo := zero_PostProcessInfo\<lparr>ppi_outFomart := 5\<rparr>, of_ppScaleW := w, of_ppScaleH := h,
                    of_pic_size := plain_pic_size fmt w h\<rparr>)))"

text \<open>
  The loop that allocates the picture, for the tries that are left. ret is the result of mmap, in which
  that of alloc is lost; with an allocator of the client's own nothing is allocated and ret is what it was.
\<close>

primrec alloc_picture :: "nat \<Rightarrow> 'k rk_env \<Rightarrow> 'k oneframe_vars \<Rightarrow> 'k oneframe_step" where
  "alloc_picture 0 E v = Return (Leave (JpegDecRet_value JPEGDEC_MEMFAIL), v)"
| "alloc_picture (Suc tries) E v =
     (let d = of_d v in
      if rk_vpumem_ctx d \<noteq> 0 then
        (case of_ret v of
           None \<Rightarrow> Undefined
         | Some ret \<Rightarrow> if ret \<noteq> DWL_OK then Return (Leave (JpegDecRet_value JPEGDEC_MEMFAIL), v) else Continue v)
      else
        (case rk_alloc_map E (rk_kernel d) (rk_ctx d) ((rk_pictureMem d)\<lparr>mb_size := of_pic_size v\<rparr>) of
           None \<Rightarrow> OutOfFuel
         | Some (k, allocated, ret, b) \<Rightarrow>
             let v = v\<lparr>of_ret := Some ret, of_d := d\<lparr>rk_kernel := k, rk_pictureMem := b\<rparr>\<rparr>
             in if ret = DWL_OK then Continue v else alloc_picture tries E v))"

definition get_picture :: "'k rk_env \<Rightarrow> u32 \<Rightarrow> 'k oneframe_vars \<Rightarrow> 'k oneframe_step" where
  "get_picture E out_phyaddr v =
     (if out_phyaddr = 0 then alloc_picture 256 E v
      else Continue (on_rk (\<lambda>d. d\<lparr>rk_pictureMem := (rk_pictureMem d)\<lparr>mb_phy_addr := out_phyaddr\<rparr>\<rparr>) v))"

definition set_slot :: "u32 \<Rightarrow> u32 \<Rightarrow> JpegDecContainer \<Rightarrow> JpegDecContainer" where
  "set_slot idx offset c =
     (let m = c_ioctl_info c; x = ioc_extra_info m
      in c\<lparr>c_ioctl_info := m\<lparr>ioc_extra_info := x\<lparr>ioc_slots := (ioc_slots x)[0 := (idx, offset)]\<rparr>\<rparr>\<rparr>)"

text \<open>The result of SetPostProcessor is not looked at.\<close>

definition program_output :: "'k oneframe_vars \<Rightarrow> 'k oneframe_step" where
  "program_output v =
     (let d = of_d v; i = rk_imageInfo d;
          v = on_inst (\<lambda>c. c\<lparr>c_pictureMem := Some (rk_pictureMem d)\<rparr>) v
      in case rk_jpegInst (of_d v) of
           None \<Rightarrow> Undefined
         | Some (a, h) \<Rightarrow>
             call (SetPostProcessor (c_jpegRegs (hw_c h)) (mb_phy_addr (rk_pictureMem d)) (sint (ii_outputWidth i))
                     (sint (ii_outputHeight i)) (sint (of_ppScaleW v)) (sint (of_ppScaleH v)) (of_ppInputFomart v) (of_ppInfo v))
               (\<lambda>(ret, r). Continue (on_inst (set_slot 22 (of_ppScaleW v * of_ppScaleH v) \<circ> (\<lambda>c. c\<lparr>c_jpegRegs := r\<rparr>)) v)))"

section \<open>Decoding a picture: the slices\<close>

text \<open>The MCUs of a row as the client counts them; amountOfMCUs is not used.\<close>

definition mcu_in_row :: "u32 \<Rightarrow> u32 \<Rightarrow> u32" where
  "mcu_in_row fmt w =
     (if fmt = JPEGDEC_YCbCr400 \<or> fmt = JPEGDEC_YCbCr444_SEMIPLANAR then w div 8
      else if fmt = JPEGDEC_YCbCr420_SEMIPLANAR then w div 16
      else if fmt = JPEGDEC_YCbCr422_SEMIPLANAR then w div 16
      else if fmt = JPEGDEC_YCbCr440 then w div 8
      else if fmt = JPEGDEC_YCbCr411_SEMIPLANAR then w div 32
      else 0)"

definition mcu_size_divider :: "u32 \<Rightarrow> u32" where
  "mcu_size_divider fmt =
     (if fmt = JPEGDEC_YCbCr400 \<or> fmt = JPEGDEC_YCbCr440 \<or> fmt = JPEGDEC_YCbCr444_SEMIPLANAR then 2 else 1)"

text \<open>The loop that forces a slice height, for q half rows of MCUs; with q = 0 it does not end.\<close>

definition slice_loop :: "nat \<Rightarrow> u32 \<Rightarrow> u32 \<Rightarrow> (unit, u32) outcome" where
  "slice_loop fuel q s = whileLoop fuel (\<lambda>s. s * q + q < JPEGDEC_MAX_SLICE_SIZE_8190) (\<lambda>s. Continue (s + 1)) (s + 1)"

definition force_slices :: "JpegDecImageInfo \<Rightarrow> (unit, u32) outcome" where
  "force_slices i =
     (if ii_outputWidth i * ii_outputHeight i > JPEGDEC_MAX_PIXEL_AMOUNT
      then slice_loop 8100 (mcu_in_row (ii_outputFormat i) (ii_outputWidth i) div mcu_size_divider (ii_outputFormat i)) 0
      else Continue 0)"

definition set_slices :: "'k oneframe_vars \<Rightarrow> 'k oneframe_step" where
  "set_slices v =
     (case force_slices (rk_imageInfo (of_d v)) of
        Continue s \<Rightarrow> Continue (on_rk (\<lambda>d. d\<lparr>rk_jpegIn := (rk_jpegIn d)\<lparr>in_sliceMbSet := s, in_decImageType := 0\<rparr>\<rparr>) v)
      | Return u \<Rightarrow> Undefined | Undefined \<Rightarrow> Undefined | OutOfFuel \<Rightarrow> OutOfFuel)"

section \<open>Decoding a picture: the passes\<close>

definition frame_color :: "u32 \<Rightarrow> JpegDecImageInfo \<Rightarrow> u32" where
  "frame_color color_conv i =
     (if color_conv \<noteq> 0 then VPU_OUTPUT_FORMAT_YUV420_SEMIPLANAR
      else if ii_outputFormat i = JPEGDEC_YCbCr422_SEMIPLANAR then VPU_OUTPUT_FORMAT_YUV422_SEMIPLANAR
      else VPU_OUTPUT_FORMAT_YUV420_SEMIPLANAR)"

definition fill_frame :: "u32 \<Rightarrow> 'k oneframe_vars \<Rightarrow> 'k oneframe_vars" where
  "fill_frame out_phyaddr v =
     (let d = of_d v; p = rk_pictureMem d; w = of_ppScaleW v; h = of_ppScaleH v; f = of_frame v;
          f = f\<lparr>jf_FrameBusAddr := [mb_phy_addr p, mb_phy_addr p + ((w + 15) AND 0xFFFFFFF0) * ((h + 15) AND 0xFFFFFFF0)],
                jf_DisplayWidth := w, jf_DisplayHeight := h, jf_FrameWidth := round_up 16 w, jf_FrameHeight := round_up 16 h\<rparr>;
          f = (if out_phyaddr \<noteq> 0 then f\<lparr>jf_ColorType := VPU_OUTPUT_FORMAT_YUV420_SEMIPLANAR\<rparr>
               else f\<lparr>jf_ColorType := frame_color (rk_color_conv d) (rk_imageInfo d),
                      jf_jpegmem := (jf_jpegmem f)\<lparr>mb_phy_addr := mb_phy_addr p, mb_vir_addr := mb_vir_addr p,
                        mb_hnd := mb_hnd p, mb_size := mb_size p, mb_type := mb_type p\<rparr>\<rparr>)
      in v\<lparr>of_frame := f, of_outLength := sizeof_JPEG_FRAME\<rparr>)"

definition client_pass :: "'k rk_env \<Rightarrow> u32 \<Rightarrow> 'k oneframe_vars \<Rightarrow> 'k oneframe_step" where
  "client_pass E out_phyaddr v =
     (let d = of_d v in
      call (JpegDecDecode (re_fuel E) (stream_memory d) (re_malloc E) (re_al E) (re_core E) (re_infoTmp E)
              (map_option snd (rk_jpegInst d)) (Some (rk_jpegIn d)) (Some (rk_jpegOut d)))
        (\<lambda>(ret, u).
           let v = on_rk (\<lambda>d. d\<lparr>rk_jpegRet := ret\<rparr>) v;
               v = (case u of None \<Rightarrow> v
                    | Some u \<Rightarrow> on_rk (\<lambda>d. d\<lparr>rk_jpegInst := map_option (apsnd (\<lambda>_. dv_h u)) (rk_jpegInst d), rk_jpegOut := dv_out u\<rparr>) v)
           in if ret = JPEGDEC_FRAME_READY then Continue (fill_frame out_phyaddr v)
              else if ret = JPEGDEC_SLICE_READY \<or> ret = JPEGDEC_STRM_PROCESSED then Continue v
              else Return (J_end, v)))"

definition decode_loop :: "'k rk_env \<Rightarrow> u32 \<Rightarrow> 'k oneframe_vars \<Rightarrow> 'k oneframe_step" where
  "decode_loop E out_phyaddr v =
     andThen (client_pass E out_phyaddr v)
       (whileLoop (re_fuel E) (\<lambda>v. rk_jpegRet (of_d v) \<noteq> JPEGDEC_FRAME_READY) (client_pass E out_phyaddr))"

section \<open>Decoding a picture\<close>

text \<open>From the label j_end on.\<close>

definition oneframe_end :: "'k rk_env \<Rightarrow> u32 \<Rightarrow> 'k oneframe_vars \<Rightarrow> (int \<times> 'k oneframe_vars, unit) outcome" where
  "oneframe_end E out_phyaddr v =
     (case if out_phyaddr = 0 then mJpegFreeLinear E (rk_pictureMem (of_d v)) (of_d v) else Some (of_d v, rk_pictureMem (of_d v)) of
        None \<Rightarrow> OutOfFuel
      | Some (d, b) \<Rightarrow>
          Return (if rk_jpegRet d = JPEGDEC_UNSUPPORTED then JpegDecRet_value JPEGDEC_UNSUPPORTED else 0,
            v\<lparr>of_d := d\<lparr>rk_pictureMem := b\<rparr>\<rparr>))"

definition oneframe_body :: "'k rk_env \<Rightarrow> u8 list \<Rightarrow> u32 \<Rightarrow> 'k oneframe_vars \<Rightarrow> 'k oneframe_step" where
  "oneframe_body E inp out_phyaddr v =
     (if length inp < 16 then Return (J_end, v\<lparr>of_inSize := 0, of_outLength := 0\<rparr>)
      else andThen (open_instance E v) (\<lambda>v.
           andThen (grow_stream E (of_nat (length inp)) (hand_context E v)) (\<lambda>v.
           andThen (load_stream inp v) (\<lambda>v.
           andThen (ask_info E v) (\<lambda>v.
           andThen (get_picture E out_phyaddr (client_output v)) (\<lambda>v.
           andThen (program_output v) (\<lambda>v.
           andThen (set_slices v) (decode_loop E out_phyaddr))))))))"

definition oneframe_start :: "u8 list \<Rightarrow> 'k Rk_JpegDecoder \<Rightarrow> JPEG_FRAME \<Rightarrow> u32 \<Rightarrow> 'k oneframe_vars" where
  "oneframe_start inp d frame outLength =
     \<lparr>of_d = d, of_ret = None, of_ppInputFomart = 0, of_ppInfo = zero_PostProcessInfo, of_ppScaleW = 640, of_ppScaleH = 480,
      of_pic_size = 0, of_frame = frame, of_outLength = outLength, of_inSize = of_nat (length inp)\<rparr>"

text \<open>The input has at most 2 ^ 32 - 1 bytes, its size being a word.\<close>

definition pv_rkJpegdecoder_oneframe ::
  "'k rk_env \<Rightarrow> u8 list \<Rightarrow> u32 \<Rightarrow> JPEG_FRAME \<Rightarrow> u32 \<Rightarrow> 'k Rk_JpegDecoder \<Rightarrow> (int \<times> 'k oneframe_vars, unit) outcome" where
  "pv_rkJpegdecoder_oneframe E inp out_phyaddr frame outLength d =
     (case oneframe_body E inp out_phyaddr (oneframe_start inp d frame outLength) of
        Return (J_end, v) \<Rightarrow> oneframe_end E out_phyaddr v
      | Return (Leave ret, v) \<Rightarrow> Return (ret, v)
      | Continue v \<Rightarrow> oneframe_end E out_phyaddr v
      | Undefined \<Rightarrow> Undefined
      | OutOfFuel \<Rightarrow> OutOfFuel)"

definition dec_oneframe_class_RkJpegDecoder ::
  "'k rk_env \<Rightarrow> u8 list \<Rightarrow> JPEG_FRAME \<Rightarrow> u32 \<Rightarrow> 'k Rk_JpegDecoder \<Rightarrow> (int \<times> 'k oneframe_vars, unit) outcome" where
  "dec_oneframe_class_RkJpegDecoder E inp frame outLength d = pv_rkJpegdecoder_oneframe E inp 0 frame outLength d"

definition pv_rkJpeg_getoutformat :: "'k Rk_JpegDecoder \<Rightarrow> u32" where
  "pv_rkJpeg_getoutformat d =
     (if rk_color_conv d \<noteq> 0 then JPEGDEC_YCbCr420_SEMIPLANAR else ii_outputFormat (rk_imageInfo d))"

definition pv_rkJpeg_perform_seting :: "'k Rk_JpegDecoder \<Rightarrow> int" where "pv_rkJpeg_perform_seting d = 0"

definition perform_seting_class_RkJpegDecoder :: "'k Rk_JpegDecoder option \<Rightarrow> int" where
  "perform_seting_class_RkJpegDecoder d = (let ret = (case d of None \<Rightarrow> - 1 | Some d \<Rightarrow> pv_rkJpeg_perform_seting d) in 0)"

end
