(* ===== verification/InfoReturns.thy ===== *)
theory InfoReturns
  imports ImageInfo
begin

text \<open>
  JpegDecGetImageInfo returns: no pass of its loops goes back in the stream by more than it counts,
  whatever the segments say, so the two loops end. The rules ends_in of Prelude carry the bounds
  through the parts of the function.
\<close>

section \<open>The reader\<close>

text \<open>
  The loops of JpegDecGetImageInfo count a bit more than they read in every pass, so readBits is only
  a count here, not the position of the pointer. The measure of the loops is what is left of it.
\<close>

abbreviation rb :: "info_vars \<Rightarrow> nat" where "rb g \<equiv> unat (st_readBits (gi_stream g))"
abbreviation ln :: "info_vars \<Rightarrow> nat" where "ln g \<equiv> unat (st_streamLength (gi_stream g))"

definition moved :: "StreamStorage \<Rightarrow> StreamStorage \<Rightarrow> bool" where
  "moved s s' \<longleftrightarrow> st_streamLength s' = st_streamLength s \<and> st_appnFlag s' = st_appnFlag s \<and>
     st_pStartOfStream s' = st_pStartOfStream s"

lemma GetByte_count:
  assumes "JpegDecGetByte mem s = (v, s')" "unat (st_streamLength s) < 2 ^ 24" "unat (st_readBits s) < 2 ^ 31"
  shows "moved s s' \<and>
    (unat (st_readBits s) + 8 \<le> 8 * unat (st_streamLength s) \<and> unat (st_readBits s') = unat (st_readBits s) + 8 \<or>
     8 * unat (st_streamLength s) < unat (st_readBits s) + 8 \<and> s' = s \<and> v = STRM_ERROR)"
proof -
  have w: "unat (st_readBits s + 8) = unat (st_readBits s) + 8" "unat (8 * st_streamLength s) = 8 * unat (st_streamLength s)"
    using assms(2,3) by (simp_all add: u32_add unat_times8)
  show ?thesis
    using assms(1) w by (auto simp: JpegDecGetByte_def Let_def moved_def word_less_nat_alt split: if_splits)
qed

lemma Get2Bytes_count:
  assumes "JpegDecGet2Bytes mem s = (v, s')" "unat (st_streamLength s) < 2 ^ 24" "unat (st_readBits s) < 2 ^ 31"
  shows "moved s s' \<and>
    (unat (st_readBits s) + 16 \<le> 8 * unat (st_streamLength s) \<and> unat (st_readBits s') = unat (st_readBits s) + 16 \<and>
       unat v < 65536 \<or>
     8 * unat (st_streamLength s) < unat (st_readBits s) + 16 \<and> s' = s \<and> v = STRM_ERROR)"
proof -
  have w: "unat (st_readBits s + 16) = unat (st_readBits s) + 16" "unat (8 * st_streamLength s) = 8 * unat (st_streamLength s)"
    using assms(2,3) by (simp_all add: u32_add unat_times8)
  have m: "unat (x AND 0xFFFF) < 65536" for x :: u32
    using word_and_le1 [of x "0xFFFF"] by (simp add: word_le_nat_alt)
  show ?thesis
    using assms(1) w by (auto simp: JpegDecGet2Bytes_def Let_def moved_def word_less_nat_alt m split: if_splits)
qed

text \<open>With appnFlag set, or for eight bits, at most one 00 is skipped.\<close>

lemma flush_loop_extra:
  assumes "flush_loop mem bits tmp ex s = (s', ex')" "st_appnFlag s \<noteq> 0"
  shows "moved s s' \<and> st_readBits s' = st_readBits s \<and> (ex' = ex \<or> ex' = ex + 8)"
  using assms
proof (induction mem bits tmp ex s rule: flush_loop.induct)
  case (1 mem bits tmp ex s)
  consider (last) "\<not> tmp < bits \<or> bits - tmp < 8" | (appn) "tmp < bits" "\<not> bits - tmp < 8" by blast
  then show ?case
  proof cases
    case last
    then show ?thesis using "1.prems"(1)
      by (subst (asm) flush_loop.simps) (auto simp: flush_byte_def Let_def moved_def split: if_splits)
  next
    case appn
    have "flush_loop mem bits (tmp + 8) ex (s\<lparr>st_pCurrPos := st_pCurrPos s + 1\<rparr>) = (s', ex')"
      using "1.prems" appn by (subst (asm) flush_loop.simps) simp
    then show ?thesis using "1.IH"(1) appn "1.prems"(2) by (simp add: moved_def)
  qed
qed

lemma flush_loop_8:
  assumes "flush_loop mem 8 0 0 s = (s', ex')"
  shows "moved s s' \<and> st_readBits s' = st_readBits s \<and> (ex' = 0 \<or> ex' = 8)"
proof -
  have e: "flush_loop mem 8 8 ex t = (t, ex)" for ex t by (subst flush_loop.simps) simp
  show ?thesis using assms
    by (subst (asm) flush_loop.simps) (auto simp: e flush_byte_def moved_def split: if_splits)
qed

lemma FlushBits_count:
  assumes "JpegDecFlushBits mem s bits = (r, s')" "bits = 8 \<or> st_appnFlag s \<noteq> 0"
    "unat (st_streamLength s) < 2 ^ 24"
  shows "moved s s' \<and>
    (r = STRM_ERROR \<and> unat (st_readBits s') = 8 * unat (st_streamLength s) \<or>
     r = 0 \<and> unat (st_readBits s + bits) \<le> 8 * unat (st_streamLength s) \<and>
     (unat (st_readBits s') = unat (st_readBits s + bits) \<or> unat (st_readBits s') = unat (st_readBits s + bits) + 8))"
proof (cases "st_readBits s + bits > 8 * st_streamLength s")
  case True
  then show ?thesis using assms(1,3) by (auto simp: JpegDecFlushBits_def moved_def unat_times8)
next
  case False
  obtain t ex where l: "flush_loop mem bits 0 0 s = (t, ex)" by (cases "flush_loop mem bits 0 0 s")
  have t: "moved s t" "st_readBits t = st_readBits s" "ex = 0 \<or> ex = 8"
    using assms(2) l flush_loop_extra [OF l] flush_loop_8 [of mem s t ex] by auto
  have le: "unat (st_readBits s + bits) \<le> 8 * unat (st_streamLength s)"
    using False assms(3) by (simp add: word_less_nat_alt unat_times8)
  have "s' = t\<lparr>st_readBits := st_readBits t + (bits + ex)\<rparr>" "r = 0"
    using assms(1) False l by (auto simp: JpegDecFlushBits_def)
  moreover have "unat (st_readBits s + (bits + 8)) = unat (st_readBits s + bits) + 8"
    using le assms(3) by (simp add: add.assoc [symmetric] u32_add)
  ultimately show ?thesis using t le by (auto simp: moved_def)
qed

section \<open>No pass goes back\<close>

text \<open>
  The stream has L bytes and at least lo bits were counted, unless an error is pending, which ends
  the loop. The overshoot of eight bits is that of JpegDecFlushBits.
\<close>

definition at_least :: "nat \<Rightarrow> nat \<Rightarrow> info_vars \<Rightarrow> bool" where
  "at_least L lo g \<longleftrightarrow> L < 2 ^ 24 \<and> ln g = L \<and> rb g \<le> 8 * L + 8 \<and> (gi_errorCode g \<or> lo \<le> rb g)"

named_theorems info_ends \<comment> \<open>rules for the reads of JpegDecGetImageInfo\<close>

lemma at_least_cong:
  "gi_stream g' = gi_stream g \<Longrightarrow> gi_errorCode g' = gi_errorCode g \<Longrightarrow> at_least L lo g' = at_least L lo g"
  by (simp add: at_least_def)

lemma at_least_updates [simp]:
  "at_least L lo (gi_info_update f g) = at_least L lo g"
  "at_least L lo (gi_c_update h g) = at_least L lo g"
  "at_least L lo (g\<lparr>gi_currentByte := b\<rparr>) = at_least L lo g"
  "at_least L lo (gi_appBits_update k g) = at_least L lo g"
  "at_least L lo (g\<lparr>gi_appLength := b\<rparr>) = at_least L lo g"
  "at_least L lo (g\<lparr>gi_thumbnail := t\<rparr>) = at_least L lo g"
  "at_least L lo (g\<lparr>gi_init := t\<rparr>) = at_least L lo g"
  "at_least L lo (g\<lparr>gi_initThumb := t\<rparr>) = at_least L lo g"
  "at_least L lo (g\<lparr>gi_H := H, gi_V := V\<rparr>) = at_least L lo g"
  "at_least L lo (g\<lparr>gi_Htn := H, gi_Vtn := V\<rparr>) = at_least L lo g"
  "at_least L lo (set_appnFlag v g) = at_least L lo g"
  "at_least L lo (add_appBits n g) = at_least L lo g"
  by (simp_all add: at_least_def set_appnFlag_def add_appBits_def)

lemma at_least_mono: "at_least L lo g \<Longrightarrow> lo' \<le> lo \<Longrightarrow> at_least L lo' g"
  by (auto simp: at_least_def)

lemma at_least_moved:
  "at_least L lo g \<Longrightarrow> moved (gi_stream g) s \<Longrightarrow> unat (st_readBits s) \<le> 8 * L + 8 \<Longrightarrow> rb g \<le> unat (st_readBits s) \<Longrightarrow>
   at_least L lo (g\<lparr>gi_stream := s\<rparr>)"
  by (auto simp: at_least_def moved_def)

lemma ends_in_gi_byte [info_ends]:
  assumes "at_least L lo g"
    and "\<And>v s. at_least L lo (g\<lparr>gi_stream := s\<rparr>) \<Longrightarrow> moved (gi_stream g) s \<Longrightarrow>
      v = STRM_ERROR \<or> unat (st_readBits s) = rb g + 8 \<Longrightarrow> ends_in (F v (g\<lparr>gi_stream := s\<rparr>)) P Q"
  shows "ends_in (let (v, g) = gi_byte mem g in F v g) P Q"
proof -
  obtain v s where b: "JpegDecGetByte mem (gi_stream g) = (v, s)" by (cases "JpegDecGetByte mem (gi_stream g)")
  have a: "L < 2 ^ 24" "ln g = L" "rb g \<le> 8 * L + 8" using assms(1) by (simp_all add: at_least_def)
  have c: "moved (gi_stream g) s" "rb g \<le> unat (st_readBits s)" "unat (st_readBits s) \<le> 8 * L + 8"
    "v = STRM_ERROR \<or> unat (st_readBits s) = rb g + 8"
    using GetByte_count [OF b] a by auto
  then show ?thesis using assms(2) [OF at_least_moved [OF assms(1)]] by (simp add: gi_byte_def b)
qed

lemma ends_in_gi_2bytes [info_ends]:
  assumes "at_least L lo g"
    and "\<And>v s. at_least L lo (g\<lparr>gi_stream := s\<rparr>) \<Longrightarrow> moved (gi_stream g) s \<Longrightarrow>
      v = STRM_ERROR \<or> unat (st_readBits s) = rb g + 16 \<Longrightarrow> ends_in (F v (g\<lparr>gi_stream := s\<rparr>)) P Q"
  shows "ends_in (let (v, g) = gi_2bytes mem g in F v g) P Q"
proof -
  obtain v s where b: "JpegDecGet2Bytes mem (gi_stream g) = (v, s)" by (cases "JpegDecGet2Bytes mem (gi_stream g)")
  have a: "L < 2 ^ 24" "ln g = L" "rb g \<le> 8 * L + 8" using assms(1) by (simp_all add: at_least_def)
  have c: "moved (gi_stream g) s" "rb g \<le> unat (st_readBits s)" "unat (st_readBits s) \<le> 8 * L + 8"
    "v = STRM_ERROR \<or> unat (st_readBits s) = rb g + 16"
    using Get2Bytes_count [OF b] a by auto
  then show ?thesis using assms(2) [OF at_least_moved [OF assms(1)]] by (simp add: gi_2bytes_def b)
qed

text \<open>A length that was read, and the jump over its segment.\<close>

lemma with_length_ends:
  assumes "at_least L lo g"
    and "\<And>h s. at_least L (lo + 16) (g\<lparr>gi_stream := s\<rparr>) \<Longrightarrow> moved (gi_stream g) s \<Longrightarrow>
      unat (st_readBits s) = rb g + 16 \<Longrightarrow> unat h < 65536 \<Longrightarrow> length_fits s h \<Longrightarrow> ends_in (f h (g\<lparr>gi_stream := s\<rparr>)) P Q"
    and "\<And>g'. at_least L (rb g) g' \<Longrightarrow> gi_errorCode g' \<Longrightarrow> P g'"
  shows "ends_in (with_length mem f g) P Q"
proof -
  obtain v s where b: "JpegDecGet2Bytes mem (gi_stream g) = (v, s)" by (cases "JpegDecGet2Bytes mem (gi_stream g)")
  have a: "L < 2 ^ 24" "ln g = L" "rb g \<le> 8 * L + 8" "gi_errorCode g \<or> lo \<le> rb g"
    using assms(1) by (simp_all add: at_least_def)
  note c = Get2Bytes_count [OF b]
  have m: "moved (gi_stream g) s" "unat (st_readBits s) \<le> 8 * L + 8" using c a by auto
  show ?thesis
  proof (cases "length_fits s v")
    case True
    then have "v \<noteq> STRM_ERROR" by (simp add: length_fits_def)
    then have r: "unat (st_readBits s) = rb g + 16" "unat v < 65536" using c a by auto
    have "at_least L (lo + 16) (g\<lparr>gi_stream := s\<rparr>)" using a m r(1) by (auto simp: at_least_def moved_def)
    then show ?thesis using assms(2) m(1) r True by (simp add: with_length_def gi_2bytes_def b)
  next
    case False
    have "at_least L (rb g) (g\<lparr>gi_stream := s, gi_errorCode := True\<rparr>)"
      using a m by (auto simp: at_least_def moved_def)
    then show ?thesis using assms(3) False by (simp add: with_length_def gi_2bytes_def b gi_error_def)
  qed
qed

lemma unat_jump:
  fixes x h :: u32
  assumes "16 \<le> unat x" "unat x < 2 ^ 30" "unat h < 65536"
  shows "unat (x + (h * 8 - 16)) = unat x + 8 * unat h - 16"
proof -
  have "unat (h * 8) = 8 * unat h" using assms(3) by (subst u32_mult) simp_all
  then have u: "unat (x + h * 8) = unat x + 8 * unat h" using assms by (subst u32_add) simp_all
  then have "16 \<le> x + h * 8" using assms(1) by (simp add: word_le_nat_alt)
  then show ?thesis using u by (simp add: add_diff_eq unat_sub)
qed

lemma jump_count:
  assumes "16 \<le> rb g" "rb g < 2 ^ 30" "unat h < 65536"
  shows "rb (gi_jump h g) = (if h = 0 then rb g else rb g + 8 * unat h - 16)"
  using unat_jump [OF assms] by (simp add: gi_jump_def jump_segment_def)

lemma jump_fits: "length_fits (gi_stream g) h \<Longrightarrow> h \<noteq> 0 \<Longrightarrow> ln g < 2 ^ 24 \<Longrightarrow> rb (gi_jump h g) \<le> 8 * ln g"
  by (simp add: length_fits_def gi_jump_def jump_segment_def word_less_nat_alt unat_times8)

lemma gi_jump_frame: "ln (gi_jump h g) = ln g" "gi_errorCode (gi_jump h g) = gi_errorCode g"
  "st_appnFlag (gi_stream (gi_jump h g)) = st_appnFlag (gi_stream g)" "gi_appBits (gi_jump h g) = gi_appBits g"
  by (simp_all add: gi_jump_def jump_segment_def)

lemma at_least_jump:
  assumes "at_least L (lo + 16) g" "16 \<le> rb g" "unat h < 65536" "length_fits (gi_stream g) h"
  shows "at_least L lo (gi_jump h g)"
proof -
  have "rb (gi_jump h g) = (if h = 0 then rb g else rb g + 8 * unat h - 16)"
    using assms by (intro jump_count) (simp_all add: at_least_def)
  moreover have "h \<noteq> 0 \<Longrightarrow> rb (gi_jump h g) \<le> 8 * L"
    using jump_fits [OF assms(4)] assms(1) by (simp add: at_least_def)
  ultimately show ?thesis using assms(1) by (auto simp: at_least_def gi_jump_frame split: if_splits)
qed

lemma info_skip_ends:
  assumes "at_least L lo g"
  shows "ends_in (info_skip mem g) (at_least L lo) (\<lambda>_. True)"
  unfolding info_skip_def
proof (rule with_length_ends [OF assms])
  fix h s
  assume "at_least L (lo + 16) (g\<lparr>gi_stream := s\<rparr>)" "unat (st_readBits s) = rb g + 16" "unat h < 65536" "length_fits s h"
  then show "ends_in (Continue (gi_jump h (g\<lparr>gi_stream := s\<rparr>))) (at_least L lo) (\<lambda>_. True)"
    using at_least_jump [of L lo "g\<lparr>gi_stream := s\<rparr>" h] by simp
qed (simp add: at_least_def)

lemma info_DRI_ends:
  assumes "at_least L lo g"
  shows "ends_in (info_DRI mem g) (at_least L lo) (\<lambda>_. True)"
  unfolding info_DRI_def
proof (rule with_length_ends [OF assms])
  fix h s assume a: "at_least L (lo + 16) (g\<lparr>gi_stream := s\<rparr>)"
  show "ends_in (with_length mem (\<lambda>headerLength g. Continue (gi_c_update (c_frame_update (\<lambda>f. f\<lparr>fr_Ri := headerLength\<rparr>)) g))
      (g\<lparr>gi_stream := s\<rparr>)) (at_least L lo) (\<lambda>_. True)"
    by (rule with_length_ends [OF a]) (auto elim: at_least_mono simp: at_least_def)
qed (simp add: at_least_def)

text \<open>Eight bits at a time, and the failing flush that is an error.\<close>

lemma flush_8_cases:
  assumes "at_least L lo g" "gi_flush mem 8 g = (r, g')"
  shows "\<exists>s. g' = g\<lparr>gi_stream := s\<rparr> \<and> moved (gi_stream g) s \<and> unat (st_readBits s) \<le> 8 * L + 8 \<and>
    (r = STRM_ERROR \<or> rb g + 8 \<le> unat (st_readBits s))"
proof -
  obtain v s where b: "JpegDecFlushBits mem (gi_stream g) 8 = (v, s)" by (cases "JpegDecFlushBits mem (gi_stream g) 8")
  have a: "L < 2 ^ 24" "ln g = L" "rb g \<le> 8 * L + 8" using assms(1) by (simp_all add: at_least_def)
  have "unat (st_readBits (gi_stream g) + 8) = rb g + 8" using a by (simp add: u32_add)
  then show ?thesis using FlushBits_count [OF b] a assms(2) by (auto simp: gi_flush_def b)
qed

lemma sampling_one_ends:
  assumes "at_least L lo g"
  shows "at_least L lo (snd (sampling_one mem j (v, g)))"
proof -
  obtain r1 g1 where f1: "gi_flush mem 8 g = (r1, g1)" by (cases "gi_flush mem 8 g")
  obtain s1 where s1: "g1 = g\<lparr>gi_stream := s1\<rparr>" "moved (gi_stream g) s1" "unat (st_readBits s1) \<le> 8 * L + 8"
    "r1 = STRM_ERROR \<or> rb g + 8 \<le> unat (st_readBits s1)"
    using flush_8_cases [OF assms f1] by blast
  show ?thesis
  proof (cases "r1 = STRM_ERROR")
    case True
    then show ?thesis using s1 assms by (simp add: sampling_one_def f1) (simp add: at_least_def moved_def)
  next
    case False
    then have a1: "at_least L lo g1" using s1 at_least_moved [OF assms] by simp
    obtain b g2 where f2: "gi_byte mem g1 = (b, g2)" by (cases "gi_byte mem g1")
    have a2: "at_least L lo g2"
      using ends_in_gi_byte [OF a1, of "\<lambda>v g. Continue g" "at_least L lo" "\<lambda>_. True" mem] by (simp add: f2)
    define g3 where "g3 = g2\<lparr>gi_currentByte := b\<rparr>"
    have a3: "at_least L lo g3" using a2 by (simp add: g3_def)
    obtain r4 g4 where f4: "gi_flush mem 8 g3 = (r4, g4)" by (cases "gi_flush mem 8 g3")
    obtain s4 where s4: "g4 = g3\<lparr>gi_stream := s4\<rparr>" "moved (gi_stream g3) s4" "unat (st_readBits s4) \<le> 8 * L + 8"
      "r4 = STRM_ERROR \<or> rb g3 + 8 \<le> unat (st_readBits s4)"
      using flush_8_cases [OF a3 f4] by blast
    have "r4 \<noteq> STRM_ERROR \<Longrightarrow> at_least L lo g4" using s4 at_least_moved [OF a3] by simp
    moreover have "at_least L lo (g4\<lparr>gi_errorCode := True\<rparr>)" using s4 a3 by (simp add: at_least_def moved_def)
    ultimately show ?thesis using False
      by (auto simp: sampling_one_def f1 f2 Let_def f4 [unfolded g3_def])
  qed
qed

lemma sampling_factors_ends:
  assumes "at_least L lo g"
  shows "at_least L lo (snd (sampling_factors mem n H V g))"
proof -
  define step where "step = (\<lambda>j (v, g). if sv_left v then (v, g) else sampling_one mem j (v, g))"
  have "at_least L lo (snd (fold step js (v, g)))" if "at_least L lo g" for js v g
    using that
  proof (induction js arbitrary: v g)
    case (Cons j js)
    obtain v' g' where s: "step j (v, g) = (v', g')" by (cases "step j (v, g)")
    have "at_least L lo g'"
      using s Cons.prems sampling_one_ends [OF Cons.prems(1), of mem j v] by (auto simp: step_def split: if_splits)
    then show ?case using Cons.IH by (simp add: s)
  qed simp
  from this [OF assms] show ?thesis by (simp add: sampling_factors_def step_def)
qed

lemmas byte_ends = ends_in_gi_byte [unfolded Let_def]
lemmas bytes_ends = ends_in_gi_2bytes [unfolded Let_def]

lemma info_components_ends:
  assumes "at_least L lo g"
  shows "ends_in (info_components mem g) (at_least L lo) (\<lambda>_. True)"
proof -
  have fmt: "ends_in (info_check_format g) (at_least L lo) (\<lambda>_. True)" if "at_least L lo g" for g
    using that by (auto simp: info_check_format_def info_411_def info_set_format_def Let_def split_def split: option.splits)
  show ?thesis
    unfolding info_components_def Let_def
    by (rule byte_ends [OF assms]) (auto simp: split_def intro!: fmt sampling_factors_ends)
qed

lemma info_size_ends:
  assumes "at_least L lo g"
  shows "ends_in (info_lines mem g) (at_least L lo) (\<lambda>_. True)" "ends_in (info_samples mem g) (at_least L lo) (\<lambda>_. True)"
  unfolding info_lines_def info_samples_def Let_def by (rule bytes_ends [OF assms], simp)+

lemma info_SOF_ends:
  assumes "at_least L lo g"
  shows "ends_in (info_SOF mem g) (at_least L lo) (\<lambda>_. True)"
proof -
  have body: "ends_in (case gi_byte mem g of (currentByte, g) \<Rightarrow>
      if currentByte \<noteq> 8 then Return (JPEGDEC_UNSUPPORTED, g\<lparr>gi_currentByte := currentByte\<rparr>)
      else andThen (info_lines mem (g\<lparr>gi_currentByte := currentByte\<rparr>)) (\<lambda>g. andThen (info_samples mem g) (\<lambda>g.
           if info_size_ok g then info_components mem g else Return (JPEGDEC_UNSUPPORTED, g)))) (at_least L lo) (\<lambda>_. True)"
    if "at_least L lo g" for g
    by (rule byte_ends [OF that], rule ends_in_if, simp)
      (rule ends_in_andThen, rule info_size_ends, simp, rule ends_in_andThen, erule info_size_ends, simp add: info_components_ends)
  show ?thesis
    unfolding info_SOF_def Let_def
    by (rule with_length_ends [where L = L and lo = lo], simp add: assms, rule body, erule at_least_mono)
      (simp_all add: at_least_def)
qed

text \<open>A scan header ends the loop.\<close>

definition scan_found :: "info_vars \<Rightarrow> bool" where
  "scan_found g \<longleftrightarrow> inf_init (c_info (gi_c g)) \<noteq> 0 \<and> gi_init g"

lemma info_SOS_ends:
  assumes "at_least L lo g"
  shows "ends_in (info_SOS mem g) (\<lambda>g. at_least L lo g \<or> scan_found g) (\<lambda>_. True)"
  unfolding info_SOS_def
proof (rule with_length_ends [OF assms])
  fix h s assume a: "at_least L (lo + 16) (g\<lparr>gi_stream := s\<rparr>)"
  show "ends_in (let (Ns, g) = gi_byte mem (g\<lparr>gi_stream := s\<rparr>);
         g = (if Ns = MIN_NUMBER_OF_COMPONENTS \<and> ii_outputFormat (gi_info g) \<noteq> JPEGDEC_YCbCr400 \<and>
                 ii_codingMode (gi_info g) = JPEGDEC_BASELINE
              then gi_info_update (\<lambda>i. i\<lparr>ii_codingMode := JPEGDEC_NONINTERLEAVED\<rparr>)
                     (gi_c_update (c_info_update (\<lambda>i. i\<lparr>inf_operationType := JPEGDEC_NONINTERLEAVED\<rparr>)) g)
              else g);
         g = gi_jump h g
     in if st_readBits (gi_stream g) + 8 < 8 * st_streamLength (gi_stream g)
        then Continue ((gi_c_update (c_info_update (\<lambda>i. i\<lparr>inf_init := 1\<rparr>)) g)\<lparr>gi_init := True\<rparr>)
        else Return (JPEGDEC_INCREASE_INPUT_BUFFER, g))
     (\<lambda>g. at_least L lo g \<or> scan_found g) (\<lambda>_. True)"
    unfolding Let_def by (rule byte_ends [OF a]) (simp add: scan_found_def)
qed (simp add: at_least_def)

section \<open>APP0\<close>

lemma info_flush_cases:
  assumes "L < 2 ^ 24 \<and> ln g = L" "st_appnFlag (gi_stream g) \<noteq> 0" "gi_errorCode g \<or> lo \<le> unat (st_readBits (gi_stream g) + n)"
    "gi_flush mem n g = (r, g')"
  shows "(r = STRM_ERROR \<longrightarrow> at_least L lo (g'\<lparr>gi_errorCode := True\<rparr>)) \<and> (r \<noteq> STRM_ERROR \<longrightarrow> at_least L lo g')"
proof -
  obtain v s where b: "JpegDecFlushBits mem (gi_stream g) n = (v, s)" by (cases "JpegDecFlushBits mem (gi_stream g) n")
  show ?thesis
    using FlushBits_count [OF b] assms by (auto simp: gi_flush_def b at_least_def moved_def)
qed

lemma rest_count:
  fixes x h k :: u32
  assumes "unat x < 2 ^ 30" "unat h < 65536" "unat k \<le> 8 * unat h"
  shows "unat (x + (h * 8 - k)) = unat x + (8 * unat h - unat k)"
proof -
  have h: "unat (h * 8) = 8 * unat h" using assms(2) by (subst u32_mult) simp_all
  then have "unat (h * 8 - k) = 8 * unat h - unat k" using assms(3) by (simp add: unat_sub word_le_nat_alt)
  then show ?thesis using assms(1,2) by (subst u32_add) simp_all
qed

lemma info_flush_rest_ends:
  assumes "at_least L lo g" "unat (gi_appLength g) < 65536" "unat (gi_appBits g) \<le> 8 * unat (gi_appLength g)"
  shows "ends_in (info_flush_rest mem g) (at_least L lo) (\<lambda>_. True)"
    "ends_in (info_flush_rest_reset mem g) (at_least L lo) (\<lambda>_. True)"
proof -
  let ?h = "set_appnFlag 1 g" and ?n = "gi_appLength g * 8 - gi_appBits g"
  obtain r g' where f: "gi_flush mem ?n ?h = (r, g')" by (cases "gi_flush mem ?n ?h")
  have s: "st_readBits (gi_stream ?h) = st_readBits (gi_stream g)" "st_appnFlag (gi_stream ?h) \<noteq> 0"
    "gi_errorCode ?h = gi_errorCode g" by (simp_all add: set_appnFlag_def)
  have "gi_errorCode ?h \<or> lo \<le> unat (st_readBits (gi_stream ?h) + ?n)"
  proof (cases "gi_errorCode g")
    case False
    have "rb g \<le> unat (st_readBits (gi_stream g) + ?n)"
      using assms by (subst rest_count) (simp_all add: at_least_def)
    then show ?thesis using assms(1) False unfolding s by (simp add: at_least_def)
  qed (simp add: s)
  moreover have "L < 2 ^ 24 \<and> ln ?h = L" using assms(1) by (simp add: at_least_def set_appnFlag_def)
  ultimately have "(r = STRM_ERROR \<longrightarrow> at_least L lo (g'\<lparr>gi_errorCode := True\<rparr>)) \<and> (r \<noteq> STRM_ERROR \<longrightarrow> at_least L lo g')"
    using info_flush_cases [OF _ s(2) _ f] by blast
  then show "ends_in (info_flush_rest mem g) (at_least L lo) (\<lambda>_. True)"
    "ends_in (info_flush_rest_reset mem g) (at_least L lo) (\<lambda>_. True)"
    by (simp_all add: info_flush_rest_def info_flush_rest_reset_def f gi_error_def)
qed

lemma STRM_ERROR_literals: "STRM_ERROR \<noteq> 0" "STRM_ERROR \<noteq> 0xFF" "STRM_ERROR \<noteq> 0x4A46" "STRM_ERROR \<noteq> 0x4946" "STRM_ERROR \<noteq> 0x5858"
  "STRM_ERROR \<noteq> JPEGDEC_THUMBNAIL_JPEG" "STRM_ERROR \<noteq> 1" "STRM_ERROR \<noteq> 3" "STRM_ERROR \<noteq> 8"
  by (simp_all add: STRM_ERROR_def JPEGDEC_THUMBNAIL_JPEG_def)

lemma add_appBits_frame [simp]:
  "gi_appBits (add_appBits n g) = gi_appBits g + n" "gi_appLength (add_appBits n g) = gi_appLength g"
  "gi_stream (add_appBits n g) = gi_stream g" "gi_errorCode (add_appBits n g) = gi_errorCode g"
  "gi_initThumb (add_appBits n g) = gi_initThumb g" "gi_c (add_appBits n g) = gi_c g" "gi_info (add_appBits n g) = gi_info g"
  "gi_currentByte (add_appBits n g) = gi_currentByte g" "gi_thumbnail (add_appBits n g) = gi_thumbnail g"
  "gi_init (add_appBits n g) = gi_init g"
  by (simp_all add: add_appBits_def)

lemma info_JFIF_ends:
  assumes "at_least L lo g" "16 \<le> unat (gi_appLength g)" "unat (gi_appLength g) < 65536" "gi_appBits g = 56"
  shows "ends_in (info_JFIF mem g) (at_least L lo) (\<lambda>_. True)"
  unfolding info_JFIF_def Let_def
  by (rule bytes_ends, rule assms(1), rule byte_ends, simp, rule bytes_ends, simp, rule bytes_ends, simp,
      rule info_flush_rest_ends) (use assms in simp_all)

section \<open>The thumbnail\<close>

text \<open>
  Inside the thumbnail no bit is read twice, and appBits counts no more bits than were read since
  the count S, unless an error is pending. When the rest of the segment is flushed, this keeps the
  reader from going back behind the start of the segment.
\<close>

definition counted :: "nat \<Rightarrow> nat \<Rightarrow> nat \<Rightarrow> u32 \<Rightarrow> info_vars \<Rightarrow> bool" where
  "counted L r S h g \<longleftrightarrow> L < 2 ^ 24 \<and> ln g = L \<and> st_appnFlag (gi_stream g) \<noteq> 0 \<and> gi_appLength g = h \<and>
     r \<le> rb g \<and> rb g \<le> 8 * L \<and> (gi_errorCode g \<or> S + unat (gi_appBits g) \<le> rb g)"

lemma counted_updates [simp]:
  "counted L r S h (gi_info_update f g) = counted L r S h g"
  "counted L r S h (gi_c_update k g) = counted L r S h g"
  "counted L r S h (g\<lparr>gi_currentByte := b\<rparr>) = counted L r S h g"
  "counted L r S h (g\<lparr>gi_init := t\<rparr>) = counted L r S h g"
  "counted L r S h (g\<lparr>gi_initThumb := t\<rparr>) = counted L r S h g"
  "counted L r S h (g\<lparr>gi_Htn := H, gi_Vtn := V\<rparr>) = counted L r S h g"
  "counted L r S h (add_appBits n (g\<lparr>gi_currentByte := b\<rparr>)) = counted L r S h (add_appBits n g)"
  "counted L r S h (add_appBits n (gi_info_update f g)) = counted L r S h (add_appBits n g)"
  by (simp_all add: counted_def)

lemma counted_read:
  assumes "counted L r S h g" "moved (gi_stream g) s" "unat (st_readBits s) = rb g + unat n" "rb g + unat n \<le> 8 * L"
  shows "counted L r S h (add_appBits n (g\<lparr>gi_stream := s\<rparr>))"
proof -
  have "gi_errorCode g \<or> unat (gi_appBits g + n) = unat (gi_appBits g) + unat n"
    using assms by (auto simp: counted_def intro!: u32_add)
  then show ?thesis using assms by (auto simp: counted_def moved_def)
qed

lemma counted_error:
  "counted L r S h g \<Longrightarrow> moved (gi_stream g) s \<Longrightarrow> rb g \<le> unat (st_readBits s) \<Longrightarrow> unat (st_readBits s) \<le> 8 * L \<Longrightarrow>
   counted L r S h (g\<lparr>gi_stream := s, gi_errorCode := True\<rparr>)"
  by (simp add: counted_def moved_def)

lemma counted_byte:
  assumes "counted L r S h g" "gi_byte mem g = (v, g')"
  obtains s where "g' = g\<lparr>gi_stream := s\<rparr>" "moved (gi_stream g) s" "unat (st_readBits s) = rb g + 8" "rb g + 8 \<le> 8 * L"
    "counted L r S h (add_appBits 8 g')"
  | "g' = g" "v = STRM_ERROR" "8 * L < rb g + 8"
proof -
  obtain w s where b: "JpegDecGetByte mem (gi_stream g) = (w, s)" by (cases "JpegDecGetByte mem (gi_stream g)")
  have g': "g' = g\<lparr>gi_stream := s\<rparr>" "v = w" using assms(2) by (simp_all add: gi_byte_def b)
  have a: "L < 2 ^ 24" "ln g = L" "rb g \<le> 8 * L" using assms(1) by (simp_all add: counted_def)
  from GetByte_count [OF b] a
  consider "moved (gi_stream g) s" "unat (st_readBits s) = rb g + 8" "rb g + 8 \<le> 8 * L"
    | "s = gi_stream g" "w = STRM_ERROR" "8 * L < rb g + 8"
    by fastforce
  then show ?thesis
  proof cases
    case 1
    then show ?thesis using that(1) [of s] g' counted_read [OF assms(1), of s 8] by simp
  next
    case 2
    then show ?thesis using that(2) g' by simp
  qed
qed

lemma counted_flush:
  assumes "counted L r S h g" "gi_flush mem n g = (v, g')" "n = 8 \<or> n = 16"
  obtains s where "g' = g\<lparr>gi_stream := s\<rparr>" "v = 0" "counted L r S h (add_appBits n g')"
  | s where "g' = g\<lparr>gi_stream := s\<rparr>" "v = STRM_ERROR" "counted L r S h (g'\<lparr>gi_errorCode := True\<rparr>)"
proof -
  obtain w s where b: "JpegDecFlushBits mem (gi_stream g) n = (w, s)" by (cases "JpegDecFlushBits mem (gi_stream g) n")
  have g': "g' = g\<lparr>gi_stream := s\<rparr>" "v = w" using assms(2) by (simp_all add: gi_flush_def b)
  have a: "L < 2 ^ 24" "ln g = L" "rb g \<le> 8 * L" "st_appnFlag (gi_stream g) \<noteq> 0"
    using assms(1) by (simp_all add: counted_def)
  have u: "unat (st_readBits (gi_stream g) + n) = rb g + unat n"
    using a assms(3) by (auto simp: u32_add)
  show ?thesis
  proof (cases "st_readBits (gi_stream g) + n > 8 * st_streamLength (gi_stream g)")
    case True
    then have "w = STRM_ERROR" "unat (st_readBits s) = 8 * L" "moved (gi_stream g) s"
      using b a by (auto simp: JpegDecFlushBits_def moved_def unat_times8)
    then show ?thesis using that(2) [of s] g' counted_error [OF assms(1)] a by simp
  next
    case False
    have "flush_loop mem n 0 0 (gi_stream g) = ((gi_stream g)\<lparr>st_pCurrPos := st_pCurrPos (gi_stream g) + of_nat (unat n div 8)\<rparr>, 0)"
      using assms(3) a by (intro flush_loop_appn) auto
    then have "w = 0" "st_readBits s = st_readBits (gi_stream g) + n" "moved (gi_stream g) s"
      using b False by (auto simp: JpegDecFlushBits_def moved_def)
    moreover have "rb g + unat n \<le> 8 * L" using False u a by (simp add: word_less_nat_alt unat_times8)
    ultimately show ?thesis using that(1) [of s] g' counted_read [OF assms(1), of s n] u by simp
  qed
qed

lemma thumb_one_counted:
  assumes "counted L r S h g"
  shows "counted L r S h (snd (thumb_one mem j (v, g)))"
proof -
  obtain r1 g1 where f1: "gi_flush mem 8 g = (r1, g1)" by (cases "gi_flush mem 8 g")
  show ?thesis
  proof (cases rule: counted_flush [OF assms f1 disjI1 [OF refl]])
    case (2 s)
    then show ?thesis by (simp add: thumb_one_def f1)
  next
    case (1 s)
    obtain b g2 where f2: "gi_byte mem (add_appBits 8 g1) = (b, g2)" by (cases "gi_byte mem (add_appBits 8 g1)")
    define g3 where "g3 = add_appBits 8 (g2\<lparr>gi_currentByte := b\<rparr>)"
    obtain r4 g4 where f4: "gi_flush mem 8 g3 = (r4, g4)" by (cases "gi_flush mem 8 g3")
    have run: "snd (thumb_one mem j (v, g)) = (if r4 = STRM_ERROR then g4\<lparr>gi_errorCode := True\<rparr> else add_appBits 8 g4)"
      using 1(2) by (simp add: thumb_one_def f1 f2 Let_def f4 [unfolded g3_def] STRM_ERROR_def)
    from 1(3) f2 show ?thesis
    proof (cases rule: counted_byte)
      case (1 s)
      then have c3: "counted L r S h g3" by (simp add: g3_def)
      show ?thesis
        by (cases rule: counted_flush [OF c3 f4 disjI1 [OF refl]]) (simp_all add: run STRM_ERROR_def)
    next
      case 2
      have g3: "gi_stream g3 = gi_stream g1" "gi_appLength g3 = gi_appLength g1" using 2(1) by (simp_all add: g3_def)
      have c1: "L < 2 ^ 24" "ln g1 = L" "r \<le> rb g1" "rb g1 \<le> 8 * L" "st_appnFlag (gi_stream g1) \<noteq> 0" "gi_appLength g1 = h"
        using 1(3) by (simp_all add: counted_def)
      have "8 * st_streamLength (gi_stream g1) < st_readBits (gi_stream g1) + 8"
        using 2(3) c1 by (simp add: word_less_nat_alt unat_times8 u32_add)
      then have "r4 = STRM_ERROR" "moved (gi_stream g1) (gi_stream g4)" "unat (st_readBits (gi_stream g4)) = 8 * L"
        "gi_appLength g4 = h"
        using f4 c1 by (auto simp: gi_flush_def JpegDecFlushBits_def g3 moved_def unat_times8)
      then show ?thesis using c1 by (simp add: run counted_def moved_def)
    qed
  qed
qed

lemma thumb_factors_counted:
  assumes "counted L r S h g"
  shows "counted L r S h (snd (thumb_factors mem n H V g))"
proof -
  define step where "step = (\<lambda>j (v, g). if sv_left v then (v, g) else thumb_one mem j (v, g))"
  have "counted L r S h (snd (fold step js (v, g)))" if "counted L r S h g" for js v g
    using that
  proof (induction js arbitrary: v g)
    case (Cons j js)
    obtain v' g' where s: "step j (v, g) = (v', g')" by (cases "step j (v, g)")
    have "counted L r S h g'"
      using s Cons.prems thumb_one_counted [OF Cons.prems(1), of mem j v] by (auto simp: step_def split: if_splits)
    then show ?case using Cons.IH by (simp add: s)
  qed simp
  from this [OF assms] show ?thesis by (simp add: thumb_factors_def step_def)
qed

text \<open>A stream with less than two bytes left: no frame header is accepted any more.\<close>

definition stuck :: "nat \<Rightarrow> info_vars \<Rightarrow> bool" where
  "stuck L g \<longleftrightarrow> L < 2 ^ 24 \<and> ln g = L \<and> rb g \<le> 8 * L \<and> 8 * L < rb g + 16"

lemma stuck_2bytes:
  assumes "stuck L g" "gi_2bytes mem g = (v, g')"
  shows "stuck L g'"
proof -
  obtain w s where b: "JpegDecGet2Bytes mem (gi_stream g) = (w, s)" by (cases "JpegDecGet2Bytes mem (gi_stream g)")
  have "L < 2 ^ 24" "ln g = L" "rb g \<le> 8 * L" "8 * L < rb g + 16" using assms(1) by (simp_all add: stuck_def)
  then have "s = gi_stream g" using Get2Bytes_count [OF b] by fastforce
  then show ?thesis using assms by (auto simp: gi_2bytes_def b)
qed

lemma counted_2bytes:
  assumes "counted L r S h g" "gi_2bytes mem g = (v, g')"
  shows "counted L r S h (add_appBits 16 g') \<or> stuck L g'"
proof -
  obtain w s where b: "JpegDecGet2Bytes mem (gi_stream g) = (w, s)" by (cases "JpegDecGet2Bytes mem (gi_stream g)")
  have g': "g' = g\<lparr>gi_stream := s\<rparr>" using assms(2) by (simp add: gi_2bytes_def b)
  have a: "L < 2 ^ 24" "ln g = L" "rb g \<le> 8 * L" using assms(1) by (simp_all add: counted_def)
  from Get2Bytes_count [OF b] a
  consider "moved (gi_stream g) s" "unat (st_readBits s) = rb g + 16" "rb g + 16 \<le> 8 * L"
    | "s = gi_stream g" "8 * L < rb g + 16"
    by fastforce
  then show ?thesis
  proof cases
    case 1
    then show ?thesis using g' counted_read [OF assms(1), of s 16] by simp
  next
    case 2
    then show ?thesis using a g' by (simp add: stuck_def)
  qed
qed

lemma stuck_updates [simp]:
  "stuck L (gi_info_update f g) = stuck L g" "stuck L (add_appBits n g) = stuck L g"
  by (simp_all add: stuck_def)

lemma thumb_size_ends:
  assumes "counted L r S h g \<or> stuck L g"
  shows "ends_in (thumb_lines mem g) (\<lambda>g. counted L r S h g \<or> stuck L g) (\<lambda>_. True)"
    "ends_in (thumb_samples mem g) (\<lambda>g. counted L r S h g \<or> stuck L g) (\<lambda>_. True)"
proof -
  obtain v g' where b: "gi_2bytes mem g = (v, g')" by (cases "gi_2bytes mem g")
  have "counted L r S h (add_appBits 16 g') \<or> stuck L g'"
    using assms stuck_2bytes [OF _ b] counted_2bytes [OF _ b] by blast
  then show "ends_in (thumb_lines mem g) (\<lambda>g. counted L r S h g \<or> stuck L g) (\<lambda>_. True)"
    "ends_in (thumb_samples mem g) (\<lambda>g. counted L r S h g \<or> stuck L g) (\<lambda>_. True)"
    by (auto simp: thumb_lines_def thumb_samples_def b Let_def)
qed

lemma thumb_components_stuck:
  assumes "stuck L g"
  shows "ends_in (thumb_components mem g) (\<lambda>_. False) (\<lambda>_. True)"
proof -
  obtain v s where b: "JpegDecGetByte mem (gi_stream g) = (v, s)" by (cases "JpegDecGetByte mem (gi_stream g)")
  have a: "L < 2 ^ 24" "ln g = L" "rb g \<le> 8 * L" "8 * L < rb g + 16" using assms by (simp_all add: stuck_def)
  show ?thesis
  proof (cases "v \<noteq> 3 \<and> v \<noteq> 1")
    case True
    then show ?thesis by (simp add: thumb_components_def gi_byte_def b Let_def)
  next
    case False
    then have s: "unat (st_readBits s) = rb g + 8" "st_streamLength s = st_streamLength (gi_stream g)"
      using GetByte_count [OF b] a by (auto simp: STRM_ERROR_def moved_def)
    have over: "8 * st_streamLength s < st_readBits s + 8"
      using s a by (simp add: word_less_nat_alt unat_times8 u32_add)
    define g1 where "g1 = add_appBits 8 (g\<lparr>gi_stream := s\<rparr>)"
    have "0 < unat v" using False by auto
    then have k: "[0..<unat v] = 0 # [1..<unat v]" by (simp add: upt_conv_Cons)
    have left: "fold (\<lambda>j (v, g). if sv_left v then (v, g) else thumb_one mem j (v, g)) js (w, g) = (w, g)"
      if "sv_left w" for js w g using that by (induction js) simp_all
    have "sv_Hmax (fst (thumb_factors mem (unat v) (gi_Htn g1) (gi_Vtn g1) g1)) = 0"
      using over by (auto simp: thumb_factors_def k thumb_one_def gi_flush_def JpegDecFlushBits_def sampling_start_def
          g1_def left)
    then show ?thesis
      using False by (simp add: thumb_components_def gi_byte_def b split_def Let_def g1_def)
  qed
qed

lemma thumb_components_counted:
  assumes "counted L r S h g"
  shows "ends_in (thumb_components mem g) (counted L r S h) (\<lambda>_. True)"
proof -
  obtain v g' where b: "gi_byte mem g = (v, g')" by (cases "gi_byte mem g")
  from assms b show ?thesis
  proof (cases rule: counted_byte)
    case (1 s)
    then show ?thesis
      using thumb_factors_counted [OF 1(5)] b by (auto simp: thumb_components_def split_def Let_def split: option.splits)
  next
    case 2
    then show ?thesis using b by (simp add: thumb_components_def STRM_ERROR_def Let_def)
  qed
qed

lemma thumb_SOF_ends:
  assumes "counted L r S h g"
  shows "ends_in (thumb_SOF mem g) (counted L r S h) (\<lambda>_. True)"
proof -
  define g0 where "g0 = gi_info_update (\<lambda>i. i\<lparr>ii_codingModeThumb := (if gi_currentByte g = SOF0 then JPEGDEC_BASELINE else JPEGDEC_PROGRESSIVE)\<rparr>)
                (gi_c_update (c_info_update (\<lambda>i. i\<lparr>inf_operationTypeThumb := (if gi_currentByte g = SOF0 then JPEGDEC_BASELINE else JPEGDEC_PROGRESSIVE)\<rparr>)) g)"
  have c0: "counted L r S h g0" using assms by (simp add: g0_def)
  obtain v g1 where f: "gi_flush mem 16 g0 = (v, g1)" by (cases "gi_flush mem 16 g0")
  show ?thesis
  proof (cases rule: counted_flush [OF c0 f disjI2 [OF refl]])
    case (2 s)
    then show ?thesis by (simp add: thumb_SOF_def Let_def f [unfolded g0_def] gi_error_def)
  next
    case (1 s)
    obtain b g2 where b: "gi_byte mem (add_appBits 16 g1) = (b, g2)" by (cases "gi_byte mem (add_appBits 16 g1)")
    define g3 where "g3 = add_appBits 8 (g2\<lparr>gi_currentByte := b\<rparr>)"
    have run: "thumb_SOF mem g = (if b \<noteq> 8 then Return (JPEGDEC_UNSUPPORTED, g3)
        else andThen (thumb_lines mem g3) (\<lambda>g. andThen (thumb_samples mem g) (\<lambda>g.
           if thumb_size_ok g then thumb_components mem g else Return (JPEGDEC_UNSUPPORTED, g))))"
      using 1(2) by (simp add: thumb_SOF_def Let_def f [unfolded g0_def] b g3_def STRM_ERROR_def)
    have "counted L r S h g3" if "b = 8"
      using 1(3) b that by (cases rule: counted_byte) (simp_all add: g3_def STRM_ERROR_def)
    then have "b = 8 \<Longrightarrow> ends_in (andThen (thumb_lines mem g3) (\<lambda>g. andThen (thumb_samples mem g) (\<lambda>g.
           if thumb_size_ok g then thumb_components mem g else Return (JPEGDEC_UNSUPPORTED, g)))) (counted L r S h) (\<lambda>_. True)"
      by (intro ends_in_andThen [OF thumb_size_ends(1)] ends_in_andThen [OF thumb_size_ends(2)])
        (auto intro: thumb_components_counted ends_in_mono [OF thumb_components_stuck])
    then show ?thesis by (simp add: run)
  qed
qed

lemma counted_later:
  assumes "counted L r S h g" "ln g' = ln g" "st_appnFlag (gi_stream g') = st_appnFlag (gi_stream g)"
    "gi_appLength g' = gi_appLength g" "gi_appBits g' = gi_appBits g" "gi_errorCode g' = gi_errorCode g"
    "rb g \<le> rb g'" "rb g' \<le> 8 * L"
  shows "counted L r S h g'"
  using assms by (auto simp: counted_def)

lemma counted_with_length:
  assumes "counted L r S h g"
    and "\<And>v s. moved (gi_stream g) s \<Longrightarrow> unat (st_readBits s) = rb g + 16 \<Longrightarrow> rb g + 16 \<le> 8 * L \<Longrightarrow> unat v < 65536 \<Longrightarrow>
      length_fits s v \<Longrightarrow> ends_in (f v (g\<lparr>gi_stream := s\<rparr>)) P Q"
    and "\<And>g'. counted L r S h g' \<Longrightarrow> P g'"
  shows "ends_in (with_length mem f g) P Q"
proof -
  obtain v s where b: "JpegDecGet2Bytes mem (gi_stream g) = (v, s)" by (cases "JpegDecGet2Bytes mem (gi_stream g)")
  have a: "L < 2 ^ 24" "ln g = L" "rb g \<le> 8 * L" using assms(1) by (simp_all add: counted_def)
  note c = Get2Bytes_count [OF b]
  show ?thesis
  proof (cases "length_fits s v")
    case True
    then have "v \<noteq> STRM_ERROR" by (simp add: length_fits_def)
    then show ?thesis using c a assms(2) True by (auto simp: with_length_def gi_2bytes_def b)
  next
    case False
    have "counted L r S h (g\<lparr>gi_stream := s, gi_errorCode := True\<rparr>)"
      using c a by (intro counted_error [OF assms(1)]) auto
    then show ?thesis using assms(3) False by (simp add: with_length_def gi_2bytes_def b gi_error_def)
  qed
qed

lemma thumb_SOS_ends:
  assumes "counted L r S h g"
  shows "ends_in (thumb_SOS mem g) (counted L r S h) (\<lambda>_. True)"
  unfolding thumb_SOS_def
proof (rule counted_with_length [OF assms])
  fix v s
  assume s: "moved (gi_stream g) s" "unat (st_readBits s) = rb g + 16" "rb g + 16 \<le> 8 * L" "unat v < 65536" "length_fits s v"
  obtain b t where b: "JpegDecGetByte mem s = (b, t)" by (cases "JpegDecGetByte mem s")
  have a: "L < 2 ^ 24" "ln g = L" using assms by (simp_all add: counted_def)
  have t: "moved s t" "rb g + 16 \<le> unat (st_readBits t)" "unat (st_readBits t) \<le> 8 * L"
    using GetByte_count [OF b] s a by (auto simp: moved_def)
  have main: "ends_in (if st_readBits (gi_stream g2) + 8 < 8 * st_streamLength (gi_stream g2)
        then Continue ((gi_c_update (c_info_update (\<lambda>i. i\<lparr>inf_init := 1\<rparr>)) g2)\<lparr>gi_init := True\<rparr>)
        else Return (JPEGDEC_INCREASE_INPUT_BUFFER, g2)) (counted L r S h) (\<lambda>_. True)"
    if g2: "g2 = gi_jump v g1" "gi_stream g1 = t" "gi_appBits g1 = gi_appBits g" "gi_appLength g1 = gi_appLength g"
      "gi_errorCode g1 = gi_errorCode g" for g1 g2
  proof -
    have c: "rb g2 = (if v = 0 then rb g1 else rb g1 + 8 * unat v - 16)"
      unfolding g2(1) using t a s(4) g2(2) by (intro jump_count) auto
    have "rb g2 < 2 ^ 31" "rb g \<le> rb g2" using c t a s(4) g2(2) by auto
    moreover have "gi_appLength (gi_jump v g1) = gi_appLength g1" by (simp add: gi_jump_def)
    moreover have "st_readBits (gi_stream g2) + 8 < 8 * st_streamLength (gi_stream g2) \<Longrightarrow> rb g2 \<le> 8 * L"
      using \<open>rb g2 < 2 ^ 31\<close> a s(1) t(1) g2 by (simp add: word_less_nat_alt unat_times8 u32_add gi_jump_frame moved_def)
    ultimately show ?thesis
      using counted_later [OF assms, of g2] g2 s(1) t(1) by (simp add: gi_jump_frame moved_def)
  qed
  show "ends_in (let (Ns, g) = gi_byte mem (g\<lparr>gi_stream := s\<rparr>);
         g = (if Ns = MIN_NUMBER_OF_COMPONENTS \<and> ii_outputFormatThumb (gi_info g) \<noteq> JPEGDEC_YCbCr400 \<and>
                 ii_codingModeThumb (gi_info g) = JPEGDEC_BASELINE
              then gi_info_update (\<lambda>i. i\<lparr>ii_codingModeThumb := JPEGDEC_NONINTERLEAVED\<rparr>)
                     (gi_c_update (c_info_update (\<lambda>i. i\<lparr>inf_operationTypeThumb := JPEGDEC_NONINTERLEAVED\<rparr>)) g)
              else g);
         g = gi_jump v g
     in if st_readBits (gi_stream g) + 8 < 8 * st_streamLength (gi_stream g)
        then Continue ((gi_c_update (c_info_update (\<lambda>i. i\<lparr>inf_init := 1\<rparr>)) g)\<lparr>gi_init := True\<rparr>)
        else Return (JPEGDEC_INCREASE_INPUT_BUFFER, g))
     (counted L r S h) (\<lambda>_. True)"
    unfolding Let_def by (simp only: gi_byte_def b split_def Let_def fst_conv snd_conv info_vars.simps, rule main, rule refl) (simp_all add: b)
qed

text \<open>After a pass the count may be past the end of the stream, by the length of a segment.\<close>

definition counted_far :: "nat \<Rightarrow> nat \<Rightarrow> nat \<Rightarrow> u32 \<Rightarrow> info_vars \<Rightarrow> bool" where
  "counted_far L r S h g \<longleftrightarrow> L < 2 ^ 24 \<and> ln g = L \<and> st_appnFlag (gi_stream g) \<noteq> 0 \<and> gi_appLength g = h \<and>
     r \<le> rb g \<and> rb g < 2 ^ 28 \<and> (gi_errorCode g \<or> S + unat (gi_appBits g) \<le> rb g)"

lemma counted_is_far: "counted L r S h g \<Longrightarrow> counted_far L r S h g"
  by (simp add: counted_def counted_far_def)

lemma thumb_skip_ends:
  assumes "counted L r S h g"
  shows "ends_in (thumb_skip mem g) (counted_far L r S h) (\<lambda>_. True)"
proof -
  obtain v s where b: "JpegDecGet2Bytes mem (gi_stream g) = (v, s)" by (cases "JpegDecGet2Bytes mem (gi_stream g)")
  have a: "L < 2 ^ 24" "ln g = L" "rb g \<le> 8 * L" "r \<le> rb g" "st_appnFlag (gi_stream g) \<noteq> 0" "gi_appLength g = h"
    "gi_errorCode g \<or> S + unat (gi_appBits g) \<le> rb g" using assms by (simp_all add: counted_def)
  note c = Get2Bytes_count [OF b]
  show ?thesis
  proof (cases "v = STRM_ERROR")
    case True
    have "counted L r S h (g\<lparr>gi_stream := s, gi_errorCode := True\<rparr>)"
      using c a by (intro counted_error [OF assms]) auto
    then show ?thesis using True counted_is_far by (simp add: thumb_skip_def gi_2bytes_def b gi_error_def)
  next
    case False
    then have s: "moved (gi_stream g) s" "unat (st_readBits s) = rb g + 16" "unat v < 65536" using c a by auto
    define g1 where "g1 = gi_jump v (g\<lparr>gi_stream := s\<rparr>)"
    have r1: "rb g1 = (if v = 0 then rb g + 16 else rb g + 8 * unat v)"
      unfolding g1_def using s a by (subst jump_count) auto
    have g1: "ln g1 = L" "st_appnFlag (gi_stream g1) \<noteq> 0" "gi_appLength g1 = h" "gi_errorCode g1 = gi_errorCode g"
      "gi_appBits g1 = gi_appBits g"
      using a s(1) by (simp_all add: g1_def gi_jump_frame moved_def) (simp add: gi_jump_def)
    have v8: "unat (v * 8) = 8 * unat v" using s(3) by (subst u32_mult) simp_all
    have "gi_errorCode g \<or> unat (gi_appBits g + v * 8) = unat (gi_appBits g) + 8 * unat v"
      using a s(3) v8 by (auto simp: u32_add)
    then have "counted_far L r S h (add_appBits (v * 8) g1)"
      using a g1 r1 s(3) by (auto simp: counted_far_def)
    then show ?thesis using False by (simp add: thumb_skip_def gi_2bytes_def b g1_def)
  qed
qed

lemma thumb_marker_ends:
  assumes "counted L r S h g"
  shows "ends_in (thumb_marker mem g) (counted_far L r S h) (\<lambda>_. True)"
  unfolding thumb_marker_def Let_def
  by (intro ends_in_if thumb_skip_ends [OF assms] ends_in_mono [OF thumb_SOF_ends [OF assms] counted_is_far]
      ends_in_mono [OF thumb_SOS_ends [OF assms] counted_is_far])
    (simp_all add: counted_is_far [OF assms])

lemma STRM_ERROR_no_marker: "thumb_marker mem (g\<lparr>gi_currentByte := STRM_ERROR\<rparr>) = Continue (g\<lparr>gi_currentByte := STRM_ERROR\<rparr>)"
  by (simp add: thumb_marker_def INFO_SKIPPED_def INFO_UNSUPPORTED_def marker_defs STRM_ERROR_def Let_def)

text \<open>The state of the thumbnail's loop between two passes.\<close>

definition thumb_inv :: "nat \<Rightarrow> nat \<Rightarrow> u32 \<Rightarrow> bool \<times> info_vars \<Rightarrow> bool" where
  "thumb_inv L S h = (\<lambda>(left, g).
     if left then at_least L S g
     else L < 2 ^ 24 \<and> ln g = L \<and> st_appnFlag (gi_stream g) \<noteq> 0 \<and> gi_appLength g = h \<and> rb g < 2 ^ 29 \<and>
       (gi_errorCode g \<or> S + unat (gi_appBits g) \<le> rb g \<or> 8 * L < rb g + 8))"

definition bits_left :: "bool \<times> info_vars \<Rightarrow> nat" where
  "bits_left = (\<lambda>(left, g). if left then 0 else 8 * ln g - rb g)"

lemma back_count:
  fixes x h k :: u32
  assumes "unat x < 2 ^ 30" "unat h < 65536" "S + unat k \<le> unat x"
  shows "S + 8 * unat h \<le> unat (x + (h * 8 - k))"
proof -
  have h: "unat (h * 8) = 8 * unat h" using assms(2) by (subst u32_mult) simp_all
  then have s: "unat (x + h * 8) = unat x + 8 * unat h" using assms by (subst u32_add) simp_all
  then have "k \<le> x + h * 8" using assms(3) by (simp add: word_le_nat_alt)
  then show ?thesis using s assms(3) by (simp add: add_diff_eq unat_sub)
qed

lemma thumb_flush:
  assumes "counted_far L r S h g" "unat h < 65536" "gi_flush mem (gi_appLength g * 8 - gi_appBits g) g = (v, g')"
    "lo \<le> S + 8 * unat h"
  shows "(v = STRM_ERROR \<longrightarrow> at_least L lo (g'\<lparr>gi_errorCode := True\<rparr>)) \<and> (v \<noteq> STRM_ERROR \<longrightarrow> at_least L lo g')"
proof -
  have a: "L < 2 ^ 24" "ln g = L" "st_appnFlag (gi_stream g) \<noteq> 0" "gi_appLength g = h" "rb g < 2 ^ 30"
    "gi_errorCode g \<or> S + unat (gi_appBits g) \<le> rb g" using assms(1) by (simp_all add: counted_far_def)
  then have "gi_errorCode g \<or> lo \<le> unat (st_readBits (gi_stream g) + (gi_appLength g * 8 - gi_appBits g))"
    using back_count [OF a(5) assms(2), of S "gi_appBits g"] assms(4) by auto
  then show ?thesis using info_flush_cases [OF _ a(3) _ assms(3)] a by blast
qed

lemma next_bit_rb: "rb g < 2 ^ 28 \<Longrightarrow> rb (next_bit g) = rb g + 1"
  by (simp add: next_bit_def u32_add)

lemma next_bit_frame [simp]:
  "ln (next_bit g) = ln g" "st_appnFlag (gi_stream (next_bit g)) = st_appnFlag (gi_stream g)"
  "gi_appLength (next_bit g) = gi_appLength g" "gi_appBits (next_bit g) = gi_appBits g" "gi_c (next_bit g) = gi_c g"
  "gi_errorCode (next_bit g) = gi_errorCode g"
  by (simp_all add: next_bit_def)

lemma thumb_after_marker:
  assumes "ends_in m (\<lambda>g. counted_far L r S' h g \<and> (S = S' \<or> 8 * L < rb g + 8)) (\<lambda>_. True)"
    "unat h < 65536" "S \<le> S' + 8 * unat h" "r0 < r" "r0 < 8 * L"
  shows "ends_in (andThen m (\<lambda>g.
     if inf_initThumb (c_info (gi_c g)) \<noteq> 0 \<and> gi_initThumb g then
       (let (r, g) = gi_flush mem (gi_appLength g * 8 - gi_appBits g) g
        in if r = STRM_ERROR then Continue (True, g\<lparr>gi_errorCode := True\<rparr>) else Continue (True, set_appnFlag 0 g))
     else Continue (False, next_bit g)))
     (\<lambda>st. thumb_inv L S h st \<and> bits_left st < 8 * L - r0) (\<lambda>_. True)"
proof (cases m)
  case (Continue g)
  have far: "counted_far L r S' h g" and S: "S = S' \<or> 8 * L < rb g + 8" using assms(1) Continue by auto
  show ?thesis
  proof (cases "inf_initThumb (c_info (gi_c g)) \<noteq> 0 \<and> gi_initThumb g")
    case True
    obtain v g' where f: "gi_flush mem (gi_appLength g * 8 - gi_appBits g) g = (v, g')"
      by (cases "gi_flush mem (gi_appLength g * 8 - gi_appBits g) g")
    show ?thesis using thumb_flush [OF far assms(2) f assms(3)] True assms(5)
      by (simp add: Continue f thumb_inv_def bits_left_def)
  next
    case False
    have a: "L < 2 ^ 24" "ln g = L" "st_appnFlag (gi_stream g) \<noteq> 0" "gi_appLength g = h" "r \<le> rb g" "rb g < 2 ^ 28"
      "gi_errorCode g \<or> S' + unat (gi_appBits g) \<le> rb g" using far by (simp_all add: counted_far_def)
    show ?thesis using False a assms(4,5) S by (auto simp: Continue thumb_inv_def bits_left_def next_bit_rb)
  qed
qed (use assms(1) in auto)

lemma thumb_pass_ends:
  assumes inv: "thumb_inv L S h (left, g)" and more: "info_more (left, g)" and h: "unat h < 65536" "1 \<le> unat h" "8 \<le> S"
  shows "ends_in (thumb_pass mem inp (left, g)) (\<lambda>st. thumb_inv L S h st \<and> bits_left st < bits_left (left, g)) (\<lambda>_. True)"
proof -
  have l: "\<not> left" and lt: "rb g < 8 * ln g"
    using more by (auto simp: info_more_def word_less_nat_alt unat_div)
  have a: "L < 2 ^ 24" "ln g = L" "st_appnFlag (gi_stream g) \<noteq> 0" "gi_appLength g = h"
    "gi_errorCode g \<or> S + unat (gi_appBits g) \<le> rb g \<or> 8 * L < rb g + 8"
    using inv l by (simp_all add: thumb_inv_def)
  have bl: "bits_left (left, g) = 8 * L - rb g" using l a by (simp add: bits_left_def)
  obtain b s where b: "JpegDecGetByte mem (gi_stream g) = (b, s)" by (cases "JpegDecGetByte mem (gi_stream g)")
  define g1 where "g1 = add_appBits 8 (g\<lparr>gi_stream := s\<rparr>)"
  have b1: "gi_byte mem (add_appBits 8 g) = (b, g1)" by (simp add: gi_byte_def b g1_def add_appBits_def)
  show ?thesis
  proof (cases "b = 0xFF")
    case False
    then show ?thesis by (simp add: thumb_pass_def b1 Let_def)
  next
    case True
    then have s: "moved (gi_stream g) s" "unat (st_readBits s) = rb g + 8" "rb g + 8 \<le> 8 * L"
      using GetByte_count [OF b] a lt by (auto simp: STRM_ERROR_def)
    have "counted L (rb g) S h g" using a s(3) lt by (auto simp: counted_def)
    then have c1: "counted L (rb g) S h g1" unfolding g1_def by (rule counted_read) (use s in simp_all)
    then have c1': "counted L (rb g + 8) S h g1" using s(2) by (simp add: counted_def g1_def)
    obtain m t where m: "JpegDecGetByte mem (gi_stream g1) = (m, t)" by (cases "JpegDecGetByte mem (gi_stream g1)")
    define g2 where "g2 = add_appBits 8 (g1\<lparr>gi_stream := t\<rparr>)"
    have b2: "gi_byte mem (add_appBits 8 g1) = (m, g2)" by (simp add: gi_byte_def m g2_def add_appBits_def)
    have run: "thumb_pass mem inp (left, g) = andThen (thumb_marker mem (g2\<lparr>gi_currentByte := m\<rparr>)) (\<lambda>g.
     if inf_initThumb (c_info (gi_c g)) \<noteq> 0 \<and> gi_initThumb g then
       (let (r, g) = gi_flush mem (gi_appLength g * 8 - gi_appBits g) g
        in if r = STRM_ERROR then Continue (True, g\<lparr>gi_errorCode := True\<rparr>) else Continue (True, set_appnFlag 0 g))
     else Continue (False, next_bit g))"
      using True by (simp add: thumb_pass_def b1 b2)
    have c0: "L < 2 ^ 24" "ln g1 = L" "rb g1 = rb g + 8" "rb g1 \<le> 8 * L" using c1 s by (simp_all add: counted_def g1_def)
    from GetByte_count [OF m] c0
    consider "moved (gi_stream g1) t" "unat (st_readBits t) = rb g1 + 8" "rb g1 + 8 \<le> 8 * L"
      | "t = gi_stream g1" "m = STRM_ERROR" "8 * L < rb g1 + 8"
      by fastforce
    then show ?thesis
    proof cases
      case 1
      have "counted L (rb g + 8) S h g2" unfolding g2_def by (rule counted_read [OF c1']) (use 1 in simp_all)
      then have "ends_in (thumb_marker mem (g2\<lparr>gi_currentByte := m\<rparr>)) (counted_far L (rb g + 8) S h) (\<lambda>_. True)"
        by (intro thumb_marker_ends) simp
      then have "ends_in (thumb_marker mem (g2\<lparr>gi_currentByte := m\<rparr>))
          (\<lambda>g'. counted_far L (rb g + 8) S h g' \<and> (S = S \<or> 8 * L < rb g' + 8)) (\<lambda>_. True)"
        by (rule ends_in_mono) simp_all
      then show ?thesis unfolding run bl by (rule thumb_after_marker) (use h lt a(2) in auto)
    next
      case 2
      have "gi_errorCode g1 \<or> S + unat (gi_appBits g1) \<le> rb g1" using c1 by (simp add: counted_def)
      then have "gi_errorCode g1 \<or> S - 8 + unat (gi_appBits g1 + 8) \<le> rb g1"
        using h(3) c0 by (auto simp: u32_add)
      then have "counted_far L (rb g + 8) (S - 8) h (g2\<lparr>gi_currentByte := m\<rparr>)"
        using 2(1) c1 c0 by (simp add: g2_def counted_def counted_far_def)
      moreover have "8 * L < rb (g2\<lparr>gi_currentByte := m\<rparr>) + 8" using 2 by (simp add: g2_def)
      ultimately have "ends_in (thumb_marker mem (g2\<lparr>gi_currentByte := m\<rparr>))
          (\<lambda>g'. counted_far L (rb g + 8) (S - 8) h g' \<and> (S = S - 8 \<or> 8 * L < rb g' + 8)) (\<lambda>_. True)"
        by (simp add: 2(2) STRM_ERROR_no_marker)
      then show ?thesis unfolding run bl by (rule thumb_after_marker) (use h lt a(2) in auto)
    qed
  qed
qed

section \<open>JpegDecGetImageInfo returns\<close>

definition at_far :: "nat \<Rightarrow> nat \<Rightarrow> info_vars \<Rightarrow> bool" where
  "at_far L lo g \<longleftrightarrow> L < 2 ^ 24 \<and> ln g = L \<and> rb g < 2 ^ 29 \<and> (gi_errorCode g \<or> lo \<le> rb g)"

lemma at_least_is_far: "at_least L lo g \<Longrightarrow> at_far L lo g"
  by (simp add: at_least_def at_far_def)

lemma info_more_count: "info_more (left, g) \<longleftrightarrow> \<not> left \<and> rb g < 8 * ln g"
  by (auto simp: info_more_def word_less_nat_alt unat_div)

lemma info_thumbnail_ends:
  assumes "thumb_inv L S h (False, g)" "unat h < 65536" "1 \<le> unat h" "8 \<le> S" "S \<le> 8 * L" "8 * L < fuel"
  shows "ends_in (info_thumbnail fuel mem inp g) (at_far L S) (\<lambda>_. True)"
  unfolding info_thumbnail_def
proof (rule ends_in_andThen)
  show "ends_in (whileLoop fuel info_more (thumb_pass mem inp) (False, g)) (\<lambda>st. thumb_inv L S h st \<and> \<not> info_more st) (\<lambda>_. True)"
  proof (rule ends_in_whileLoop [where m = bits_left])
    show "thumb_inv L S h (False, g)" by (rule assms(1))
    show "bits_left (False, g) < fuel" using assms(1,6) by (simp add: bits_left_def thumb_inv_def)
  next
    fix st assume "thumb_inv L S h st" "info_more st"
    then show "ends_in (thumb_pass mem inp st) (\<lambda>st'. thumb_inv L S h st' \<and> bits_left st' < bits_left st) (\<lambda>_. True)"
      using thumb_pass_ends [of L S h "fst st" "snd st"] assms(2-4) by simp
  qed
next
  fix st assume "thumb_inv L S h st \<and> \<not> info_more st"
  then show "ends_in (case st of (left, g) \<Rightarrow> Continue g) (at_far L S) (\<lambda>_. True)"
    using assms(5) by (cases st, auto simp: thumb_inv_def info_more_count split: if_splits
      intro: at_least_is_far) (simp_all add: at_far_def)
qed

text \<open>At the extension code 56 bits of the segment have been counted.\<close>

lemma info_APP0_thumb_ends:
  assumes "at_least L S g" "rb g = S + 56" "gi_appBits g = 56" "gi_appLength g = h" "unat h < 65536" "16 \<le> unat h"
    "8 \<le> S" "8 * L < fuel"
  shows "ends_in (info_APP0_thumb fuel mem inp g) (at_far L S) (\<lambda>_. True)"
  unfolding info_APP0_thumb_def Let_def
proof (rule byte_ends [OF assms(1)])
  fix v s
  assume a: "at_least L S (g\<lparr>gi_stream := s\<rparr>)" and v: "v = STRM_ERROR \<or> unat (st_readBits s) = rb g + 8"
    and m: "moved (gi_stream g) s"
  show "ends_in (if v = JPEGDEC_THUMBNAIL_JPEG then
      info_thumbnail fuel mem inp (set_appnFlag 1 (add_appBits 8 (gi_info_update (\<lambda>i. i\<lparr>ii_thumbnailType := JPEGDEC_THUMBNAIL_JPEG\<rparr>)
        (g\<lparr>gi_stream := s, gi_currentByte := v\<rparr>))))
    else info_flush_rest_reset mem (add_appBits 8 (gi_info_update
        (\<lambda>i. i\<lparr>ii_thumbnailType := JPEGDEC_THUMBNAIL_NOT_SUPPORTED_FORMAT\<rparr>) (g\<lparr>gi_stream := s, gi_currentByte := v\<rparr>))))
    (at_far L S) (\<lambda>_. True)"
  proof (rule ends_in_if)
    assume "v = JPEGDEC_THUMBNAIL_JPEG"
    then have "unat (st_readBits s) = rb g + 8" using v STRM_ERROR_literals(6) by auto
    then have s: "unat (st_readBits s) = S + 64" using assms(2) by simp
    let ?g = "set_appnFlag 1 (add_appBits 8 (gi_info_update (\<lambda>i. i\<lparr>ii_thumbnailType := JPEGDEC_THUMBNAIL_JPEG\<rparr>)
        (g\<lparr>gi_stream := s, gi_currentByte := v\<rparr>)))"
    have "thumb_inv L S h (False, ?g)" "S \<le> 8 * L"
      using a s assms(3,4) by (simp_all add: thumb_inv_def at_least_def set_appnFlag_def)
    then show "ends_in (info_thumbnail fuel mem inp ?g) (at_far L S) (\<lambda>_. True)"
      using assms(5-8) by (intro info_thumbnail_ends) auto
  next
    show "ends_in (info_flush_rest_reset mem (add_appBits 8 (gi_info_update
        (\<lambda>i. i\<lparr>ii_thumbnailType := JPEGDEC_THUMBNAIL_NOT_SUPPORTED_FORMAT\<rparr>) (g\<lparr>gi_stream := s, gi_currentByte := v\<rparr>))))
      (at_far L S) (\<lambda>_. True)"
      by (rule ends_in_mono [OF info_flush_rest_ends(2) at_least_is_far]) (use a assms(3-6) in auto)
  qed
qed

lemma info_APP0_identifier_ends:
  assumes "at_least L S g" "rb g = S + 16" "gi_appBits g = 0" "gi_appLength g = h" "unat h < 65536" "16 \<le> unat h"
    "8 \<le> S" "8 * L < fuel"
  shows "ends_in (info_APP0_identifier fuel mem inp g) (at_far L S) (\<lambda>_. True)"
proof -
  note flush = ends_in_mono [OF info_flush_rest_ends(1) at_least_is_far]
    ends_in_mono [OF info_flush_rest_ends(2) at_least_is_far]
  have third: "ends_in (case gi_byte mem g of (currentByte, g) \<Rightarrow>
      if currentByte \<noteq> 0 then info_flush_rest_reset mem (add_appBits 8 (g\<lparr>gi_currentByte := currentByte\<rparr>))
      else if gi_thumbnail (add_appBits 8 (g\<lparr>gi_currentByte := currentByte\<rparr>))
        then info_APP0_thumb fuel mem inp (add_appBits 8 (g\<lparr>gi_currentByte := currentByte\<rparr>))
      else info_JFIF mem (add_appBits 8 (g\<lparr>gi_currentByte := currentByte\<rparr>))) (at_far L S) (\<lambda>_. True)"
    if "at_least L S g" "rb g = S + 48" "gi_appBits g = 48" "gi_appLength g = h" for g
  proof (rule byte_ends [OF that(1)])
    fix v s assume a: "at_least L S (g\<lparr>gi_stream := s\<rparr>)" and v: "v = STRM_ERROR \<or> unat (st_readBits s) = rb g + 8"
    let ?g = "add_appBits 8 (g\<lparr>gi_stream := s, gi_currentByte := v\<rparr>)"
    have g: "at_least L S ?g" "gi_appBits ?g = 56" "gi_appLength ?g = h" using a that(3,4) by simp_all
    show "ends_in (if v \<noteq> 0 then info_flush_rest_reset mem ?g else if gi_thumbnail ?g then info_APP0_thumb fuel mem inp ?g
        else info_JFIF mem ?g) (at_far L S) (\<lambda>_. True)"
    proof (intro ends_in_if)
      show "ends_in (info_flush_rest_reset mem ?g) (at_far L S) (\<lambda>_. True)"
        by (rule flush) (use g assms(5,6) in auto)
    next
      assume "\<not> v \<noteq> 0"
      then have "rb ?g = S + 56" using v that(2) by (auto simp: STRM_ERROR_def)
      then show "ends_in (info_APP0_thumb fuel mem inp ?g) (at_far L S) (\<lambda>_. True)"
        using g assms(5-8) by (intro info_APP0_thumb_ends)
    next
      show "ends_in (info_JFIF mem ?g) (at_far L S) (\<lambda>_. True)"
        by (rule ends_in_mono [OF info_JFIF_ends at_least_is_far]) (use g assms(5,6) in auto)
    qed
  qed
  show ?thesis
    unfolding info_APP0_identifier_def Let_def
  proof (rule bytes_ends [where L = L and lo = S], simp add: assms(1), rule ends_in_if)
    fix v s assume "at_least L S ((add_appBits 16 g)\<lparr>gi_stream := s\<rparr>)"
    then show "ends_in (info_flush_rest mem (add_appBits 16 ((add_appBits 16 g)\<lparr>gi_stream := s\<rparr>))) (at_far L S) (\<lambda>_. True)"
      by (intro flush) (use assms in auto)
  next
    fix v s
    assume a: "at_least L S ((add_appBits 16 g)\<lparr>gi_stream := s\<rparr>)"
      and v: "v = STRM_ERROR \<or> unat (st_readBits s) = rb (add_appBits 16 g) + 16" "\<not> v \<noteq> 0x4A46"
    let ?g = "add_appBits 16 ((add_appBits 16 g)\<lparr>gi_stream := s\<rparr>)"
    have g: "at_least L S ?g" "gi_appBits ?g = 32" "gi_appLength ?g = h" "rb ?g = S + 32"
      using a v assms(2-4) by (auto simp: STRM_ERROR_def)
    show "ends_in (case gi_2bytes mem ?g of (currentBytes, g) \<Rightarrow>
        if currentBytes \<noteq> 0x4946 \<and> currentBytes \<noteq> 0x5858 then info_flush_rest mem (add_appBits 16 g)
        else case gi_byte mem (if currentBytes = 0x5858 then (add_appBits 16 g)\<lparr>gi_thumbnail := True\<rparr> else add_appBits 16 g) of
          (currentByte, g) \<Rightarrow>
            if currentByte \<noteq> 0 then info_flush_rest_reset mem (add_appBits 8 (g\<lparr>gi_currentByte := currentByte\<rparr>))
            else if gi_thumbnail (add_appBits 8 (g\<lparr>gi_currentByte := currentByte\<rparr>))
              then info_APP0_thumb fuel mem inp (add_appBits 8 (g\<lparr>gi_currentByte := currentByte\<rparr>))
            else info_JFIF mem (add_appBits 8 (g\<lparr>gi_currentByte := currentByte\<rparr>))) (at_far L S) (\<lambda>_. True)"
    proof (rule bytes_ends [OF g(1)], rule ends_in_if)
      fix w t assume b: "at_least L S (?g\<lparr>gi_stream := t\<rparr>)"
      show "ends_in (info_flush_rest mem (add_appBits 16 (?g\<lparr>gi_stream := t\<rparr>))) (at_far L S) (\<lambda>_. True)"
        by (rule flush) (use b g assms(5,6) in auto)
    qed (rule third, use g in \<open>auto simp: STRM_ERROR_def\<close>)
  qed
qed

lemma info_APP0_ends:
  assumes "at_least L (rb g) g" "8 \<le> rb g" "8 * L < fuel"
  shows "ends_in (info_APP0 fuel mem inp g) (at_far L (rb g)) (\<lambda>_. True)"
proof -
  define g0 where "g0 = set_appnFlag 0 (g\<lparr>gi_appBits := 0, gi_appLength := 0\<rparr>)"
  have g0: "at_least L (rb g) g0" "rb g0 = rb g" using assms(1) by (simp_all add: g0_def set_appnFlag_def at_least_def)
  show ?thesis
    unfolding info_APP0_def g0_def [symmetric] Let_def
  proof (rule with_length_ends [OF g0(1)], rule ends_in_if)
    fix h :: u32 and s
    assume a: "at_least L (rb g + 16) (g0\<lparr>gi_stream := s\<rparr>)" and s: "unat (st_readBits s) = rb g0 + 16"
      and h: "unat h < 65536"
    let ?g = "set_appnFlag 1 (g0\<lparr>gi_stream := s, gi_appLength := h\<rparr>)"
    obtain r g' where f: "gi_flush mem (h * 8 - 16) ?g = (r, g')" by (cases "gi_flush mem (h * 8 - 16) ?g")
    have "L < 2 ^ 24 \<and> ln ?g = L" "st_appnFlag (gi_stream ?g) \<noteq> 0"
      using a by (simp_all add: at_least_def set_appnFlag_def)
    moreover have "rb g \<le> unat (st_readBits (gi_stream ?g) + (h * 8 - 16))"
      using s h g0(2) a by (simp add: set_appnFlag_def, subst unat_jump) (simp_all add: at_least_def)
    ultimately have "(r = STRM_ERROR \<longrightarrow> at_least L (rb g) (g'\<lparr>gi_errorCode := True\<rparr>)) \<and> (r \<noteq> STRM_ERROR \<longrightarrow> at_least L (rb g) g')"
      using info_flush_cases [OF _ _ _ f] by blast
    then show "ends_in (case gi_flush mem (h * 8 - 16) (set_appnFlag 1 (g0\<lparr>gi_stream := s, gi_appLength := h\<rparr>)) of
        (r, g) \<Rightarrow> if r = STRM_ERROR then gi_error g else Continue g) (at_far L (rb g)) (\<lambda>_. True)"
      by (simp add: f gi_error_def at_least_is_far)
  next
    fix h :: u32 and s
    assume a: "at_least L (rb g + 16) (g0\<lparr>gi_stream := s\<rparr>)" and s: "unat (st_readBits s) = rb g0 + 16"
      and h: "unat h < 65536" "\<not> h < 16"
    have "at_least L (rb g) (g0\<lparr>gi_stream := s\<rparr>)" using a by (rule at_least_mono) simp
    then show "ends_in (info_APP0_identifier fuel mem inp (g0\<lparr>gi_stream := s, gi_appLength := h\<rparr>)) (at_far L (rb g)) (\<lambda>_. True)"
      using s h g0(2) assms(2,3)
      by (intro info_APP0_identifier_ends) (auto simp: g0_def set_appnFlag_def word_less_nat_alt at_least_def)
  next
    fix g' assume "at_least L (rb g0) g'" "gi_errorCode g'"
    then show "at_far L (rb g) g'" using g0(2) by (simp add: at_least_is_far)
  qed
qed

lemma info_marker_ends:
  assumes "at_least L (rb g) g" "8 \<le> rb g" "8 * L < fuel"
  shows "ends_in (info_marker fuel mem inp g) (\<lambda>g'. at_far L (rb g) g' \<or> scan_found g') (\<lambda>_. True)"
  unfolding info_marker_def Let_def
  by (intro ends_in_if ends_in_mono [OF info_SOF_ends [OF assms(1)]] ends_in_mono [OF info_SOS_ends [OF assms(1)]]
      ends_in_mono [OF info_DRI_ends [OF assms(1)]] ends_in_mono [OF info_APP0_ends [OF assms]]
      ends_in_mono [OF info_skip_ends [OF assms(1)]])
    (use assms(1) in \<open>auto intro: at_least_is_far\<close>)

lemma STRM_ERROR_marker: "info_marker fuel mem inp (g\<lparr>gi_currentByte := STRM_ERROR\<rparr>) = Continue (g\<lparr>gi_currentByte := STRM_ERROR\<rparr>)"
  by (simp add: info_marker_def INFO_SKIPPED_def INFO_UNSUPPORTED_def marker_defs STRM_ERROR_def Let_def)

definition info_inv :: "nat \<Rightarrow> bool \<times> info_vars \<Rightarrow> bool" where
  "info_inv L = (\<lambda>(left, g). left \<or> L < 2 ^ 24 \<and> ln g = L \<and> rb g < 2 ^ 30 \<and> \<not> gi_errorCode g)"

lemma info_pass_ends:
  assumes inv: "info_inv L (left, g)" and more: "info_more (left, g)" and fuel: "8 * L < fuel"
  shows "ends_in (info_pass fuel mem inp (left, g)) (\<lambda>st. info_inv L st \<and> bits_left st < bits_left (left, g)) (\<lambda>_. True)"
proof -
  have a: "\<not> left" "L < 2 ^ 24" "ln g = L" "rb g < 8 * L" "\<not> gi_errorCode g"
    using inv more by (auto simp: info_inv_def info_more_count)
  have bl: "bits_left (left, g) = 8 * L - rb g" using a by (simp add: bits_left_def)
  have rest: "ends_in (case gi_byte mem g1 of (currentByte, g) \<Rightarrow>
       andThen (info_marker fuel mem inp (g\<lparr>gi_currentByte := currentByte\<rparr>)) (\<lambda>g.
             if inf_init (c_info (gi_c g)) \<noteq> 0 \<and> gi_init g then Continue (True, g)
             else if gi_errorCode g then
               Return (if in_bufferSize inp \<noteq> 0 then JPEGDEC_INCREASE_INPUT_BUFFER else JPEGDEC_STRM_ERROR, g)
             else Continue (False, next_bit g)))
       (\<lambda>st. info_inv L st \<and> bits_left st < 8 * L - rb g) (\<lambda>_. True)"
    if g1: "at_least L (rb g) g1" "\<not> gi_errorCode g1" for g1
  proof -
    obtain m s where m: "JpegDecGetByte mem (gi_stream g1) = (m, s)" by (cases "JpegDecGetByte mem (gi_stream g1)")
    define g2 where "g2 = g1\<lparr>gi_stream := s, gi_currentByte := m\<rparr>"
    have b: "gi_byte mem g1 = (m, g1\<lparr>gi_stream := s\<rparr>)" by (simp add: gi_byte_def m)
    have l1: "L < 2 ^ 24" "ln g1 = L" "rb g \<le> rb g1" "rb g1 \<le> 8 * L + 8" using g1 by (simp_all add: at_least_def)
    have after: "ends_in (if inf_init (c_info (gi_c g')) \<noteq> 0 \<and> gi_init g' then Continue (True, g')
             else if gi_errorCode g' then
               Return (if in_bufferSize inp \<noteq> 0 then JPEGDEC_INCREASE_INPUT_BUFFER else JPEGDEC_STRM_ERROR, g')
             else Continue (False, next_bit g'))
       (\<lambda>st. info_inv L st \<and> bits_left st < 8 * L - rb g) (\<lambda>_. True)" if "at_far L (rb g) g' \<or> scan_found g'" for g'
    proof (cases "scan_found g' \<or> gi_errorCode g'")
      case True
      then show ?thesis using a by (auto simp: info_inv_def bits_left_def scan_found_def)
    next
      case False
      then have f: "ln g' = L" "rb g' < 2 ^ 29" "rb g \<le> rb g'" using that by (auto simp: at_far_def)
      then have "rb (next_bit g') = rb g' + 1" by (simp add: next_bit_def u32_add)
      then show ?thesis using False f a by (auto simp: info_inv_def bits_left_def scan_found_def)
    qed
    from GetByte_count [OF m] l1
    consider (read) "moved (gi_stream g1) s" "unat (st_readBits s) = rb g1 + 8" "rb g1 + 8 \<le> 8 * L"
      | (fail) "s = gi_stream g1" "m = STRM_ERROR" by fastforce
    then have "ends_in (info_marker fuel mem inp g2) (\<lambda>g'. at_far L (rb g) g' \<or> scan_found g') (\<lambda>_. True)"
    proof cases
      case read
      then have "at_least L (rb g2) g2" "8 \<le> rb g2" "rb g \<le> rb g2"
        using l1 by (simp_all add: g2_def at_least_def moved_def)
      then show ?thesis by (intro ends_in_mono [OF info_marker_ends [OF _ _ fuel]]) (auto simp: at_far_def)
    next
      case fail
      have "at_least L (rb g) g2" using g1 fail by (simp add: g2_def)
      then show ?thesis using fail(2) by (simp add: g2_def STRM_ERROR_marker at_least_is_far)
    qed
    then show ?thesis unfolding b prod.case g2_def by (rule ends_in_andThen) (rule after)
  qed
  show ?thesis
  proof (cases "gi_currentByte g = 0xFF")
    case True
    have "at_least L (rb g) g" using a by (simp add: at_least_def)
    then show ?thesis using rest [of g] a(5) True unfolding bl by (simp add: info_pass_def Let_def)
  next
    case False
    obtain v s where b: "JpegDecGetByte mem (gi_stream g) = (v, s)" by (cases "JpegDecGetByte mem (gi_stream g)")
    show ?thesis
    proof (cases "v = 0xFF")
      case True
      have "at_least L (rb g) (g\<lparr>gi_stream := s\<rparr>)"
        using GetByte_count [OF b] a by (auto simp: at_least_def moved_def)
      then show ?thesis using rest [of "g\<lparr>gi_stream := s\<rparr>"] a(5) True False unfolding bl
        by (simp add: info_pass_def Let_def gi_byte_def b)
    next
      case f: False
      then show ?thesis using False by (simp add: info_pass_def Let_def gi_byte_def b)
    qed
  qed
qed

lemma info_check_length:
  assumes "info_check inp = None"
  shows "unat (if in_bufferSize inp = 0 then in_streamLength inp else in_bufferSize inp) < 2 ^ 24"
  using assms
  by (auto simp: info_check_def bad_buffer_size_def JPEGDEC_RK70_MIN_BUFFER_def JPEGDEC_RK70_MAX_BUFFER_def
      DEC_RK70_MAX_STREAM_def word_less_nat_alt word_le_nat_alt not_less split: if_splits)

lemma GetImageInfo_loop:
  assumes "info_check inp = None" "2 ^ 27 \<le> fuel"
  shows "ends_in (whileLoop fuel info_more (info_pass fuel mem inp) (False, info_start inp info c)) (\<lambda>_. True) (\<lambda>_. True)"
proof -
  define L where "L = unat (if in_bufferSize inp = 0 then in_streamLength inp else in_bufferSize inp)"
  have L: "L < 2 ^ 24" using info_check_length [OF assms(1)] by (simp add: L_def)
  then have fuel: "8 * L < fuel" using assms(2) by simp
  have "ends_in (whileLoop fuel info_more (info_pass fuel mem inp) (False, info_start inp info c))
      (\<lambda>st. info_inv L st \<and> \<not> info_more st) (\<lambda>_. True)"
  proof (rule ends_in_whileLoop [where m = bits_left])
    show "info_inv L (False, info_start inp info c)"
      using L by (simp add: info_inv_def info_start_def Let_def zero_StreamStorage_def L_def)
    show "bits_left (False, info_start inp info c) < fuel"
      using fuel by (simp add: bits_left_def info_start_def Let_def zero_StreamStorage_def L_def)
  next
    fix st assume "info_inv L st" "info_more st"
    then show "ends_in (info_pass fuel mem inp st) (\<lambda>st'. info_inv L st' \<and> bits_left st' < bits_left st) (\<lambda>_. True)"
      using info_pass_ends [of L "fst st" "snd st"] fuel by simp
  qed
  then show ?thesis by (rule ends_in_mono) simp_all
qed

lemma GetImageInfo_returns:
  assumes "2 ^ 27 \<le> fuel"
  shows "\<exists>ret g. JpegDecGetImageInfo fuel mem decInst pDecIn pImageInfo = Return (ret, g)"
proof (cases "(decInst, pDecIn, pImageInfo)")
  case (fields d p i)
  show ?thesis
  proof (cases "d = None \<or> p = None \<or> i = None")
    case True
    then show ?thesis using fields by (auto simp: JpegDecGetImageInfo_def split: option.splits)
  next
    case False
    then obtain c inp info where a: "d = Some c" "p = Some inp" "i = Some info" by auto
    show ?thesis
    proof (cases "info_check inp")
      case None
      from GetImageInfo_loop [OF None assms, of mem info c] show ?thesis using fields a None
        by (cases "whileLoop fuel info_more (info_pass fuel mem inp) (False, info_start inp info c)")
          (auto simp: JpegDecGetImageInfo_def split: prod.splits)
    qed (use fields a in \<open>simp add: JpegDecGetImageInfo_def\<close>)
  qed
qed


definition zero_JpegDecLinearMem :: JpegDecLinearMem where
  "zero_JpegDecLinearMem = \<lparr>lm_pVirtualAddress = 0, lm_busAddress = 0\<rparr>"

definition info_input :: "addr \<Rightarrow> u32 \<Rightarrow> JpegDecInput" where
  "info_input p n = \<lparr>in_streamBuffer = \<lparr>lm_pVirtualAddress = p, lm_busAddress = 0\<rparr>, in_streamLength = n,
     in_bufferSize = 0, in_decImageType = 0, in_sliceMbSet = 0, in_pictureBufferY = zero_JpegDecLinearMem,
     in_pictureBufferCbCr = zero_JpegDecLinearMem, in_pictureBufferCr = zero_JpegDecLinearMem\<rparr>"

definition zero_JpegDecImageInfo :: JpegDecImageInfo where
  "zero_JpegDecImageInfo = \<lparr>ii_displayWidth = 0, ii_displayHeight = 0, ii_outputWidth = 0, ii_outputHeight = 0,
     ii_version = 0, ii_units = 0, ii_xDensity = 0, ii_yDensity = 0, ii_outputFormat = 0, ii_codingMode = 0,
     ii_thumbnailType = 0, ii_displayWidthThumb = 0, ii_displayHeightThumb = 0, ii_outputWidthThumb = 0,
     ii_outputHeightThumb = 0, ii_outputFormatThumb = 0, ii_codingModeThumb = 0\<rparr>"


end
