(* ===== verification/InfoBytes.thy ===== *)
theory InfoBytes
  imports InfoReturns
begin

text \<open>
  Reading a header byte for byte in JpegDecGetImageInfo. Its loop counts one bit too many per pass
  (readBits++), so that the position is not the count of bits any more: a stream at the bytes bs has
  counted k bits more than it has read, which does no harm as long as the data behind the header makes
  up for it.
\<close>

section \<open>A stream at some bytes\<close>

definition at_bytes :: "memory \<Rightarrow> u8 list \<Rightarrow> nat \<Rightarrow> StreamStorage \<Rightarrow> bool" where
  "at_bytes mem bs k s \<longleftrightarrow> st_bitPosInByte s = 0 \<and> (\<forall>i < length bs. mem (st_pCurrPos s + of_nat i) = bs ! i) \<and>
     unat (st_readBits s) + 8 * length bs = 8 * unat (st_streamLength s) + k \<and> unat (st_streamLength s) < 2 ^ 24"

lemma at_bytes_room:
  assumes "at_bytes mem bs k s" "n \<le> length bs" "k \<le> 8 * (length bs - n)"
  shows "unat (st_readBits s + 8 * of_nat n) = unat (st_readBits s) + 8 * n"
    and "\<not> st_readBits s + 8 * of_nat n > 8 * st_streamLength s"
proof -
  have a: "unat (st_readBits s) + 8 * length bs = 8 * unat (st_streamLength s) + k" "unat (st_streamLength s) < 2 ^ 24"
    using assms(1) by (simp_all add: at_bytes_def)
  have "k + 8 * n \<le> 8 * length bs" using assms(2,3) by simp
  then have b: "unat (st_readBits s) + 8 * n \<le> 8 * unat (st_streamLength s)" "unat (st_streamLength s) < 2 ^ 24"
    using a by linarith+
  then have n: "unat (8 * of_nat n :: u32) = 8 * n"
    by (subst of_nat_numeral [symmetric], subst of_nat_mult [symmetric], subst unat_of_nat) simp
  show r: "unat (st_readBits s + 8 * of_nat n) = unat (st_readBits s) + 8 * n"
    using b n by (subst u32_add) simp_all
  have "unat (8 * st_streamLength s) = 8 * unat (st_streamLength s)" using b(2) by (intro unat_times8) simp
  then show "\<not> st_readBits s + 8 * of_nat n > 8 * st_streamLength s"
    using b(1) r by (simp add: word_less_nat_alt)
qed

lemma at_bytes_adv:
  assumes "at_bytes mem bs k s" "n \<le> length bs" "k \<le> 8 * (length bs - n)"
  shows "at_bytes mem (drop n bs) k (strm_adv n s)"
proof -
  have m: "mem (st_pCurrPos s + of_nat n + of_nat i) = drop n bs ! i" if "i < length (drop n bs)" for i
    using assms(1,2) that by (auto simp: at_bytes_def add.assoc simp flip: of_nat_add)
  moreover have "8 * (length bs - n) + 8 * n = 8 * length bs" using assms(2) by simp
  ultimately show ?thesis using assms at_bytes_room(1) [OF assms] by (simp add: at_bytes_def strm_adv_def)
qed

lemma at_bytes_head:
  assumes "at_bytes mem bs k s" "i < length bs"
  shows "mem (st_pCurrPos s + of_nat i) = bs ! i"
  using assms by (simp add: at_bytes_def)

lemma at_bytes_byte:
  assumes "at_bytes mem (b # bs) k s" "k \<le> 8 * length bs"
  shows "JpegDecGetByte mem s = (ucast b, strm_adv 1 s)" "at_bytes mem bs k (strm_adv 1 s)"
proof -
  have "\<not> st_readBits s + 8 * of_nat 1 > 8 * st_streamLength s" by (rule at_bytes_room [OF assms(1)]) (use assms(2) in simp_all)
  then have ok: "\<not> st_readBits s + 8 > 8 * st_streamLength s" by simp
  obtain r s' where g: "JpegDecGetByte mem s = (r, s')" by fastforce
  have s': "s' = strm_adv 1 s" using g ok by (simp add: JpegDecGetByte_def strm_adv_def Let_def split: if_splits)
  have a: "st_bitPosInByte s = 0" using assms(1) by (simp add: at_bytes_def)
  have "r AND 0xFF = r" using g ok by (auto simp: JpegDecGetByte_def Let_def and.assoc split: if_splits)
  then have "r \<noteq> STRM_ERROR" by (auto simp: STRM_ERROR_def)
  then have "r = ucast b" using GetByte_aligned [OF a g] at_bytes_head [OF assms(1), of 0] by simp
  then show "JpegDecGetByte mem s = (ucast b, strm_adv 1 s)" using g s' by simp
  show "at_bytes mem bs k (strm_adv 1 s)" using at_bytes_adv [OF assms(1), of 1] assms(2) by simp
qed

lemma window_16:
  "drop_bit 8 (push_bit 8 (push_bit 8 (ucast (a :: u8)) OR ucast (b :: u8)) OR ucast (c :: u8) :: u32) AND 0xFFFF =
    push_bit 8 (ucast a) OR ucast b"
proof -
  have m: "(0xFFFF :: u32) = mask 16" by (simp add: mask_eq_exp_minus_1)
  show ?thesis unfolding m by (rule bit_eqI) (auto simp: bit_simps dest: bit_imp_le_length)
qed

lemma at_bytes_2bytes:
  assumes "at_bytes mem (be16 n @ bs) k s" "n < 65536" "k \<le> 8 * length bs"
  shows "JpegDecGet2Bytes mem s = (of_nat n, strm_adv 2 s)" "at_bytes mem bs k (strm_adv 2 s)"
proof -
  have l: "length (be16 n @ bs) = length bs + 2" by (simp add: be16_def)
  have "\<not> st_readBits s + 8 * of_nat 2 > 8 * st_streamLength s" by (rule at_bytes_room [OF assms(1)]) (use assms(3) l in simp_all)
  then have ok: "\<not> st_readBits s + 16 > 8 * st_streamLength s" by simp
  have a: "st_bitPosInByte s = 0" using assms(1) by (simp add: at_bytes_def)
  have m: "mem (st_pCurrPos s) = word_of_nat (n div 256)" "mem (st_pCurrPos s + 1) = word_of_nat (n mod 256)"
    using at_bytes_head [OF assms(1), of 0] at_bytes_head [OF assms(1), of 1] l by (simp_all add: be16_def)
  show "JpegDecGet2Bytes mem s = (of_nat n, strm_adv 2 s)"
    using ok a window_16 [of "mem (st_pCurrPos s)" "mem (st_pCurrPos s + 1)"] be16_value [OF assms(2)] m
    by (simp add: JpegDecGet2Bytes_def strm_adv_def Let_def del: drop_bit_or push_bit_or push_bit_push_bit)
  show "at_bytes mem bs k (strm_adv 2 s)" using at_bytes_adv [OF assms(1), of 2] assms(3) l by (simp add: be16_def)
qed

lemma at_bytes_flush8:
  assumes "at_bytes mem (b # bs) k s" "k \<le> 8 * length bs" "b \<noteq> 0xFF" "st_appnFlag s = 0"
  shows "JpegDecFlushBits mem s 8 = (0, strm_adv 1 s)"
proof -
  have "\<not> st_readBits s + 8 * of_nat 1 > 8 * st_streamLength s" by (rule at_bytes_room [OF assms(1)]) (use assms(2) in simp_all)
  moreover have "mem (st_pCurrPos s) \<noteq> 0xFF" using at_bytes_head [OF assms(1), of 0] assms(3) by simp
  moreover have "flush_loop mem 8 8 0 t = (t, 0)" for t by (subst flush_loop.simps) simp
  ultimately show ?thesis
    using assms(4) by (simp add: JpegDecFlushBits_def strm_adv_def flush_loop.simps [of mem 8 0] flush_byte_def)
qed

lemma at_bytes_flush_rest:
  assumes "at_bytes mem bs k s" "n \<le> length bs" "k \<le> 8 * (length bs - n)" "st_appnFlag s \<noteq> 0"
  shows "JpegDecFlushBits mem s (8 * of_nat n) = (0, strm_adv n s)"
proof -
  note r = at_bytes_room [OF assms(1-3)]
  have l: "unat (st_readBits s) + 8 * length bs = 8 * unat (st_streamLength s) + k" "unat (st_streamLength s) < 2 ^ 24"
    using assms(1) by (simp_all add: at_bytes_def)
  moreover have "k + 8 * n \<le> 8 * length bs" using assms(2,3) by simp
  ultimately have "8 * n < 2 ^ 32" by simp
  then have "unat (8 * of_nat n :: u32) = 8 * n"
    by (subst of_nat_numeral [symmetric], subst of_nat_mult [symmetric], subst unat_of_nat) simp
  then show ?thesis
    using r(2) flush_loop_appn [of s 0 "8 * of_nat n" n mem 0] assms(4) by (simp add: JpegDecFlushBits_def strm_adv_def)
qed

lemma at_bytes_flag: "at_bytes mem bs k (s\<lparr>st_appnFlag := v\<rparr>) = at_bytes mem bs k s"
  by (simp add: at_bytes_def)

lemma at_bytes_length_fits:
  assumes "at_bytes mem (xs @ bs) k s" "k \<le> 8 * length bs" "length xs < 65534"
  shows "length_fits s (of_nat (2 + length xs))"
proof -
  have "\<not> st_readBits s + 8 * of_nat (length xs) > 8 * st_streamLength s"
    by (rule at_bytes_room [OF assms(1)]) (use assms(2) in simp_all)
  moreover have "(of_nat (2 + length xs) :: u32) * 8 - 16 = 8 * of_nat (length xs)" by (simp add: algebra_simps)
  moreover have "(of_nat (2 + length xs) :: u32) \<noteq> STRM_ERROR"
  proof
    assume "(of_nat (2 + length xs) :: u32) = STRM_ERROR"
    then have "unat (of_nat (2 + length xs) :: u32) = unat STRM_ERROR" by simp
    moreover have "unat (of_nat (2 + length xs) :: u32) = 2 + length xs" by (simp only: unat_of_nat) (use assms(3) in simp)
    ultimately show False using assms(3) by (simp add: STRM_ERROR_def)
  qed
  ultimately show ?thesis by (simp add: length_fits_def mult.commute del: of_nat_add)
qed

section \<open>The reader of JpegDecGetImageInfo\<close>

definition reads :: "memory \<Rightarrow> u8 list \<Rightarrow> nat \<Rightarrow> info_vars \<Rightarrow> bool" where
  "reads mem bs k g \<longleftrightarrow> at_bytes mem bs k (gi_stream g)"

definition gi_adv :: "nat \<Rightarrow> info_vars \<Rightarrow> info_vars" where
  "gi_adv n = gi_stream_update (strm_adv n)"

lemma gi_adv_simps [simp]:
  "gi_stream (gi_adv n g) = strm_adv n (gi_stream g)" "gi_c (gi_adv n g) = gi_c g" "gi_info (gi_adv n g) = gi_info g"
  "gi_currentByte (gi_adv n g) = gi_currentByte g" "gi_errorCode (gi_adv n g) = gi_errorCode g"
  "gi_thumbnail (gi_adv n g) = gi_thumbnail g" "gi_init (gi_adv n g) = gi_init g" "gi_H (gi_adv n g) = gi_H g"
  "gi_V (gi_adv n g) = gi_V g" "gi_appBits (gi_adv n g) = gi_appBits g" "gi_appLength (gi_adv n g) = gi_appLength g"
  by (simp_all add: gi_adv_def)

lemma strm_adv_flag [simp]: "st_appnFlag (strm_adv n s) = st_appnFlag s"
  by (simp add: strm_adv_def)

lemma gi_byte_reads:
  assumes "reads mem (b # bs) k g" "k \<le> 8 * length bs"
  shows "gi_byte mem g = (ucast b, gi_adv 1 g)" "reads mem bs k (gi_adv 1 g)"
  using at_bytes_byte [OF assms(1) [unfolded reads_def] assms(2)] by (simp_all add: gi_byte_def gi_adv_def reads_def)

lemma gi_2bytes_reads:
  assumes "reads mem (be16 n @ bs) k g" "n < 65536" "k \<le> 8 * length bs"
  shows "gi_2bytes mem g = (of_nat n, gi_adv 2 g)" "reads mem bs k (gi_adv 2 g)"
  using at_bytes_2bytes [OF assms(1) [unfolded reads_def] assms(2,3)] by (simp_all add: gi_2bytes_def gi_adv_def reads_def)

lemma gi_flush8_reads:
  assumes "reads mem (b # bs) k g" "k \<le> 8 * length bs" "b \<noteq> 0xFF" "st_appnFlag (gi_stream g) = 0"
  shows "gi_flush mem 8 g = (0, gi_adv 1 g)" "reads mem bs k (gi_adv 1 g)"
  using at_bytes_flush8 [OF assms(1) [unfolded reads_def] assms(2-4)] gi_byte_reads(2) [OF assms(1,2)]
  by (simp_all add: gi_flush_def gi_adv_def)

lemma with_length_reads:
  assumes "reads mem (be16 (2 + length xs) @ xs @ bs) k g" "k \<le> 8 * length bs" "length xs < 65534"
  shows "with_length mem f g = f (of_nat (2 + length xs)) (gi_adv 2 g)" "reads mem (xs @ bs) k (gi_adv 2 g)"
proof -
  note r = gi_2bytes_reads [OF assms(1)]
  show "reads mem (xs @ bs) k (gi_adv 2 g)" using r(2) assms(2,3) by simp
  then have "length_fits (gi_stream (gi_adv 2 g)) (of_nat (2 + length xs))"
    using at_bytes_length_fits [OF _ assms(2,3)] by (simp add: reads_def)
  then show "with_length mem f g = f (of_nat (2 + length xs)) (gi_adv 2 g)"
    using r(1) assms(2,3) by (simp add: with_length_def del: of_nat_add)
qed

lemma gi_jump_reads:
  assumes "reads mem (xs @ bs) k g" "k \<le> 8 * length bs" "length xs < 65534"
  shows "gi_jump (of_nat (2 + length xs)) g = gi_adv (length xs) g" "reads mem bs k (gi_adv (length xs) g)"
proof -
  have "unat (of_nat (2 + length xs) :: u32) = 2 + length xs" by (simp only: unat_of_nat) (use assms(3) in simp)
  then have "(of_nat (2 + length xs) :: u32) \<noteq> 0" by (metis add_is_0 unat_0 zero_neq_numeral)
  then show "gi_jump (of_nat (2 + length xs)) g = gi_adv (length xs) g"
    using jump_segment_adv [of "length xs"] assms(3) by (simp add: gi_jump_def gi_adv_def del: of_nat_add)
  show "reads mem bs k (gi_adv (length xs) g)"
    using at_bytes_adv [OF assms(1) [unfolded reads_def], of "length xs"] assms(2) by (simp add: reads_def)
qed

end
