(* ===== verification/InfoFrame.thy ===== *)
theory InfoFrame
  imports InfoReturns Instance
begin

text \<open>
  What JpegDecGetImageInfo leaves alone: it works on a copy of the stream and changes no part of the
  decoder but the two records frame and info. As it finds the coding mode of a picture before anything
  is programmed, a decoder whose fuse is burned refuses a progressive picture without a message to the
  core.
\<close>

section \<open>Partial correctness of an outcome\<close>

text \<open>Where the code goes on it does so in P, where it returns in Q; it may be undefined.\<close>

fun stays_in :: "('r, 'a) outcome \<Rightarrow> ('a \<Rightarrow> bool) \<Rightarrow> ('r \<Rightarrow> bool) \<Rightarrow> bool" where
  "stays_in (Continue a) P Q = P a"
| "stays_in (Return r) P Q = Q r"
| "stays_in Undefined P Q = True"
| "stays_in OutOfFuel P Q = True"

lemma stays_in_andThen: "stays_in m P Q \<Longrightarrow> (\<And>a. P a \<Longrightarrow> stays_in (f a) P' Q) \<Longrightarrow> stays_in (andThen m f) P' Q"
  by (cases m) auto

lemma stays_in_whileLoop:
  assumes "P s" "\<And>s. P s \<Longrightarrow> stays_in (body s) P Q"
  shows "stays_in (whileLoop n b body s) P Q"
  using assms(1) by (induction n arbitrary: s) (auto intro!: stays_in_andThen assms(2))

section \<open>The frame of JpegDecGetImageInfo\<close>

definition kept :: "JpegDecContainer \<Rightarrow> info_vars \<Rightarrow> bool" where
  "kept c g \<longleftrightarrow> gi_c g = c\<lparr>c_frame := c_frame (gi_c g), c_info := c_info (gi_c g)\<rparr>"

abbreviation keeps :: "JpegDecContainer \<Rightarrow> info_step \<Rightarrow> bool" where
  "keeps c m \<equiv> stays_in m (kept c) (\<lambda>r. kept c (snd r))"

lemma kept_updates [simp]:
  "kept c (g\<lparr>gi_stream := s\<rparr>) = kept c g" "kept c (g\<lparr>gi_currentByte := b\<rparr>) = kept c g"
  "kept c (g\<lparr>gi_errorCode := e\<rparr>) = kept c g" "kept c (g\<lparr>gi_thumbnail := e\<rparr>) = kept c g"
  "kept c (g\<lparr>gi_init := e\<rparr>) = kept c g" "kept c (g\<lparr>gi_initThumb := e\<rparr>) = kept c g"
  "kept c (g\<lparr>gi_H := l\<rparr>) = kept c g" "kept c (g\<lparr>gi_V := l\<rparr>) = kept c g"
  "kept c (g\<lparr>gi_Htn := l\<rparr>) = kept c g" "kept c (g\<lparr>gi_Vtn := l\<rparr>) = kept c g"
  "kept c (g\<lparr>gi_appBits := b\<rparr>) = kept c g" "kept c (g\<lparr>gi_appLength := b\<rparr>) = kept c g"
  "kept c (gi_info_update f g) = kept c g" "kept c (gi_stream_update h g) = kept c g"
  "kept c (add_appBits b g) = kept c g" "kept c (set_appnFlag b g) = kept c g" "kept c (next_bit g) = kept c g"
  "kept c (gi_jump b g) = kept c g"
  by (simp_all add: kept_def add_appBits_def set_appnFlag_def next_bit_def gi_jump_def)

lemma kept_container [simp]:
  "kept c g \<Longrightarrow> kept c (gi_c_update (c_frame_update f) g)" "kept c g \<Longrightarrow> kept c (gi_c_update (c_info_update h) g)"
  unfolding kept_def by (cases "gi_c g", cases c, simp)+

lemma info_kept_read [simp]:
  "kept c (snd (gi_byte mem g)) = kept c g" "kept c (snd (gi_2bytes mem g)) = kept c g" "kept c (snd (gi_flush mem n g)) = kept c g"
  by (simp_all add: gi_byte_def gi_2bytes_def gi_flush_def split: prod.splits)

lemma kept_reads [simp]:
  "gi_byte mem g = (b, g') \<Longrightarrow> kept c g' = kept c g" "gi_2bytes mem g = (b, g') \<Longrightarrow> kept c g' = kept c g"
  "gi_flush mem n g = (b, g') \<Longrightarrow> kept c g' = kept c g"
  using info_kept_read [where c = c and g = g and mem = mem] by (metis snd_conv)+

lemma keeps_error [simp]: "kept c g \<Longrightarrow> keeps c (gi_error g)" by (simp add: gi_error_def)

lemma keeps_with_length:
  "kept c g \<Longrightarrow> (\<And>n g. kept c g \<Longrightarrow> keeps c (f n g)) \<Longrightarrow> keeps c (with_length mem f g)"
  by (auto simp: with_length_def split: prod.splits)

lemma keeps_lines:
  "kept c g \<Longrightarrow> keeps c (info_lines mem g)" "kept c g \<Longrightarrow> keeps c (info_samples mem g)"
  "kept c g \<Longrightarrow> keeps c (thumb_lines mem g)" "kept c g \<Longrightarrow> keeps c (thumb_samples mem g)"
  by (auto simp: info_lines_def info_samples_def thumb_lines_def thumb_samples_def Let_def split: prod.splits)

lemma kept_sampling_one: "kept c g \<Longrightarrow> sampling_one mem j (v, g) = (v', g') \<Longrightarrow> kept c g'"
  by (auto simp: sampling_one_def Let_def split: prod.splits if_splits)

lemma kept_thumb_one: "kept c g \<Longrightarrow> thumb_one mem j (v, g) = (v', g') \<Longrightarrow> kept c g'"
  by (auto simp: thumb_one_def Let_def split: prod.splits if_splits)

lemma kept_fold:
  assumes "kept c g" "\<And>j v g v' g'. kept c g \<Longrightarrow> f j (v, g) = (v', g') \<Longrightarrow> kept c g'"
  shows "fold (\<lambda>j (v, g). if sv_left v then (v, g) else f j (v, g)) js (v, g) = (v', g') \<Longrightarrow> kept c g'"
  using assms(1)
proof (induction js arbitrary: v g)
  case (Cons j js)
  obtain v1 g1 where "f j (v, g) = (v1, g1)" by fastforce
  with Cons assms(2) [OF Cons.prems(2)] show ?case by (auto split: if_splits)
qed simp

lemma kept_factors:
  "kept c g \<Longrightarrow> sampling_factors mem n H V g = (v, g') \<Longrightarrow> kept c g'"
  "kept c g \<Longrightarrow> thumb_factors mem n H V g = (v, g') \<Longrightarrow> kept c g'"
  unfolding sampling_factors_def thumb_factors_def
  by (erule (1) kept_fold [rotated 2], erule (1) kept_sampling_one)
    (erule (1) kept_fold [rotated 2], erule (1) kept_thumb_one)

lemma keeps_format: "kept c g \<Longrightarrow> keeps c (info_check_format g)"
proof -
  assume k: "kept c g"
  have f: "kept c (info_set_format fmt g)" if "kept c g" for fmt g
    using that unfolding info_set_format_def kept_def
    by (cases "gi_c g", cases c, simp split: prod.splits)
  have "keeps c (info_411 g)" using k by (auto simp: info_411_def Let_def)
  with k f show ?thesis
    by (auto simp: info_check_format_def intro!: stays_in_andThen split: option.splits)
qed

lemma keeps_SOF: "kept c g \<Longrightarrow> keeps c (info_SOF mem g)"
proof -
  assume k: "kept c g"
  have comp: "keeps c (info_components mem g)" if "kept c g" for g
  proof -
    obtain Nf g1 where b: "gi_byte mem g = (Nf, g1)" by fastforce
    obtain v g2 where f: "sampling_factors mem (unat Nf) (gi_H g1) (gi_V g1) g1 = (v, g2)" by fastforce
    have "kept c g1" "kept c g2" using that b kept_factors(1) [OF _ f] by simp_all
    then show ?thesis by (simp add: info_components_def b f keeps_format Let_def)
  qed
  show ?thesis
    using k comp unfolding info_SOF_def Let_def
    by (intro keeps_with_length) (auto intro!: stays_in_andThen [OF keeps_lines(1)] stays_in_andThen [OF keeps_lines(2)] split: prod.splits)
qed

lemma keeps_SOS: "kept c g \<Longrightarrow> keeps c (info_SOS mem g)" "kept c g \<Longrightarrow> keeps c (thumb_SOS mem g)"
  unfolding info_SOS_def thumb_SOS_def Let_def
  by (intro keeps_with_length; auto split: prod.splits)+

lemma keeps_DRI: "kept c g \<Longrightarrow> keeps c (info_DRI mem g)"
  unfolding info_DRI_def by (intro keeps_with_length) simp_all

lemma keeps_skip: "kept c g \<Longrightarrow> keeps c (info_skip mem g)" "kept c g \<Longrightarrow> keeps c (thumb_skip mem g)"
proof -
  show "kept c g \<Longrightarrow> keeps c (info_skip mem g)" unfolding info_skip_def by (intro keeps_with_length) simp_all
  show "kept c g \<Longrightarrow> keeps c (thumb_skip mem g)" by (auto simp: thumb_skip_def split: prod.splits)
qed

lemma keeps_thumb_SOF: "kept c g \<Longrightarrow> keeps c (thumb_SOF mem g)"
proof -
  assume k: "kept c g"
  have comp: "keeps c (thumb_components mem g)" if "kept c g" for g
  proof -
    obtain Nf g1 where b: "gi_byte mem g = (Nf, g1)" by fastforce
    let ?g1 = "add_appBits 8 g1"
    obtain v g2 where f: "thumb_factors mem (unat Nf) (gi_Htn ?g1) (gi_Vtn ?g1) ?g1 = (v, g2)" by fastforce
    have "kept c ?g1" "kept c g2" using that b kept_factors(2) [OF _ f] by simp_all
    then show ?thesis by (simp add: thumb_components_def b f Let_def split: option.splits)
  qed
  show ?thesis
    using k comp
    by (auto simp: thumb_SOF_def Let_def intro!: stays_in_andThen [OF keeps_lines(3)] stays_in_andThen [OF keeps_lines(4)] split: prod.splits)
qed

lemma keeps_thumb_marker: "kept c g \<Longrightarrow> keeps c (thumb_marker mem g)"
  by (auto simp: thumb_marker_def Let_def keeps_thumb_SOF keeps_SOS keeps_skip)

lemma keeps_thumb_pass:
  "kept c (snd st) \<Longrightarrow> stays_in (thumb_pass mem inp st) (\<lambda>st. kept c (snd st)) (\<lambda>r. kept c (snd r))"
  by (cases st) (auto simp: thumb_pass_def Let_def intro!: stays_in_andThen [OF keeps_thumb_marker] split: prod.splits)

lemma keeps_thumbnail: "kept c g \<Longrightarrow> keeps c (info_thumbnail fuel mem inp g)"
  unfolding info_thumbnail_def
  by (intro stays_in_andThen [OF stays_in_whileLoop [OF _ keeps_thumb_pass]]) auto

lemma keeps_rest:
  "kept c g \<Longrightarrow> keeps c (info_flush_rest mem g)" "kept c g \<Longrightarrow> keeps c (info_flush_rest_reset mem g)"
  by (auto simp: info_flush_rest_def info_flush_rest_reset_def split: prod.splits)

lemma keeps_APP0: "kept c g \<Longrightarrow> keeps c (info_APP0 fuel mem inp g)"
proof -
  assume k: "kept c g"
  have jfif: "keeps c (info_JFIF mem g)" if "kept c g" for g
    using that by (auto simp: info_JFIF_def Let_def keeps_rest split: prod.splits)
  have thumb: "keeps c (info_APP0_thumb fuel mem inp g)" if "kept c g" for g
    using that by (auto simp: info_APP0_thumb_def Let_def keeps_rest keeps_thumbnail split: prod.splits)
  have "keeps c (info_APP0_identifier fuel mem inp g)" if "kept c g" for g
    using that by (auto simp: info_APP0_identifier_def Let_def keeps_rest jfif thumb split: prod.splits)
  with k show ?thesis
    unfolding info_APP0_def by (intro keeps_with_length) (auto simp: Let_def split: prod.splits)
qed

lemma keeps_marker: "kept c g \<Longrightarrow> keeps c (info_marker fuel mem inp g)"
  by (auto simp: info_marker_def Let_def keeps_SOF keeps_SOS keeps_DRI keeps_APP0 keeps_skip)

lemma keeps_pass:
  "kept c (snd st) \<Longrightarrow> stays_in (info_pass fuel mem inp st) (\<lambda>st. kept c (snd st)) (\<lambda>r. kept c (snd r))"
  by (cases st) (auto simp: info_pass_def Let_def intro!: stays_in_andThen [OF keeps_marker] split: prod.splits)

lemma GetImageInfo_kept:
  assumes "JpegDecGetImageInfo fuel mem (Some c) (Some inp) (Some info) = Return (ret, Some g)"
  shows "kept c g"
proof -
  have "kept c (info_start inp info c)" by (simp add: kept_def info_start_def Let_def)
  then have "stays_in (andThen (whileLoop fuel info_more (info_pass fuel mem inp) (False, info_start inp info c))
      (\<lambda>(left, g). Return (info_finish inp g) :: (JpegDecRet \<times> info_vars, unit) outcome)) (\<lambda>_. True) (\<lambda>r. kept c (snd r))"
    by (intro stays_in_andThen [OF stays_in_whileLoop [OF _ keeps_pass]]) (auto simp: info_finish_def)
  then show ?thesis
    using assms by (auto simp: JpegDecGetImageInfo_def split: option.splits outcome.splits)
qed

text \<open>
  C30. Asking for the image information does not disturb a decoder: whatever the stream holds and
  whatever the result, the registers, the position in the stream, the tables, the scan, the buffers
  and the limits are those from before; only the records frame and info may have changed.
\<close>

theorem GetImageInfo_changes_only_info:
  assumes "JpegDecGetImageInfo fuel mem (Some c) (Some inp) (Some info) = Return (ret, Some g)"
  shows "gi_c g = c\<lparr>c_frame := c_frame (gi_c g), c_info := c_info (gi_c g)\<rparr>"
  using GetImageInfo_kept [OF assms] by (simp add: kept_def)

lemma GetImageInfo_gives_info:
  assumes "info_check inp = None"
  shows "\<exists>ret g. JpegDecGetImageInfo (2 ^ 27) mem (Some c) (Some inp) (Some info) = Return (ret, Some g)"
proof -
  obtain ret go where r: "JpegDecGetImageInfo (2 ^ 27) mem (Some c) (Some inp) (Some info) = Return (ret, go)"
    using GetImageInfo_returns by blast
  then have "go \<noteq> None" using assms by (auto simp: JpegDecGetImageInfo_def split: outcome.splits)
  with r show ?thesis by auto
qed

lemma GetImageInfo_changes_only_info_witness:
  "\<exists>ret g. JpegDecGetImageInfo (2 ^ 27) (memory_of 64 [0xFF, 0xD8, 0xFF, 0xE0, 0, 1]) (Some (init_container 5 0x2000))
     (Some (info_input 64 6)) (Some zero_JpegDecImageInfo) = Return (ret, Some g) \<and>
     c_jpegRegs (gi_c g) = writes (replicate DEC_RK70_REGISTERS 0) init_regs"
proof -
  have "info_check (info_input 64 6) = None"
    by (simp add: info_check_def info_input_def bad_virtual_address_def DEC_RK70_MAX_STREAM_def)
  from GetImageInfo_gives_info [OF this] obtain ret g
    where r: "JpegDecGetImageInfo (2 ^ 27) (memory_of 64 [0xFF, 0xD8, 0xFF, 0xE0, 0, 1]) (Some (init_container 5 0x2000))
     (Some (info_input 64 6)) (Some zero_JpegDecImageInfo) = Return (ret, Some g)" by blast
  have "c_jpegRegs (gi_c g) = c_jpegRegs (init_container 5 0x2000)"
    by (subst GetImageInfo_changes_only_info [OF r]) simp
  with r show ?thesis by (simp add: init_container_eq)
qed

section \<open>A decoder with a burned fuse\<close>

lemma decode_info_fresh:
  assumes "inf_init (c_info c) = 0" "inf_SliceReadyForPause (c_info c) = 0" "inf_inputBufferEmpty (c_info c) = 0"
    "JpegDecGetImageInfo fuel mem (Some c) (Some inp) (Some infoTmp) = Return (JPEGDEC_OK, Some g)"
  shows "decode_info fuel mem infoTmp inp c = Continue (gi_c g)"
  using assms by (simp add: decode_info_def)

lemma decode_setup_progressive:
  assumes "inf_init (c_info (dv_c v)) = 0" "inf_SliceReadyForPause (c_info (dv_c v)) = 0" "inf_inputBufferEmpty (c_info (dv_c v)) = 0"
    "JpegDecGetImageInfo fuel mem (Some (dv_c v)) (Some inp) (Some infoTmp) = Return (JPEGDEC_OK, Some g)"
    "c_is8190 (dv_c v) \<noteq> 0" "c_fuseBurned (dv_c v) \<noteq> 0" "inf_operationType (c_info (gi_c g)) = JPEGDEC_PROGRESSIVE"
  shows "\<exists>v'. decode_setup fuel mem infoTmp inp v = Return (JPEGDEC_UNSUPPORTED, v') \<and> hw_sent (dv_h v') = hw_sent (dv_h v)"
proof -
  note e = GetImageInfo_kept [OF assms(4), unfolded kept_def]
  have k: "c_is8190 (gi_c g) = c_is8190 (dv_c v)" "c_fuseBurned (gi_c g) = c_fuseBurned (dv_c v)"
    by (subst e, simp)+
  have i: "in_c v (decode_info fuel mem infoTmp inp (dv_c v)) = Continue (on_dc (\<lambda>_. gi_c g) v)"
    using decode_info_fresh [OF assms(1-4)] by simp
  let ?v = "on_info (\<lambda>i. i\<lparr>inf_sliceMbSetValue := in_sliceMbSet inp\<rparr>) (decode_stream inp (on_dc (\<lambda>_. gi_c g) v))"
  have c: "c_is8190 (dv_c ?v) = c_is8190 (gi_c g)" "c_fuseBurned (dv_c ?v) = c_fuseBurned (gi_c g)"
    "inf_operationType (c_info (dv_c ?v)) = inf_operationType (c_info (gi_c g))" "hw_sent (dv_h ?v) = hw_sent (dv_h v)"
    by (simp_all add: decode_stream_def on_dc_def on_c_def Let_def)
  then have "decode_supported inp (dv_c ?v) = Some JPEGDEC_UNSUPPORTED"
    using assms(5-7) k by (simp add: decode_supported_def Let_def)
  then have "decode_setup fuel mem infoTmp inp v = Return (JPEGDEC_UNSUPPORTED, ?v)"
    by (simp add: decode_setup_def i Let_def)
  then show ?thesis using c(4) by blast
qed

end
