(* ===== verification/InfoHeader.thy ===== *)
theory InfoHeader
  imports InfoBytes InfoFrame
begin

text \<open>
  What JpegDecGetImageInfo tells of a well-formed header: application segments and tables, a frame
  header, more segments, a scan header. The lists of bytes are the ones of the standard (B.2); the
  reading of each segment is a function on the image information.
\<close>

section \<open>The segments in front of and behind the frame header\<close>

datatype app_segment =
    Plain u8 "u8 list"
  | JFIF nat u8 nat nat "u8 list"

fun app_bytes :: "app_segment \<Rightarrow> u8 list" where
  "app_bytes (Plain m p) = [0xFF, m] @ be16 (2 + length p) @ p"
| "app_bytes (JFIF version unit x y rest) =
     [0xFF, 0xE0] @ be16 (14 + length rest) @ [0x4A, 0x46, 0x49, 0x46, 0] @ be16 version @ [unit] @ be16 x @ be16 y @ rest"

fun app_ok :: "app_segment \<Rightarrow> bool" where
  "app_ok (Plain m p) \<longleftrightarrow> ucast m \<in> set (DQT # DHT # INFO_SKIPPED) \<and> length p < 65534"
| "app_ok (JFIF version unit x y rest) \<longleftrightarrow>
     version < 65536 \<and> unit \<noteq> 0xFF \<and> x < 65536 \<and> y < 65536 \<and> 2 \<le> length rest \<and> length rest < 65522"

fun app_info :: "app_segment \<Rightarrow> JpegDecImageInfo \<Rightarrow> JpegDecImageInfo" where
  "app_info (Plain m p) i = i"
| "app_info (JFIF version unit x y rest) i =
     i\<lparr>ii_version := of_nat version, ii_units := (if unit \<le> 2 then ucast unit else ii_units i),
       ii_xDensity := of_nat x, ii_yDensity := of_nat y\<rparr>"

text \<open>The state between two segments: k is the number of passes made.\<close>

definition between :: "memory \<Rightarrow> u8 list \<Rightarrow> nat \<Rightarrow> info_vars \<Rightarrow> bool" where
  "between mem bs k g \<longleftrightarrow> reads mem bs k g \<and> st_appnFlag (gi_stream g) = 0 \<and> gi_currentByte g \<noteq> 0xFF \<and>
     \<not> gi_errorCode g \<and> \<not> gi_thumbnail g \<and> \<not> gi_init g"

lemma next_bit_reads:
  assumes "reads mem bs k g" "k \<le> 8 * length bs"
  shows "reads mem bs (k + 1) (next_bit g)"
proof -
  let ?s = "gi_stream g"
  have a: "unat (st_readBits ?s) + 8 * length bs = 8 * unat (st_streamLength ?s) + k" "unat (st_streamLength ?s) < 2 ^ 24"
    using assms(1) by (simp_all add: reads_def at_bytes_def)
  then have "unat (st_readBits ?s) < 2 ^ 27" using assms(2) by simp
  then have "unat (st_readBits ?s + 1) = unat (st_readBits ?s) + 1" by (subst u32_add) simp_all
  then show ?thesis using assms(1) by (simp add: reads_def at_bytes_def next_bit_def)
qed

lemma next_bit_simps [simp]:
  "gi_c (next_bit g) = gi_c g" "gi_info (next_bit g) = gi_info g" "gi_currentByte (next_bit g) = gi_currentByte g"
  "gi_errorCode (next_bit g) = gi_errorCode g" "gi_thumbnail (next_bit g) = gi_thumbnail g" "gi_init (next_bit g) = gi_init g"
  "gi_H (next_bit g) = gi_H g" "gi_V (next_bit g) = gi_V g" "st_appnFlag (gi_stream (next_bit g)) = st_appnFlag (gi_stream g)"
  by (simp_all add: next_bit_def)

text \<open>A pass that starts at a marker.\<close>

lemma pass_at_marker:
  assumes "between mem (0xFF # m # bs) k g" "k \<le> 8 * length bs"
  shows "info_pass fuel mem inp (left, g) =
      andThen (info_marker fuel mem inp ((gi_adv 2 g)\<lparr>gi_currentByte := ucast m\<rparr>)) (\<lambda>g.
        if inf_init (c_info (gi_c g)) \<noteq> 0 \<and> gi_init g then Continue (True, g)
        else if gi_errorCode g then
          Return (if in_bufferSize inp \<noteq> 0 then JPEGDEC_INCREASE_INPUT_BUFFER else JPEGDEC_STRM_ERROR, g)
        else Continue (False, next_bit g))"
    and "reads mem bs k ((gi_adv 2 g)\<lparr>gi_currentByte := ucast m\<rparr>)"
proof -
  have r: "reads mem (0xFF # m # bs) k g" "gi_currentByte g \<noteq> 0xFF" using assms(1) by (simp_all add: between_def)
  have b: "gi_byte mem g = (0xFF, gi_adv 1 g)" "reads mem (m # bs) k (gi_adv 1 g)"
    using gi_byte_reads [OF r(1)] assms(2) by simp_all
  have b': "gi_byte mem (gi_adv 1 g) = (ucast m, gi_adv 2 g)" "reads mem bs k (gi_adv 2 g)"
    using gi_byte_reads [OF b(2) assms(2)] by (simp_all add: gi_adv_def strm_adv_adv o_def numeral_2_eq_2)
  show "info_pass fuel mem inp (left, g) =
      andThen (info_marker fuel mem inp ((gi_adv 2 g)\<lparr>gi_currentByte := ucast m\<rparr>)) (\<lambda>g.
        if inf_init (c_info (gi_c g)) \<noteq> 0 \<and> gi_init g then Continue (True, g)
        else if gi_errorCode g then
          Return (if in_bufferSize inp \<noteq> 0 then JPEGDEC_INCREASE_INPUT_BUFFER else JPEGDEC_STRM_ERROR, g)
        else Continue (False, next_bit g))"
    using b(1) b'(1) r(2) by (simp add: info_pass_def Let_def)
  show "reads mem bs k ((gi_adv 2 g)\<lparr>gi_currentByte := ucast m\<rparr>)" using b'(2) by (simp add: reads_def)
qed

lemma reads_stream: "reads mem bs k g \<Longrightarrow> gi_stream g' = gi_stream g \<Longrightarrow> reads mem bs k g'"
  by (simp add: reads_def)

lemma gi_adv_adv [simp]: "gi_adv m (gi_adv n g) = gi_adv (n + m) g"
  by (simp add: gi_adv_def strm_adv_adv o_def)

text \<open>The end of a pass over a segment that was read without an error.\<close>

lemma between_next:
  assumes "reads mem bs k g" "k \<le> 8 * length bs" "st_appnFlag (gi_stream g) = 0" "gi_currentByte g \<noteq> 0xFF"
    "\<not> gi_errorCode g" "\<not> gi_thumbnail g" "\<not> gi_init g"
  shows "between mem bs (k + 1) (next_bit g)"
  using next_bit_reads [OF assms(1,2)] assms(3-) by (simp add: between_def)

lemma pass_SOI:
  assumes "between mem (0xFF # 0xD8 # bs) k g" "k \<le> 8 * length bs"
  shows "\<exists>g'. info_pass fuel mem inp (left, g) = Continue (False, g') \<and> between mem bs (k + 1) g' \<and>
    gi_c g' = gi_c g \<and> gi_info g' = gi_info g \<and> gi_H g' = gi_H g \<and> gi_V g' = gi_V g"
proof -
  let ?g = "(gi_adv 2 g)\<lparr>gi_currentByte := 0xD8\<rparr>"
  have m: "info_marker fuel mem inp ?g = Continue ?g"
    by (simp add: info_marker_def Let_def marker_defs INFO_SKIPPED_def INFO_UNSUPPORTED_def)
  have "reads mem bs k ?g" using pass_at_marker(2) [OF assms] by simp
  then have "between mem bs (k + 1) (next_bit ?g)"
    by (rule between_next) (use assms in \<open>simp_all add: between_def\<close>)
  then show ?thesis
    using pass_at_marker(1) [OF assms, of fuel inp left] assms(1) m by (auto simp: between_def)
qed

lemma pass_Plain:
  assumes "between mem (app_bytes (Plain m p) @ bs) k g" "k \<le> 8 * length bs" "app_ok (Plain m p)"
  shows "\<exists>g'. info_pass fuel mem inp (left, g) = Continue (False, g') \<and> between mem bs (k + 1) g' \<and>
    gi_c g' = gi_c g \<and> gi_info g' = gi_info g \<and> gi_H g' = gi_H g \<and> gi_V g' = gi_V g"
proof -
  let ?g = "(gi_adv 2 g)\<lparr>gi_currentByte := ucast m\<rparr>" and ?t = "be16 (2 + length p) @ p @ bs"
  have b: "between mem (0xFF # m # ?t) k g" "k \<le> 8 * length ?t" using assms(1,2) by simp_all
  have p: "length p < 65534" and m: "ucast m \<in> set (DQT # DHT # INFO_SKIPPED)" using assms(3) by simp_all
  note l = with_length_reads [OF pass_at_marker(2) [OF b] assms(2) p]
  note j = gi_jump_reads [OF l(2) assms(2) p]
  let ?g' = "gi_adv (length p) (gi_adv 2 ?g)"
  have "info_marker fuel mem inp ?g = info_skip mem ?g"
    using m by (auto simp: info_marker_def Let_def marker_defs INFO_SKIPPED_def INFO_UNSUPPORTED_def)
  then have i: "info_marker fuel mem inp ?g = Continue ?g'"
    using l(1) j(1) by (simp add: info_skip_def del: gi_adv_adv)
  have "ucast m \<noteq> (0xFF :: u32)" using m by (auto simp: marker_defs INFO_SKIPPED_def)
  then have "between mem bs (k + 1) (next_bit ?g')"
    using assms(1,2) by (intro between_next [OF j(2)]) (simp_all add: between_def)
  then show ?thesis
    using pass_at_marker(1) [OF b, of fuel inp left] assms(1) i by (auto simp: between_def)
qed

section \<open>JFIF\<close>

lemma reads_update [simp]:
  "reads mem bs k (g\<lparr>gi_currentByte := b\<rparr>) = reads mem bs k g" "reads mem bs k (g\<lparr>gi_appLength := n\<rparr>) = reads mem bs k g"
  "reads mem bs k (g\<lparr>gi_appBits := n\<rparr>) = reads mem bs k g" "reads mem bs k (g\<lparr>gi_errorCode := e\<rparr>) = reads mem bs k g"
  "reads mem bs k (g\<lparr>gi_H := H\<rparr>) = reads mem bs k g" "reads mem bs k (g\<lparr>gi_V := H\<rparr>) = reads mem bs k g"
  "reads mem bs k (g\<lparr>gi_init := e\<rparr>) = reads mem bs k g"
  "reads mem bs k (add_appBits n g) = reads mem bs k g" "reads mem bs k (gi_info_update f g) = reads mem bs k g"
  "reads mem bs k (gi_c_update h g) = reads mem bs k g" "reads mem bs k (set_appnFlag v g) = reads mem bs k g"
  by (simp_all add: reads_def add_appBits_def set_appnFlag_def at_bytes_flag)

lemma be16_JFIF: "be16 0x4A46 = [0x4A, 0x46]" "be16 0x4946 = [0x49, 0x46]"
  by (simp_all add: be16_def)

definition jfif_effect :: "app_segment \<Rightarrow> info_vars \<Rightarrow> info_vars \<Rightarrow> bool" where
  "jfif_effect a g g' \<longleftrightarrow> gi_c g' = gi_c g \<and> gi_info g' = app_info a (gi_info g) \<and> gi_H g' = gi_H g \<and> gi_V g' = gi_V g \<and>
     gi_errorCode g' = gi_errorCode g \<and> gi_thumbnail g' = gi_thumbnail g \<and> gi_init g' = gi_init g \<and>
     gi_currentByte g' \<noteq> 0xFF \<and> st_appnFlag (gi_stream g') = 0"

lemma flush_rest_reads:
  assumes "reads mem (rest @ bs) k g" "k \<le> 8 * length bs" "gi_appLength g * 8 - gi_appBits g = 8 * of_nat (length rest)"
  shows "info_flush_rest_reset mem g = Continue (set_appnFlag 0 (gi_adv (length rest) (set_appnFlag 1 g)))"
    and "reads mem bs k (gi_adv (length rest) (set_appnFlag 1 g))"
proof -
  have r: "at_bytes mem (rest @ bs) k (gi_stream (set_appnFlag 1 g))"
    using assms(1) by (simp add: reads_def set_appnFlag_def at_bytes_flag)
  have "JpegDecFlushBits mem (gi_stream (set_appnFlag 1 g)) (8 * of_nat (length rest)) =
      (0, strm_adv (length rest) (gi_stream (set_appnFlag 1 g)))"
    by (rule at_bytes_flush_rest [OF r]) (use assms(2) in \<open>simp_all add: set_appnFlag_def\<close>)
  then have "gi_flush mem (8 * of_nat (length rest)) (set_appnFlag 1 g) = (0, gi_adv (length rest) (set_appnFlag 1 g))"
    by (simp add: gi_flush_def gi_adv_def)
  then show "info_flush_rest_reset mem g = Continue (set_appnFlag 0 (gi_adv (length rest) (set_appnFlag 1 g)))"
    using assms(3) by (simp add: info_flush_rest_reset_def STRM_ERROR_def)
  show "reads mem bs k (gi_adv (length rest) (set_appnFlag 1 g))"
    using at_bytes_adv [OF r, of "length rest"] assms(2) by (simp add: reads_def)
qed

lemma unit_code:
  "(if ucast (b :: u8) = (0 :: u32) \<or> ucast b = (1 :: u32) \<or> ucast b = (2 :: u32) then ucast b else i) =
    (if b \<le> 2 then ucast b else i)"
proof -
  have "unat (ucast b :: u32) = unat b" by (rule u8_unat)
  then show ?thesis by (simp add: word_unat_eq_iff word_le_nat_alt)
qed

lemma byte_FF: "ucast (b :: u8) = (0xFF :: u32) \<longleftrightarrow> b = 0xFF"
proof -
  have "unat (ucast b :: u32) = unat b" by (rule u8_unat)
  then show ?thesis by (simp add: word_unat_eq_iff)
qed

lemma JFIF_reads:
  assumes "reads mem (be16 version @ [unit] @ be16 x @ be16 y @ rest @ bs) k g" "k \<le> 8 * length bs"
    "app_ok (JFIF version unit x y rest)" "gi_appLength g = of_nat (14 + length rest)" "gi_appBits g = 56"
  shows "\<exists>g'. info_JFIF mem g = Continue g' \<and> reads mem bs k g' \<and> jfif_effect (JFIF version unit x y rest) g g'"
proof -
  have ok: "version < 65536" "x < 65536" "y < 65536" "unit \<noteq> 0xFF" using assms(3) by simp_all
  have le: "k \<le> 8 * length ([unit] @ be16 x @ be16 y @ rest @ bs)" "k \<le> 8 * length (be16 x @ be16 y @ rest @ bs)"
    "k \<le> 8 * length (be16 y @ rest @ bs)" "k \<le> 8 * length (rest @ bs)" using assms(2) by simp_all
  note r1 = gi_2bytes_reads [OF assms(1) ok(1) le(1)]
  let ?g1 = "add_appBits 16 (gi_info_update (\<lambda>i. i\<lparr>ii_version := of_nat version\<rparr>) (gi_adv 2 g))"
  have "reads mem (unit # be16 x @ be16 y @ rest @ bs) k ?g1" using r1(2) by simp
  note r2 = gi_byte_reads [OF this le(2)]
  let ?g2 = "add_appBits 8 (gi_info_update (\<lambda>i. i\<lparr>ii_units := (if unit \<le> 2 then ucast unit else ii_units i)\<rparr>)
    ((gi_adv 1 ?g1)\<lparr>gi_currentByte := ucast unit\<rparr>))"
  have "reads mem (be16 x @ be16 y @ rest @ bs) k ?g2" using r2(2) by simp
  note r3 = gi_2bytes_reads [OF this ok(2) le(3)]
  let ?g3 = "add_appBits 16 (gi_info_update (\<lambda>i. i\<lparr>ii_xDensity := of_nat x\<rparr>) (gi_adv 2 ?g2))"
  have "reads mem (be16 y @ rest @ bs) k ?g3" using r3(2) by simp
  note r4 = gi_2bytes_reads [OF this ok(3) le(4)]
  let ?g4 = "add_appBits 16 (gi_info_update (\<lambda>i. i\<lparr>ii_yDensity := of_nat y\<rparr>) (gi_adv 2 ?g3))"
  have r: "reads mem (rest @ bs) k ?g4" using r4(2) by simp
  have bits: "gi_appLength ?g4 * 8 - gi_appBits ?g4 = 8 * of_nat (length rest)"
    using assms(4,5) by (simp add: add_appBits_def algebra_simps)
  note f = flush_rest_reads [OF r assms(2) bits]
  let ?g5 = "set_appnFlag 0 (gi_adv (length rest) (set_appnFlag 1 ?g4))"
  have u: "(if ucast unit = (0 :: u32) \<or> ucast unit = (1 :: u32) \<or> ucast unit = (2 :: u32) then ucast unit else i) =
      (if unit \<le> 2 then ucast unit else i :: u32)" for i
    by (rule unit_code)
  have "ucast unit \<noteq> (0xFF :: u32)" using ok(4) byte_FF by blast
  then have "jfif_effect (JFIF version unit x y rest) g ?g5"
    by (simp add: jfif_effect_def add_appBits_def set_appnFlag_def)
  moreover have "info_JFIF mem g = Continue ?g5"
    unfolding info_JFIF_def Let_def r1(1) prod.case r2(1) u r3(1) r4(1) f(1) ..
  ultimately show ?thesis using f(2) by (intro exI [of _ ?g5]) simp
qed

lemma pass_JFIF:
  assumes "between mem (app_bytes (JFIF version unit x y rest) @ bs) k g" "k \<le> 8 * length bs" "app_ok (JFIF version unit x y rest)"
  shows "\<exists>g'. info_pass fuel mem inp (left, g) = Continue (False, g') \<and> between mem bs (k + 1) g' \<and>
    gi_c g' = gi_c g \<and> gi_info g' = app_info (JFIF version unit x y rest) (gi_info g) \<and> gi_H g' = gi_H g \<and> gi_V g' = gi_V g"
proof -
  let ?pay = "be16 version @ [unit] @ be16 x @ be16 y @ rest"
  let ?xs = "be16 0x4A46 @ be16 0x4946 @ [0] @ ?pay"
  have len: "length ?xs = 12 + length rest" by (simp add: be16_def)
  have xs: "length ?xs < 65534" "(of_nat (2 + length ?xs) :: u32) = of_nat (14 + length rest)"
    using assms(3) by (simp_all add: be16_def)
  let ?t = "be16 (2 + length ?xs) @ ?xs @ bs"
  have l2: "2 + length ?xs = 14 + length rest" unfolding len by simp
  have t: "app_bytes (JFIF version unit x y rest) @ bs = 0xFF # 0xE0 # ?t" unfolding l2 by (simp add: be16_JFIF)
  have b: "between mem (0xFF # 0xE0 # ?t) k g" using assms(1) unfolding t .
  have b2: "k \<le> 8 * length ?t" using assms(2) by simp
  note b = b b2
  let ?g = "(gi_adv 2 g)\<lparr>gi_currentByte := ucast (0xE0 :: u8)\<rparr>"
  let ?ga = "set_appnFlag 0 (?g\<lparr>gi_appBits := 0, gi_appLength := 0\<rparr>)"
  have "reads mem ?t k ?ga" using pass_at_marker(2) [OF b] by simp
  note l = with_length_reads [OF this assms(2) xs(1)]
  let ?g1 = "add_appBits 16 ((gi_adv 2 ?ga)\<lparr>gi_appLength := of_nat (14 + length rest)\<rparr>)"
  have "reads mem (be16 0x4A46 @ be16 0x4946 @ [0] @ ?pay @ bs) k ?g1" using l(2) by simp
  then have i1: "gi_2bytes mem ?g1 = (0x4A46, gi_adv 2 ?g1)" "reads mem (be16 0x4946 @ [0] @ ?pay @ bs) k (gi_adv 2 ?g1)"
    using gi_2bytes_reads [where n = "0x4A46" and bs = "be16 0x4946 @ [0] @ ?pay @ bs" and g = ?g1 and k = k and mem = mem] assms(2) by simp_all
  let ?g2 = "add_appBits 16 (gi_adv 2 ?g1)"
  have i2: "gi_2bytes mem ?g2 = (0x4946, gi_adv 2 ?g2)" "reads mem (0 # ?pay @ bs) k (gi_adv 2 ?g2)"
    using gi_2bytes_reads [where n = "0x4946" and bs = "0 # ?pay @ bs" and g = ?g2 and k = k and mem = mem] i1(2) assms(2) by simp_all
  let ?g3 = "add_appBits 16 (gi_adv 2 ?g2)"
  have i3: "gi_byte mem ?g3 = (0, gi_adv 1 ?g3)" "reads mem (?pay @ bs) k (gi_adv 1 ?g3)"
    using gi_byte_reads [where b = 0 and bs = "?pay @ bs" and g = ?g3 and k = k and mem = mem] i2(2) assms(2) by simp_all
  let ?g4 = "add_appBits 8 ((gi_adv 1 ?g3)\<lparr>gi_currentByte := 0\<rparr>)"
  have "reads mem (be16 version @ [unit] @ be16 x @ be16 y @ rest @ bs) k ?g4" using i3(2) by simp
  then obtain g5 where g5: "info_JFIF mem ?g4 = Continue g5" "reads mem bs k g5" "jfif_effect (JFIF version unit x y rest) ?g4 g5"
    using JFIF_reads [OF _ assms(2,3), of mem ?g4] by (auto simp: add_appBits_def set_appnFlag_def)
  have thumb: "\<not> gi_thumbnail ?g4" using assms(1) by (simp add: between_def add_appBits_def set_appnFlag_def)
  have long: "\<not> (of_nat (14 + length rest) :: u32) < 16"
  proof -
    have "unat (of_nat (14 + length rest) :: u32) = 14 + length rest" by (simp only: unat_of_nat) (use assms(3) in simp)
    then show ?thesis using assms(3) by (simp add: word_less_nat_alt)
  qed
  have "info_APP0_identifier fuel mem inp ((gi_adv 2 ?ga)\<lparr>gi_appLength := of_nat (14 + length rest)\<rparr>) = Continue g5"
    unfolding info_APP0_identifier_def Let_def i1(1) prod.case i2(1) i3(1) using thumb g5(1) i2(1) i3(1) by simp
  then have "info_APP0 fuel mem inp ?g = Continue g5"
    unfolding info_APP0_def l(1) Let_def xs(2) using long by simp
  moreover have "info_marker fuel mem inp ?g = info_APP0 fuel mem inp ?g"
    by (simp add: info_marker_def Let_def marker_defs)
  ultimately have m: "info_marker fuel mem inp ?g = Continue g5" by simp
  have e: "gi_c g5 = gi_c g" "gi_info g5 = app_info (JFIF version unit x y rest) (gi_info g)" "gi_H g5 = gi_H g" "gi_V g5 = gi_V g"
    "\<not> gi_errorCode g5" "\<not> gi_thumbnail g5" "\<not> gi_init g5" "gi_currentByte g5 \<noteq> 0xFF" "st_appnFlag (gi_stream g5) = 0"
    using g5(3) assms(1) by (simp_all add: jfif_effect_def add_appBits_def set_appnFlag_def between_def)
  have "between mem bs (k + 1) (next_bit g5)" by (rule between_next [OF g5(2) assms(2)]) (simp_all add: e)
  then show ?thesis using pass_at_marker(1) [OF b, of fuel inp left] e m by auto
qed

lemma pass_app:
  assumes "between mem (app_bytes a @ bs) k g" "k \<le> 8 * length bs" "app_ok a"
  shows "\<exists>g'. info_pass fuel mem inp (left, g) = Continue (False, g') \<and> between mem bs (k + 1) g' \<and>
    gi_c g' = gi_c g \<and> gi_info g' = app_info a (gi_info g) \<and> gi_H g' = gi_H g \<and> gi_V g' = gi_V g"
proof (cases a)
  case (Plain m p)
  then show ?thesis using pass_Plain [of mem m p bs k g fuel inp left] assms by simp
next
  case (JFIF version unit x y rest)
  show ?thesis using pass_JFIF [of mem version unit x y rest bs k g fuel inp left] assms unfolding JFIF by blast
qed

section \<open>Several segments\<close>

lemma info_more_between:
  assumes "between mem bs k g" "k < 8 * length bs"
  shows "info_more (False, g)"
proof -
  have "unat (st_readBits (gi_stream g)) + 8 * length bs = 8 * unat (st_streamLength (gi_stream g)) + k"
    using assms(1) by (simp add: between_def reads_def at_bytes_def)
  then have "unat (st_readBits (gi_stream g)) div 8 < unat (st_streamLength (gi_stream g))" using assms(2) by linarith
  then show ?thesis by (simp add: info_more_def word_less_nat_alt unat_div)
qed

lemma passes_apps:
  assumes "between mem (concat (map app_bytes as) @ bs) k g" "list_all app_ok as" "k + length as \<le> 8 * length bs"
  shows "\<exists>g'. whileLoop (n + length as) info_more (info_pass fuel mem inp) (False, g) =
      whileLoop n info_more (info_pass fuel mem inp) (False, g') \<and> between mem bs (k + length as) g' \<and>
    gi_c g' = gi_c g \<and> gi_info g' = fold app_info as (gi_info g) \<and> gi_H g' = gi_H g \<and> gi_V g' = gi_V g"
  using assms
proof (induction as arbitrary: k g)
  case Nil
  then show ?case by auto
next
  case (Cons a as)
  let ?t = "concat (map app_bytes as) @ bs"
  have b: "between mem (app_bytes a @ ?t) k g" "k \<le> 8 * length ?t" "app_ok a" using Cons.prems by simp_all
  obtain g1 where g1: "info_pass fuel mem inp (False, g) = Continue (False, g1)" "between mem ?t (k + 1) g1"
    "gi_c g1 = gi_c g" "gi_info g1 = app_info a (gi_info g)" "gi_H g1 = gi_H g" "gi_V g1 = gi_V g"
    using pass_app [OF b] by blast
  have "app_bytes a \<noteq> []" by (cases a) simp_all
  then have "info_more (False, g)" using b(1,2) by (intro info_more_between [OF b(1)]) (simp add: less_Suc_eq_le order.strict_trans1)
  then have "whileLoop (n + length (a # as)) info_more (info_pass fuel mem inp) (False, g) =
      whileLoop (n + length as) info_more (info_pass fuel mem inp) (False, g1)" using g1(1) by simp
  moreover have "\<exists>g'. whileLoop (n + length as) info_more (info_pass fuel mem inp) (False, g1) =
      whileLoop n info_more (info_pass fuel mem inp) (False, g') \<and> between mem bs (k + 1 + length as) g' \<and>
    gi_c g' = gi_c g1 \<and> gi_info g' = fold app_info as (gi_info g1) \<and> gi_H g' = gi_H g1 \<and> gi_V g' = gi_V g1"
    by (rule Cons.IH [OF g1(2)]) (use Cons.prems in simp_all)
  ultimately show ?case using g1(3-6) by (simp add: add.assoc)
qed

section \<open>The frame header\<close>

record frame_hdr =
  fh_progressive :: bool
  fh_y :: nat
  fh_x :: nat
  fh_comps :: "(u8 \<times> u8 \<times> u8) list"

definition frame_bytes :: "frame_hdr \<Rightarrow> u8 list" where
  "frame_bytes f =
     [0xFF, if fh_progressive f then 0xC2 else 0xC0] @ be16 (8 + 3 * length (fh_comps f)) @ [8] @ be16 (fh_y f) @
     be16 (fh_x f) @ [of_nat (length (fh_comps f))] @ concat (map (\<lambda>(i, s, q). [i, s, q]) (fh_comps f))"

definition fh_H :: "frame_hdr \<Rightarrow> u32 list" where
  "fh_H f = map (\<lambda>(i, s, q). drop_bit 4 (ucast s)) (fh_comps f) @ replicate (3 - length (fh_comps f)) 0"

definition fh_V :: "frame_hdr \<Rightarrow> u32 list" where
  "fh_V f = map (\<lambda>(i, s, q). ucast s AND 0xF) (fh_comps f) @ replicate (3 - length (fh_comps f)) 0"

definition fh_mode :: "frame_hdr \<Rightarrow> u32" where
  "fh_mode f = (if fh_progressive f then JPEGDEC_PROGRESSIVE else JPEGDEC_BASELINE)"

text \<open>Height and width in whole blocks; a 4:1:1 picture has twice as wide ones.\<close>

definition fh_rows :: "frame_hdr \<Rightarrow> u32" where
  "fh_rows f = round_up_16 (of_nat (fh_y f))"

definition fh_columns :: "u32 \<Rightarrow> frame_hdr \<Rightarrow> u32" where
  "fh_columns fmt f = (let w = round_up_16 (of_nat (fh_x f))
     in if fmt = JPEGDEC_YCbCr411_SEMIPLANAR \<and> w AND 0x1F \<noteq> 0 then w + 16 else w)"

definition frame_fits :: "JpegDecContainer \<Rightarrow> u32 \<Rightarrow> frame_hdr \<Rightarrow> bool" where
  "frame_fits c fmt f \<longleftrightarrow> (let w = round_up_16 (of_nat (fh_x f)); h = fh_rows f in
     c_minSupportedWidth c \<le> w \<and> c_minSupportedHeight c \<le> h \<and> w \<le> c_maxSupportedWidth c \<and> h \<le> c_maxSupportedHeight c \<and>
     w * h \<le> c_maxSupportedPixelAmount c \<and> fh_columns fmt f \<le> c_maxSupportedWidth c \<and>
     fh_columns fmt f * h \<le> c_maxSupportedPixelAmount c)"

definition frame_ok :: "JpegDecContainer \<Rightarrow> u32 \<Rightarrow> frame_hdr \<Rightarrow> bool" where
  "frame_ok c fmt f \<longleftrightarrow> 1 \<le> fh_y f \<and> fh_y f < 65536 \<and> 1 \<le> fh_x f \<and> fh_x f < 65536 \<and>
     (length (fh_comps f) = 1 \<or> length (fh_comps f) = 3) \<and>
     list_all (\<lambda>(i, s, q). i \<noteq> 0xFF \<and> s \<noteq> 0xFF \<and> q \<noteq> 0xFF) (fh_comps f) \<and>
     info_format (c_extensionsSupported c \<noteq> 0) (fh_H f) (fh_V f) = Some fmt \<and> frame_fits c fmt f"

definition frame_c :: "u32 \<Rightarrow> frame_hdr \<Rightarrow> JpegDecContainer \<Rightarrow> JpegDecContainer" where
  "frame_c fmt f c =
     c_info_update (\<lambda>i. i\<lparr>inf_operationType := fh_mode f, inf_yCbCrMode := fmt, inf_getInfoYCbCrMode := fmt\<rparr>)
       (c_frame_update (\<lambda>fr. fr\<lparr>fr_hwX := fh_columns fmt f, fr_hwY := fh_rows f,
          fr_numMcuInRow := fh_columns fmt f div fst (mcu_shape fmt),
          fr_numMcuInFrame := fh_columns fmt f * fh_rows f div snd (mcu_shape fmt)\<rparr>) c)"

definition frame_info :: "u32 \<Rightarrow> frame_hdr \<Rightarrow> JpegDecImageInfo \<Rightarrow> JpegDecImageInfo" where
  "frame_info fmt f i =
     i\<lparr>ii_displayWidth := of_nat (fh_x f), ii_displayHeight := of_nat (fh_y f), ii_outputWidth := fh_columns fmt f,
       ii_outputHeight := fh_rows f, ii_outputFormat := fmt, ii_codingMode := fh_mode f\<rparr>"

text \<open>One component.\<close>

definition sampling_step :: "nat \<Rightarrow> u8 \<Rightarrow> sampling_vars \<Rightarrow> sampling_vars" where
  "sampling_step j s v = v\<lparr>sv_H := (sv_H v)[j := drop_bit 4 (ucast s)], sv_V := (sv_V v)[j := ucast s AND 0xF],
     sv_Hmax := max (drop_bit 4 (ucast s)) (sv_Hmax v), sv_Vmax := max (ucast s AND 0xF) (sv_Vmax v)\<rparr>"

lemma sampling_one_reads:
  assumes "reads mem (i # s # q # bs) k g" "k \<le> 8 * length bs" "i \<noteq> 0xFF" "q \<noteq> 0xFF" "st_appnFlag (gi_stream g) = 0"
  shows "sampling_one mem j (v, g) = (sampling_step j s v, (gi_adv 3 g)\<lparr>gi_currentByte := ucast s\<rparr>)"
    and "reads mem bs k ((gi_adv 3 g)\<lparr>gi_currentByte := ucast s\<rparr>)"
proof -
  have l: "k \<le> 8 * length (s # q # bs)" "k \<le> 8 * length (q # bs)" using assms(2) by simp_all
  note r1 = gi_flush8_reads [OF assms(1) l(1) assms(3,5)]
  note r2 = gi_byte_reads [OF r1(2) l(2)]
  let ?g2 = "(gi_adv 1 (gi_adv 1 g))\<lparr>gi_currentByte := ucast s\<rparr>"
  have "reads mem (q # bs) k ?g2" using r2(2) by simp
  note r3 = gi_flush8_reads [OF this assms(2,4)]
  have e: "gi_adv 1 ?g2 = (gi_adv 3 g)\<lparr>gi_currentByte := ucast s\<rparr>"
    by (simp add: gi_adv_def strm_adv_adv o_def numeral_3_eq_3)
  have f: "st_appnFlag (gi_stream ?g2) = 0" using assms(5) by simp
  show "sampling_one mem j (v, g) = (sampling_step j s v, (gi_adv 3 g)\<lparr>gi_currentByte := ucast s\<rparr>)"
    unfolding sampling_one_def prod.case r1(1) Let_def r2(1) r3(1) [OF f] e
    by (simp add: sampling_step_def STRM_ERROR_def max_def)
  show "reads mem bs k ((gi_adv 3 g)\<lparr>gi_currentByte := ucast s\<rparr>)" using r3(2) [OF f] unfolding e .
qed

fun sampling_steps :: "nat \<Rightarrow> (u8 \<times> u8 \<times> u8) list \<Rightarrow> sampling_vars \<Rightarrow> sampling_vars" where
  "sampling_steps j [] v = v"
| "sampling_steps j ((i, s, q) # cs) v = sampling_steps (Suc j) cs (sampling_step j s v)"

lemma sampling_step_left [simp]: "sv_left (sampling_step j s v) = sv_left v"
  by (simp add: sampling_step_def)

text \<open>Only the stream and currentByte change.\<close>

definition moved :: "info_vars \<Rightarrow> info_vars \<Rightarrow> bool" where
  "moved g g' \<longleftrightarrow> (\<exists>n b. b \<noteq> 0xFF \<and> g' = (gi_adv n g)\<lparr>gi_currentByte := b\<rparr>)"

lemma moved_trans:
  assumes "moved g g'" "moved g' g''"
  shows "moved g g''"
proof -
  obtain n b m d where g: "g' = (gi_adv n g)\<lparr>gi_currentByte := b\<rparr>" "g'' = (gi_adv m g')\<lparr>gi_currentByte := d\<rparr>" "d \<noteq> 0xFF"
    using assms by (auto simp: moved_def)
  have "(gi_adv m ((gi_adv n g)\<lparr>gi_currentByte := b\<rparr>))\<lparr>gi_currentByte := d\<rparr> = (gi_adv (n + m) g)\<lparr>gi_currentByte := d\<rparr>"
    by (simp add: gi_adv_def strm_adv_adv o_def)
  then show ?thesis using g unfolding moved_def by blast
qed

lemma sampling_fold_reads:
  assumes "reads mem (concat (map (\<lambda>(i, s, q). [i, s, q]) cs) @ bs) k g" "k \<le> 8 * length bs"
    "list_all (\<lambda>(i, s, q). i \<noteq> 0xFF \<and> s \<noteq> 0xFF \<and> q \<noteq> 0xFF) cs" "st_appnFlag (gi_stream g) = 0" "\<not> sv_left v"
    "gi_currentByte g \<noteq> 0xFF"
  shows "\<exists>g'. fold (\<lambda>j (v, g). if sv_left v then (v, g) else sampling_one mem j (v, g)) [j..<j + length cs] (v, g) =
      (sampling_steps j cs v, g') \<and> reads mem bs k g' \<and> moved g g'"
  using assms
proof (induction cs arbitrary: j v g)
  case Nil
  have "g = (gi_adv 0 g)\<lparr>gi_currentByte := gi_currentByte g\<rparr>" by (simp add: gi_adv_def strm_adv_def)
  then have "moved g g" using Nil.prems(6) unfolding moved_def by metis
  then show ?case using Nil.prems by simp
next
  case (Cons c cs)
  obtain i s q where c: "c = (i, s, q)" by (cases c)
  let ?t = "concat (map (\<lambda>(i, s, q). [i, s, q]) cs) @ bs" and ?g = "(gi_adv 3 g)\<lparr>gi_currentByte := ucast s\<rparr>"
  have r: "reads mem (i # s # q # ?t) k g" "k \<le> 8 * length ?t" "i \<noteq> 0xFF" "q \<noteq> 0xFF" "s \<noteq> 0xFF"
    using Cons.prems(1,2,3) by (simp_all add: c)
  note one = sampling_one_reads [OF r(1-4) Cons.prems(4)]
  have s: "ucast s \<noteq> (0xFF :: u32)" using r(5) byte_FF by blast
  have m: "moved g ?g" using s unfolding moved_def by blast
  have "\<exists>g'. fold (\<lambda>j (v, g). if sv_left v then (v, g) else sampling_one mem j (v, g)) [Suc j..<Suc j + length cs] (sampling_step j s v, ?g) =
      (sampling_steps (Suc j) cs (sampling_step j s v), g') \<and> reads mem bs k g' \<and> moved ?g g'"
    by (rule Cons.IH [OF one(2) Cons.prems(2)]) (use Cons.prems(3-5) s in \<open>simp_all add: c\<close>)
  then obtain g' where g': "fold (\<lambda>j (v, g). if sv_left v then (v, g) else sampling_one mem j (v, g)) [Suc j..<Suc j + length cs] (sampling_step j s v, ?g) =
      (sampling_steps (Suc j) cs (sampling_step j s v), g')" "reads mem bs k g'" "moved ?g g'" by blast
  have "[j..<j + length (c # cs)] = j # [Suc j..<Suc j + length cs]" using upt_conv_Cons [of j "j + length (c # cs)"] by simp
  then have "fold (\<lambda>j (v, g). if sv_left v then (v, g) else sampling_one mem j (v, g)) [j..<j + length (c # cs)] (v, g) =
      (sampling_steps j (c # cs) v, g')" using g'(1) one(1) Cons.prems(5) by (simp add: c del: upt_Suc)
  then show ?case using g'(2) moved_trans [OF m g'(3)] by blast
qed

text \<open>The factors of one or of three components, and that a largest one is found.\<close>

lemma sampling_steps_result:
  fixes f :: frame_hdr
  assumes "length (fh_comps f) = 1 \<or> length (fh_comps f) = 3"
  defines "v \<equiv> sampling_steps 0 (fh_comps f) (sampling_start [0, 0, 0] [0, 0, 0])"
  shows "sv_H v = fh_H f" "sv_V v = fh_V f" "fh_H f ! 0 \<le> sv_Hmax v" "fh_V f ! 0 \<le> sv_Vmax v"
proof -
  consider i s q where "fh_comps f = [(i, s, q)]"
    | i s q j t p l u o' where "fh_comps f = [(i, s, q), (j, t, p), (l, u, o')]"
    using assms(1) by (auto simp: length_Suc_conv numeral_3_eq_3)
  then have "sv_H v = fh_H f \<and> sv_V v = fh_V f \<and> fh_H f ! 0 \<le> sv_Hmax v \<and> fh_V f ! 0 \<le> sv_Vmax v"
    by cases (simp_all add: v_def sampling_step_def sampling_start_def fh_H_def fh_V_def numeral_2_eq_2 numeral_3_eq_3 le_max_iff_disj)
  then show "sv_H v = fh_H f" "sv_V v = fh_V f" "fh_H f ! 0 \<le> sv_Hmax v" "fh_V f ! 0 \<le> sv_Vmax v" by simp_all
qed

lemma info_format_factors: "info_format ext H V = Some fmt \<Longrightarrow> 1 \<le> H ! 0 \<and> 1 \<le> V ! 0"
  by (auto simp: info_format_def split: if_splits)

definition sized :: "u32 \<Rightarrow> u32 \<Rightarrow> frame_hdr \<Rightarrow> info_vars \<Rightarrow> info_vars \<Rightarrow> bool" where
  "sized w h f g g' \<longleftrightarrow>
     gi_c g' = c_frame_update (\<lambda>fr. fr\<lparr>fr_hwX := w, fr_hwY := h\<rparr>) (c_info_update (\<lambda>i. i\<lparr>inf_operationType := fh_mode f\<rparr>) (gi_c g)) \<and>
     gi_info g' = (gi_info g)\<lparr>ii_displayWidth := of_nat (fh_x f), ii_displayHeight := of_nat (fh_y f), ii_outputWidth := w,
       ii_outputHeight := h, ii_codingMode := fh_mode f\<rparr> \<and>
     gi_H g' = gi_H g \<and> gi_V g' = gi_V g \<and> gi_errorCode g' = gi_errorCode g \<and> gi_thumbnail g' = gi_thumbnail g \<and>
     gi_init g' = gi_init g \<and> gi_currentByte g' = 8 \<and> st_appnFlag (gi_stream g') = st_appnFlag (gi_stream g)"

lemma nat_not_less_1: "1 \<le> n \<Longrightarrow> n < 65536 \<Longrightarrow> \<not> (of_nat n :: u32) < 1"
proof
  assume n: "1 \<le> n" "n < 65536" and "(of_nat n :: u32) < 1"
  then have "unat (of_nat n :: u32) < 1" by (simp add: word_less_nat_alt)
  moreover have "unat (of_nat n :: u32) = n" by (simp only: unat_of_nat) (use n in simp)
  ultimately show False using n by simp
qed

lemma frame_sizes_read:
  assumes "reads mem ([8] @ be16 (fh_y f) @ be16 (fh_x f) @ bs) k g" "k \<le> 8 * length bs"
    "1 \<le> fh_y f" "fh_y f < 65536" "1 \<le> fh_x f" "fh_x f < 65536"
    "gi_c g = c_info_update (\<lambda>i. i\<lparr>inf_operationType := fh_mode f\<rparr>) (gi_c g1)"
    "gi_info g = (gi_info g1)\<lparr>ii_codingMode := fh_mode f\<rparr>"
    "gi_H g = gi_H g1" "gi_V g = gi_V g1" "gi_errorCode g = gi_errorCode g1" "gi_thumbnail g = gi_thumbnail g1"
    "gi_init g = gi_init g1" "st_appnFlag (gi_stream g) = st_appnFlag (gi_stream g1)"
  shows "\<exists>g'. (let (currentByte, g) = gi_byte mem g; g = g\<lparr>gi_currentByte := currentByte\<rparr>
      in if currentByte \<noteq> 8 then Return (JPEGDEC_UNSUPPORTED, g)
         else andThen (info_lines mem g) (\<lambda>g. andThen (info_samples mem g) F)) = F g' \<and> reads mem bs k g' \<and>
      sized (round_up_16 (of_nat (fh_x f))) (fh_rows f) f g1 g'"
proof -
  let ?y = "of_nat (fh_y f) :: u32" and ?x = "of_nat (fh_x f) :: u32"
  have l: "k \<le> 8 * length (be16 (fh_y f) @ be16 (fh_x f) @ bs)" "k \<le> 8 * length (be16 (fh_x f) @ bs)"
    using assms(2) by simp_all
  have r1: "gi_byte mem g = (8, gi_adv 1 g)" "reads mem (be16 (fh_y f) @ be16 (fh_x f) @ bs) k (gi_adv 1 g)"
    using gi_byte_reads [where b = 8 and bs = "be16 (fh_y f) @ be16 (fh_x f) @ bs" and mem = mem and k = k and g = g] assms(1) l(1) by simp_all
  let ?ga = "(gi_adv 1 g)\<lparr>gi_currentByte := 8\<rparr>"
  have "reads mem (be16 (fh_y f) @ be16 (fh_x f) @ bs) k ?ga" using r1(2) by simp
  note r2 = gi_2bytes_reads [OF this assms(4) l(2)]
  let ?gb = "gi_c_update (c_frame_update (\<lambda>f. f\<lparr>fr_hwY := round_up_16 ?y\<rparr>)) (gi_info_update (\<lambda>i. i\<lparr>ii_outputHeight := round_up_16 ?y\<rparr>)
    (gi_info_update (\<lambda>i. i\<lparr>ii_outputHeight := ?y, ii_displayHeight := ?y\<rparr>) (gi_adv 2 ?ga)))"
  have s2: "info_lines mem ?ga = Continue ?gb"
    unfolding info_lines_def r2(1) prod.case Let_def using nat_not_less_1 [OF assms(3,4)] by simp
  have "reads mem (be16 (fh_x f) @ bs) k ?gb" using r2(2) by simp
  note r3 = gi_2bytes_reads [OF this assms(6,2)]
  let ?gc = "gi_c_update (c_frame_update (\<lambda>f. f\<lparr>fr_hwX := round_up_16 ?x\<rparr>)) (gi_info_update (\<lambda>i. i\<lparr>ii_outputWidth := round_up_16 ?x\<rparr>)
    (gi_info_update (\<lambda>i. i\<lparr>ii_outputWidth := ?x, ii_displayWidth := ?x\<rparr>) (gi_adv 2 ?gb)))"
  have s3: "info_samples mem ?gb = Continue ?gc"
    unfolding info_samples_def r3(1) prod.case Let_def using nat_not_less_1 [OF assms(5,6)] by simp
  have "sized (round_up_16 ?x) (fh_rows f) f g1 ?gc" using assms(7-) by (simp add: sized_def fh_rows_def)
  moreover have "reads mem bs k ?gc" using r3(2) by simp
  ultimately show ?thesis
    by (intro exI [of _ ?gc]) (simp only: r1(1) prod.case Let_def s2 s3 andThen.simps simp_thms if_False)
qed

text \<open>The components, and the format they give.\<close>

lemma frame_format_set:
  assumes "sized (round_up_16 (of_nat (fh_x f))) (fh_rows f) f g1 g2" "frame_ok (gi_c g1) fmt f" "gi_H g = fh_H f" "gi_V g = fh_V f"
    "gi_c g = gi_c g2" "gi_info g = gi_info g2"
  shows "\<exists>g'. info_check_format g = Continue g' \<and> gi_c g' = frame_c fmt f (gi_c g1) \<and> gi_info g' = frame_info fmt f (gi_info g1) \<and>
    g' = g\<lparr>gi_c := gi_c g', gi_info := gi_info g'\<rparr>"
proof -
  let ?w = "round_up_16 (of_nat (fh_x f)) :: u32"
  have c: "gi_c g = c_frame_update (\<lambda>fr. fr\<lparr>fr_hwX := ?w, fr_hwY := fh_rows f\<rparr>) (c_info_update (\<lambda>i. i\<lparr>inf_operationType := fh_mode f\<rparr>) (gi_c g1))"
    and i: "gi_info g = (gi_info g1)\<lparr>ii_displayWidth := of_nat (fh_x f), ii_displayHeight := of_nat (fh_y f), ii_outputWidth := ?w,
       ii_outputHeight := fh_rows f, ii_codingMode := fh_mode f\<rparr>"
    using assms(1,5,6) by (simp_all add: sized_def)
  have fmt: "info_format (c_extensionsSupported (gi_c g) \<noteq> 0) (gi_H g) (gi_V g) = Some fmt"
    using assms(2-4) by (simp add: c frame_ok_def)
  define g3 where "g3 = gi_c_update (c_frame_update (\<lambda>fr. fr\<lparr>fr_hwX := fh_columns fmt f\<rparr>))
    (gi_info_update (\<lambda>i. i\<lparr>ii_outputWidth := fh_columns fmt f\<rparr>) g)"
  have fits: "frame_fits (gi_c g1) fmt f" using assms(2) by (simp add: frame_ok_def)
  have w: "(if fmt = JPEGDEC_YCbCr411_SEMIPLANAR then info_411 g else Continue g) = Continue g3"
  proof (cases "fmt = JPEGDEC_YCbCr411_SEMIPLANAR")
    case False
    then show ?thesis by (simp add: g3_def fh_columns_def c i)
  next
    case True
    then show ?thesis using fits
      by (auto simp: info_411_def g3_def fh_columns_def c i frame_fits_def Let_def not_less)
  qed
  have "info_check_format g = Continue (info_set_format fmt g3)" using w by (simp add: info_check_format_def fmt)
  moreover have "gi_c (info_set_format fmt g3) = frame_c fmt f (gi_c g1)" "gi_info (info_set_format fmt g3) = frame_info fmt f (gi_info g1)"
    by (simp_all add: info_set_format_def g3_def frame_c_def frame_info_def c i split: prod.split)
  moreover have "info_set_format fmt g3 = g\<lparr>gi_c := gi_c (info_set_format fmt g3), gi_info := gi_info (info_set_format fmt g3)\<rparr>"
    by (simp add: info_set_format_def g3_def split: prod.split)
  ultimately show ?thesis by blast
qed

lemma components_read:
  assumes "reads mem ([of_nat (length (fh_comps f))] @ concat (map (\<lambda>(i, s, q). [i, s, q]) (fh_comps f)) @ bs) k g" "k \<le> 8 * length bs"
    "sized (round_up_16 (of_nat (fh_x f))) (fh_rows f) f g1 g" "frame_ok (gi_c g1) fmt f"
    "gi_H g = [0, 0, 0]" "gi_V g = [0, 0, 0]" "st_appnFlag (gi_stream g1) = 0"
  shows "\<exists>g'. info_components mem g = Continue g' \<and> reads mem bs k g' \<and> gi_c g' = frame_c fmt f (gi_c g1) \<and>
    gi_info g' = frame_info fmt f (gi_info g1) \<and> gi_currentByte g' \<noteq> 0xFF \<and> st_appnFlag (gi_stream g') = 0 \<and>
    gi_errorCode g' = gi_errorCode g1 \<and> gi_thumbnail g' = gi_thumbnail g1 \<and> gi_init g' = gi_init g1"
proof -
  let ?n = "length (fh_comps f)" and ?cs = "concat (map (\<lambda>(i, s, q). [i, s, q]) (fh_comps f))"
  have n: "?n = 1 \<or> ?n = 3" using assms(4) by (simp add: frame_ok_def)
  have b: "gi_byte mem g = (of_nat ?n, gi_adv 1 g)" "reads mem (?cs @ bs) k (gi_adv 1 g)"
    using gi_byte_reads [where b = "of_nat ?n" and bs = "?cs @ bs" and mem = mem and k = k and g = g] assms(1,2) n by auto
  let ?v = "sampling_steps 0 (fh_comps f) (sampling_start [0, 0, 0] [0, 0, 0])"
  have "\<exists>g'. fold (\<lambda>j (v, g). if sv_left v then (v, g) else sampling_one mem j (v, g)) [0..<0 + ?n] (sampling_start [0, 0, 0] [0, 0, 0], gi_adv 1 g) =
      (?v, g') \<and> reads mem bs k g' \<and> moved (gi_adv 1 g) g'"
    by (rule sampling_fold_reads [OF b(2) assms(2)])
      (use assms(3,4,7) in \<open>simp_all add: frame_ok_def sized_def sampling_start_def\<close>)
  then obtain g2 where g2: "sampling_factors mem ?n [0, 0, 0] [0, 0, 0] (gi_adv 1 g) = (?v, g2)" "reads mem bs k g2" "moved (gi_adv 1 g) g2"
    by (auto simp: sampling_factors_def)
  let ?g3 = "g2\<lparr>gi_H := fh_H f, gi_V := fh_V f\<rparr>"
  obtain m d where m: "g2 = (gi_adv m (gi_adv 1 g))\<lparr>gi_currentByte := d\<rparr>" "d \<noteq> 0xFF" using g2(3) by (auto simp: moved_def)
  have "\<exists>g'. info_check_format ?g3 = Continue g' \<and> gi_c g' = frame_c fmt f (gi_c g1) \<and> gi_info g' = frame_info fmt f (gi_info g1) \<and>
      g' = ?g3\<lparr>gi_c := gi_c g', gi_info := gi_info g'\<rparr>"
    by (rule frame_format_set [OF assms(3,4)]) (simp_all add: m(1))
  then obtain g' where g': "info_check_format ?g3 = Continue g'" "gi_c g' = frame_c fmt f (gi_c g1)" "gi_info g' = frame_info fmt f (gi_info g1)"
    "g' = ?g3\<lparr>gi_c := gi_c g', gi_info := gi_info g'\<rparr>" by blast
  note sr = sampling_steps_result [OF n]
  have "1 \<le> fh_H f ! 0 \<and> 1 \<le> fh_V f ! 0" using assms(4) info_format_factors unfolding frame_ok_def by blast
  then have h: "sv_Hmax ?v \<noteq> 0" "sv_Vmax ?v \<noteq> 0" using sr(3,4) by auto
  have u: "(of_nat ?n :: u32) = 3 \<or> (of_nat ?n :: u32) = 1" "unat (of_nat ?n :: u32) = ?n" using n by auto
  have "info_components mem g = Continue g'"
    unfolding info_components_def b(1) prod.case Let_def u(2)
    using u(1) g2(1) h g'(1) assms(5,6) by (simp add: sr(1,2))
  moreover have s: "gi_stream g' = gi_stream g2" "gi_currentByte g' = d" "gi_errorCode g' = gi_errorCode g" "gi_thumbnail g' = gi_thumbnail g"
    "gi_init g' = gi_init g"
    by (subst g'(4), simp add: m(1))+
  moreover have "reads mem bs k g'" using reads_stream [OF g2(2) s(1)] .
  ultimately show ?thesis using g'(2,3) m assms(3,7) by (simp add: sized_def)
qed

lemma pass_SOF:
  assumes "between mem (frame_bytes f @ bs) k g" "k \<le> 8 * length bs" "frame_ok (gi_c g) fmt f" "gi_H g = [0, 0, 0]" "gi_V g = [0, 0, 0]"
  shows "\<exists>g'. info_pass fuel mem inp (left, g) = Continue (False, g') \<and> between mem bs (k + 1) g' \<and>
    gi_c g' = frame_c fmt f (gi_c g) \<and> gi_info g' = frame_info fmt f (gi_info g)"
proof -
  let ?cs = "concat (map (\<lambda>(i, s, q). [i, s, q]) (fh_comps f))"
  let ?p = "[8] @ be16 (fh_y f) @ be16 (fh_x f) @ [of_nat (length (fh_comps f))] @ ?cs"
  let ?m = "if fh_progressive f then 0xC2 else 0xC0 :: u8"
  have l: "length ?p = 6 + 3 * length (fh_comps f)"
    by (induction "fh_comps f") (auto simp: be16_def length_concat o_def split_beta sum_list_triv)
  have lp: "2 + length ?p = 8 + 3 * length (fh_comps f)" unfolding l by simp
  let ?t = "be16 (2 + length ?p) @ ?p @ bs"
  have t: "frame_bytes f @ bs = 0xFF # ?m # ?t" unfolding frame_bytes_def lp by simp
  have b: "between mem (0xFF # ?m # ?t) k g" using assms(1) unfolding t .
  have b2: "k \<le> 8 * length ?t" using assms(2) by simp
  let ?g = "(gi_adv 2 g)\<lparr>gi_currentByte := ucast ?m\<rparr>"
  let ?gm = "gi_info_update (\<lambda>i. i\<lparr>ii_codingMode := fh_mode f\<rparr>) (gi_c_update (c_info_update (\<lambda>i. i\<lparr>inf_operationType := fh_mode f\<rparr>)) ?g)"
  have "reads mem ?t k ?gm" using pass_at_marker(2) [OF b b2] by simp
  moreover have "length ?p < 65534" using assms(3) unfolding l by (auto simp: frame_ok_def)
  ultimately have wl: "with_length mem F ?gm = F (of_nat (2 + length ?p)) (gi_adv 2 ?gm)" "reads mem (?p @ bs) k (gi_adv 2 ?gm)" for F
    using with_length_reads [OF _ assms(2)] by blast+
  let ?F = "\<lambda>g. if info_size_ok g then info_components mem g else Return (JPEGDEC_UNSUPPORTED, g)"
  let ?r = "[of_nat (length (fh_comps f))] @ ?cs @ bs"
  have "\<exists>g'. (let (currentByte, g) = gi_byte mem (gi_adv 2 ?gm); g = g\<lparr>gi_currentByte := currentByte\<rparr>
      in if currentByte \<noteq> 8 then Return (JPEGDEC_UNSUPPORTED, g)
         else andThen (info_lines mem g) (\<lambda>g. andThen (info_samples mem g) ?F)) = ?F g' \<and> reads mem ?r k g' \<and>
      sized (round_up_16 (of_nat (fh_x f))) (fh_rows f) f ?g g'"
    by (rule frame_sizes_read) (use wl(2) assms(2,3) in \<open>simp_all add: frame_ok_def\<close>)
  then obtain g2 where g2: "(let (currentByte, g) = gi_byte mem (gi_adv 2 ?gm); g = g\<lparr>gi_currentByte := currentByte\<rparr>
      in if currentByte \<noteq> 8 then Return (JPEGDEC_UNSUPPORTED, g)
         else andThen (info_lines mem g) (\<lambda>g. andThen (info_samples mem g) ?F)) = ?F g2" "reads mem ?r k g2"
      "sized (round_up_16 (of_nat (fh_x f))) (fh_rows f) f ?g g2" by blast
  have ok: "info_size_ok g2"
    using g2(3) assms(3) by (simp add: info_size_ok_def sized_def frame_ok_def frame_fits_def Let_def not_less)
  have "\<exists>g'. info_components mem g2 = Continue g' \<and> reads mem bs k g' \<and> gi_c g' = frame_c fmt f (gi_c ?g) \<and>
    gi_info g' = frame_info fmt f (gi_info ?g) \<and> gi_currentByte g' \<noteq> 0xFF \<and> st_appnFlag (gi_stream g') = 0 \<and>
    gi_errorCode g' = gi_errorCode ?g \<and> gi_thumbnail g' = gi_thumbnail ?g \<and> gi_init g' = gi_init ?g"
    by (rule components_read [OF g2(2) assms(2) g2(3)])
      (use assms g2(3) in \<open>simp_all add: sized_def between_def\<close>)
  then obtain g' where g': "info_components mem g2 = Continue g'" "reads mem bs k g'" "gi_c g' = frame_c fmt f (gi_c g)"
    "gi_info g' = frame_info fmt f (gi_info g)" "gi_currentByte g' \<noteq> 0xFF" "st_appnFlag (gi_stream g') = 0"
    "gi_errorCode g' = gi_errorCode g" "gi_thumbnail g' = gi_thumbnail g" "gi_init g' = gi_init g" by auto
  have mode: "(if gi_currentByte ?g = SOF0 then JPEGDEC_BASELINE else JPEGDEC_PROGRESSIVE) = fh_mode f"
    by (simp add: fh_mode_def marker_defs)
  have "info_SOF mem ?g = ?F g2"
    unfolding info_SOF_def Let_def mode wl(1) using g2(1) by (simp only: Let_def)
  moreover have "info_marker fuel mem inp ?g = info_SOF mem ?g" by (simp add: info_marker_def marker_defs)
  ultimately have m: "info_marker fuel mem inp ?g = Continue g'" using ok g'(1) by simp
  have "between mem bs (k + 1) (next_bit g')"
    using assms(1,2) g' by (intro between_next) (simp_all add: between_def)
  then show ?thesis using pass_at_marker(1) [OF b b2, of fuel inp left] g' m assms(1) by (auto simp: between_def)
qed

section \<open>The scan header\<close>

definition scan_bytes :: "u8 \<Rightarrow> u8 list \<Rightarrow> u8 list" where
  "scan_bytes Ns p = [0xFF, 0xDA] @ be16 (3 + length p) @ [Ns] @ p"

text \<open>One component of a baseline picture with chroma: its scans are not interleaved.\<close>

definition scan_mode :: "u8 \<Rightarrow> JpegDecImageInfo \<Rightarrow> u32" where
  "scan_mode Ns i = (if Ns = 1 \<and> ii_outputFormat i \<noteq> JPEGDEC_YCbCr400 \<and> ii_codingMode i = JPEGDEC_BASELINE
     then JPEGDEC_NONINTERLEAVED else ii_codingMode i)"

lemma pass_SOS:
  assumes "between mem (scan_bytes Ns p @ d # bs) k g" "k + 8 < 8 * length bs" "length p < 65533"
    "inf_operationType (c_info (gi_c g)) = ii_codingMode (gi_info g)"
  shows "\<exists>g'. info_pass fuel mem inp (left, g) = Continue (True, g') \<and>
    gi_c g' = c_info_update (\<lambda>i. i\<lparr>inf_operationType := scan_mode Ns (gi_info g), inf_init := 1\<rparr>) (gi_c g) \<and>
    gi_info g' = (gi_info g)\<lparr>ii_codingMode := scan_mode Ns (gi_info g)\<rparr>"
proof -
  let ?t = "be16 (2 + length (Ns # p)) @ (Ns # p) @ d # bs"
  have l: "2 + length (Ns # p) = 3 + length p" by simp
  have t: "scan_bytes Ns p @ d # bs = 0xFF # 0xDA # ?t" unfolding scan_bytes_def l by simp
  have b: "between mem (0xFF # 0xDA # ?t) k g" using assms(1) unfolding t .
  have b2: "k \<le> 8 * length ?t" "k \<le> 8 * length (d # bs)" "k \<le> 8 * length (p @ d # bs)" "k \<le> 8 * length bs"
    using assms(2) by simp_all
  have p: "length (Ns # p) < 65534" using assms(3) by simp
  let ?g = "(gi_adv 2 g)\<lparr>gi_currentByte := ucast (0xDA :: u8)\<rparr>"
  note wl = with_length_reads [OF pass_at_marker(2) [OF b b2(1)] b2(2) p]
  have "reads mem (Ns # (p @ d # bs)) k (gi_adv 2 ?g)" using wl(2) by simp
  note r = gi_byte_reads [OF this b2(3)]
  let ?i = "gi_info g"
  let ?s = "\<lambda>g. if ucast Ns = MIN_NUMBER_OF_COMPONENTS \<and> ii_outputFormat (gi_info g) \<noteq> JPEGDEC_YCbCr400 \<and> ii_codingMode (gi_info g) = JPEGDEC_BASELINE
    then gi_info_update (\<lambda>i. i\<lparr>ii_codingMode := JPEGDEC_NONINTERLEAVED\<rparr>)
      (gi_c_update (c_info_update (\<lambda>i. i\<lparr>inf_operationType := JPEGDEC_NONINTERLEAVED\<rparr>)) g) else g"
  let ?g2 = "?s (gi_adv 1 (gi_adv 2 ?g))"
  have "reads mem ((p @ [d]) @ bs) k ?g2" using r(2) by (auto simp: if_distrib)
  moreover have "length (p @ [d]) < 65534" using assms(3) by simp
  ultimately have j: "gi_jump (of_nat (2 + length (Ns # p))) ?g2 = gi_adv (length (p @ [d])) ?g2"
    "reads mem bs k (gi_adv (length (p @ [d])) ?g2)"
    using gi_jump_reads [of mem "p @ [d]" bs k ?g2] b2(4) by simp_all
  let ?g3 = "gi_adv (length (p @ [d])) ?g2"
  have "unat (st_readBits (gi_stream ?g3)) + 8 * length bs = 8 * unat (st_streamLength (gi_stream ?g3)) + k"
    "unat (st_streamLength (gi_stream ?g3)) < 2 ^ 24" using j(2) unfolding reads_def at_bytes_def by blast+
  then have room: "unat (st_readBits (gi_stream ?g3)) + 8 < 8 * unat (st_streamLength (gi_stream ?g3))"
    "unat (st_streamLength (gi_stream ?g3)) < 2 ^ 24" using assms(2) by linarith+
  have more: "st_readBits (gi_stream ?g3) + 8 < 8 * st_streamLength (gi_stream ?g3)"
  proof -
    have "unat (st_readBits (gi_stream ?g3) + 8) = unat (st_readBits (gi_stream ?g3)) + 8" using room by (subst u32_add) simp_all
    moreover have "unat (8 * st_streamLength (gi_stream ?g3)) = 8 * unat (st_streamLength (gi_stream ?g3))"
      using room(2) by (intro unat_times8) simp
    ultimately show ?thesis using room(1) by (simp add: word_less_nat_alt del: gi_adv_simps)
  qed
  let ?g' = "(gi_c_update (c_info_update (\<lambda>i. i\<lparr>inf_init := 1\<rparr>)) ?g3)\<lparr>gi_init := True\<rparr>"
  have "info_SOS mem ?g = Continue ?g'"
    unfolding info_SOS_def wl(1) r(1) prod.case Let_def j(1) using more by (simp only: if_True)
  moreover have "info_marker fuel mem inp ?g = info_SOS mem ?g" by (simp add: info_marker_def Let_def marker_defs)
  ultimately have m: "info_marker fuel mem inp ?g = Continue ?g'" by simp
  have ns: "ucast Ns = (MIN_NUMBER_OF_COMPONENTS :: u32) \<longleftrightarrow> Ns = 1"
    using u8_unat [of Ns] by (auto simp: MIN_NUMBER_OF_COMPONENTS_def word_unat_eq_iff)
  have e: "gi_c ?g' = c_info_update (\<lambda>i. i\<lparr>inf_operationType := scan_mode Ns (gi_info g), inf_init := 1\<rparr>) (gi_c g)"
    "gi_info ?g' = (gi_info g)\<lparr>ii_codingMode := scan_mode Ns (gi_info g)\<rparr>"
    using assms(4) by (simp_all add: ns scan_mode_def)
  have "info_pass fuel mem inp (left, g) = Continue (True, ?g')"
    using pass_at_marker(1) [OF b b2(1), of fuel inp left] m e(1) by simp
  then show ?thesis using e by blast
qed

section \<open>The whole header\<close>

record jpeg_header =
  jh_front :: "app_segment list"
  jh_frame :: frame_hdr
  jh_back :: "app_segment list"
  jh_Ns :: u8
  jh_scan :: "u8 list"

definition header_bytes :: "jpeg_header \<Rightarrow> u8 list" where
  "header_bytes h = [0xFF, 0xD8] @ concat (map app_bytes (jh_front h)) @ frame_bytes (jh_frame h) @
     concat (map app_bytes (jh_back h)) @ scan_bytes (jh_Ns h) (jh_scan h)"

definition header_ok :: "JpegDecContainer \<Rightarrow> u32 \<Rightarrow> jpeg_header \<Rightarrow> bool" where
  "header_ok c fmt h \<longleftrightarrow> list_all app_ok (jh_front h) \<and> frame_ok c fmt (jh_frame h) \<and> list_all app_ok (jh_back h) \<and>
     length (jh_scan h) < 65533"

definition header_passes :: "jpeg_header \<Rightarrow> nat" where
  "header_passes h = length (jh_front h) + length (jh_back h) + 3"

definition header_info :: "u32 \<Rightarrow> jpeg_header \<Rightarrow> JpegDecImageInfo \<Rightarrow> JpegDecImageInfo" where
  "header_info fmt h i =
     (let i = fold app_info (jh_back h) (frame_info fmt (jh_frame h) (fold app_info (jh_front h) i))
      in i\<lparr>ii_codingMode := scan_mode (jh_Ns h) i\<rparr>)"

lemma app_info_keeps [simp]:
  "ii_codingMode (app_info a i) = ii_codingMode i" "ii_outputFormat (app_info a i) = ii_outputFormat i"
  by (cases a; simp)+

lemma fold_app_info_keeps [simp]:
  "ii_codingMode (fold app_info as i) = ii_codingMode i" "ii_outputFormat (fold app_info as i) = ii_outputFormat i"
  by (induction as arbitrary: i) simp_all

lemma header_loop:
  assumes "between mem (header_bytes h @ d # bs) 0 g" "header_ok (gi_c g) fmt h" "header_passes h + 8 < 8 * length bs"
    "gi_H g = [0, 0, 0]" "gi_V g = [0, 0, 0]"
  shows "\<exists>g'. whileLoop (n + header_passes h) info_more (info_pass fuel mem inp) (False, g) = Continue (True, g') \<and>
    gi_info g' = header_info fmt h (gi_info g) \<and>
    gi_c g' = c_info_update (\<lambda>i. i\<lparr>inf_operationType := ii_codingMode (gi_info g'), inf_init := 1\<rparr>) (frame_c fmt (jh_frame h) (gi_c g))"
proof -
  let ?W = "\<lambda>n. whileLoop n info_more (info_pass fuel mem inp)"
  let ?ss = "scan_bytes (jh_Ns h) (jh_scan h) @ d # bs"
  let ?bk = "concat (map app_bytes (jh_back h)) @ ?ss" and ?p = "length (jh_front h)" and ?q = "length (jh_back h)"
  let ?fr = "frame_bytes (jh_frame h) @ ?bk"
  have ok: "list_all app_ok (jh_front h)" "frame_ok (gi_c g) fmt (jh_frame h)" "list_all app_ok (jh_back h)" "length (jh_scan h) < 65533"
    using assms(2) by (simp_all add: header_ok_def)
  have k: "?p + ?q + 11 < 8 * length bs" using assms(3) by (simp add: header_passes_def)
  have soi: "between mem (0xFF # 0xD8 # concat (map app_bytes (jh_front h)) @ ?fr) 0 g" using assms(1) by (simp add: header_bytes_def)
  obtain g1 where g1: "info_pass fuel mem inp (False, g) = Continue (False, g1)" "between mem (concat (map app_bytes (jh_front h)) @ ?fr) 1 g1"
    "gi_c g1 = gi_c g" "gi_info g1 = gi_info g" "gi_H g1 = gi_H g" "gi_V g1 = gi_V g"
    using pass_SOI [OF soi, of fuel inp False] by auto
  have w1: "?W (Suc m) (False, g) = ?W m (False, g1)" for m
    using info_more_between [OF soi] g1(1) by simp
  have "\<exists>g'. ?W (m + ?p) (False, g1) = ?W m (False, g') \<and> between mem ?fr (1 + ?p) g' \<and>
      gi_c g' = gi_c g1 \<and> gi_info g' = fold app_info (jh_front h) (gi_info g1) \<and> gi_H g' = gi_H g1 \<and> gi_V g' = gi_V g1" for m
    by (rule passes_apps [OF g1(2) ok(1)]) (use k in simp)
  then obtain g2 where w2: "?W (n + ?q + 2 + ?p) (False, g1) = ?W (n + ?q + 2) (False, g2)" and g2: "between mem ?fr (1 + ?p) g2"
    "gi_c g2 = gi_c g1" "gi_info g2 = fold app_info (jh_front h) (gi_info g1)" "gi_H g2 = [0, 0, 0]" "gi_V g2 = [0, 0, 0]"
    using g1(5,6) assms(4,5) by metis
  obtain g3 where g3: "info_pass fuel mem inp (False, g2) = Continue (False, g3)" "between mem ?bk (2 + ?p) g3"
    "gi_c g3 = frame_c fmt (jh_frame h) (gi_c g)" "gi_info g3 = frame_info fmt (jh_frame h) (gi_info g2)"
    using pass_SOF [OF g2(1) _ _ g2(4,5), of fmt fuel inp False] k ok(2) g1(3) g2(2) by auto
  have "info_more (False, g2)" by (rule info_more_between [OF g2(1)]) (use k in simp)
  then have w3: "?W (Suc m) (False, g2) = ?W m (False, g3)" for m using g3(1) by simp
  obtain g4 where w4: "?W (n + 1 + ?q) (False, g3) = ?W (n + 1) (False, g4)" and g4: "between mem ?ss (2 + ?p + ?q) g4"
    "gi_c g4 = gi_c g3" "gi_info g4 = fold app_info (jh_back h) (gi_info g3)"
    using passes_apps [OF g3(2) ok(3), of "n + 1" fuel inp] k by auto
  have "inf_operationType (c_info (gi_c g4)) = ii_codingMode (gi_info g4)"
    by (simp add: g4(2,3) g3(3,4) frame_c_def frame_info_def)
  then obtain g5 where g5: "info_pass fuel mem inp (False, g4) = Continue (True, g5)"
    "gi_c g5 = c_info_update (\<lambda>i. i\<lparr>inf_operationType := scan_mode (jh_Ns h) (gi_info g4), inf_init := 1\<rparr>) (gi_c g4)"
    "gi_info g5 = (gi_info g4)\<lparr>ii_codingMode := scan_mode (jh_Ns h) (gi_info g4)\<rparr>"
    using pass_SOS [OF g4(1) _ ok(4), of fuel inp False] k by auto
  have "info_more (False, g4)" by (rule info_more_between [OF g4(1)]) (use k in \<open>simp add: scan_bytes_def be16_def\<close>)
  moreover have "\<not> info_more (True, g5)" by (simp add: info_more_def)
  ultimately have w5: "?W (n + 1) (False, g4) = Continue (True, g5)" using g5(1) by (cases n) simp_all
  have e: "n + header_passes h = Suc (n + ?q + 2 + ?p)" "n + ?q + 2 = Suc (n + 1 + ?q)" by (simp_all add: header_passes_def)
  have "?W (n + header_passes h) (False, g) = ?W (n + ?q + 2) (False, g2)" unfolding e(1) w1 by (rule w2)
  moreover have "?W (n + ?q + 2) (False, g2) = Continue (True, g5)" unfolding e(2) w3 w4 by (rule w5)
  ultimately have "?W (n + header_passes h) (False, g) = Continue (True, g5)" by (rule trans)
  moreover have "gi_info g5 = header_info fmt h (gi_info g)"
    by (simp add: g5(3) g4(3) g3(4) g2(3) g1(4) header_info_def Let_def)
  moreover have "scan_mode (jh_Ns h) (gi_info g4) = ii_codingMode (gi_info g5)" by (simp add: g5(3))
  then have "gi_c g5 = c_info_update (\<lambda>i. i\<lparr>inf_operationType := ii_codingMode (gi_info g5), inf_init := 1\<rparr>) (frame_c fmt (jh_frame h) (gi_c g))"
    using g5(2) g4(2) g3(3) by simp
  ultimately show ?thesis by blast
qed

text \<open>The stream in memory, as the input of JpegDecGetImageInfo describes it.\<close>

definition holds :: "memory \<Rightarrow> JpegDecInput \<Rightarrow> u8 list \<Rightarrow> bool" where
  "holds mem inp bs \<longleftrightarrow> info_check inp = None \<and>
     (\<forall>i < length bs. mem (lm_pVirtualAddress (in_streamBuffer inp) + of_nat i) = bs ! i) \<and>
     (if in_bufferSize inp = 0 then in_streamLength inp else in_bufferSize inp) = of_nat (length bs) \<and> length bs < 2 ^ 24"

lemma holds_start:
  assumes "holds mem inp bs"
  shows "between mem bs 0 (info_start inp info c)"
proof -
  have "unat (of_nat (length bs) :: u32) = length bs" by (simp only: unat_of_nat) (use assms in \<open>simp add: holds_def\<close>)
  then show ?thesis
    using assms by (simp add: holds_def between_def reads_def at_bytes_def info_start_def zero_StreamStorage_def Let_def)
qed

definition info_reset :: "JpegDecImageInfo \<Rightarrow> JpegDecImageInfo" where
  "info_reset i = i\<lparr>ii_displayWidth := 0, ii_displayHeight := 0, ii_outputWidth := 0, ii_outputHeight := 0,
     ii_version := 0, ii_units := 0, ii_xDensity := 0, ii_yDensity := 0, ii_outputFormat := 0,
     ii_thumbnailType := JPEGDEC_NO_THUMBNAIL, ii_displayWidthThumb := 0, ii_displayHeightThumb := 0,
     ii_outputWidthThumb := 0, ii_outputHeightThumb := 0, ii_outputFormatThumb := 0\<rparr>"

definition header_c :: "JpegDecInput \<Rightarrow> u32 \<Rightarrow> jpeg_header \<Rightarrow> u32 \<Rightarrow> JpegDecContainer \<Rightarrow> JpegDecContainer" where
  "header_c inp fmt h mode c =
     c_info_update (\<lambda>i. i\<lparr>inf_operationType := mode, inf_init := 1,
         inf_initBufferSize := (if in_bufferSize inp \<noteq> 0 then in_bufferSize inp else inf_initBufferSize i)\<rparr>)
       (frame_c fmt (jh_frame h) c)"

lemma GetImageInfo_header:
  assumes "holds mem inp (header_bytes h @ d # bs)" "header_ok c fmt h" "header_passes h + 8 < 8 * length bs" "header_passes h \<le> fuel"
  shows "\<exists>g. JpegDecGetImageInfo fuel mem (Some c) (Some inp) (Some info) = Return (JPEGDEC_OK, Some g) \<and>
    gi_info g = header_info fmt h (info_reset info) \<and> gi_c g = header_c inp fmt h (ii_codingMode (gi_info g)) c"
proof -
  let ?g = "info_start inp info c"
  have s: "gi_c ?g = c" "gi_info ?g = info_reset info" "gi_H ?g = [0, 0, 0]" "gi_V ?g = [0, 0, 0]"
    by (simp_all add: info_start_def info_reset_def Let_def)
  obtain n where n: "fuel = n + header_passes h" using assms(4) by (metis add.commute le_Suc_ex)
  obtain g where g: "whileLoop fuel info_more (info_pass fuel mem inp) (False, ?g) = Continue (True, g)"
    "gi_info g = header_info fmt h (info_reset info)"
    "gi_c g = c_info_update (\<lambda>i. i\<lparr>inf_operationType := ii_codingMode (gi_info g), inf_init := 1\<rparr>) (frame_c fmt (jh_frame h) c)"
    using header_loop [OF holds_start [OF assms(1), of info c], where fmt = fmt and n = n and inp = inp and fuel = fuel] assms(2,3) s
    unfolding n by auto
  have "info_check inp = None" using assms(1) by (simp add: holds_def)
  then have r: "JpegDecGetImageInfo fuel mem (Some c) (Some inp) (Some info) =
      Return (fst (info_finish inp g), Some (snd (info_finish inp g)))"
    by (simp add: JpegDecGetImageInfo_def g(1) split: prod.split)
  have "inf_init (c_info (gi_c g)) \<noteq> 0" by (simp add: g(3))
  then have f: "fst (info_finish inp g) = JPEGDEC_OK" "gi_info (snd (info_finish inp g)) = gi_info g"
    "gi_c (snd (info_finish inp g)) = header_c inp fmt h (ii_codingMode (gi_info g)) c"
    by (simp_all add: info_finish_def g(3) header_c_def frame_c_def)
  show ?thesis using r f g(2) by auto
qed

section \<open>Properties\<close>

text \<open>
  C25. On a well-formed header, application segments and tables in any order, a baseline or progressive
  frame header of one or three components that the decoder supports and a scan header, followed by
  enough data, JpegDecGetImageInfo succeeds and tells what the header says: the size of the picture as
  it is and rounded up to whole blocks (to 32 columns for 4:1:1), the format of the sampling factors,
  the coding mode, and version, unit and densities of the JFIF segment. The container holds the same
  size, format and mode, and is marked as initialised.
\<close>

theorem GetImageInfo_reads_headers:
  assumes "holds mem inp (header_bytes h @ d # bs)" "header_ok c fmt h" "header_passes h + 8 < 8 * length bs" "header_passes h \<le> fuel"
  shows "\<exists>g. JpegDecGetImageInfo fuel mem (Some c) (Some inp) (Some info) = Return (JPEGDEC_OK, Some g) \<and>
    gi_info g = header_info fmt h (info_reset info) \<and> gi_c g = header_c inp fmt h (ii_codingMode (gi_info g)) c"
  using assms by (rule GetImageInfo_header)

lemma holds_memory_of:
  assumes "info_check inp = None" "in_bufferSize inp = 0" "in_streamLength inp = of_nat (length bs)" "length bs < 2 ^ 24"
  shows "holds (memory_of (lm_pVirtualAddress (in_streamBuffer inp)) bs) inp bs"
proof -
  have "unat (of_nat i :: u32) = i" if "i < length bs" for i by (simp only: unat_of_nat) (use that assms(4) in simp)
  then show ?thesis using assms by (simp add: holds_def memory_of_def Let_def)
qed

definition demo_frame :: frame_hdr where
  "demo_frame = \<lparr>fh_progressive = True, fh_y = 480, fh_x = 650, fh_comps = [(1, 0x22, 0), (2, 0x11, 1), (3, 0x11, 1)]\<rparr>"

definition demo_header :: jpeg_header where
  "demo_header = \<lparr>jh_front = [JFIF 0x0102 1 72 72 [0, 0]], jh_frame = demo_frame,
     jh_back = [Plain 0xFE [0x68, 0x69]], jh_Ns = 3, jh_scan = [1, 0, 2, 0x11, 3, 0x11, 0, 0, 0]\<rparr>"

lemma demo_frame_format: "info_format e (fh_H demo_frame) (fh_V demo_frame) = Some JPEGDEC_YCbCr420_SEMIPLANAR"
proof -
  have "fh_H demo_frame = [2, 1, 1]" "fh_V demo_frame = [2, 1, 1]" by (simp_all add: fh_H_def fh_V_def demo_frame_def)
  then show ?thesis by (simp add: info_format_def chroma_11_def numeral_2_eq_2)
qed

lemma demo_frame_size: "fh_columns JPEGDEC_YCbCr420_SEMIPLANAR demo_frame = 656" "fh_rows demo_frame = 480"
  "round_up_16 (of_nat (fh_x demo_frame)) = 656"
  by (simp_all add: fh_columns_def fh_rows_def demo_frame_def round_up_16_def Let_def jpeg_consts)

lemma demo_frame_ok: "frame_ok (init_container 5 0x2000) JPEGDEC_YCbCr420_SEMIPLANAR demo_frame"
proof -
  have "frame_fits (init_container 5 0x2000) JPEGDEC_YCbCr420_SEMIPLANAR demo_frame"
    unfolding frame_fits_def demo_frame_size Let_def by (simp add: init_container_eq jpeg_consts)
  then show ?thesis unfolding frame_ok_def demo_frame_format by (simp add: demo_frame_def)
qed

lemma demo_header_ok: "header_ok (init_container 5 0x2000) JPEGDEC_YCbCr420_SEMIPLANAR demo_header"
  using demo_frame_ok by (simp add: header_ok_def demo_header_def INFO_SKIPPED_def marker_defs)

lemma demo_header_length: "length (header_bytes demo_header) = 59" "header_passes demo_header = 5"
  by (simp_all add: header_bytes_def demo_header_def demo_frame_def frame_bytes_def scan_bytes_def be16_def header_passes_def)

definition demo_stream :: "u8 list" where
  "demo_stream = header_bytes demo_header @ 0 # replicate 40 0"

lemma demo_holds: "holds (memory_of 64 demo_stream) (info_input 64 100) demo_stream"
proof -
  have "length demo_stream = 100" by (simp add: demo_stream_def demo_header_length)
  moreover have "info_check (info_input 64 100) = None" "in_bufferSize (info_input 64 100) = 0"
    "in_streamLength (info_input 64 100) = 100" "lm_pVirtualAddress (in_streamBuffer (info_input 64 100)) = 64"
    by (simp_all add: info_check_def info_input_def bad_virtual_address_def DEC_RK70_MAX_STREAM_def)
  ultimately show ?thesis using holds_memory_of [of "info_input 64 100" demo_stream] by simp
qed

lemma demo_header_info: "header_info JPEGDEC_YCbCr420_SEMIPLANAR demo_header i =
    i\<lparr>ii_version := 0x0102, ii_units := 1, ii_xDensity := 72, ii_yDensity := 72,
      ii_displayWidth := 650, ii_displayHeight := 480, ii_outputWidth := 656, ii_outputHeight := 480,
      ii_outputFormat := JPEGDEC_YCbCr420_SEMIPLANAR, ii_codingMode := JPEGDEC_PROGRESSIVE\<rparr>"
proof -
  have "frame_info JPEGDEC_YCbCr420_SEMIPLANAR demo_frame i =
    i\<lparr>ii_displayWidth := 650, ii_displayHeight := 480, ii_outputWidth := 656, ii_outputHeight := 480,
      ii_outputFormat := JPEGDEC_YCbCr420_SEMIPLANAR, ii_codingMode := JPEGDEC_PROGRESSIVE\<rparr>" for i
    unfolding frame_info_def demo_frame_size by (simp add: fh_mode_def demo_frame_def)
  then show ?thesis by (simp add: header_info_def demo_header_def scan_mode_def Let_def)
qed

lemma GetImageInfo_reads_headers_witness:
  "\<exists>g. JpegDecGetImageInfo 9 (memory_of 64 demo_stream) (Some (init_container 5 0x2000)) (Some (info_input 64 100))
      (Some zero_JpegDecImageInfo) = Return (JPEGDEC_OK, Some g) \<and>
    ii_displayWidth (gi_info g) = 650 \<and> ii_outputWidth (gi_info g) = 656 \<and> ii_xDensity (gi_info g) = 72 \<and>
    ii_codingMode (gi_info g) = JPEGDEC_PROGRESSIVE"
proof -
  have "\<exists>g. JpegDecGetImageInfo 9 (memory_of 64 demo_stream) (Some (init_container 5 0x2000)) (Some (info_input 64 100))
      (Some zero_JpegDecImageInfo) = Return (JPEGDEC_OK, Some g) \<and>
      gi_info g = header_info JPEGDEC_YCbCr420_SEMIPLANAR demo_header (info_reset zero_JpegDecImageInfo) \<and>
      gi_c g = header_c (info_input 64 100) JPEGDEC_YCbCr420_SEMIPLANAR demo_header (ii_codingMode (gi_info g)) (init_container 5 0x2000)"
    by (rule GetImageInfo_reads_headers [OF demo_holds [unfolded demo_stream_def] demo_header_ok, folded demo_stream_def])
      (simp_all add: demo_header_length)
  then show ?thesis unfolding demo_header_info by auto
qed

text \<open>
  A decoder made by JpegDecInit refuses every progressive picture: the hardware configuration that
  JpegDecInit assumes makes it take the fuse for burned, so JpegDecDecode on the well-formed header of
  a progressive picture returns JPEGDEC_UNSUPPORTED before any message is sent to the core.
\<close>

theorem Init_refuses_progressive:
  assumes "JpegDecInit d l given cc = (JPEGDEC_OK, Some (block, c), l')" "decode_check c inp = None"
    "holds mem inp (header_bytes h @ b # bs)" "header_ok c fmt h" "header_passes h + 8 < 8 * length bs" "header_passes h \<le> fuel"
    "fh_progressive (jh_frame h)"
  shows "\<exists>v. JpegDecDecode fuel mem malloc al core infoTmp (Some \<lparr>hw_c = c, hw_base = base, hw_sent = []\<rparr>) (Some inp) (Some out) =
    Return (JPEGDEC_UNSUPPORTED, Some v) \<and> hw_sent (dv_h v) = []"
proof -
  let ?v = "decode_start_vars \<lparr>hw_c = c, hw_base = base, hw_sent = []\<rparr> out"
  obtain socket handle where c: "c = init_container socket handle" using assms(1) by (rule JpegDecInit_ok) auto
  have z: "inf_init (c_info c) = 0" "inf_SliceReadyForPause (c_info c) = 0" "inf_inputBufferEmpty (c_info c) = 0"
    "c_is8190 c \<noteq> 0" "c_fuseBurned c \<noteq> 0"
    by (simp_all add: c init_container_eq zero_DecInfo_def)
  obtain g where g: "JpegDecGetImageInfo fuel mem (Some c) (Some inp) (Some infoTmp) = Return (JPEGDEC_OK, Some g)"
    "gi_info g = header_info fmt h (info_reset infoTmp)" "gi_c g = header_c inp fmt h (ii_codingMode (gi_info g)) c"
    using GetImageInfo_header [OF assms(3-6)] by blast
  have p: "inf_operationType (c_info (gi_c g)) = JPEGDEC_PROGRESSIVE"
    using assms(7) by (simp add: g(2,3) header_c_def frame_c_def header_info_def scan_mode_def frame_info_def fh_mode_def jpeg_consts Let_def)
  have d: "dv_c ?v = c" "hw_sent (dv_h ?v) = []" by (simp_all add: decode_start_vars_def)
  from decode_setup_progressive [of ?v fuel mem inp infoTmp g, unfolded d, OF z(1,2,3) g(1) z(4,5) p]
  obtain v where "decode_setup fuel mem infoTmp inp ?v = Return (JPEGDEC_UNSUPPORTED, v)" "hw_sent (dv_h v) = []"
    by blast
  then show ?thesis using assms(2) by (simp add: JpegDecDecode_def decode_body_def)
qed

lemma Init_refuses_progressive_witness:
  "\<exists>v. JpegDecDecode 9 (memory_of 64 demo_stream) (\<lambda>n. True) \<lparr>al_alloc = None, al_free = None, al_mmap = \<lambda>a b. b\<rparr>
      (\<lambda>h. \<lparr>gr_ret = 0, gr_regs = \<lambda>i. 0\<rparr>) zero_JpegDecImageInfo (Some \<lparr>hw_c = init_container 5 0x2000, hw_base = [], hw_sent = []\<rparr>)
      (Some (info_input 64 100)) (Some \<lparr>out_outputPictureY = null_mem, out_outputPictureCbCr = null_mem, out_outputPictureCr = null_mem\<rparr>) =
    Return (JPEGDEC_UNSUPPORTED, Some v) \<and> hw_sent (dv_h v) = []"
proof -
  have "decode_check (init_container 5 0x2000) (info_input 64 100) = None"
    by (simp add: decode_check_def info_input_def init_container_eq bad_virtual_address_def half_null_def zero_JpegDecLinearMem_def
        zero_DecInfo_def DEC_RK70_MAX_STREAM_def)
  then show ?thesis
    by (rule Init_refuses_progressive [OF demo_Init _ demo_holds [unfolded demo_stream_def] demo_header_ok, folded demo_stream_def])
      (simp_all add: demo_header_length, simp add: demo_header_def demo_frame_def)
qed

end
