(* ===== verification/RkPicture.thy ===== *)
theory RkPicture
  imports RkDecoder InfoHeader
begin

text \<open>
  What a client of Rk_JpegDecoder gets: which descriptor the frame names, which slices are forced on a
  large picture, and what becomes of a picture that is refused.
\<close>

section \<open>The frame and its buffer\<close>

text \<open>The members that no step of a picture changes.\<close>

definition same_client :: "'k Rk_JpegDecoder \<Rightarrow> 'k oneframe_vars \<Rightarrow> bool" where
  "same_client d v \<longleftrightarrow> rk_os_api (of_d v) = rk_os_api d \<and> rk_ctx (of_d v) = rk_ctx d"

definition unanswered :: "'k Rk_JpegDecoder \<Rightarrow> u32 \<Rightarrow> 'k oneframe_vars \<Rightarrow> bool" where
  "unanswered d L v \<longleftrightarrow> same_client d v \<and> of_outLength v = L"

text \<open>A frame that was handed out names the buffer of the picture.\<close>

definition names_picture :: "'k oneframe_vars \<Rightarrow> bool" where
  "names_picture v \<longleftrightarrow> (let p = rk_pictureMem (of_d v); m = jf_jpegmem (of_frame v) in
     mb_phy_addr m = mb_phy_addr p \<and> mb_hnd m = mb_hnd p \<and> jf_FrameBusAddr (of_frame v) ! 0 = mb_phy_addr p)"

definition answered :: "'k Rk_JpegDecoder \<Rightarrow> u32 \<Rightarrow> 'k oneframe_vars \<Rightarrow> bool" where
  "answered d L v \<longleftrightarrow> same_client d v \<and> (of_outLength v = L \<or> names_picture v)"

abbreviation stays_unanswered :: "'k Rk_JpegDecoder \<Rightarrow> u32 \<Rightarrow> 'k oneframe_step \<Rightarrow> bool" where
  "stays_unanswered d L m \<equiv> stays_in m (unanswered d L) (\<lambda>r. unanswered d L (snd r))"

lemma unanswered_updates [simp]:
  "unanswered d L (on_inst f v) = unanswered d L v"
  by (simp_all add: unanswered_def same_client_def on_inst_def on_rk_def)

lemma stays_in_call: "(\<And>r. m = Return r \<Longrightarrow> stays_in (F r) P Q) \<Longrightarrow> stays_in (call m F) P Q"
  by (cases m) auto

lemma unanswered_open: "unanswered d L v \<Longrightarrow> stays_unanswered d L (open_instance E v)"
  by (simp add: open_instance_def unanswered_def same_client_def Let_def split: prod.split)

lemma unanswered_hand: "unanswered d L v \<Longrightarrow> unanswered d L (hand_context E v)"
  by (simp add: hand_context_def Let_def)

lemma unanswered_grow: "unanswered d L v \<Longrightarrow> stays_unanswered d L (grow_stream E n v)"
  by (simp add: grow_stream_def unanswered_def same_client_def Let_def split: option.split prod.split)

lemma unanswered_load: "unanswered d L v \<Longrightarrow> stays_unanswered d L (load_stream inp v)"
  by (simp add: load_stream_def unanswered_def same_client_def Let_def split: option.split prod.split)

lemma unanswered_info: "unanswered d L v \<Longrightarrow> stays_unanswered d L (ask_info E v)"
  unfolding ask_info_def Let_def
  by (rule stays_in_call) (simp add: on_inst_def on_rk_def unanswered_def same_client_def split: option.split prod.split)

lemma unanswered_output: "unanswered d L v \<Longrightarrow> unanswered d L (client_output v)"
  by (simp add: client_output_def Let_def unanswered_def same_client_def on_inst_def on_rk_def split: prod.split)

lemma unanswered_alloc: "unanswered d L v \<Longrightarrow> stays_unanswered d L (alloc_picture n E v)"
  by (induction n arbitrary: v) (auto simp: unanswered_def same_client_def Let_def split: option.split prod.split)

lemma unanswered_get: "unanswered d L v \<Longrightarrow> stays_unanswered d L (get_picture E out v)"
  by (cases "out = 0") (simp_all add: get_picture_def unanswered_alloc, simp add: on_rk_def unanswered_def same_client_def)

lemma unanswered_program: "unanswered d L v \<Longrightarrow> stays_unanswered d L (program_output v)"
  unfolding program_output_def Let_def
  by (auto intro!: stays_in_call split: option.split prod.split)

lemma unanswered_slices: "unanswered d L v \<Longrightarrow> stays_unanswered d L (set_slices v)"
  by (simp add: set_slices_def on_rk_def unanswered_def same_client_def split: outcome.split)

lemma answered_pass: "answered d L v \<Longrightarrow> stays_in (client_pass E 0 v) (answered d L) (\<lambda>(e, v). e = J_end \<and> answered d L v)"
  unfolding client_pass_def Let_def
  by (rule stays_in_call)
    (auto simp: on_rk_def answered_def same_client_def names_picture_def fill_frame_def Let_def split: option.split prod.split)

text \<open>Where the function is left without its end, or called with too short a picture, nothing was handed out.\<close>

definition left_or_answered :: "'k Rk_JpegDecoder \<Rightarrow> u32 \<Rightarrow> rk_exit \<times> 'k oneframe_vars \<Rightarrow> bool" where
  "left_or_answered d L = (\<lambda>(e, v). e = J_end \<and> answered d L v \<or> unanswered d L v \<or> of_outLength v = 0)"

lemma oneframe_body_answers:
  "stays_in (oneframe_body E inp 0 (oneframe_start inp d frame L)) (answered d L) (left_or_answered d L)"
proof (cases "length inp < 16")
  case True
  then show ?thesis by (simp add: oneframe_body_def left_or_answered_def)
next
  case False
  let ?Q = "left_or_answered d L"
  have u: "stays_in m (unanswered d L) ?Q" if "stays_unanswered d L m" for m
    using that by (cases m) (auto simp: left_or_answered_def)
  have a: "unanswered d L v \<Longrightarrow> stays_in (decode_loop E 0 v) (answered d L) ?Q" for v
  proof -
    assume "unanswered d L v"
    then have "answered d L v" by (simp add: answered_def unanswered_def)
    then have "stays_in (decode_loop E 0 v) (answered d L) (\<lambda>(e, v). e = J_end \<and> answered d L v)"
      unfolding decode_loop_def
      by (intro stays_in_andThen [OF answered_pass] stays_in_whileLoop answered_pass)
    then show ?thesis by (cases "decode_loop E 0 v") (auto simp: left_or_answered_def)
  qed
  have "unanswered d L (oneframe_start inp d frame L)" by (simp add: unanswered_def same_client_def oneframe_start_def)
  then show ?thesis
    unfolding oneframe_body_def using False
    by (simp, intro stays_in_andThen [OF u] a unanswered_open unanswered_grow unanswered_hand unanswered_load unanswered_info
        unanswered_get unanswered_output unanswered_program unanswered_slices)
qed

text \<open>close gives nobody a descriptor, one that is not open included.\<close>

definition close_opens_nothing :: "'k kernel_view \<Rightarrow> 'k drm_kernel \<Rightarrow> bool" where
  "close_opens_nothing V K \<longleftrightarrow> (\<forall>fd k. fd \<notin> fds V k \<longrightarrow> fds V (fst (k_close K fd k)) \<subseteq> fds V k)"

lemma drm_free_fds:
  assumes "kernel_laws V K" "drm_free K k dev h = Some (k', ret)"
  shows "fds V k' = fds V k"
proof -
  obtain a where a: "drm_ioctl (k_destroy_dumb K dev) k \<lparr>dmdd_handle = h\<rparr> = Some (k', ret, a)"
    using assms(2) by (auto simp: drm_free_def bind_eq_Some_conv)
  show ?thesis using destroy_view [OF _ _ a] assms(1) by (auto simp: kernel_laws_def same_view_def)
qed

text \<open>What os_allocator_drm_free does to any buffer, one it does not hold included.\<close>

lemma free_run:
  assumes "os_allocator_drm_free K k (Some p) b = Some (k', ret, b')"
  shows "\<exists>ku. (if mb_vir_addr b \<noteq> 0 then ku = k_drmUnmap K (mb_vir_addr b) (mb_size b) k else ku = k) \<and>
    drm_free K (fst (k_close K (buffer_fd b) ku)) (ac_drm_device p) (mb_hnd b) = Some (k', ret) \<and>
    b' = b\<lparr>mb_vir_addr := 0\<rparr>"
proof -
  have "b\<lparr>mb_vir_addr := 0\<rparr> = b" if "mb_vir_addr b = 0" using that by (cases b) simp
  then show ?thesis using assms
    by (auto simp: os_allocator_drm_free_def buffer_fd_def Let_def bind_eq_Some_conv split: prod.splits if_splits)
qed

lemma free_closes:
  assumes "kernel_laws V K" "close_opens_nothing V K" "os_allocator_drm_free K k (Some p) b = Some (k', ret, b')"
  shows "buffer_fd b \<notin> fds V k'"
proof -
  obtain ku where ku: "drm_free K (fst (k_close K (buffer_fd b) ku)) (ac_drm_device p) (mb_hnd b) = Some (k', ret)"
    using free_run [OF assms(3)] by blast
  have "buffer_fd b \<notin> fds V (fst (k_close K (buffer_fd b) ku))"
    using assms(1,2) unfolding kernel_laws_def close_law_def close_opens_nothing_def by (cases "buffer_fd b \<in> fds V ku") auto
  then show ?thesis using drm_free_fds [OF assms(1) ku] by simp
qed

lemma oneframe_cases:
  assumes "pv_rkJpegdecoder_oneframe E inp 0 frame L d = Return (ret, v)" "of_outLength v \<noteq> L" "of_outLength v \<noteq> 0" "rk_os_api d"
  obtains v1 r where "names_picture v1" "of_frame v = of_frame v1"
    "os_allocator_drm_free (re_kernel E) (rk_kernel (of_d v1)) (rk_ctx d) (rk_pictureMem (of_d v1)) =
       Some (rk_kernel (of_d v), r, rk_pictureMem (of_d v))"
    "rk_os_api (of_d v)" "rk_ctx (of_d v) = rk_ctx d"
proof -
  let ?b = "oneframe_body E inp 0 (oneframe_start inp d frame L)"
  note s = oneframe_body_answers [of E inp d frame L]
  have end_parts: "of_outLength v = of_outLength v1 \<and> of_frame v = of_frame v1 \<and> (rk_os_api (of_d v1) \<longrightarrow>
      (\<exists>r. os_allocator_drm_free (re_kernel E) (rk_kernel (of_d v1)) (rk_ctx (of_d v1)) (rk_pictureMem (of_d v1)) =
         Some (rk_kernel (of_d v), r, rk_pictureMem (of_d v)) \<and> rk_os_api (of_d v) \<and> rk_ctx (of_d v) = rk_ctx (of_d v1)))"
    if "oneframe_end E 0 v1 = Return (ret, v)" for v1
    using that by (auto simp: oneframe_end_def mJpegFreeLinear_def allocator_drm_def bind_eq_Some_conv split: option.splits)
  have "\<exists>v1. answered d L v1 \<and> oneframe_end E 0 v1 = Return (ret, v)"
  proof (cases ?b)
    case (Continue v1)
    then show ?thesis using s assms(1) by (auto simp: pv_rkJpegdecoder_oneframe_def)
  next
    case (Return x)
    obtain e v1 where x: "x = (e, v1)" by (cases x)
    have q: "left_or_answered d L (e, v1)" using s Return x by simp
    show ?thesis
    proof (cases e)
      case J_end
      then have "oneframe_end E 0 v1 = Return (ret, v)" using assms(1) Return x by (simp add: pv_rkJpegdecoder_oneframe_def)
      then show ?thesis using end_parts [of v1] q assms(2,3) by (auto simp: left_or_answered_def unanswered_def)
    next
      case (Leave r)
      then have "v1 = v" using assms(1) Return x by (simp add: pv_rkJpegdecoder_oneframe_def)
      then show ?thesis using q assms(2,3) Leave by (auto simp: left_or_answered_def unanswered_def)
    qed
  qed (use assms(1) in \<open>simp_all add: pv_rkJpegdecoder_oneframe_def\<close>)
  then obtain v1 where v1: "answered d L v1" "oneframe_end E 0 v1 = Return (ret, v)" by blast
  have "names_picture v1" using v1(1) end_parts [OF v1(2)] assms(2) by (auto simp: answered_def)
  then show ?thesis using that [of v1] end_parts [OF v1(2)] v1(1) assms(4) by (auto simp: answered_def same_client_def)
qed


section \<open>The slices of a large picture\<close>

lemma slice_loop_runs:
  assumes "1 \<le> unat q" "unat q \<le> 8100" "1 \<le> unat s" "unat s \<le> 8100" "8100 \<le> n + unat s" "unat s = 1 \<or> unat s * unat q < 8100"
  shows "\<exists>s'. whileLoop n (\<lambda>s. s * q + q < JPEGDEC_MAX_SLICE_SIZE_8190) (\<lambda>s. Continue (s + 1)) s = Continue s' \<and>
    1 \<le> unat s' \<and> 8100 \<le> (unat s' + 1) * unat q \<and> (unat s' = 1 \<or> unat s' * unat q < 8100)"
  using assms(3-6)
proof (induction n arbitrary: s)
  case 0
  then have s: "unat s = 8100" by simp
  then have "unat (s * q + q) = unat s * unat q + unat q" using assms(2) by (subst u32_add; subst u32_mult; simp)
  moreover have "8100 \<le> unat s * unat q + unat q" unfolding s using assms(1) by linarith
  ultimately show ?case using 0 by (auto simp: word_less_nat_alt JPEGDEC_MAX_SLICE_SIZE_8190_def algebra_simps)
next
  case (Suc n)
  let ?more = "\<lambda>s. s * q + q < JPEGDEC_MAX_SLICE_SIZE_8190"
  have "unat s * unat q \<le> 8100 * 8100" using Suc.prems(2) assms(2) by (rule mult_le_mono)
  then have e: "unat (s * q + q) = (unat s + 1) * unat q" using assms(2) by (subst u32_add; subst u32_mult; simp)
  have m: "?more s \<longleftrightarrow> (unat s + 1) * unat q < 8100"
    by (simp add: word_less_nat_alt e JPEGDEC_MAX_SLICE_SIZE_8190_def)
  show ?case
  proof (cases "?more s")
    case False
    then show ?thesis using m Suc.prems by auto
  next
    case True
    have "unat s + 1 \<le> (unat s + 1) * unat q" using assms(1) by (cases "unat q") auto
    then have b: "unat s + 1 < 8100" using True m by linarith
    have u: "unat (s + 1) = unat s + 1" using b by (subst u32_add) simp_all
    have p: "1 \<le> unat (s + 1)" "unat (s + 1) \<le> 8100" "8100 \<le> n + unat (s + 1)" "unat (s + 1) = 1 \<or> unat (s + 1) * unat q < 8100"
      using u b m True Suc.prems by simp_all
    show ?thesis using Suc.IH [OF p] True by simp
  qed
qed

text \<open>What JpegDecGetImageInfo leaves in the decoder, told by the image information.\<close>

definition described :: "JpegDecImageInfo \<Rightarrow> JpegDecContainer \<Rightarrow> bool" where
  "described i c \<longleftrightarrow> (let w = ii_outputWidth i; h = ii_outputHeight i; fmt = ii_outputFormat i in
     fr_hwX (c_frame c) = w \<and> fr_hwY (c_frame c) = h \<and> inf_getInfoYCbCrMode (c_info c) = fmt \<and>
     fr_numMcuInRow (c_frame c) = w div fst (mcu_shape fmt) \<and> fr_numMcuInFrame (c_frame c) = w * h div snd (mcu_shape fmt) \<and>
     inf_operationType (c_info c) = ii_codingMode i)"

definition known_format :: "u32 \<Rightarrow> bool" where
  "known_format fmt \<longleftrightarrow> fmt \<in> {JPEGDEC_YCbCr400, JPEGDEC_YCbCr420_SEMIPLANAR, JPEGDEC_YCbCr422_SEMIPLANAR, JPEGDEC_YCbCr440,
     JPEGDEC_YCbCr411_SEMIPLANAR, JPEGDEC_YCbCr444_SEMIPLANAR}"

lemma mcu_counts_agree:
  assumes "described i c" "known_format (ii_outputFormat i)"
  shows "mcu_in_row (ii_outputFormat i) (ii_outputWidth i) = fr_numMcuInRow (c_frame c)"
    "mcu_size_divider (ii_outputFormat i) = mcuSizeDivider c"
proof -
  show "mcu_in_row (ii_outputFormat i) (ii_outputWidth i) = fr_numMcuInRow (c_frame c)"
    using assms by (auto simp: described_def known_format_def Let_def mcu_in_row_def mcu_shape_def jpeg_consts)
  show "mcu_size_divider (ii_outputFormat i) = mcuSizeDivider c"
    using assms(1) by (simp add: described_def mcu_size_divider_def mcuSizeDivider_def Let_def)
qed

text \<open>A picture over the limit has rows long enough for the loop, and more MCUs than a slice.\<close>

lemma large_picture:
  assumes "described i c" "known_format (ii_outputFormat i)" "unat (ii_outputWidth i) \<le> 8176" "unat (ii_outputHeight i) \<le> 8176"
    "ii_outputWidth i * ii_outputHeight i > JPEGDEC_MAX_PIXEL_AMOUNT"
  shows "1 \<le> unat (fr_numMcuInRow (c_frame c) div mcuSizeDivider c)" "unat (fr_numMcuInRow (c_frame c) div mcuSizeDivider c) \<le> 8100"
    "8100 \<le> unat (fr_numMcuInFrame (c_frame c))"
proof -
  let ?w = "ii_outputWidth i" and ?h = "ii_outputHeight i" and ?fmt = "ii_outputFormat i"
  have wh: "unat ?w * unat ?h \<le> 8176 * 8176" using assms(3,4) by (rule mult_le_mono)
  then have u: "unat (?w * ?h) = unat ?w * unat ?h" by (intro u32_mult) simp
  then have big: "16370688 < unat ?w * unat ?h" using assms(5) by (simp add: word_less_nat_alt JPEGDEC_MAX_PIXEL_AMOUNT_def)
  have "unat ?w * unat ?h \<le> unat ?w * 8176" using assms(4) by simp
  then have w: "2002 < unat ?w" using big by linarith
  have d: "mcuSizeDivider c = mcu_size_divider ?fmt" using mcu_counts_agree(2) [OF assms(1,2)] by simp
  have f: "fr_numMcuInRow (c_frame c) = ?w div fst (mcu_shape ?fmt)" "fr_numMcuInFrame (c_frame c) = ?w * ?h div snd (mcu_shape ?fmt)"
    using assms(1) by (simp_all add: described_def Let_def)
  have s: "unat (fst (mcu_shape ?fmt)) \<in> {8, 16, 32}" "unat (snd (mcu_shape ?fmt)) \<in> {64, 128, 256}" "unat (mcu_size_divider ?fmt) \<in> {1, 2}"
    "unat (fst (mcu_shape ?fmt)) * unat (mcu_size_divider ?fmt) \<le> 32"
    using assms(2) by (auto simp: known_format_def mcu_shape_def mcu_size_divider_def jpeg_consts)
  have q: "unat (fr_numMcuInRow (c_frame c) div mcuSizeDivider c) =
      unat ?w div (unat (fst (mcu_shape ?fmt)) * unat (mcu_size_divider ?fmt))"
    unfolding f d by (simp add: unat_div div_mult2_eq)
  have "32 \<le> unat ?w" using w by simp
  then show "1 \<le> unat (fr_numMcuInRow (c_frame c) div mcuSizeDivider c)"
    unfolding q using s by (auto simp: div_greater_zero_iff Suc_le_eq)
  show "unat (fr_numMcuInRow (c_frame c) div mcuSizeDivider c) \<le> 8100"
    unfolding q using s(1,3) assms(3) by auto
  have "unat (fr_numMcuInFrame (c_frame c)) = unat ?w * unat ?h div unat (snd (mcu_shape ?fmt))"
    unfolding f by (simp add: unat_div u)
  then show "8100 \<le> unat (fr_numMcuInFrame (c_frame c))" using s(2) big by auto
qed

text \<open>
  C28. The slices that the client forces on a large picture are ones the decoder takes. For a baseline
  picture as JpegDecGetImageInfo describes it, pv_rkJpegdecoder_oneframe asks for no slices up to
  16370688 pixels; above, its loop ends with the smallest number of rows of MCUs that fills a slice
  of the hardware up to one row. In both cases JpegDecDecode finds the request supported and the slice
  no larger than the picture.
\<close>

theorem Slices_are_supported:
  assumes "described i c" "known_format (ii_outputFormat i)" "ii_codingMode i = JPEGDEC_BASELINE"
    "unat (ii_outputWidth i) \<le> 8176" "unat (ii_outputHeight i) \<le> 8176"
    "c_is8190 c \<noteq> 0" "c_maxSupportedSliceSize c = JPEGDEC_MAX_SLICE_SIZE_8190" "in_decImageType inp = JPEGDEC_IMAGE"
  defines "q \<equiv> unat (fr_numMcuInRow (c_frame c) div mcuSizeDivider c)"
  shows "\<exists>s. force_slices i = Continue s \<and>
    (s = 0 \<longleftrightarrow> unat (ii_outputWidth i) * unat (ii_outputHeight i) \<le> 16370688) \<and>
    (s \<noteq> 0 \<longrightarrow> 8100 \<le> (unat s + 1) * q \<and> (unat s = 1 \<or> unat s * q < 8100)) \<and>
    decode_supported (inp\<lparr>in_sliceMbSet := s\<rparr>) c = None \<and> decode_slice_fits (inp\<lparr>in_sliceMbSet := s\<rparr>) c"
proof -
  let ?w = "ii_outputWidth i" and ?h = "ii_outputHeight i"
  have c: "fr_hwX (c_frame c) = ?w" "fr_hwY (c_frame c) = ?h" "inf_operationType (c_info c) = JPEGDEC_BASELINE"
    using assms(1,3) by (simp_all add: described_def Let_def)
  have "unat ?w * unat ?h \<le> 8176 * 8176" using assms(4,5) by (rule mult_le_mono)
  then have u: "unat (?w * ?h) = unat ?w * unat ?h" by (intro u32_mult) simp
  then have big: "?w * ?h > JPEGDEC_MAX_PIXEL_AMOUNT \<longleftrightarrow> \<not> unat ?w * unat ?h \<le> 16370688"
    by (simp add: word_less_nat_alt JPEGDEC_MAX_PIXEL_AMOUNT_def not_le)
  show ?thesis
  proof (cases "?w * ?h > JPEGDEC_MAX_PIXEL_AMOUNT")
    case False
    then show ?thesis using big c assms(6,7)
      by (simp add: force_slices_def decode_supported_def decode_slice_fits_def slice_mcus_def Let_def jpeg_consts)
  next
    case True
    note l = large_picture [OF assms(1,2,4,5) True]
    have "1 \<le> unat (1 :: u32)" "unat (1 :: u32) \<le> 8100" "8100 \<le> 8100 + unat (1 :: u32)" "unat (1 :: u32) = 1 \<or> unat (1 :: u32) * q < 8100"
      by simp_all
    from slice_loop_runs [OF l(1,2) this [unfolded q_def]] obtain s where s: "force_slices i = Continue s" "1 \<le> unat s"
      "8100 \<le> (unat s + 1) * q" "unat s = 1 \<or> unat s * q < 8100"
      using True mcu_counts_agree [OF assms(1,2)] by (auto simp: force_slices_def slice_loop_def q_def)
    have sq: "unat s * q \<le> 8100" using s(4) l(2) by (auto simp: q_def)
    then have m: "unat (slice_mcus c (inp\<lparr>in_sliceMbSet := s\<rparr>)) = unat s * q"
      unfolding slice_mcus_def q_def by (subst u32_mult) simp_all
    have "s \<noteq> 0" using s(2) by auto
    moreover have "\<not> slice_mcus c (inp\<lparr>in_sliceMbSet := s\<rparr>) > c_maxSupportedSliceSize c"
      using m sq by (simp add: assms(7) word_less_nat_alt JPEGDEC_MAX_SLICE_SIZE_8190_def)
    moreover have "\<not> slice_mcus c (inp\<lparr>in_sliceMbSet := s\<rparr>) > fr_numMcuInFrame (c_frame c)"
      using m sq l(3) by (simp add: word_less_nat_alt)
    moreover have "JPEGDEC_BASELINE \<noteq> JPEGDEC_PROGRESSIVE" "JPEGDEC_IMAGE \<noteq> JPEGDEC_THUMBNAIL" by (simp_all add: jpeg_consts)
    ultimately show ?thesis using s True big c(3) assms(6,8)
      by (intro exI [of _ s]) (simp add: decode_supported_def decode_slice_fits_def Let_def)
  qed
qed

lemma Slices_are_supported_witness:
  "\<exists>s. force_slices (zero_JpegDecImageInfo\<lparr>ii_outputWidth := 5120, ii_outputHeight := 3840,
      ii_outputFormat := JPEGDEC_YCbCr420_SEMIPLANAR, ii_codingMode := JPEGDEC_BASELINE\<rparr>) = Continue s \<and> s \<noteq> 0 \<and> unat s * 320 < 8100"
proof -
  let ?i = "zero_JpegDecImageInfo\<lparr>ii_outputWidth := 5120, ii_outputHeight := 3840,
      ii_outputFormat := JPEGDEC_YCbCr420_SEMIPLANAR, ii_codingMode := JPEGDEC_BASELINE\<rparr>"
  let ?c = "zero_JpegDecContainer\<lparr>c_is8190 := 1, c_maxSupportedSliceSize := JPEGDEC_MAX_SLICE_SIZE_8190,
      c_frame := zero_FrameInfo\<lparr>fr_hwX := 5120, fr_hwY := 3840, fr_numMcuInRow := 320, fr_numMcuInFrame := 76800\<rparr>,
      c_info := zero_DecInfo\<lparr>inf_getInfoYCbCrMode := JPEGDEC_YCbCr420_SEMIPLANAR, inf_operationType := JPEGDEC_BASELINE\<rparr>\<rparr>"
  have d: "described ?i ?c" by (simp add: described_def mcu_shape_def)
  have k: "known_format (ii_outputFormat ?i)" by (simp add: known_format_def)
  have q: "unat (fr_numMcuInRow (c_frame ?c) div mcuSizeDivider ?c) = 320" by (simp add: mcuSizeDivider_def jpeg_consts)
  have "in_decImageType (info_input 64 100) = JPEGDEC_IMAGE" by (simp add: info_input_def jpeg_consts)
  from Slices_are_supported [OF d k _ _ _ _ _ this, unfolded q]
  obtain s where s: "force_slices ?i = Continue s" "s \<noteq> 0" "unat s = 1 \<or> unat s * 320 < 8100" by auto
  then show ?thesis by (intro exI [of _ s]) auto
qed

section \<open>Pictures that are refused\<close>

lemma prepare_length: "prepare_stream buf inp = Some (b, n) \<Longrightarrow> n \<le> length inp"
  using length_strip_restarts [of inp]
  by (auto simp: prepare_stream_def fill_stream_def avi_copy_strips Let_def split: option.splits prod.splits if_splits)

lemma small_size: "length inp < 2 ^ 18 \<Longrightarrow> str_size (of_nat (length inp)) + SZ_4K \<le> 512000"
proof -
  assume l: "length inp < 2 ^ 18"
  then have u: "unat (str_size (of_nat (length inp))) = (length inp + 255) div 256 * 256" by (intro str_size_padded) simp
  have "(length inp + 255) div 256 * 256 \<le> length inp + 255" by simp
  moreover have "unat (str_size (of_nat (length inp)) + SZ_4K) = (length inp + 255) div 256 * 256 + 4096"
    unfolding u [symmetric] by (subst u32_add) (use l u in \<open>simp_all add: SZ_4K_def\<close>)
  ultimately show ?thesis using l by (simp add: word_le_nat_alt)
qed

text \<open>The steps up to the stream in the buffer, for a picture that fits.\<close>

definition loaded :: "'k Rk_JpegDecoder \<Rightarrow> u8 list \<Rightarrow> nat \<Rightarrow> 'k Rk_JpegDecoder" where
  "loaded d buf n = d\<lparr>rk_stream := buf, rk_jpegIn := (rk_jpegIn d)\<lparr>in_streamLength := of_nat n, in_bufferSize := of_nat n,
     in_streamBuffer := \<lparr>lm_pVirtualAddress = mb_vir_addr (rk_streamMem d), lm_busAddress = mb_phy_addr (rk_streamMem d)\<rparr>\<rparr>\<rparr>"

definition handed :: "'k rk_env \<Rightarrow> 'k Rk_JpegDecoder \<Rightarrow> JpegDecContainer \<Rightarrow> JpegDecContainer" where
  "handed E d c = c\<lparr>c_vpumem_ctx := rk_vpumem_ctx d, c_ctx := (if rk_ctx d = None then 0 else re_ctx E)\<rparr>"

lemma loading_run:
  assumes "rk_jpegInst d = Some (a, h)" "rk_stream_size d = 512000" "mb_vir_addr (rk_streamMem d) \<noteq> 0"
    "length inp < 2 ^ 18" "prepare_stream (rk_stream d) inp = Some (buf, n)" "of_d v = d"
  shows "andThen (grow_stream E (of_nat (length inp)) (hand_context E v)) (load_stream inp) =
    Continue (v\<lparr>of_d := loaded (d\<lparr>rk_jpegInst := Some (a, on_c (handed E d) h)\<rparr>) buf n\<rparr>)"
proof -
  let ?d = "d\<lparr>rk_jpegInst := Some (a, on_c (handed E d) h)\<rparr>"
  have h: "hand_context E v = v\<lparr>of_d := ?d\<rparr>"
    by (cases "rk_ctx d = None") (simp_all add: hand_context_def on_inst_def on_rk_def assms(1,6) handed_def [abs_def] Let_def)
  have "grow_stream E (of_nat (length inp)) (v\<lparr>of_d := ?d\<rparr>) = Continue (v\<lparr>of_d := ?d\<rparr>)"
    using leD [OF small_size [OF assms(4)]] assms(2) by (simp add: grow_stream_def)
  then show ?thesis using assms(2-5) unfolding h by (simp add: load_stream_def loaded_def Let_def)
qed

lemma ask_info_small:
  assumes "rk_jpegInst (of_d v) = Some (a, h)" "in_bufferSize (rk_jpegIn (of_d v)) = of_nat n" "in_streamLength (rk_jpegIn (of_d v)) = of_nat n" "n < 256"
  shows "\<exists>ret. ret \<noteq> JPEGDEC_UNSUPPORTED \<and> ask_info E v = Return (J_end, on_rk (\<lambda>d. d\<lparr>rk_jpegRet := ret\<rparr>) v)"
proof -
  have "unat (of_nat n :: u32) = n" by (simp only: unat_of_nat) (use assms(4) in simp)
  then have "of_nat n < (256 :: u32)" "of_nat n = (0 :: u32) \<longleftrightarrow> n = 0" using assms(4) by (simp_all add: word_less_nat_alt unat_eq_0 [symmetric])
  then have "\<exists>ret. info_check (rk_jpegIn (of_d v)) = Some ret \<and> ret \<noteq> JPEGDEC_UNSUPPORTED \<and> ret \<noteq> JPEGDEC_OK"
    using assms(2,3) by (auto simp: info_check_def bad_buffer_size_def JPEGDEC_RK70_MIN_BUFFER_def)
  then show ?thesis using assms(1) by (auto simp: ask_info_def JpegDecGetImageInfo_def Let_def)
qed

lemma init_result:
  assumes "pv_rkJpegdecoder_init E d0 = Return (0, d)"
  shows "rk_pictureMem d = zero_MppBufferInfo" "rk_os_api d" "rk_stream_size d = 512000" "rk_jpegInst d = None"
  using assms by (auto simp: pv_rkJpegdecoder_init_def rk_reset_def Let_def split: prod.splits option.splits if_splits)

lemma oneframe_end_run:
  assumes "rk_os_api (of_d v)" "rk_ctx (of_d v) = Some p"
    "os_allocator_drm_free (re_kernel E) (rk_kernel (of_d v)) (Some p) (rk_pictureMem (of_d v)) = Some (k', r, b)"
  shows "oneframe_end E 0 v =
    Return (if rk_jpegRet (of_d v) = JPEGDEC_UNSUPPORTED then - 2 else 0, v\<lparr>of_d := (of_d v)\<lparr>rk_kernel := k', rk_pictureMem := b\<rparr>\<rparr>)"
  using assms by (simp add: oneframe_end_def mJpegFreeLinear_def allocator_drm_def)

text \<open>
  C29. A picture of 16 to 255 bytes, given to a fresh Rk_JpegDecoder, is refused because of its size, and
  the call says 0, as for a decoded picture, with nothing handed out. Its end releases the buffer of
  the picture, which was never allocated: descriptor 0 is closed, the standard input of the process, and
  the device is asked to destroy the buffer with handle 0.
\<close>

theorem First_small_picture_closes_stdin:
  assumes "pv_rkJpegdecoder_init E d0 = Return (0, d)" "rk_ctx d = Some p" "mb_vir_addr (rk_streamMem d) \<noteq> 0"
    "JpegDecInit (re_device E) (rk_ledger d) True (rk_color_conv d) = (JPEGDEC_OK, inst, l)"
    "16 \<le> length inp" "length inp < 256" "prepare_stream (rk_stream d) inp = Some (buf, n)"
    "drm_free (re_kernel E) (fst (k_close (re_kernel E) 0 (rk_kernel d))) (ac_drm_device p) 0 = Some (k', r)"
  shows "\<exists>v. pv_rkJpegdecoder_oneframe E inp 0 frame L d = Return (0, v) \<and> of_outLength v = L \<and> of_frame v = frame \<and>
    rk_kernel (of_d v) = k'"
proof -
  note d = init_result [OF assms(1)]
  obtain socket handle block where i: "inst = Some (block, init_container socket handle)"
    using assms(4) by (rule JpegDecInit_ok) auto
  let ?s = "oneframe_start inp d frame L"
  let ?d = "d\<lparr>rk_jpegRet := JPEGDEC_OK, rk_jpegInst := Some (block, \<lparr>hw_c = init_container socket handle, hw_base = [], hw_sent = []\<rparr>),
    rk_ledger := l\<rparr>"
  have s: "of_d ?s = d" by (simp add: oneframe_start_def)
  have "open_instance E ?s = Continue (?s\<lparr>of_d := ?d\<rparr>)"
    using assms(4) by (simp add: open_instance_def s d(4) i)
  moreover have "\<exists>h. andThen (grow_stream E (of_nat (length inp)) (hand_context E (?s\<lparr>of_d := ?d\<rparr>))) (load_stream inp) =
      Continue (?s\<lparr>of_d := loaded (?d\<lparr>rk_jpegInst := Some (block, h)\<rparr>) buf n\<rparr>)"
    using loading_run [of ?d block _ inp buf n "?s\<lparr>of_d := ?d\<rparr>" E] assms(3,6,7) d(3) by auto
  then obtain h where l: "andThen (grow_stream E (of_nat (length inp)) (hand_context E (?s\<lparr>of_d := ?d\<rparr>))) (load_stream inp) =
      Continue (?s\<lparr>of_d := loaded (?d\<lparr>rk_jpegInst := Some (block, h)\<rparr>) buf n\<rparr>)" ..
  let ?v = "?s\<lparr>of_d := loaded (?d\<lparr>rk_jpegInst := Some (block, h)\<rparr>) buf n\<rparr>"
  have "n < 256" using prepare_length [OF assms(7)] assms(6) by simp
  then have "\<exists>ret. ret \<noteq> JPEGDEC_UNSUPPORTED \<and> ask_info E ?v = Return (J_end, on_rk (\<lambda>d. d\<lparr>rk_jpegRet := ret\<rparr>) ?v)"
    by (intro ask_info_small) (simp_all add: loaded_def)
  then obtain ret where a: "ret \<noteq> JPEGDEC_UNSUPPORTED" "ask_info E ?v = Return (J_end, on_rk (\<lambda>d. d\<lparr>rk_jpegRet := ret\<rparr>) ?v)" by blast
  let ?w = "on_rk (\<lambda>d. d\<lparr>rk_jpegRet := ret\<rparr>) ?v"
  have b: "oneframe_body E inp 0 ?s = Return (J_end, ?w)"
    using assms(5) calculation a(2) andThen_assoc [of "grow_stream E _ _" "load_stream inp"] l
    by (simp add: oneframe_body_def flip: andThen_assoc)
  have w: "rk_os_api (of_d ?w)" "rk_ctx (of_d ?w) = Some p" "rk_jpegRet (of_d ?w) = ret" "rk_kernel (of_d ?w) = rk_kernel d"
    "rk_pictureMem (of_d ?w) = zero_MppBufferInfo" "of_outLength ?w = L" "of_frame ?w = frame"
    using d assms(2) by (simp_all add: on_rk_def loaded_def oneframe_start_def)
  obtain kc e x where c: "k_close (re_kernel E) 0 (rk_kernel d) = (kc, e, x)" by (cases "k_close (re_kernel E) 0 (rk_kernel d)")
  have z: "mb_vir_addr zero_MppBufferInfo = 0" "buffer_fd zero_MppBufferInfo = 0" "mb_hnd zero_MppBufferInfo = 0"
    by (simp_all add: buffer_fd_def zero_MppBufferInfo_def)
  have "os_allocator_drm_free (re_kernel E) (rk_kernel (of_d ?w)) (Some p) (rk_pictureMem (of_d ?w)) = Some (k', r, zero_MppBufferInfo)"
    unfolding w os_allocator_drm_free_def option.case
    using assms(8) z c by simp
  from oneframe_end_run [OF w(1,2) this] show ?thesis
    using b a(1) w by (simp add: pv_rkJpegdecoder_oneframe_def)
qed

end
