(* ===== verification/RkHeader.thy ===== *)
theory RkHeader
  imports RkPicture
begin

text \<open>
  How Rk_JpegDecoder gets from a well-formed header (jpeg_header of InfoHeader) to the decoder: a
  predicate on the variables of pv_rkJpegdecoder_oneframe (stage) that every step keeps, and the fate of
  a progressive picture.
\<close>

section \<open>From a header to the decoder\<close>

text \<open>What a step between the header and the decoder may find and leave.\<close>

definition stage ::
  "'k Rk_JpegDecoder \<Rightarrow> u32 \<Rightarrow> addr \<Rightarrow> hw_state \<Rightarrow> JpegDecInput \<Rightarrow> 'k \<Rightarrow> MppBufferInfo \<Rightarrow> 'k oneframe_vars \<Rightarrow> bool" where
  "stage d L a h inp k b v \<longleftrightarrow> same_client d v \<and> rk_vpumem_ctx (of_d v) = rk_vpumem_ctx d \<and>
     rk_color_conv (of_d v) = rk_color_conv d \<and> stream_memory (of_d v) = stream_memory d \<and> of_outLength v = L \<and> rk_jpegInst (of_d v) = Some (a, h) \<and>
     rk_jpegIn (of_d v) = inp \<and> rk_kernel (of_d v) = k \<and> rk_pictureMem (of_d v) = b"

lemma ask_info_header:
  assumes "stage d L a h inp k b v" "holds (stream_memory d) inp (header_bytes hh @ x # bs)" "header_ok (hw_c h) fmt hh"
    "header_passes hh + 8 < 8 * length bs" "header_passes hh \<le> re_fuel E"
  shows "\<exists>v'. ask_info E v = Continue v' \<and> rk_imageInfo (of_d v') = header_info fmt hh (info_reset (rk_imageInfo (of_d v))) \<and>
    stage d L a (h\<lparr>hw_c := header_c inp fmt hh (ii_codingMode (rk_imageInfo (of_d v'))) (hw_c h)\<rparr>) inp k b v'"
proof -
  have v: "stream_memory (of_d v) = stream_memory d" "rk_jpegInst (of_d v) = Some (a, h)" "rk_jpegIn (of_d v) = inp"
    using assms(1) by (simp_all add: stage_def)
  obtain g where g: "JpegDecGetImageInfo (re_fuel E) (stream_memory d) (Some (hw_c h)) (Some inp) (Some (rk_imageInfo (of_d v))) =
      Return (JPEGDEC_OK, Some g)" "gi_info g = header_info fmt hh (info_reset (rk_imageInfo (of_d v)))"
    "gi_c g = header_c inp fmt hh (ii_codingMode (gi_info g)) (hw_c h)"
    using GetImageInfo_header [OF assms(2-5)] by blast
  show ?thesis
    using assms(1) g by (simp add: ask_info_def v on_inst_def on_rk_def on_c_def stage_def same_client_def stream_memory_def Let_def)
qed

lemma round_up_size:
  assumes "unat x < 2 ^ 20" "n = 2 \<or> n = 8 \<or> n = 16"
  shows "int_size (sint (round_up n x))"
proof -
  have b: "unat (x + (n - 1)) < 2 ^ 21" using assms by (subst u32_add) auto
  have "unat (round_up n x) \<le> unat (x + (n - 1))"
    unfolding round_up_def by (simp add: word_le_nat_alt [symmetric] word_and_le2)
  then have "uint (round_up n x) < 2147483648" using b by (simp add: nat_less_iff flip: nat_uint_eq)
  moreover have "0 \<le> uint (round_up n x)" by simp
  ultimately have "- 2147483648 \<le> uint (round_up n x) \<and> uint (round_up n x) < 2147483648" by linarith
  then have "sint (round_up n x) = uint (round_up n x)"
    by (simp add: sint_uint signed_take_bit_int_eq_self)
  then show ?thesis using \<open>uint (round_up n x) < 2147483648\<close> by (simp add: int_size_def)
qed

lemma client_output_stage:
  assumes "stage d L a h inp k b v"
  shows "\<exists>pp. stage d L a (on_c (\<lambda>c. c\<lparr>c_ppInstance := pp\<rparr>) h) inp k b (client_output v) \<and> (rk_color_conv d = 0 \<longrightarrow> pp = 0)"
    "rk_imageInfo (of_d (client_output v)) = rk_imageInfo (of_d v)"
    "0 \<le> of_ppInputFomart (client_output v) \<and> of_ppInputFomart (client_output v) \<le> 8"
    "ppi_outFomart (of_ppInfo (client_output v)) = 5" "ppi_cropW (of_ppInfo (client_output v)) = 0"
proof -
  show "\<exists>pp. stage d L a (on_c (\<lambda>c. c\<lparr>c_ppInstance := pp\<rparr>) h) inp k b (client_output v) \<and> (rk_color_conv d = 0 \<longrightarrow> pp = 0)"
    using assms by (cases "rk_color_conv (of_d v) = 0")
      (auto simp: client_output_def stage_def same_client_def stream_memory_def on_inst_def on_rk_def Let_def split: prod.split)
  show "rk_imageInfo (of_d (client_output v)) = rk_imageInfo (of_d v)"
    by (simp add: client_output_def on_inst_def on_rk_def Let_def split: prod.split)
  have "0 \<le> pp_input_format fmt \<and> pp_input_format fmt \<le> 8" for fmt
    by (simp add: pp_input_format_def PP_IN_FORMAT_YUV400_def PP_IN_FORMAT_YUV420SEMI_def PP_IN_FORMAT_YUV422SEMI_def
        PP_IN_FORMAT_YUV440SEMI_def PP_IN_FORMAT_YUV411_SEMI_def PP_IN_FORMAT_YUV444_SEMI_def)
  then show "0 \<le> of_ppInputFomart (client_output v) \<and> of_ppInputFomart (client_output v) \<le> 8"
    by (simp add: client_output_def on_inst_def on_rk_def Let_def split: prod.split)
  show "ppi_outFomart (of_ppInfo (client_output v)) = 5" "ppi_cropW (of_ppInfo (client_output v)) = 0"
    by (simp_all add: client_output_def on_inst_def on_rk_def zero_PostProcessInfo_def Let_def split: prod.split)
qed

lemma client_output_size:
  assumes "unat (ii_outputWidth (rk_imageInfo (of_d v))) < 2 ^ 20" "unat (ii_outputHeight (rk_imageInfo (of_d v))) < 2 ^ 20"
  shows "int_size (sint (of_ppScaleW (client_output v)))" "int_size (sint (of_ppScaleH (client_output v)))"
  using assms by (simp_all add: client_output_def on_inst_def on_rk_def Let_def round_up_size)

lemma alloc_picture_once:
  assumes "0 < n" "rk_vpumem_ctx (of_d v) = 0"
    "rk_alloc_map E (rk_kernel (of_d v)) (rk_ctx (of_d v)) ((rk_pictureMem (of_d v))\<lparr>mb_size := of_pic_size v\<rparr>) = Some (k, al, 0, b)"
  shows "alloc_picture n E v = Continue (v\<lparr>of_ret := Some 0, of_d := (of_d v)\<lparr>rk_kernel := k, rk_pictureMem := b\<rparr>\<rparr>)"
  using assms by (cases n) (simp_all add: DWL_OK_def Let_def)

lemma get_picture_stage:
  assumes "stage d L a h inp k b v" "rk_vpumem_ctx d = 0" "\<forall>n. \<exists>al. rk_alloc_map E k (rk_ctx d) (b\<lparr>mb_size := n\<rparr>) = Some (k' n, al, 0, b' n)"
  shows "\<exists>v' n. get_picture E 0 v = Continue v' \<and> stage d L a h inp (k' n) (b' n) v' \<and> v' = v\<lparr>of_ret := of_ret v', of_d := of_d v'\<rparr> \<and>
    rk_imageInfo (of_d v') = rk_imageInfo (of_d v)"
proof -
  obtain al where "rk_alloc_map E k (rk_ctx d) (b\<lparr>mb_size := of_pic_size v\<rparr>) = Some (k' (of_pic_size v), al, 0, b' (of_pic_size v))"
    using assms(3) by blast
  then have "get_picture E 0 v = Continue (v\<lparr>of_ret := Some 0, of_d := (of_d v)\<lparr>rk_kernel := k' (of_pic_size v), rk_pictureMem := b' (of_pic_size v)\<rparr>\<rparr>)"
    using assms(1,2) by (simp add: get_picture_def alloc_picture_once stage_def same_client_def)
  then show ?thesis using assms(1) by (auto simp: stage_def same_client_def stream_memory_def intro!: exI [of _ "of_pic_size v"])
qed

lemma program_output_stage:
  assumes "stage d L a h inp k b v" "0 \<le> of_ppInputFomart v" "of_ppInputFomart v \<le> 8" "ppi_outFomart (of_ppInfo v) = 5"
    "ppi_cropW (of_ppInfo v) = 0" "int_size (sint (of_ppScaleW v))" "int_size (sint (of_ppScaleH v))"
    "int_size (sint (ii_outputWidth (rk_imageInfo (of_d v))))" "int_size (sint (ii_outputHeight (rk_imageInfo (of_d v))))"
    "1 < sint (ii_outputWidth (rk_imageInfo (of_d v)))" "1 < sint (ii_outputHeight (rk_imageInfo (of_d v)))"
  shows "\<exists>v' r m. program_output v = Continue v' \<and> rk_imageInfo (of_d v') = rk_imageInfo (of_d v) \<and>
    stage d L a (on_c (\<lambda>c. c\<lparr>c_pictureMem := Some b, c_jpegRegs := r, c_ioctl_info := m\<rparr>) h) inp k b v'"
proof -
  let ?i = "rk_imageInfo (of_d v)"
  have v: "rk_jpegInst (of_d v) = Some (a, h)" "rk_pictureMem (of_d v) = b" using assms(1) by (simp_all add: stage_def)
  have "pp_in_size (sint (ii_outputWidth ?i)) (sint (ii_outputHeight ?i)) (of_ppInfo v) = (sint (ii_outputWidth ?i), sint (ii_outputHeight ?i))"
    using assms(5) by (simp add: pp_in_size_def)
  note SetPostProcessor_outcome [OF this assms(8,9,6,7), where inColor = "of_ppInputFomart v" and r = "c_jpegRegs (hw_c h)"
    and phy_addr = "mb_phy_addr b", THEN conjunct2, THEN conjunct2]
  then obtain r where r: "SetPostProcessor (c_jpegRegs (hw_c h)) (mb_phy_addr b) (sint (ii_outputWidth ?i)) (sint (ii_outputHeight ?i))
      (sint (of_ppScaleW v)) (sint (of_ppScaleH v)) (of_ppInputFomart v) (of_ppInfo v) = Return (0, r)"
    using assms(2-4,10,11) by auto
  show ?thesis
    using assms(1) r by (auto simp: program_output_def v on_inst_def on_rk_def on_c_def set_slot_def Let_def stage_def same_client_def stream_memory_def)
qed

lemma set_slices_stage:
  assumes "stage d L a h inp k b v" "ii_outputWidth (rk_imageInfo (of_d v)) * ii_outputHeight (rk_imageInfo (of_d v)) \<le> JPEGDEC_MAX_PIXEL_AMOUNT"
  shows "\<exists>v'. set_slices v = Continue v' \<and> stage d L a h (inp\<lparr>in_sliceMbSet := 0, in_decImageType := 0\<rparr>) k b v'"
  using assms by (simp add: set_slices_def force_slices_def on_rk_def stage_def same_client_def stream_memory_def not_less [symmetric])

text \<open>Both sides of a picture that is in the limits of the decoder.\<close>

definition limits_ok :: "JpegDecContainer \<Rightarrow> bool" where
  "limits_ok c \<longleftrightarrow> 2 \<le> c_minSupportedWidth c \<and> 2 \<le> c_minSupportedHeight c \<and>
     c_maxSupportedWidth c \<le> 8176 \<and> c_maxSupportedHeight c \<le> 8176"

lemma header_size:
  assumes "header_ok c fmt hh" "limits_ok c"
  shows "2 \<le> unat (fh_columns fmt (jh_frame hh)) \<and> unat (fh_columns fmt (jh_frame hh)) \<le> 8176 \<and>
    2 \<le> unat (fh_rows (jh_frame hh)) \<and> unat (fh_rows (jh_frame hh)) \<le> 8176"
proof -
  let ?w = "round_up_16 (of_nat (fh_x (jh_frame hh)))" and ?h = "fh_rows (jh_frame hh)"
  have f: "c_minSupportedWidth c \<le> ?w" "c_minSupportedHeight c \<le> ?h" "?w \<le> c_maxSupportedWidth c" "?h \<le> c_maxSupportedHeight c"
    "fh_columns fmt (jh_frame hh) \<le> c_maxSupportedWidth c"
    using assms(1) by (simp_all add: header_ok_def frame_ok_def frame_fits_def Let_def)
  then have w: "2 \<le> unat ?w" "unat ?w \<le> 8176" "2 \<le> unat ?h" "unat ?h \<le> 8176" "unat (fh_columns fmt (jh_frame hh)) \<le> 8176"
    using assms(2) by (simp_all add: limits_ok_def word_le_nat_alt)
  then have "unat (?w + 16) = unat ?w + 16" by (subst u32_add) simp_all
  then show ?thesis using w by (simp add: fh_columns_def Let_def split: if_splits)
qed

lemma header_info_size:
  "ii_outputWidth (header_info fmt hh i) = fh_columns fmt (jh_frame hh)" "ii_outputHeight (header_info fmt hh i) = fh_rows (jh_frame hh)"
proof -
  have a: "ii_outputWidth (app_info s i) = ii_outputWidth i \<and> ii_outputHeight (app_info s i) = ii_outputHeight i" for s i
    by (cases s) simp_all
  have "ii_outputWidth (fold app_info ss i) = ii_outputWidth i \<and> ii_outputHeight (fold app_info ss i) = ii_outputHeight i" for ss i
    by (induction ss arbitrary: i) (simp_all add: a)
  then show "ii_outputWidth (header_info fmt hh i) = fh_columns fmt (jh_frame hh)" "ii_outputHeight (header_info fmt hh i) = fh_rows (jh_frame hh)"
    by (simp_all add: header_info_def frame_info_def Let_def)
qed

lemma small_sint: "2 \<le> unat x \<Longrightarrow> unat x \<le> 8176 \<Longrightarrow> int_size (sint (x :: u32)) \<and> 1 < sint x"
proof -
  assume "2 \<le> unat x" "unat x \<le> 8176"
  then have u: "2 \<le> uint x" "uint x \<le> 8176" by (simp_all add: nat_le_iff le_nat_iff flip: nat_uint_eq)
  then have "- 2147483648 \<le> uint x \<and> uint x < 2147483648" by linarith
  then have "sint x = uint x" by (simp add: sint_uint signed_take_bit_int_eq_self)
  then show ?thesis using u by (simp add: int_size_def)
qed

text \<open>From the stream in the buffer to the first call of JpegDecDecode.\<close>

lemma header_reaches_decode:
  assumes "stage d L a h inp k b v" "holds (stream_memory d) inp (header_bytes hh @ x # bs)" "header_ok (hw_c h) fmt hh" "limits_ok (hw_c h)"
    "header_passes hh + 8 < 8 * length bs" "header_passes hh \<le> re_fuel E"
    "fh_columns fmt (jh_frame hh) * fh_rows (jh_frame hh) \<le> JPEGDEC_MAX_PIXEL_AMOUNT"
    "rk_vpumem_ctx d = 0" "\<forall>n. \<exists>al. rk_alloc_map E k (rk_ctx d) (b\<lparr>mb_size := n\<rparr>) = Some (k' n, al, 0, b' n)"
  shows "\<exists>v' r m pp n i.
    andThen (ask_info E v) (\<lambda>v. andThen (get_picture E 0 (client_output v)) (\<lambda>v. andThen (program_output v) (\<lambda>v.
      andThen (set_slices v) (decode_loop E 0)))) = decode_loop E 0 v' \<and>
    stage d L a (h\<lparr>hw_c := (header_c inp fmt hh (ii_codingMode (header_info fmt hh i)) (hw_c h))
        \<lparr>c_ppInstance := pp, c_pictureMem := Some (b' n), c_jpegRegs := r, c_ioctl_info := m\<rparr>\<rparr>)
      (inp\<lparr>in_sliceMbSet := 0, in_decImageType := 0\<rparr>) (k' n) (b' n) v' \<and> (rk_color_conv d = 0 \<longrightarrow> pp = 0)"
proof -
  obtain v1 where v1: "ask_info E v = Continue v1" "rk_imageInfo (of_d v1) = header_info fmt hh (info_reset (rk_imageInfo (of_d v)))"
    "stage d L a (h\<lparr>hw_c := header_c inp fmt hh (ii_codingMode (rk_imageInfo (of_d v1))) (hw_c h)\<rparr>) inp k b v1"
    using ask_info_header [OF assms(1,2,3,5,6)] by blast
  let ?i = "info_reset (rk_imageInfo (of_d v))" and ?c = "header_c inp fmt hh (ii_codingMode (rk_imageInfo (of_d v1))) (hw_c h)"
  have sz: "2 \<le> unat (ii_outputWidth (rk_imageInfo (of_d v1)))" "unat (ii_outputWidth (rk_imageInfo (of_d v1))) \<le> 8176"
    "2 \<le> unat (ii_outputHeight (rk_imageInfo (of_d v1)))" "unat (ii_outputHeight (rk_imageInfo (of_d v1))) \<le> 8176"
    using header_size [OF assms(3,4)] unfolding v1(2) header_info_size by blast+
  note o = client_output_stage [OF v1(3)]
  obtain pp where pp: "stage d L a (on_c (\<lambda>c. c\<lparr>c_ppInstance := pp\<rparr>) (h\<lparr>hw_c := ?c\<rparr>)) inp k b (client_output v1)"
    "rk_color_conv d = 0 \<longrightarrow> pp = 0" using o(1) by blast
  have osz: "int_size (sint (of_ppScaleW (client_output v1)))" "int_size (sint (of_ppScaleH (client_output v1)))"
    using client_output_size [of v1] sz by simp_all
  obtain v2 n where v2: "get_picture E 0 (client_output v1) = Continue v2" "v2 = (client_output v1)\<lparr>of_ret := of_ret v2, of_d := of_d v2\<rparr>"
    "stage d L a (on_c (\<lambda>c. c\<lparr>c_ppInstance := pp\<rparr>) (h\<lparr>hw_c := ?c\<rparr>)) inp (k' n) (b' n) v2"
    "rk_imageInfo (of_d v2) = rk_imageInfo (of_d v1)"
    using get_picture_stage [OF pp(1) assms(8,9)] o(2) by auto
  have l: "of_ppInputFomart v2 = of_ppInputFomart (client_output v1)" "of_ppInfo v2 = of_ppInfo (client_output v1)"
    "of_ppScaleW v2 = of_ppScaleW (client_output v1)" "of_ppScaleH v2 = of_ppScaleH (client_output v1)"
    by (subst v2(2), simp)+
  obtain v3 r m where v3: "program_output v2 = Continue v3" "rk_imageInfo (of_d v3) = rk_imageInfo (of_d v1)"
    "stage d L a (on_c (\<lambda>c. c\<lparr>c_pictureMem := Some (b' n), c_jpegRegs := r, c_ioctl_info := m\<rparr>)
       (on_c (\<lambda>c. c\<lparr>c_ppInstance := pp\<rparr>) (h\<lparr>hw_c := ?c\<rparr>))) inp (k' n) (b' n) v3"
    using program_output_stage [OF v2(3)] o(3-5) osz small_sint [OF sz(1,2)] small_sint [OF sz(3,4)] unfolding l v2(4) by blast
  have "ii_outputWidth (rk_imageInfo (of_d v3)) * ii_outputHeight (rk_imageInfo (of_d v3)) \<le> JPEGDEC_MAX_PIXEL_AMOUNT"
    unfolding v3(2) v1(2) header_info_size by (rule assms(7))
  then obtain v4 where v4: "set_slices v3 = Continue v4" "stage d L a (on_c (\<lambda>c. c\<lparr>c_pictureMem := Some (b' n), c_jpegRegs := r, c_ioctl_info := m\<rparr>)
       (on_c (\<lambda>c. c\<lparr>c_ppInstance := pp\<rparr>) (h\<lparr>hw_c := ?c\<rparr>))) (inp\<lparr>in_sliceMbSet := 0, in_decImageType := 0\<rparr>) (k' n) (b' n) v4"
    using set_slices_stage [OF v3(3)] by blast
  have "andThen (ask_info E v) (\<lambda>v. andThen (get_picture E 0 (client_output v)) (\<lambda>v. andThen (program_output v) (\<lambda>v.
      andThen (set_slices v) (decode_loop E 0)))) = decode_loop E 0 v4"
    by (simp add: v1(1) v2(1) v3(1) v4(1))
  moreover have "stage d L a (h\<lparr>hw_c := (header_c inp fmt hh (ii_codingMode (header_info fmt hh ?i)) (hw_c h))
        \<lparr>c_ppInstance := pp, c_pictureMem := Some (b' n), c_jpegRegs := r, c_ioctl_info := m\<rparr>\<rparr>)
      (inp\<lparr>in_sliceMbSet := 0, in_decImageType := 0\<rparr>) (k' n) (b' n) v4"
    using v4(2) by (simp add: on_c_def v1(2))
  ultimately show ?thesis using pp(2) by blast
qed

text \<open>A picture that is copied as it is.\<close>

definition plain_picture :: "u8 list \<Rightarrow> bool" where
  "plain_picture inp \<longleftrightarrow> 256 \<le> length inp \<and> length inp < 2 ^ 18 \<and> \<not> is_avi1 inp \<and>
     (inp ! (length inp - 2) \<noteq> 0xFF \<or> inp ! (length inp - 1) \<noteq> 0xD9)"

lemma prepare_plain:
  assumes "plain_picture inp"
  shows "\<exists>rest. prepare_stream buf inp = Some (inp @ rest, length inp)"
proof -
  have "length inp + 255 < 2 ^ 32" "2 \<le> length inp" using assms by (simp_all add: plain_picture_def)
  then show ?thesis using assms
    by (auto simp: prepare_stream_def fill_stream_plain cut_padding_def nth_append plain_picture_def)
qed

lemma holds_prefix:
  assumes "in_bufferSize inp = of_nat (length bs)" "in_streamLength inp = of_nat (length bs)" "256 \<le> length bs" "length bs < 2 ^ 18"
    "\<not> lm_pVirtualAddress (in_streamBuffer inp) < 64"
  shows "holds (memory_of (lm_pVirtualAddress (in_streamBuffer inp)) (bs @ rest)) inp bs"
proof -
  have u: "unat (of_nat i :: u32) = i" if "i \<le> length bs" for i by (simp only: unat_of_nat) (use that assms(4) in simp)
  have "bs \<noteq> []" using assms(3) by auto
  then have "info_check inp = None"
    using assms u [of "length bs"] by (simp add: info_check_def bad_virtual_address_def bad_buffer_size_def JPEGDEC_RK70_MIN_BUFFER_def
        JPEGDEC_RK70_MAX_BUFFER_def DEC_RK70_MAX_STREAM_def word_less_nat_alt)
  moreover have "in_bufferSize inp \<noteq> 0" using u [of "length bs"] assms(1,3) by (auto simp: word_unat_eq_iff)
  ultimately show ?thesis using assms(1,4) u by (simp add: holds_def memory_of_def Let_def nth_append)
qed

lemma oneframe_loads:
  fixes d d1 :: "'k Rk_JpegDecoder" and inp :: "u8 list" and frame :: JPEG_FRAME and L :: u32
  defines "s \<equiv> oneframe_start inp d frame L"
  assumes "open_instance E s = Continue (s\<lparr>of_d := d1\<rparr>)" "rk_jpegInst d1 = Some (a, h)" "rk_stream_size d1 = 512000"
    "mb_vir_addr (rk_streamMem d1) \<noteq> 0" "16 \<le> length inp" "length inp < 2 ^ 18" "prepare_stream (rk_stream d1) inp = Some (buf, n)"
  defines "d2 \<equiv> loaded (d1\<lparr>rk_jpegInst := Some (a, on_c (handed E d1) h)\<rparr>) buf n"
  shows "oneframe_body E inp 0 s = andThen (ask_info E (s\<lparr>of_d := d2\<rparr>)) (\<lambda>v. andThen (get_picture E 0 (client_output v)) (\<lambda>v.
      andThen (program_output v) (\<lambda>v. andThen (set_slices v) (decode_loop E 0))))" (is ?body)
    and "stage d2 L a (on_c (handed E d1) h) (rk_jpegIn d2) (rk_kernel d1) (rk_pictureMem d1) (s\<lparr>of_d := d2\<rparr>)" (is ?stage)
proof -
  have "andThen (grow_stream E (of_nat (length inp)) (hand_context E (s\<lparr>of_d := d1\<rparr>))) (load_stream inp) = Continue (s\<lparr>of_d := d2\<rparr>)"
    using loading_run [OF assms(3,4,5,7,8), of "s\<lparr>of_d := d1\<rparr>" E] by (simp add: d2_def)
  then show ?body using assms(2,6) by (simp add: oneframe_body_def flip: andThen_assoc)
  show ?stage by (simp add: stage_def same_client_def d2_def loaded_def stream_memory_def s_def oneframe_start_def)
qed

text \<open>A decoder that knows its picture to be progressive.\<close>

lemma decode_setup_refuses:
  assumes "inf_init (c_info (dv_c v)) \<noteq> 0" "c_is8190 (dv_c v) \<noteq> 0" "c_fuseBurned (dv_c v) \<noteq> 0"
    "inf_operationType (c_info (dv_c v)) = JPEGDEC_PROGRESSIVE"
  shows "\<exists>v'. decode_setup fuel mem infoTmp inp v = Return (JPEGDEC_UNSUPPORTED, v') \<and> hw_sent (dv_h v') = hw_sent (dv_h v)"
proof -
  have i: "in_c v (decode_info fuel mem infoTmp inp (dv_c v)) = Continue (on_dc (\<lambda>_. dv_c v) v)"
    using assms(1) by (simp add: decode_info_def)
  let ?v = "on_info (\<lambda>i. i\<lparr>inf_sliceMbSetValue := in_sliceMbSet inp\<rparr>) (decode_stream inp (on_dc (\<lambda>_. dv_c v) v))"
  have "c_is8190 (dv_c ?v) = c_is8190 (dv_c v)" "c_fuseBurned (dv_c ?v) = c_fuseBurned (dv_c v)"
    "inf_operationType (c_info (dv_c ?v)) = inf_operationType (c_info (dv_c v))" "hw_sent (dv_h ?v) = hw_sent (dv_h v)"
    by (simp_all add: decode_stream_def on_dc_def on_c_def Let_def)
  moreover from this have "decode_supported inp (dv_c ?v) = Some JPEGDEC_UNSUPPORTED"
    using assms(2-4) unfolding decode_supported_def Let_def by simp
  ultimately show ?thesis unfolding decode_setup_def i by (simp add: Let_def)
qed

lemma pass_refused:
  assumes "stage d L a h inp k b v"
    "JpegDecDecode (re_fuel E) (stream_memory d) (re_malloc E) (re_al E) (re_core E) (re_infoTmp E) (Some h) (Some inp) (Some (rk_jpegOut (of_d v))) =
       Return (JPEGDEC_UNSUPPORTED, Some u)"
  shows "\<exists>v'. decode_loop E 0 v = Return (J_end, v') \<and> stage d L a (dv_h u) inp k b v' \<and> rk_jpegRet (of_d v') = JPEGDEC_UNSUPPORTED"
  using assms by (simp add: decode_loop_def client_pass_def stage_def same_client_def stream_memory_def on_rk_def Let_def)

lemma init_input:
  assumes "pv_rkJpegdecoder_init E d0 = Return (0, d)"
  shows "in_pictureBufferY (rk_jpegIn d) = null_mem" "in_pictureBufferCbCr (rk_jpegIn d) = null_mem"
  using assms by (auto simp: pv_rkJpegdecoder_init_def rk_reset_def Let_def split: prod.splits option.splits if_splits)

lemma info_check_slices: "info_check (inp\<lparr>in_sliceMbSet := s, in_decImageType := t\<rparr>) = info_check inp"
  by (simp add: info_check_def)

lemma decode_check_header:
  assumes "info_check inp = None" "inf_init (c_info c) = 1" "inf_initBufferSize (c_info c) = in_bufferSize inp"
    "inf_streamEndFlag (c_info c) = 0 \<longrightarrow> inf_inputBufferEmpty (c_info c) = 0" "in_bufferSize inp \<noteq> 0" "in_decImageType inp = 0"
    "in_pictureBufferY inp = null_mem" "in_pictureBufferCbCr inp = null_mem"
  shows "decode_check c inp = None"
  using assms by (auto simp: info_check_def decode_check_def half_null_def null_mem_def Let_def split: if_splits)

text \<open>The call for a progressive picture and the end of the client's function.\<close>

lemma refused_call:
  fixes h :: hw_state and inp :: JpegDecInput
  defines "i \<equiv> c_info (hw_c h)"
  assumes "stage d L a h inp k b v" "decode_check (hw_c h) inp = None" "inf_init i \<noteq> 0" "inf_operationType i = JPEGDEC_PROGRESSIVE"
    "c_is8190 (hw_c h) \<noteq> 0" "c_fuseBurned (hw_c h) \<noteq> 0" "rk_os_api d" "rk_ctx d = Some p"
    "os_allocator_drm_free (re_kernel E) k (Some p) b = Some (k', r, b')" "oneframe_body E bytes 0 (oneframe_start bytes d0 frame L) = decode_loop E 0 v"
  shows "\<exists>v' h'. pv_rkJpegdecoder_oneframe E bytes 0 frame L d0 = Return (JpegDecRet_value JPEGDEC_UNSUPPORTED, v') \<and>
    of_outLength v' = L \<and> rk_jpegInst (of_d v') = Some (a, h') \<and> hw_sent h' = hw_sent h"
proof -
  let ?w = "decode_start_vars h (rk_jpegOut (of_d v))"
  have w: "dv_c ?w = hw_c h" "hw_sent (dv_h ?w) = hw_sent h" by (simp_all add: decode_start_vars_def)
  obtain u where u: "decode_setup (re_fuel E) (stream_memory d) (re_infoTmp E) inp ?w = Return (JPEGDEC_UNSUPPORTED, u)"
    "hw_sent (dv_h u) = hw_sent h"
    using decode_setup_refuses [of ?w, unfolded w] assms(4-7) unfolding i_def by blast
  have "JpegDecDecode (re_fuel E) (stream_memory d) (re_malloc E) (re_al E) (re_core E) (re_infoTmp E) (Some h) (Some inp)
      (Some (rk_jpegOut (of_d v))) = Return (JPEGDEC_UNSUPPORTED, Some u)"
    using assms(3) u(1) by (simp add: JpegDecDecode_def decode_body_def)
  from pass_refused [OF assms(2) this] obtain v1 where v1: "decode_loop E 0 v = Return (J_end, v1)" "stage d L a (dv_h u) inp k b v1"
    "rk_jpegRet (of_d v1) = JPEGDEC_UNSUPPORTED" by blast
  have s: "rk_os_api (of_d v1)" "rk_ctx (of_d v1) = Some p"
    "os_allocator_drm_free (re_kernel E) (rk_kernel (of_d v1)) (Some p) (rk_pictureMem (of_d v1)) = Some (k', r, b')"
    "of_outLength v1 = L" "rk_jpegInst (of_d v1) = Some (a, dv_h u)"
    using v1(2) assms(8-10) by (simp_all add: stage_def same_client_def)
  show ?thesis
    using oneframe_end_run [OF s(1-3)] assms(11) v1(1,3) s(4,5) u(2) by (simp add: pv_rkJpegdecoder_oneframe_def)
qed

lemma progressive_mode: "fh_progressive (jh_frame hh) \<Longrightarrow> ii_codingMode (header_info fmt hh i) = JPEGDEC_PROGRESSIVE"
  by (simp add: header_info_def scan_mode_def frame_info_def fh_mode_def jpeg_consts Let_def)

text \<open>The state in which a fresh client reaches the first call of JpegDecDecode.\<close>

definition ready_to_decode ::
  "'k rk_env \<Rightarrow> 'k Rk_JpegDecoder \<Rightarrow> u32 \<Rightarrow> u32 \<Rightarrow> addr \<Rightarrow> hw_state \<Rightarrow> JpegDecInput \<Rightarrow> 'k \<Rightarrow> MppBufferInfo \<Rightarrow> 'k oneframe_vars \<Rightarrow> bool" where
  "ready_to_decode E d L mode a h inp k b v \<longleftrightarrow> (\<exists>d'. stage d' L a h inp k b v \<and> rk_os_api d' = rk_os_api d \<and> rk_ctx d' = rk_ctx d) \<and>
     decode_check (hw_c h) inp = None \<and> inf_init (c_info (hw_c h)) \<noteq> 0 \<and> inf_operationType (c_info (hw_c h)) = mode \<and>
     c_is8190 (hw_c h) \<noteq> 0 \<and> c_fuseBurned (hw_c h) \<noteq> 0 \<and> hw_sent h = []"

lemma fresh_reaches_decode:
  assumes "pv_rkJpegdecoder_init E d0 = Return (0, d)" "rk_ctx d = Some p" "\<not> mb_vir_addr (rk_streamMem d) < 64" "rk_vpumem_ctx d = 0"
    "JpegDecInit (re_device E) (rk_ledger d) True (rk_color_conv d) = (JPEGDEC_OK, Some (block, c), l)"
    "plain_picture inp" "inp = header_bytes hh @ x # bs" "header_ok c fmt hh"
    "header_passes hh + 8 < 8 * length bs" "header_passes hh \<le> re_fuel E"
    "fh_columns fmt (jh_frame hh) * fh_rows (jh_frame hh) \<le> JPEGDEC_MAX_PIXEL_AMOUNT"
    "\<forall>n. \<exists>al. rk_alloc_map E (rk_kernel d) (Some p) (zero_MppBufferInfo\<lparr>mb_size := n\<rparr>) = Some (k' n, al, 0, b' n)"
  shows "\<exists>v h inp' n i. oneframe_body E inp 0 (oneframe_start inp d frame L) = decode_loop E 0 v \<and>
    ready_to_decode E d L (ii_codingMode (header_info fmt hh i)) block h inp' (k' n) (b' n) v"
proof -
  note d = init_result [OF assms(1)] init_input [OF assms(1)]
  let ?s = "oneframe_start inp d frame L" and ?h = "\<lparr>hw_c = c, hw_base = [], hw_sent = []\<rparr>"
  let ?d = "d\<lparr>rk_jpegRet := JPEGDEC_OK, rk_jpegInst := Some (block, ?h), rk_ledger := l\<rparr>"
  obtain socket handle where c: "c = init_container socket handle" using assms(5) by (rule JpegDecInit_ok) auto
  have opened: "open_instance E ?s = Continue (?s\<lparr>of_d := ?d\<rparr>)"
    using assms(5) by (simp add: open_instance_def oneframe_start_def d(4))
  obtain rest where prep: "prepare_stream (rk_stream d) inp = Some (inp @ rest, length inp)" using prepare_plain [OF assms(6)] by blast
  have len: "256 \<le> length inp" "length inp < 2 ^ 18" using assms(6) by (simp_all add: plain_picture_def)
  have vir: "mb_vir_addr (rk_streamMem d) \<noteq> 0" using assms(3) by auto
  let ?d2 = "loaded (?d\<lparr>rk_jpegInst := Some (block, on_c (handed E ?d) ?h)\<rparr>) (inp @ rest) (length inp)"
  let ?inp = "rk_jpegIn ?d2" and ?c = "hw_c (on_c (handed E ?d) ?h)"
  have b: "oneframe_body E inp 0 ?s = andThen (ask_info E (?s\<lparr>of_d := ?d2\<rparr>)) (\<lambda>v. andThen (get_picture E 0 (client_output v)) (\<lambda>v.
      andThen (program_output v) (\<lambda>v. andThen (set_slices v) (decode_loop E 0))))"
    and st: "stage ?d2 L block (on_c (handed E ?d) ?h) ?inp (rk_kernel d) zero_MppBufferInfo (?s\<lparr>of_d := ?d2\<rparr>)"
    using oneframe_loads [OF opened, of block ?h "inp @ rest" "length inp"] len prep vir d by simp_all
  have inp: "in_bufferSize ?inp = of_nat (length inp)" "in_streamLength ?inp = of_nat (length inp)"
    "lm_pVirtualAddress (in_streamBuffer ?inp) = mb_vir_addr (rk_streamMem d)" "in_pictureBufferY ?inp = null_mem" "in_pictureBufferCbCr ?inp = null_mem"
    by (simp_all add: loaded_def d)
  have "holds (memory_of (lm_pVirtualAddress (in_streamBuffer ?inp)) (inp @ rest)) ?inp inp"
    by (rule holds_prefix) (use inp len assms(3) in simp_all)
  then have "holds (stream_memory ?d2) ?inp inp" by (simp add: loaded_def stream_memory_def)
  then have holds: "holds (stream_memory ?d2) ?inp (header_bytes hh @ x # bs)" by (simp only: assms(7) [symmetric])
  have cs: "header_ok ?c fmt hh" "limits_ok ?c"
    using assms(8) by (simp_all add: on_c_def handed_def header_ok_def frame_ok_def frame_fits_def limits_ok_def c init_container_eq jpeg_consts)
  obtain v r m pp n i where v: "oneframe_body E inp 0 ?s = decode_loop E 0 v"
    "stage ?d2 L block (on_c (handed E ?d) ?h\<lparr>hw_c := (header_c ?inp fmt hh (ii_codingMode (header_info fmt hh i)) ?c)
        \<lparr>c_ppInstance := pp, c_pictureMem := Some (b' n), c_jpegRegs := r, c_ioctl_info := m\<rparr>\<rparr>)
      (?inp\<lparr>in_sliceMbSet := 0, in_decImageType := 0\<rparr>) (k' n) (b' n) v"
    using header_reaches_decode [OF st holds cs assms(9-11), of k' b'] assms(2,4,12) b
    by (auto simp: loaded_def)
  let ?h3 = "on_c (handed E ?d) ?h\<lparr>hw_c := (header_c ?inp fmt hh (ii_codingMode (header_info fmt hh i)) ?c)
        \<lparr>c_ppInstance := pp, c_pictureMem := Some (b' n), c_jpegRegs := r, c_ioctl_info := m\<rparr>\<rparr>"
  let ?inp3 = "?inp\<lparr>in_sliceMbSet := 0, in_decImageType := 0\<rparr>"
  have z: "inf_streamEndFlag (c_info c) = 0" "inf_inputBufferEmpty (c_info c) = 0" "c_is8190 c \<noteq> 0" "c_fuseBurned c \<noteq> 0"
    by (simp_all add: c init_container_eq zero_DecInfo_def)
  have "unat (of_nat (length inp) :: u32) = length inp" by (simp only: unat_of_nat) (use len in simp)
  then have l: "in_bufferSize ?inp \<noteq> 0" using len(1) unfolding inp(1) by (metis not_numeral_le_zero unsigned_0)
  have "info_check ?inp3 = None" using holds by (simp add: holds_def info_check_slices)
  then have dc: "decode_check (hw_c ?h3) ?inp3 = None"
    by (rule decode_check_header) (use l inp z in \<open>simp_all add: header_c_def frame_c_def on_c_def handed_def\<close>)
  have "inf_init (c_info (hw_c ?h3)) \<noteq> 0" "inf_operationType (c_info (hw_c ?h3)) = ii_codingMode (header_info fmt hh i)"
    "c_is8190 (hw_c ?h3) \<noteq> 0" "c_fuseBurned (hw_c ?h3) \<noteq> 0" "hw_sent ?h3 = []"
    using z by (simp_all add: header_c_def frame_c_def on_c_def handed_def)
  moreover have "rk_os_api ?d2 = rk_os_api d" "rk_ctx ?d2 = rk_ctx d" by (simp_all add: loaded_def)
  ultimately show ?thesis using v dc unfolding ready_to_decode_def by blast
qed


end
