(* ===== verification/DecodeIrq.thy ===== *)
theory DecodeIrq
  imports Decode
begin

text \<open>
  What the interrupts of the core mean: the bits of the status register decide between five events,
  and every event has one return code of JpegDecDecode and one effect on its state.
\<close>

section \<open>Fields of the registers the driver stored\<close>

definition reply_regs :: "get_reg_reply \<Rightarrow> regs" where
  "reply_regs r = map (gr_regs r) [0..<DEC_RK70_REGISTERS]"

lemma reply_field:
  assumes "reg_valid fid"
  shows "GetRegisterFile (reply_regs r) fid = drop_bit (lowbit fid) (gr_regs r (swreg fid)) AND mask (fwidth fid)"
  using reg_row [OF assms] by (simp add: GetRegisterFile_def reply_regs_def)

lemma reply_regs_ok: "regs_ok (reply_regs r)"
  by (simp add: reply_regs_def regs_ok_def)

text \<open>The fields of the status register 55 and the slice height in register 148.\<close>

lemma status_rows:
  "swreg HWIF_DEC_IRQ_STAT = 55" "lowbit HWIF_DEC_IRQ_STAT = 4" "fwidth HWIF_DEC_IRQ_STAT = 10"
  "swreg HWIF_DEC_SLICE_INT = 55" "lowbit HWIF_DEC_SLICE_INT = 9" "fwidth HWIF_DEC_SLICE_INT = 1"
  "swreg HWIF_JPEG_SLICE_H = 148" "lowbit HWIF_JPEG_SLICE_H = 0" "fwidth HWIF_JPEG_SLICE_H = 8"
  by (simp_all add: reg_eval)

lemma status_valid:
  "reg_valid HWIF_DEC_IRQ_STAT" "reg_valid HWIF_DEC_SLICE_INT" "reg_valid HWIF_JPEG_SLICE_H"
  "reg_valid HWIF_DEC_RDY_INT" "reg_valid HWIF_DEC_IRQ" "reg_valid HWIF_DEC_BUFFER_INT"
  by (simp_all add: reg_valid_def hwDecRegSpec_length HWIF_defs)

lemma status_apart:
  "reg_apart HWIF_DEC_RDY_INT HWIF_DEC_SLICE_INT" "reg_apart HWIF_DEC_RDY_INT HWIF_JPEG_SLICE_H"
  "reg_apart HWIF_DEC_IRQ HWIF_DEC_SLICE_INT" "reg_apart HWIF_DEC_IRQ HWIF_JPEG_SLICE_H"
  by (simp_all add: reg_eval)

lemma bit_of_field:
  assumes "k < w"
  shows "(drop_bit p x AND mask w) AND 2 ^ k \<noteq> 0 \<longleftrightarrow> bit (x :: u32) (p + k)"
proof -
  have "(drop_bit p x AND mask w) AND 2 ^ k \<noteq> 0 \<longleftrightarrow> bit (drop_bit p x AND mask w) k"
    by (simp add: and_exp_eq_0_iff_not_bit)
  then show ?thesis using assms bit_imp_le_length [of x "p + k"] by (auto simp: bit_simps)
qed

lemma status_bits:
  fixes r :: get_reg_reply
  defines "s \<equiv> GetRegisterFile (reply_regs r) HWIF_DEC_IRQ_STAT"
  shows "s AND JPEGDEC_RK70_IRQ_DEC_RDY \<noteq> 0 \<longleftrightarrow> bit (gr_regs r 55) 4"
    "s AND JPEGDEC_RK70_IRQ_BUS_ERROR \<noteq> 0 \<longleftrightarrow> bit (gr_regs r 55) 5"
    "s AND JPEGDEC_RK70_IRQ_BUFFER_EMPTY \<noteq> 0 \<longleftrightarrow> bit (gr_regs r 55) 6"
    "s AND JPEGDEC_RK70_IRQ_STREAM_ERROR \<noteq> 0 \<longleftrightarrow> bit (gr_regs r 55) 12"
    "s AND JPEGDEC_RK70_IRQ_TIMEOUT \<noteq> 0 \<longleftrightarrow> bit (gr_regs r 55) 13"
proof -
  have s: "s = drop_bit 4 (gr_regs r 55) AND mask 10"
    unfolding s_def reply_field [OF status_valid(1)] status_rows ..
  have b: "s AND 2 ^ k \<noteq> 0 \<longleftrightarrow> bit (gr_regs r 55) (4 + k)" if "k < 10" for k
    unfolding s by (rule bit_of_field [OF that])
  show "s AND JPEGDEC_RK70_IRQ_DEC_RDY \<noteq> 0 \<longleftrightarrow> bit (gr_regs r 55) 4"
    "s AND JPEGDEC_RK70_IRQ_BUS_ERROR \<noteq> 0 \<longleftrightarrow> bit (gr_regs r 55) 5"
    "s AND JPEGDEC_RK70_IRQ_BUFFER_EMPTY \<noteq> 0 \<longleftrightarrow> bit (gr_regs r 55) 6"
    "s AND JPEGDEC_RK70_IRQ_STREAM_ERROR \<noteq> 0 \<longleftrightarrow> bit (gr_regs r 55) 12"
    "s AND JPEGDEC_RK70_IRQ_TIMEOUT \<noteq> 0 \<longleftrightarrow> bit (gr_regs r 55) 13"
    using b [of 0] b [of 1] b [of 2] b [of 8] b [of 9] by (simp_all add: irq_defs)
qed

section \<open>The events\<close>

datatype core_event = Bus_error | Stream_error | Input_consumed | Slice_decoded | Scan_decoded

definition event_of :: "(nat \<Rightarrow> u32) \<Rightarrow> core_event" where
  "event_of r =
     (let s = bit (r 55) in
      if s 5 then Bus_error
      else if s 12 \<or> s 13 then Stream_error
      else if s 6 \<and> \<not> s 4 then Input_consumed
      else if s 9 \<and> r 148 AND 0xFF \<noteq> 0 then Slice_decoded
      else Scan_decoded)"

text \<open>The return code, None when the decoder goes on.\<close>

definition event_code :: "(nat \<Rightarrow> u32) \<Rightarrow> JpegDecContainer \<Rightarrow> JpegDecRet option" where
  "event_code r c =
     (case event_of r of
        Bus_error \<Rightarrow> Some JPEGDEC_HW_BUS_ERROR
      | Stream_error \<Rightarrow>
          Some (if bit (r 55) 13 \<and> fr_Y (c_frame c) mod 16 \<noteq> 0 \<and>
                   inf_yCbCrMode (c_info c) \<in> {JPEGDEC_YUV422, JPEGDEC_YUV444, JPEGDEC_YUV411}
                then JPEGDEC_FRAME_READY else JPEGDEC_STRM_ERROR)
      | Input_consumed \<Rightarrow> Some JPEGDEC_STRM_PROCESSED
      | Slice_decoded \<Rightarrow> Some JPEGDEC_SLICE_READY
      | Scan_decoded \<Rightarrow> None)"

definition event_output :: "core_event \<Rightarrow> decode_vars \<Rightarrow> JpegDecOutput" where
  "event_output e v =
     (case e of
        Bus_error \<Rightarrow> dv_out v
      | Slice_decoded \<Rightarrow> dv_out (if inf_userAllocMem (c_info (dv_c v)) = 1 then set_given_output v else set_output v)
      | _ \<Rightarrow> dv_out (set_output v))"

text \<open>What the arguments of a later call are checked against.\<close>

definition call_view :: "JpegDecContainer \<Rightarrow> (u32 list \<times> FrameInfo)" where
  "call_view c =
     (let i = c_info c in
      ([c_is8190 c, c_fuseBurned c, c_maxSupportedSliceSize c, c_ppInstance c, inf_init i, inf_initBufferSize i,
        inf_operationType i, inf_operationTypeThumb i, inf_getInfoYCbCrMode i, inf_progressiveScanReady i,
        inf_nonInterleavedScanReady i, inf_progressiveFinish i, inf_userAllocMem i], c_frame c))"

definition event_effect :: "core_event \<Rightarrow> decode_vars \<Rightarrow> decode_vars \<Rightarrow> bool" where
  "event_effect e v w \<longleftrightarrow>
     hw_sent (dv_h w) = hw_sent (dv_h v) \<and> dv_out w = event_output e v \<and>
     call_view (dv_c w) = call_view (dv_c v) \<and>
     (e \<noteq> Input_consumed \<longrightarrow> inf_streamEndFlag (c_info (dv_c w)) = inf_streamEndFlag (c_info (dv_c v))) \<and>
     c_stream (dv_c w) = c_stream (dv_c v) \<and> c_vlc (dv_c w) = c_vlc (dv_c v) \<and> c_quant (dv_c w) = c_quant (dv_c v) \<and>
     c_asicRunning (dv_c w) = (if e \<in> {Bus_error, Stream_error, Scan_decoded} then 0 else c_asicRunning (dv_c v)) \<and>
     img_imageReady (c_image (dv_c w)) =
       (if e = Scan_decoded then 1 else if e \<in> {Bus_error, Stream_error} then 0 else img_imageReady (c_image (dv_c v))) \<and>
     img_headerReady (c_image (dv_c w)) =
       (if e \<in> {Bus_error, Stream_error} then 0 else img_headerReady (c_image (dv_c v))) \<and>
     inf_inputBufferEmpty (c_info (dv_c w)) =
       (if e = Input_consumed then 1 else inf_inputBufferEmpty (c_info (dv_c v))) \<and>
     inf_SliceReadyForPause (c_info (dv_c w)) =
       (if e = Slice_decoded then 1 else inf_SliceReadyForPause (c_info (dv_c v)))"

section \<open>The steps of a pass\<close>

lemma on_dc_parts [simp]:
  "dv_c (on_dc f v) = f (dv_c v)" "hw_sent (dv_h (on_dc f v)) = hw_sent (dv_h v)" "dv_out (on_dc f v) = dv_out v"
  "dv_findhufftable (on_dc f v) = dv_findhufftable v"
  "on_dc f (on_dc g v) = on_dc (\<lambda>c. f (g c)) v"
  by (simp_all add: on_dc_def on_c_def)

lemma set_planes_parts [simp]:
  "dv_h (set_planes y cb cr v) = dv_h v" "dv_h (set_output v) = dv_h v" "dv_h (set_given_output v) = dv_h v"
  by (simp_all add: set_planes_def set_output_def set_given_output_def Let_def)

lemma set_regs_more_parts [simp]: "c_quant (set_regs ws c) = c_quant c" "c_asicRunning (set_regs ws c) = c_asicRunning c"
  "c_is8190 (set_regs ws c) = c_is8190 c" "c_fuseBurned (set_regs ws c) = c_fuseBurned c"
  "c_maxSupportedSliceSize (set_regs ws c) = c_maxSupportedSliceSize c"
  by (simp_all add: set_regs_def)

lemma set_regs_again: "set_regs vs (set_regs ws c) = set_regs (ws @ vs) c"
  by (simp add: set_regs_def writes_append)

lemma call_view_parts [simp]:
  "call_view (set_regs ws c) = call_view c" "call_view (c\<lparr>c_jpegRegs := r\<rparr>) = call_view c"
  "call_view (c\<lparr>c_asicRunning := a\<rparr>) = call_view c" "call_view (c_image_update f c) = call_view c"
  "call_view (c_info_update (inf_inputBufferEmpty_update g) c) = call_view c"
  "call_view (c_info_update (inf_streamEndFlag_update g) c) = call_view c"
  "call_view (c_info_update (inf_streamEndFlag_update g \<circ> inf_inputBufferEmpty_update g') c) = call_view c"
  "call_view (c_info_update (inf_SliceReadyForPause_update g) c) = call_view c"
  "call_view (c_info_update (inf_noSliceIrqForUser_update g) c) = call_view c"
  by (simp_all add: call_view_def Let_def)

lemma wait_continues:
  assumes "gr_ret (core (hw_sent (dv_h v))) = 0"
  shows "decode_wait core v = Continue (on_dc (\<lambda>c. c\<lparr>c_jpegRegs := reply_regs (core (hw_sent (dv_h v)))\<rparr>) v)"
  using assms
  by (simp add: decode_wait_def wait_result_def VPUClientWaitResult_def dwl_defs Let_def reply_regs_def on_dc_def on_c_def)

text \<open>The planes depend on the addresses and on the size of the chroma plane only.\<close>

lemma set_output_cong:
  assumes "dv_out w = dv_out v" "img_sizeChroma (c_image (dv_c w)) = img_sizeChroma (c_image (dv_c v))"
    "inf_outLuma (c_info (dv_c w)) = inf_outLuma (c_info (dv_c v))"
    "inf_outChroma (c_info (dv_c w)) = inf_outChroma (c_info (dv_c v))"
    "inf_outChroma2 (c_info (dv_c w)) = inf_outChroma2 (c_info (dv_c v))"
  shows "dv_out (set_output w) = dv_out (set_output v)"
  using assms by (simp add: set_output_def set_planes_def Let_def)

lemma set_given_cong:
  assumes "dv_out w = dv_out v" "img_sizeChroma (c_image (dv_c w)) = img_sizeChroma (c_image (dv_c v))"
    "inf_givenOutLuma (c_info (dv_c w)) = inf_givenOutLuma (c_info (dv_c v))"
    "inf_givenOutChroma (c_info (dv_c w)) = inf_givenOutChroma (c_info (dv_c v))"
    "inf_givenOutChroma2 (c_info (dv_c w)) = inf_givenOutChroma2 (c_info (dv_c v))"
  shows "dv_out (set_given_output w) = dv_out (set_given_output v)"
  using assms by (simp add: set_given_output_def set_planes_def Let_def)

text \<open>The state with the registers of the reply.\<close>

definition replied :: "get_reg_reply \<Rightarrow> decode_vars \<Rightarrow> decode_vars" where
  "replied r = on_dc (\<lambda>c. c\<lparr>c_jpegRegs := reply_regs r\<rparr>)"

lemma replied_parts [simp]:
  "dv_c (replied r v) = (dv_c v)\<lparr>c_jpegRegs := reply_regs r\<rparr>" "hw_sent (dv_h (replied r v)) = hw_sent (dv_h v)"
  "dv_out (replied r v) = dv_out v"
  by (simp_all add: replied_def)

lemma irq_bus_error:
  assumes "event_of (gr_regs r) = Bus_error"
  shows "\<exists>w. decode_irq (replied r v) = Return (JPEGDEC_HW_BUS_ERROR, w) \<and> event_effect Bus_error v w"
proof -
  have "bit (gr_regs r 55) 5" using assms by (simp add: event_of_def Let_def split: if_splits)
  then show ?thesis
    by (simp add: decode_irq_def get_reg_def status_bits event_effect_def event_output_def not_ready_def not_running_def
        JPEGDEC_CLEAR_IRQ_def put_regs_def)
qed

lemma irq_stream_error:
  assumes "event_of (gr_regs r) = Stream_error" "c_ppInstance (dv_c v) = 0"
  shows "\<exists>w ret. decode_irq (replied r v) = Return (ret, w) \<and> event_code (gr_regs r) (dv_c v) = Some ret \<and>
    event_effect Stream_error v w"
proof -
  have b: "\<not> bit (gr_regs r 55) 5" "bit (gr_regs r 55) 12 \<or> bit (gr_regs r 55) 13"
    using assms(1) by (auto simp: event_of_def Let_def split: if_splits)
  have o: "dv_out (set_output (not_running (JPEGDEC_CLEAR_IRQ (replied r v)))) = dv_out (set_output v)"
    by (rule set_output_cong) (simp_all add: not_running_def JPEGDEC_CLEAR_IRQ_def put_regs_def)
  let ?w = "not_ready (output_without_pp (not_running (JPEGDEC_CLEAR_IRQ (replied r v))))"
  have e: "event_effect Stream_error v ?w"
    using assms(2) o by (simp add: event_effect_def event_output_def output_without_pp_def not_ready_def)
      (simp add: not_running_def JPEGDEC_CLEAR_IRQ_def put_regs_def)
  have c: "c_frame (dv_c ?w) = c_frame (dv_c v)" "c_info (dv_c ?w) = c_info (dv_c v)"
    by (simp_all add: output_without_pp_def not_ready_def not_running_def JPEGDEC_CLEAR_IRQ_def put_regs_def)
  have "decode_irq (replied r v) =
      Return (if timeout_at_end (GetRegisterFile (reply_regs r) HWIF_DEC_IRQ_STAT) (dv_c ?w)
              then JPEGDEC_FRAME_READY else JPEGDEC_STRM_ERROR, ?w)"
    using b by (simp add: decode_irq_def get_reg_def status_bits Let_def)
  then show ?thesis using e c assms(1) by (auto simp: timeout_at_end_def status_bits event_code_def)
qed

lemma irq_input_consumed:
  assumes "event_of (gr_regs r) = Input_consumed" "c_ppInstance (dv_c v) = 0"
  shows "\<exists>w. decode_irq (replied r v) = Return (JPEGDEC_STRM_PROCESSED, w) \<and> event_effect Input_consumed v w"
proof -
  have b: "\<not> bit (gr_regs r 55) 5" "\<not> bit (gr_regs r 55) 12" "\<not> bit (gr_regs r 55) 13" "bit (gr_regs r 55) 6"
    "\<not> bit (gr_regs r 55) 4"
    using assms(1) by (auto simp: event_of_def Let_def split: if_splits)
  have "event_effect Input_consumed v (decode_buffer_empty (replied r v))"
  proof -
    let ?w = "on_info (\<lambda>i. i\<lparr>inf_inputBufferEmpty := 1\<rparr>) (put_regs [(HWIF_DEC_BUFFER_INT, 0)] (replied r v))"
    have o: "dv_out (set_output (on_info f ?w)) = dv_out (set_output v)" "dv_out (set_output ?w) = dv_out (set_output v)"
      if "f = (\<lambda>i. i\<lparr>inf_streamEndFlag := 1\<rparr>)" for f
      by (rule set_output_cong; simp add: put_regs_def that)+
    then show ?thesis using assms(2)
      by (auto simp: decode_buffer_empty_def Let_def output_without_pp_def event_effect_def event_output_def)
        (simp_all add: put_regs_def)
  qed
  then show ?thesis using b by (auto simp: decode_irq_def get_reg_def status_bits)
qed

text \<open>No interrupt to report: the interrupt bits are cleared, the fields of the slice stay.\<close>

definition acknowledged :: "decode_vars \<Rightarrow> decode_vars" where
  "acknowledged v =
     (let v = put_regs [(HWIF_DEC_RDY_INT, 0)] v
      in if get_reg HWIF_DEC_IRQ v \<noteq> 0 then put_regs [(HWIF_DEC_IRQ, 0)] v else v)"

lemma acknowledged_writes:
  "\<exists>ws. acknowledged v = put_regs ws v \<and> set (map fst ws) \<subseteq> {HWIF_DEC_RDY_INT, HWIF_DEC_IRQ}"
proof (cases "get_reg HWIF_DEC_IRQ (put_regs [(HWIF_DEC_RDY_INT, 0)] v) = 0")
  case True
  then have "acknowledged v = put_regs [(HWIF_DEC_RDY_INT, 0)] v" by (simp add: acknowledged_def Let_def)
  then show ?thesis by (intro exI [of _ "[(HWIF_DEC_RDY_INT, 0)]"]) simp
next
  case False
  have "put_regs [(HWIF_DEC_IRQ, 0)] (put_regs [(HWIF_DEC_RDY_INT, 0)] v) =
      put_regs [(HWIF_DEC_RDY_INT, 0), (HWIF_DEC_IRQ, 0)] v"
    by (simp add: put_regs_def set_regs_again)
  then show ?thesis using False
    by (intro exI [of _ "[(HWIF_DEC_RDY_INT, 0), (HWIF_DEC_IRQ, 0)]"]) (simp add: acknowledged_def Let_def)
qed

lemma acknowledged_parts [simp]:
  "c_info (dv_c (acknowledged v)) = c_info (dv_c v)" "c_image (dv_c (acknowledged v)) = c_image (dv_c v)"
  "c_stream (dv_c (acknowledged v)) = c_stream (dv_c v)" "c_vlc (dv_c (acknowledged v)) = c_vlc (dv_c v)"
  "c_quant (dv_c (acknowledged v)) = c_quant (dv_c v)" "c_ppInstance (dv_c (acknowledged v)) = c_ppInstance (dv_c v)"
  "c_asicRunning (dv_c (acknowledged v)) = c_asicRunning (dv_c v)" "dv_out (acknowledged v) = dv_out v"
  "hw_sent (dv_h (acknowledged v)) = hw_sent (dv_h v)" "call_view (dv_c (acknowledged v)) = call_view (dv_c v)"
  using acknowledged_writes [of v] by (auto simp: put_regs_def)

lemma acknowledged_slice: "slice_ready (acknowledged (replied r v)) \<longleftrightarrow> bit (gr_regs r 55) 9 \<and> gr_regs r 148 AND 0xFF \<noteq> 0"
proof -
  obtain ws where ws: "acknowledged (replied r v) = put_regs ws (replied r v)"
    "set (map fst ws) \<subseteq> {HWIF_DEC_RDY_INT, HWIF_DEC_IRQ}"
    using acknowledged_writes by blast
  have rd: "get_reg j (acknowledged (replied r v)) = GetRegisterFile (reply_regs r) j"
    if "j = HWIF_DEC_SLICE_INT \<or> j = HWIF_JPEG_SLICE_H" for j
  proof -
    have "list_all (\<lambda>(i, v). reg_valid i \<and> reg_apart i j) ws"
      using ws(2) that status_valid status_apart by (auto simp: list_all_iff)
    then have "GetRegisterFile (hw.run (reply_regs r) ws) j = GetRegisterFile (reply_regs r) j"
      using reply_regs_ok that status_valid by (intro hw.rd_run_frame) auto
    then show ?thesis by (simp add: ws(1) get_reg_def put_regs_def set_regs_def writes_run)
  qed
  have "get_reg HWIF_DEC_SLICE_INT (acknowledged (replied r v)) = drop_bit 9 (gr_regs r 55) AND mask 1"
    using rd [of HWIF_DEC_SLICE_INT] reply_field [OF status_valid(2)] by (simp add: status_rows)
  then have i: "get_reg HWIF_DEC_SLICE_INT (acknowledged (replied r v)) \<noteq> 0 \<longleftrightarrow> bit (gr_regs r 55) 9"
    by (simp add: bit_iff_odd_drop_bit and_one_eq mask_Suc_0 odd_iff_mod_2_eq_one)
  have "get_reg HWIF_JPEG_SLICE_H (acknowledged (replied r v)) = gr_regs r 148 AND mask 8"
    using rd [of HWIF_JPEG_SLICE_H] reply_field [OF status_valid(3)] by (simp add: status_rows)
  then have "get_reg HWIF_JPEG_SLICE_H (acknowledged (replied r v)) = gr_regs r 148 AND 0xFF"
    by (simp add: mask_eq_exp_minus_1)
  then show ?thesis using i by (auto simp: slice_ready_def)
qed

lemma irq_goes_on:
  assumes "event_of (gr_regs r) = Slice_decoded \<or> event_of (gr_regs r) = Scan_decoded"
  shows "decode_irq (replied r v) = Continue (acknowledged (replied r v))"
proof -
  have b: "\<not> bit (gr_regs r 55) 5" "\<not> bit (gr_regs r 55) 12" "\<not> bit (gr_regs r 55) 13"
    "\<not> bit (gr_regs r 55) 6 \<or> bit (gr_regs r 55) 4"
    using assms by (auto simp: event_of_def Let_def split: if_splits)
  then show ?thesis by (auto simp: decode_irq_def get_reg_def status_bits acknowledged_def Let_def)
qed

lemma slice_event:
  assumes "event_of (gr_regs r) = Slice_decoded" "c_ppInstance (dv_c v) = 0" "inf_userAllocMem (c_info (dv_c v)) < 2"
  shows "\<exists>w. decode_slice (acknowledged (replied r v)) = Return (JPEGDEC_SLICE_READY, w) \<and> event_effect Slice_decoded v w"
proof -
  let ?a = "acknowledged (replied r v)" and ?u = "inf_userAllocMem (c_info (dv_c v))"
  let ?p = "on_info (\<lambda>i. i\<lparr>inf_SliceReadyForPause := 1\<rparr>) ?a"
  have p: "slice_pause ?a = ?p" using assms(2) by (simp add: slice_pause_def)
  have o: "dv_out (set_output ?p) = dv_out (set_output v)" by (rule set_output_cong) simp_all
  have g: "dv_out (set_given_output ?p) = dv_out (set_given_output v)" by (rule set_given_cong) simp_all
  have u: "?u = 0 \<or> ?u = 1" using below_two [of ?u] assms(3) by blast
  have "event_effect Slice_decoded v (slice_output ?p)"
    using u o g by (auto simp: slice_output_def event_effect_def event_output_def)
  moreover have "c_ppInstance (dv_c (slice_output ?p)) = 0"
    using u assms(2) by (auto simp: slice_output_def)
  ultimately show ?thesis by (simp add: decode_slice_def p Let_def)
qed

lemma scan_event:
  assumes "c_ppInstance (dv_c v) = 0" "inf_operationType (c_info (dv_c v)) = JPEGDEC_BASELINE"
  shows "\<exists>w. decode_scan mem (acknowledged (replied r v)) = Continue w \<and>
    (\<exists>w'. next_headers fuel mem malloc al (image_ready w) = Continue w' \<and> event_effect Scan_decoded v w')"
proof -
  let ?w = "on_info (\<lambda>i. i\<lparr>inf_noSliceIrqForUser := 0\<rparr>) (acknowledged (replied r v))"
  have d: "decode_scan mem (acknowledged (replied r v)) = Continue ?w"
    using assms(2) by (simp add: decode_scan_def jpeg_consts)
  have o: "dv_out (set_output ?w) = dv_out (set_output v)" by (rule set_output_cong) simp_all
  have e: "event_effect Scan_decoded v (image_ready ?w)"
    using assms(1) o by (simp add: image_ready_def event_effect_def event_output_def not_running_def)
  have "inf_operationType (c_info (dv_c (image_ready ?w))) = JPEGDEC_BASELINE"
    using assms by (simp add: image_ready_def not_running_def)
  then have "next_headers fuel mem malloc al (image_ready ?w) = Continue (image_ready ?w)"
    by (simp add: next_headers_def jpeg_consts)
  then show ?thesis using d e by blast
qed

text \<open>A pass after the core has been started.\<close>

lemma pass_of_event:
  assumes "gr_ret r = 0" "r = core (hw_sent (dv_h v))" "c_ppInstance (dv_c v) = 0"
    "inf_operationType (c_info (dv_c v)) = JPEGDEC_BASELINE" "inf_userAllocMem (c_info (dv_c v)) < 2"
  shows "\<exists>w. andThen (decode_wait core v) (\<lambda>v. andThen (decode_irq v) (\<lambda>v.
      andThen (if slice_ready v then decode_slice v else decode_scan mem v) (\<lambda>v.
        next_headers fuel mem malloc al (image_ready v)))) =
      (case event_code (gr_regs r) (dv_c v) of Some ret \<Rightarrow> Return (ret, w) | None \<Rightarrow> Continue w) \<and>
    event_effect (event_of (gr_regs r)) v w"
proof -
  have w: "decode_wait core v = Continue (replied r v)"
    using wait_continues [of core v] assms(1,2) by (simp add: replied_def)
  show ?thesis
  proof (cases "event_of (gr_regs r)")
    case Bus_error
    then show ?thesis using irq_bus_error [OF Bus_error, of v] w by (auto simp: event_code_def)
  next
    case Stream_error
    then show ?thesis using irq_stream_error [OF Stream_error assms(3)] w by auto
  next
    case Input_consumed
    then show ?thesis using irq_input_consumed [OF Input_consumed assms(3)] w by (auto simp: event_code_def)
  next
    case Slice_decoded
    have "slice_ready (acknowledged (replied r v))"
      unfolding acknowledged_slice using Slice_decoded by (auto simp: event_of_def Let_def split: if_splits)
    then show ?thesis using slice_event [OF Slice_decoded assms(3,5)] irq_goes_on [of r v] Slice_decoded w
      by (auto simp: event_code_def)
  next
    case Scan_decoded
    have "\<not> slice_ready (acknowledged (replied r v))"
      unfolding acknowledged_slice using Scan_decoded by (auto simp: event_of_def Let_def split: if_splits)
    then show ?thesis
      using scan_event [OF assms(3,4), of mem r fuel malloc al] irq_goes_on [of r v] Scan_decoded w
      by (auto simp: event_code_def)
  qed
qed

text \<open>
  C13. What an interrupt of the core means to the caller of JpegDecDecode, for a baseline picture
  without post-processor: the status register is read as one of five events, a bus error first, then a
  stream error or timeout, then input used up before the picture was ready, then a decoded slice,
  otherwise the picture is decoded. Each event has its return code (none for the decoded picture:
  the decoder goes on to finish it), and its effect: no message is sent, the core is marked as stopped
  after an error and after the picture, imageReady is set by the decoded picture alone, an error
  also makes the headers unread, and the output planes are those of the picture, or of the caller's
  buffers for a slice.
\<close>

theorem Decode_reports_event:
  assumes "decode_start v = Continue v1" "r = core (hw_sent (dv_h v1))" "gr_ret r = 0" "c_ppInstance (dv_c v1) = 0"
    "inf_operationType (c_info (dv_c v1)) = JPEGDEC_BASELINE" "inf_userAllocMem (c_info (dv_c v1)) < 2"
  shows "\<exists>w. core_pass fuel mem malloc al core v =
      (case event_code (gr_regs r) (dv_c v1) of Some ret \<Rightarrow> Return (ret, w) | None \<Rightarrow> Continue w) \<and>
    event_effect (event_of (gr_regs r)) v1 w"
  unfolding core_pass_def assms(1) andThen.simps by (rule pass_of_event) (use assms in auto)

text \<open>The rest of the input is loaded, and the core reports the picture.\<close>

definition demo_reload :: decode_vars where
  "demo_reload = decode_start_vars \<lparr>hw_c = zero_JpegDecContainer\<lparr>c_info := zero_DecInfo\<lparr>inf_inputBufferEmpty := 1\<rparr>\<rparr>,
     hw_base = [], hw_sent = []\<rparr> \<lparr>out_outputPictureY = null_mem, out_outputPictureCbCr = null_mem, out_outputPictureCr = null_mem\<rparr>"

definition ready_core :: core where
  "ready_core ms = \<lparr>gr_ret = 0, gr_regs = (\<lambda>i. if i = 55 then 0x10 else 0)\<rparr>"

lemma Decode_reports_event_witness:
  "\<exists>w. core_pass 9 (memory_of 0 [1]) (\<lambda>n. True) no_allocator ready_core demo_reload = Continue w \<and>
    img_imageReady (c_image (dv_c w)) = 1 \<and> inf_inputBufferEmpty (c_info (dv_c w)) = 0 \<and> length (hw_sent (dv_h w)) = 1"
proof -
  let ?v1 = "on_info (\<lambda>i. i\<lparr>inf_inputBufferEmpty := 0\<rparr>) (demo_reload\<lparr>dv_h := JpegDecInitHWInputBuffLoad (dv_h demo_reload)\<rparr>)"
  have s: "decode_start demo_reload = Continue ?v1"
    by (simp add: decode_start_def demo_reload_def decode_start_vars_def zero_defs)
  have f: "gr_ret (ready_core (hw_sent (dv_h ?v1))) = 0" "c_ppInstance (dv_c ?v1) = 0"
    "inf_operationType (c_info (dv_c ?v1)) = JPEGDEC_BASELINE" "inf_userAllocMem (c_info (dv_c ?v1)) < 2"
    "inf_inputBufferEmpty (c_info (dv_c ?v1)) = 0" "length (hw_sent (dv_h ?v1)) = 1"
    by (simp_all add: ready_core_def demo_reload_def decode_start_vars_def JpegDecInitHWInputBuffLoad_def JpegFlushRegs_def
        zero_defs jpeg_consts Let_def)
  have "\<not> bit (0x10 :: u32) 5" "\<not> bit (0x10 :: u32) 12" "\<not> bit (0x10 :: u32) 13" "\<not> bit (0x10 :: u32) 6" "\<not> bit (0x10 :: u32) 9"
    by simp_all
  then have e: "event_of (gr_regs (ready_core (hw_sent (dv_h ?v1)))) = Scan_decoded"
    by (simp add: event_of_def ready_core_def Let_def)
  obtain w where "core_pass 9 (memory_of 0 [1]) (\<lambda>n. True) no_allocator ready_core demo_reload = Continue w"
    "event_effect Scan_decoded ?v1 w"
    using Decode_reports_event [where v = demo_reload and core = ready_core and r = "ready_core (hw_sent (dv_h ?v1))",
        OF s _ f(1-4), of 9 "memory_of 0 [1]" "\<lambda>n. True" no_allocator] e
    by (auto simp: event_code_def)
  then show ?thesis using f(5,6) by (auto simp: event_effect_def)
qed

end
