(* ===== verification/DecodeSlices.thy ===== *)
theory DecodeSlices
  imports DecodeIrq InfoReturns
begin

text \<open>
  Calls of JpegDecDecode one after the other: a picture that is decoded slice by slice, and what is
  left in the container for the picture after it.
\<close>

section \<open>Between two slices\<close>

definition paused :: "JpegDecInput \<Rightarrow> JpegDecContainer \<Rightarrow> bool" where
  "paused inp c \<longleftrightarrow>
     img_headerReady (c_image c) \<noteq> 0 \<and> img_imageReady (c_image c) = 0 \<and> inf_SliceReadyForPause (c_info c) = 1 \<and>
     inf_inputBufferEmpty (c_info c) = 0 \<and> inf_progressiveScanReady (c_info c) = 0 \<and>
     inf_nonInterleavedScanReady (c_info c) = 0 \<and> inf_progressiveFinish (c_info c) = 0 \<and>
     inf_operationType (c_info c) = JPEGDEC_BASELINE \<and> c_ppInstance c = 0 \<and> inf_userAllocMem (c_info c) < 2 \<and>
     decode_check c inp = None \<and> decode_supported inp c = None"

definition same_picture :: "JpegDecContainer \<Rightarrow> JpegDecContainer \<Rightarrow> bool" where
  "same_picture c c' \<longleftrightarrow> call_view c' = call_view c \<and>
     inf_streamEndFlag (c_info c') = inf_streamEndFlag (c_info c) \<and>
     inf_inputBufferEmpty (c_info c') = inf_inputBufferEmpty (c_info c) \<and>
     inf_SliceReadyForPause (c_info c') = inf_SliceReadyForPause (c_info c) \<and>
     img_headerReady (c_image c') = img_headerReady (c_image c) \<and> img_imageReady (c_image c') = img_imageReady (c_image c)"

lemma same_picture_trans: "same_picture c c' \<Longrightarrow> same_picture c' c'' \<Longrightarrow> same_picture c c''"
  by (simp add: same_picture_def)

lemma paused_same:
  assumes "same_picture c c'" "paused inp c"
  shows "paused inp c'"
proof -
  have v: "call_view c' = call_view c" using assms(1) by (simp add: same_picture_def)
  then have eqs: "c_is8190 c' = c_is8190 c" "c_fuseBurned c' = c_fuseBurned c"
    "c_maxSupportedSliceSize c' = c_maxSupportedSliceSize c" "c_frame c' = c_frame c"
    "inf_operationType (c_info c') = inf_operationType (c_info c)"
    "inf_operationTypeThumb (c_info c') = inf_operationTypeThumb (c_info c)"
    "inf_getInfoYCbCrMode (c_info c') = inf_getInfoYCbCrMode (c_info c)"
    by (simp_all add: call_view_def Let_def)
  have e: "decode_supported inp c' = decode_supported inp c"
    unfolding decode_supported_def slice_mcus_def mcuSizeDivider_def Let_def eqs ..
  have "decode_check c' inp = decode_check c inp"
    using assms(1) by (simp add: same_picture_def call_view_def Let_def decode_check_def)
  then show ?thesis using assms e by (simp add: paused_def same_picture_def call_view_def Let_def)
qed

lemma same_picture_simps [simp]:
  "same_picture c c" "same_picture c (set_regs ws c)" "same_picture c (c\<lparr>c_vlc := h\<rparr>)"
  "same_picture c (c\<lparr>c_stream := s\<rparr>)" "same_picture c (c\<lparr>c_asicBuff := b\<rparr>)" "same_picture c (c\<lparr>c_ioctl_info := x\<rparr>)"
  "same_picture c (c_info_update (inf_sliceMbSetValue_update g) c)"
  "same_picture c (c_info_update (inf_SliceCount_update g) c)"
  "same_picture c (c_info_update (\<lambda>i. i\<lparr>inf_SliceCount := F i\<rparr>) c)"
  "same_picture c (c_info_update (inf_pipeline_update g) c)"
  "same_picture c (c_info_update (inf_amountOfSlices_update g) c)"
  "same_picture c (c_info_update (inf_sliceHeight_update g) c)"
  "same_picture c (c_info_update (decode_given inp) c)"
  by (simp_all add: same_picture_def call_view_def Let_def decode_given_def)

lemma SliceSize_same: "same_picture c (JpegDecSliceSizeCalculation c)"
  by (simp add: JpegDecSliceSizeCalculation_def Let_def same_picture_def call_view_def)

lemma HWContinue_same: "same_picture c (HWContinue_count c)" "same_picture c (HWContinue_output c)"
  "same_picture c (HWContinue_position c)"
  by (simp_all add: HWContinue_count_def HWContinue_output_def HWContinue_position_def Let_def same_picture_def call_view_def)

lemma InitHWContinue_same:
  "same_picture (hw_c h) (hw_c (JpegDecInitHWContinue h))"
  "length (hw_sent (JpegDecInitHWContinue h)) = Suc (length (hw_sent h))"
proof -
  let ?a = "HWContinue_count (hw_c h)"
  let ?b = "HWContinue_output (set_regs [(HWIF_DEC_SLICE_INT, 0), (HWIF_JPEG_STREAM_ALL, inf_streamEnd (c_info ?a))] ?a)"
  let ?d = "HWContinue_position ?b"
  have e: "hw_c (JpegDecInitHWContinue h) = (set_regs [(HWIF_JPEG_SLICE_H, inf_sliceHeight (c_info ?d))] ?d)
      \<lparr>c_ioctl_info := c_ioctl_info (hw_c (JpegDecInitHWContinue h))\<rparr>"
    by (simp add: JpegDecInitHWContinue_def JpegFlushRegs_def on_c_def Let_def)
  have "same_picture (hw_c h) ?b"
    by (rule same_picture_trans [OF HWContinue_same(1)], rule same_picture_trans [OF same_picture_simps(2)],
      rule HWContinue_same(2))
  then have "same_picture (hw_c h) ?d" by (rule same_picture_trans) (rule HWContinue_same(3))
  then have "same_picture (hw_c h) (set_regs [(HWIF_JPEG_SLICE_H, inf_sliceHeight (c_info ?d))] ?d)"
    by (rule same_picture_trans) simp
  then show "same_picture (hw_c h) (hw_c (JpegDecInitHWContinue h))"
    by (subst e) (rule same_picture_trans, assumption, simp)
  show "length (hw_sent (JpegDecInitHWContinue h)) = Suc (length (hw_sent h))"
    by (simp add: JpegDecInitHWContinue_def JpegFlushRegs_def on_c_def Let_def)
qed

section \<open>A call between two slices\<close>

lemma decode_stream_same:
  "same_picture (dv_c v) (dv_c (decode_stream inp v))" "hw_sent (dv_h (decode_stream inp v)) = hw_sent (dv_h v)"
  "dv_findhufftable (decode_stream inp v) = dv_findhufftable v"
  if "inf_progressiveScanReady (c_info (dv_c v)) = 0" "inf_nonInterleavedScanReady (c_info (dv_c v)) = 0"
  using that by (simp_all add: decode_stream_def Let_def on_dc_def on_c_def)

lemma paused_setup:
  assumes "paused inp (dv_c v)"
  shows "\<exists>w. decode_setup fuel mem infoTmp inp v = Continue w \<and> same_picture (dv_c v) (dv_c w) \<and>
    hw_sent (dv_h w) = hw_sent (dv_h v) \<and> dv_findhufftable w = dv_findhufftable v"
proof -
  have f: "inf_SliceReadyForPause (c_info (dv_c v)) = 1" "inf_inputBufferEmpty (c_info (dv_c v)) = 0"
    "inf_progressiveScanReady (c_info (dv_c v)) = 0" "inf_nonInterleavedScanReady (c_info (dv_c v)) = 0"
    using assms by (simp_all add: paused_def)
  have i: "in_c v (decode_info fuel mem infoTmp inp (dv_c v)) = Continue (on_dc (\<lambda>_. dv_c v) v)"
    using f by (simp add: decode_info_def)
  define w where "w = on_info (\<lambda>i. i\<lparr>inf_sliceMbSetValue := in_sliceMbSet inp\<rparr>) (decode_stream inp (on_dc (\<lambda>_. dv_c v) v))"
  have s: "same_picture (dv_c v) (dv_c (decode_stream inp (on_dc (\<lambda>_. dv_c v) v)))"
    "hw_sent (dv_h w) = hw_sent (dv_h v)" "dv_findhufftable w = dv_findhufftable v"
    using decode_stream_same [of "on_dc (\<lambda>_. dv_c v) v" inp] f by (simp_all add: w_def)
  have w: "same_picture (dv_c v) (dv_c w)" using same_picture_trans [OF s(1)] by (simp add: w_def)
  have p: "paused inp (dv_c w)" by (rule paused_same [OF w assms])
  have fits: "decode_slice_fits inp (dv_c w)" "decode_supported inp (dv_c w) = None" "decode_refill inp (dv_c w) = dv_c w"
    using p by (auto simp: decode_slice_fits_def decode_refill_def paused_def)
  have "decode_setup fuel mem infoTmp inp v = Continue (on_info (decode_given inp) (on_dc (decode_refill inp) w))"
    unfolding decode_setup_def i andThen.simps Let_def w_def [symmetric] using fits by simp
  moreover have "same_picture (dv_c v) (dv_c (on_info (decode_given inp) (on_dc (decode_refill inp) w)))"
    using same_picture_trans [OF w] fits(3) by simp
  ultimately show ?thesis using s by simp
qed

lemma paused_headers:
  assumes "paused inp (dv_c v)" "\<forall>n. malloc n" "\<not> dv_findhufftable v"
  shows "decode_headers fuel mem malloc al inp' v =
    Continue (on_dc (\<lambda>c. c\<lparr>c_vlc := fold dht_store std_dht (c_vlc c)\<rparr>) v)"
proof -
  have "decode_pass mem malloc al inp' (False, v) = Continue (True, v)"
    using assms(1) by (simp add: decode_pass_def paused_def)
  moreover have "whileLoop fuel decode_more (decode_pass mem malloc al inp') (True, v) = Continue (True, v)"
    by (cases fuel) (simp_all add: decode_more_def)
  ultimately show ?thesis
    using assms(3) by (simp add: decode_headers_def decode_default_tables_def DefaultHuffman_store [OF assms(2)] on_dc_def on_c_def)
qed

lemma paused_start:
  assumes "paused inp (dv_c v)"
  shows "\<exists>w. decode_start v = Continue w \<and> same_picture (dv_c v) (dv_c w) \<and>
    length (hw_sent (dv_h w)) = Suc (length (hw_sent (dv_h v)))"
proof -
  have f: "inf_SliceReadyForPause (c_info (dv_c v)) = 1" "inf_inputBufferEmpty (c_info (dv_c v)) = 0" "c_ppInstance (dv_c v) = 0"
    using assms by (simp_all add: paused_def)
  define u where "u = (if inf_sliceMbSetValue (c_info (dv_c v)) \<noteq> 0 \<and> pp_usePipeline (c_ppControl (dv_c v)) = 0
      then on_dc JpegDecSliceSizeCalculation v else v)"
  have u: "same_picture (dv_c v) (dv_c u)" "hw_sent (dv_h u) = hw_sent (dv_h v)"
    by (simp_all add: u_def SliceSize_same)
  then have "inf_SliceReadyForPause (c_info (dv_c u)) \<noteq> 0" using f by (simp add: same_picture_def)
  then have "decode_program u = Continue (u\<lparr>dv_h := JpegDecInitHWContinue (dv_h u)\<rparr>)"
    by (simp add: decode_program_def Let_def)
  then have "decode_start v = Continue (on_info (\<lambda>i. i\<lparr>inf_SliceCount := inf_SliceCount i + 1\<rparr>)
      (u\<lparr>dv_h := JpegDecInitHWContinue (dv_h u)\<rparr>))"
    using f by (simp add: decode_start_def Let_def u_def [symmetric])
  moreover have "same_picture (dv_c v) (hw_c (JpegDecInitHWContinue (dv_h u)))"
    by (rule same_picture_trans [OF u(1) InitHWContinue_same(1)])
  ultimately show ?thesis using InitHWContinue_same(2) [of "dv_h u"] u(2)
    by (auto intro: same_picture_trans)
qed

text \<open>The whole call up to the reply of the core.\<close>

lemma paused_call:
  assumes "paused inp (hw_c h)" "\<forall>n. malloc n"
  shows "\<exists>v w. decode_body fuel mem malloc al core infoTmp inp (decode_start_vars h out) =
      andThen (decode_image fuel mem malloc al core v) (decode_finish core) \<and>
    img_headerReady (c_image (dv_c v)) \<noteq> 0 \<and> decode_start v = Continue w \<and> same_picture (hw_c h) (dv_c w) \<and>
    length (hw_sent (dv_h w)) = Suc (length (hw_sent h))"
proof -
  let ?start = "decode_start_vars h out"
  have h: "dv_c ?start = hw_c h" "hw_sent (dv_h ?start) = hw_sent h" "\<not> dv_findhufftable ?start"
    by (simp_all add: decode_start_vars_def)
  obtain a where a: "decode_setup fuel mem infoTmp inp ?start = Continue a" "same_picture (hw_c h) (dv_c a)"
    "hw_sent (dv_h a) = hw_sent h" "dv_findhufftable a = dv_findhufftable ?start"
    using paused_setup [of inp ?start fuel mem infoTmp] assms(1) h by auto
  have pa: "paused inp (dv_c a)" by (rule paused_same [OF a(2) assms(1)])
  let ?b = "on_info (decode_streaming inp) a"
  have b: "decode_streaming inp (c_info (dv_c a)) = c_info (dv_c a)"
    using pa by (simp add: decode_streaming_def paused_def)
  then have sb: "same_picture (dv_c a) (dv_c ?b)" by (simp add: same_picture_def call_view_def)
  have pb: "paused inp (dv_c ?b)" by (rule paused_same [OF sb pa])
  have nf: "\<not> dv_findhufftable ?b" using a(4) h(3) by simp
  let ?v = "on_dc (\<lambda>c. c\<lparr>c_vlc := fold dht_store std_dht (c_vlc c)\<rparr>) ?b"
  have sv: "same_picture (hw_c h) (dv_c ?v)"
    using same_picture_trans [OF a(2) same_picture_trans [OF sb]] by simp
  have pv: "paused inp (dv_c ?v)" by (rule paused_same [OF sv assms(1)])
  obtain w where w: "decode_start ?v = Continue w" "same_picture (dv_c ?v) (dv_c w)"
    "length (hw_sent (dv_h w)) = Suc (length (hw_sent (dv_h ?v)))"
    using paused_start [OF pv] by blast
  have "decode_body fuel mem malloc al core infoTmp inp ?start = andThen (decode_image fuel mem malloc al core ?v) (decode_finish core)"
    using pa by (simp add: decode_body_def a(1) paused_headers [OF pb assms(2) nf] paused_def)
  then show ?thesis
    using w pv same_picture_trans [OF sv w(2)] a(3) by (auto simp: paused_def)
qed

section \<open>A picture in slices\<close>

text \<open>The core delivers slices until it got n messages, and the last part of the picture then.\<close>

definition slice_core :: "nat \<Rightarrow> core \<Rightarrow> bool" where
  "slice_core n core \<longleftrightarrow> (\<forall>ms. gr_ret (core ms) = 0 \<and>
     event_of (gr_regs (core ms)) = (if length ms < n then Slice_decoded else Scan_decoded))"

lemma paused_pass:
  assumes "paused inp (hw_c h)" "\<forall>n. malloc n" "slice_core N core"
  shows "\<exists>v u w. decode_body fuel mem malloc al core infoTmp inp (decode_start_vars h out) =
      andThen (decode_image fuel mem malloc al core v) (decode_finish core) \<and>
    img_headerReady (c_image (dv_c v)) \<noteq> 0 \<and> same_picture (hw_c h) (dv_c u) \<and>
    length (hw_sent (dv_h w)) = Suc (length (hw_sent h)) \<and>
    (if Suc (length (hw_sent h)) < N
     then core_pass fuel mem malloc al core v = Return (JPEGDEC_SLICE_READY, w) \<and> event_effect Slice_decoded u w
     else core_pass fuel mem malloc al core v = Continue w \<and> event_effect Scan_decoded u w)"
proof -
  obtain v u where b: "decode_body fuel mem malloc al core infoTmp inp (decode_start_vars h out) =
      andThen (decode_image fuel mem malloc al core v) (decode_finish core)"
    "img_headerReady (c_image (dv_c v)) \<noteq> 0" "decode_start v = Continue u" "same_picture (hw_c h) (dv_c u)"
    "length (hw_sent (dv_h u)) = Suc (length (hw_sent h))"
    using paused_call [OF assms(1,2)] by blast
  have pu: "paused inp (dv_c u)" by (rule paused_same [OF b(4) assms(1)])
  let ?r = "core (hw_sent (dv_h u))"
  have r: "gr_ret ?r = 0" "event_of (gr_regs ?r) = (if Suc (length (hw_sent h)) < N then Slice_decoded else Scan_decoded)"
    using assms(3) b(5) by (simp_all add: slice_core_def)
  obtain w where w: "core_pass fuel mem malloc al core v =
      (case event_code (gr_regs ?r) (dv_c u) of Some ret \<Rightarrow> Return (ret, w) | None \<Rightarrow> Continue w)"
    "event_effect (event_of (gr_regs ?r)) u w"
    using pass_of_event [where r = ?r and core = core and v = u and fuel = fuel and mem = mem and malloc = malloc and al = al] r(1) pu b(3) by (auto simp: core_pass_def paused_def)
  have s: "hw_sent (dv_h w) = hw_sent (dv_h u)" using w(2) by (simp add: event_effect_def)
  show ?thesis
    by (rule exI [of _ v], rule exI [of _ u], rule exI [of _ w]) (use b w r s in \<open>simp add: event_code_def split: if_splits\<close>)
qed

lemma paused_slice:
  assumes "paused inp (hw_c h)" "\<forall>n. malloc n" "slice_core N core" "Suc (length (hw_sent h)) < N"
  shows "\<exists>w. JpegDecDecode fuel mem malloc al core infoTmp (Some h) (Some inp) (Some out) =
      Return (JPEGDEC_SLICE_READY, Some w) \<and> paused inp (dv_c w) \<and> length (hw_sent (dv_h w)) = Suc (length (hw_sent h))"
proof -
  obtain v u w where w: "decode_body fuel mem malloc al core infoTmp inp (decode_start_vars h out) =
      andThen (decode_image fuel mem malloc al core v) (decode_finish core)"
    "img_headerReady (c_image (dv_c v)) \<noteq> 0" "same_picture (hw_c h) (dv_c u)"
    "length (hw_sent (dv_h w)) = Suc (length (hw_sent h))"
    "core_pass fuel mem malloc al core v = Return (JPEGDEC_SLICE_READY, w)" "event_effect Slice_decoded u w"
    using paused_pass [OF assms(1-3), of fuel mem al infoTmp out] assms(4) by auto
  have pu: "paused inp (dv_c u)" by (rule paused_same [OF w(3) assms(1)])
  have "same_picture (dv_c u) (dv_c w)" using w(6) pu by (simp add: same_picture_def event_effect_def paused_def)
  then have "paused inp (dv_c w)" by (rule paused_same [OF _ pu])
  then show ?thesis
    using w assms(1) by (simp add: JpegDecDecode_def decode_image_def paused_def)
qed

lemma paused_last:
  assumes "paused inp (hw_c h)" "\<forall>n. malloc n" "slice_core N core" "N \<le> Suc (length (hw_sent h))"
  shows "\<exists>w. JpegDecDecode fuel mem malloc al core infoTmp (Some h) (Some inp) (Some out) =
      Return (JPEGDEC_FRAME_READY, Some w) \<and> length (hw_sent (dv_h w)) = Suc (length (hw_sent h)) \<and>
      img_headerReady (c_image (dv_c w)) = 0 \<and> img_imageReady (c_image (dv_c w)) = 0 \<and>
      inf_SliceReadyForPause (c_info (dv_c w)) = 1 \<and> c_asicRunning (dv_c w) = 0 \<and>
      call_view (dv_c w) = call_view (hw_c h)"
proof -
  obtain v u w where w: "decode_body fuel mem malloc al core infoTmp inp (decode_start_vars h out) =
      andThen (decode_image fuel mem malloc al core v) (decode_finish core)"
    "img_headerReady (c_image (dv_c v)) \<noteq> 0" "same_picture (hw_c h) (dv_c u)"
    "length (hw_sent (dv_h w)) = Suc (length (hw_sent h))"
    "core_pass fuel mem malloc al core v = Continue w" "event_effect Scan_decoded u w"
    using paused_pass [OF assms(1-3), of fuel mem al infoTmp out] assms(4) by auto
  have pu: "paused inp (dv_c u)" by (rule paused_same [OF w(3) assms(1)])
  have e: "img_imageReady (c_image (dv_c w)) = 1" "call_view (dv_c w) = call_view (dv_c u)" "c_asicRunning (dv_c w) = 0"
    "inf_SliceReadyForPause (c_info (dv_c w)) = inf_SliceReadyForPause (c_info (dv_c u))"
    using w(6) by (simp_all add: event_effect_def)
  then have "inf_operationType (c_info (dv_c w)) = JPEGDEC_BASELINE" "inf_SliceReadyForPause (c_info (dv_c w)) = 1"
    using pu by (simp_all add: paused_def call_view_def Let_def)
  moreover have "whileLoop fuel core_more (core_pass fuel mem malloc al core) w = Continue w"
    using e by (cases fuel) (simp_all add: core_more_def)
  moreover have "call_view (dv_c w) = call_view (hw_c h)" using e(2) w(3) by (simp add: same_picture_def)
  ultimately show ?thesis
    using w e assms(1) by (simp add: JpegDecDecode_def decode_image_def decode_finish_def not_ready_def paused_def)
qed

text \<open>The codes of at most n calls, each on the state the last one left, and the state after them.\<close>

primrec decode_calls ::
  "(hw_state \<Rightarrow> (JpegDecRet \<times> decode_vars option, unit) outcome) \<Rightarrow> nat \<Rightarrow> hw_state \<Rightarrow> JpegDecRet list \<times> hw_state" where
  "decode_calls D 0 h = ([], h)"
| "decode_calls D (Suc n) h =
     (case D h of
        Return (ret, Some v) \<Rightarrow> (case decode_calls D n (dv_h v) of (rets, h') \<Rightarrow> (ret # rets, h'))
      | _ \<Rightarrow> ([], h))"

definition slice_call ::
  "nat \<Rightarrow> memory \<Rightarrow> (u32 \<Rightarrow> bool) \<Rightarrow> os_allocator \<Rightarrow> core \<Rightarrow> JpegDecImageInfo \<Rightarrow> JpegDecInput \<Rightarrow> JpegDecOutput \<Rightarrow>
   hw_state \<Rightarrow> (JpegDecRet \<times> decode_vars option, unit) outcome" where
  "slice_call fuel mem malloc al core infoTmp inp out h =
     JpegDecDecode fuel mem malloc al core infoTmp (Some h) (Some inp) (Some out)"

lemma slice_calls:
  assumes "paused inp (hw_c h)" "\<forall>n. malloc n" "slice_core N core" "length (hw_sent h) + Suc k = N"
  shows "\<exists>h'. decode_calls (slice_call fuel mem malloc al core infoTmp inp out) (Suc k) h =
      (replicate k JPEGDEC_SLICE_READY @ [JPEGDEC_FRAME_READY], h') \<and>
    length (hw_sent h') = N \<and> c_asicRunning (hw_c h') = 0 \<and> img_headerReady (c_image (hw_c h')) = 0 \<and>
    inf_SliceReadyForPause (c_info (hw_c h')) = 1"
  using assms(1,4)
proof (induction k arbitrary: h)
  case 0
  then have "N \<le> Suc (length (hw_sent h))" by simp
  from paused_last [OF 0(1) assms(2,3) this, of fuel mem al infoTmp out] 0(2) show ?case
    by (auto simp: slice_call_def)
next
  case (Suc k)
  then have "Suc (length (hw_sent h)) < N" by simp
  from paused_slice [OF Suc.prems(1) assms(2,3) this, of fuel mem al infoTmp out]
  obtain w where w: "slice_call fuel mem malloc al core infoTmp inp out h =
      Return (JPEGDEC_SLICE_READY, Some w)" "paused inp (dv_c w)" "length (hw_sent (dv_h w)) = Suc (length (hw_sent h))"
    by (auto simp: slice_call_def)
  have "length (hw_sent (dv_h w)) + Suc k = N" using w(3) Suc.prems(2) by simp
  from Suc.IH [OF w(2) this] show ?case
    by (subst decode_calls.simps) (auto simp only: w(1) outcome.case prod.case option.case replicate_Suc append_Cons)
qed

text \<open>
  C12. A picture decoded in slices: when the core reports a slice after each message but the last,
  the calls of JpegDecDecode between the first slice and the end return JPEGDEC_SLICE_READY once
  for every slice and then JPEGDEC_FRAME_READY, whatever the stream holds: each call sends one message,
  the headers are not read again, and the core is stopped at the end. The flag SliceReadyForPause is
  still set after the last slice.
\<close>

theorem Decode_delivers_slices:
  assumes "paused inp (hw_c h)" "\<forall>n. malloc n" "slice_core N core" "length (hw_sent h) + Suc k = N"
  shows "\<exists>h'. decode_calls (slice_call fuel mem malloc al core infoTmp inp out) (Suc k) h =
      (replicate k JPEGDEC_SLICE_READY @ [JPEGDEC_FRAME_READY], h') \<and>
    length (hw_sent h') = N \<and> c_asicRunning (hw_c h') = 0 \<and> img_headerReady (c_image (hw_c h')) = 0 \<and>
    inf_SliceReadyForPause (c_info (hw_c h')) = 1"
  by (rule slice_calls [OF assms])

definition demo_slice_core :: core where
  "demo_slice_core ms = \<lparr>gr_ret = 0,
     gr_regs = (\<lambda>i. if i = 55 then (if length ms < 4 then 0x200 else 0x10) else if i = 148 then 1 else 0)\<rparr>"

definition demo_slice_input :: JpegDecInput where
  "demo_slice_input = (info_input 64 100)\<lparr>in_sliceMbSet := 1\<rparr>"

definition demo_paused :: hw_state where
  "demo_paused = \<lparr>hw_c = zero_JpegDecContainer\<lparr>c_maxSupportedSliceSize := 4096,
       c_image := zero_ImageData\<lparr>img_headerReady := 1\<rparr>, c_info := zero_DecInfo\<lparr>inf_SliceReadyForPause := 1\<rparr>\<rparr>,
     hw_base = [], hw_sent = [zero_JpegdIocRegInfo]\<rparr>"

definition null_output :: JpegDecOutput where
  "null_output = \<lparr>out_outputPictureY = null_mem, out_outputPictureCbCr = null_mem, out_outputPictureCr = null_mem\<rparr>"

lemma demo_slice_core_ok: "slice_core 4 demo_slice_core"
proof -
  have "bit (0x200 :: u32) 9" "\<not> bit (0x200 :: u32) 5" "\<not> bit (0x200 :: u32) 12" "\<not> bit (0x200 :: u32) 13"
    "\<not> bit (0x200 :: u32) 6" "\<not> bit (0x10 :: u32) 5" "\<not> bit (0x10 :: u32) 12" "\<not> bit (0x10 :: u32) 13"
    "\<not> bit (0x10 :: u32) 6" "\<not> bit (0x10 :: u32) 9"
    by simp_all
  then show ?thesis by (auto simp: slice_core_def demo_slice_core_def event_of_def Let_def)
qed

lemma demo_paused_ok: "paused demo_slice_input (hw_c demo_paused)"
  by (simp add: paused_def demo_paused_def demo_slice_input_def info_input_def zero_defs zero_JpegDecLinearMem_def
      decode_check_def decode_supported_def bad_virtual_address_def half_null_def slice_mcus_def jpeg_consts Let_def)

lemma Decode_delivers_slices_witness:
  "\<exists>h'. decode_calls (slice_call 9 (memory_of 64 [1]) (\<lambda>n. True) no_allocator demo_slice_core zero_JpegDecImageInfo
      demo_slice_input null_output) 3 demo_paused =
    ([JPEGDEC_SLICE_READY, JPEGDEC_SLICE_READY, JPEGDEC_FRAME_READY], h') \<and> inf_SliceReadyForPause (c_info (hw_c h')) = 1"
proof -
  have n: "length (hw_sent demo_paused) + Suc 2 = 4" by (simp add: demo_paused_def)
  have r: "replicate 2 JPEGDEC_SLICE_READY = [JPEGDEC_SLICE_READY, JPEGDEC_SLICE_READY]" by (simp add: numeral_2_eq_2)
  have three: "Suc 2 = (3 :: nat)" by simp
  from Decode_delivers_slices [OF demo_paused_ok _ demo_slice_core_ok n, of "\<lambda>n. True"] show ?thesis
    unfolding r three by fastforce
qed

section \<open>The picture after one in slices\<close>

text \<open>The fields JpegDecInitHWContinue writes, and those that describe a picture and its stream.\<close>

definition continue_ids :: "nat list" where
  "continue_ids = [HWIF_DEC_SLICE_INT, HWIF_JPEG_STREAM_ALL, HWIF_DEC_OUT_BASE, HWIF_JPG_CH_OUT_BASE, HWIF_JPEG_SLICE_H]"

definition new_picture_ids :: "nat list" where
  "new_picture_ids = [HWIF_PIC_MB_W_EXT, HWIF_PIC_MB_WIDTH, HWIF_PIC_MB_H_EXT, HWIF_PIC_MB_HEIGHT_P, HWIF_JPEG_MODE,
     HWIF_JPEG_QTABLES, HWIF_QTABLE_BASE, HWIF_RLC_VLC_BASE, HWIF_STRM_START_BIT, HWIF_STREAM_LEN]"

lemma new_picture_apart:
  "list_all reg_valid continue_ids" "list_all (\<lambda>j. reg_valid j \<and> apart_from continue_ids j) new_picture_ids"
  by (simp_all add: continue_ids_def new_picture_ids_def apart_from_def reg_valid_def hwDecRegSpec_length reg_eval)

abbreviation continue_kept :: "JpegDecContainer \<Rightarrow> JpegDecContainer \<Rightarrow> bool" where
  "continue_kept c c' \<equiv> regs_kept (apart_from continue_ids) (c_jpegRegs c) (c_jpegRegs c')"

lemma set_regs_continue: "set (map fst ws) \<subseteq> set continue_ids \<Longrightarrow> continue_kept c (set_regs ws c)"
  by (rule ids_kept [OF _ new_picture_apart(1)])

lemma set_regs_continue_on:
  "c_jpegRegs c' = c_jpegRegs c \<Longrightarrow> list_all (\<lambda>(i, v). i \<in> set continue_ids) ws \<Longrightarrow> continue_kept c (set_regs ws c')"
proof -
  assume c: "c_jpegRegs c' = c_jpegRegs c" and "list_all (\<lambda>(i, v). i \<in> set continue_ids) ws"
  then have "continue_kept c' (set_regs ws c')" by (intro set_regs_continue) (auto simp: list_all_iff)
  then show "continue_kept c (set_regs ws c')" unfolding c .
qed

lemma continue_members:
  "HWIF_DEC_SLICE_INT \<in> set continue_ids" "HWIF_JPEG_STREAM_ALL \<in> set continue_ids" "HWIF_DEC_OUT_BASE \<in> set continue_ids"
  "HWIF_JPG_CH_OUT_BASE \<in> set continue_ids" "HWIF_JPEG_SLICE_H \<in> set continue_ids"
  by (simp_all add: continue_ids_def)

lemma HWContinue_kept:
  "continue_kept c (HWContinue_count c)" "continue_kept c (HWContinue_output c)" "continue_kept c (HWContinue_position c)"
  by (auto simp: HWContinue_count_def HWContinue_output_def HWContinue_position_def Let_def regs_kept_refl continue_members
      intro!: set_regs_continue_on)

lemma InitHWContinue_message:
  "\<exists>m. hw_sent (JpegDecInitHWContinue h) = hw_sent h @ [m] \<and>
    regs_kept (apart_from continue_ids) (c_jpegRegs (hw_c h)) (take DEC_RK70_REGISTERS (ioc_regs m))"
proof -
  let ?a = "HWContinue_count (hw_c h)"
  let ?a' = "set_regs [(HWIF_DEC_SLICE_INT, 0), (HWIF_JPEG_STREAM_ALL, inf_streamEnd (c_info ?a))] ?a"
  let ?b = "HWContinue_position (HWContinue_output ?a')"
  let ?c = "set_regs [(HWIF_JPEG_SLICE_H, inf_sliceHeight (c_info ?b))] ?b"
  have s: "continue_kept ?a ?a'" "continue_kept ?b ?c" by (rule set_regs_continue; simp add: continue_ids_def)+
  have t: "continue_kept x y \<Longrightarrow> continue_kept y z \<Longrightarrow> continue_kept x z" for x y z
    by (rule kept_again)
  have k: "continue_kept (hw_c h) ?c"
    by (rule t [OF HWContinue_kept(1)], rule t [OF s(1)], rule t [OF HWContinue_kept(2)], rule t [OF HWContinue_kept(3)], rule s(2))
  have "take DEC_RK70_REGISTERS (take DEC_RK70_REGISTERS r @ drop DEC_RK70_REGISTERS x) = r" if "regs_ok r" for r x
    using that by (simp add: regs_ok_def)
  then show ?thesis using k
    by (auto simp: JpegDecInitHWContinue_def JpegFlushRegs_def on_c_def Let_def regs_kept_def)
qed

lemma SliceSize_regs: "c_jpegRegs (JpegDecSliceSizeCalculation c) = c_jpegRegs c"
  by (simp add: JpegDecSliceSizeCalculation_def Let_def)



end
