(* ===== verification/RkDemo.thy ===== *)
theory RkDemo
  imports RkHeader DecodeSlices
begin

text \<open>
  Clients that run: Rk_JpegDecoder over the kernel and the device of the examples, with small pictures
  that are refused and one that is decoded.
\<close>

section \<open>Concrete clients\<close>

definition demo_env :: "kernel_demo rk_env" where
  "demo_env = \<lparr>re_kernel = demo_kernel, re_ctx = 0x3000, re_mapped = (\<lambda>k. []), re_device = demo_device, re_malloc = (\<lambda>n. True),
     re_al = no_allocator, re_core = (\<lambda>ms. \<lparr>gr_ret = 0, gr_regs = (\<lambda>i. if i = 55 then 0x10 else 0)\<rparr>),
     re_infoTmp = zero_JpegDecImageInfo, re_fuel = 9\<rparr>"

definition demo_rk_ctx :: "Allocator.allocator_ctx_drm" where
  "demo_rk_ctx = \<lparr>ac_alignment = 32, ac_drm_device = 3\<rparr>"

definition demo_new :: "kernel_demo Rk_JpegDecoder" where
  "demo_new = \<lparr>rk_imageInfo = zero_JpegDecImageInfo, rk_jpegIn = info_input 64 100,
     rk_jpegOut = \<lparr>out_outputPictureY = null_mem, out_outputPictureCbCr = null_mem, out_outputPictureCr = null_mem\<rparr>,
     rk_jpegInst = None, rk_jpegRet = JPEGDEC_OK, rk_streamMem = zero_MppBufferInfo, rk_pictureMem = zero_MppBufferInfo,
     rk_stream_size = 0, rk_color_conv = 1, rk_vpumem_ctx = 0, rk_ctx = None, rk_os_api = False, rk_stream = [],
     rk_kernel = demo_start 9, rk_ledger = [Device_fd 3]\<rparr>"

definition demo_jpeg_frame :: JPEG_FRAME where
  "demo_jpeg_frame = \<lparr>jf_FrameBusAddr = [0, 0], jf_FrameWidth = 0, jf_FrameHeight = 0, jf_OutputWidth = 0, jf_OutputHeight = 0,
     jf_DisplayWidth = 0, jf_DisplayHeight = 0, jf_ColorType = 0, jf_ErrorInfo = 0, jf_employ_cnt = 0,
     jf_jpegmem = zero_MppBufferInfo, jf_next_frame = 0, jf_Res = [0, 0, 0, 0]\<rparr>"

text \<open>The kernel after one and after two buffers.\<close>

definition demo_first :: kernel_demo where
  "demo_first = (demo_start 9)\<lparr>kd_handles := {(3, 8), (3, 7)}, kd_fds := {9, 5}, kd_next := 9, kd_busy := 0, kd_room := 8\<rparr>"

definition demo_second :: kernel_demo where
  "demo_second = demo_first\<lparr>kd_handles := {(3, 9), (3, 8), (3, 7)}, kd_fds := {8, 9, 5}, kd_next := 10, kd_room := 7\<rparr>"

lemma demo_alloc_any:
  "os_allocator_drm_alloc demo_kernel (demo_start 9) (Some demo_rk_ctx) b =
    Some (demo_first, 0, b\<lparr>mb_hnd := 8, mb_phy_addr := 9, mb_vir_addr := 0\<rparr>)"
  "os_allocator_drm_alloc demo_kernel demo_first (Some demo_rk_ctx) b =
    Some (demo_second, 0, b\<lparr>mb_hnd := 9, mb_phy_addr := 8, mb_vir_addr := 0\<rparr>)"
  by (simp_all add: os_allocator_drm_alloc_def drm_alloc_def drm_handle_to_fd_def buffer_fd_def demo_run demo_rk_ctx_def
      demo_first_def demo_second_def)

lemma demo_map_any:
  "os_allocator_drm_mmap demo_kernel k (Some demo_rk_ctx) (b\<lparr>mb_vir_addr := 0\<rparr>) = Some (k, 0, b\<lparr>mb_vir_addr := 0x1000\<rparr>)"
  by (simp add: os_allocator_drm_mmap_def demo_run)

lemma demo_alloc_map:
  "rk_alloc_map demo_env (demo_start 9) (Some demo_rk_ctx) b =
    Some (demo_first, 0, 0, b\<lparr>mb_hnd := 8, mb_phy_addr := 9, mb_vir_addr := 0x1000\<rparr>)"
  "rk_alloc_map demo_env demo_first (Some demo_rk_ctx) b =
    Some (demo_second, 0, 0, b\<lparr>mb_hnd := 9, mb_phy_addr := 8, mb_vir_addr := 0x1000\<rparr>)"
  using demo_map_any [of _ "b\<lparr>mb_hnd := 8, mb_phy_addr := 9\<rparr>"] demo_map_any [of _ "b\<lparr>mb_hnd := 9, mb_phy_addr := 8\<rparr>"]
  by (simp_all add: rk_alloc_map_def demo_env_def allocator_drm_def demo_alloc_any)

lemma demo_free_any:
  "\<exists>b'. os_allocator_drm_free demo_kernel k (Some demo_rk_ctx) b =
    Some (k\<lparr>kd_fds := kd_fds k - {buffer_fd b}, kd_handles := kd_handles k - {(3, mb_hnd b)}\<rparr>, 0, b')"
  by (simp add: os_allocator_drm_free_def drm_free_def demo_run demo_rk_ctx_def buffer_fd_def Let_def split: prod.split)

text \<open>The client after init.\<close>

definition demo_client :: "kernel_demo Rk_JpegDecoder" where
  "demo_client = (rk_reset demo_new)\<lparr>rk_ctx := Some demo_rk_ctx, rk_stream_size := 512000,
     rk_streamMem := (zero_MppBufferInfo\<lparr>mb_size := 512000, mb_type := MPP_BUFFER_TYPE_DRM\<rparr>)
       \<lparr>mb_hnd := 8, mb_phy_addr := 9, mb_vir_addr := 0x1000\<rparr>,
     rk_stream := [], rk_kernel := demo_first, rk_jpegInst := None\<rparr>"

lemma demo_init: "pv_rkJpegdecoder_init demo_env demo_new = Return (0, demo_client)"
proof -
  have "at_open (allocator_drm (re_kernel demo_env)) (demo_start 9) (Some None) 32 = (demo_start 9, 0, Some (Some demo_rk_ctx))"
    by (simp add: demo_env_def allocator_drm_def os_allocator_drm_open_def demo_kernel_def demo_rk_ctx_def MPP_OK_def)
  moreover have "re_mapped demo_env k = []" for k by (simp add: demo_env_def)
  ultimately show ?thesis
    by (simp add: pv_rkJpegdecoder_init_def rk_reset_def demo_new_def demo_client_def demo_alloc_map zero_MppBufferInfo_def DWL_OK_def Let_def)
qed

lemma demo_client_facts:
  "rk_ctx demo_client = Some demo_rk_ctx" "mb_vir_addr (rk_streamMem demo_client) = 0x1000" "rk_vpumem_ctx demo_client = 0"
  "rk_kernel demo_client = demo_first" "rk_stream demo_client = []"
  "JpegDecInit (re_device demo_env) (rk_ledger demo_client) True (rk_color_conv demo_client) =
    (JPEGDEC_OK, Some (0x1000, init_container 5 0x2000), [Register_object_block 0x2000, Container_block 0x1000, Device_fd 5, Device_fd 3])"
  using demo_Init by (simp_all add: demo_client_def rk_reset_def demo_new_def demo_env_def)

lemma First_small_picture_closes_stdin_witness:
  "\<exists>v. pv_rkJpegdecoder_oneframe demo_env (replicate 20 1) 0 demo_jpeg_frame 0 demo_client = Return (0, v) \<and> of_outLength v = 0"
proof -
  have p: "prepare_stream (rk_stream demo_client) (replicate 20 1) = Some (replicate 20 1 @ replicate 236 0, 20)"
    by (simp add: demo_client_facts prepare_stream_def fill_stream_def is_avi1_def str_size_def cut_padding_def nth_append)
  have "drm_free (re_kernel demo_env) (fst (k_close (re_kernel demo_env) 0 (rk_kernel demo_client))) (ac_drm_device demo_rk_ctx) 0 =
      Some (fst (the (drm_free (re_kernel demo_env) (fst (k_close (re_kernel demo_env) 0 (rk_kernel demo_client))) (ac_drm_device demo_rk_ctx) 0)), 0)"
    by (simp add: demo_env_def drm_free_def demo_run)
  note free = this
  have l: "16 \<le> length (replicate 20 (1 :: u8))" "length (replicate 20 (1 :: u8)) < 256" "mb_vir_addr (rk_streamMem demo_client) \<noteq> 0"
    by (simp_all add: demo_client_facts)
  from First_small_picture_closes_stdin [OF demo_init demo_client_facts(1) l(3) demo_client_facts(6) l(1,2) p free] show ?thesis
    by blast
qed


text \<open>A client in the middle of a baseline picture, before its last slice.\<close>

definition demo_baseline :: jpeg_header where
  "demo_baseline = demo_header\<lparr>jh_frame := demo_frame\<lparr>fh_progressive := False\<rparr>\<rparr>"

definition demo_busy :: "kernel_demo Rk_JpegDecoder" where
  "demo_busy = demo_client\<lparr>rk_color_conv := 0, rk_kernel := demo_start 9, rk_jpegInst := Some (0x1000,
     \<lparr>hw_c = (init_container 5 0x2000)\<lparr>c_image := zero_ImageData\<lparr>img_headerReady := 1\<rparr>,
        c_info := zero_DecInfo\<lparr>inf_SliceReadyForPause := 1\<rparr>\<rparr>, hw_base = [], hw_sent = []\<rparr>)\<rparr>"

lemma demo_core_ok: "slice_core 0 (re_core demo_env)"
proof -
  have "\<not> bit (0x10 :: u32) 5" "\<not> bit (0x10 :: u32) 12" "\<not> bit (0x10 :: u32) 13" "\<not> bit (0x10 :: u32) 6" "\<not> bit (0x10 :: u32) 9"
    by simp_all
  then show ?thesis by (auto simp: slice_core_def demo_env_def event_of_def Let_def)
qed

lemma demo_baseline_ok:
  "header_ok (handed demo_env d ((init_container 5 0x2000)\<lparr>c_image := x, c_info := y\<rparr>)) JPEGDEC_YCbCr420_SEMIPLANAR demo_baseline"
proof -
  have e: "fh_H (demo_frame\<lparr>fh_progressive := False\<rparr>) = fh_H demo_frame" "fh_V (demo_frame\<lparr>fh_progressive := False\<rparr>) = fh_V demo_frame"
    "fh_rows (demo_frame\<lparr>fh_progressive := False\<rparr>) = fh_rows demo_frame"
    "fh_columns fmt (demo_frame\<lparr>fh_progressive := False\<rparr>) = fh_columns fmt demo_frame" for fmt
    by (simp_all add: fh_H_def fh_V_def fh_rows_def fh_columns_def)
  have l: "frame_ok (handed demo_env d ((init_container 5 0x2000)\<lparr>c_image := x, c_info := y\<rparr>)) fmt f = frame_ok (init_container 5 0x2000) fmt f" for fmt f
    by (simp add: frame_ok_def frame_fits_def handed_def)
  show ?thesis using demo_header_ok unfolding header_ok_def l
    by (simp add: demo_baseline_def demo_header_def frame_ok_def frame_fits_def e)
qed

lemma pass_ready:
  assumes "stage d L a h inp k b v"
    "JpegDecDecode (re_fuel E) (stream_memory d) (re_malloc E) (re_al E) (re_core E) (re_infoTmp E) (Some h) (Some inp) (Some (rk_jpegOut (of_d v))) =
       Return (JPEGDEC_FRAME_READY, Some u)"
  shows "\<exists>v'. decode_loop E 0 v = Continue v' \<and> of_outLength v' = sizeof_JPEG_FRAME \<and> same_client d v' \<and>
    rk_kernel (of_d v') = k \<and> rk_pictureMem (of_d v') = b"
proof -
  have "\<exists>v'. client_pass E 0 v = Continue v' \<and> rk_jpegRet (of_d v') = JPEGDEC_FRAME_READY \<and> of_outLength v' = sizeof_JPEG_FRAME \<and>
      same_client d v' \<and> rk_kernel (of_d v') = k \<and> rk_pictureMem (of_d v') = b"
    using assms by (simp add: client_pass_def stage_def same_client_def on_rk_def fill_frame_def Let_def)
  then obtain v' where v': "client_pass E 0 v = Continue v'" "rk_jpegRet (of_d v') = JPEGDEC_FRAME_READY"
    "of_outLength v' = sizeof_JPEG_FRAME \<and> same_client d v' \<and> rk_kernel (of_d v') = k \<and> rk_pictureMem (of_d v') = b" by blast
  then have "decode_loop E 0 v = Continue v'" by (cases "re_fuel E") (simp_all add: decode_loop_def)
  then show ?thesis using v'(3) by blast
qed

abbreviation demo_picture :: "u8 list" where "demo_picture \<equiv> header_bytes demo_baseline @ 0 # replicate 400 0"

lemma demo_baseline_length: "length (header_bytes demo_baseline) = 59" "header_passes demo_baseline = 5" "header_bytes demo_baseline ! 6 = 0x4A"
  by (simp_all add: header_bytes_def demo_baseline_def demo_header_def demo_frame_def frame_bytes_def scan_bytes_def be16_def header_passes_def)

lemma demo_picture_plain: "plain_picture demo_picture"
  by (simp add: plain_picture_def is_avi1_def demo_baseline_length nth_append)

lemma demo_paused_baseline:
  assumes "in_sliceMbSet inp = 0" "info_check inp = None" "in_bufferSize inp \<noteq> 0" "in_decImageType inp = 0" "in_pictureBufferY inp = null_mem"
    "in_pictureBufferCbCr inp = null_mem"
    "c = (header_c inp JPEGDEC_YCbCr420_SEMIPLANAR demo_baseline (ii_codingMode (header_info JPEGDEC_YCbCr420_SEMIPLANAR demo_baseline i))
      (handed demo_env d ((init_container 5 0x2000)\<lparr>c_image := zero_ImageData\<lparr>img_headerReady := 1\<rparr>,
        c_info := zero_DecInfo\<lparr>inf_SliceReadyForPause := 1\<rparr>\<rparr>)))
        \<lparr>c_ppInstance := 0, c_pictureMem := b, c_jpegRegs := r, c_ioctl_info := m\<rparr>"
  shows "paused inp c"
proof -
  have mode: "ii_codingMode (header_info JPEGDEC_YCbCr420_SEMIPLANAR demo_baseline i) = JPEGDEC_BASELINE"
    by (simp add: header_info_def scan_mode_def frame_info_def fh_mode_def demo_baseline_def demo_header_def Let_def)
  have sz: "fh_columns JPEGDEC_YCbCr420_SEMIPLANAR (jh_frame demo_baseline) = 656" "fh_rows (jh_frame demo_baseline) = 480"
    using demo_frame_size by (simp_all add: demo_baseline_def demo_header_def fh_columns_def fh_rows_def)
  have dc: "decode_check c inp = None"
    by (rule decode_check_header) (use assms in \<open>simp_all add: header_c_def frame_c_def handed_def zero_DecInfo_def\<close>)
  have h: "c_is8190 c = 1" "inf_operationType (c_info c) = JPEGDEC_BASELINE" "fr_hwX (c_frame c) = 656" "fr_hwY (c_frame c) = 480"
    unfolding assms(7) by (simp_all add: header_c_def frame_c_def handed_def init_container_eq mode sz)
  have "JPEGDEC_BASELINE \<noteq> JPEGDEC_PROGRESSIVE" "\<not> (656 * 480 :: u32) > JPEGDEC_MAX_PIXEL_AMOUNT" by (simp_all add: jpeg_consts)
  then have "decode_supported inp c = None"
    using h assms(1) by (simp add: decode_supported_def slice_mcus_def Let_def)
  with dc show ?thesis
    unfolding paused_def assms(7) by (simp add: header_c_def frame_c_def handed_def mode zero_DecInfo_def zero_ImageData_def)
qed

lemma header_c_slices: "header_c (inp\<lparr>in_sliceMbSet := s, in_decImageType := t\<rparr>) fmt hh mode c = header_c inp fmt hh mode c"
  by (simp add: header_c_def)

lemma demo_last_slice:
  assumes "paused inp (hw_c h)"
  shows "\<exists>u. JpegDecDecode (re_fuel demo_env) mem (re_malloc demo_env) (re_al demo_env) (re_core demo_env) (re_infoTmp demo_env)
    (Some h) (Some inp) (Some out) = Return (JPEGDEC_FRAME_READY, Some u)"
proof -
  have "\<forall>n. re_malloc demo_env n" by (simp add: demo_env_def)
  from paused_last [OF assms this demo_core_ok] show ?thesis by blast
qed

definition demo_busy_c :: JpegDecContainer where
  "demo_busy_c = (init_container 5 0x2000)\<lparr>c_image := zero_ImageData\<lparr>img_headerReady := 1\<rparr>, c_info := zero_DecInfo\<lparr>inf_SliceReadyForPause := 1\<rparr>\<rparr>"

lemma demo_busy_facts:
  "rk_jpegInst demo_busy = Some (0x1000, \<lparr>hw_c = demo_busy_c, hw_base = [], hw_sent = []\<rparr>)" "rk_stream_size demo_busy = 512000"
  "mb_vir_addr (rk_streamMem demo_busy) = 0x1000" "rk_os_api demo_busy" "rk_ctx demo_busy = Some demo_rk_ctx" "rk_vpumem_ctx demo_busy = 0"
  "rk_kernel demo_busy = demo_start 9" "rk_color_conv demo_busy = 0" "in_pictureBufferY (rk_jpegIn demo_busy) = null_mem"
  "in_pictureBufferCbCr (rk_jpegIn demo_busy) = null_mem"
  by (simp_all add: demo_busy_def demo_busy_c_def demo_client_def rk_reset_def demo_new_def)

text \<open>The client with the picture in its buffer.\<close>

definition demo_loaded :: "u8 list \<Rightarrow> kernel_demo Rk_JpegDecoder" where
  "demo_loaded rest = loaded (demo_busy\<lparr>rk_jpegInst := Some (0x1000, on_c (handed demo_env demo_busy)
     \<lparr>hw_c = demo_busy_c, hw_base = [], hw_sent = []\<rparr>)\<rparr>) (demo_picture @ rest) (length demo_picture)"

lemma demo_loaded_holds:
  "holds (stream_memory (demo_loaded rest)) (rk_jpegIn (demo_loaded rest)) demo_picture" "in_bufferSize (rk_jpegIn (demo_loaded rest)) \<noteq> 0"
  "in_pictureBufferY (rk_jpegIn (demo_loaded rest)) = null_mem" "in_pictureBufferCbCr (rk_jpegIn (demo_loaded rest)) = null_mem"
proof -
  let ?inp = "rk_jpegIn (demo_loaded rest)"
  have len: "length demo_picture = 460" by (simp add: demo_baseline_length)
  have inp: "in_bufferSize ?inp = of_nat (length demo_picture)" "in_streamLength ?inp = of_nat (length demo_picture)"
    "lm_pVirtualAddress (in_streamBuffer ?inp) = 0x1000"
    by (simp_all add: demo_loaded_def loaded_def demo_busy_facts)
  have "holds (memory_of (lm_pVirtualAddress (in_streamBuffer ?inp)) (demo_picture @ rest)) ?inp demo_picture"
    by (rule holds_prefix) (use inp len in simp_all)
  then show "holds (stream_memory (demo_loaded rest)) ?inp demo_picture"
    by (simp add: demo_loaded_def loaded_def stream_memory_def demo_busy_facts)
  have "unat (of_nat (length demo_picture) :: u32) = 460" using len by simp
  then show "in_bufferSize ?inp \<noteq> 0" unfolding inp(1) by (metis unsigned_0 zero_neq_numeral)
  show "in_pictureBufferY ?inp = null_mem" "in_pictureBufferCbCr ?inp = null_mem" by (simp_all add: demo_loaded_def loaded_def demo_busy_facts)
qed

lemma demo_busy_reaches:
  "\<exists>rest v h k b. oneframe_body demo_env demo_picture 0 (oneframe_start demo_picture demo_busy demo_jpeg_frame 0) = decode_loop demo_env 0 v \<and>
    stage (demo_loaded rest) 0 0x1000 h ((rk_jpegIn (demo_loaded rest))\<lparr>in_sliceMbSet := 0, in_decImageType := 0\<rparr>) k b v \<and>
    paused ((rk_jpegIn (demo_loaded rest))\<lparr>in_sliceMbSet := 0, in_decImageType := 0\<rparr>) (hw_c h)"
proof -
  let ?s = "oneframe_start demo_picture demo_busy demo_jpeg_frame 0" and ?h = "on_c (handed demo_env demo_busy) \<lparr>hw_c = demo_busy_c, hw_base = [], hw_sent = []\<rparr>"
    and ?start = "rk_pictureMem demo_busy"
  let ?b = "\<lambda>n. (?start\<lparr>mb_size := n\<rparr>)\<lparr>mb_hnd := 8, mb_phy_addr := 9, mb_vir_addr := 0x1000\<rparr>"
  note d = demo_busy_facts
  have opened: "open_instance demo_env ?s = Continue (?s\<lparr>of_d := demo_busy\<rparr>)" by (simp add: open_instance_def oneframe_start_def d(1))
  obtain rest where prep: "prepare_stream (rk_stream demo_busy) demo_picture = Some (demo_picture @ rest, length demo_picture)"
    using prepare_plain [OF demo_picture_plain] by blast
  let ?inp = "rk_jpegIn (demo_loaded rest)"
  have l: "16 \<le> length demo_picture" "length demo_picture < 2 ^ 18" "mb_vir_addr (rk_streamMem demo_busy) \<noteq> 0"
    using d(3) by (simp_all add: demo_baseline_length)
  note st = oneframe_loads [OF opened d(1,2) l(3,1,2) prep, folded demo_loaded_def]
  have alloc: "\<forall>n. \<exists>al. rk_alloc_map demo_env (rk_kernel demo_busy) (rk_ctx (demo_loaded rest)) (?start\<lparr>mb_size := n\<rparr>) = Some (demo_first, al, 0, ?b n)"
    by (simp add: d demo_loaded_def loaded_def demo_alloc_map)
  have lim: "limits_ok (hw_c ?h)" by (simp add: on_c_def handed_def limits_ok_def demo_busy_c_def init_container_eq jpeg_consts)
  have ok: "header_ok (hw_c ?h) JPEGDEC_YCbCr420_SEMIPLANAR demo_baseline" using demo_baseline_ok by (simp add: on_c_def demo_busy_c_def)
  have fits: "fh_columns JPEGDEC_YCbCr420_SEMIPLANAR (jh_frame demo_baseline) * fh_rows (jh_frame demo_baseline) \<le> JPEGDEC_MAX_PIXEL_AMOUNT"
    using demo_frame_size by (simp add: demo_baseline_def demo_header_def fh_columns_def fh_rows_def JPEGDEC_MAX_PIXEL_AMOUNT_def)
  have p: "header_passes demo_baseline + 8 < 8 * length (replicate 400 (0 :: u8))" "header_passes demo_baseline \<le> re_fuel demo_env"
    "rk_vpumem_ctx (demo_loaded rest) = 0" "rk_color_conv (demo_loaded rest) = 0"
    by (simp_all add: demo_baseline_length demo_env_def demo_loaded_def loaded_def d)
  obtain v r m n i where v: "oneframe_body demo_env demo_picture 0 ?s = decode_loop demo_env 0 v"
    "stage (demo_loaded rest) 0 0x1000 (?h\<lparr>hw_c := (header_c ?inp JPEGDEC_YCbCr420_SEMIPLANAR demo_baseline
        (ii_codingMode (header_info JPEGDEC_YCbCr420_SEMIPLANAR demo_baseline i)) (hw_c ?h))
        \<lparr>c_ppInstance := 0, c_pictureMem := Some (?b n), c_jpegRegs := r, c_ioctl_info := m\<rparr>\<rparr>)
      (?inp\<lparr>in_sliceMbSet := 0, in_decImageType := 0\<rparr>) demo_first (?b n) v"
    using header_reaches_decode [OF st(2) demo_loaded_holds(1) ok lim p(1,2) fits p(3) alloc] st(1) p(4) by auto
  have "info_check (?inp\<lparr>in_sliceMbSet := 0, in_decImageType := 0\<rparr>) = None"
    using demo_loaded_holds(1) [of rest] by (simp add: holds_def info_check_slices)
  then have "paused (?inp\<lparr>in_sliceMbSet := 0, in_decImageType := 0\<rparr>) ((header_c (?inp\<lparr>in_sliceMbSet := 0, in_decImageType := 0\<rparr>)
      JPEGDEC_YCbCr420_SEMIPLANAR demo_baseline (ii_codingMode (header_info JPEGDEC_YCbCr420_SEMIPLANAR demo_baseline i))
      (handed demo_env demo_busy demo_busy_c))\<lparr>c_ppInstance := 0, c_pictureMem := Some (?b n), c_jpegRegs := r, c_ioctl_info := m\<rparr>)"
    by (intro demo_paused_baseline [OF _ _ _ _ _ _ refl, folded demo_busy_c_def]) (use demo_loaded_holds in simp_all)
  then show ?thesis using v by (intro exI [of _ rest] exI [of _ v] exI conjI) (auto simp: header_c_slices on_c_def)
qed

lemma demo_busy_runs:
  "\<exists>ret v. pv_rkJpegdecoder_oneframe demo_env demo_picture 0 demo_jpeg_frame 0 demo_busy = Return (ret, v) \<and> of_outLength v = sizeof_JPEG_FRAME"
proof -
  obtain rest v h k b where v: "oneframe_body demo_env demo_picture 0 (oneframe_start demo_picture demo_busy demo_jpeg_frame 0) = decode_loop demo_env 0 v"
    "stage (demo_loaded rest) 0 0x1000 h ((rk_jpegIn (demo_loaded rest))\<lparr>in_sliceMbSet := 0, in_decImageType := 0\<rparr>) k b v"
    "paused ((rk_jpegIn (demo_loaded rest))\<lparr>in_sliceMbSet := 0, in_decImageType := 0\<rparr>) (hw_c h)"
    using demo_busy_reaches by blast
  obtain v' where v': "decode_loop demo_env 0 v = Continue v'" "of_outLength v' = sizeof_JPEG_FRAME" "same_client (demo_loaded rest) v'"
    using pass_ready [OF v(2)] demo_last_slice [OF v(3)] by blast
  have c: "rk_os_api (of_d v')" "rk_ctx (of_d v') = Some demo_rk_ctx" "re_kernel demo_env = demo_kernel"
    using v'(3) by (simp_all add: same_client_def demo_loaded_def loaded_def demo_busy_facts demo_env_def)
  obtain k' b' where "os_allocator_drm_free (re_kernel demo_env) (rk_kernel (of_d v')) (Some demo_rk_ctx) (rk_pictureMem (of_d v')) = Some (k', 0, b')"
    using demo_free_any unfolding c(3) by blast
  from oneframe_end_run [OF c(1,2) this] show ?thesis
    using v(1) v'(1,2) by (auto simp: pv_rkJpegdecoder_oneframe_def)
qed


end
