(* ===== verification/FirmwareUpdate.thy ===== *)
theory FirmwareUpdate
  imports Prelude
begin

text \<open>
  The update tool (package/rockchip/update): update_recv/update_recv.c copies an item of an update image
  to the recovery partition and compares it, update.c leaves a message for the bootloader and reboots.

  Files are lists of bytes; the recovery partition and /misc are devices, whose length a write does not
  change. A write reaches the device at once: what a buffer keeps back is only reported by fclose, whose
  result the code does not look at. The image is none of the files that are written. stat has no large
  file support and fails on a file of 2 GB, so every offset that GetData lets pass fits the long that
  fseek takes. What is printed, mkdir, the handles that early returns leave open, and sync are not modelled.

  write_chunks and check_chunks are the loops over an item, one_item the pass over a table entry, given
  one of them. The lemmas show that a copy moves forward over the device, that a comparison takes the same
  way, and that the reboot comes only behind both.
\<close>

section \<open>The image\<close>

type_synonym bytes = "u8 list"

definition le_u32 :: "bytes \<Rightarrow> nat \<Rightarrow> u32" where
  "le_u32 bs i = ucast (bs ! i) OR push_bit 8 (ucast (bs ! (i + 1))) OR push_bit 16 (ucast (bs ! (i + 2))) OR
     push_bit 24 (ucast (bs ! (i + 3)))"

definition c_bytes :: "string \<Rightarrow> bytes" where "c_bytes = map of_char"

text \<open>The packed structs STRUCT_RKIMAGE_HEAD, STRUCT_RKIMAGE_HDR and STRUCT_RKIMAGE_ITEM, by the offsets of their fields.\<close>

definition HEAD_SIZE :: nat where "HEAD_SIZE = 4 + 2 + 4 + 4 + 7 + 4 + 4 + 4 + 4 + 4 + 61"
definition HEAD_dwFWOffset :: nat where "HEAD_dwFWOffset = 4 + 2 + 4 + 4 + 7 + 4 + 4 + 4"
definition ITEM_SIZE :: nat where "ITEM_SIZE = 32 + 60 + 5 * 4"
definition MAX_PACKAGE_FILES :: nat where "MAX_PACKAGE_FILES = 16"
definition HDR_item_count :: nat where "HDR_item_count = 4 + 4 + 34 + 30 + 60 + 4"
definition HDR_item :: nat where "HDR_item = HDR_item_count + 4"
definition HDR_SIZE :: nat where "HDR_SIZE = HDR_item + MAX_PACKAGE_FILES * ITEM_SIZE"
definition LBA_TRANSFER_SIZE :: nat where "LBA_TRANSFER_SIZE = 16 * 1024"

definition item_pos :: "nat \<Rightarrow> nat" where "item_pos idx = HDR_item + idx * ITEM_SIZE"

text \<open>strcmp reads on behind the 32 bytes of the name, up to the next zero.\<close>

definition item_name :: "bytes \<Rightarrow> nat \<Rightarrow> bytes" where
  "item_name hdr idx = takeWhile (\<lambda>b. b \<noteq> 0) (drop (item_pos idx) hdr)"

definition item_file :: "bytes \<Rightarrow> nat \<Rightarrow> nat \<Rightarrow> u8" where
  "item_file hdr idx k = hdr ! (item_pos idx + 32 + k)"

definition item_offset :: "bytes \<Rightarrow> nat \<Rightarrow> u32" where "item_offset hdr idx = le_u32 hdr (item_pos idx + 32 + 60 + 4)"
definition item_size :: "bytes \<Rightarrow> nat \<Rightarrow> u32" where "item_size hdr idx = le_u32 hdr (item_pos idx + 32 + 60 + 16)"

text \<open>fileBufferSize: an H in the name of the file announces the upper half of the size behind it.\<close>

definition file_buffer_size :: "bytes \<Rightarrow> nat \<Rightarrow> int" where
  "file_buffer_size hdr idx =
     (if item_file hdr idx 55 = of_char CHR ''H''
      then sint (push_bit 32 (ucast (le_u32 hdr (item_pos idx + 32 + 56))) + ucast (item_size hdr idx) :: 64 word)
      else uint (item_size hdr idx))"

section \<open>State\<close>

record fw_env =
  fe_files :: "string \<Rightarrow> bytes option"
  fe_readable :: "string \<Rightarrow> bool"
  fe_writable :: "string \<Rightarrow> bool"
  fe_malloc :: bool
  fe_reboots :: bool

text \<open>The global variables, the recovery partition, and the files of update.c.\<close>

record fw_state =
  fw_m_fwOffset :: u32
  fw_m_fileSize :: int
  fw_bCheck :: bool
  fw_mnt_point :: string
  fw_node :: bytes
  fw_command :: bytes
  fw_log :: bytes
  fw_misc :: bytes

definition DEV_RECOVERY_NODE :: string where "DEV_RECOVERY_NODE = ''/dev/block/by-name/recovery''"
definition UPDATE_IMG :: string where "UPDATE_IMG = ''update.img''"

definition try_mount_point :: "string list" where
  "try_mount_point = [''/udisk/'', ''/mnt/udisk/'', ''/mnt/usb_storage/'', ''/mnt/sdcard/'', ''/mnt/external_sd/'']"

definition stat_size :: "bytes \<Rightarrow> int option" where
  "stat_size bs = (if length bs < 2 ^ 31 then Some (int (length bs)) else None)"

section \<open>Finding the image\<close>

text \<open>A file that exists: its size, and the variables that remember it.\<close>

definition found_file :: "bytes \<Rightarrow> string \<Rightarrow> fw_state \<Rightarrow> int \<times> fw_state" where
  "found_file bs name s =
     (case stat_size bs of None \<Rightarrow> (- 1, s) | Some n \<Rightarrow> (n, s\<lparr>fw_mnt_point := name, fw_m_fileSize := n\<rparr>))"

fun try_mounts :: "fw_env \<Rightarrow> string list \<Rightarrow> fw_state \<Rightarrow> int \<times> fw_state" where
  "try_mounts E [] s = (fw_m_fileSize s, s)"
| "try_mounts E (p # ps) s =
     (let szName = p @ UPDATE_IMG in
      case fe_files E szName of Some bs \<Rightarrow> found_file bs szName s | None \<Rightarrow> try_mounts E ps s)"

text \<open>A path of 256 bytes or more is copied over the end of szName.\<close>

definition GetFwSize :: "fw_env \<Rightarrow> string \<Rightarrow> fw_state \<Rightarrow> (fw_state, int \<times> fw_state) outcome" where
  "GetFwSize E path s =
     (if 256 \<le> length path then Undefined
      else let s = s\<lparr>fw_mnt_point := ''''\<rparr> in
      case fe_files E path of
        Some bs \<Rightarrow> Continue (found_file bs path s)
      | None \<Rightarrow> Continue (try_mounts E try_mount_point s))"

definition GetData :: "bytes \<Rightarrow> int \<Rightarrow> int \<Rightarrow> nat \<Rightarrow> bytes option" where
  "GetData img m_fileSize dwOffset dwSize =
     (if dwOffset < 0 \<or> dwSize = 0 then None
      else if dwOffset + int dwSize > m_fileSize then None
      else let bs = take dwSize (drop (nat dwOffset) img) in if length bs \<noteq> dwSize then None else Some bs)"

text \<open>The result is a DWORD, so -1 comes out as 0xFFFFFFFF.\<close>

definition GetFwOffset :: "bytes \<Rightarrow> fw_state \<Rightarrow> u32 \<times> fw_state" where
  "GetFwOffset img s =
     (let imageHead = take HEAD_SIZE img in
      if length imageHead \<noteq> HEAD_SIZE then (- 1, s)
      else if le_u32 imageHead 0 \<noteq> 0x57464B52 then (- 1, s\<lparr>fw_bCheck := False\<rparr>)
      else (le_u32 imageHead HEAD_dwFWOffset, s))"

section \<open>Copying and comparing an item\<close>

text \<open>A write to the device at a position: the bytes taken, and the device.\<close>

definition node_write :: "bytes \<Rightarrow> nat \<Rightarrow> bytes \<Rightarrow> nat \<times> bytes" where
  "node_write node pos bs =
     (let k = min (length bs) (length node - pos) in (k, take pos node @ take k bs @ drop (pos + k) node))"

text \<open>What the loops over the items carry: uiEntryOffset, the position of the device and its content.\<close>

record copy_vars =
  cv_entry :: int
  cv_pos :: nat
  cv_node :: bytes

definition chunk :: "int \<Rightarrow> nat" where
  "chunk fileBufferSize = (if fileBufferSize < int LBA_TRANSFER_SIZE then nat fileBufferSize else LBA_TRANSFER_SIZE)"

lemma chunk_bounds: "0 < left \<Longrightarrow> 0 < chunk left \<and> int (chunk left) \<le> left"
  by (simp add: chunk_def LBA_TRANSFER_SIZE_def)

function write_chunks :: "bytes \<Rightarrow> int \<Rightarrow> int \<Rightarrow> int \<Rightarrow> copy_vars \<Rightarrow> bool \<times> copy_vars" where
  "write_chunks img m_fileSize start fileBufferSize v =
     (if fileBufferSize \<le> 0 then (True, v)
      else let n = chunk fileBufferSize in
        case GetData img m_fileSize (start + cv_entry v) n of
          None \<Rightarrow> (False, v)
        | Some bs \<Rightarrow>
            let (sizeWr, node) = node_write (cv_node v) (cv_pos v) bs;
                v = v\<lparr>cv_pos := cv_pos v + sizeWr, cv_node := node\<rparr>
            in if sizeWr \<noteq> n then (False, v)
               else write_chunks img m_fileSize start (fileBufferSize - int n) (v\<lparr>cv_entry := cv_entry v + int n\<rparr>))"
  by auto
termination
  by (relation "measure (\<lambda>(img, fs, start, left, v). nat left)") (use chunk_bounds in \<open>auto simp: not_le\<close>)

declare write_chunks.simps [simp del]

function check_chunks :: "bytes \<Rightarrow> int \<Rightarrow> int \<Rightarrow> int \<Rightarrow> copy_vars \<Rightarrow> bool \<times> copy_vars" where
  "check_chunks img m_fileSize start fileBufferSize v =
     (if fileBufferSize \<le> 0 then (True, v)
      else let n = chunk fileBufferSize in
        case GetData img m_fileSize (start + cv_entry v) n of
          None \<Rightarrow> (False, v)
        | Some bs \<Rightarrow>
            let rd = take n (drop (cv_pos v) (cv_node v)); v = v\<lparr>cv_pos := cv_pos v + length rd\<rparr>
            in if length rd \<noteq> n then (False, v)
               else if bs \<noteq> rd then (False, v)
               else check_chunks img m_fileSize start (fileBufferSize - int n) (v\<lparr>cv_entry := cv_entry v + int n\<rparr>))"
  by auto
termination
  by (relation "measure (\<lambda>(img, fs, start, left, v). nat left)") (use chunk_bounds in \<open>auto simp: not_le\<close>)

declare check_chunks.simps [simp del]

text \<open>
  One pass over the table of items, with the loop that moves the data as an argument. For an H at
  file[50] the code takes a character for a pointer. The sum of the two offsets is a DWORD.
\<close>

definition one_item ::
  "(int \<Rightarrow> int \<Rightarrow> copy_vars \<Rightarrow> bool \<times> copy_vars) \<Rightarrow> bool \<Rightarrow> bytes \<Rightarrow> u32 \<Rightarrow> string \<Rightarrow> nat \<Rightarrow> copy_vars \<Rightarrow> (copy_vars, copy_vars) outcome" where
  "one_item move malloc_ok hdr m_fwOffset fwName idx v =
     (if MAX_PACKAGE_FILES \<le> idx then Undefined
      else if item_name hdr idx \<noteq> c_bytes fwName then Continue v
      else let fileBufferSize = file_buffer_size hdr idx in
        if fileBufferSize > 0 then
          if item_file hdr idx 50 = of_char CHR ''H'' then Undefined
          else if \<not> malloc_ok then Return v
          else case move (uint (m_fwOffset + item_offset hdr idx)) fileBufferSize v of
            (ok, v) \<Rightarrow> if ok then Continue v else Return v
        else Continue v)"

definition items_loop ::
  "(int \<Rightarrow> int \<Rightarrow> copy_vars \<Rightarrow> bool \<times> copy_vars) \<Rightarrow> bool \<Rightarrow> bytes \<Rightarrow> u32 \<Rightarrow> string \<Rightarrow> bytes \<Rightarrow> (copy_vars, copy_vars) outcome" where
  "items_loop move malloc_ok hdr m_fwOffset fwName node =
     forEach [0..<nat (sint (le_u32 hdr HDR_item_count))] (one_item move malloc_ok hdr m_fwOffset fwName)
       \<lparr>cv_entry = 0, cv_pos = 0, cv_node = node\<rparr>"

definition open_image :: "fw_env \<Rightarrow> fw_state \<Rightarrow> bytes option" where
  "open_image E s = (if fe_readable E (fw_mnt_point s) then fe_files E (fw_mnt_point s) else None)"

text \<open>WriteFwData from the test of item_count on, and from the open image on.\<close>

definition write_items :: "fw_env \<Rightarrow> bytes \<Rightarrow> bytes \<Rightarrow> string \<Rightarrow> fw_state \<Rightarrow> (fw_state, int \<times> fw_state) outcome" where
  "write_items E img hdr fwName s =
     (if sint (le_u32 hdr HDR_item_count) \<le> 0 then Continue (- 1, s)
      else if \<not> fe_writable E DEV_RECOVERY_NODE then Continue (- 1, s)
      else case items_loop (write_chunks img (fw_m_fileSize s)) (fe_malloc E) hdr (fw_m_fwOffset s) fwName (fw_node s) of
        Continue v \<Rightarrow> Continue (0, s\<lparr>fw_node := cv_node v\<rparr>)
      | Return v \<Rightarrow> Continue (- 1, s\<lparr>fw_node := cv_node v\<rparr>)
      | Undefined \<Rightarrow> Undefined
      | OutOfFuel \<Rightarrow> OutOfFuel)"

text \<open>m_fwOffset is unsigned, so the test for a negative one never holds.\<close>

definition write_image :: "fw_env \<Rightarrow> bytes \<Rightarrow> string \<Rightarrow> fw_state \<Rightarrow> (fw_state, int \<times> fw_state) outcome" where
  "write_image E img fwName s =
     (let (fwOffset, s) = GetFwOffset img s; s = s\<lparr>fw_m_fwOffset := fwOffset\<rparr>
      in case GetData img (fw_m_fileSize s) (uint (fw_m_fwOffset s)) HDR_SIZE of
           None \<Rightarrow> Continue (- 1, s)
         | Some hdr \<Rightarrow> write_items E img hdr fwName s)"

definition WriteFwData :: "fw_env \<Rightarrow> string \<Rightarrow> string \<Rightarrow> fw_state \<Rightarrow> (fw_state, int \<times> fw_state) outcome" where
  "WriteFwData E imgPath fwName s =
     andThen (GetFwSize E imgPath s) (\<lambda>(fwSize, s).
       if fwSize < 0 then Continue (- 1, s)
       else if fw_mnt_point s = '''' then Continue (- 1, s)
       else case open_image E s of
         None \<Rightarrow> Continue (- 1, s)
       | Some img \<Rightarrow> write_image E img fwName s)"

definition CheckFwData :: "fw_env \<Rightarrow> string \<Rightarrow> fw_state \<Rightarrow> (fw_state, bool) outcome" where
  "CheckFwData E fwName s =
     (if fw_m_fileSize s < 0 then Continue False
      else if fw_mnt_point s = '''' then Continue False
      else case open_image E s of
        None \<Rightarrow> Continue False
      | Some img \<Rightarrow>
          (case GetData img (fw_m_fileSize s) (uint (fw_m_fwOffset s)) HDR_SIZE of
             None \<Rightarrow> Continue False
           | Some hdr \<Rightarrow>
               if \<not> fe_readable E DEV_RECOVERY_NODE then Continue False
               else case items_loop (check_chunks img (fw_m_fileSize s)) (fe_malloc E) hdr (fw_m_fwOffset s) fwName (fw_node s) of
                 Continue v \<Rightarrow> Continue True
               | Return v \<Rightarrow> Continue False
               | Undefined \<Rightarrow> Undefined
               | OutOfFuel \<Rightarrow> OutOfFuel))"

section \<open>The message for the bootloader\<close>

definition COMMAND_FILE_PATH :: string where "COMMAND_FILE_PATH = ''/userdata/recovery/command''"
definition LOG_FILE_PATH :: string where "LOG_FILE_PATH = ''/userdata/recovery/log''"
definition MISC_FILE_PATH :: string where "MISC_FILE_PATH = ''/misc''"
definition SD_UPDATE_FILE :: string where "SD_UPDATE_FILE = ''/sdcard/update.img''"
definition DATA_UPDATE_FILE :: string where "DATA_UPDATE_FILE = ''/userdata/update.img''"
definition MISC_MSG_OFFSET :: nat where "MISC_MSG_OFFSET = 16 * 1024"
definition LOG_FILE_LEN :: nat where "LOG_FILE_LEN = 512"

definition pad :: "nat \<Rightarrow> bytes \<Rightarrow> bytes" where "pad n bs = bs @ replicate (n - length bs) 0"

text \<open>The field recovery of 768 bytes; the newline goes behind the zero that ends the string.\<close>

definition recovery_str :: bytes where "recovery_str = c_bytes ''recovery'' @ [10]"

definition recovery_field :: "bytes \<Rightarrow> bytes option" where
  "recovery_field arg =
     (let n = (if length arg > 768 then 768 else length arg) in
      if 768 < length recovery_str + n then None
      else let f = pad 768 (recovery_str @ take n arg); k = length (takeWhile (\<lambda>b. b \<noteq> 0) f) + 1
           in if 768 \<le> k then None else Some (f[k := 10]))"

text \<open>struct android_bootloader_message: command, status, recovery, stage, reserved.\<close>

definition boot_message :: "bytes \<Rightarrow> bytes option" where
  "boot_message arg =
     map_option (\<lambda>recovery. pad 32 (c_bytes ''boot-recovery'') @ replicate 32 0 @ recovery @ replicate 32 0 @ replicate 1184 0)
       (recovery_field arg)"

text \<open>A Return is the reboot. A file that is opened for writing is empty from then on.\<close>

definition bootCommand :: "fw_env \<Rightarrow> string option \<Rightarrow> fw_state \<Rightarrow> (fw_state, fw_state) outcome" where
  "bootCommand E arg s =
     (case arg of None \<Rightarrow> Continue s
      | Some arg \<Rightarrow>
          if \<not> fe_writable E COMMAND_FILE_PATH then Continue s
          else let s = s\<lparr>fw_command := []\<rparr> in
          if \<not> fe_writable E LOG_FILE_PATH then Continue s
          else let s = s\<lparr>fw_log := []\<rparr> in
          if \<not> fe_writable E MISC_FILE_PATH then Continue s
          else let s = s\<lparr>fw_command := c_bytes arg @ [10]\<rparr> in
          case boot_message (c_bytes arg) of
            None \<Rightarrow> Undefined
          | Some msg \<Rightarrow>
              let s = s\<lparr>fw_misc := snd (node_write (fw_misc s) MISC_MSG_OFFSET msg)\<rparr>;
                  s = s\<lparr>fw_log := replicate LOG_FILE_LEN 0\<rparr>
              in if fe_reboots E then Return s else Continue s)"

definition str_update_package :: string where "str_update_package = ''--update_package=''"

definition installPackage :: "fw_env \<Rightarrow> string \<Rightarrow> fw_state \<Rightarrow> (fw_state, fw_state) outcome" where
  "installPackage E update_file s =
     (if 512 \<le> length str_update_package + length update_file then Undefined
      else bootCommand E (Some (str_update_package @ update_file)) s)"

definition sdUpdate :: "fw_env \<Rightarrow> fw_state \<Rightarrow> (fw_state, fw_state) outcome" where
  "sdUpdate E s = installPackage E SD_UPDATE_FILE s"

definition dataUpdate :: "fw_env \<Rightarrow> fw_state \<Rightarrow> (fw_state, fw_state) outcome" where
  "dataUpdate E s = installPackage E DATA_UPDATE_FILE s"

definition rebootWipeUserData :: "fw_env \<Rightarrow> fw_state \<Rightarrow> (fw_state, fw_state) outcome" where
  "rebootWipeUserData E s = bootCommand E (Some ''--wipe_all'') s"

definition rebootUpdate :: "fw_env \<Rightarrow> string option \<Rightarrow> fw_state \<Rightarrow> (fw_state, int \<times> fw_state) outcome" where
  "rebootUpdate E path s =
     andThen (case path of None \<Rightarrow> Continue s | Some p \<Rightarrow> installPackage E p s) (\<lambda>s.
       if fe_files E DATA_UPDATE_FILE = None
       then if fe_files E SD_UPDATE_FILE = None then Continue (- 1, s)
            else andThen (installPackage E SD_UPDATE_FILE s) (\<lambda>s. Continue (0, s))
       else andThen (installPackage E DATA_UPDATE_FILE s) (\<lambda>s. Continue (0, s)))"

definition is_ota :: "string \<Rightarrow> bool" where "is_ota a \<longleftrightarrow> a = ''ota'' \<or> a = ''update''"
definition is_reset :: "string \<Rightarrow> bool" where "is_reset a \<longleftrightarrow> a = ''factory'' \<or> a = ''reset''"

definition partition_name :: string where "partition_name = ''recovery''"

definition update_main :: "fw_env \<Rightarrow> string list \<Rightarrow> fw_state \<Rightarrow> (fw_state, int \<times> fw_state) outcome" where
  "update_main E argv s =
     (if length argv = 1 then andThen (rebootWipeUserData E s) (\<lambda>s. Continue (- 1, s))
      else if length argv = 2 then
        if is_ota (argv ! 1) then andThen (rebootUpdate E None s) (\<lambda>(_, s). Continue (0, s))
        else if is_reset (argv ! 1) then andThen (rebootWipeUserData E s) (\<lambda>s. Continue (0, s))
        else Continue (- 1, s)
      else if length argv = 3 \<and> is_ota (argv ! 1) then
        andThen (WriteFwData E (argv ! 2) partition_name s) (\<lambda>(ret, s).
          if ret < 0 then Continue (- 1, s)
          else andThen (CheckFwData E partition_name s) (\<lambda>ok.
            if \<not> ok then Continue (- 1, s) else rebootUpdate E (Some (argv ! 2)) s))
      else Continue (- 1, s))"

section \<open>What the loops do to the device\<close>

text \<open>Writes only move forward: what lies before the old and behind the new position stays, and the device keeps its length.\<close>

definition extends :: "copy_vars \<Rightarrow> copy_vars \<Rightarrow> bool" where
  "extends v v' \<longleftrightarrow> length (cv_node v') = length (cv_node v) \<and> cv_pos v \<le> cv_pos v' \<and> cv_pos v' \<le> length (cv_node v') \<and>
     take (cv_pos v) (cv_node v') = take (cv_pos v) (cv_node v) \<and> drop (cv_pos v') (cv_node v') = drop (cv_pos v') (cv_node v)"

lemma extends_refl [simp]: "extends v v \<longleftrightarrow> cv_pos v \<le> length (cv_node v)"
  by (simp add: extends_def)

lemma extends_trans:
  assumes "extends u v" "extends v w"
  shows "extends u w"
proof -
  have "take (cv_pos u) (cv_node w) = take (cv_pos u) (cv_node u)"
    using assms by (auto simp: extends_def) (metis min.absorb1 take_take)
  moreover have "drop (cv_pos w) (cv_node v) = drop (cv_pos w) (cv_node u)"
  proof -
    have "drop (cv_pos w) xs = drop (cv_pos w - cv_pos v) (drop (cv_pos v) xs)" for xs :: bytes
      using assms(2) by (simp add: extends_def)
    then show ?thesis using assms(1) by (metis extends_def)
  qed
  ultimately show ?thesis using assms by (auto simp: extends_def)
qed

text \<open>The device N that is read holds what has been written up to the position.\<close>

definition holds_written :: "bytes \<Rightarrow> copy_vars \<Rightarrow> bool" where
  "holds_written N v \<longleftrightarrow> length N = length (cv_node v) \<and> take (cv_pos v) N = take (cv_pos v) (cv_node v)"

lemma holds_written_before: "holds_written N v' \<Longrightarrow> extends v v' \<Longrightarrow> holds_written N v"
  by (auto simp: holds_written_def extends_def) (metis min.absorb1 take_take)

lemma node_write_extends:
  assumes "node_write (cv_node v) (cv_pos v) bs = (k, node)" "cv_pos v \<le> length (cv_node v)"
  shows "extends v (v\<lparr>cv_pos := cv_pos v + k, cv_node := node, cv_entry := e\<rparr>)"
  using assms by (auto simp: node_write_def Let_def extends_def)

lemma node_write_full:
  assumes "node_write (cv_node v) (cv_pos v) bs = (length bs, node)" "cv_pos v \<le> length (cv_node v)"
  shows "take (length bs) (drop (cv_pos v) node) = bs"
  using assms by (auto simp: node_write_def Let_def)

lemma GetData_length: "GetData img fs off n = Some bs \<Longrightarrow> length bs = n"
  by (auto simp: GetData_def Let_def split: if_splits)

lemma GetData_bytes: "GetData img fs off n = Some bs \<Longrightarrow> 0 \<le> off \<and> bs = take n (drop (nat off) img)"
  by (auto simp: GetData_def Let_def split: if_splits)

lemma write_chunks_step:
  assumes "0 < left" "write_chunks img fs start left v = (True, v')" "cv_pos v \<le> length (cv_node v)"
  obtains bs node u where
    "GetData img fs (start + cv_entry v) (chunk left) = Some bs"
    "node_write (cv_node v) (cv_pos v) bs = (chunk left, node)"
    "u = v\<lparr>cv_pos := cv_pos v + chunk left, cv_node := node, cv_entry := cv_entry v + int (chunk left)\<rparr>"
    "extends v u"
    "write_chunks img fs start (left - int (chunk left)) u = (True, v')"
proof -
  obtain bs where bs: "GetData img fs (start + cv_entry v) (chunk left) = Some bs"
    using assms(1,2) by (subst (asm) write_chunks.simps) (auto simp: Let_def split: option.splits)
  obtain k node where w: "node_write (cv_node v) (cv_pos v) bs = (k, node)" by fastforce
  have "k = chunk left" and
    "write_chunks img fs start (left - int (chunk left))
       (v\<lparr>cv_pos := cv_pos v + chunk left, cv_node := node, cv_entry := cv_entry v + int (chunk left)\<rparr>) = (True, v')"
    using assms(1,2) bs w by (subst (asm) write_chunks.simps, auto simp: Let_def split: if_splits)+
  with that [OF bs] w node_write_extends [OF w assms(3)] show thesis by blast
qed

lemma write_chunks_extends:
  "write_chunks img fs start left v = (True, v') \<Longrightarrow> cv_pos v \<le> length (cv_node v) \<Longrightarrow> extends v v'"
proof (induction "nat left" arbitrary: left v rule: less_induct)
  case less
  show ?case
  proof (cases "0 < left")
    case True
    from True less.prems obtain u where u: "extends v u" "write_chunks img fs start (left - int (chunk left)) u = (True, v')"
      by (rule write_chunks_step)
    then have "cv_pos u \<le> length (cv_node u)" by (simp add: extends_def)
    with u chunk_bounds [OF True] have "extends u v'" by (intro less.hyps) auto
    with u(1) show ?thesis by (rule extends_trans)
  next
    case False
    with less.prems show ?thesis by (subst (asm) write_chunks.simps) auto
  qed
qed

text \<open>After a successful copy, as many bytes of the device as the item has are those of the image.\<close>

lemma write_chunks_copies:
  assumes "write_chunks img fs start left v = (True, v')" "cv_pos v \<le> length (cv_node v)" "0 \<le> left"
  shows "cv_entry v' = cv_entry v + left \<and> cv_pos v' = cv_pos v + nat left \<and>
    take (nat left) (drop (cv_pos v) (cv_node v')) = take (nat left) (drop (nat (start + cv_entry v)) img)"
  using assms
proof (induction "nat left" arbitrary: left v rule: less_induct)
  case less
  show ?case
  proof (cases "0 < left")
    case True
    let ?n = "chunk left"
    from True less.prems(1,2) obtain bs node u where s: "GetData img fs (start + cv_entry v) ?n = Some bs"
        "node_write (cv_node v) (cv_pos v) bs = (?n, node)"
        "u = v\<lparr>cv_pos := cv_pos v + ?n, cv_node := node, cv_entry := cv_entry v + int ?n\<rparr>"
        "extends v u" "write_chunks img fs start (left - int ?n) u = (True, v')"
      by (rule write_chunks_step)
    note n = chunk_bounds [OF True]
    have le: "cv_pos u \<le> length (cv_node u)" using s(4) by (simp add: extends_def)
    have ih: "cv_entry v' = cv_entry u + (left - int ?n) \<and> cv_pos v' = cv_pos u + nat (left - int ?n) \<and>
        take (nat (left - int ?n)) (drop (cv_pos u) (cv_node v')) = take (nat (left - int ?n)) (drop (nat (start + cv_entry u)) img)"
      using n s(5) le by (intro less.hyps) auto
    have bs: "bs = take ?n (drop (nat (start + cv_entry v)) img)" "0 \<le> start + cv_entry v" "length bs = ?n"
      using GetData_bytes [OF s(1)] GetData_length [OF s(1)] by auto
    have "take ?n (drop (cv_pos v) node) = bs"
      using node_write_full [of v bs node] s(2) less.prems(2) bs(3) by simp
    moreover have "take (cv_pos u) (cv_node v') = take (cv_pos u) node"
      using write_chunks_extends [OF s(5) le] s(3) by (simp add: extends_def)
    ultimately have first: "take ?n (drop (cv_pos v) (cv_node v')) = bs"
      using s(3) by (simp add: take_drop) (metis add.commute take_drop)
    have "nat left = ?n + nat (left - int ?n)" using n by arith
    moreover have "nat (start + cv_entry u) = ?n + nat (start + cv_entry v)" using s(3) bs(2) by simp
    ultimately show ?thesis
      using ih first bs(1) s(3) n by (simp add: take_add add.commute)
  next
    case False
    with less.prems show ?thesis by (subst (asm) write_chunks.simps) auto
  qed
qed

text \<open>Comparing takes the same way through the image as copying, and finds what was written.\<close>

lemma check_after_write:
  assumes "write_chunks img fs start left v = (True, v')" "cv_pos v \<le> length (cv_node v)" "holds_written N v'"
  shows "check_chunks img fs start left (v\<lparr>cv_node := N\<rparr>) = (True, v'\<lparr>cv_node := N\<rparr>)"
  using assms(1,2)
proof (induction "nat left" arbitrary: left v rule: less_induct)
  case less
  show ?case
  proof (cases "0 < left")
    case True
    let ?n = "chunk left"
    from True less.prems(1,2) obtain bs node u where s: "GetData img fs (start + cv_entry v) ?n = Some bs"
        "node_write (cv_node v) (cv_pos v) bs = (?n, node)"
        "u = v\<lparr>cv_pos := cv_pos v + ?n, cv_node := node, cv_entry := cv_entry v + int ?n\<rparr>"
        "extends v u" "write_chunks img fs start (left - int ?n) u = (True, v')"
      by (rule write_chunks_step)
    have le: "cv_pos u \<le> length (cv_node u)" using s(4) by (simp add: extends_def)
    have ih: "check_chunks img fs start (left - int ?n) (u\<lparr>cv_node := N\<rparr>) = (True, v'\<lparr>cv_node := N\<rparr>)"
      using chunk_bounds [OF True] s(5) le by (intro less.hyps) auto
    have hu: "holds_written N u" using assms(3) write_chunks_extends [OF s(5) le] by (rule holds_written_before)
    have "take ?n (drop (cv_pos v) node) = bs"
      using node_write_full [of v bs node] s(2) less.prems(2) GetData_length [OF s(1)] by simp
    then have "take ?n (drop (cv_pos v) N) = bs"
      using hu s(3) by (simp add: holds_written_def take_drop) (metis add.commute take_drop)
    moreover have "u\<lparr>cv_node := N\<rparr> = v\<lparr>cv_node := N, cv_pos := cv_pos v + ?n, cv_entry := cv_entry v + int ?n\<rparr>"
      using s(3) by simp
    ultimately show ?thesis
      using True s(1) ih GetData_length [OF s(1)] by (subst check_chunks.simps) (simp add: Let_def)
  next
    case False
    with less.prems show ?thesis by (subst check_chunks.simps, subst (asm) write_chunks.simps) auto
  qed
qed

section \<open>The table of items\<close>

abbreviation write_item where
  "write_item img fs m hdr off nm \<equiv> one_item (write_chunks img fs) m hdr off nm"

abbreviation check_item where
  "check_item img fs m hdr off nm \<equiv> one_item (check_chunks img fs) m hdr off nm"

lemma write_item_extends:
  "write_item img fs m hdr off nm i v = Continue v' \<Longrightarrow> cv_pos v \<le> length (cv_node v) \<Longrightarrow> extends v v'"
  by (auto simp: one_item_def Let_def intro: write_chunks_extends split: if_splits prod.splits)

lemma write_items_extend:
  "forEach xs (write_item img fs m hdr off nm) v = Continue v' \<Longrightarrow> cv_pos v \<le> length (cv_node v) \<Longrightarrow> extends v v'"
proof (induction xs arbitrary: v)
  case (Cons i xs)
  then obtain u where u: "write_item img fs m hdr off nm i v = Continue u"
      "forEach xs (write_item img fs m hdr off nm) u = Continue v'"
    by (auto simp: outcome_simps)
  have vu: "extends v u" using u(1) Cons.prems(2) by (rule write_item_extends)
  then have "extends u v'" using u(2) by (intro Cons.IH) (auto simp: extends_def)
  with vu show ?case by (rule extends_trans)
qed simp

lemma check_item_after_write:
  assumes "write_item img fs m hdr off nm i v = Continue v'" "cv_pos v \<le> length (cv_node v)" "holds_written N v'"
  shows "check_item img fs m hdr off nm i (v\<lparr>cv_node := N\<rparr>) = Continue (v'\<lparr>cv_node := N\<rparr>)"
  using assms check_after_write [OF _ assms(2,3)]
  by (auto simp: one_item_def Let_def split: if_splits prod.splits)

lemma check_items_after_write:
  assumes "forEach xs (write_item img fs m hdr off nm) v = Continue v'" "cv_pos v \<le> length (cv_node v)" "holds_written N v'"
  shows "forEach xs (check_item img fs m hdr off nm) (v\<lparr>cv_node := N\<rparr>) = Continue (v'\<lparr>cv_node := N\<rparr>)"
  using assms(1,2)
proof (induction xs arbitrary: v)
  case (Cons i xs)
  then obtain u where u: "write_item img fs m hdr off nm i v = Continue u"
      "forEach xs (write_item img fs m hdr off nm) u = Continue v'"
    by (auto simp: outcome_simps)
  have le: "cv_pos u \<le> length (cv_node u)"
    using write_item_extends [OF u(1) Cons.prems(2)] by (simp add: extends_def)
  have "holds_written N u" using assms(3) write_items_extend [OF u(2) le] by (rule holds_written_before)
  then show ?case
    using check_item_after_write [OF u(1) Cons.prems(2)] Cons.IH [OF u(2) le] by simp
qed simp

lemma check_loop_after_write:
  assumes "items_loop (write_chunks img fs) m hdr off nm node = Continue v'"
  shows "items_loop (check_chunks img fs) m hdr off nm (cv_node v') = Continue v'"
proof -
  let ?v = "\<lparr>cv_entry = 0, cv_pos = 0, cv_node = node\<rparr>"
  let ?is = "[0..<nat (sint (le_u32 hdr HDR_item_count))]"
  have w: "forEach ?is (write_item img fs m hdr off nm) ?v = Continue v'"
    using assms by (simp add: items_loop_def)
  have "forEach ?is (check_item img fs m hdr off nm) (?v\<lparr>cv_node := cv_node v'\<rparr>) = Continue (v'\<lparr>cv_node := cv_node v'\<rparr>)"
    by (rule check_items_after_write [OF w]) (simp_all add: holds_written_def)
  then show ?thesis by (simp add: items_loop_def)
qed

section \<open>Writing an image\<close>

text \<open>The files that WriteFwData leaves alone.\<close>

definition same_messages :: "fw_state \<Rightarrow> fw_state \<Rightarrow> bool" where
  "same_messages s s' \<longleftrightarrow> fw_command s' = fw_command s \<and> fw_log s' = fw_log s \<and> fw_misc s' = fw_misc s"

lemma try_mounts_frame:
  "try_mounts E ps s = (n, s') \<Longrightarrow> same_messages s s' \<and> fw_node s' = fw_node s \<and> (n < 0 \<or> fw_m_fileSize s' = n)"
  by (induction ps)
    (auto simp: Let_def found_file_def stat_size_def same_messages_def split: option.splits if_splits)

lemma GetFwSize_frame:
  "GetFwSize E path s = Continue (n, s') \<Longrightarrow> same_messages s s' \<and> fw_node s' = fw_node s \<and> (n < 0 \<or> fw_m_fileSize s' = n)"
  by (auto simp: GetFwSize_def Let_def found_file_def stat_size_def same_messages_def
      dest!: try_mounts_frame split: option.splits if_splits)

lemma GetFwOffset_frame:
  "GetFwOffset img s = (off, s') \<Longrightarrow>
    same_messages s s' \<and> fw_node s' = fw_node s \<and> fw_m_fileSize s' = fw_m_fileSize s \<and> fw_mnt_point s' = fw_mnt_point s"
  by (auto simp: GetFwOffset_def Let_def same_messages_def split: if_splits)

lemma same_messages_trans: "same_messages s t \<Longrightarrow> same_messages t u \<Longrightarrow> same_messages s u"
  by (simp add: same_messages_def)

lemma same_messages_refl [simp]: "same_messages s s"
  by (simp add: same_messages_def)

lemma write_items_messages: "write_items E img hdr nm s = Continue (r, s') \<Longrightarrow> same_messages s s'"
  by (auto simp: write_items_def same_messages_def split: if_splits outcome.splits)

lemma write_image_messages:
  assumes "write_image E img nm s = Continue (r, s')"
  shows "same_messages s s'"
proof -
  obtain off s2 where o: "GetFwOffset img s = (off, s2)" by fastforce
  let ?s = "s2\<lparr>fw_m_fwOffset := off\<rparr>"
  have "same_messages s ?s" using GetFwOffset_frame [OF o] by (simp add: same_messages_def)
  moreover have "same_messages ?s s'"
    using assms o by (auto simp: write_image_def Let_def intro: write_items_messages split: option.splits)
  ultimately show ?thesis by (rule same_messages_trans)
qed

lemma WriteFwData_value: "WriteFwData E path nm s = Continue (r, s') \<Longrightarrow> r = 0 \<or> r = - 1"
  by (auto simp: WriteFwData_def write_image_def write_items_def Let_def outcome_simps
      split: if_splits option.splits outcome.splits prod.splits)

lemma WriteFwData_no_Return: "WriteFwData E path nm s \<noteq> Return t"
  by (auto simp: WriteFwData_def write_image_def write_items_def GetFwSize_def Let_def outcome_simps
      split: if_splits option.splits outcome.splits prod.splits)

lemma CheckFwData_no_Return: "CheckFwData E nm s \<noteq> Return t"
  by (auto simp: CheckFwData_def split: option.splits outcome.splits)

lemma WriteFwData_messages:
  assumes "WriteFwData E path nm s = Continue (r, s')"
  shows "same_messages s s'"
proof -
  obtain n t where t: "GetFwSize E path s = Continue (n, t)"
    using assms by (auto simp: WriteFwData_def outcome_simps)
  then have "same_messages s t" using GetFwSize_frame by blast
  moreover have "same_messages t s'"
    using assms t by (auto simp: WriteFwData_def intro: write_image_messages split: if_splits option.splits)
  ultimately show ?thesis by (rule same_messages_trans)
qed

text \<open>What a successful WriteFwData has read, and what it leaves.\<close>

definition wrote :: "fw_env \<Rightarrow> string \<Rightarrow> fw_state \<Rightarrow> fw_state \<Rightarrow> bytes \<Rightarrow> bytes \<Rightarrow> copy_vars \<Rightarrow> bool" where
  "wrote E nm s s' img hdr v \<longleftrightarrow>
     open_image E s' = Some img \<and> 0 \<le> fw_m_fileSize s' \<and> fw_mnt_point s' \<noteq> '''' \<and>
     GetData img (fw_m_fileSize s') (uint (fw_m_fwOffset s')) HDR_SIZE = Some hdr \<and>
     items_loop (write_chunks img (fw_m_fileSize s')) (fe_malloc E) hdr (fw_m_fwOffset s') nm (fw_node s) = Continue v \<and>
     fw_node s' = cv_node v"

lemma WriteFwData_success:
  assumes "WriteFwData E path nm s = Continue (0, s')"
  obtains img hdr v where "wrote E nm s s' img hdr v"
proof -
  obtain n s1 where s1: "GetFwSize E path s = Continue (n, s1)" "0 \<le> n" "fw_mnt_point s1 \<noteq> ''''"
      and "(case open_image E s1 of None \<Rightarrow> Continue (- 1, s1) | Some img \<Rightarrow> write_image E img nm s1) = (Continue (0, s'))"
    using assms by (auto simp: WriteFwData_def outcome_simps split: if_splits)
  then obtain img where img: "open_image E s1 = Some img" "write_image E img nm s1 = (Continue (0, s'))"
    by (auto split: option.splits)
  obtain off s2 where s2: "GetFwOffset img s1 = (off, s2)" by fastforce
  let ?s = "s2\<lparr>fw_m_fwOffset := off\<rparr>"
  obtain hdr where hdr: "GetData img (fw_m_fileSize s2) (uint off) HDR_SIZE = Some hdr"
      "write_items E img hdr nm ?s = (Continue (0, s'))"
    using img(2) s2 by (auto simp: write_image_def Let_def split: option.splits)
  obtain v where v: "items_loop (write_chunks img (fw_m_fileSize s2)) (fe_malloc E) hdr off nm (fw_node s2) = Continue v"
      "s' = ?s\<lparr>fw_node := cv_node v\<rparr>"
    using hdr(2) by (auto simp: write_items_def split: if_splits outcome.splits)
  have "wrote E nm s s' img hdr v"
    using s1 img(1) hdr(1) v GetFwSize_frame [OF s1(1)] GetFwOffset_frame [OF s2]
    by (auto simp: wrote_def open_image_def split: if_splits)
  then show thesis by (rule that)
qed

lemma wrote_checks:
  assumes "wrote E nm s s' img hdr v" "fe_readable E DEV_RECOVERY_NODE"
  shows "CheckFwData E nm s' = Continue True"
  using assms check_loop_after_write by (auto simp: wrote_def CheckFwData_def)


section \<open>The item that is installed\<close>

lemma skip_items:
  assumes "\<forall>i\<in>set xs. i < MAX_PACKAGE_FILES \<and> item_name hdr i \<noteq> c_bytes nm"
  shows "forEach xs (one_item move m hdr off nm) v = Continue v"
  using assms by (induction xs) (auto simp: one_item_def)

text \<open>A table with one item of the name is one pass over that item.\<close>

definition only_item :: "bytes \<Rightarrow> string \<Rightarrow> nat \<Rightarrow> bool" where
  "only_item hdr nm i \<longleftrightarrow> sint (le_u32 hdr HDR_item_count) \<le> int MAX_PACKAGE_FILES \<and>
     filter (\<lambda>j. item_name hdr j = c_bytes nm) [0..<nat (sint (le_u32 hdr HDR_item_count))] = [i]"

lemma only_itemD:
  assumes "only_item hdr nm i"
  shows "i < nat (sint (le_u32 hdr HDR_item_count))" "item_name hdr i = c_bytes nm"
    "j < nat (sint (le_u32 hdr HDR_item_count)) \<Longrightarrow> j < MAX_PACKAGE_FILES \<and> (item_name hdr j = c_bytes nm \<longrightarrow> j = i)"
proof -
  let ?is = "[0..<nat (sint (le_u32 hdr HDR_item_count))]" and ?P = "\<lambda>j. item_name hdr j = c_bytes nm"
  have mem: "set (filter ?P ?is) = {i}" using assms by (simp add: only_item_def)
  then show "i < nat (sint (le_u32 hdr HDR_item_count))" "?P i" by auto
  assume j: "j < nat (sint (le_u32 hdr HDR_item_count))"
  then have "j < MAX_PACKAGE_FILES" using assms by (simp add: only_item_def) linarith
  moreover have "j = i" if "?P j" using mem j that by auto
  ultimately show "j < MAX_PACKAGE_FILES \<and> (?P j \<longrightarrow> j = i)" by blast
qed

lemma items_loop_single:
  assumes "only_item hdr nm i"
  shows "items_loop move m hdr off nm node = one_item move m hdr off nm i \<lparr>cv_entry = 0, cv_pos = 0, cv_node = node\<rparr>"
proof -
  let ?c = "nat (sint (le_u32 hdr HDR_item_count))" and ?f = "one_item move m hdr off nm"
  have split: "[0..<?c] = [0..<i] @ i # [Suc i..<?c]"
    using only_itemD(1) [OF assms] upt_add_eq_append [of 0 i "?c - i"] upt_conv_Cons [of i ?c] by simp
  have name: "\<forall>j\<in>set js. j < MAX_PACKAGE_FILES \<and> item_name hdr j \<noteq> c_bytes nm" if "set js \<subseteq> {0..<?c} - {i}" for js
    using only_itemD(3) [OF assms] that by auto
  have "forEach [0..<i] ?f v = Continue v" for v
    by (rule skip_items [OF name]) (use only_itemD(1) [OF assms] in auto)
  moreover have skip: "forEach [Suc i..<?c] ?f v = Continue v" for v
    by (rule skip_items [OF name]) auto
  moreover have "andThen m' (forEach [Suc i..<?c] ?f) = m'" for m'
    by (cases m') (simp_all add: skip)
  ultimately show ?thesis by (simp add: items_loop_def split forEach_append)
qed

lemma one_item_installs:
  assumes "write_item img fs m hdr off nm i \<lparr>cv_entry = 0, cv_pos = 0, cv_node = node\<rparr> = Continue v" "item_name hdr i = c_bytes nm"
  shows "let n = nat (file_buffer_size hdr i) in
    take n (cv_node v) = take n (drop (unat (off + item_offset hdr i)) img) \<and> drop n (cv_node v) = drop n node \<and>
    length (cv_node v) = length node \<and> n \<le> length node"
proof (cases "0 < file_buffer_size hdr i")
  case True
  let ?v = "\<lparr>cv_entry = 0, cv_pos = 0, cv_node = node\<rparr>" and ?st = "uint (off + item_offset hdr i)"
  have w: "write_chunks img fs ?st (file_buffer_size hdr i) ?v = (True, v)"
    using assms True by (auto simp: one_item_def Let_def split: if_splits prod.splits)
  show ?thesis
    using write_chunks_copies [OF w] write_chunks_extends [OF w] True
    by (auto simp: extends_def Let_def nat_uint_eq)
next
  case False
  with assms show ?thesis by (auto simp: one_item_def Let_def split: if_splits)
qed


section \<open>The reboot\<close>

text \<open>bootCommand reboots only with the message in place.\<close>

lemma bootCommand_Return:
  assumes "bootCommand E (Some a) s = Return s'"
  obtains msg where "boot_message (c_bytes a) = Some msg" "fw_misc s' = snd (node_write (fw_misc s) MISC_MSG_OFFSET msg)"
    "fw_command s' = c_bytes a @ [10]" "fw_node s' = fw_node s" "fe_reboots E"
  using assms by (auto simp: bootCommand_def Let_def split: if_splits option.splits)

text \<open>Whether it reboots does not depend on the state, so what follows a bootCommand that came back comes back as well.\<close>

lemma bootCommand_again:
  "bootCommand E (Some a) s = Continue t \<Longrightarrow> bootCommand E (Some b) u \<noteq> Return w"
  by (auto simp: bootCommand_def Let_def split: if_splits option.splits)

lemma rebootUpdate_Return:
  assumes "rebootUpdate E (Some path) s = Return s'"
  shows "bootCommand E (Some (str_update_package @ path)) s = Return s'"
  using assms bootCommand_again
  by (auto simp: rebootUpdate_def installPackage_def outcome_simps split: if_splits)

text \<open>
  C35. The tool reboots for an update only after a verified copy: when main, called with three
  arguments, ends in the reboot, the command is ota or update, WriteFwData has copied the item recovery,
  CheckFwData has compared it, the partition is still what WriteFwData left, and the message on /misc and in
  the command file names the package that was given.
\<close>
theorem Update_reboots_only_verified:
  assumes "update_main E [prog, a, path] s = Return s'"
  shows "\<exists>s1 msg. is_ota a \<and> WriteFwData E path partition_name s = Continue (0, s1) \<and>
    CheckFwData E partition_name s1 = Continue True \<and> fw_node s' = fw_node s1 \<and>
    boot_message (c_bytes (str_update_package @ path)) = Some msg \<and>
    fw_misc s' = snd (node_write (fw_misc s) MISC_MSG_OFFSET msg) \<and>
    fw_command s' = c_bytes (str_update_package @ path) @ [10]"
proof -
  obtain r s1 where w: "is_ota a" "WriteFwData E path partition_name s = Continue (r, s1)" "0 \<le> r"
      "CheckFwData E partition_name s1 = Continue True" "rebootUpdate E (Some path) s1 = Return s'"
    using assms by (auto simp: update_main_def outcome_simps WriteFwData_no_Return CheckFwData_no_Return split: if_splits)
  obtain msg where "boot_message (c_bytes (str_update_package @ path)) = Some msg"
      "fw_misc s' = snd (node_write (fw_misc s1) MISC_MSG_OFFSET msg)"
      "fw_command s' = c_bytes (str_update_package @ path) @ [10]" "fw_node s' = fw_node s1"
    using rebootUpdate_Return [OF w(5)] by (rule bootCommand_Return)
  moreover have "r = 0" "fw_misc s1 = fw_misc s"
    using w(3) WriteFwData_value [OF w(2)] WriteFwData_messages [OF w(2)] by (auto simp: same_messages_def)
  ultimately show ?thesis using w by auto
qed

text \<open>An update that is refused leaves the messages for the bootloader as they were.\<close>

lemma Update_refused:
  assumes "is_ota a" "WriteFwData E path partition_name s = Continue (r, s1)"
    and "r < 0 \<or> CheckFwData E partition_name s1 = Continue False"
  shows "update_main E [prog, a, path] s = Continue (- 1, s1) \<and> same_messages s s1"
  using assms WriteFwData_messages [OF assms(2)] by (auto simp: update_main_def)

text \<open>An image without the item is written and checked successfully, and nothing changes.\<close>

lemma Write_without_item:
  assumes "WriteFwData E path nm s = Continue (0, s')" "open_image E s' = Some img"
    and "\<forall>i < nat (sint (le_u32 hdr HDR_item_count)). i < MAX_PACKAGE_FILES \<and> item_name hdr i \<noteq> c_bytes nm"
    and "hdr = take HDR_SIZE (drop (unat (fw_m_fwOffset s')) img)"
  shows "fw_node s' = fw_node s"
proof -
  obtain img' hdr' v where w: "wrote E nm s s' img' hdr' v" by (rule WriteFwData_success [OF assms(1)])
  then have "img' = img" using assms(2) by (simp add: wrote_def)
  moreover from this have "hdr' = hdr"
    using w assms(4) by (auto simp: wrote_def nat_uint_eq dest!: GetData_bytes)
  ultimately show ?thesis
    using w assms(3) by (auto simp: wrote_def items_loop_def skip_items)
qed

text \<open>The newline that should end the command stands behind the zero that ends the string.\<close>

lemma recovery_field_bytes:
  assumes "0 \<notin> set arg" "length arg \<le> 757"
  shows "recovery_field arg = Some (recovery_str @ arg @ 0 # 10 # replicate (757 - length arg) 0)"
proof -
  let ?m = "757 - length arg"
  have str: "length recovery_str = 9" "0 \<notin> set recovery_str" by (simp_all add: recovery_str_def c_bytes_def)
  have zeros: "replicate (768 - (9 + length arg)) (0 :: u8) = 0 # 0 # replicate ?m 0"
    using assms(2) by (simp flip: replicate_Suc add: Suc_diff_le)
  have "takeWhile (\<lambda>b. b \<noteq> 0) (recovery_str @ arg @ 0 # 0 # replicate ?m 0) = recovery_str @ arg"
  proof -
    have "takeWhile (\<lambda>b. b \<noteq> 0) (arg @ 0 # 0 # replicate ?m 0) = arg"
      by (subst takeWhile_append2) (use assms(1) in auto)
    then show ?thesis by (subst takeWhile_append2) (use str(2) in auto)
  qed
  then show ?thesis
    using assms str zeros by (simp add: recovery_field_def Let_def pad_def list_update_append)
qed

section \<open>An image of one item\<close>

definition ex_fw_header :: bytes where
  "ex_fw_header = replicate HDR_item_count 0 @ [1, 0, 0, 0] @ c_bytes ''recovery'' @ 0 # replicate 87 0 @ [0x8C, 7, 0, 0] @
     replicate 8 0 @ [5, 0, 0, 0] @ replicate (15 * ITEM_SIZE) 0"

definition ex_fw_head :: bytes where
  "ex_fw_head = [0x52, 0x4B, 0x46, 0x57] @ replicate 29 0 @ [102, 0, 0, 0] @ replicate 65 0"

definition ex_fw_image :: bytes where
  "ex_fw_image = ex_fw_head @ ex_fw_header @ [1, 2, 3, 4, 5]"

definition ex_fw_env :: fw_env where
  "ex_fw_env = \<lparr>fe_files = [''/u'' \<mapsto> ex_fw_image], fe_readable = (\<lambda>_. True), fe_writable = (\<lambda>_. True), fe_malloc = True, fe_reboots = True\<rparr>"

definition ex_fw_state :: fw_state where
  "ex_fw_state = \<lparr>fw_m_fwOffset = 0, fw_m_fileSize = 0, fw_bCheck = False, fw_mnt_point = '''', fw_node = [9, 9, 9, 9, 9, 9, 9, 9],
     fw_command = [], fw_log = [], fw_misc = replicate 18432 0\<rparr>"

definition ex_fw_written :: fw_state where
  "ex_fw_written = ex_fw_state\<lparr>fw_mnt_point := ''/u'', fw_m_fileSize := 2039, fw_m_fwOffset := 102, fw_node := [1, 2, 3, 4, 5, 9, 9, 9]\<rparr>"

lemma ex_fw_length: "length ex_fw_head = HEAD_SIZE" "length ex_fw_header = HDR_SIZE"
  by (simp_all add: ex_fw_head_def ex_fw_header_def HDR_SIZE_def HDR_item_def HDR_item_count_def ITEM_SIZE_def
      MAX_PACKAGE_FILES_def HEAD_SIZE_def c_bytes_def)

lemma ex_fw_header_fields:
  "le_u32 ex_fw_header HDR_item_count = 1" "item_name ex_fw_header 0 = c_bytes ''recovery''" "item_file ex_fw_header 0 50 = 0"
  "item_file ex_fw_header 0 55 = 0" "item_offset ex_fw_header 0 = 0x78C" "item_size ex_fw_header 0 = 5"
  by (simp_all add: ex_fw_header_def le_u32_def HDR_item_count_def nth_append c_bytes_def item_name_def item_pos_def
      HDR_item_def ITEM_SIZE_def item_file_def item_offset_def item_size_def nth_Cons')

lemma ex_fw_head_fields: "le_u32 ex_fw_head 0 = 0x57464B52" "le_u32 ex_fw_head HEAD_dwFWOffset = 102"
  by (simp_all add: ex_fw_head_def le_u32_def HEAD_dwFWOffset_def nth_append)

lemma ex_fw_only_item: "only_item ex_fw_header ''recovery'' 0"
  by (simp add: only_item_def ex_fw_header_fields MAX_PACKAGE_FILES_def)

lemma ex_fw_GetFwOffset: "GetFwOffset ex_fw_image s = (102, s)"
  by (simp add: GetFwOffset_def ex_fw_image_def ex_fw_length ex_fw_head_fields)

lemma ex_fw_GetData: "GetData ex_fw_image 2039 102 HDR_SIZE = Some ex_fw_header"
   "GetData ex_fw_image 2039 2034 5 = Some [1, 2, 3, 4, 5]"
  using ex_fw_length by (simp_all add: GetData_def ex_fw_image_def HEAD_SIZE_def HDR_SIZE_def HDR_item_def
     HDR_item_count_def ITEM_SIZE_def MAX_PACKAGE_FILES_def)

lemma ex_fw_write: "WriteFwData ex_fw_env ''/u'' partition_name ex_fw_state = Continue (0, ex_fw_written)"
proof -
  have sz: "GetFwSize ex_fw_env ''/u'' ex_fw_state = Continue (2039, ex_fw_state\<lparr>fw_mnt_point := ''/u'', fw_m_fileSize := 2039\<rparr>)"
    using ex_fw_length by (simp add: GetFwSize_def ex_fw_env_def found_file_def stat_size_def ex_fw_image_def HEAD_SIZE_def HDR_SIZE_def HDR_item_def
     HDR_item_count_def ITEM_SIZE_def MAX_PACKAGE_FILES_def)
  have "file_buffer_size ex_fw_header 0 = 5" by (simp add: file_buffer_size_def ex_fw_header_fields)
  moreover have "write_chunks ex_fw_image 2039 2034 5 \<lparr>cv_entry = 0, cv_pos = 0, cv_node = [9, 9, 9, 9, 9, 9, 9, 9]\<rparr> =
      (True, \<lparr>cv_entry = 5, cv_pos = 5, cv_node = [1, 2, 3, 4, 5, 9, 9, 9]\<rparr>)"
  proof -
    have "node_write [9, 9, 9, 9, 9, 9, 9, 9] 0 [1, 2, 3, 4, 5] = (5, [1, 2, 3, 4, 5, 9, 9, 9])" by code_simp
    moreover have "write_chunks img fs st 0 u = (True, u)" for img fs st u by (simp add: write_chunks.simps)
    ultimately show ?thesis
      by (subst write_chunks.simps) (simp add: chunk_def LBA_TRANSFER_SIZE_def ex_fw_GetData)
  qed
  ultimately have "items_loop (write_chunks ex_fw_image 2039) True ex_fw_header 102 partition_name ([9, 9, 9, 9, 9, 9, 9, 9]) =
      Continue \<lparr>cv_entry = 5, cv_pos = 5, cv_node = [1, 2, 3, 4, 5, 9, 9, 9]\<rparr>"
    by (simp add: items_loop_def ex_fw_header_fields one_item_def MAX_PACKAGE_FILES_def partition_name_def)
  then show ?thesis
    using sz by (simp add: WriteFwData_def write_image_def write_items_def open_image_def ex_fw_GetFwOffset ex_fw_env_def
        ex_fw_GetData ex_fw_header_fields ex_fw_written_def ex_fw_state_def)
qed



definition ex_fw_message :: bytes where
  "ex_fw_message = c_bytes ''--update_package=/u''"

lemma ex_fw_reboots:
  "\<exists>s'. update_main ex_fw_env [''update'', ''ota'', ''/u''] ex_fw_state = Return s'"
proof -
  have "\<exists>msg. boot_message (c_bytes ''--update_package=/u'') = Some msg"
    by (simp add: boot_message_def recovery_field_bytes c_bytes_def)
  moreover have "CheckFwData ex_fw_env partition_name ex_fw_written = Continue True"
    by (rule WriteFwData_success [OF ex_fw_write], erule wrote_checks) (simp add: ex_fw_env_def)
  ultimately show ?thesis
    using ex_fw_write by (auto simp: update_main_def is_ota_def rebootUpdate_def installPackage_def str_update_package_def
        bootCommand_def ex_fw_env_def)
qed

lemma Update_reboots_only_verified_witness:
  "\<exists>s' msg. update_main ex_fw_env [''update'', ''ota'', ''/u''] ex_fw_state = Return s' \<and>
    fw_node s' = [1, 2, 3, 4, 5, 9, 9, 9] \<and> boot_message ex_fw_message = Some msg \<and>
    fw_misc s' = snd (node_write (replicate 18432 0) 16384 msg) \<and> fw_command s' = ex_fw_message @ [10]"
proof -
  obtain s' where s': "update_main ex_fw_env [''update'', ''ota'', ''/u''] ex_fw_state = Return s'"
    using ex_fw_reboots by blast
  show ?thesis
    using Update_reboots_only_verified [OF s'] s' ex_fw_write
    by (auto simp: ex_fw_message_def str_update_package_def ex_fw_written_def ex_fw_state_def MISC_MSG_OFFSET_def)
qed

end
