(* ===== verification/Spec2Isabelle.thy ===== *)
theory Spec2Isabelle
  imports Allocator PostProcessorRegs DeviceClient RkDemo FirmwareUpdate
begin

text \<open>
  A verification library for the JPEG decoder of package/rockchip/rkjpeg and the update tool of
  package/rockchip/update.

  The decoder drives a hardware JPEG core: software parses the headers of a JPEG stream into a
  container (jpegdeccontainer.h), programs the core through an image of its registers (reg.cpp),
  hands it the quantisation and Huffman tables in a buffer, and continues with the next slice, scan
  or picture when the core interrupts.

  Theories and the code they model (paths under src/package/rockchip/rkjpeg/src):

  \<^item> Prelude: machine integers, bit fields of a word, and the outcome of C code: Continue, Return
    (an early return with its code), Undefined (an access out of bounds or through a null pointer)
    and OutOfFuel. The loops are forEach (for loops) and whileLoop (while loops, with fuel).
  \<^item> RegFile: dec/inc/6731table.h, dec/vpu_inc/rkregdrv.h and dec/vpu_inc/reg.cpp, the register
    image and its fields; the locale register_file states what the clients rely on.
  \<^item> JpegTypes: the constants, return codes and structures of the decoder.
  \<^item> BitReader: dec/jpeg/jpegdecutils.c, the bit reader; the locale byte_source is its interface
    towards the parsers of headers.
  \<^item> Headers: JpegDecDecodeFrameHdr and JpegDecMode of dec/jpeg/jpegdechdrs.c.
  \<^item> Tables: JpegDecDecodeQuantTables, JpegDecDecodeHuffmanTables and JpegDefaultHuffmanTables of
    the same file.
  \<^item> Scan: dec/jpeg/jpegdecscan.c, and JpegDecAllocateResidual and JpegDecSliceSizeCalculation of
    dec/jpeg/jpegdecinternal.c.
  \<^item> HwTables: JpegDecWriteTables of dec/jpeg/jpegdecinternal.c; the locale byte_sink is the
    interface of the routines that append a byte to the table buffer.

  \<^item> HwLengths: the table numbers of the chroma components (JpegDecChromaTableSelectors) and the
    code length counts (JpegDecWriteLenBits and its two variants), as runs of register writes.
  \<^item> HwScanTables: JpegDecWriteTablesNonInterleaved and JpegDecWriteTablesProgressive.
  \<^item> HwInit: JpegDecClearStructs, JpegDecSetHwStrmParams, JpegDecInitHW and its variants for the
    next slice, the next input buffer and the next progressive scan, JpegFlushRegs. The state is
    hw_state: the container, the table buffer and the messages sent to the driver.

  \<^item> ScanHdrs: JpegDecNextScanHdrs, the loop over the markers between two scans.
  \<^item> ImageInfo: JpegDecGetImageInfo of dec/jpeg/jpegdecapi.c, the walk over the headers that tells a
    caller the size and format of a picture and its thumbnail; InfoReturns shows that it returns on
    every stream.
  \<^item> EmptyScan: JpegDecInitHWEmptyScan, the scan that the core gets for a component without one.
  \<^item> Decode: JpegDecDecode of dec/jpeg/jpegdecapi.c, the call that ties the parts together: headers,
    a pass of the core, its interrupt, the slice or the scan that became ready, the end of a picture.
    DecodeIrq abstracts a pass of the core to the event it reports (pass_of_event), DecodeSlices
    follows a picture over the calls that deliver its slices.

  \<^item> PostProcessor: SetPostProcessor of dec/jpeg/jpegdecinternal.c, the formats, the contrast and
    saturation, the scaling ratios, as the list of register writes each part makes;
    PostProcessorRegs reads the sizes and ratios back from the registers.
  \<^item> Instance: the life of a decoder, JpegDecInit and JpegDecRelease of dec/jpeg/jpegdecapi.c over the
    client of the device (VPUClientInit, VPUClientRelease of dec/vpu_inc/vpu.c) and a ledger of what
    the process holds; DeviceClient has the probes of vpu.c and JpegDecGetBuild.
  \<^item> InfoFrame: what JpegDecGetImageInfo leaves alone, by a predicate (stays_in) that every step keeps.
    InfoBytes and InfoHeader: what it reads from a well-formed header, given as a record of segments
    (jpeg_header) with its bytes, and what JpegDecDecode makes of a progressive one.

  \<^item> Allocator: allocator/allocator_drm.c over a kernel whose system calls are a parameter
    (drm_kernel); kernel_laws names what the theorems use of it. An operation is None when it does
    not return.
  \<^item> StreamInput: how the client class of test/pv_jpegdec_api.cpp brings a picture into the buffer of
    the hardware.
  \<^item> RkDecoder: that class, Rk_JpegDecoder, its members as a record, init, deinit and the steps of
    pv_rkJpegdecoder_oneframe, which ties Instance, Allocator, StreamInput, ImageInfo, PostProcessor and
    Decode together. RkPicture: the frame it hands out, the slices it forces, the pictures it refuses
    for their size. RkHeader: the way from a well-formed header to the decoder, and progressive
    pictures. RkDemo: the same on concrete clients.

  \<^item> FirmwareUpdate: the update tool, update_recv/update_recv.c and update.c: what WriteFwData installs,
    that CheckFwData accepts it, and that the reboot for an update comes only behind both.

  Target and configuration: a 32-bit ARM with DRM_LINUX defined, without JPEGDEC_ERROR_RESILIENCE
  and JPEGDEC_RESET_OUTPUT, and with ASSERT and the trace macros empty, as the package builds it.
  RK_U32 is a 32-bit word whose operations wrap.

  Parameters: the memory a stream pointer reads from, the allocators (malloc, the DRM allocator
  behind os_allocator), the kernel interface of the core (core, the reply to the ioctl that waits for
  it, a function of the messages it was sent), the device (open, access, its ioctls, and the new of
  the register object, functions of what the process holds) and the content of a local variable that
  the code does not initialise (infoTmp of JpegDecDecode). The record rk_env
  collects them for the client class. Hypotheses about them are named definitions.

  Fuel: the loops over a segment get one pass more than the stream has bytes (stream_fuel); each
  pass reads at least one byte, and the theorems on termination show that this is enough. The loops
  of JpegDecGetImageInfo get their fuel as an argument; InfoReturns shows that 2 ^ 27 passes are
  enough for every stream. JpegDecDecode and JpegDecNextScanHdrs take it as an argument too, for
  they need not return. Rk_JpegDecoder passes re_fuel on to
  them and to its own loop over the slices; its loop that forces slices gets 8100 passes, more than any
  row of at least one MCU needs, and the one that allocates makes the 256 tries of the code.

  Not modelled: dec/jpeg/dwl_test.c, whose functions return a constant or call malloc and memcpy, and
  VPUClientSendReg, whose result is only printed. Of test/pv_jpegdec_api.cpp and hw_jpegdecapi.c the
  printed messages and the files written for debugging. The other programs of the repository (vendor_storage, io, rtw_simple_config,
  pm-suspend-api, led_control_app, modeset, jpegdemo) are command line tools around system calls and
  libraries.
\<close>

end
